(* ===== verification/Prelude.thy ===== *)
theory Prelude
  imports Main
begin

text \<open>
  Shared vocabulary of the development: instants, exceptions, results, the text guards that
  every Foxhound module repeats (\<open>strip\<close>, bounded length, no control characters) and the
  SQLite table operations the modules are written with.  A table is the list of its rows in
  insertion order; \<open>INTEGER PRIMARY KEY AUTOINCREMENT\<close> is \<open>next_id\<close>, an
  \<open>UPDATE ... WHERE\<close> is \<open>update_where\<close>, its \<open>rowcount\<close> is \<open>rowcount\<close>, and
  \<open>SELECT ... fetchone()\<close> is \<open>List.find\<close>.
\<close>

section \<open>Instants, exceptions and results\<close>

text \<open>
  Instants are seconds since the epoch.  The code stores them as ISO-8601 text rendered from a
  UTC clock with \<open>timespec="seconds"\<close>, which has a fixed width, so that the string order
  SQLite compares with is the order of the instants.
\<close>

type_synonym time = int
type_synonym rowid = int

definition days :: "int \<Rightarrow> time" where
  "days n = n * 86400"

datatype exc =
    TaskCompletionError string
  | TaskRelationError string
  | DuplicateProposalError string
  | TaskLedgerError string
  | IntegrityError string
  | NativeIntakeConflict
  | ValueError string
  | TypeError string
  | KeyError string

text \<open>A computation that may raise: \<open>Inl\<close> is the exception, \<open>Inr\<close> the value.\<close>

fun rbind :: "'e + 'a \<Rightarrow> ('a \<Rightarrow> 'e + 'b) \<Rightarrow> 'e + 'b" where
  "rbind (Inl e) f = Inl e"
| "rbind (Inr x) f = f x"

text \<open>
  Every service operation runs between \<open>BEGIN IMMEDIATE\<close> and a \<open>commit\<close> or a
  \<open>rollback\<close>: an exception leaves the database as it was.
\<close>

definition run_tx :: "('d \<Rightarrow> 'e + ('a \<times> 'd)) \<Rightarrow> 'd \<Rightarrow> ('e + 'a) \<times> 'd" where
  "run_tx h d = (case h d of Inl e \<Rightarrow> (Inl e, d) | Inr (x, d') \<Rightarrow> (Inr x, d'))"

named_theorems table_simps

lemma rbind_Inr_iff [table_simps]: "rbind m f = Inr y \<longleftrightarrow> (\<exists>x. m = Inr x \<and> f x = Inr y)"
  by (cases m) auto

lemma rbind_Inl_iff: "rbind m f = Inl e \<longleftrightarrow> m = Inl e \<or> (\<exists>x. m = Inr x \<and> f x = Inl e)"
  by (cases m) auto

lemma run_tx_raised: "h d = Inl e \<Longrightarrow> run_tx h d = (Inl e, d)"
  by (simp add: run_tx_def)

section \<open>Text guards\<close>

text \<open>
  Text is a list of ASCII characters.  \<open>is_space\<close> is \<open>str.isspace\<close> on ASCII (which is
  also what \<open>\s\<close> of \<open>re\<close> matches), \<open>strip\<close> is \<open>str.strip\<close>, \<open>lower\<close> is
  \<open>str.casefold\<close> on ASCII.
\<close>

definition code_of :: "char \<Rightarrow> nat" where
  "code_of c = of_char c"

definition is_space :: "char \<Rightarrow> bool" where
  "is_space c = (let n = code_of c in (9 \<le> n \<and> n \<le> 13) \<or> (28 \<le> n \<and> n \<le> 32))"

definition is_alnum :: "char \<Rightarrow> bool" where
  "is_alnum c = (let n = code_of c in (48 \<le> n \<and> n \<le> 57) \<or> (65 \<le> n \<and> n \<le> 90) \<or> (97 \<le> n \<and> n \<le> 122))"

text \<open>\<open>str.split\<close> at one character.\<close>

fun split_on :: "char \<Rightarrow> string \<Rightarrow> string list" where
  "split_on sep [] = [[]]"
| "split_on sep (c # cs) = (if c = sep then [] # split_on sep cs
     else (case split_on sep cs of [] \<Rightarrow> [[c]] | w # ws \<Rightarrow> (c # w) # ws))"

definition is_control :: "char \<Rightarrow> bool" where
  "is_control c = (let n = code_of c in n < 32 \<or> n = 127)"

definition strip :: "string \<Rightarrow> string" where
  "strip s = rev (dropWhile is_space (rev (dropWhile is_space s)))"

definition lower_char :: "char \<Rightarrow> char" where
  "lower_char c = (let n = code_of c in if 65 \<le> n \<and> n \<le> 90 then char_of (n + 32) else c)"

definition casefold :: "string \<Rightarrow> string" where
  "casefold = map lower_char"

definition has_control :: "string \<Rightarrow> bool" where
  "has_control s = list_ex is_control s"

text \<open>
  The \<open>_bounded\<close> helper that each module repeats with an exception of its own: strip, check
  the length, refuse control characters.
\<close>

definition bounded_text :: "(string \<Rightarrow> exc) \<Rightarrow> string \<Rightarrow> string \<Rightarrow> nat \<Rightarrow> exc + string" where
  "bounded_text err value field maximum =
     (let v = strip value in
      if \<not> (1 \<le> length v \<and> length v \<le> maximum) then Inl (err (field @ '' has invalid length''))
      else if has_control v then Inl (err (field @ '' contains control characters''))
      else Inr v)"

lemma bounded_text_Inr_iff [table_simps]:
  "bounded_text err value field maximum = Inr v \<longleftrightarrow>
     v = strip value \<and> 1 \<le> length v \<and> length v \<le> maximum \<and> \<not> has_control v"
  by (auto simp: bounded_text_def Let_def)

lemma dropWhile_hd_not: "dropWhile P xs = y # ys \<Longrightarrow> \<not> P y"
  using hd_dropWhile [of P xs] by fastforce

lemma dropWhile_id: "s = [] \<or> \<not> P (hd s) \<Longrightarrow> dropWhile P s = s"
  by (cases s) auto

text \<open>Dropping at the end of a list keeps its head, so a stripped text stays stripped.\<close>

lemma hd_rev_dropWhile_rev:
  assumes "rev (dropWhile P (rev t)) \<noteq> []"
  shows "hd (rev (dropWhile P (rev t))) = hd t"
proof -
  have "t = rev (dropWhile P (rev t)) @ rev (takeWhile P (rev t))"
    by (metis rev_append rev_rev_ident takeWhile_dropWhile_id)
  then show ?thesis using assms by (metis hd_append2)
qed

lemma strip_ends:
  assumes "strip s \<noteq> []"
  shows "\<not> is_space (hd (strip s))" and "\<not> is_space (hd (rev (strip s)))"
proof -
  let ?t = "dropWhile is_space s"
  have "hd (strip s) = hd ?t"
    using assms unfolding strip_def by (rule hd_rev_dropWhile_rev)
  moreover have "?t \<noteq> []"
  proof
    assume "?t = []"
    then show False using assms by (simp add: strip_def del: dropWhile_eq_Nil_conv)
  qed
  ultimately show "\<not> is_space (hd (strip s))" by (metis hd_dropWhile)
  have "dropWhile is_space (rev ?t) \<noteq> []"
    using assms unfolding strip_def by simp
  then show "\<not> is_space (hd (rev (strip s)))"
    unfolding strip_def rev_rev_ident by (rule hd_dropWhile)
qed

lemma strip_idem [simp]: "strip (strip s) = strip s"
proof -
  have "dropWhile is_space (strip s) = strip s"
    using strip_ends(1) by (intro dropWhile_id) blast
  moreover have "dropWhile is_space (rev (strip s)) = rev (strip s)"
    using strip_ends(2) by (intro dropWhile_id) auto
  ultimately show ?thesis
    by (subst strip_def) (simp only: rev_rev_ident)
qed

text \<open>\<open>str(n)\<close> for a number that is not negative.\<close>

fun digits :: "nat \<Rightarrow> string" where
  "digits n = (if n < 10 then [char_of (48 + n)] else digits (n div 10) @ [char_of (48 + n mod 10)])"

declare digits.simps [simp del]

section \<open>Table operations\<close>

definition update_where :: "('r \<Rightarrow> bool) \<Rightarrow> ('r \<Rightarrow> 'r) \<Rightarrow> 'r list \<Rightarrow> 'r list" where
  "update_where P f rows = map (\<lambda>r. if P r then f r else r) rows"

definition rowcount :: "('r \<Rightarrow> bool) \<Rightarrow> 'r list \<Rightarrow> nat" where
  "rowcount P rows = length (filter P rows)"

text \<open>
  The next \<open>AUTOINCREMENT\<close> key: one more than the largest key ever used.  The tables it is
  used for never lose a row (a trigger refuses every \<open>DELETE\<close>, or nothing deletes).
\<close>

definition next_id :: "('r \<Rightarrow> int) \<Rightarrow> 'r list \<Rightarrow> int" where
  "next_id key rows = 1 + fold max (map key rows) 0"

definition unique_key :: "('r \<Rightarrow> 'k) \<Rightarrow> 'r list \<Rightarrow> bool" where
  "unique_key key rows = distinct (map key rows)"

abbreviation row_of :: "('r \<Rightarrow> 'k) \<Rightarrow> 'k \<Rightarrow> 'r list \<Rightarrow> 'r option" where
  "row_of key k rows \<equiv> List.find (\<lambda>r. key r = k) rows"

lemma fold_max_ge_start: "m \<le> fold max xs (m :: int)"
proof (induction xs arbitrary: m)
  case (Cons x xs)
  from Cons [of "max x m"] show ?case by simp
qed simp

lemma fold_max_ge: "x \<in> set xs \<Longrightarrow> x \<le> fold max xs (m :: int)"
proof (induction xs arbitrary: m)
  case (Cons y xs)
  then show ?case
    using fold_max_ge_start [of "max y m" xs] by auto
qed simp

lemma next_id_fresh: "r \<in> set rows \<Longrightarrow> key r < next_id key rows"
  using fold_max_ge [of "key r" "map key rows" 0] by (simp add: next_id_def)

lemma next_id_positive: "1 \<le> next_id key rows"
  using fold_max_ge_start [of 0 "map key rows"] by (simp add: next_id_def)

lemma set_update_where [table_simps]:
  "set (update_where P f rows) = {f r | r. r \<in> set rows \<and> P r} \<union> {r \<in> set rows. \<not> P r}"
  by (auto simp: update_where_def)

lemma update_whereE:
  assumes "x \<in> set (update_where P f rows)"
  obtains r where "r \<in> set rows" and "x = (if P r then f r else r)"
  using assms by (auto simp: update_where_def)

lemma length_update_where [simp]: "length (update_where P f rows) = length rows"
  by (simp add: update_where_def)

lemma update_where_Nil [simp]: "update_where P f [] = []"
  by (simp add: update_where_def)

lemma update_where_Cons:
  "update_where P f (r # rows) = (if P r then f r else r) # update_where P f rows"
  by (simp add: update_where_def)

lemma update_where_append [table_simps]:
  "update_where P f (xs @ ys) = update_where P f xs @ update_where P f ys"
  by (simp add: update_where_def)

lemma update_where_none: "(\<And>r. r \<in> set rows \<Longrightarrow> \<not> P r) \<Longrightarrow> update_where P f rows = rows"
  by (induction rows) (auto simp: update_where_def)

lemma map_update_where:
  "(\<And>r. key (f r) = key r) \<Longrightarrow> map key (update_where P f rows) = map key rows"
  by (simp add: update_where_def comp_def)

lemma unique_key_update:
  "(\<And>r. key (f r) = key r) \<Longrightarrow> unique_key key (update_where P f rows) = unique_key key rows"
  by (simp add: unique_key_def map_update_where)

lemma unique_key_insert:
  "unique_key key rows \<Longrightarrow> key r = next_id key rows \<Longrightarrow> unique_key key (rows @ [r])"
  using next_id_fresh [of _ rows key] by (fastforce simp: unique_key_def)

lemma find_update_where:
  assumes "\<And>r. key (f r) = key r"
  shows "row_of key k (update_where P f rows)
    = map_option (\<lambda>r. if P r then f r else r) (row_of key k rows)"
  using assms by (induction rows) (auto simp: update_where_def)

lemma find_append:
  "List.find P (xs @ ys) = (case List.find P xs of None \<Rightarrow> List.find P ys | Some r \<Rightarrow> Some r)"
  by (induction xs) auto

lemma find_SomeD: "List.find P rows = Some r \<Longrightarrow> r \<in> set rows \<and> P r"
  by (auto simp: find_Some_iff)

lemma row_of_unique:
  assumes "unique_key key rows"
  shows "row_of key k rows = Some r \<longleftrightarrow> r \<in> set rows \<and> key r = k"
  using assms by (induction rows) (auto simp: unique_key_def)

lemma hd_row_mem: "(case rows of [] \<Rightarrow> None | r # _ \<Rightarrow> Some r) = Some x \<Longrightarrow> x \<in> set rows"
  by (cases rows) auto

lemma rowcount_unique:
  assumes "unique_key key rows"
  shows "rowcount (\<lambda>r. key r = k \<and> Q r) rows
    = (case row_of key k rows of None \<Rightarrow> 0 | Some r \<Rightarrow> if Q r then 1 else 0)"
  using assms
proof (induction rows)
  case Nil
  then show ?case by (simp add: rowcount_def)
next
  case (Cons r rows)
  show ?case
  proof (cases "key r = k")
    case True
    with Cons.prems have "k \<notin> key ` set rows"
      by (simp add: unique_key_def)
    then have "filter (\<lambda>r. key r = k \<and> Q r) rows = []"
      unfolding filter_empty_conv by blast
    with True show ?thesis by (simp add: rowcount_def)
  next
    case False
    with Cons show ?thesis by (simp add: rowcount_def unique_key_def)
  qed
qed

text \<open>A row read at the top of a transaction is the row the later \<open>UPDATE\<close> meets.\<close>

lemma row_of_key: "row_of key k rows = Some r \<Longrightarrow> key r = k"
  by (auto dest: find_SomeD)

lemma update_where_unique:
  assumes "unique_key key rows" and "r \<in> set rows" and "Q r"
  shows "update_where (\<lambda>x. key x = key r \<and> Q x) f rows = update_where (\<lambda>x. key x = key r) (\<lambda>_. f r) rows"
proof -
  have "x = r" if "x \<in> set rows" "key x = key r" for x
    using row_of_unique [OF assms(1), of "key r" x] row_of_unique [OF assms(1), of "key r" r] assms(2) that by simp
  then show ?thesis using assms(3) by (auto simp: update_where_def)
qed

lemma filter_update_where_same:
  "(\<And>r. P r \<Longrightarrow> Q (f r) = Q r) \<Longrightarrow>
   length (filter Q (update_where P f rows)) = length (filter Q rows)"
  by (induction rows) (auto simp: update_where_def)

text \<open>A table before and after a request, row by row.\<close>

lemma list_all2_update_where:
  assumes "\<And>r. P r \<Longrightarrow> R r (f r)" and "\<And>r. R r r"
  shows "list_all2 R rows (update_where P f rows)"
  using assms by (induction rows) (auto simp: update_where_def)

lemma list_all2_map_eq:
  "list_all2 R xs ys \<Longrightarrow> (\<And>x y. R x y \<Longrightarrow> g y = g x) \<Longrightarrow> map g ys = map g xs"
  by (induction rule: list_all2_induct) auto

lemma list_all2_rowcount_le:
  "list_all2 R xs ys \<Longrightarrow> (\<And>x y. R x y \<Longrightarrow> P y \<Longrightarrow> P x) \<Longrightarrow> rowcount P ys \<le> rowcount P xs"
  by (induction rule: list_all2_induct) (auto simp: rowcount_def le_SucI)

lemma list_all2_set_right:
  "list_all2 R xs ys \<Longrightarrow> y \<in> set ys \<Longrightarrow> \<exists>x \<in> set xs. R x y"
  by (induction rule: list_all2_induct) auto

lemma list_all2_set_left:
  "list_all2 R xs ys \<Longrightarrow> x \<in> set xs \<Longrightarrow> \<exists>y \<in> set ys. R x y"
  by (induction rule: list_all2_induct) auto

section \<open>Generators that may raise\<close>

text \<open>The results of a generator, unless one of them is missing.\<close>

fun all_some :: "'a option list \<Rightarrow> 'a list option" where
  "all_some [] = Some []"
| "all_some (None # xs) = None"
| "all_some (Some x # xs) = map_option ((#) x) (all_some xs)"

lemma all_some_None: "all_some xs = None \<longleftrightarrow> None \<in> set xs"
  by (induction xs rule: all_some.induct) auto

lemma all_some_Some: "all_some xs = Some ys \<longleftrightarrow> xs = map Some ys"
proof (induction xs arbitrary: ys rule: all_some.induct)
  case (3 x xs)
  show ?case by (cases ys) (auto simp: 3)
qed auto

section \<open>Sequences of requests\<close>

text \<open>A loop over fetched rows, each body of which may raise.\<close>

fun each :: "('r \<Rightarrow> 'd \<Rightarrow> 'e + 'd) \<Rightarrow> 'r list \<Rightarrow> 'd \<Rightarrow> 'e + 'd" where
  "each f [] d = Inr d"
| "each f (r # rs) d = rbind (f r d) (each f rs)"

text \<open>What every body does to the state, the loop does in sequence.\<close>

lemma each_keeps:
  assumes "\<And>d. P d d" and "\<And>d d1 d2. P d d1 \<Longrightarrow> P d1 d2 \<Longrightarrow> P d d2"
    and "\<And>r d d'. r \<in> set rs \<Longrightarrow> f r d = Inr d' \<Longrightarrow> P d d'" and "each f rs d = Inr d'"
  shows "P d d'"
  using assms(3,4)
proof (induction rs arbitrary: d)
  case Nil
  then show ?case using assms(1) by simp
next
  case (Cons r rs)
  then obtain d1 where d1: "f r d = Inr d1" "each f rs d1 = Inr d'" by (auto simp: rbind_Inr_iff)
  then have "P d d1" "P d1 d'" using Cons by auto
  then show ?case by (rule assms(2))
qed

text \<open>Requests handled one after the other, each answer kept.\<close>

fun run_ops :: "('r \<Rightarrow> 'd \<Rightarrow> 'o \<times> 'd) \<Rightarrow> 'r list \<Rightarrow> 'd \<Rightarrow> 'o list \<times> 'd" where
  "run_ops op [] d = ([], d)"
| "run_ops op (r # rs) d =
     (let (x, d1) = op r d; (xs, d2) = run_ops op rs d1 in (x # xs, d2))"

lemma run_ops_Cons [simp]:
  "run_ops op (r # rs) d
    = (fst (op r d) # fst (run_ops op rs (snd (op r d))), snd (run_ops op rs (snd (op r d))))"
  by (simp add: split_beta)

declare run_ops.simps(2) [simp del]

lemma length_run_ops: "length (fst (run_ops op rs d)) = length rs"
  by (induction rs arbitrary: d) simp_all

lemma run_ops_invariant:
  "(\<And>r d. I d \<Longrightarrow> I (snd (op r d))) \<Longrightarrow> I d \<Longrightarrow> I (snd (run_ops op rs d))"
  by (induction rs arbitrary: d) simp_all

text \<open>
  The contract of version-fenced requests: a request is accepted only at the stored version of its
  key, it then advances that version by one, and no request lowers a version.
\<close>

locale fenced_op =
  fixes step :: "'r \<Rightarrow> 'd \<Rightarrow> 'o \<times> 'd"
    and ok :: "'o \<Rightarrow> bool"
    and key :: "'r \<Rightarrow> 'k"
    and expected :: "'r \<Rightarrow> int"
    and version :: "'k \<Rightarrow> 'd \<Rightarrow> int option"
    and inv :: "'d \<Rightarrow> bool"
  assumes inv_step: "inv d \<Longrightarrow> inv (snd (step r d))"
    and accepted_version: "inv d \<Longrightarrow> ok (fst (step r d)) \<Longrightarrow> version (key r) d = Some (expected r)"
    and accepted_bumps:
      "inv d \<Longrightarrow> ok (fst (step r d)) \<Longrightarrow> version (key r) (snd (step r d)) = Some (expected r + 1)"
    and version_mono_step: "inv d \<Longrightarrow> version k d = Some v \<Longrightarrow>
      \<exists>v' \<ge> v. version k (snd (step r d)) = Some v'"
begin

text \<open>Once a key is past a version, no later request at that version is accepted.\<close>

lemma accepted_above:
  assumes "inv d" and "version k d = Some v" and "n < length rs"
    and "ok (fst (run_ops step rs d) ! n)" and "key (rs ! n) = k"
  shows "v \<le> expected (rs ! n)"
  using assms
proof (induction rs arbitrary: d v n)
  case (Cons r rs)
  let ?d1 = "snd (step r d)"
  have inv1: "inv ?d1" using Cons.prems(1) by (rule inv_step)
  obtain v1 where v1: "v \<le> v1" "version k ?d1 = Some v1"
    using version_mono_step [OF Cons.prems(1,2)] by blast
  show ?case
  proof (cases n)
    case 0
    then show ?thesis
      using accepted_version [OF Cons.prems(1), of r] Cons.prems by simp
  next
    case (Suc m)
    then have "v1 \<le> expected (rs ! m)"
      using Cons.IH [OF inv1 v1(2), of m] Cons.prems by simp
    with v1(1) Suc show ?thesis by simp
  qed
qed simp

lemma accepted_strictly_increasing:
  assumes "inv d" and "m < n" and "n < length rs"
    and "ok (fst (run_ops step rs d) ! m)" and "ok (fst (run_ops step rs d) ! n)"
    and "key (rs ! m) = key (rs ! n)"
  shows "expected (rs ! m) < expected (rs ! n)"
  using assms
proof (induction rs arbitrary: d m n)
  case (Cons r rs)
  let ?d1 = "snd (step r d)"
  have inv1: "inv ?d1" using Cons.prems(1) by (rule inv_step)
  obtain n' where n: "n = Suc n'" using Cons.prems(2) by (cases n) auto
  show ?case
  proof (cases m)
    case 0
    then have "ok (fst (step r d))" using Cons.prems by simp
    then have "version (key r) ?d1 = Some (expected r + 1)"
      by (rule accepted_bumps [OF Cons.prems(1)])
    from accepted_above [OF inv1 this, of n' rs] show ?thesis
      using Cons.prems 0 n by simp
  next
    case (Suc m')
    then show ?thesis
      using Cons.IH [OF inv1, of m' n'] Cons.prems n by simp
  qed
qed simp

end

text \<open>An operation that does nothing else: a refusal changes nothing, and other keys keep their versions.\<close>

locale versioned_op =
  fixes step :: "'r \<Rightarrow> 'd \<Rightarrow> 'o \<times> 'd"
    and ok :: "'o \<Rightarrow> bool"
    and key :: "'r \<Rightarrow> 'k"
    and expected :: "'r \<Rightarrow> int"
    and version :: "'k \<Rightarrow> 'd \<Rightarrow> int option"
    and inv :: "'d \<Rightarrow> bool"
  assumes step_inv: "inv d \<Longrightarrow> inv (snd (step r d))"
    and ok_version: "inv d \<Longrightarrow> ok (fst (step r d)) \<Longrightarrow> version (key r) d = Some (expected r)"
    and ok_bumps:
      "inv d \<Longrightarrow> ok (fst (step r d)) \<Longrightarrow> version (key r) (snd (step r d)) = Some (expected r + 1)"
    and refused_same: "inv d \<Longrightarrow> \<not> ok (fst (step r d)) \<Longrightarrow> snd (step r d) = d"
    and other_keys: "inv d \<Longrightarrow> version k d = Some v \<Longrightarrow> k \<noteq> key r \<Longrightarrow>
      \<exists>v' \<ge> v. version k (snd (step r d)) = Some v'"
begin

lemma version_mono:
  assumes "inv d" and "version k d = Some v"
  shows "\<exists>v' \<ge> v. version k (snd (step r d)) = Some v'"
proof (cases "k = key r \<and> ok (fst (step r d))")
  case True
  then show ?thesis
    using ok_version [of d r] ok_bumps [of d r] assms by auto
next
  case False
  then show ?thesis
    using refused_same [of d r] other_keys [of d k v r] assms by (cases "k = key r") auto
qed

end

sublocale versioned_op \<subseteq> fenced_op step ok key expected version inv
  by unfold_locales (use step_inv ok_version ok_bumps version_mono in blast)+

section \<open>Questions that are answered once\<close>

text \<open>
  The contract of a service that asks: an accepted answer closes its question, a closed question
  stays closed under every request, and it takes no answer.
\<close>

locale once_op =
  fixes step :: "'r \<Rightarrow> 'd \<Rightarrow> 'o \<times> 'd"
    and ok :: "'o \<Rightarrow> bool"
    and answers :: "'r \<Rightarrow> 'k option"
    and closed :: "'k \<Rightarrow> 'd \<Rightarrow> bool"
    and inv :: "'d \<Rightarrow> bool"
  assumes keeps: "inv d \<Longrightarrow> inv (snd (step r d))"
    and accepted_closes: "inv d \<Longrightarrow> answers r = Some k \<Longrightarrow> ok (fst (step r d)) \<Longrightarrow> closed k (snd (step r d))"
    and closed_stays: "inv d \<Longrightarrow> closed k d \<Longrightarrow> closed k (snd (step r d))"
    and closed_refuses: "inv d \<Longrightarrow> answers r = Some k \<Longrightarrow> closed k d \<Longrightarrow> \<not> ok (fst (step r d))"
begin

lemma never_again:
  assumes "inv d" and "closed k d" and "n < length rs" and "answers (rs ! n) = Some k"
  shows "\<not> ok (fst (run_ops step rs d) ! n)"
  using assms
proof (induction rs arbitrary: d n)
  case (Cons r rs)
  note keep = keeps [OF Cons.prems(1), of r] closed_stays [OF Cons.prems(1,2), of r]
  show ?case using Cons.IH [OF keep] closed_refuses [OF Cons.prems(1) _ Cons.prems(2), of r] Cons.prems
    by (cases n) auto
qed simp

lemma accepted_at_most_once:
  assumes "inv d" and "m < n" and "n < length rs"
    and "answers (rs ! m) = Some k" and "answers (rs ! n) = Some k"
    and "ok (fst (run_ops step rs d) ! m)"
  shows "\<not> ok (fst (run_ops step rs d) ! n)"
  using assms
proof (induction rs arbitrary: d m n)
  case (Cons r rs)
  note inv1 = keeps [OF Cons.prems(1), of r]
  obtain n' where n: "n = Suc n'" using Cons.prems(2) by (cases n) auto
  show ?case
  proof (cases m)
    case 0
    then have "closed k (snd (step r d))" using accepted_closes [OF Cons.prems(1), of r k] Cons.prems by simp
    then show ?thesis using never_again [OF inv1, of k n' rs] Cons.prems n by simp
  next
    case (Suc m')
    then show ?thesis using Cons.IH [OF inv1, of m' n'] Cons.prems n by simp
  qed
qed simp

end

section \<open>Tables that only grow\<close>

text \<open>
  The contract of an attributed record: no request removes a row, and what a request may do to
  a row is a reflexive and transitive relation.
\<close>

locale append_only =
  fixes step :: "'r \<Rightarrow> 'd \<Rightarrow> 'd"
    and rows :: "'d \<Rightarrow> 'e list"
    and evolves :: "'e \<Rightarrow> 'e \<Rightarrow> bool"
    and inv :: "'d \<Rightarrow> bool"
  assumes inv_step: "inv d \<Longrightarrow> inv (step r d)"
    and evolves_id: "evolves e e"
    and evolves_comp: "evolves e f \<Longrightarrow> evolves f g \<Longrightarrow> evolves e g"
    and step_evolves: "inv d \<Longrightarrow> e \<in> set (rows d) \<Longrightarrow> \<exists>e' \<in> set (rows (step r d)). evolves e e'"
begin

lemma run_evolves:
  assumes "inv d" and "e \<in> set (rows d)"
  shows "\<exists>e' \<in> set (rows (fold step rs d)). evolves e e'"
  using assms
proof (induction rs arbitrary: d e)
  case Nil
  then show ?case using evolves_id by (intro bexI [of _ e]) simp_all
next
  case (Cons r rs)
  from step_evolves [OF Cons.prems] obtain f where f: "f \<in> set (rows (step r d))" "evolves e f"
    by blast
  from Cons.IH [OF inv_step [OF Cons.prems(1)] f(1)] obtain g where "g \<in> set (rows (fold step (r # rs) d))" "evolves f g"
    by auto
  with f(2) show ?case using evolves_comp by blast
qed

end

section \<open>Questions that are answered once\<close>

text \<open>
  The contract of a store of questions: an admissible answer succeeds exactly while the
  question waits, it is recorded, and every other question is left as it was.
\<close>

locale question_store =
  fixes settle :: "'r \<Rightarrow> 'd \<Rightarrow> bool \<times> 'd"
    and key :: "'r \<Rightarrow> 'k"
    and answer :: "'r \<Rightarrow> 's"
    and waiting :: 's
    and state :: "'k \<Rightarrow> 'd \<Rightarrow> 's option"
    and admissible :: "'r \<Rightarrow> bool"
    and inv :: "'d \<Rightarrow> bool"
  assumes inv_settle: "inv d \<Longrightarrow> inv (snd (settle r d))"
    and settle_iff: "inv d \<Longrightarrow>
      fst (settle r d) \<longleftrightarrow> admissible r \<and> state (key r) d = Some waiting"
    and settle_answer: "inv d \<Longrightarrow> fst (settle r d) \<Longrightarrow> state (key r) (snd (settle r d)) = Some (answer r)"
    and settle_other: "inv d \<Longrightarrow> k \<noteq> key r \<Longrightarrow> state k (snd (settle r d)) = state k d"
    and settle_refused: "inv d \<Longrightarrow> \<not> fst (settle r d) \<Longrightarrow> state k (snd (settle r d)) = state k d"
    and answer_final: "answer r \<noteq> waiting"
begin

lemma answered_stays:
  assumes "inv d" and "state k d = Some a" and "a \<noteq> waiting"
  shows "state k (snd (run_ops settle rs d)) = Some a
    \<and> (\<forall>n < length rs. key (rs ! n) = k \<longrightarrow> \<not> fst (run_ops settle rs d) ! n)"
  using assms
proof (induction rs arbitrary: d)
  case (Cons r rs)
  have "state k (snd (settle r d)) = Some a"
    using Cons.prems settle_iff [of d r] settle_other [of d k r] settle_refused [of d r k]
    by (cases "k = key r") auto
  note IH = Cons.IH [OF inv_settle [OF Cons.prems(1)] this Cons.prems(3)]
  have "key r = k \<Longrightarrow> \<not> fst (settle r d)"
    using Cons.prems settle_iff [of d r] by auto
  with IH show ?case by (auto simp: nth_Cons split: nat.splits)
qed simp

text \<open>The first accepted answer is the only one, and it is what the store keeps.\<close>

lemma first_answer_wins:
  assumes "inv d" and "m < length rs" and "fst (run_ops settle rs d) ! m"
  shows "state (key (rs ! m)) (snd (run_ops settle rs d)) = Some (answer (rs ! m))
    \<and> (\<forall>n < length rs. n \<noteq> m \<longrightarrow> key (rs ! n) = key (rs ! m) \<longrightarrow> \<not> fst (run_ops settle rs d) ! n)"
  using assms
proof (induction rs arbitrary: d m)
  case (Cons r rs)
  note inv1 = inv_settle [OF Cons.prems(1), of r]
  show ?case
  proof (cases m)
    case 0
    then have ok: "fst (settle r d)" using Cons.prems by simp
    show ?thesis
      using answered_stays [OF inv1 settle_answer [OF Cons.prems(1) ok] answer_final, of rs] 0
      by (auto simp: nth_Cons split: nat.splits)
  next
    case (Suc l)
    then have ok: "fst (run_ops settle rs (snd (settle r d))) ! l" and l: "l < length rs"
      using Cons.prems by simp_all
    have "key r = key (rs ! l) \<Longrightarrow> \<not> fst (settle r d)"
    proof
      assume "key r = key (rs ! l)" and first: "fst (settle r d)"
      then show False
        using answered_stays [OF inv1 settle_answer [OF Cons.prems(1) first] answer_final, of rs] ok l
        by auto
    qed
    then show ?thesis
      using Cons.IH [OF inv1 l ok] Suc by (auto simp: nth_Cons split: nat.splits)
  qed
qed simp

end

end
