(* ===== verification/Store.thy ===== *)
theory Store
  imports Prelude
begin

text \<open>
  The SQLite database of Foxhound, as far as the modelled services read or write it: one record
  per row type (the tables that \<open>candidate_inbox.py\<close> creates), one field of \<open>db\<close> per
  table.  \<open>CHECK ... IN (...)\<close> columns are datatypes, \<open>NULL\<close> is \<open>None\<close>.  The three
  groups of task columns that \<open>task_ledger.py\<close> always moves together (owner, structure,
  participants) are records of their own.
\<close>

section \<open>Tasks, events and work items\<close>

datatype task_status = TaskOpen | TaskDone | TaskDropped

text \<open>The nine owner columns, in the order of \<open>_row_owner_values\<close>.\<close>

record owner_state =
  ow_display :: "string option"
  ow_ref_version :: int
  ow_kind :: "string option"
  ow_speaker_id :: "string option"
  ow_canonical_speaker_id :: "string option"
  ow_speaker_registry_id :: "string option"
  ow_pinned :: bool
  ow_provisional :: bool
  ow_person_id :: "string option"

text \<open>The object, action and confidence columns; the confidence is only copied and compared.\<close>

record structure_state =
  st_object :: "string option"
  st_action :: "string option"
  st_confidence :: "int option"

record speaker_ref =
  sp_kind :: string
  sp_speaker_id :: "string option"
  sp_canonical_speaker_id :: "string option"
  sp_speaker_registry_id :: "string option"
  sp_person_id :: "string option"

record task_row =
  tk_id :: rowid
  tk_status :: task_status
  tk_text :: string
  tk_owner :: owner_state
  tk_due :: "string option"
  tk_structure :: structure_state
  tk_version :: int
  tk_created_at :: time
  tk_updated_at :: time
  tk_closed_at :: "time option"
  tk_working_group :: "string option"

datatype event_kind =
    EvCreated | EvCandidateRevised | EvRevisionConflict | EvWithdrawn | EvWithdrawalConflict
  | EvReactivated | EvReactivationConflict | EvStatusChanged

record task_event =
  te_task_id :: rowid
  te_kind :: event_kind
  te_task_version :: int
  te_candidate_id :: "string option"
  te_source_revision :: "string option"
  te_from_status :: "task_status option"
  te_to_status :: "task_status option"
  te_occurred_at :: time

datatype work_state = WorkActive | WorkWithdrawn | WorkClosed

record work_item =
  wi_id :: rowid
  wi_task_id :: rowid
  wi_state :: work_state
  wi_created_at :: time
  wi_updated_at :: time

record source_history =
  sh_source :: string
  sh_stream_id :: string
  sh_item_id :: string
  sh_position :: int
  sh_revision :: string

datatype work_revision_kind = RevAccepted | RevSourceAdvance

record work_revision =
  wr_id :: rowid
  wr_work_item_id :: rowid
  wr_candidate_id :: string
  wr_source_revision :: string
  wr_task_version :: int
  wr_kind :: work_revision_kind
  wr_created_at :: time
  wr_history :: "source_history option"

section \<open>Candidates and their bindings\<close>

text \<open>
  A validated producer document (\<open>contracts/task_candidate.py\<close>).  A stored
  \<open>payload_json\<close> is kept as the outcome of parsing it: \<open>None\<close> is a document that
  \<open>json.loads\<close> or \<open>parse_task_candidate\<close> refuses.
\<close>

datatype life_state = LifeActive | LifeWithdrawn

record owner_ref =
  or_kind :: string
  or_speaker_id :: "string option"
  or_canonical_speaker_id :: "string option"
  or_speaker_registry_id :: "string option"
  or_pinned :: bool
  or_provisional :: bool
  or_person_id :: "string option"

record evidence_source =
  es_role :: string
  es_extract :: string

record candidate =
  cn_id :: string
  cn_system :: string
  cn_kind :: string
  cn_record_id :: string
  cn_item_id :: string
  cn_revision :: string
  cn_history :: "source_history option"
  cn_text :: string
  cn_owner :: "string option"
  cn_owner_ref :: "owner_ref option"
  cn_due :: "string option"
  cn_structure :: structure_state
  cn_participants :: "speaker_ref list"
  cn_working_group :: "string option"
  cn_sources :: "evidence_source list"
  cn_state :: life_state
  cn_changed_at :: "string option"
  cn_reason :: "string option"

record inbox_row =
  ib_candidate_id :: string
  ib_system :: string
  ib_kind :: string
  ib_record_id :: string
  ib_item_id :: string
  ib_revision :: string
  ib_payload :: "candidate option"

record revision_row =
  rh_candidate_id :: string
  rh_source_revision :: string
  rh_payload :: "candidate option"

record candidate_lifecycle_row =
  cl_candidate_id :: string
  cl_source_revision :: string
  cl_state :: life_state

datatype binding_relation = BindAccepted | BindFolded

record binding_row =
  bd_candidate_id :: string
  bd_source_revision :: string
  bd_task_id :: rowid
  bd_relation :: binding_relation
  bd_decided_at :: time

datatype life_resolution = ResCurrent | ResPreservedOpen | ResReaderConflict | ResClosedBySource

record lifecycle_row =
  lc_candidate_id :: string
  lc_source_revision :: string
  lc_task_version :: int
  lc_state :: life_state
  lc_resolution :: life_resolution
  lc_changed_at :: "string option"
  lc_decided_at :: time

datatype comparison = CmpAgreed | CmpDivergent | CmpRefused | CmpOther

record observation_row =
  ob_candidate_id :: string
  ob_source_revision :: string
  ob_comparison :: comparison

record refusal_row =
  hr_candidate_id :: string
  hr_source_revision :: string
  hr_producer :: string
  hr_stream_id :: string

record feed_item =
  fi_producer :: string
  fi_stream_id :: string
  fi_sequence :: int
  fi_candidate_id :: string
  fi_source_revision :: string

record feed_cursor =
  fc_producer :: string
  fc_stream_id :: string
  fc_cursor :: int

record intake_row =
  ni_producer :: string
  ni_stream_id :: string
  ni_activation_cursor :: int
  ni_cursor :: int
  ni_activated_at :: time
  ni_updated_at :: time

datatype intake_event_kind = IntakeActivated | IntakeAdvanced

record intake_event =
  ne_producer :: string
  ne_stream_id :: string
  ne_kind :: intake_event_kind
  ne_from_cursor :: int
  ne_to_cursor :: int
  ne_tasks_created :: nat
  ne_tasks_revised :: nat
  ne_candidates_unchanged :: nat
  ne_occurred_at :: time

record participant_row =
  pt_task_id :: rowid
  pt_position :: nat
  pt_ref :: speaker_ref

section \<open>Workflows\<close>

datatype workflow_status =
    WfAwaitingStart | WfSnoozed | WfQueued | WfRunning | WfAwaitingReview | WfCompleted
  | WfCancelled | WfParked

datatype workflow_phase = PhasePlan | PhaseExecute | PhaseExternalAction
datatype workflow_priority = PrioRaised | PrioNormal | PrioLowered
datatype execution_outcome =
  OutAwaitingPlan | OutAwaitingExternal | OutCompleted | OutDeclined | OutIneligible

record workflow_row =
  wf_task_id :: rowid
  wf_task_version :: int
  wf_status :: workflow_status
  wf_phase :: workflow_phase
  wf_version :: int
  wf_due_at :: "time option"
  wf_claim_token_digest :: "string option"
  wf_claimed_at :: "time option"
  wf_claim_heartbeat_at :: "time option"
  wf_claim_expires_at :: "time option"
  wf_failure_count :: int
  wf_current_run_id :: "string option"
  wf_last_failure_reason :: "string option"
  wf_last_failure_exit_code :: "int option"
  wf_last_failure_run_id :: "string option"
  wf_last_failure_at :: "time option"
  wf_next_attempt_at :: "time option"
  wf_parked_at :: "time option"
  wf_updated_at :: time
  wf_completed_at :: "time option"
  wf_profile_id :: "string option"
  wf_profile_revision :: "string option"
  wf_last_result_id :: "string option"
  wf_created_at :: time
  wf_steer :: bool
  wf_priority :: workflow_priority
  wf_priority_source :: "string option"

record workflow_event =
  we_task_id :: rowid
  we_kind :: string
  we_workflow_version :: int
  we_task_version :: int
  we_phase :: workflow_phase
  we_status :: workflow_status
  we_occurred_at :: time
  we_profile_id :: "string option"
  we_profile_revision :: "string option"

text \<open>
  A recorded result.  The JSON columns are kept as the texts that are stored and compared.
\<close>

record result_row =
  rs_result_id :: string
  rs_task_id :: rowid
  rs_workflow_version :: int
  rs_task_version :: int
  rs_phase :: workflow_phase
  rs_outcome :: execution_outcome
  rs_digest :: string
  rs_summary :: string
  rs_work_markdown :: string
  rs_questions :: string
  rs_external_actions :: string
  rs_deliverables :: string
  rs_references :: string
  rs_repository_impact :: bool
  rs_created_at :: time
  rs_profile_id :: "string option"
  rs_profile_revision :: "string option"
  rs_work_directory :: "string option"
  rs_kb_file :: "string option"
  rs_work_digest :: "string option"
  rs_instruction :: "int option"

record artifact_row =
  at_result_id :: string
  at_ordinal :: nat
  at_path :: string
  at_name :: string
  at_size :: int
  at_digest :: string
  at_run_directory :: string

record failure_digest_row =
  fg_task_id :: rowid
  fg_workflow_version :: int
  fg_phase :: workflow_phase
  fg_run_id :: "string option"
  fg_digest :: string
  fg_created_at :: time

datatype condition_kind = AfterTaskCompleted rowid | NotBefore time
datatype condition_state = CondActive | CondSatisfied | CondCanceled | CondNeedsReview

record condition_row =
  sc_id :: rowid
  sc_task_id :: rowid
  sc_task_version :: int
  sc_kind :: condition_kind
  sc_state :: condition_state
  sc_change_set_id :: rowid
  sc_created_at :: time
  sc_updated_at :: time

text \<open>The kind of a condition event is its state, except that an active condition was \<open>created\<close>.\<close>

record condition_event =
  se_condition_id :: rowid
  se_task_id :: rowid
  se_state :: condition_state
  se_occurred_at :: time

datatype ownership_status = OwnPending | OwnConfirmed | OwnKept | OwnReassigned

record ownership_review =
  ow_task_id :: rowid
  ow_task_version :: int
  ow_proposed_owner :: string
  ow_status :: ownership_status
  ow_decided_at :: "time option"

text \<open>The JSON snapshot of an automatic change: the task, and the workflow when there is one.\<close>

record change_snapshot =
  cs_task :: "int \<times> task_status"
  cs_workflow :: "(int \<times> workflow_status \<times> workflow_phase) option"

datatype change_status = ChgPending | ChgDelivering | ChgDelivered | ChgKept | ChgUndone

record change_row =
  ar_id :: rowid
  ar_kind :: string
  ar_task_id :: rowid
  ar_before :: change_snapshot
  ar_after :: change_snapshot
  ar_summary :: string
  ar_version :: int
  ar_status :: change_status
  ar_claim_token_digest :: "string option"
  ar_claim_expires_at :: "time option"
  ar_consumer_digest :: "string option"
  ar_transport :: "string option"
  ar_delivery_ref :: "string option"
  ar_resolved_at :: "time option"
  ar_created_at :: time
  ar_updated_at :: time

section \<open>Questions: completion evidence, relations and duplicate proposals\<close>

datatype evidence_state = EvidenceProposed | EvidenceAccepted | EvidenceRejected | EvidenceSuperseded

record evidence_row =
  ev_id :: rowid
  ev_task_id :: rowid
  ev_digest :: string
  ev_source_kind :: string
  ev_source_record_id :: string
  ev_source_item_id :: string
  ev_observed_at :: string
  ev_quotation :: string
  ev_reason :: string
  ev_detector :: string
  ev_confidence :: string
  ev_state :: evidence_state
  ev_card_id :: "rowid option"
  ev_created_at :: time
  ev_settled_at :: "time option"

datatype relation_kind = Supersedes | DuplicateOf
datatype asserter = AssertedByMachine | AssertedByReader

record relation_row =
  rl_id :: rowid
  rl_subject_id :: rowid
  rl_object_id :: rowid
  rl_kind :: relation_kind
  rl_basis :: string
  rl_asserted_by :: asserter
  rl_actor :: "string option"
  rl_note :: "string option"
  rl_created_at :: time
  rl_withdrawn_at :: "time option"
  rl_withdrawn_by :: "asserter option"

datatype proposal_state = DupProposed | DupConfirmed | DupRejected | DupSuperseded

record proposal_row =
  dp_id :: rowid
  dp_left_task_id :: rowid
  dp_right_task_id :: rowid
  dp_left_task_version :: int
  dp_right_task_version :: int
  dp_basis :: string
  dp_detector :: string
  dp_state :: proposal_state
  dp_created_at :: time
  dp_updated_at :: time
  dp_settled_at :: "time option"
  dp_card_id :: "rowid option"

datatype proposal_event_kind = PevProposed | PevConfirmed | PevRejected | PevReopened | PevSuperseded

record proposal_event =
  de_proposal_id :: rowid
  de_kind :: proposal_event_kind
  de_actor :: string
  de_reason :: "string option"
  de_occurred_at :: time

datatype title_state = TitleIdle | TitlePending | TitleRunning | TitleReady

record title_job =
  fj_task_id :: rowid
  fj_state :: title_state
  fj_title :: "string option"
  fj_attempts :: int
  fj_last_attempt_at :: "time option"
  fj_created_at :: time
  fj_updated_at :: time

text \<open>
  The durable obligation of duplicate detection.  The content digest is a SHA-256 over the
  compared columns; the model keeps the compared columns themselves.
\<close>

record compared_content =
  cc_text :: string
  cc_object :: "string option"
  cc_action :: "string option"
  cc_owner_columns :: owner_state
  cc_working_group :: "string option"
  cc_participants :: "speaker_ref list"

record duplicate_check =
  dc_task_id :: rowid
  dc_task_version :: int
  dc_content :: compared_content
  dc_signals_done :: bool
  dc_embedding_done :: bool
  dc_embedding_attempts :: int
  dc_enqueued_at :: time
  dc_updated_at :: time

section \<open>Review cards\<close>

datatype card_status =
  CardPending | CardDelivering | CardDelivered | CardSnoozed | CardResolved | CardCancelled

record card_row =
  cd_id :: rowid
  cd_task_id :: rowid
  cd_task_version :: int
  cd_source_revision :: "string option"
  cd_status :: card_status
  cd_version :: int
  cd_due_at :: time
  cd_claim_token_digest :: "string option"
  cd_claim_expires_at :: "time option"
  cd_consumer_digest :: "string option"
  cd_transport :: "string option"
  cd_delivery_ref :: "string option"
  cd_delivered_at :: "time option"
  cd_resolution :: "string option"
  cd_review_after :: "time option"
  cd_created_at :: time
  cd_updated_at :: time
  cd_resolved_at :: "time option"

datatype card_event_kind =
    CevScheduled | CevClaimed | CevDelivered | CevFailed | CevExpired | CevSnoozed
  | CevResolved | CevCancelled

record card_event =
  ce_card_id :: rowid
  ce_task_id :: rowid
  ce_kind :: card_event_kind
  ce_card_version :: int
  ce_task_version :: int
  ce_action :: "string option"
  ce_occurred_at :: time

section \<open>Task scheduling\<close>

datatype sched_kind = SkAfterTaskCompleted | SkNotBefore | SkRaisePriority | SkCreatePrerequisite
datatype change_set_state = SetActive | SetUndone | SetSuperseded | SetUndoConflict

text \<open>
  The recommendation document.  Like a candidate's payload, \<open>recommendation_json\<close> is kept as the
  outcome of parsing it.
\<close>

record sched_document =
  rd_kind :: sched_kind
  rd_target_task_id :: rowid
  rd_target_task_version :: int
  rd_expected_workflow_version :: int
  rd_rationale :: string
  rd_source_refs :: "string list"
  rd_research_receipt_id :: string
  rd_research_document_digest :: string
  rd_related_task_id :: "rowid option"
  rd_not_before :: "time option"
  rd_prerequisite_text :: "string option"

record change_set_row =
  ss_id :: rowid
  ss_target_task_id :: rowid
  ss_target_task_version :: int
  ss_expected_workflow_version :: int
  ss_kind :: sched_kind
  ss_state :: change_set_state
  ss_research_receipt_id :: string
  ss_research_document_digest :: string
  ss_recommendation_digest :: string
  ss_recommendation :: "sched_document option"
  ss_prior_priority :: "workflow_priority option"
  ss_prior_priority_source :: "string option"
  ss_resulting_workflow_version :: int
  ss_created_task_id :: "rowid option"
  ss_created_at :: time
  ss_updated_at :: time

datatype change_set_event_kind = SetEvApplied | SetEvUndone | SetEvUndoConflict

record change_set_event =
  sv_change_set_id :: rowid
  sv_task_id :: rowid
  sv_kind :: change_set_event_kind
  sv_occurred_at :: time

datatype sched_card_status = ScPending | ScDelivering | ScDelivered | ScResolved

record sched_card_row =
  rc_id :: rowid
  rc_change_set_id :: rowid
  rc_task_id :: rowid
  rc_status :: sched_card_status
  rc_version :: int
  rc_resolution :: "string option"
  rc_claim_token_digest :: "string option"
  rc_claim_expires_at :: "time option"
  rc_consumer_digest :: "string option"
  rc_transport :: "string option"
  rc_delivery_ref :: "string option"
  rc_delivered_at :: "time option"
  rc_created_at :: time
  rc_updated_at :: time
  rc_resolved_at :: "time option"

datatype sched_card_event_kind =
  RevScheduled | RevClaimed | RevExpired | RevDelivered | RevFailed | RevResolved | RevUndoConflict

record sched_card_event =
  rv_card_id :: rowid
  rv_change_set_id :: rowid
  rv_task_id :: rowid
  rv_kind :: sched_card_event_kind
  rv_card_version :: int
  rv_action :: "string option"
  rv_occurred_at :: time

text \<open>The four tables that only the scheduling service writes.\<close>

record sched_tables =
  change_sets :: "change_set_row list"
  change_set_events :: "change_set_event list"
  sched_cards :: "sched_card_row list"
  sched_card_events :: "sched_card_event list"

section \<open>Execution review cards\<close>

datatype exec_card_kind = EkStart | EkPlanReview | EkExternalReview | EkResultReview | EkSteer
datatype exec_card_status = EsPending | EsDelivering | EsDelivered | EsResolved | EsCancelled

record exec_card_row =
  xc_id :: rowid
  xc_task_id :: rowid
  xc_task_version :: int
  xc_workflow_version :: int
  xc_kind :: exec_card_kind
  xc_phase :: workflow_phase
  xc_result_id :: "string option"
  xc_status :: exec_card_status
  xc_version :: int
  xc_claim_token_digest :: "string option"
  xc_claim_expires_at :: "time option"
  xc_transport :: "string option"
  xc_delivery_ref :: "string option"
  xc_delivered_at :: "time option"
  xc_resolution :: "string option"
  xc_created_at :: time
  xc_updated_at :: time
  xc_resolved_at :: "time option"
  xc_consumer_digest :: "string option"
  xc_superseded_ref :: "string option"
  xc_superseded_transport :: "string option"
  xc_work_revision_id :: "rowid option"
  xc_steer_digest :: "string option"
  xc_summary_only :: bool

datatype exec_card_event_kind =
    XevScheduled | XevClaimed | XevDelivered | XevFailed | XevExpired | XevReleased | XevRequeued
  | XevRetracted | XevRefreshed | XevResolved | XevCancelled

record exec_card_event =
  xv_card_id :: rowid
  xv_task_id :: rowid
  xv_kind :: exec_card_event_kind
  xv_card_version :: int
  xv_workflow_version :: int
  xv_action :: "string option"
  xv_consumer_digest :: "string option"
  xv_occurred_at :: time

datatype retraction_state = RtPending | RtDelivering | RtCompleted | RtAbandoned

record retraction_row =
  rt_card_id :: rowid
  rt_transport :: string
  rt_delivery_ref :: string
  rt_state :: retraction_state
  rt_attempts :: int
  rt_claim_token_digest :: "string option"
  rt_claim_expires_at :: "time option"
  rt_created_at :: time
  rt_updated_at :: time

record steer_refresh_row =
  sf_card_id :: rowid
  sf_attempts :: int
  sf_last_refreshed_at :: time

text \<open>The owner columns of a hold are those of the task, with the canonical display name.\<close>

datatype hold_status = HoldActive | HoldReleased | HoldCancelled

record owner_hold_row =
  oh_id :: rowid
  oh_task_id :: rowid
  oh_task_version :: int
  oh_workflow_version :: int
  oh_status :: hold_status
  oh_owner :: owner_state
  oh_backstop_at :: time
  oh_last_checked_at :: "string option"
  oh_last_evidence_revision :: "string option"
  oh_last_match :: "bool option"
  oh_release_reason :: "string option"
  oh_created_at :: time
  oh_released_at :: "time option"

record owner_hold_event =
  hv_hold_id :: rowid
  hv_task_id :: rowid
  hv_kind :: string
  hv_matched :: "bool option"
  hv_evidence_revision :: "string option"
  hv_occurred_at :: time

record reader_input_row =
  ri_card_id :: rowid
  ri_task_id :: rowid
  ri_card_version :: int
  ri_task_version :: int
  ri_workflow_version :: int
  ri_target_workflow_version :: int
  ri_kind :: string
  ri_value :: string
  ri_prior_value :: "string option"
  ri_occurred_at :: time

record owner_change =
  oc_task_id :: rowid
  oc_task_version :: int
  oc_card_id :: rowid
  oc_from_owner :: "string option"
  oc_to_owner :: string
  oc_occurred_at :: time

text \<open>The tables of \<open>execution_cards.py\<close>.\<close>

record exec_card_tables =
  exec_cards :: "exec_card_row list"
  exec_card_events :: "exec_card_event list"
  retractions :: "retraction_row list"
  steer_refreshes :: "steer_refresh_row list"
  owner_holds :: "owner_hold_row list"
  owner_hold_events :: "owner_hold_event list"
  reader_inputs :: "reader_input_row list"
  owner_changes :: "owner_change list"

section \<open>The database\<close>

record db =
  tasks :: "task_row list"
  task_events :: "task_event list"
  participants :: "participant_row list"
  work_items :: "work_item list"
  work_revisions :: "work_revision list"
  inbox :: "inbox_row list"
  revision_history :: "revision_row list"
  candidate_lifecycles :: "candidate_lifecycle_row list"
  bindings :: "binding_row list"
  lifecycles :: "lifecycle_row list"
  observations :: "observation_row list"
  historical_refusals :: "refusal_row list"
  feed_items :: "feed_item list"
  feed_cursors :: "feed_cursor list"
  intakes :: "intake_row list"
  intake_events :: "intake_event list"
  workflows :: "workflow_row list"
  workflow_events :: "workflow_event list"
  results :: "result_row list"
  artifacts :: "artifact_row list"
  failure_digests :: "failure_digest_row list"
  conditions :: "condition_row list"
  condition_events :: "condition_event list"
  ownership_reviews :: "ownership_review list"
  change_reviews :: "change_row list"
  evidence :: "evidence_row list"
  relations :: "relation_row list"
  proposals :: "proposal_row list"
  proposal_events :: "proposal_event list"
  proposal_routes :: "(rowid \<times> string) list"
  title_jobs :: "title_job list"
  duplicate_checks :: "duplicate_check list"
  cards :: "card_row list"
  card_events :: "card_event list"
  sched :: sched_tables
  gates :: exec_card_tables

definition empty_db :: db where
  "empty_db = \<lparr>tasks = [], task_events = [], participants = [], work_items = [],
     work_revisions = [], inbox = [], revision_history = [], candidate_lifecycles = [],
     bindings = [], lifecycles = [], observations = [], historical_refusals = [],
     feed_items = [], feed_cursors = [], intakes = [], intake_events = [], workflows = [],
     workflow_events = [],
     results = [], artifacts = [], failure_digests = [], conditions = [], condition_events = [],
     ownership_reviews = [], change_reviews = [], evidence = [], relations = [],
     proposals = [], proposal_events = [], proposal_routes = [], title_jobs = [], duplicate_checks = [],
     cards = [], card_events = [],
     sched = \<lparr>change_sets = [], change_set_events = [], sched_cards = [], sched_card_events = []\<rparr>,
     gates = \<lparr>exec_cards = [], exec_card_events = [], retractions = [], steer_refreshes = [],
       owner_holds = [], owner_hold_events = [], reader_inputs = [], owner_changes = []\<rparr>\<rparr>"

end
