(* ===== verification/Ledger.thy ===== *)
theory Ledger
  imports Store
begin

text \<open>
  The task lifecycle of \<open>task_ledger.py\<close>: reading a task, the optimistic transition
  \<open>done\<close>/\<open>drop\<close>/\<open>reopen\<close> with its event and its work item, and what it leaves
  consistent.  The locale \<open>versioned_op\<close> is the contract every version-fenced operation
  of Foxhound offers its callers.
\<close>

section \<open>Operations\<close>

abbreviation task_of :: "rowid \<Rightarrow> db \<Rightarrow> task_row option" where
  "task_of i d \<equiv> row_of tk_id i (tasks d)"

datatype transition_disposition = TrApplied | TrRefused
datatype transition_refusal = TrInvalidAction | TrInvalidState | TrNotFound | TrStaleVersion

record transition_result =
  tr_disposition :: transition_disposition
  tr_task_id :: rowid
  tr_version :: "int option"
  tr_status :: "task_status option"
  tr_refusal :: "transition_refusal option"

definition tr_accepted :: "transition_result \<Rightarrow> bool" where
  "tr_accepted r \<longleftrightarrow> tr_disposition r = TrApplied"

definition tr_refuse :: "rowid \<Rightarrow> int option \<Rightarrow> task_status option \<Rightarrow> transition_refusal
    \<Rightarrow> transition_result" where
  "tr_refuse i v st ref = \<lparr>tr_disposition = TrRefused, tr_task_id = i, tr_version = v,
     tr_status = st, tr_refusal = Some ref\<rparr>"

definition targets :: "string \<Rightarrow> (task_status list \<times> task_status) option" where
  "targets action =
     (if action = ''done'' then Some ([TaskOpen], TaskDone)
      else if action = ''drop'' then Some ([TaskOpen], TaskDropped)
      else if action = ''reopen'' then Some ([TaskDone, TaskDropped], TaskOpen)
      else None)"

text \<open>\<open>_bound_source\<close> takes the first binding of the task, whatever its relation.\<close>

definition bound_source :: "rowid \<Rightarrow> db \<Rightarrow> string option \<times> string option" where
  "bound_source i d =
     (case List.find (\<lambda>b. bd_task_id b = i) (bindings d) of
        None \<Rightarrow> (None, None)
      | Some b \<Rightarrow> (Some (bd_candidate_id b), Some (bd_source_revision b)))"

definition insert_task_event :: "task_event \<Rightarrow> db \<Rightarrow> db" where
  "insert_task_event e d = d\<lparr>task_events := task_events d @ [e]\<rparr>"

definition set_work_state :: "rowid \<Rightarrow> work_state \<Rightarrow> time \<Rightarrow> db \<Rightarrow> db" where
  "set_work_state i st now d = d\<lparr>work_items :=
     update_where (\<lambda>w. wi_task_id w = i) (\<lambda>w. w\<lparr>wi_state := st, wi_updated_at := now\<rparr>)
       (work_items d)\<rparr>"

definition apply_task_transition ::
  "rowid \<Rightarrow> int \<Rightarrow> string \<Rightarrow> time \<Rightarrow> db \<Rightarrow> transition_result \<times> db" where
  "apply_task_transition i expected action now d =
     (case targets action of
        None \<Rightarrow> (tr_refuse i None None TrInvalidAction, d)
      | Some (sources, target) \<Rightarrow>
          (case task_of i d of
             None \<Rightarrow> (tr_refuse i None None TrNotFound, d)
           | Some row \<Rightarrow>
               let current_version = tk_version row; current_status = tk_status row in
               if current_version \<noteq> expected
               then (tr_refuse i (Some current_version) (Some current_status) TrStaleVersion, d)
               else if current_status \<notin> set sources
               then (tr_refuse i (Some current_version) (Some current_status) TrInvalidState, d)
               else
                 let next_version = current_version + 1;
                     closed_at = (if target = TaskOpen then None else Some now);
                     hit = (\<lambda>t. tk_id t = i \<and> tk_version t = current_version);
                     d1 = d\<lparr>tasks := update_where hit
                            (\<lambda>t. t\<lparr>tk_status := target, tk_version := next_version,
                                  tk_updated_at := now, tk_closed_at := closed_at\<rparr>) (tasks d)\<rparr> in
                 if rowcount hit (tasks d) \<noteq> 1
                 then (tr_refuse i (Some current_version) (Some current_status) TrStaleVersion, d1)
                 else
                   let (cid, rev) = bound_source i d1;
                       d2 = insert_task_event
                         \<lparr>te_task_id = i, te_kind = EvStatusChanged, te_task_version = next_version,
                          te_candidate_id = cid, te_source_revision = rev,
                          te_from_status = Some current_status, te_to_status = Some target,
                          te_occurred_at = now\<rparr> d1;
                       d3 = set_work_state i
                         (if target = TaskOpen then WorkActive else WorkClosed) now d2 in
                   (\<lparr>tr_disposition = TrApplied, tr_task_id = i, tr_version = Some next_version,
                     tr_status = Some target, tr_refusal = None\<rparr>, d3)))"

text \<open>\<open>TaskLedger.transition\<close>: the argument guards, then one transaction.\<close>

definition transition :: "rowid \<Rightarrow> int \<Rightarrow> string \<Rightarrow> time \<Rightarrow> db \<Rightarrow> transition_result \<times> db" where
  "transition i expected action now d =
     (if i < 1 then (tr_refuse 0 None None TrNotFound, d)
      else if expected < 1 then (tr_refuse i None None TrStaleVersion, d)
      else if action \<notin> {''done'', ''drop'', ''reopen''} then (tr_refuse i None None TrInvalidAction, d)
      else
        let (result, d') = apply_task_transition i expected action now d in
        if tr_accepted result then (result, d') else (result, d))"

section \<open>Lookup laws\<close>

lemma task_of_mem: "task_of i d = Some t \<Longrightarrow> t \<in> set (tasks d) \<and> tk_id t = i"
  by (rule find_SomeD)

lemma insert_task_event_frame [simp]:
  "tasks (insert_task_event e d) = tasks d" "work_items (insert_task_event e d) = work_items d"
  "bindings (insert_task_event e d) = bindings d"
  "task_events (insert_task_event e d) = task_events d @ [e]"
  "cards (insert_task_event e d) = cards d" "evidence (insert_task_event e d) = evidence d"
  "proposals (insert_task_event e d) = proposals d" "relations (insert_task_event e d) = relations d"
  "card_events (insert_task_event e d) = card_events d"
  "workflows (insert_task_event e d) = workflows d" "lifecycles (insert_task_event e d) = lifecycles d"
  by (simp_all add: insert_task_event_def)

lemma set_work_state_frame [simp]:
  "tasks (set_work_state i st now d) = tasks d"
  "bindings (set_work_state i st now d) = bindings d"
  "task_events (set_work_state i st now d) = task_events d"
  "cards (set_work_state i st now d) = cards d" "evidence (set_work_state i st now d) = evidence d"
  "proposals (set_work_state i st now d) = proposals d"
  "relations (set_work_state i st now d) = relations d"
  "card_events (set_work_state i st now d) = card_events d"
  "workflows (set_work_state i st now d) = workflows d"
  "lifecycles (set_work_state i st now d) = lifecycles d"
  by (simp_all add: set_work_state_def)

lemma targets_None_iff [simp]:
  "targets action = None \<longleftrightarrow> action \<notin> {''done'', ''drop'', ''reopen''}"
  by (simp add: targets_def)

lemma targets_source_not_target: "targets action = Some (sources, target) \<Longrightarrow> target \<notin> set sources"
  by (auto simp: targets_def split: if_splits)

section \<open>What a transition does\<close>

text \<open>The database an accepted transition leaves, as one term.\<close>

definition transition_effect :: "rowid \<Rightarrow> task_row \<Rightarrow> task_status \<Rightarrow> time \<Rightarrow> db \<Rightarrow> db" where
  "transition_effect i row target now d =
     set_work_state i (if target = TaskOpen then WorkActive else WorkClosed) now
       (insert_task_event
          \<lparr>te_task_id = i, te_kind = EvStatusChanged, te_task_version = tk_version row + 1,
           te_candidate_id = fst (bound_source i d), te_source_revision = snd (bound_source i d),
           te_from_status = Some (tk_status row), te_to_status = Some target, te_occurred_at = now\<rparr>
          (d\<lparr>tasks := update_where (\<lambda>t. tk_id t = i \<and> tk_version t = tk_version row)
              (\<lambda>t. t\<lparr>tk_status := target, tk_version := tk_version row + 1, tk_updated_at := now,
                 tk_closed_at := (if target = TaskOpen then None else Some now)\<rparr>) (tasks d)\<rparr>))"

lemma bound_source_tasks [simp]: "bound_source i (d\<lparr>tasks := ts\<rparr>) = bound_source i d"
  by (simp add: bound_source_def)

lemma rowcount_task_version:
  assumes "unique_key tk_id (tasks d)" and "task_of i d = Some row"
  shows "rowcount (\<lambda>t. tk_id t = i \<and> tk_version t = tk_version row) (tasks d) = 1"
  using rowcount_unique [OF assms(1), of i "\<lambda>t. tk_version t = tk_version row"] assms(2) by simp

lemma apply_transition_Some:
  assumes "unique_key tk_id (tasks d)" and "task_of i d = Some row"
    and "targets action = Some (sources, target)"
    and "tk_version row = expected" and "tk_status row \<in> set sources"
  shows "apply_task_transition i expected action now d =
    (\<lparr>tr_disposition = TrApplied, tr_task_id = i, tr_version = Some (expected + 1),
      tr_status = Some target, tr_refusal = None\<rparr>, transition_effect i row target now d)"
  using assms rowcount_task_version [OF assms(1,2)]
  by (simp add: apply_task_transition_def transition_effect_def Let_def split_beta)

text \<open>
  On a table with unique task ids the guarded \<open>UPDATE\<close> always meets the row that was read,
  so a transition either takes the accepted branch above or refuses without a write.
\<close>

lemma apply_transition_cases:
  assumes "unique_key tk_id (tasks d)"
  obtains (accepted) row sources target where
      "targets action = Some (sources, target)" "task_of i d = Some row"
      "tk_version row = expected" "tk_status row \<in> set sources"
      "apply_task_transition i expected action now d =
        (\<lparr>tr_disposition = TrApplied, tr_task_id = i, tr_version = Some (expected + 1),
          tr_status = Some target, tr_refusal = None\<rparr>, transition_effect i row target now d)"
  | (refused) "\<not> tr_accepted (fst (apply_task_transition i expected action now d))"
      "snd (apply_task_transition i expected action now d) = d"
proof (cases "\<exists>row sources target. targets action = Some (sources, target) \<and> task_of i d = Some row
    \<and> tk_version row = expected \<and> tk_status row \<in> set sources")
  case True
  then obtain row sources target where h: "targets action = Some (sources, target)"
    "task_of i d = Some row" "tk_version row = expected" "tk_status row \<in> set sources" by blast
  show thesis
    by (rule accepted [OF h apply_transition_Some [OF assms h(2,1,3,4)]])
next
  case False
  show thesis
  proof (rule refused)
    show "\<not> tr_accepted (fst (apply_task_transition i expected action now d))"
      "snd (apply_task_transition i expected action now d) = d"
      using False
      by (auto simp: apply_task_transition_def tr_refuse_def tr_accepted_def Let_def
          split: option.splits)
  qed
qed

section \<open>The ledger invariant\<close>

text \<open>
  What every accepted history keeps: one row per task id, positive ids and versions, a closing
  time exactly on closed tasks, and at most one work item per task.
\<close>

definition task_ok :: "task_row \<Rightarrow> bool" where
  "task_ok t \<longleftrightarrow> 1 \<le> tk_id t \<and> 1 \<le> tk_version t \<and> (tk_closed_at t = None \<longleftrightarrow> tk_status t = TaskOpen)"

definition ledger_inv :: "db \<Rightarrow> bool" where
  "ledger_inv d \<longleftrightarrow> unique_key tk_id (tasks d) \<and> list_all task_ok (tasks d)
     \<and> unique_key wi_task_id (work_items d)"

text \<open>The work item of a task is closed exactly when the task is.\<close>

definition work_agrees :: "db \<Rightarrow> bool" where
  "work_agrees d \<longleftrightarrow> list_all (\<lambda>t. list_all (\<lambda>w. wi_task_id w = tk_id t \<longrightarrow>
     (wi_state w = WorkClosed \<longleftrightarrow> tk_status t \<noteq> TaskOpen)) (work_items d)) (tasks d)"

text \<open>The status the event log ascribes to a task: that of its last status event.\<close>

definition is_status_event :: "rowid \<Rightarrow> task_event \<Rightarrow> bool" where
  "is_status_event i e \<longleftrightarrow> te_task_id e = i \<and> te_kind e \<in> {EvCreated, EvStatusChanged}"

definition logged_status :: "rowid \<Rightarrow> db \<Rightarrow> task_status option" where
  "logged_status i d = (case List.find (is_status_event i) (rev (task_events d)) of
     None \<Rightarrow> None | Some e \<Rightarrow> te_to_status e)"

definition log_agrees :: "db \<Rightarrow> bool" where
  "log_agrees d \<longleftrightarrow> list_all (\<lambda>t. logged_status (tk_id t) d = Some (tk_status t)) (tasks d)"

lemma ledger_invD:
  assumes "ledger_inv d"
  shows "unique_key tk_id (tasks d)" and "t \<in> set (tasks d) \<Longrightarrow> task_ok t"
    and "unique_key wi_task_id (work_items d)"
  using assms by (auto simp: ledger_inv_def list_all_iff)

lemma transition_effect_work:
  "work_items (transition_effect i row target now d) = update_where (\<lambda>w. wi_task_id w = i)
     (\<lambda>w. w\<lparr>wi_state := (if target = TaskOpen then WorkActive else WorkClosed),
            wi_updated_at := now\<rparr>) (work_items d)"
  by (simp add: transition_effect_def set_work_state_def insert_task_event_def)

lemma transition_effect_tasks:
  "tasks (transition_effect i row target now d)
    = update_where (\<lambda>t. tk_id t = i \<and> tk_version t = tk_version row)
        (\<lambda>t. t\<lparr>tk_status := target, tk_version := tk_version row + 1, tk_updated_at := now,
           tk_closed_at := (if target = TaskOpen then None else Some now)\<rparr>) (tasks d)"
  by (simp add: transition_effect_def)

lemma transition_effect_frame [simp]:
  "cards (transition_effect i row target now d) = cards d"
  "card_events (transition_effect i row target now d) = card_events d"
  "evidence (transition_effect i row target now d) = evidence d"
  "proposals (transition_effect i row target now d) = proposals d"
  "relations (transition_effect i row target now d) = relations d"
  "bindings (transition_effect i row target now d) = bindings d"
  "lifecycles (transition_effect i row target now d) = lifecycles d"
  "workflows (transition_effect i row target now d) = workflows d"
  by (simp_all add: transition_effect_def)

lemma task_of_transition_effect:
  assumes "task_of i d = Some row"
  shows "task_of k (transition_effect i row target now d) = (if k = i then
      Some (row\<lparr>tk_status := target, tk_version := tk_version row + 1, tk_updated_at := now,
           tk_closed_at := (if target = TaskOpen then None else Some now)\<rparr>) else task_of k d)"
proof -
  have "task_of k (transition_effect i row target now d) =
      map_option (\<lambda>t. if tk_id t = i \<and> tk_version t = tk_version row
        then t\<lparr>tk_status := target, tk_version := tk_version row + 1, tk_updated_at := now,
           tk_closed_at := (if target = TaskOpen then None else Some now)\<rparr> else t) (task_of k d)"
    by (simp add: transition_effect_tasks find_update_where)
  note upd = this
  show ?thesis
  proof (cases "task_of k d")
    case None
    with upd assms show ?thesis by auto
  next
    case (Some t)
    then have "tk_id t = k" by (rule row_of_key)
    with upd assms Some show ?thesis by (cases "k = i") auto
  qed
qed

lemma logged_status_append:
  "task_events d' = task_events d @ [e] \<Longrightarrow> logged_status i d'
    = (if is_status_event i e then te_to_status e else logged_status i d)"
  by (simp add: logged_status_def)

lemma logged_status_transition:
  "logged_status k (transition_effect i row target now d)
    = (if k = i then Some target else logged_status k d)"
proof -
  let ?e = "\<lparr>te_task_id = i, te_kind = EvStatusChanged, te_task_version = tk_version row + 1,
      te_candidate_id = fst (bound_source i d), te_source_revision = snd (bound_source i d),
      te_from_status = Some (tk_status row), te_to_status = Some target, te_occurred_at = now\<rparr>"
  have "task_events (transition_effect i row target now d) = task_events d @ [?e]"
    by (simp add: transition_effect_def)
  from logged_status_append [OF this, of k] show ?thesis
    by (auto simp: is_status_event_def)
qed

lemma ledger_inv_transition_effect:
  assumes "ledger_inv d" and "task_of i d = Some row"
  shows "ledger_inv (transition_effect i row target now d)"
proof -
  have "task_ok row" using assms by (auto dest: task_of_mem ledger_invD(2))
  then have "list_all task_ok (tasks (transition_effect i row target now d))"
    using ledger_invD(2) [OF assms(1)]
    by (auto simp: transition_effect_tasks list_all_iff set_update_where task_ok_def)
  then show ?thesis
    using assms(1)
    by (simp add: ledger_inv_def transition_effect_work transition_effect_tasks unique_key_update)
qed

lemma task_row_determined:
  "ledger_inv d \<Longrightarrow> t \<in> set (tasks d) \<Longrightarrow> task_of (tk_id t) d = Some t"
  using row_of_unique [of tk_id "tasks d"] by (auto dest: ledger_invD(1))

lemma tasks_transition_effect_cases:
  assumes "ledger_inv d" and "task_of i d = Some row"
    and "t \<in> set (tasks (transition_effect i row target now d))"
  shows "(tk_id t = i \<and> tk_status t = target) \<or> (tk_id t \<noteq> i \<and> t \<in> set (tasks d))"
proof -
  have "task_of (tk_id t) (transition_effect i row target now d) = Some t"
    by (rule task_row_determined [OF ledger_inv_transition_effect [OF assms(1,2)] assms(3)])
  then show ?thesis
    by (auto simp: task_of_transition_effect [OF assms(2)] dest: task_of_mem split: if_splits)
qed

lemma work_agrees_transition_effect:
  assumes "ledger_inv d" and "work_agrees d" and "task_of i d = Some row"
  shows "work_agrees (transition_effect i row target now d)"
  unfolding work_agrees_def list_all_iff
proof (intro ballI impI)
  fix t w
  assume t: "t \<in> set (tasks (transition_effect i row target now d))"
    and w: "w \<in> set (work_items (transition_effect i row target now d))"
    and eq: "wi_task_id w = tk_id t"
  from w obtain w0 where w0: "w0 \<in> set (work_items d)"
    and w_def: "w = (if wi_task_id w0 = i
      then w0\<lparr>wi_state := (if target = TaskOpen then WorkActive else WorkClosed),
             wi_updated_at := now\<rparr> else w0)"
    unfolding transition_effect_work by (rule update_whereE)
  then have key: "wi_task_id w = wi_task_id w0" by simp
  from tasks_transition_effect_cases [OF assms(1,3) t]
  show "(wi_state w = WorkClosed) = (tk_status t \<noteq> TaskOpen)"
  proof (elim disjE conjE)
    assume "tk_id t = i" and "tk_status t = target"
    then show ?thesis using w_def key eq by simp
  next
    assume "tk_id t \<noteq> i" and "t \<in> set (tasks d)"
    then show ?thesis
      using w_def key eq w0 assms(2) by (simp add: work_agrees_def list_all_iff)
  qed
qed

lemma log_agrees_transition_effect:
  assumes "ledger_inv d" and "log_agrees d" and "task_of i d = Some row"
  shows "log_agrees (transition_effect i row target now d)"
  unfolding log_agrees_def list_all_iff
proof
  fix t
  assume t: "t \<in> set (tasks (transition_effect i row target now d))"
  from tasks_transition_effect_cases [OF assms(1,3) t] assms(2)
  show "logged_status (tk_id t) (transition_effect i row target now d) = Some (tk_status t)"
    by (auto simp: logged_status_transition log_agrees_def list_all_iff)
qed

section \<open>The client's transition\<close>

text \<open>
  The abstract life cycle a reader sees: open tasks are closed by \<open>done\<close> or \<open>drop\<close>,
  closed ones are reopened.
\<close>

fun lifecycle_step :: "task_status \<Rightarrow> string \<Rightarrow> task_status option" where
  "lifecycle_step TaskOpen a = (if a = ''done'' then Some TaskDone
     else if a = ''drop'' then Some TaskDropped else None)"
| "lifecycle_step _ a = (if a = ''reopen'' then Some TaskOpen else None)"

lemma targets_lifecycle:
  "(\<exists>sources. targets a = Some (sources, target) \<and> st \<in> set sources)
    \<longleftrightarrow> lifecycle_step st a = Some target"
  by (cases st) (auto simp: targets_def)

lemma transition_cases:
  assumes "ledger_inv d"
  obtains (accepted) row target where
      "1 \<le> i" "1 \<le> expected" "task_of i d = Some row" "tk_version row = expected"
      "lifecycle_step (tk_status row) action = Some target"
      "transition i expected action now d =
        (\<lparr>tr_disposition = TrApplied, tr_task_id = i, tr_version = Some (expected + 1),
          tr_status = Some target, tr_refusal = None\<rparr>, transition_effect i row target now d)"
  | (refused) "\<not> tr_accepted (fst (transition i expected action now d))"
      "snd (transition i expected action now d) = d"
proof (cases "i < 1 \<or> expected < 1 \<or> action \<notin> {''done'', ''drop'', ''reopen''}")
  case True
  show thesis
    by (rule refused) (use True in \<open>auto simp: transition_def tr_refuse_def tr_accepted_def\<close>)
next
  case False
  show thesis
  proof (rule apply_transition_cases [OF ledger_invD(1) [OF assms], of action i expected now])
    fix row sources target
    assume h: "targets action = Some (sources, target)" "task_of i d = Some row"
      "tk_version row = expected" "tk_status row \<in> set sources"
      and eq: "apply_task_transition i expected action now d =
        (\<lparr>tr_disposition = TrApplied, tr_task_id = i, tr_version = Some (expected + 1),
          tr_status = Some target, tr_refusal = None\<rparr>, transition_effect i row target now d)"
    have "lifecycle_step (tk_status row) action = Some target"
      using targets_lifecycle h(1,4) by blast
    moreover have "transition i expected action now d = apply_task_transition i expected action now d"
      using False eq by (simp add: transition_def tr_accepted_def)
    ultimately show thesis
      using False h(2,3) eq by (intro accepted [of row target]) auto
  next
    assume no: "\<not> tr_accepted (fst (apply_task_transition i expected action now d))"
      "snd (apply_task_transition i expected action now d) = d"
    show thesis
      by (rule refused) (use False no in \<open>simp_all add: transition_def split_beta Let_def\<close>)
  qed
qed

abbreviation transition_req :: "rowid \<times> int \<times> string \<times> time \<Rightarrow> db \<Rightarrow> transition_result \<times> db" where
  "transition_req \<equiv> \<lambda>(i, v, a, now). transition i v a now"

definition task_version :: "rowid \<Rightarrow> db \<Rightarrow> int option" where
  "task_version i d = map_option tk_version (task_of i d)"

lemma tr_accepted_applied [simp]:
  "tr_accepted \<lparr>tr_disposition = TrApplied, tr_task_id = i, tr_version = v, tr_status = st,
     tr_refusal = r\<rparr>"
  by (simp add: tr_accepted_def)

lemma ledger_inv_transition: "ledger_inv d \<Longrightarrow> ledger_inv (snd (transition i v a now d))"
  by (rule transition_cases [where i = i and expected = v and action = a and now = now])
    (auto simp: ledger_inv_transition_effect)

interpretation task_transition: versioned_op transition_req tr_accepted fst "\<lambda>r. fst (snd r)"
  task_version ledger_inv
proof unfold_locales
  fix d :: db and r :: "rowid \<times> int \<times> string \<times> time" and k v
  obtain i e a now where r: "r = (i, e, a, now)" by (cases r)
  assume inv: "ledger_inv d"
  show "ledger_inv (snd (transition_req r d))"
    using ledger_inv_transition [OF inv] by (simp add: r)
  note cases = transition_cases [OF inv, where i = i and expected = e and action = a and now = now]
  show "tr_accepted (fst (transition_req r d)) \<Longrightarrow> task_version (fst r) d = Some (fst (snd r))"
    by (rule cases) (auto simp: r task_version_def)
  show "tr_accepted (fst (transition_req r d)) \<Longrightarrow>
      task_version (fst r) (snd (transition_req r d)) = Some (fst (snd r) + 1)"
    by (rule cases) (auto simp: r task_version_def task_of_transition_effect)
  show "\<not> tr_accepted (fst (transition_req r d)) \<Longrightarrow> snd (transition_req r d) = d"
    by (rule cases) (auto simp: r)
  show "task_version k d = Some v \<Longrightarrow> k \<noteq> fst r \<Longrightarrow>
      \<exists>v'\<ge>v. task_version k (snd (transition_req r d)) = Some v'"
    by (rule cases) (auto simp: r task_version_def task_of_transition_effect)
qed

section \<open>Properties\<close>

lemma transition_accepted_iff:
  assumes "ledger_inv d"
  shows "tr_accepted (fst (transition i v a now d)) \<longleftrightarrow> (\<exists>row target. task_of i d = Some row
    \<and> tk_version row = v \<and> lifecycle_step (tk_status row) a = Some target)" (is "?A \<longleftrightarrow> ?R")
proof
  show "?A \<Longrightarrow> ?R"
    by (rule transition_cases [OF assms, where i = i and expected = v and action = a and now = now])
      auto
next
  assume ?R
  then obtain row target where h: "task_of i d = Some row" "tk_version row = v"
    "lifecycle_step (tk_status row) a = Some target" by blast
  then obtain sources where s: "targets a = Some (sources, target)" "tk_status row \<in> set sources"
    using targets_lifecycle by blast
  have "task_ok row" using ledger_invD(2) [OF assms] h(1) by (blast dest: task_of_mem)
  then have "1 \<le> i" "1 \<le> v" using h(1,2) by (auto simp: task_ok_def dest: row_of_key)
  moreover have "a \<in> {''done'', ''drop'', ''reopen''}" using s(1) targets_None_iff [of a] by auto
  ultimately show ?A
    using apply_transition_Some [OF ledger_invD(1) [OF assms] h(1) s(1) h(2) s(2)]
    by (auto simp: transition_def)
qed

text \<open>What an accepted transition leaves behind, as seen through \<open>task_of\<close>.\<close>

lemma task_of_transition:
  assumes "ledger_inv d" and "task_of i d = Some row"
    and "lifecycle_step (tk_status row) a = Some target"
  shows "task_of k (snd (transition i (tk_version row) a now d)) = (if k = i then
      Some (row\<lparr>tk_status := target, tk_version := tk_version row + 1, tk_updated_at := now,
           tk_closed_at := (if target = TaskOpen then None else Some now)\<rparr>) else task_of k d)"
proof -
  have acc: "tr_accepted (fst (transition i (tk_version row) a now d))"
    using assms by (auto simp: transition_accepted_iff)
  show ?thesis
    by (rule transition_cases [OF assms(1), where i = i and expected = "tk_version row"
          and action = a and now = now]) (use assms acc in \<open>auto simp: task_of_transition_effect\<close>)
qed

text \<open>C22: The transition implements the abstract life cycle.  On a sound ledger it is accepted
  exactly when the task exists, the caller's version is current and the life cycle allows the
  action; the task then has the life cycle's next status, the next version and a closing time
  iff it is closed, no other task row changes, and a refusal writes nothing.\<close>

theorem transition_implements_lifecycle:
  assumes "ledger_inv d" and "transition i v a now d = (r, d')"
  shows "(tr_accepted r \<longleftrightarrow> (\<exists>row target. task_of i d = Some row \<and> tk_version row = v
           \<and> lifecycle_step (tk_status row) a = Some target))
    \<and> (tr_accepted r \<longrightarrow> (\<exists>row target. task_of i d = Some row
           \<and> lifecycle_step (tk_status row) a = Some target
           \<and> task_of i d' = Some (row\<lparr>tk_status := target, tk_version := v + 1, tk_updated_at := now,
                 tk_closed_at := (if target = TaskOpen then None else Some now)\<rparr>)))
    \<and> (\<forall>k. k \<noteq> i \<longrightarrow> task_of k d' = task_of k d)
    \<and> (\<not> tr_accepted r \<longrightarrow> d' = d)"
proof (rule transition_cases [OF assms(1), where i = i and expected = v and action = a and now = now])
  fix row target
  assume h: "task_of i d = Some row" "tk_version row = v" "lifecycle_step (tk_status row) a = Some target"
    and eq: "transition i v a now d = (\<lparr>tr_disposition = TrApplied, tr_task_id = i,
      tr_version = Some (v + 1), tr_status = Some target, tr_refusal = None\<rparr>,
      transition_effect i row target now d)"
  have acc: "tr_accepted r" and d': "d' = transition_effect i row target now d"
    using eq assms(2) by auto
  from h acc show ?thesis
    unfolding d' task_of_transition_effect [OF h(1)] by auto
next
  assume "\<not> tr_accepted (fst (transition i v a now d))" "snd (transition i v a now d) = d"
  then show ?thesis
    using transition_accepted_iff [OF assms(1), of i v a now] assms(2) by auto
qed

definition sample_owner :: owner_state where
  "sample_owner = \<lparr>ow_display = Some ''Ada'', ow_ref_version = 1, ow_kind = Some ''person'',
     ow_speaker_id = Some ''s1'', ow_canonical_speaker_id = Some ''s1'',
     ow_speaker_registry_id = Some ''r1'', ow_pinned = False, ow_provisional = False,
     ow_person_id = None\<rparr>"

definition sample_task :: "rowid \<Rightarrow> task_status \<Rightarrow> int \<Rightarrow> task_row" where
  "sample_task i st v = \<lparr>tk_id = i, tk_status = st, tk_text = ''review the draft'',
     tk_owner = sample_owner, tk_due = None,
     tk_structure = \<lparr>st_object = None, st_action = None, st_confidence = None\<rparr>, tk_version = v,
     tk_created_at = 0, tk_updated_at = 0,
     tk_closed_at = (if st = TaskOpen then None else Some 0), tk_working_group = None\<rparr>"

definition sample_created :: "rowid \<Rightarrow> task_status \<Rightarrow> task_event" where
  "sample_created i st = \<lparr>te_task_id = i, te_kind = EvCreated, te_task_version = 1,
     te_candidate_id = None, te_source_revision = None, te_from_status = None,
     te_to_status = Some st, te_occurred_at = 0\<rparr>"

text \<open>Two open tasks and a dropped one, with their events and work items.\<close>

definition sample_ledger :: db where
  "sample_ledger = empty_db\<lparr>tasks := [sample_task 1 TaskOpen 1, sample_task 2 TaskOpen 1,
       sample_task 3 TaskDropped 2],
     task_events := [sample_created 1 TaskOpen, sample_created 2 TaskOpen, sample_created 3 TaskDropped],
     work_items := [\<lparr>wi_id = 1, wi_task_id = 1, wi_state = WorkActive, wi_created_at = 0, wi_updated_at = 0\<rparr>,
       \<lparr>wi_id = 2, wi_task_id = 2, wi_state = WorkActive, wi_created_at = 0, wi_updated_at = 0\<rparr>,
       \<lparr>wi_id = 3, wi_task_id = 3, wi_state = WorkClosed, wi_created_at = 0, wi_updated_at = 0\<rparr>]\<rparr>"

lemma sample_ledger_ok: "ledger_inv sample_ledger" "work_agrees sample_ledger" "log_agrees sample_ledger"
  by code_simp+

theorem transition_implements_lifecycle_witness:
  "tr_accepted (fst (transition 1 1 ''done'' 5 sample_ledger)) \<longleftrightarrow>
     (\<exists>row target. task_of 1 sample_ledger = Some row \<and> tk_version row = 1
        \<and> lifecycle_step (tk_status row) ''done'' = Some target)"
  using transition_implements_lifecycle [OF sample_ledger_ok(1) prod.collapse [symmetric],
    of 1 1 "''done''" 5] by blast

text \<open>Every sequence of transitions, accepted or refused, keeps the ledger consistent: unique
  ids, positive versions, closing times exactly on closed tasks, work items closed exactly with
  their task, and an event log whose last status event of each task is the task's status.\<close>

lemma transitions_keep_ledger_consistent:
  assumes "ledger_inv d" and "work_agrees d" and "log_agrees d"
  shows "ledger_inv (snd (run_ops transition_req reqs d))
    \<and> work_agrees (snd (run_ops transition_req reqs d))
    \<and> log_agrees (snd (run_ops transition_req reqs d))"
proof -
  have step: "ledger_inv (snd (transition_req r d)) \<and> work_agrees (snd (transition_req r d))
      \<and> log_agrees (snd (transition_req r d))"
    if inv: "ledger_inv d \<and> work_agrees d \<and> log_agrees d" for r d
  proof -
    obtain i e a now where r: "r = (i, e, a, now)" by (cases r)
    note inv = inv [THEN conjunct1] inv [THEN conjunct2, THEN conjunct1]
      inv [THEN conjunct2, THEN conjunct2]
    show ?thesis
      by (rule transition_cases [OF inv(1), where i = i and expected = e and action = a and now = now])
        (use inv in \<open>simp_all add: r ledger_inv_transition_effect work_agrees_transition_effect
          log_agrees_transition_effect\<close>)
  qed
  show ?thesis
    by (rule run_ops_invariant [where I = "\<lambda>d. ledger_inv d \<and> work_agrees d \<and> log_agrees d"
          and op = transition_req]) (use step assms in simp_all)
qed

theorem transitions_keep_ledger_consistent_witness:
  "ledger_inv (snd (run_ops transition_req [(1, 1, ''done'', 5), (1, 2, ''reopen'', 6)] sample_ledger))"
  using transitions_keep_ledger_consistent [OF sample_ledger_ok] by blast

text \<open>C23: No lost update.  In any sequence of transition requests, those accepted for one task
  carry strictly increasing expected versions, so a version a caller read is acted on at most
  once.\<close>

theorem transition_no_lost_update:
  assumes "ledger_inv d" and "m < n" and "n < length reqs"
    and "tr_accepted (fst (run_ops transition_req reqs d) ! m)"
    and "tr_accepted (fst (run_ops transition_req reqs d) ! n)"
    and "fst (reqs ! m) = fst (reqs ! n)"
  shows "fst (snd (reqs ! m)) < fst (snd (reqs ! n))"
  using assms by (rule task_transition.accepted_strictly_increasing)

theorem transition_no_lost_update_witness:
  "fst (snd ([(1, 1, ''done'', 5), (1, 2, ''reopen'', 6)] ! 0) :: int \<times> string \<times> time)
    < fst (snd ([(1, 1, ''done'', 5), (1 :: int, 2, ''reopen'', 6)] ! 1))"
proof -
  let ?reqs = "[(1, 1, ''done'', 5), (1, 2, ''reopen'', 6)] :: (rowid \<times> int \<times> string \<times> time) list"
  let ?d1 = "snd (transition 1 1 ''done'' 5 sample_ledger)"
  have t: "task_of 1 sample_ledger = Some (sample_task 1 TaskOpen 1)"
    by (simp add: sample_ledger_def sample_task_def)
  then have 1: "tr_accepted (fst (transition 1 1 ''done'' 5 sample_ledger))"
    using sample_ledger_ok(1) by (simp add: transition_accepted_iff sample_task_def)
  have "task_of 1 ?d1 = Some ((sample_task 1 TaskOpen 1)\<lparr>tk_status := TaskDone, tk_version := 2,
      tk_updated_at := 5, tk_closed_at := Some 5\<rparr>)"
    using task_of_transition [OF sample_ledger_ok(1) t, of "''done''" TaskDone 1 5]
    by (simp add: sample_task_def)
  then have 2: "tr_accepted (fst (transition 1 2 ''reopen'' 6 ?d1))"
    using ledger_inv_transition [OF sample_ledger_ok(1)] by (simp add: transition_accepted_iff)
  show ?thesis
    using transition_no_lost_update [OF sample_ledger_ok(1), of 0 1 ?reqs] 1 2 by simp
qed

end
