(* ===== verification/Completion.thy ===== *)
theory Completion
  imports Ledger "HOL-Library.Char_ord" "HOL-Library.List_Lexorder"
begin

text \<open>
  Completion detections (\<open>task_completion.py\<close>): a detector proposes evidence that a task is
  done, a card asks about it, a reader answers it once.  The module's promise is that the
  refusal is the durable part: evidence that was answered is never asked again.

  \<open>sha\<close> is \<open>hashlib.sha256(...).hexdigest()\<close>, a parameter; nothing below needs it to be
  injective, only that a hex digest has 64 characters where the schema checks that.
\<close>

section \<open>Bounds and guards\<close>

definition MAX_QUOTATION :: nat where "MAX_QUOTATION = 1200"
definition MAX_REASON :: nat where "MAX_REASON = 500"
definition MAX_DETECTOR :: nat where "MAX_DETECTOR = 64"
definition MAX_SOURCE_KIND :: nat where "MAX_SOURCE_KIND = 64"
definition MAX_SOURCE_RECORD :: nat where "MAX_SOURCE_RECORD = 200"
definition MAX_SOURCE_ITEM :: nat where "MAX_SOURCE_ITEM = 200"
definition MAX_OBSERVED_AT :: nat where "MAX_OBSERVED_AT = 40"
definition MAX_OPEN_QUESTIONS_PER_TASK :: nat where "MAX_OPEN_QUESTIONS_PER_TASK = 5"

definition CONFIDENCES :: "string list" where
  "CONFIDENCES = [''high'', ''medium'', ''low'']"

definition comp_identifier :: "int \<Rightarrow> string \<Rightarrow> exc + int" where
  "comp_identifier v field = (if v < 1 then Inl (TaskCompletionError (field @ '' is invalid'')) else Inr v)"

definition comp_bounded :: "string \<Rightarrow> string \<Rightarrow> nat \<Rightarrow> exc + string" where
  "comp_bounded = bounded_text TaskCompletionError"

definition comp_optional :: "string \<Rightarrow> string \<Rightarrow> nat \<Rightarrow> exc + string" where
  "comp_optional value field maximum =
     (if strip value = [] then Inr [] else comp_bounded value field maximum)"

text \<open>A quotation keeps its newlines and tabs.\<close>

definition quotation_control :: "char \<Rightarrow> bool" where
  "quotation_control c = (let n = code_of c in (n < 32 \<and> n \<noteq> 10 \<and> n \<noteq> 9) \<or> n = 127)"

definition quotation :: "string \<Rightarrow> exc + string" where
  "quotation value =
     (let v = strip value in
      if \<not> (1 \<le> length v \<and> length v \<le> MAX_QUOTATION)
      then Inl (TaskCompletionError ''quotation has invalid length'')
      else if list_ex quotation_control v
      then Inl (TaskCompletionError ''quotation contains control characters'')
      else Inr v)"

section \<open>Identity of the evidence\<close>

text \<open>\<open>re.sub(r"\s+", " ", value)\<close>: every maximal run of white space becomes one space.\<close>

lemma length_dropWhile_le' [termination_simp]: "length (dropWhile P xs) < Suc (length xs)"
  by (simp add: less_Suc_eq_le length_dropWhile_le)

fun collapse :: "string \<Rightarrow> string" where
  "collapse [] = []"
| "collapse (c # cs) = (if is_space c then CHR '' '' # collapse (dropWhile is_space cs)
                        else c # collapse cs)"

definition fold_text :: "string \<Rightarrow> string" where
  "fold_text value = casefold (strip (collapse value))"

definition unit_separator :: string where
  "unit_separator = [char_of (31 :: nat)]"

definition evidence_digest :: "(string \<Rightarrow> string) \<Rightarrow> string \<Rightarrow> string \<Rightarrow> string \<Rightarrow> string \<Rightarrow> string" where
  "evidence_digest sha source_kind source_record_id source_item_id quote =
     sha (casefold (strip source_kind) @ unit_separator @ strip source_record_id @ unit_separator
        @ strip source_item_id @ unit_separator @ fold_text quote)"

section \<open>Proposing\<close>

datatype comp_disposition = CompRecorded | CompUnchanged | CompRefused
datatype comp_refusal = CompUnknownTask | CompTaskNotOpen | CompTooManyOpenQuestions
datatype outcome = OutAccepted | OutRejected | OutSuperseded

record comp_result =
  cr_disposition :: comp_disposition
  cr_evidence_id :: "rowid option"
  cr_refusal :: "comp_refusal option"

definition comp_refuse :: "comp_refusal \<Rightarrow> comp_result" where
  "comp_refuse r = \<lparr>cr_disposition = CompRefused, cr_evidence_id = None, cr_refusal = Some r\<rparr>"

record detection =
  pr_task_id :: rowid
  pr_source_kind :: string
  pr_source_record_id :: string
  pr_source_item_id :: string
  pr_observed_at :: string
  pr_quotation :: string
  pr_reason :: string
  pr_detector :: string
  pr_confidence :: string

text \<open>The argument guards of \<open>propose\<close>, in the code's order: the cleaned detection.\<close>

definition clean_detection :: "detection \<Rightarrow> exc + detection" where
  "clean_detection p =
     rbind (comp_identifier (pr_task_id p) ''task id'') (\<lambda>task_id.
     rbind (comp_bounded (pr_source_kind p) ''source kind'' MAX_SOURCE_KIND) (\<lambda>source_kind.
     rbind (comp_bounded (pr_source_record_id p) ''source record id'' MAX_SOURCE_RECORD) (\<lambda>record_id.
     rbind (comp_optional (pr_source_item_id p) ''source item id'' MAX_SOURCE_ITEM) (\<lambda>item_id.
     rbind (comp_bounded (pr_observed_at p) ''observed at'' MAX_OBSERVED_AT) (\<lambda>observed_at.
     rbind (quotation (pr_quotation p)) (\<lambda>quote.
     rbind (comp_bounded (pr_reason p) ''reason'' MAX_REASON) (\<lambda>reason.
     rbind (comp_bounded (pr_detector p) ''detector'' MAX_DETECTOR) (\<lambda>detector.
       if pr_confidence p \<notin> set CONFIDENCES then Inl (TaskCompletionError ''confidence is invalid'')
       else Inr \<lparr>pr_task_id = task_id, pr_source_kind = source_kind, pr_source_record_id = record_id,
         pr_source_item_id = item_id, pr_observed_at = observed_at, pr_quotation = quote,
         pr_reason = reason, pr_detector = detector, pr_confidence = pr_confidence p\<rparr>))))))))"

text \<open>The row constraints of \<open>task_completion_evidence\<close>.\<close>

definition evidence_check :: "evidence_row \<Rightarrow> bool" where
  "evidence_check e \<longleftrightarrow> length (ev_digest e) = 64
     \<and> 1 \<le> length (ev_source_kind e) \<and> length (ev_source_kind e) \<le> 64
     \<and> 1 \<le> length (ev_source_record_id e) \<and> length (ev_source_record_id e) \<le> 200
     \<and> length (ev_source_item_id e) \<le> 200
     \<and> 4 \<le> length (ev_observed_at e) \<and> length (ev_observed_at e) \<le> 40
     \<and> 1 \<le> length (ev_quotation e) \<and> length (ev_quotation e) \<le> 1200
     \<and> 1 \<le> length (ev_reason e) \<and> length (ev_reason e) \<le> 500
     \<and> 1 \<le> length (ev_detector e) \<and> length (ev_detector e) \<le> 64
     \<and> ev_confidence e \<in> {''high'', ''medium'', ''low''}
     \<and> (ev_state e = EvidenceProposed \<longleftrightarrow> ev_settled_at e = None)"

definition same_evidence :: "rowid \<Rightarrow> string \<Rightarrow> evidence_row \<Rightarrow> bool" where
  "same_evidence i digest e \<longleftrightarrow> ev_task_id e = i \<and> ev_digest e = digest"

definition open_question :: "rowid \<Rightarrow> evidence_row \<Rightarrow> bool" where
  "open_question i e \<longleftrightarrow> ev_task_id e = i \<and> ev_state e = EvidenceProposed"

definition detection_row :: "(string \<Rightarrow> string) \<Rightarrow> detection \<Rightarrow> rowid \<Rightarrow> time \<Rightarrow> evidence_row" where
  "detection_row sha p k now = \<lparr>ev_id = k, ev_task_id = pr_task_id p,
     ev_digest = evidence_digest sha (pr_source_kind p) (pr_source_record_id p)
       (pr_source_item_id p) (pr_quotation p),
     ev_source_kind = pr_source_kind p, ev_source_record_id = pr_source_record_id p,
     ev_source_item_id = pr_source_item_id p, ev_observed_at = pr_observed_at p,
     ev_quotation = pr_quotation p, ev_reason = pr_reason p, ev_detector = pr_detector p,
     ev_confidence = pr_confidence p, ev_state = EvidenceProposed, ev_card_id = None,
     ev_created_at = now, ev_settled_at = None\<rparr>"

definition propose :: "(string \<Rightarrow> string) \<Rightarrow> detection \<Rightarrow> time \<Rightarrow> db \<Rightarrow> exc + (comp_result \<times> db)" where
  "propose sha raw now d =
     rbind (clean_detection raw) (\<lambda>p.
       case task_of (pr_task_id p) d of
         None \<Rightarrow> Inr (comp_refuse CompUnknownTask, d)
       | Some row \<Rightarrow>
           if tk_status row \<noteq> TaskOpen then Inr (comp_refuse CompTaskNotOpen, d)
           else
             let digest = evidence_digest sha (pr_source_kind p) (pr_source_record_id p)
                            (pr_source_item_id p) (pr_quotation p) in
             (case List.find (same_evidence (pr_task_id p) digest) (evidence d) of
                Some e \<Rightarrow> Inr (\<lparr>cr_disposition = CompUnchanged, cr_evidence_id = Some (ev_id e),
                            cr_refusal = None\<rparr>, d)
              | None \<Rightarrow>
                  if MAX_OPEN_QUESTIONS_PER_TASK \<le> rowcount (open_question (pr_task_id p)) (evidence d)
                  then Inr (comp_refuse CompTooManyOpenQuestions, d)
                  else
                    let k = next_id ev_id (evidence d); e = detection_row sha p k now in
                    if \<not> evidence_check e
                    then Inl (IntegrityError ''CHECK constraint failed: task_completion_evidence'')
                    else Inr (\<lparr>cr_disposition = CompRecorded, cr_evidence_id = Some k,
                               cr_refusal = None\<rparr>, d\<lparr>evidence := evidence d @ [e]\<rparr>)))"

section \<open>Asking and answering\<close>

definition unasked :: "rowid \<Rightarrow> evidence_row \<Rightarrow> bool" where
  "unasked i e \<longleftrightarrow> ev_task_id e = i \<and> ev_state e = EvidenceProposed \<and> ev_card_id e = None"

text \<open>\<open>ORDER BY id LIMIT 1\<close>.\<close>

definition next_unasked :: "rowid \<Rightarrow> db \<Rightarrow> exc + evidence_row option" where
  "next_unasked i d = rbind (comp_identifier i ''task id'') (\<lambda>i.
     Inr (case sort_key ev_id (filter (unasked i) (evidence d)) of [] \<Rightarrow> None | e # _ \<Rightarrow> Some e))"

definition carried_by :: "rowid \<Rightarrow> evidence_row \<Rightarrow> bool" where
  "carried_by c e \<longleftrightarrow> ev_card_id e = Some c \<and> ev_state e = EvidenceProposed"

definition for_card :: "rowid \<Rightarrow> db \<Rightarrow> exc + evidence_row option" where
  "for_card c d = rbind (comp_identifier c ''card id'') (\<lambda>c.
     Inr (List.find (carried_by c) (evidence d)))"

definition bindable :: "rowid \<Rightarrow> evidence_row \<Rightarrow> bool" where
  "bindable k e \<longleftrightarrow> ev_id e = k \<and> ev_state e = EvidenceProposed \<and> ev_card_id e = None"

definition bind_evidence :: "rowid \<Rightarrow> rowid \<Rightarrow> db \<Rightarrow> exc + (bool \<times> db)" where
  "bind_evidence k c d =
     rbind (comp_identifier c ''card id'') (\<lambda>c. rbind (comp_identifier k ''evidence id'') (\<lambda>k.
       Inr (rowcount (bindable k) (evidence d) = 1,
            d\<lparr>evidence := update_where (bindable k) (\<lambda>e. e\<lparr>ev_card_id := Some c\<rparr>) (evidence d)\<rparr>)))"

definition release_evidence :: "rowid \<Rightarrow> db \<Rightarrow> exc + (nat \<times> db)" where
  "release_evidence c d = rbind (comp_identifier c ''card id'') (\<lambda>c.
     Inr (rowcount (carried_by c) (evidence d),
          d\<lparr>evidence := update_where (carried_by c) (\<lambda>e. e\<lparr>ev_card_id := None\<rparr>) (evidence d)\<rparr>))"

fun outcome_state :: "outcome \<Rightarrow> evidence_state" where
  "outcome_state OutAccepted = EvidenceAccepted"
| "outcome_state OutRejected = EvidenceRejected"
| "outcome_state OutSuperseded = EvidenceSuperseded"

definition settleable :: "rowid \<Rightarrow> evidence_row \<Rightarrow> bool" where
  "settleable k e \<longleftrightarrow> ev_id e = k \<and> ev_state e = EvidenceProposed"

definition settle_evidence :: "rowid \<Rightarrow> outcome \<Rightarrow> time \<Rightarrow> db \<Rightarrow> exc + (bool \<times> db)" where
  "settle_evidence k out now d = rbind (comp_identifier k ''evidence id'') (\<lambda>k.
     Inr (rowcount (settleable k) (evidence d) = 1,
          d\<lparr>evidence := update_where (settleable k)
              (\<lambda>e. e\<lparr>ev_state := outcome_state out, ev_settled_at := Some now\<rparr>) (evidence d)\<rparr>))"

definition settle_for_card :: "rowid \<Rightarrow> outcome \<Rightarrow> time \<Rightarrow> db \<Rightarrow> exc + (nat \<times> db)" where
  "settle_for_card c out now d =
     rbind (for_card c d) (\<lambda>found.
       case found of
         None \<Rightarrow> Inr (0, d)
       | Some e \<Rightarrow> rbind (settle_evidence (ev_id e) out now d) (\<lambda>(done, d').
           Inr (if done then 1 else 0, d')))"

section \<open>Detector quality\<close>

record detector_counts =
  dt_detector :: string
  dt_proposed :: nat
  dt_accepted :: nat
  dt_rejected :: nat
  dt_superseded :: nat

definition dt_answered :: "detector_counts \<Rightarrow> nat" where
  "dt_answered c = dt_accepted c + dt_rejected c"

definition in_state :: "string \<Rightarrow> evidence_state \<Rightarrow> evidence_row \<Rightarrow> bool" where
  "in_state det st e \<longleftrightarrow> ev_detector e = det \<and> ev_state e = st"

text \<open>\<open>GROUP BY detector ORDER BY detector\<close>.\<close>

definition evidence_counts :: "db \<Rightarrow> detector_counts list" where
  "evidence_counts d = map (\<lambda>det.
     \<lparr>dt_detector = det, dt_proposed = rowcount (in_state det EvidenceProposed) (evidence d),
      dt_accepted = rowcount (in_state det EvidenceAccepted) (evidence d),
      dt_rejected = rowcount (in_state det EvidenceRejected) (evidence d),
      dt_superseded = rowcount (in_state det EvidenceSuperseded) (evidence d)\<rparr>)
     (sort (remdups (map ev_detector (evidence d))))"

section \<open>The folded text is the sequence of words\<close>

fun words :: "string \<Rightarrow> string list" where
  "words [] = []"
| "words (c # cs) = (if is_space c then words cs
     else (c # takeWhile (\<lambda>x. \<not> is_space x) cs) # words (dropWhile (\<lambda>x. \<not> is_space x) cs))"

fun join :: "string list \<Rightarrow> string" where
  "join [] = []"
| "join [w] = w"
| "join (w # ws) = w @ CHR '' '' # join ws"

definition word :: "string \<Rightarrow> bool" where
  "word w \<longleftrightarrow> w \<noteq> [] \<and> (\<forall>c \<in> set w. \<not> is_space c)"

definition rstrip :: "string \<Rightarrow> string" where
  "rstrip s = rev (dropWhile is_space (rev s))"

lemma is_space_blank [simp]: "is_space (CHR '' '')"
  by (simp add: is_space_def code_of_def)

lemma words_are_words: "w \<in> set (words s) \<Longrightarrow> word w"
proof (induction s rule: words.induct)
  case (2 c cs)
  show ?case
  proof (cases "is_space c")
    case True
    with 2 show ?thesis by simp
  next
    case False
    with "2.prems" have "w = c # takeWhile (\<lambda>x. \<not> is_space x) cs
        \<or> w \<in> set (words (dropWhile (\<lambda>x. \<not> is_space x) cs))" by simp
    then show ?thesis
    proof
      assume "w = c # takeWhile (\<lambda>x. \<not> is_space x) cs"
      with False show ?thesis by (auto simp: word_def dest: set_takeWhileD)
    qed (rule "2.IH"(2) [OF False])
  qed
qed simp

lemma word_split:
  "\<forall>c \<in> set w. \<not> is_space c \<Longrightarrow> r = [] \<or> is_space (hd r) \<Longrightarrow>
    takeWhile (\<lambda>x. \<not> is_space x) (w @ r) = w \<and> dropWhile (\<lambda>x. \<not> is_space x) (w @ r) = r"
  by (induction w) (cases r; auto)+

lemma words_word: "word w \<Longrightarrow> r = [] \<or> is_space (hd r) \<Longrightarrow> words (w @ r) = w # words r"
  using word_split [of "tl w" r] by (cases w) (auto simp: word_def)

lemma words_join: "list_all word ws \<Longrightarrow> words (join ws) = ws"
proof (induction ws rule: join.induct)
  case (2 w)
  then show ?case using words_word [of w "[]"] by simp
next
  case (3 w v ws)
  then show ?case using words_word [of w "CHR '' '' # join (v # ws)"] by simp
qed simp

lemma join_inj:
  assumes "list_all word ws" and "list_all word vs" and "join ws = join vs"
  shows "ws = vs"
  using arg_cong [OF assms(3), of words] assms(1,2) by (simp add: words_join)

lemma words_dropWhile: "words (dropWhile is_space s) = words s"
  by (induction s) auto

lemma collapse_word: "(\<forall>c \<in> set w. \<not> is_space c) \<Longrightarrow> collapse (w @ r) = w @ collapse r"
  by (induction w) auto

text \<open>A text is white space, a word, and a rest that is empty or begins with white space.\<close>

lemma leading_word:
  assumes "s \<noteq> []" and "\<not> is_space (hd s)"
  obtains w r where "s = w @ r" and "word w" and "r = [] \<or> is_space (hd r)"
proof
  let ?P = "\<lambda>x. \<not> is_space x"
  show "s = takeWhile ?P s @ dropWhile ?P s" by simp
  show "word (takeWhile ?P s)" using assms by (cases s) (auto simp: word_def dest: set_takeWhileD)
  show "dropWhile ?P s = [] \<or> is_space (hd (dropWhile ?P s))"
    using hd_dropWhile [of ?P s] by blast
qed

lemma dropWhile_start: "dropWhile is_space s = [] \<or> \<not> is_space (hd (dropWhile is_space s))"
  using hd_dropWhile [of is_space s] by blast

lemma dropWhile_collapse_start:
  "s = [] \<or> \<not> is_space (hd s) \<Longrightarrow> dropWhile is_space (collapse s) = collapse s"
  by (cases s) auto

lemma dropWhile_collapse: "dropWhile is_space (collapse s) = collapse (dropWhile is_space s)"
proof (cases s)
  case (Cons c cs)
  then show ?thesis
    using dropWhile_collapse_start [OF dropWhile_start [of cs]]
    by (cases "is_space c") simp_all
qed simp

lemma rstrip_word: "word w \<Longrightarrow> rstrip w = w"
proof -
  assume w: "word w"
  then have "\<not> is_space (hd (rev w))"
    by (auto simp: word_def hd_rev)
  then show ?thesis by (simp add: rstrip_def dropWhile_id)
qed

lemma rstrip_append: "rstrip x \<noteq> [] \<Longrightarrow> rstrip (y @ x) = y @ rstrip x"
  by (auto simp: rstrip_def dropWhile_append)

lemma rstrip_snoc_space: "rstrip (x @ [CHR '' '']) = rstrip x"
  by (simp add: rstrip_def)

lemma join_words_ne: "words s \<noteq> [] \<Longrightarrow> join (words s) \<noteq> []"
  using words_are_words [of _ s] by (cases "words s" rule: join.cases) (auto simp: word_def)

lemma words_Nil_start: "words s = [] \<Longrightarrow> s = [] \<or> \<not> is_space (hd s) \<Longrightarrow> s = []"
  by (cases s) auto

lemma rstrip_collapse: "s = [] \<or> \<not> is_space (hd s) \<Longrightarrow> rstrip (collapse s) = join (words s)"
proof (induction "length s" arbitrary: s rule: less_induct)
  case less
  show ?case
  proof (cases "s = []")
    case False
    then obtain w r where s: "s = w @ r" and w: "word w" and r: "r = [] \<or> is_space (hd r)"
      using less.prems leading_word by blast
    have coll: "collapse s = w @ collapse r"
      using collapse_word [of w r] w s by (simp add: word_def)
    show ?thesis
    proof (cases r)
      case Nil
      then show ?thesis using words_word [OF w r] coll s rstrip_word [OF w] by simp
    next
      case (Cons x xs)
      let ?r' = "dropWhile is_space xs"
      have sp: "is_space x" using Cons r by simp
      have words: "words s = w # words ?r'"
        using words_word [OF w r] s Cons sp by (simp add: words_dropWhile)
      have cr: "collapse r = CHR '' '' # collapse ?r'" using Cons sp by simp
      have len: "length ?r' < length s"
        using s Cons length_dropWhile_le [of is_space xs] by simp
      note IH = less.hyps [OF len dropWhile_start]
      show ?thesis
      proof (cases "words ?r'")
        case Nil
        then have "?r' = []" using words_Nil_start [OF _ dropWhile_start] by blast
        then show ?thesis
          using coll cr words rstrip_snoc_space [of w] rstrip_word [OF w]
          by (simp del: dropWhile_eq_Nil_conv)
      next
        case (Cons v vs)
        then have "rstrip (collapse ?r') \<noteq> []" using IH join_words_ne [of ?r'] by simp
        then have "rstrip ((w @ [CHR '' '']) @ collapse ?r') = (w @ [CHR '' '']) @ rstrip (collapse ?r')"
          by (rule rstrip_append)
        then show ?thesis using coll cr words Cons IH by simp
      qed
    qed
  qed (simp add: rstrip_def)
qed

lemma strip_collapse: "strip (collapse s) = join (words s)"
proof -
  let ?t = "dropWhile is_space s"
  have "strip (collapse s) = rstrip (collapse ?t)"
    by (simp add: strip_def rstrip_def dropWhile_collapse)
  also have "\<dots> = join (words ?t)"
    by (rule rstrip_collapse [OF dropWhile_start])
  finally show ?thesis by (simp add: words_dropWhile)
qed

lemma code_of_char_of [simp]: "n < 256 \<Longrightarrow> code_of (char_of n) = n"
  by (simp add: code_of_def of_char_of)

lemma is_space_lower [simp]: "is_space (lower_char c) = is_space c"
  by (auto simp: lower_char_def is_space_def Let_def)

lemma casefold_join: "casefold (join ws) = join (map casefold ws)"
  by (induction ws rule: join.induct) (simp_all add: casefold_def lower_char_def code_of_def)

lemma word_casefold: "word w \<Longrightarrow> word (casefold w)"
  by (auto simp: word_def casefold_def)

lemma fold_text_words: "fold_text s = join (map casefold (words s))"
  by (simp add: fold_text_def strip_collapse casefold_join)

section \<open>The invariant of the evidence table\<close>

definition evidence_identity :: "evidence_row \<Rightarrow> rowid \<times> string" where
  "evidence_identity e = (ev_task_id e, ev_digest e)"

definition evidence_inv :: "db \<Rightarrow> bool" where
  "evidence_inv d \<longleftrightarrow> unique_key ev_id (evidence d) \<and> unique_key evidence_identity (evidence d)
     \<and> list_all (\<lambda>e. 1 \<le> ev_id e \<and> evidence_check e
          \<and> rowcount (open_question (ev_task_id e)) (evidence d) \<le> MAX_OPEN_QUESTIONS_PER_TASK)
        (evidence d)"

text \<open>Everything the module does to the table, as one request type.\<close>

datatype comp_op =
    OpPropose detection time
  | OpBind rowid rowid
  | OpRelease rowid
  | OpSettle rowid outcome time
  | OpSettleCard rowid outcome time

fun comp_step :: "(string \<Rightarrow> string) \<Rightarrow> comp_op \<Rightarrow> db \<Rightarrow> db" where
  "comp_step sha (OpPropose p now) d = snd (run_tx (propose sha p now) d)"
| "comp_step sha (OpBind k c) d = snd (run_tx (bind_evidence k c) d)"
| "comp_step sha (OpRelease c) d = snd (run_tx (release_evidence c) d)"
| "comp_step sha (OpSettle k out now) d = snd (run_tx (settle_evidence k out now) d)"
| "comp_step sha (OpSettleCard c out now) d = snd (run_tx (settle_for_card c out now) d)"

text \<open>
  Whatever the request, the table is changed in one of three ways: a checked row with a fresh
  identity is appended, waiting rows get another card, or one waiting row is settled.
\<close>

lemma propose_cases:
  obtains (same) "snd (run_tx (propose sha raw now) d) = d"
  | (recorded) p e where "clean_detection raw = Inr p"
      "e = detection_row sha p (next_id ev_id (evidence d)) now" "evidence_check e"
      "List.find (same_evidence (ev_task_id e) (ev_digest e)) (evidence d) = None"
      "rowcount (open_question (ev_task_id e)) (evidence d) < MAX_OPEN_QUESTIONS_PER_TASK"
      "\<exists>t. task_of (ev_task_id e) d = Some t \<and> tk_status t = TaskOpen"
      "snd (run_tx (propose sha raw now) d) = d\<lparr>evidence := evidence d @ [e]\<rparr>"
      "propose sha raw now d = Inr (\<lparr>cr_disposition = CompRecorded, cr_evidence_id = Some (ev_id e),
         cr_refusal = None\<rparr>, d\<lparr>evidence := evidence d @ [e]\<rparr>)"
proof (cases "clean_detection raw")
  case (Inl x)
  then show thesis by (intro same) (simp add: propose_def run_tx_def)
next
  case (Inr p)
  let ?digest = "evidence_digest sha (pr_source_kind p) (pr_source_record_id p)
    (pr_source_item_id p) (pr_quotation p)"
  let ?e = "detection_row sha p (next_id ev_id (evidence d)) now"
  have key [simp]: "ev_task_id ?e = pr_task_id p" "ev_digest ?e = ?digest"
    "ev_id ?e = next_id ev_id (evidence d)"
    by (simp_all add: detection_row_def)
  show thesis
  proof (cases "task_of (pr_task_id p) d")
    case None
    with Inr show thesis by (intro same) (simp add: propose_def run_tx_def)
  next
    case (Some t)
    note t = this
    show thesis
    proof (cases "tk_status t \<noteq> TaskOpen \<or> \<not> evidence_check ?e
        \<or> MAX_OPEN_QUESTIONS_PER_TASK \<le> rowcount (open_question (pr_task_id p)) (evidence d)
        \<or> List.find (same_evidence (pr_task_id p) ?digest) (evidence d) \<noteq> None")
      case True
      with Inr t show thesis
        by (intro same) (auto simp: propose_def run_tx_def Let_def split: option.splits)
    next
      case False
      then have eq: "propose sha raw now d = Inr (\<lparr>cr_disposition = CompRecorded,
          cr_evidence_id = Some (ev_id ?e), cr_refusal = None\<rparr>, d\<lparr>evidence := evidence d @ [?e]\<rparr>)"
        using Inr t by (simp add: propose_def Let_def)
      show thesis
        by (rule recorded [of p ?e]) (use False Inr t eq in \<open>simp_all add: run_tx_def\<close>)
    qed
  qed
qed

lemma evidence_check_settle:
  "evidence_check e \<Longrightarrow> evidence_check (e\<lparr>ev_state := outcome_state out, ev_settled_at := Some now\<rparr>)"
  by (cases out) (auto simp: evidence_check_def)

lemma outcome_state_final [simp]: "outcome_state out \<noteq> EvidenceProposed"
  by (cases out) auto

lemma settle_effect:
  "settle_evidence k out now d = (if k < 1 then Inl (TaskCompletionError ''evidence id is invalid'')
     else Inr (rowcount (settleable k) (evidence d) = 1, d\<lparr>evidence := update_where (settleable k)
       (\<lambda>e. e\<lparr>ev_state := outcome_state out, ev_settled_at := Some now\<rparr>) (evidence d)\<rparr>))"
  by (simp add: settle_evidence_def comp_identifier_def)

lemma settle_for_card_effect:
  assumes "1 \<le> c" and "\<And>e. e \<in> set (evidence d) \<Longrightarrow> 1 \<le> ev_id e"
  shows "settle_for_card c out now d = (case List.find (carried_by c) (evidence d) of
      None \<Rightarrow> Inr (0, d)
    | Some e \<Rightarrow> Inr (if rowcount (settleable (ev_id e)) (evidence d) = 1 then 1 else 0,
        d\<lparr>evidence := update_where (settleable (ev_id e))
          (\<lambda>e. e\<lparr>ev_state := outcome_state out, ev_settled_at := Some now\<rparr>) (evidence d)\<rparr>))"
  using assms
  by (auto simp: settle_for_card_def for_card_def comp_identifier_def settle_effect
      dest!: find_SomeD assms(2) split: option.splits)

section \<open>How a row evolves\<close>

text \<open>What the card shows of a piece of evidence: the row without its card and its answer.\<close>

definition shown :: "evidence_row \<Rightarrow> evidence_row" where
  "shown e = e\<lparr>ev_state := EvidenceProposed, ev_card_id := None, ev_settled_at := None\<rparr>"

definition evolves :: "evidence_row \<Rightarrow> evidence_row \<Rightarrow> bool" where
  "evolves e e' \<longleftrightarrow> e' = e \<or> (ev_state e = EvidenceProposed \<and> shown e' = shown e
     \<and> (evidence_check e \<longrightarrow> evidence_check e'))"

lemma shown_fields:
  "shown e' = shown e \<Longrightarrow> ev_id e' = ev_id e \<and> ev_task_id e' = ev_task_id e \<and> ev_digest e' = ev_digest e"
  by (cases e; cases e') (simp add: shown_def)

lemma evolvesD:
  assumes "evolves e e'"
  shows "shown e' = shown e" "ev_id e' = ev_id e" "ev_task_id e' = ev_task_id e"
    "ev_digest e' = ev_digest e" "evidence_check e \<Longrightarrow> evidence_check e'"
    "ev_state e \<noteq> EvidenceProposed \<Longrightarrow> e' = e"
  using assms shown_fields [of e' e] by (auto simp: evolves_def)

lemma evolves_refl [simp]: "evolves e e"
  by (simp add: evolves_def)

lemma evolves_trans: "evolves e f \<Longrightarrow> evolves f g \<Longrightarrow> evolves e g"
  unfolding evolves_def by auto

lemma all2_evolves_refl: "list_all2 evolves rows rows"
  by (simp add: list_all2_same)

lemma bind_evolves:
  "(\<exists>k. bindable k e) \<or> (\<exists>c. carried_by c e) \<Longrightarrow> evolves e (e\<lparr>ev_card_id := x\<rparr>)"
  by (auto simp: bindable_def carried_by_def evolves_def shown_def evidence_check_def)

lemma settle_evolves:
  "settleable k e \<Longrightarrow> evolves e (e\<lparr>ev_state := outcome_state out, ev_settled_at := Some now\<rparr>)"
  using evidence_check_settle [of e] by (auto simp: settleable_def evolves_def shown_def)

text \<open>Nothing but the evidence table is written; old rows evolve in place.\<close>

lemma settle_evidence_effect:
  "\<exists>es. snd (run_tx (settle_evidence k out now) d) = d\<lparr>evidence := es\<rparr> \<and> list_all2 evolves (evidence d) es"
proof (cases "k < 1")
  case True
  then show ?thesis
    by (intro exI [of _ "evidence d"]) (simp add: run_tx_def settle_effect all2_evolves_refl)
next
  case False
  let ?f = "\<lambda>e. e\<lparr>ev_state := outcome_state out, ev_settled_at := Some now\<rparr>"
  have "list_all2 evolves (evidence d) (update_where (settleable k) ?f (evidence d))"
    by (intro list_all2_update_where settle_evolves evolves_refl)
  with False show ?thesis
    by (intro exI [of _ "update_where (settleable k) ?f (evidence d)"]) (simp add: run_tx_def settle_effect)
qed

lemma settle_card_as_settle:
  "snd (run_tx (settle_for_card c out now) d) = d
    \<or> (\<exists>k. snd (run_tx (settle_for_card c out now) d) = snd (run_tx (settle_evidence k out now) d))"
proof (cases "for_card c d")
  case (Inl x)
  then show ?thesis by (simp add: run_tx_def settle_for_card_def)
next
  case (Inr found)
  show ?thesis
  proof (cases found)
    case None
    with Inr show ?thesis by (simp add: run_tx_def settle_for_card_def)
  next
    case (Some e)
    with Inr have "snd (run_tx (settle_for_card c out now) d)
        = snd (run_tx (settle_evidence (ev_id e) out now) d)"
      by (cases "ev_id e < 1") (simp_all add: run_tx_def settle_for_card_def settle_effect)
    then show ?thesis by blast
  qed
qed

lemma bind_evidence_effect:
  "\<exists>es. snd (run_tx (bind_evidence k c) d) = d\<lparr>evidence := es\<rparr> \<and> list_all2 evolves (evidence d) es"
proof (cases "c < 1 \<or> k < 1")
  case True
  then show ?thesis
    by (intro exI [of _ "evidence d"])
      (auto simp: run_tx_def bind_evidence_def comp_identifier_def all2_evolves_refl)
next
  case False
  let ?es = "update_where (bindable k) (\<lambda>e. e\<lparr>ev_card_id := Some c\<rparr>) (evidence d)"
  have "list_all2 evolves (evidence d) ?es"
    by (rule list_all2_update_where) (blast intro: bind_evolves evolves_refl)+
  with False show ?thesis
    by (intro exI [of _ ?es]) (simp add: run_tx_def bind_evidence_def comp_identifier_def)
qed

lemma release_evidence_effect:
  "\<exists>es. snd (run_tx (release_evidence c) d) = d\<lparr>evidence := es\<rparr> \<and> list_all2 evolves (evidence d) es"
proof (cases "c < 1")
  case True
  then show ?thesis
    by (intro exI [of _ "evidence d"])
      (auto simp: run_tx_def release_evidence_def comp_identifier_def all2_evolves_refl)
next
  case False
  let ?es = "update_where (carried_by c) (\<lambda>e. e\<lparr>ev_card_id := None\<rparr>) (evidence d)"
  have "list_all2 evolves (evidence d) ?es"
    by (rule list_all2_update_where) (blast intro: bind_evolves evolves_refl)+
  with False show ?thesis
    by (intro exI [of _ ?es]) (simp add: run_tx_def release_evidence_def comp_identifier_def)
qed

text \<open>
  Whatever the request, either old rows evolve or one checked row with a fresh identity is
  appended.
\<close>

lemma comp_step_cases:
  obtains (evolved) es where "comp_step sha op d = d\<lparr>evidence := es\<rparr>" "list_all2 evolves (evidence d) es"
  | (appended) e where "comp_step sha op d = d\<lparr>evidence := evidence d @ [e]\<rparr>"
      "ev_id e = next_id ev_id (evidence d)" "evidence_check e" "ev_state e = EvidenceProposed"
      "List.find (same_evidence (ev_task_id e) (ev_digest e)) (evidence d) = None"
      "rowcount (open_question (ev_task_id e)) (evidence d) < MAX_OPEN_QUESTIONS_PER_TASK"
proof (cases op)
  case (OpPropose raw now)
  show thesis
  proof (rule propose_cases [of sha raw now d])
    assume "snd (run_tx (propose sha raw now) d) = d"
    with OpPropose show thesis by (intro evolved [of "evidence d"]) (simp_all add: all2_evolves_refl)
  next
    fix p e
    assume "e = detection_row sha p (next_id ev_id (evidence d)) now" "evidence_check e"
      "List.find (same_evidence (ev_task_id e) (ev_digest e)) (evidence d) = None"
      "rowcount (open_question (ev_task_id e)) (evidence d) < MAX_OPEN_QUESTIONS_PER_TASK"
      "snd (run_tx (propose sha raw now) d) = d\<lparr>evidence := evidence d @ [e]\<rparr>"
    with OpPropose show thesis by (intro appended [of e]) (simp_all add: detection_row_def)
  qed
next
  case (OpBind k c)
  then show thesis using bind_evidence_effect [of k c d] evolved by auto
next
  case (OpRelease c)
  then show thesis using release_evidence_effect [of c d] evolved by auto
next
  case (OpSettle k out now)
  then show thesis using settle_evidence_effect [of k out now d] evolved by auto
next
  case (OpSettleCard c out now)
  from settle_card_as_settle [of c out now d]
  have "\<exists>es. comp_step sha op d = d\<lparr>evidence := es\<rparr> \<and> list_all2 evolves (evidence d) es"
  proof
    assume "snd (run_tx (settle_for_card c out now) d) = d"
    with OpSettleCard show ?thesis
      by (intro exI [of _ "evidence d"]) (simp add: all2_evolves_refl)
  next
    assume "\<exists>k. snd (run_tx (settle_for_card c out now) d) = snd (run_tx (settle_evidence k out now) d)"
    then obtain k where "snd (run_tx (settle_for_card c out now) d)
        = snd (run_tx (settle_evidence k out now) d)" ..
    with OpSettleCard settle_evidence_effect [of k out now d] show ?thesis by auto
  qed
  then show thesis using evolved by blast
qed

text \<open>The invariant read for any task, whether it has a row or not.\<close>

lemma evidence_inv_iff:
  "evidence_inv d \<longleftrightarrow> unique_key ev_id (evidence d) \<and> unique_key evidence_identity (evidence d)
     \<and> (\<forall>e \<in> set (evidence d). 1 \<le> ev_id e \<and> evidence_check e)
     \<and> (\<forall>i. rowcount (open_question i) (evidence d) \<le> MAX_OPEN_QUESTIONS_PER_TASK)"
proof -
  have "rowcount (open_question i) (evidence d) \<le> MAX_OPEN_QUESTIONS_PER_TASK"
    if all: "\<forall>e \<in> set (evidence d). rowcount (open_question (ev_task_id e)) (evidence d)
      \<le> MAX_OPEN_QUESTIONS_PER_TASK" for i
  proof (cases "\<exists>e \<in> set (evidence d). open_question i e")
    case True
    then show ?thesis using all by (auto simp: open_question_def)
  next
    case False
    then have "filter (open_question i) (evidence d) = []"
      unfolding filter_empty_conv by blast
    then show ?thesis by (simp add: rowcount_def)
  qed
  then show ?thesis by (auto simp: evidence_inv_def list_all_iff)
qed

lemma evolves_identity: "evolves e e' \<Longrightarrow> evidence_identity e' = evidence_identity e"
  by (auto simp: evidence_identity_def dest: evolvesD)

lemma evolves_open: "evolves e e' \<Longrightarrow> open_question i e' \<Longrightarrow> open_question i e"
  using evolvesD(3) [of e e'] by (auto simp: open_question_def evolves_def)

lemma evidence_inv_evolves:
  assumes "evidence_inv d" and "list_all2 evolves (evidence d) es"
  shows "evidence_inv (d\<lparr>evidence := es\<rparr>)"
proof -
  note inv = assms(1) [unfolded evidence_inv_iff]
  have "map ev_id es = map ev_id (evidence d)"
    by (rule list_all2_map_eq [OF assms(2)]) (rule evolvesD(2))
  moreover have "map evidence_identity es = map evidence_identity (evidence d)"
    by (rule list_all2_map_eq [OF assms(2) evolves_identity])
  moreover have "\<forall>e \<in> set es. 1 \<le> ev_id e \<and> evidence_check e"
  proof
    fix e' assume "e' \<in> set es"
    then obtain e where "e \<in> set (evidence d)" "evolves e e'"
      using list_all2_set_right [OF assms(2)] by blast
    then show "1 \<le> ev_id e' \<and> evidence_check e'"
      using inv evolvesD(2,5) [of e e'] by simp
  qed
  moreover have "\<forall>i. rowcount (open_question i) es \<le> MAX_OPEN_QUESTIONS_PER_TASK"
  proof
    fix i
    have "rowcount (open_question i) es \<le> rowcount (open_question i) (evidence d)"
      by (rule list_all2_rowcount_le [OF assms(2)]) (rule evolves_open)
    with inv show "rowcount (open_question i) es \<le> MAX_OPEN_QUESTIONS_PER_TASK"
      using le_trans by blast
  qed
  ultimately show ?thesis using inv by (simp add: evidence_inv_iff unique_key_def)
qed

lemma evidence_inv_append:
  assumes "evidence_inv d" and "ev_id e = next_id ev_id (evidence d)" and "evidence_check e"
    and fresh: "List.find (same_evidence (ev_task_id e) (ev_digest e)) (evidence d) = None"
    and room: "rowcount (open_question (ev_task_id e)) (evidence d) < MAX_OPEN_QUESTIONS_PER_TASK"
  shows "evidence_inv (d\<lparr>evidence := evidence d @ [e]\<rparr>)"
proof -
  note inv = assms(1) [unfolded evidence_inv_iff]
  have "evidence_identity e \<notin> evidence_identity ` set (evidence d)"
    using fresh by (auto simp: find_None_iff same_evidence_def evidence_identity_def)
  moreover have "rowcount (open_question i) (evidence d @ [e]) \<le> MAX_OPEN_QUESTIONS_PER_TASK" for i
    using inv room by (cases "i = ev_task_id e") (auto simp: rowcount_def open_question_def)
  ultimately show ?thesis
    using inv assms(2,3) unique_key_insert [of ev_id "evidence d" e] next_id_positive [of ev_id]
    by (simp add: evidence_inv_iff unique_key_def)
qed

lemma evidence_inv_step: "evidence_inv d \<Longrightarrow> evidence_inv (comp_step sha op d)"
  by (rule comp_step_cases [of sha op d]) (auto intro: evidence_inv_evolves evidence_inv_append)

definition comp_run :: "(string \<Rightarrow> string) \<Rightarrow> comp_op list \<Rightarrow> db \<Rightarrow> db" where
  "comp_run sha ops d = fold (comp_step sha) ops d"

lemma evidence_inv_run: "evidence_inv d \<Longrightarrow> evidence_inv (comp_run sha ops d)"
  unfolding comp_run_def by (induction ops arbitrary: d) (simp_all add: evidence_inv_step)

lemma evolves_step:
  assumes "e \<in> set (evidence d)"
  shows "\<exists>e' \<in> set (evidence (comp_step sha op d)). evolves e e'"
proof (rule comp_step_cases [of sha op d])
  fix es assume "comp_step sha op d = d\<lparr>evidence := es\<rparr>" and "list_all2 evolves (evidence d) es"
  then show ?thesis using list_all2_set_left [of evolves "evidence d" es e] assms by simp
next
  fix f assume "comp_step sha op d = d\<lparr>evidence := evidence d @ [f]\<rparr>"
  then show ?thesis using assms by (intro bexI [of _ e]) simp_all
qed

interpretation evidence_rows: append_only "comp_step sha" evidence evolves "\<lambda>d. True"
  by unfold_locales (auto intro: evolves_trans evolves_step)

lemma evolves_run:
  assumes "e \<in> set (evidence d)"
  shows "\<exists>e' \<in> set (evidence (comp_run sha ops d)). evolves e e'"
  unfolding comp_run_def by (rule evidence_rows.run_evolves [OF TrueI assms])

lemma comp_step_frame: "\<exists>es. comp_step sha op d = d\<lparr>evidence := es\<rparr>"
  by (rule comp_step_cases [of sha op d]) auto

lemma comp_run_frame: "\<exists>es. comp_run sha ops d = d\<lparr>evidence := es\<rparr>"
proof (induction ops arbitrary: d)
  case Nil
  show ?case by (intro exI [of _ "evidence d"]) (simp add: comp_run_def)
next
  case (Cons op ops)
  obtain es where es: "comp_step sha op d = d\<lparr>evidence := es\<rparr>" using comp_step_frame by blast
  from Cons.IH [of "d\<lparr>evidence := es\<rparr>"] es show ?case by (auto simp: comp_run_def)
qed

section \<open>Answers\<close>

definition answer_evidence :: "rowid \<times> outcome \<times> time \<Rightarrow> db \<Rightarrow> bool \<times> db" where
  "answer_evidence r d = (case run_tx (settle_evidence (fst r) (fst (snd r)) (snd (snd r))) d of
     (Inl x, d') \<Rightarrow> (False, d') | (Inr b, d') \<Rightarrow> (b, d'))"

definition evidence_state_of :: "rowid \<Rightarrow> db \<Rightarrow> evidence_state option" where
  "evidence_state_of k d = map_option ev_state (row_of ev_id k (evidence d))"

lemma answer_evidence_simp:
  assumes "evidence_inv d"
  shows "answer_evidence (k, out, now) d = (evidence_state_of k d = Some EvidenceProposed,
    d\<lparr>evidence := update_where (settleable k)
      (\<lambda>e. e\<lparr>ev_state := outcome_state out, ev_settled_at := Some now\<rparr>) (evidence d)\<rparr>)"
proof -
  have inv: "unique_key ev_id (evidence d)" "\<And>e. e \<in> set (evidence d) \<Longrightarrow> 1 \<le> ev_id e"
    using assms by (auto simp: evidence_inv_iff)
  have count: "rowcount (settleable k) (evidence d) = 1 \<longleftrightarrow> evidence_state_of k d = Some EvidenceProposed"
    using rowcount_unique [OF inv(1), of k "\<lambda>e. ev_state e = EvidenceProposed"]
    by (auto simp: settleable_def [abs_def] evidence_state_of_def split: option.splits)
  show ?thesis
  proof (cases "k < 1")
    case True
    then have none: "row_of ev_id k (evidence d) = None"
      using inv(2) by (fastforce simp: find_None_iff)
    then have "\<And>e. e \<in> set (evidence d) \<Longrightarrow> \<not> settleable k e"
      by (auto simp: find_None_iff settleable_def)
    then have "update_where (settleable k) f (evidence d) = evidence d" for f
      by (rule update_where_none)
    with True none show ?thesis
      by (simp add: answer_evidence_def run_tx_def settle_effect evidence_state_of_def)
  next
    case False
    then show ?thesis
      using count by (simp add: answer_evidence_def run_tx_def settle_effect)
  qed
qed

lemma evidence_inv_answer: "evidence_inv d \<Longrightarrow> evidence_inv (snd (answer_evidence r d))"
proof -
  assume inv: "evidence_inv d"
  obtain k out now where r: "r = (k, out, now)" by (cases r)
  show ?thesis
    using evidence_inv_step [OF inv, of undefined "OpSettle k out now"]
    by (auto simp: r answer_evidence_def run_tx_def split: sum.splits)
qed

lemma evidence_state_after_answer:
  assumes "evidence_inv d"
  shows "evidence_state_of k (snd (answer_evidence (k', out, now) d))
    = (if k = k' \<and> evidence_state_of k d = Some EvidenceProposed then Some (outcome_state out)
       else evidence_state_of k d)"
  by (cases "row_of ev_id k (evidence d)")
    (auto simp: answer_evidence_simp [OF assms] evidence_state_of_def find_update_where settleable_def
      dest: row_of_key)

interpretation evidence_answers: question_store answer_evidence fst "\<lambda>r. outcome_state (fst (snd r))"
  EvidenceProposed evidence_state_of "\<lambda>r. True" evidence_inv
proof unfold_locales
  fix d :: db and r :: "rowid \<times> outcome \<times> time" and k
  assume inv: "evidence_inv d"
  obtain k' out now where r: "r = (k', out, now)" by (cases r)
  show "evidence_inv (snd (answer_evidence r d))" by (rule evidence_inv_answer [OF inv])
  show iff: "fst (answer_evidence r d) = (True \<and> evidence_state_of (fst r) d = Some EvidenceProposed)"
    using inv by (simp add: r answer_evidence_simp)
  show "fst (answer_evidence r d) \<Longrightarrow>
      evidence_state_of (fst r) (snd (answer_evidence r d)) = Some (outcome_state (fst (snd r)))"
    using iff by (simp add: r evidence_state_after_answer [OF inv])
  show "k \<noteq> fst r \<Longrightarrow> evidence_state_of k (snd (answer_evidence r d)) = evidence_state_of k d"
    by (simp add: r evidence_state_after_answer [OF inv])
  show "\<not> fst (answer_evidence r d) \<Longrightarrow>
      evidence_state_of k (snd (answer_evidence r d)) = evidence_state_of k d"
    using iff by (auto simp: r evidence_state_after_answer [OF inv])
qed simp

section \<open>Properties\<close>

text \<open>The folding that decides whether two quotations are the same evidence identifies exactly
  the texts with the same words up to case: line breaks, indentation and run lengths of white
  space never make a new question, and no two texts with different words are confused.\<close>

lemma fold_text_same_words:
  "fold_text a = fold_text b \<longleftrightarrow> map casefold (words a) = map casefold (words b)"
proof -
  have "list_all word (map casefold (words s))" for s
    using words_are_words [of _ s] by (auto simp: list_all_iff intro: word_casefold)
  then show ?thesis
    using join_inj by (auto simp: fold_text_words)
qed

text \<open>Whatever detectors, cards and readers do, in any order, the evidence table keeps its
  constraints (unique ids, one row per task and digest, column checks, settled exactly when
  dated), no task ever has more than five open questions, and no other table is written.\<close>

lemma evidence_table_invariant:
  assumes "evidence_inv d"
  shows "evidence_inv (comp_run sha ops d)
    \<and> (\<forall>i. rowcount (open_question i) (evidence (comp_run sha ops d)) \<le> 5)
    \<and> (\<exists>es. comp_run sha ops d = d\<lparr>evidence := es\<rparr>)"
  using evidence_inv_run [OF assms] comp_run_frame [of sha ops d]
  by (simp add: evidence_inv_iff MAX_OPEN_QUESTIONS_PER_TASK_def)

definition sample_detection :: detection where
  "sample_detection = \<lparr>pr_task_id = 1, pr_source_kind = ''meeting'', pr_source_record_id = ''m-1'',
     pr_source_item_id = '''', pr_observed_at = ''2026-01-02'', pr_quotation = ''The draft is  DONE'',
     pr_reason = ''names the draft'', pr_detector = ''meeting_scan'', pr_confidence = ''high''\<rparr>"

definition sample_sha :: "string \<Rightarrow> string" where
  "sample_sha s = take 64 (s @ replicate 64 CHR ''0'')"

definition sample_evidence :: evidence_row where
  "sample_evidence = (detection_row sample_sha sample_detection 1 7)\<lparr>ev_state := EvidenceRejected,
     ev_settled_at := Some 9\<rparr>"

definition sample_completion :: db where
  "sample_completion = sample_ledger\<lparr>evidence := [sample_evidence,
     (detection_row sample_sha (sample_detection\<lparr>pr_quotation := ''other words''\<rparr>) 2 8)]\<rparr>"

lemma sample_completion_ok: "evidence_inv sample_completion"
  by code_simp

theorem evidence_table_invariant_witness:
  "evidence_inv (comp_run sample_sha [OpBind 2 4, OpSettle 2 OutAccepted 11] sample_completion)"
  using evidence_table_invariant [OF sample_completion_ok] by blast

text \<open>Everything a card shows of a piece of evidence is frozen when it is recorded, and a settled
  row never changes again, whatever is proposed, bound, released or settled later.\<close>

lemma evidence_frozen_and_final:
  assumes "e \<in> set (evidence d)"
  shows "\<exists>e' \<in> set (evidence (comp_run sha ops d)).
    shown e' = shown e \<and> (ev_state e \<noteq> EvidenceProposed \<longrightarrow> e' = e)"
  using evolves_run [OF assms, of sha ops] evolvesD(1,6) by blast

theorem evidence_frozen_and_final_witness:
  "\<exists>e' \<in> set (evidence (comp_run sample_sha [OpSettle 1 OutAccepted 11] sample_completion)).
    shown e' = shown sample_evidence
    \<and> (ev_state sample_evidence \<noteq> EvidenceProposed \<longrightarrow> e' = sample_evidence)"
  by (rule evidence_frozen_and_final) (simp add: sample_completion_def)

text \<open>The digest of a detection, and two detections that quote the same words of the same source.\<close>

definition detection_digest :: "(string \<Rightarrow> string) \<Rightarrow> detection \<Rightarrow> string" where
  "detection_digest sha p = evidence_digest sha (pr_source_kind p) (pr_source_record_id p)
     (pr_source_item_id p) (pr_quotation p)"

definition same_question :: "detection \<Rightarrow> detection \<Rightarrow> bool" where
  "same_question p q \<longleftrightarrow> pr_task_id p = pr_task_id q
     \<and> casefold (strip (pr_source_kind p)) = casefold (strip (pr_source_kind q))
     \<and> strip (pr_source_record_id p) = strip (pr_source_record_id q)
     \<and> strip (pr_source_item_id p) = strip (pr_source_item_id q)
     \<and> map casefold (words (pr_quotation p)) = map casefold (words (pr_quotation q))"

lemma same_question_digest:
  "same_question p q \<Longrightarrow> detection_digest sha p = detection_digest sha q"
  by (simp add: same_question_def detection_digest_def evidence_digest_def fold_text_words)

lemma find_same_evidence:
  assumes "unique_key evidence_identity (evidence d)" and "e \<in> set (evidence d)"
  shows "List.find (same_evidence (ev_task_id e) (ev_digest e)) (evidence d) = Some e"
proof -
  have "same_evidence (ev_task_id e) (ev_digest e) = (\<lambda>f. evidence_identity f = evidence_identity e)"
    by (auto simp: same_evidence_def evidence_identity_def)
  then show ?thesis
    using row_of_unique [OF assms(1), of "evidence_identity e" e] assms(2) by simp
qed

lemma propose_known:
  assumes "evidence_inv d" and "e \<in> set (evidence d)" and "clean_detection raw = Inr p"
    and "ev_task_id e = pr_task_id p" and "ev_digest e = detection_digest sha p"
  shows "propose sha raw now d = (case task_of (pr_task_id p) d of
      None \<Rightarrow> Inr (comp_refuse CompUnknownTask, d)
    | Some t \<Rightarrow> if tk_status t \<noteq> TaskOpen then Inr (comp_refuse CompTaskNotOpen, d)
        else Inr (\<lparr>cr_disposition = CompUnchanged, cr_evidence_id = Some (ev_id e),
                   cr_refusal = None\<rparr>, d))"
  using find_same_evidence [of d e] assms
  by (auto simp: propose_def evidence_inv_iff detection_digest_def Let_def split: option.splits)

text \<open>A question is asked once.  Once a piece of evidence has a row, then after any later
  requests (answers included) every proposal that quotes the same words of the same source for
  the same task, from any detector and with any reason, writes nothing: it is refused because
  the task is gone or closed, or answered with the row that is already there.\<close>

lemma answered_evidence_is_not_asked_again:
  assumes "evidence_inv d" and "e \<in> set (evidence d)"
    and "ev_task_id e = pr_task_id q" and "ev_digest e = detection_digest sha q"
    and "clean_detection raw = Inr p" and "same_question p q"
    and "d' = comp_run sha ops d"
  shows "propose sha raw now d' \<in> {Inr (comp_refuse CompUnknownTask, d'),
      Inr (comp_refuse CompTaskNotOpen, d'),
      Inr (\<lparr>cr_disposition = CompUnchanged, cr_evidence_id = Some (ev_id e), cr_refusal = None\<rparr>, d')}"
proof -
  obtain f where f: "f \<in> set (evidence d')" "evolves e f"
    using evolves_run [OF assms(2), of sha ops] assms(7) by blast
  have key: "ev_task_id f = pr_task_id p" "ev_digest f = detection_digest sha p" "ev_id f = ev_id e"
    using evolvesD(2-4) [OF f(2)] assms(3,4,6) same_question_digest [OF assms(6), of sha]
    by (simp_all add: same_question_def)
  have "evidence_inv d'" using evidence_inv_run [OF assms(1)] assms(7) by simp
  from propose_known [OF this f(1) assms(5) key(1,2), of now] key(3) show ?thesis
    by (auto split: option.splits)
qed

theorem answered_evidence_is_not_asked_again_witness:
  "propose sample_sha (sample_detection\<lparr>pr_quotation := ''  the DRAFT is done ''\<rparr>) 20
      (comp_run sample_sha [OpSettle 2 OutAccepted 11] sample_completion)
    \<in> {Inr (comp_refuse CompUnknownTask, comp_run sample_sha [OpSettle 2 OutAccepted 11] sample_completion),
       Inr (comp_refuse CompTaskNotOpen, comp_run sample_sha [OpSettle 2 OutAccepted 11] sample_completion),
       Inr (\<lparr>cr_disposition = CompUnchanged, cr_evidence_id = Some 1, cr_refusal = None\<rparr>,
         comp_run sample_sha [OpSettle 2 OutAccepted 11] sample_completion)}"
proof -
  have e: "sample_evidence \<in> set (evidence sample_completion)"
    by (simp add: sample_completion_def)
  have key: "ev_task_id sample_evidence = pr_task_id sample_detection"
    "ev_digest sample_evidence = detection_digest sample_sha sample_detection" "ev_id sample_evidence = 1"
    by (simp_all add: sample_evidence_def detection_row_def detection_digest_def)
  have clean: "clean_detection (sample_detection\<lparr>pr_quotation := ''  the DRAFT is done ''\<rparr>)
      = Inr (sample_detection\<lparr>pr_quotation := ''the DRAFT is done''\<rparr>)"
    by code_simp
  have "same_question (sample_detection\<lparr>pr_quotation := ''the DRAFT is done''\<rparr>) sample_detection"
    by code_simp
  from answered_evidence_is_not_asked_again [OF sample_completion_ok e key(1,2) clean this refl]
  show ?thesis unfolding key(3) .
qed

text \<open>A question is answered once.  Among any requests to settle, the first one that is accepted
  for a piece of evidence decides it: its outcome is what the table keeps, and every other
  request for that evidence, before or after it, is told that it changed nothing.\<close>

lemma evidence_first_answer_wins:
  assumes "evidence_inv d" and "m < length reqs" and "fst (run_ops answer_evidence reqs d) ! m"
  shows "evidence_state_of (fst (reqs ! m)) (snd (run_ops answer_evidence reqs d))
      = Some (outcome_state (fst (snd (reqs ! m))))
    \<and> (\<forall>n < length reqs. n \<noteq> m \<longrightarrow> fst (reqs ! n) = fst (reqs ! m)
        \<longrightarrow> \<not> fst (run_ops answer_evidence reqs d) ! n)"
  using assms by (rule evidence_answers.first_answer_wins)

theorem evidence_first_answer_wins_witness:
  "evidence_state_of 2 (snd (run_ops answer_evidence
      [(2, OutRejected, 11), (2, OutAccepted, 12)] sample_completion)) = Some EvidenceRejected"
proof -
  have "evidence_state_of 2 sample_completion = Some EvidenceProposed"
    by (simp add: evidence_state_of_def sample_completion_def sample_evidence_def detection_row_def)
  then have "fst (run_ops answer_evidence [(2, OutRejected, 11), (2, OutAccepted, 12)] sample_completion) ! 0"
    by (simp add: answer_evidence_simp [OF sample_completion_ok])
  from evidence_first_answer_wins [OF sample_completion_ok _ this] show ?thesis by simp
qed

text \<open>The argument guard of \<open>propose\<close> and the column check disagree about \<open>observed_at\<close>:
  a detection that passes every guard, for an open task with room and evidence not seen before,
  but dated with a text of fewer than four characters, is neither recorded nor refused; the
  \<open>INSERT\<close> raises an integrity error.\<close>

lemma short_observation_date_raises:
  assumes "clean_detection raw = Inr p" and "task_of (pr_task_id p) d = Some t"
    and "tk_status t = TaskOpen" and "length (pr_observed_at p) < 4"
    and "List.find (same_evidence (pr_task_id p) (detection_digest sha p)) (evidence d) = None"
    and "rowcount (open_question (pr_task_id p)) (evidence d) < MAX_OPEN_QUESTIONS_PER_TASK"
  shows "\<exists>m. propose sha raw now d = Inl (IntegrityError m)"
  using assms
  by (simp add: propose_def detection_digest_def Let_def evidence_check_def detection_row_def)

theorem short_observation_date_raises_witness:
  "\<exists>m. propose sample_sha (sample_detection\<lparr>pr_observed_at := '' 26 ''\<rparr>) 20 sample_ledger
    = Inl (IntegrityError m)"
proof -
  have clean: "clean_detection (sample_detection\<lparr>pr_observed_at := '' 26 ''\<rparr>)
      = Inr (sample_detection\<lparr>pr_observed_at := ''26''\<rparr>)"
    by code_simp
  show ?thesis
    by (rule short_observation_date_raises [OF clean, of _ "sample_task 1 TaskOpen 1"])
      (simp_all add: sample_ledger_def sample_detection_def sample_task_def empty_db_def rowcount_def
        MAX_OPEN_QUESTIONS_PER_TASK_def)
qed

end
