(* ===== verification/Relations.thy ===== *)
theory Relations
  imports Ledger
begin

text \<open>
  Task relations (\<open>task_relations.py\<close>): attributed, reversible statements that one task
  supersedes or duplicates another.  The live relations of a kind never form a cycle; the
  module decides that with its own depth-first search, which is proved to compute
  reachability.
\<close>

section \<open>Bounds and guards\<close>

definition MAX_BASIS :: nat where "MAX_BASIS = 500"
definition MAX_NOTE :: nat where "MAX_NOTE = 500"
definition MAX_ACTOR :: nat where "MAX_ACTOR = 200"
definition MAX_LIVE_RELATIONS_PER_TASK :: nat where "MAX_LIVE_RELATIONS_PER_TASK = 20"

definition KINDS :: "(string \<times> relation_kind) list" where
  "KINDS = [(''supersedes'', Supersedes), (''duplicate_of'', DuplicateOf)]"

definition ASSERTERS :: "(string \<times> asserter) list" where
  "ASSERTERS = [(''machine'', AssertedByMachine), (''reader'', AssertedByReader)]"

definition rel_bounded :: "string \<Rightarrow> string \<Rightarrow> nat \<Rightarrow> exc + string" where
  "rel_bounded = bounded_text TaskRelationError"

text \<open>The same guard on an optional argument: \<open>None\<close> passes.\<close>

definition rel_optional :: "string option \<Rightarrow> string \<Rightarrow> nat \<Rightarrow> exc + string option" where
  "rel_optional value field maximum = (case value of
     None \<Rightarrow> Inr None | Some v \<Rightarrow> rbind (rel_bounded v field maximum) (\<lambda>v. Inr (Some v)))"

definition rel_task_id :: "int \<Rightarrow> string \<Rightarrow> exc + int" where
  "rel_task_id v field = (if v < 1 then Inl (TaskRelationError (field @ '' is invalid'')) else Inr v)"

definition live :: "relation_row \<Rightarrow> bool" where
  "live r \<longleftrightarrow> rl_withdrawn_at r = None"

section \<open>The search for a cycle\<close>

definition live_edges :: "relation_kind \<Rightarrow> db \<Rightarrow> (rowid \<times> rowid) list" where
  "live_edges kind d = map (\<lambda>r. (rl_subject_id r, rl_object_id r))
     (filter (\<lambda>r. rl_kind r = kind \<and> live r) (relations d))"

definition successors :: "(rowid \<times> rowid) list \<Rightarrow> rowid \<Rightarrow> rowid list" where
  "successors es c = map snd (filter (\<lambda>e. fst e = c) es)"

text \<open>
  The loop of \<open>_reaches\<close>.  The frontier is held with its last element first, since
  \<open>frontier.pop()\<close> takes the last one.
\<close>

function reaches_loop :: "(rowid \<times> rowid) list \<Rightarrow> rowid \<Rightarrow> rowid set \<Rightarrow> rowid list \<Rightarrow> bool" where
  "reaches_loop es target seen [] = False"
| "reaches_loop es target seen (current # frontier) =
     (if current = target then True
      else if current \<in> seen then reaches_loop es target seen frontier
      else reaches_loop es target (insert current seen) (rev (successors es current) @ frontier))"
  by pat_completeness auto

lemma unseen_edges_shrink:
  "c \<notin> seen \<Longrightarrow> length (filter (\<lambda>e. fst e \<notin> insert c seen) es) + length (successors es c)
    = length (filter (\<lambda>e. fst e \<notin> seen) es)"
  by (induction es) (auto simp: successors_def)

text \<open>Each step takes a task off the frontier, and puts the edges out of it there at most once.\<close>

termination reaches_loop
proof (relation "measure (\<lambda>(es, t, seen, fr). length (filter (\<lambda>e. fst e \<notin> seen) es) + length fr)")
  fix es :: "(rowid \<times> rowid) list" and target current :: rowid and seen frontier
  assume "current \<notin> seen"
  then show "((es, target, insert current seen, rev (successors es current) @ frontier),
      es, target, seen, current # frontier)
    \<in> measure (\<lambda>(es, t, seen, fr). length (filter (\<lambda>e. fst e \<notin> seen) es) + length fr)"
    using unseen_edges_shrink [of current seen es] by simp
qed simp_all

definition reaches :: "db \<Rightarrow> rowid \<Rightarrow> rowid \<Rightarrow> relation_kind \<Rightarrow> bool" where
  "reaches d start target kind = reaches_loop (live_edges kind d) target {} [start]"

section \<open>Operations\<close>

definition rel_get :: "rowid \<Rightarrow> db \<Rightarrow> exc + relation_row" where
  "rel_get k d = (case row_of rl_id k (relations d) of
     None \<Rightarrow> Inl (TaskRelationError ''relation does not exist'') | Some r \<Rightarrow> Inr r)"

definition live_of :: "rowid \<Rightarrow> relation_row \<Rightarrow> bool" where
  "live_of i r \<longleftrightarrow> live r \<and> (rl_subject_id r = i \<or> rl_object_id r = i)"

definition same_live :: "rowid \<Rightarrow> rowid \<Rightarrow> relation_kind \<Rightarrow> relation_row \<Rightarrow> bool" where
  "same_live s ob kind r \<longleftrightarrow> live r \<and> rl_subject_id r = s \<and> rl_object_id r = ob \<and> rl_kind r = kind"

record relation_request =
  rq_subject :: rowid
  rq_object :: rowid
  rq_kind :: string
  rq_basis :: string
  rq_asserted_by :: string
  rq_actor :: "string option"
  rq_note :: "string option"

text \<open>The argument guards: the row to insert, but for its id.\<close>

definition clean_relation :: "relation_request \<Rightarrow> time \<Rightarrow> exc + relation_row" where
  "clean_relation q now =
     rbind (rel_task_id (rq_subject q) ''subject task'') (\<lambda>s.
     rbind (rel_task_id (rq_object q) ''object task'') (\<lambda>ob.
     if s = ob then Inl (TaskRelationError ''a task cannot relate to itself'') else
     case map_of KINDS (rq_kind q) of
       None \<Rightarrow> Inl (TaskRelationError ''relation kind is unsupported'')
     | Some kind \<Rightarrow> (case map_of ASSERTERS (rq_asserted_by q) of
       None \<Rightarrow> Inl (TaskRelationError ''relation asserter is unsupported'')
     | Some who \<Rightarrow>
         rbind (rel_bounded (rq_basis q) ''relation basis'' MAX_BASIS) (\<lambda>basis.
         rbind (rel_optional (rq_actor q) ''relation actor'' MAX_ACTOR) (\<lambda>actor.
         rbind (rel_optional (rq_note q) ''relation note'' MAX_NOTE) (\<lambda>note.
           Inr \<lparr>rl_id = 0, rl_subject_id = s, rl_object_id = ob, rl_kind = kind, rl_basis = basis,
             rl_asserted_by = who, rl_actor = actor, rl_note = note, rl_created_at = now,
             rl_withdrawn_at = None, rl_withdrawn_by = None\<rparr>))))))"

definition assert_relation :: "relation_request \<Rightarrow> time \<Rightarrow> db \<Rightarrow> exc + (relation_row \<times> db)" where
  "assert_relation q now d =
     rbind (clean_relation q now) (\<lambda>r.
       let s = rl_subject_id r; ob = rl_object_id r in
       if task_of s d = None \<or> task_of ob d = None
       then Inl (TaskRelationError ''relation names a task that does not exist'')
       else if reaches d ob s (rl_kind r)
       then Inl (TaskRelationError ''relation would close a cycle'')
       else if MAX_LIVE_RELATIONS_PER_TASK \<le> rowcount (live_of s) (relations d)
            \<or> MAX_LIVE_RELATIONS_PER_TASK \<le> rowcount (live_of ob) (relations d)
       then Inl (TaskRelationError ''task already carries its bounded share'')
       else if list_ex (same_live s ob (rl_kind r)) (relations d)
       then Inl (TaskRelationError ''that relation is already recorded'')
       else
         let r' = r\<lparr>rl_id := next_id rl_id (relations d)\<rparr> in
         Inr (r', d\<lparr>relations := relations d @ [r']\<rparr>))"

definition withdraw :: "rowid \<Rightarrow> string \<Rightarrow> time \<Rightarrow> db \<Rightarrow> exc + (relation_row \<times> db)" where
  "withdraw k by_whom now d =
     (case map_of ASSERTERS by_whom of
        None \<Rightarrow> Inl (TaskRelationError ''relation asserter is unsupported'')
      | Some who \<Rightarrow> rbind (rel_get k d) (\<lambda>r.
          if \<not> live r then Inl (TaskRelationError ''relation is already withdrawn'')
          else
            let d' = d\<lparr>relations := update_where (\<lambda>x. rl_id x = k)
                   (\<lambda>x. x\<lparr>rl_withdrawn_at := Some now, rl_withdrawn_by := Some who\<rparr>) (relations d)\<rparr> in
            rbind (rel_get k d') (\<lambda>r'. Inr (r', d'))))"

definition rel_for_task :: "rowid \<Rightarrow> bool \<Rightarrow> db \<Rightarrow> relation_row list" where
  "rel_for_task i include_withdrawn d = sort_key rl_id (filter (\<lambda>r.
     (rl_subject_id r = i \<or> rl_object_id r = i) \<and> (include_withdrawn \<or> live r)) (relations d))"

section \<open>The search computes reachability\<close>

lemma set_successors: "y \<in> set (successors es x) \<longleftrightarrow> (x, y) \<in> set es"
  by (force simp: successors_def)

text \<open>A path that starts among the seen tasks leaves them through the frontier.\<close>

lemma leaves_through_frontier:
  assumes "(x, target) \<in> (set es)\<^sup>*" and "x \<in> seen" and "target \<notin> seen"
    and "\<forall>x \<in> seen. \<forall>y. (x, y) \<in> set es \<longrightarrow> y \<in> seen \<or> y \<in> set fr"
  shows "\<exists>f \<in> set fr. (f, target) \<in> (set es)\<^sup>*"
  using assms(1,2)
proof (induction rule: converse_rtrancl_induct)
  case base
  then show ?case using assms(3) by simp
next
  case (step x y)
  then show ?case using assms(4) by blast
qed

lemma reaches_loop_correct:
  assumes "target \<notin> seen"
    and "\<forall>x \<in> seen. \<forall>y. (x, y) \<in> set es \<longrightarrow> y \<in> seen \<or> y \<in> set fr"
  shows "reaches_loop es target seen fr \<longleftrightarrow> (\<exists>f \<in> set fr. (f, target) \<in> (set es)\<^sup>*)"
  using assms
proof (induction es target seen fr rule: reaches_loop.induct)
  case (2 es target seen c fr)
  consider "c = target" | "c \<noteq> target" "c \<in> seen" | "c \<noteq> target" "c \<notin> seen" by blast
  then show ?case
  proof cases
    case 1
    then show ?thesis by simp
  next
    case 2
    then have closed: "\<forall>x \<in> seen. \<forall>y. (x, y) \<in> set es \<longrightarrow> y \<in> seen \<or> y \<in> set fr"
      using "2.prems"(2) by auto
    have "(c, target) \<in> (set es)\<^sup>* \<Longrightarrow> \<exists>f \<in> set fr. (f, target) \<in> (set es)\<^sup>*"
      by (rule leaves_through_frontier [OF _ 2(2) "2.prems"(1) closed])
    then show ?thesis
      using "2.IH"(1) [OF 2 "2.prems"(1) closed] 2 by auto
  next
    case 3
    let ?fr = "rev (successors es c) @ fr"
    have closed: "\<forall>x \<in> insert c seen. \<forall>y. (x, y) \<in> set es \<longrightarrow> y \<in> insert c seen \<or> y \<in> set ?fr"
      using "2.prems"(2) by (auto simp: set_successors)
    have "target \<notin> insert c seen" using 3 "2.prems"(1) by simp
    note IH = "2.IH"(2) [OF 3 this closed]
    have "(c, target) \<in> (set es)\<^sup>* \<longleftrightarrow> (\<exists>y. (c, y) \<in> set es \<and> (y, target) \<in> (set es)\<^sup>*)"
      using 3(1) by (meson converse_rtranclE converse_rtrancl_into_rtrancl)
    then show ?thesis using IH 3 by (auto simp: set_successors)
  qed
qed simp

lemma reaches_iff: "reaches d start target kind \<longleftrightarrow> (start, target) \<in> (set (live_edges kind d))\<^sup>*"
  unfolding reaches_def by (subst reaches_loop_correct) auto

section \<open>The invariant of the relation table\<close>

text \<open>No live relation of the kind has a way back from its object to its subject.\<close>

definition no_cycle :: "relation_kind \<Rightarrow> db \<Rightarrow> bool" where
  "no_cycle kind d \<longleftrightarrow> list_all (\<lambda>(s, ob). \<not> reaches d ob s kind) (live_edges kind d)"

definition relation_check :: "relation_row \<Rightarrow> bool" where
  "relation_check r \<longleftrightarrow> 1 \<le> rl_id r \<and> rl_subject_id r \<noteq> rl_object_id r
     \<and> 1 \<le> length (rl_basis r) \<and> length (rl_basis r) \<le> 500
     \<and> (rl_withdrawn_at r = None \<longleftrightarrow> rl_withdrawn_by r = None)"

definition relation_identity :: "relation_row \<Rightarrow> rowid \<times> rowid \<times> relation_kind" where
  "relation_identity r = (rl_subject_id r, rl_object_id r, rl_kind r)"

definition relations_inv :: "db \<Rightarrow> bool" where
  "relations_inv d \<longleftrightarrow> unique_key rl_id (relations d) \<and> list_all relation_check (relations d)
     \<and> unique_key relation_identity (filter live (relations d))
     \<and> no_cycle Supersedes d \<and> no_cycle DuplicateOf d
     \<and> list_all (\<lambda>r. rowcount (live_of (rl_subject_id r)) (relations d) \<le> MAX_LIVE_RELATIONS_PER_TASK
          \<and> rowcount (live_of (rl_object_id r)) (relations d) \<le> MAX_LIVE_RELATIONS_PER_TASK) (relations d)"

lemma no_cycle_acyclic: "no_cycle kind d \<longleftrightarrow> acyclic (set (live_edges kind d))"
proof
  assume no: "no_cycle kind d"
  show "acyclic (set (live_edges kind d))"
    unfolding acyclic_def
  proof (intro allI notI)
    fix x assume "(x, x) \<in> (set (live_edges kind d))\<^sup>+"
    then obtain y where "(x, y) \<in> set (live_edges kind d)" "(y, x) \<in> (set (live_edges kind d))\<^sup>*"
      by (meson tranclD)
    then show False using no by (auto simp: no_cycle_def list_all_iff reaches_iff)
  qed
next
  assume ac: "acyclic (set (live_edges kind d))"
  show "no_cycle kind d"
    unfolding no_cycle_def list_all_iff reaches_iff
  proof clarify
    fix s ob assume "(s, ob) \<in> set (live_edges kind d)" "(ob, s) \<in> (set (live_edges kind d))\<^sup>*"
    then have "(s, s) \<in> (set (live_edges kind d))\<^sup>+" by (rule rtrancl_into_trancl2)
    then show False using ac by (simp add: acyclic_def)
  qed
qed

lemma relations_inv_iff:
  "relations_inv d \<longleftrightarrow> unique_key rl_id (relations d) \<and> list_all relation_check (relations d)
     \<and> unique_key relation_identity (filter live (relations d))
     \<and> (\<forall>kind. acyclic (set (live_edges kind d)))
     \<and> (\<forall>i. rowcount (live_of i) (relations d) \<le> MAX_LIVE_RELATIONS_PER_TASK)"
proof -
  have kinds: "(\<forall>kind. P kind) \<longleftrightarrow> P Supersedes \<and> P DuplicateOf" for P
    by (metis relation_kind.exhaust)
  have "rowcount (live_of i) (relations d) = 0"
    if "\<not> (\<exists>r \<in> set (relations d). rl_subject_id r = i \<or> rl_object_id r = i)" for i
    using that by (auto simp: rowcount_def filter_empty_conv live_of_def)
  then have "(\<forall>r \<in> set (relations d).
        rowcount (live_of (rl_subject_id r)) (relations d) \<le> MAX_LIVE_RELATIONS_PER_TASK
        \<and> rowcount (live_of (rl_object_id r)) (relations d) \<le> MAX_LIVE_RELATIONS_PER_TASK)
      \<longleftrightarrow> (\<forall>i. rowcount (live_of i) (relations d) \<le> MAX_LIVE_RELATIONS_PER_TASK)"
    by (metis zero_le)
  then show ?thesis
    by (simp add: relations_inv_def no_cycle_acyclic kinds list_all_iff [of _ "relations d"])
qed

lemma clean_relation_row:
  assumes "clean_relation q now = Inr r"
  shows "rl_subject_id r \<noteq> rl_object_id r" "live r" "rl_withdrawn_by r = None"
    "1 \<le> length (rl_basis r)" "length (rl_basis r) \<le> 500"
  using assms
  by (auto simp: clean_relation_def rel_task_id_def rel_bounded_def table_simps live_def MAX_BASIS_def
      split: if_splits option.splits)

lemma assert_relation_cases:
  obtains (refused) x where "assert_relation q now d = Inl x"
  | (recorded) r where "clean_relation q now = Inr (r\<lparr>rl_id := 0\<rparr>)" "rl_id r = next_id rl_id (relations d)"
      "task_of (rl_subject_id r) d \<noteq> None" "task_of (rl_object_id r) d \<noteq> None"
      "\<not> reaches d (rl_object_id r) (rl_subject_id r) (rl_kind r)"
      "rowcount (live_of (rl_subject_id r)) (relations d) < MAX_LIVE_RELATIONS_PER_TASK"
      "rowcount (live_of (rl_object_id r)) (relations d) < MAX_LIVE_RELATIONS_PER_TASK"
      "\<not> list_ex (same_live (rl_subject_id r) (rl_object_id r) (rl_kind r)) (relations d)"
      "assert_relation q now d = Inr (r, d\<lparr>relations := relations d @ [r]\<rparr>)"
proof (cases "assert_relation q now d")
  case (Inl x)
  then show thesis by (rule refused)
next
  case (Inr y)
  obtain r where r: "clean_relation q now = Inr r"
    using Inr by (cases "clean_relation q now") (simp_all add: assert_relation_def)
  have zero: "rl_id r = 0"
    using r by (auto simp: clean_relation_def rel_task_id_def table_simps split: if_splits option.splits)
  show thesis
    by (rule recorded [of "r\<lparr>rl_id := next_id rl_id (relations d)\<rparr>"])
      (use Inr r zero in \<open>auto simp: assert_relation_def Let_def split: if_splits\<close>)
qed

lemma withdraw_cases:
  obtains (refused) x where "withdraw k who now d = Inl x"
  | (withdrawn) r w where "map_of ASSERTERS who = Some w" "row_of rl_id k (relations d) = Some r" "live r"
      "withdraw k who now d = Inr (r\<lparr>rl_withdrawn_at := Some now, rl_withdrawn_by := Some w\<rparr>,
        d\<lparr>relations := update_where (\<lambda>x. rl_id x = k)
            (\<lambda>x. x\<lparr>rl_withdrawn_at := Some now, rl_withdrawn_by := Some w\<rparr>) (relations d)\<rparr>)"
proof (cases "withdraw k who now d")
  case (Inl x)
  then show thesis by (rule refused)
next
  case (Inr y)
  then obtain w r where w: "map_of ASSERTERS who = Some w" and r: "row_of rl_id k (relations d) = Some r"
    and l: "live r"
    by (auto simp: withdraw_def rel_get_def table_simps split: option.splits if_splits)
  have "rl_id r = k" using r by (rule row_of_key)
  then show thesis
    by (intro withdrawn [OF w r l])
      (use w r l in \<open>simp add: withdraw_def rel_get_def find_update_where\<close>)
qed

section \<open>What the requests keep\<close>

definition rel_evolves :: "relation_row \<Rightarrow> relation_row \<Rightarrow> bool" where
  "rel_evolves r r' \<longleftrightarrow> r' = r \<or> (live r \<and> \<not> live r' \<and>
     r'\<lparr>rl_withdrawn_at := None, rl_withdrawn_by := None\<rparr> = r\<lparr>rl_withdrawn_at := None, rl_withdrawn_by := None\<rparr>)"

datatype rel_op = RelAssert relation_request time | RelWithdraw rowid string time

fun rel_step :: "rel_op \<Rightarrow> db \<Rightarrow> db" where
  "rel_step (RelAssert q now) d = snd (run_tx (assert_relation q now) d)"
| "rel_step (RelWithdraw k who now) d = snd (run_tx (withdraw k who now) d)"

lemma relations_inv_append:
  assumes "relations_inv d" and "clean_relation q now = Inr (r\<lparr>rl_id := 0\<rparr>)"
    and "rl_id r = next_id rl_id (relations d)"
    and "\<not> reaches d (rl_object_id r) (rl_subject_id r) (rl_kind r)"
    and "rowcount (live_of (rl_subject_id r)) (relations d) < MAX_LIVE_RELATIONS_PER_TASK"
    and "rowcount (live_of (rl_object_id r)) (relations d) < MAX_LIVE_RELATIONS_PER_TASK"
    and "\<not> list_ex (same_live (rl_subject_id r) (rl_object_id r) (rl_kind r)) (relations d)"
  shows "relations_inv (d\<lparr>relations := relations d @ [r]\<rparr>)" (is "relations_inv ?d")
proof -
  note inv = assms(1) [unfolded relations_inv_iff]
  have row: "rl_subject_id r \<noteq> rl_object_id r" "live r" "rl_withdrawn_by r = None"
    "1 \<le> length (rl_basis r)" "length (rl_basis r) \<le> 500"
    using clean_relation_row [OF assms(2)] by (simp_all add: live_def)
  have edges: "set (live_edges kind ?d) = (if kind = rl_kind r
      then insert (rl_subject_id r, rl_object_id r) (set (live_edges kind d)) else set (live_edges kind d))"
    for kind using row(2) by (auto simp: live_edges_def)
  have "acyclic (set (live_edges kind ?d))" for kind
    using inv assms(4) by (simp add: edges reaches_iff)
  moreover have "rowcount (live_of i) (relations d @ [r]) \<le> MAX_LIVE_RELATIONS_PER_TASK" for i
    using inv assms(5,6) by (cases "i = rl_subject_id r \<or> i = rl_object_id r")
      (auto simp: rowcount_def live_of_def)
  moreover have "unique_key rl_id (relations d @ [r])"
    using inv assms(3) by (simp add: unique_key_insert)
  moreover have "relation_identity r \<notin> relation_identity ` set (filter live (relations d))"
    using assms(7) by (auto simp: list_ex_iff same_live_def relation_identity_def)
  ultimately show ?thesis
    using inv row assms(3) next_id_positive [of rl_id "relations d"]
    by (auto simp: relations_inv_iff unique_key_def relation_check_def live_def)
qed

lemma filter_live_update:
  assumes "\<And>x. \<not> live (f x)"
  shows "filter live (update_where P f rows) = filter (\<lambda>x. \<not> P x) (filter live rows)"
  using assms by (induction rows) (auto simp: update_where_def)

lemma relations_inv_update:
  assumes "relations_inv d"
  shows "relations_inv (d\<lparr>relations := update_where (\<lambda>x. rl_id x = k)
    (\<lambda>x. x\<lparr>rl_withdrawn_at := Some now, rl_withdrawn_by := Some w\<rparr>) (relations d)\<rparr>)"
    (is "relations_inv (d\<lparr>relations := ?rows\<rparr>)")
proof -
  note inv = assms [unfolded relations_inv_iff]
  have fl: "filter live ?rows = filter (\<lambda>x. rl_id x \<noteq> k) (filter live (relations d))"
    by (rule filter_live_update) (simp add: live_def)
  have "set (live_edges kind (d\<lparr>relations := ?rows\<rparr>)) \<subseteq> set (live_edges kind d)" for kind
  proof -
    have edges: "live_edges kind e = map (\<lambda>r. (rl_subject_id r, rl_object_id r))
        (filter (\<lambda>r. rl_kind r = kind) (filter live (relations e)))" for e
      by (simp add: live_edges_def conj_commute)
    show ?thesis by (auto simp: edges fl)
  qed
  then have "acyclic (set (live_edges kind (d\<lparr>relations := ?rows\<rparr>)))" for kind
    using inv acyclic_subset by blast
  moreover have "rowcount (live_of i) ?rows \<le> MAX_LIVE_RELATIONS_PER_TASK" for i
  proof -
    have lives: "filter (live_of i) rows
        = filter (\<lambda>r. rl_subject_id r = i \<or> rl_object_id r = i) (filter live rows)" for rows
      unfolding filter_filter by (rule filter_cong) (auto simp: live_of_def)
    have "rowcount (live_of i) ?rows \<le> rowcount (live_of i) (relations d)"
      unfolding rowcount_def lives fl
      by (subst filter_filter, subst conj_commute, subst filter_filter [symmetric])
        (rule length_filter_le)
    then show ?thesis using inv le_trans by blast
  qed
  moreover have "unique_key relation_identity (filter live ?rows)"
    using inv distinct_map_filter [of relation_identity "filter live (relations d)" "\<lambda>x. rl_id x \<noteq> k"]
    unfolding fl unique_key_def by blast
  moreover have "list_all relation_check ?rows"
    using inv by (auto simp: list_all_iff update_where_def relation_check_def)
  ultimately show ?thesis
    using inv by (simp add: relations_inv_iff unique_key_update)
qed

lemma relations_inv_step: "relations_inv d \<Longrightarrow> relations_inv (rel_step op d)"
proof (cases op)
  case (RelAssert q now)
  assume inv: "relations_inv d"
  show ?thesis
    by (rule assert_relation_cases [of q now d])
      (use inv RelAssert in \<open>simp_all add: run_tx_def relations_inv_append\<close>)
next
  case (RelWithdraw k who now)
  assume inv: "relations_inv d"
  show ?thesis
    by (rule withdraw_cases [of k who now d])
      (use inv RelWithdraw in \<open>simp_all add: run_tx_def relations_inv_update\<close>)
qed

definition rel_run :: "rel_op list \<Rightarrow> db \<Rightarrow> db" where
  "rel_run ops d = fold rel_step ops d"

lemma relations_inv_run: "relations_inv d \<Longrightarrow> relations_inv (rel_run ops d)"
  unfolding rel_run_def by (induction ops arbitrary: d) (simp_all add: relations_inv_step)

lemma rel_evolves_step:
  assumes "relations_inv d" and "r \<in> set (relations d)"
  shows "\<exists>r' \<in> set (relations (rel_step op d)). rel_evolves r r'"
proof (cases op)
  case (RelAssert q now)
  show ?thesis
    by (rule assert_relation_cases [of q now d]; rule bexI [of _ r])
      (use assms RelAssert in \<open>simp_all add: run_tx_def rel_evolves_def\<close>)
next
  case (RelWithdraw k who now)
  show ?thesis
  proof (rule withdraw_cases [of k who now d])
    fix x assume "withdraw k who now d = Inl x"
    then show ?thesis
      using assms RelWithdraw by (intro bexI [of _ r]) (simp_all add: run_tx_def rel_evolves_def)
  next
    fix r0 w
    let ?f = "\<lambda>x. x\<lparr>rl_withdrawn_at := Some now, rl_withdrawn_by := Some w\<rparr>"
    assume r0: "row_of rl_id k (relations d) = Some r0" "live r0"
      and eq: "withdraw k who now d = Inr (?f r0,
        d\<lparr>relations := update_where (\<lambda>x. rl_id x = k) ?f (relations d)\<rparr>)"
    have "unique_key rl_id (relations d)" using assms(1) by (simp add: relations_inv_def)
    from row_of_unique [OF this, of k r] have "rl_id r = k \<Longrightarrow> r = r0"
      using r0(1) assms(2) by simp
    then have "rel_evolves r (if rl_id r = k then ?f r else r)"
      using r0(2) by (auto simp: rel_evolves_def live_def)
    then show ?thesis
      using assms(2) RelWithdraw eq
      by (intro bexI [of _ "if rl_id r = k then ?f r else r"]) (auto simp: run_tx_def update_where_def)
  qed
qed

lemma rel_evolves_trans: "rel_evolves r s \<Longrightarrow> rel_evolves s t \<Longrightarrow> rel_evolves r t"
  by (auto simp: rel_evolves_def)

interpretation relation_rows: append_only rel_step relations rel_evolves relations_inv
proof unfold_locales
  show "rel_evolves r r" for r by (simp add: rel_evolves_def)
  show "rel_evolves r t" if "rel_evolves r s" "rel_evolves s t" for r s t
    using that by (rule rel_evolves_trans)
qed (rule relations_inv_step rel_evolves_step; assumption)+

section \<open>Properties\<close>

text \<open>C34: \<open>_reaches\<close> decides reachability over the live relations of one kind.  It always
  returns, whatever the table holds (cycles included), and answers yes exactly when a chain of
  live relations of that kind leads from the start to the target.\<close>

theorem relation_search_decides_reachability:
  "reaches d start target kind \<longleftrightarrow> (start, target) \<in> (set (live_edges kind d))\<^sup>*"
  by (rule reaches_iff)

definition sample_request :: "rowid \<Rightarrow> rowid \<Rightarrow> relation_request" where
  "sample_request s ob = \<lparr>rq_subject = s, rq_object = ob, rq_kind = ''supersedes'',
     rq_basis = '' moved on '', rq_asserted_by = ''reader'', rq_actor = Some ''ada'', rq_note = None\<rparr>"

definition sample_relation :: "rowid \<Rightarrow> rowid \<Rightarrow> rowid \<Rightarrow> relation_row" where
  "sample_relation k s ob = \<lparr>rl_id = k, rl_subject_id = s, rl_object_id = ob, rl_kind = Supersedes,
     rl_basis = ''moved on'', rl_asserted_by = AssertedByReader, rl_actor = Some ''ada'',
     rl_note = None, rl_created_at = 5, rl_withdrawn_at = None, rl_withdrawn_by = None\<rparr>"

definition sample_relations :: db where
  "sample_relations = sample_ledger\<lparr>relations := [sample_relation 1 1 2, sample_relation 2 2 3]\<rparr>"

lemma sample_relations_ok: "relations_inv sample_relations"
  by code_simp

text \<open>C30: Whatever is asserted and withdrawn, in any order, the live relations of each kind stay
  acyclic, no task relates to itself, a live pair of a kind is recorded once, no task carries
  more than twenty live relations, and a row is dated as withdrawn exactly when it names who
  withdrew it.\<close>

theorem relations_stay_acyclic:
  assumes "relations_inv d"
  shows "relations_inv (rel_run ops d)
    \<and> (\<forall>kind. acyclic (set (live_edges kind (rel_run ops d))))
    \<and> (\<forall>i. rowcount (live_of i) (relations (rel_run ops d)) \<le> 20)"
  using relations_inv_run [OF assms, of ops]
  by (simp add: relations_inv_iff MAX_LIVE_RELATIONS_PER_TASK_def)

theorem relations_stay_acyclic_witness:
  "acyclic (set (live_edges Supersedes
    (rel_run [RelAssert (sample_request 3 1) 9, RelWithdraw 1 ''reader'' 10] sample_relations)))"
  using relations_stay_acyclic [OF sample_relations_ok] by blast

text \<open>A relation, once asserted, is never rewritten and never forgotten: after any requests its
  row is still there, and either unchanged or, if it was live, the same assertion with a
  withdrawal beside it.\<close>

lemma relations_are_append_only:
  assumes "relations_inv d" and "r \<in> set (relations d)"
  shows "\<exists>r' \<in> set (relations (rel_run ops d)). r' = r
    \<or> (live r \<and> \<not> live r'
       \<and> r'\<lparr>rl_withdrawn_at := None, rl_withdrawn_by := None\<rparr>
         = r\<lparr>rl_withdrawn_at := None, rl_withdrawn_by := None\<rparr>)"
  using relation_rows.run_evolves [OF assms, of ops] by (simp add: rel_run_def rel_evolves_def)

theorem relations_are_append_only_witness:
  "\<exists>r' \<in> set (relations (rel_run [RelWithdraw 1 ''reader'' 10] sample_relations)).
    r' = sample_relation 1 1 2 \<or> (live (sample_relation 1 1 2) \<and> \<not> live r'
       \<and> r'\<lparr>rl_withdrawn_at := None, rl_withdrawn_by := None\<rparr>
         = (sample_relation 1 1 2)\<lparr>rl_withdrawn_at := None, rl_withdrawn_by := None\<rparr>)"
  by (rule relations_are_append_only [OF sample_relations_ok]) (simp add: sample_relations_def)

text \<open>What an assertion needs.  A well-formed request between two tasks is recorded exactly
  when both tasks exist, no chain of live relations of the kind leads from the object back to
  the subject, both tasks have fewer than twenty live relations and the same live relation is
  not there yet; it is then live, under a new id, after all the old rows.\<close>

lemma assertion_accepted_iff:
  assumes "clean_relation q now = Inr r" and "relations_inv d"
  shows "(\<exists>r' d'. assert_relation q now d = Inr (r', d')) \<longleftrightarrow>
      task_of (rl_subject_id r) d \<noteq> None \<and> task_of (rl_object_id r) d \<noteq> None
      \<and> (rl_object_id r, rl_subject_id r) \<notin> (set (live_edges (rl_kind r) d))\<^sup>*
      \<and> rowcount (live_of (rl_subject_id r)) (relations d) < 20
      \<and> rowcount (live_of (rl_object_id r)) (relations d) < 20
      \<and> (\<forall>x \<in> set (relations d). live x \<longrightarrow> relation_identity x \<noteq> relation_identity r)"
    (is "?lhs \<longleftrightarrow> ?rhs")
proof -
  have same: "list_ex (same_live (rl_subject_id r) (rl_object_id r) (rl_kind r)) (relations d)
      \<longleftrightarrow> \<not> (\<forall>x \<in> set (relations d). live x \<longrightarrow> relation_identity x \<noteq> relation_identity r)"
    by (auto simp: list_ex_iff same_live_def relation_identity_def)
  have path: "(rl_object_id r, rl_subject_id r) \<notin> (set (live_edges (rl_kind r) d))\<^sup>*
      \<longleftrightarrow> \<not> reaches d (rl_object_id r) (rl_subject_id r) (rl_kind r)"
    by (simp add: reaches_iff)
  show ?thesis
    unfolding path same [symmetric]
    using assms(1) by (simp add: assert_relation_def Let_def same MAX_LIVE_RELATIONS_PER_TASK_def not_le)
qed

theorem assertion_accepted_iff_witness:
  "\<not> (\<exists>r' d'. assert_relation (sample_request 3 1) 9 sample_relations = Inr (r', d'))"
proof -
  have clean: "clean_relation (sample_request 3 1) 9 = Inr ((sample_relation 0 3 1)\<lparr>rl_created_at := 9\<rparr>)"
    by code_simp
  have "reaches sample_relations 1 3 Supersedes" by code_simp
  then have "(1, 3) \<in> (set (live_edges Supersedes sample_relations))\<^sup>*"
    by (simp add: reaches_iff)
  then show ?thesis
    unfolding assertion_accepted_iff [OF clean sample_relations_ok]
    by (simp add: sample_relation_def)
qed

end
