(* ===== verification/Duplicates.thy ===== *)
theory Duplicates
  imports Ledger "HOL-Library.Char_ord" "HOL-Library.List_Lexorder"
begin

text \<open>
  Duplicate proposals (\<open>task_duplicate_proposals.py\<close>): a detector proposes that two tasks are
  the same ask, a reader confirms or rejects it, a rejected or undone answer may be reopened, and
  an unanswered proposal may expire.  At most one proposal of a pair is ever alive.
\<close>

section \<open>Bounds and guards\<close>

definition DUP_MAX_BASIS :: nat where "DUP_MAX_BASIS = 1200"
definition DUP_MAX_DETECTOR :: nat where "DUP_MAX_DETECTOR = 64"
definition DUP_MAX_ACTOR :: nat where "DUP_MAX_ACTOR = 200"
definition DUP_MAX_REASON :: nat where "DUP_MAX_REASON = 500"
definition MAX_OPEN_PROPOSALS_PER_TASK :: nat where "MAX_OPEN_PROPOSALS_PER_TASK = 5"
definition RECENTLY_CLOSED_DAYS :: int where "RECENTLY_CLOSED_DAYS = 30"

definition PROPOSAL_ROUTES :: "string list" where
  "PROPOSAL_ROUTES = [''words'', ''reread'', ''object'', ''participant'', ''legacy'', ''owner'']"

definition dup_identifier :: "int \<Rightarrow> string \<Rightarrow> exc + int" where
  "dup_identifier v field =
     (if v < 1 then Inl (DuplicateProposalError (field @ '' is invalid'')) else Inr v)"

definition dup_bounded :: "string \<Rightarrow> string \<Rightarrow> nat \<Rightarrow> exc + string" where
  "dup_bounded = bounded_text DuplicateProposalError"

definition routes_of :: "string list \<Rightarrow> exc + string list" where
  "routes_of value =
     (if value = [] \<or> list_ex (\<lambda>r. r \<notin> set PROPOSAL_ROUTES) value
      then Inl (DuplicateProposalError ''proposal routes are invalid'')
      else Inr (sort (remdups value)))"

section \<open>Proposing\<close>

datatype dup_disposition = DupRecorded | DupUnchanged | DupRefused
datatype dup_refusal =
  DupSameTask | DupUnknownTask | DupTaskNotOpen | DupIncompatibleOwner | DupTooMany
datatype decision = Confirmed | Rejected

record dup_result =
  du_disposition :: dup_disposition
  du_proposal_id :: "rowid option"
  du_refusal :: "dup_refusal option"

definition dup_refuse :: "dup_refusal \<Rightarrow> dup_result" where
  "dup_refuse r = \<lparr>du_disposition = DupRefused, du_proposal_id = None, du_refusal = Some r\<rparr>"

text \<open>\<open>bool(text)\<close>.\<close>

definition truthy :: "string option \<Rightarrow> bool" where
  "truthy v \<longleftrightarrow> (case v of None \<Rightarrow> False | Some s \<Rightarrow> s \<noteq> [])"

definition same_confirmed_owner :: "task_row \<Rightarrow> task_row \<Rightarrow> bool" where
  "same_confirmed_owner l r \<longleftrightarrow> (let a = tk_owner l; b = tk_owner r in
     (ow_ref_version a, ow_kind a, ow_speaker_id a, ow_canonical_speaker_id a,
      ow_speaker_registry_id a, ow_provisional a)
     = (ow_ref_version b, ow_kind b, ow_speaker_id b, ow_canonical_speaker_id b,
      ow_speaker_registry_id b, ow_provisional b)
     \<and> ow_ref_version a = 1 \<and> ow_kind a = Some ''person'' \<and> truthy (ow_speaker_id a)
     \<and> truthy (ow_canonical_speaker_id a) \<and> truthy (ow_speaker_registry_id a)
     \<and> \<not> ow_provisional a)"

definition reviewable_status_pair :: "task_row list \<Rightarrow> bool" where
  "reviewable_status_pair rows \<longleftrightarrow> length rows = 2 \<and>
     (let n = length (filter (\<lambda>t. tk_status t = TaskOpen) rows) in
      n = 2 \<or> (n = 1 \<and> list_ex (\<lambda>t. tk_status t \<in> {TaskDone, TaskDropped}) rows))"

definition closed_within_lookback :: "time option \<Rightarrow> time \<Rightarrow> bool" where
  "closed_within_lookback closed_at now = (case closed_at of
     None \<Rightarrow> False
   | Some closed \<Rightarrow> now - days RECENTLY_CLOSED_DAYS \<le> closed \<and> closed \<le> now)"

definition eligible_for_proposal :: "task_row list \<Rightarrow> time \<Rightarrow> bool" where
  "eligible_for_proposal rows now =
     (if \<not> reviewable_status_pair rows then False
      else if list_all (\<lambda>t. tk_status t = TaskOpen) rows then True
      else case List.find (\<lambda>t. tk_status t \<noteq> TaskOpen) rows of
             None \<Rightarrow> False
           | Some closed \<Rightarrow> closed_within_lookback (tk_closed_at closed) now)"

definition alive_pair :: "rowid \<Rightarrow> rowid \<Rightarrow> proposal_row \<Rightarrow> bool" where
  "alive_pair l r p \<longleftrightarrow> dp_left_task_id p = l \<and> dp_right_task_id p = r \<and> dp_state p \<noteq> DupSuperseded"

definition open_on :: "rowid \<Rightarrow> proposal_row \<Rightarrow> bool" where
  "open_on i p \<longleftrightarrow> dp_state p = DupProposed \<and> (dp_left_task_id p = i \<or> dp_right_task_id p = i)"

text \<open>\<open>INSERT OR IGNORE\<close> of one row per route.\<close>

definition record_routes :: "rowid \<Rightarrow> string list \<Rightarrow> db \<Rightarrow> db" where
  "record_routes k routes d = d\<lparr>proposal_routes :=
     fold (\<lambda>r rs. if (k, r) \<in> set rs then rs else rs @ [(k, r)]) routes (proposal_routes d)\<rparr>"

definition proposal_event_row :: "rowid \<Rightarrow> proposal_event_kind \<Rightarrow> string \<Rightarrow> string option \<Rightarrow> time
    \<Rightarrow> proposal_event" where
  "proposal_event_row k kind actor reason now = \<lparr>de_proposal_id = k, de_kind = kind,
     de_actor = actor, de_reason = reason, de_occurred_at = now\<rparr>"

record dup_request =
  dq_task_a :: rowid
  dq_task_b :: rowid
  dq_basis :: string
  dq_detector :: string
  dq_strict_owner :: bool
  dq_routes :: "string list"

text \<open>The two task rows of a pair, in id order, when both exist.\<close>

definition pair_rows :: "rowid \<Rightarrow> rowid \<Rightarrow> db \<Rightarrow> (task_row \<times> task_row) option" where
  "pair_rows l r d = (case (task_of l d, task_of r d) of
     (Some a, Some b) \<Rightarrow> Some (a, b) | _ \<Rightarrow> None)"

definition insert_proposal :: "task_row \<Rightarrow> task_row \<Rightarrow> string \<Rightarrow> string \<Rightarrow> string list \<Rightarrow> time \<Rightarrow> db
    \<Rightarrow> dup_result \<times> db" where
  "insert_proposal l r basis detector routes now d =
     (let k = next_id dp_id (proposals d);
          p = \<lparr>dp_id = k, dp_left_task_id = tk_id l, dp_right_task_id = tk_id r,
               dp_left_task_version = tk_version l, dp_right_task_version = tk_version r,
               dp_basis = basis, dp_detector = detector, dp_state = DupProposed,
               dp_created_at = now, dp_updated_at = now, dp_settled_at = None, dp_card_id = None\<rparr>;
          d1 = d\<lparr>proposals := proposals d @ [p],
                 proposal_events := proposal_events d @ [proposal_event_row k PevProposed detector None now]\<rparr> in
      (\<lparr>du_disposition = DupRecorded, du_proposal_id = Some k, du_refusal = None\<rparr>,
       record_routes k routes d1))"

definition dup_propose :: "dup_request \<Rightarrow> time \<Rightarrow> db \<Rightarrow> exc + (dup_result \<times> db)" where
  "dup_propose q now d =
     rbind (dup_identifier (dq_task_a q) ''first task id'') (\<lambda>a.
     rbind (dup_identifier (dq_task_b q) ''second task id'') (\<lambda>b.
     rbind (dup_bounded (dq_basis q) ''proposal basis'' DUP_MAX_BASIS) (\<lambda>basis.
     rbind (dup_bounded (dq_detector q) ''detector'' DUP_MAX_DETECTOR) (\<lambda>detector.
     rbind (routes_of (dq_routes q)) (\<lambda>routes.
       if a = b then Inr (dup_refuse DupSameTask, d)
       else
         let l = min a b; r = max a b in
         case pair_rows l r d of
           None \<Rightarrow> Inr (dup_refuse DupUnknownTask, d)
         | Some (t_left, t_right) \<Rightarrow>
             if \<not> eligible_for_proposal [t_left, t_right] now then Inr (dup_refuse DupTaskNotOpen, d)
             else if dq_strict_owner q \<and> \<not> same_confirmed_owner t_left t_right
             then Inr (dup_refuse DupIncompatibleOwner, d)
             else (case List.find (alive_pair l r) (proposals d) of
               Some p \<Rightarrow> Inr (\<lparr>du_disposition = DupUnchanged, du_proposal_id = Some (dp_id p),
                   du_refusal = None\<rparr>, record_routes (dp_id p) routes d)
             | None \<Rightarrow>
                 if MAX_OPEN_PROPOSALS_PER_TASK \<le> rowcount (open_on l) (proposals d)
                   \<or> MAX_OPEN_PROPOSALS_PER_TASK \<le> rowcount (open_on r) (proposals d)
                 then Inr (dup_refuse DupTooMany, d)
                 else Inr (insert_proposal t_left t_right basis detector routes now d)))))))"

section \<open>Answers, expiry and second thoughts\<close>

text \<open>
  The shape the five writers share: an \<open>UPDATE\<close> that must meet exactly one row, then the
  event that records it.
\<close>

definition dup_write :: "(proposal_row \<Rightarrow> bool) \<Rightarrow> (proposal_row \<Rightarrow> proposal_row) \<Rightarrow> proposal_event
    \<Rightarrow> db \<Rightarrow> bool \<times> db" where
  "dup_write hit f e d =
     (let d1 = d\<lparr>proposals := update_where hit f (proposals d)\<rparr> in
      if rowcount hit (proposals d) \<noteq> 1 then (False, d1)
      else (True, d1\<lparr>proposal_events := proposal_events d1 @ [e]\<rparr>))"

fun decision_state :: "decision \<Rightarrow> proposal_state" where
  "decision_state Confirmed = DupConfirmed"
| "decision_state Rejected = DupRejected"

fun decision_event :: "decision \<Rightarrow> proposal_event_kind" where
  "decision_event Confirmed = PevConfirmed"
| "decision_event Rejected = PevRejected"

definition dup_settle :: "rowid \<Rightarrow> decision \<Rightarrow> string \<Rightarrow> time \<Rightarrow> db \<Rightarrow> exc + (bool \<times> db)" where
  "dup_settle k dec actor now d =
     rbind (dup_identifier k ''proposal id'') (\<lambda>k.
     rbind (dup_bounded actor ''actor'' DUP_MAX_ACTOR) (\<lambda>actor.
       Inr (dup_write (\<lambda>p. dp_id p = k \<and> dp_state p = DupProposed)
         (\<lambda>p. p\<lparr>dp_state := decision_state dec, dp_updated_at := now, dp_settled_at := Some now\<rparr>)
         (proposal_event_row k (decision_event dec) actor None now) d)))"

definition dup_supersede :: "rowid \<Rightarrow> string \<Rightarrow> string \<Rightarrow> time \<Rightarrow> db \<Rightarrow> exc + (bool \<times> db)" where
  "dup_supersede k actor reason now d =
     rbind (dup_identifier k ''proposal id'') (\<lambda>k.
     rbind (dup_bounded actor ''actor'' DUP_MAX_ACTOR) (\<lambda>actor.
     rbind (dup_bounded reason ''reason'' DUP_MAX_REASON) (\<lambda>reason.
       Inr (dup_write (\<lambda>p. dp_id p = k \<and> dp_state p = DupProposed \<and> dp_card_id p = None)
         (\<lambda>p. p\<lparr>dp_state := DupSuperseded, dp_updated_at := now, dp_settled_at := Some now\<rparr>)
         (proposal_event_row k PevSuperseded actor (Some reason) now) d))))"

definition dup_reopen :: "rowid \<Rightarrow> string \<Rightarrow> time \<Rightarrow> db \<Rightarrow> exc + (bool \<times> db)" where
  "dup_reopen k actor now d =
     rbind (dup_identifier k ''proposal id'') (\<lambda>k.
     rbind (dup_bounded actor ''actor'' DUP_MAX_ACTOR) (\<lambda>actor.
       Inr (dup_write (\<lambda>p. dp_id p = k \<and> dp_state p = DupRejected)
         (\<lambda>p. p\<lparr>dp_state := DupProposed, dp_updated_at := now, dp_settled_at := None\<rparr>)
         (proposal_event_row k PevReopened actor None now) d)))"

definition dup_reopen_confirmed :: "rowid \<Rightarrow> string \<Rightarrow> time \<Rightarrow> db \<Rightarrow> exc + (bool \<times> db)" where
  "dup_reopen_confirmed k actor now d =
     rbind (dup_identifier k ''proposal id'') (\<lambda>k.
     rbind (dup_bounded actor ''actor'' DUP_MAX_ACTOR) (\<lambda>actor.
       Inr (dup_write (\<lambda>p. dp_id p = k \<and> dp_state p = DupConfirmed)
         (\<lambda>p. p\<lparr>dp_state := DupProposed, dp_card_id := None, dp_updated_at := now, dp_settled_at := None\<rparr>)
         (proposal_event_row k PevReopened actor None now) d)))"

definition dup_bind :: "rowid \<Rightarrow> rowid \<Rightarrow> time \<Rightarrow> db \<Rightarrow> exc + (bool \<times> db)" where
  "dup_bind k c now d =
     rbind (dup_identifier k ''proposal id'') (\<lambda>k.
     rbind (dup_identifier c ''card id'') (\<lambda>c.
       let hit = (\<lambda>p. dp_id p = k \<and> dp_state p = DupProposed \<and> dp_card_id p = None) in
       Inr (rowcount hit (proposals d) = 1,
            d\<lparr>proposals := update_where hit (\<lambda>p. p\<lparr>dp_card_id := Some c, dp_updated_at := now\<rparr>)
                (proposals d)\<rparr>)))"

definition dup_release_for_card :: "rowid \<Rightarrow> time \<Rightarrow> db \<Rightarrow> exc + (nat \<times> db)" where
  "dup_release_for_card c now d =
     rbind (dup_identifier c ''card id'') (\<lambda>c.
       let hit = (\<lambda>p. dp_card_id p = Some c \<and> dp_state p = DupProposed) in
       Inr (rowcount hit (proposals d),
            d\<lparr>proposals := update_where hit (\<lambda>p. p\<lparr>dp_card_id := None, dp_updated_at := now\<rparr>)
                (proposals d)\<rparr>))"

definition dup_get :: "rowid \<Rightarrow> db \<Rightarrow> exc + proposal_row" where
  "dup_get k d = rbind (dup_identifier k ''proposal id'') (\<lambda>k.
     case row_of dp_id k (proposals d) of
       None \<Rightarrow> Inl (DuplicateProposalError ''proposal does not exist'') | Some p \<Rightarrow> Inr p)"

definition dup_next_open :: "db \<Rightarrow> proposal_row option" where
  "dup_next_open d = (case sort_key dp_id (filter (\<lambda>p. dp_state p = DupProposed) (proposals d)) of
     [] \<Rightarrow> None | p # _ \<Rightarrow> Some p)"

record proposal_counts =
  pc_detector :: string
  pc_proposed :: nat
  pc_confirmed :: nat
  pc_rejected :: nat
  pc_reopened :: nat

definition events_of :: "string \<Rightarrow> db \<Rightarrow> proposal_event list" where
  "events_of detector d = concat (map (\<lambda>p. filter (\<lambda>e. de_proposal_id e = dp_id p) (proposal_events d))
     (filter (\<lambda>p. dp_detector p = detector) (proposals d)))"

text \<open>The inner join drops a detector none of whose proposals has an event.\<close>

definition dup_counts :: "db \<Rightarrow> proposal_counts list" where
  "dup_counts d = map (\<lambda>det.
     let n = (\<lambda>kind. rowcount (\<lambda>e. de_kind e = kind) (events_of det d)) in
     \<lparr>pc_detector = det, pc_proposed = n PevProposed, pc_confirmed = n PevConfirmed,
      pc_rejected = n PevRejected, pc_reopened = n PevReopened\<rparr>)
     (filter (\<lambda>det. events_of det d \<noteq> []) (sort (remdups (map dp_detector (proposals d)))))"

section \<open>The invariant of the proposal table\<close>

definition pair_of :: "proposal_row \<Rightarrow> rowid \<times> rowid" where
  "pair_of p = (dp_left_task_id p, dp_right_task_id p)"

definition alive :: "proposal_row \<Rightarrow> bool" where
  "alive p \<longleftrightarrow> dp_state p \<noteq> DupSuperseded"

definition proposal_check :: "proposal_row \<Rightarrow> bool" where
  "proposal_check p \<longleftrightarrow> 1 \<le> dp_id p \<and> dp_left_task_id p < dp_right_task_id p
     \<and> 1 \<le> dp_left_task_version p \<and> 1 \<le> dp_right_task_version p
     \<and> 1 \<le> length (dp_basis p) \<and> length (dp_basis p) \<le> 1200
     \<and> 1 \<le> length (dp_detector p) \<and> length (dp_detector p) \<le> 64
     \<and> (dp_state p = DupProposed \<longleftrightarrow> dp_settled_at p = None)"

fun event_state :: "proposal_event_kind \<Rightarrow> proposal_state" where
  "event_state PevProposed = DupProposed"
| "event_state PevConfirmed = DupConfirmed"
| "event_state PevRejected = DupRejected"
| "event_state PevReopened = DupProposed"
| "event_state PevSuperseded = DupSuperseded"

text \<open>The state the event log ascribes to a proposal.\<close>

definition logged_state :: "rowid \<Rightarrow> db \<Rightarrow> proposal_state option" where
  "logged_state k d = map_option (event_state \<circ> de_kind)
     (List.find (\<lambda>e. de_proposal_id e = k) (rev (proposal_events d)))"

definition dup_inv :: "db \<Rightarrow> bool" where
  "dup_inv d \<longleftrightarrow> unique_key dp_id (proposals d) \<and> list_all proposal_check (proposals d)
     \<and> list_all (\<lambda>p. list_all (\<lambda>q. alive p \<and> alive q \<and> pair_of p = pair_of q \<longrightarrow> dp_id p = dp_id q)
         (proposals d)) (proposals d)
     \<and> list_all (\<lambda>p. logged_state (dp_id p) d = Some (dp_state p)) (proposals d)"

text \<open>What a reader is shown of a proposal never changes, and an expired one is final.\<close>

definition dp_shown :: "proposal_row \<Rightarrow> proposal_row" where
  "dp_shown p = p\<lparr>dp_state := DupProposed, dp_updated_at := 0, dp_settled_at := None, dp_card_id := None\<rparr>"

definition dp_evolves :: "proposal_row \<Rightarrow> proposal_row \<Rightarrow> bool" where
  "dp_evolves p p' \<longleftrightarrow> p' = p \<or> (dp_shown p' = dp_shown p \<and> alive p)"

lemma dp_shownD:
  "dp_shown p' = dp_shown p \<Longrightarrow> dp_id p' = dp_id p \<and> pair_of p' = pair_of p
    \<and> dp_left_task_id p' = dp_left_task_id p \<and> dp_right_task_id p' = dp_right_task_id p
    \<and> dp_left_task_version p' = dp_left_task_version p
    \<and> dp_right_task_version p' = dp_right_task_version p
    \<and> dp_basis p' = dp_basis p \<and> dp_detector p' = dp_detector p"
  by (cases p; cases p') (simp add: dp_shown_def pair_of_def)

lemma dp_evolvesD:
  assumes "dp_evolves p p'"
  shows "dp_shown p' = dp_shown p" "dp_id p' = dp_id p" "pair_of p' = pair_of p"
    "alive p' \<Longrightarrow> alive p" "\<not> alive p \<Longrightarrow> p' = p"
  using assms dp_shownD [of p' p] by (auto simp: dp_evolves_def)

lemma dp_evolves_refl [simp]: "dp_evolves p p"
  by (simp add: dp_evolves_def)

lemma dp_evolves_trans: "dp_evolves p q \<Longrightarrow> dp_evolves q r \<Longrightarrow> dp_evolves p r"
  by (auto simp: dp_evolves_def)

lemma dup_inv_rows:
  assumes "dup_inv d" and "list_all2 dp_evolves (proposals d) rows"
    and "proposals d' = rows" and "list_all proposal_check rows"
    and "\<And>p. p \<in> set rows \<Longrightarrow> logged_state (dp_id p) d' = Some (dp_state p)"
  shows "dup_inv d'"
proof -
  have ids: "map dp_id rows = map dp_id (proposals d)"
    by (rule list_all2_map_eq [OF assms(2)]) (rule dp_evolvesD(2))
  have pairs: "dp_id p = dp_id q"
    if pq: "p \<in> set rows" "q \<in> set rows" "alive p" "alive q" "pair_of p = pair_of q" for p q
  proof -
    obtain p0 q0 where 0: "p0 \<in> set (proposals d)" "dp_evolves p0 p" "q0 \<in> set (proposals d)" "dp_evolves q0 q"
      using list_all2_set_right [OF assms(2)] pq(1,2) by blast
    have "alive p0 \<and> alive q0 \<and> pair_of p0 = pair_of q0"
      using pq(3-5) dp_evolvesD(3,4) [OF 0(2)] dp_evolvesD(3,4) [OF 0(4)] by simp
    then have "dp_id p0 = dp_id q0"
      using assms(1) 0(1,3) unfolding dup_inv_def list_all_iff by blast
    then show ?thesis using 0 by (simp add: dp_evolvesD(2))
  qed
  show ?thesis
    unfolding dup_inv_def assms(3)
  proof (intro conjI)
    show "unique_key dp_id rows" using assms(1) ids by (simp add: dup_inv_def unique_key_def)
    show "list_all (\<lambda>p. list_all (\<lambda>q. alive p \<and> alive q \<and> pair_of p = pair_of q
        \<longrightarrow> dp_id p = dp_id q) rows) rows"
      unfolding list_all_iff by (intro ballI impI, elim conjE) (rule pairs)
    show "list_all (\<lambda>p. logged_state (dp_id p) d' = Some (dp_state p)) rows"
      by (simp add: list_all_iff assms(5))
  qed (rule assms(4))
qed

text \<open>The abstract life of a proposal: what each event does to the state.\<close>

fun dup_life :: "proposal_state \<Rightarrow> proposal_event_kind \<Rightarrow> proposal_state option" where
  "dup_life DupProposed PevConfirmed = Some DupConfirmed"
| "dup_life DupProposed PevRejected = Some DupRejected"
| "dup_life DupProposed PevSuperseded = Some DupSuperseded"
| "dup_life DupRejected PevReopened = Some DupProposed"
| "dup_life DupConfirmed PevReopened = Some DupProposed"
| "dup_life _ _ = None"

lemma dup_life_state: "dup_life s kind = Some s' \<Longrightarrow> s' = event_state kind \<and> s \<noteq> DupSuperseded"
  by (cases s; cases kind) auto

lemma dup_write_unique:
  assumes "unique_key dp_id (proposals d)"
  shows "dup_write (\<lambda>p. dp_id p = k \<and> Q p) f e d = (case row_of dp_id k (proposals d) of
      None \<Rightarrow> (False, d)
    | Some p \<Rightarrow> if Q p then (True, d\<lparr>proposals := update_where (\<lambda>p. dp_id p = k \<and> Q p) f (proposals d),
                        proposal_events := proposal_events d @ [e]\<rparr>)
               else (False, d))"
proof -
  have same: "update_where (\<lambda>p. dp_id p = k \<and> Q p) f (proposals d) = proposals d"
    if "\<And>p. row_of dp_id k (proposals d) = Some p \<Longrightarrow> \<not> Q p"
  proof (rule update_where_none)
    fix p assume "p \<in> set (proposals d)"
    then show "\<not> (dp_id p = k \<and> Q p)"
      using that row_of_unique [OF assms, of k p] by blast
  qed
  show ?thesis
    using rowcount_unique [OF assms, of k Q] same
    by (cases "row_of dp_id k (proposals d)") (auto simp: dup_write_def)
qed

text \<open>One accepted write keeps the invariant when it follows the abstract life.\<close>

lemma dup_inv_write:
  assumes inv: "dup_inv d" and p: "row_of dp_id k (proposals d) = Some p" "Q p"
    and f: "\<And>p. dp_shown (f p) = dp_shown p" "\<And>p. (dp_state (f p) = DupProposed) = (dp_settled_at (f p) = None)"
    and life: "dup_life (dp_state p) kind = Some (dp_state (f p))"
    and e: "de_proposal_id e = k" "de_kind e = kind"
  shows "dup_inv (d\<lparr>proposals := update_where (\<lambda>p. dp_id p = k \<and> Q p) f (proposals d),
    proposal_events := proposal_events d @ [e]\<rparr>)" (is "dup_inv ?d")
proof -
  have uniq: "unique_key dp_id (proposals d)" using inv by (simp add: dup_inv_def)
  have only: "q = p" if "q \<in> set (proposals d)" "dp_id q = k" for q
    using row_of_unique [OF uniq, of k q] p(1) that by simp
  have evolve: "dp_evolves q (if dp_id q = k \<and> Q q then f q else q)" if "q \<in> set (proposals d)" for q
    using only [OF that] f(1) dup_life_state [OF life] by (auto simp: dp_evolves_def alive_def)
  have rows: "list_all2 dp_evolves (proposals d) (proposals ?d)"
    using evolve by (simp add: update_where_def list.rel_map list.rel_refl_strong)
  have check: "proposal_check (f q)" if "proposal_check q" for q
    using that f(2) [of q] dp_shownD [OF f(1), of q] by (simp add: proposal_check_def)
  have log: "logged_state j ?d = (if j = k then Some (event_state kind) else logged_state j d)" for j
    using e by (simp add: logged_state_def)
  show ?thesis
  proof (rule dup_inv_rows [OF inv rows refl])
    have "list_all proposal_check (proposals d)" using inv by (simp add: dup_inv_def)
    then show "list_all proposal_check (proposals ?d)"
      using check by (auto simp: list_all_iff update_where_def)
    fix q assume "q \<in> set (proposals ?d)"
    then obtain q0 where q0: "q0 \<in> set (proposals d)" "q = (if dp_id q0 = k \<and> Q q0 then f q0 else q0)"
      by simp (erule update_whereE, blast)
    have id: "dp_id q = dp_id q0" using dp_evolvesD(2) [OF evolve [OF q0(1)]] q0(2) by simp
    show "logged_state (dp_id q) ?d = Some (dp_state q)"
    proof (cases "dp_id q0 = k")
      case True
      then have "q = f p" using only [OF q0(1)] q0(2) p(2) by simp
      then show ?thesis using True id log dup_life_state [OF life] by simp
    next
      case False
      then show ?thesis using q0 id log inv by (simp add: dup_inv_def list_all_iff)
    qed
  qed
qed

text \<open>Binding and releasing only touch the card column.\<close>

lemma dup_inv_rebind:
  assumes inv: "dup_inv d" and hit: "\<And>p. hit p \<Longrightarrow> dp_state p = DupProposed"
  shows "dup_inv (d\<lparr>proposals := update_where hit (\<lambda>p. p\<lparr>dp_card_id := c, dp_updated_at := now\<rparr>)
    (proposals d)\<rparr>)" (is "dup_inv ?d")
proof -
  have rows: "list_all2 dp_evolves (proposals d) (proposals ?d)"
    using hit by (auto intro!: list_all2_update_where simp: dp_evolves_def dp_shown_def alive_def)
  have log: "logged_state j ?d = logged_state j d" for j
    by (simp add: logged_state_def)
  show ?thesis
  proof (rule dup_inv_rows [OF inv rows refl])
    show "list_all proposal_check (proposals ?d)"
      using inv by (auto simp: dup_inv_def list_all_iff update_where_def proposal_check_def)
    fix q assume "q \<in> set (proposals ?d)"
    then obtain q0 where "q0 \<in> set (proposals d)"
      "q = (if hit q0 then q0\<lparr>dp_card_id := c, dp_updated_at := now\<rparr> else q0)"
      by simp (erule update_whereE, blast)
    then show "logged_state (dp_id q) ?d = Some (dp_state q)"
      using inv log by (simp add: dup_inv_def list_all_iff)
  qed
qed

section \<open>Every request keeps it\<close>

lemma record_routes_frame [simp]:
  "proposals (record_routes k rs d) = proposals d"
  "proposal_events (record_routes k rs d) = proposal_events d"
  "tasks (record_routes k rs d) = tasks d" "work_items (record_routes k rs d) = work_items d"
  by (simp_all add: record_routes_def)

lemma dup_inv_cong:
  "proposals d' = proposals d \<Longrightarrow> proposal_events d' = proposal_events d \<Longrightarrow> dup_inv d' = dup_inv d"
  by (simp add: dup_inv_def logged_state_def)

text \<open>What any request does to the rows that are there, and to the task tables.\<close>

definition good_step :: "db \<Rightarrow> db \<Rightarrow> bool" where
  "good_step d d' \<longleftrightarrow> dup_inv d' \<and> tasks d' = tasks d \<and> work_items d' = work_items d
     \<and> (\<forall>p \<in> set (proposals d). \<exists>p' \<in> set (proposals d'). dp_evolves p p')"

lemma good_step_same: "dup_inv d \<Longrightarrow> good_step d d"
  by (auto simp: good_step_def dp_evolves_def)

lemma good_step_rows:
  assumes "dup_inv d'" and "list_all2 dp_evolves (proposals d) (proposals d')"
    and "tasks d' = tasks d" and "work_items d' = work_items d"
  shows "good_step d d'"
  using assms list_all2_set_left [OF assms(2)] by (auto simp: good_step_def)

lemma dup_write_good:
  assumes inv: "dup_inv d"
    and f: "\<And>p. dp_shown (f p) = dp_shown p" "\<And>p. (dp_state (f p) = DupProposed) = (dp_settled_at (f p) = None)"
    and life: "\<And>p. Q p \<Longrightarrow> dup_life (dp_state p) (de_kind e) = Some (dp_state (f p))"
    and e: "de_proposal_id e = k"
  shows "good_step d (snd (dup_write (\<lambda>p. dp_id p = k \<and> Q p) f e d))"
proof -
  have uniq: "unique_key dp_id (proposals d)" using inv by (simp add: dup_inv_def)
  show ?thesis
  proof (cases "\<exists>p. row_of dp_id k (proposals d) = Some p \<and> Q p")
    case True
    then obtain p where p: "row_of dp_id k (proposals d) = Some p" "Q p" by blast
    show ?thesis
      unfolding dup_write_unique [OF uniq] p(1) option.case if_P [OF p(2)] snd_conv
    proof (rule good_step_rows)
      show "dup_inv (d\<lparr>proposals := update_where (\<lambda>p. dp_id p = k \<and> Q p) f (proposals d),
          proposal_events := proposal_events d @ [e]\<rparr>)"
        by (rule dup_inv_write [where kind = "de_kind e" and p = p])
          (use inv p f life e in simp_all)
      have "dp_evolves q (f q)" if "Q q" for q
        using f(1) dup_life_state [OF life [OF that]] by (simp add: dp_evolves_def alive_def)
      then show "list_all2 dp_evolves (proposals d) (proposals (d\<lparr>proposals :=
          update_where (\<lambda>p. dp_id p = k \<and> Q p) f (proposals d),
          proposal_events := proposal_events d @ [e]\<rparr>))"
        by (simp, intro list_all2_update_where) auto
    qed simp_all
  next
    case False
    then have "snd (dup_write (\<lambda>p. dp_id p = k \<and> Q p) f e d) = d"
      by (auto simp: dup_write_unique [OF uniq] split: option.splits)
    then show ?thesis using good_step_same [OF inv] by simp
  qed
qed

lemma dup_settle_good: "dup_inv d \<Longrightarrow> good_step d (snd (run_tx (dup_settle k dec actor now) d))"
  by (cases "k < 1"; cases "dup_bounded actor ''actor'' DUP_MAX_ACTOR"; cases dec)
    (simp_all add: dup_settle_def dup_identifier_def run_tx_def good_step_same split_beta,
     auto intro!: dup_write_good simp: dp_shown_def proposal_event_row_def)

lemma dup_supersede_good: "dup_inv d \<Longrightarrow> good_step d (snd (run_tx (dup_supersede k actor reason now) d))"
  by (cases "k < 1"; cases "dup_bounded actor ''actor'' DUP_MAX_ACTOR";
      cases "dup_bounded reason ''reason'' DUP_MAX_REASON")
    (simp_all add: dup_supersede_def dup_identifier_def run_tx_def good_step_same split_beta,
     auto intro!: dup_write_good simp: dp_shown_def proposal_event_row_def)

lemma dup_reopen_good: "dup_inv d \<Longrightarrow> good_step d (snd (run_tx (dup_reopen k actor now) d))"
  by (cases "k < 1"; cases "dup_bounded actor ''actor'' DUP_MAX_ACTOR")
    (simp_all add: dup_reopen_def dup_identifier_def run_tx_def good_step_same split_beta,
     auto intro!: dup_write_good simp: dp_shown_def proposal_event_row_def)

lemma dup_reopen_confirmed_good:
  "dup_inv d \<Longrightarrow> good_step d (snd (run_tx (dup_reopen_confirmed k actor now) d))"
  by (cases "k < 1"; cases "dup_bounded actor ''actor'' DUP_MAX_ACTOR")
    (simp_all add: dup_reopen_confirmed_def dup_identifier_def run_tx_def good_step_same split_beta,
     auto intro!: dup_write_good simp: dp_shown_def proposal_event_row_def)

lemma dup_rebind_good:
  assumes "dup_inv d" and "\<And>p. hit p \<Longrightarrow> dp_state p = DupProposed"
  shows "good_step d (d\<lparr>proposals := update_where hit (\<lambda>p. p\<lparr>dp_card_id := c, dp_updated_at := now\<rparr>)
    (proposals d)\<rparr>)"
  by (rule good_step_rows [OF dup_inv_rebind [OF assms]])
    (use assms(2) in \<open>auto intro!: list_all2_update_where simp: dp_evolves_def dp_shown_def alive_def\<close>)

lemma dup_bind_good: "dup_inv d \<Longrightarrow> good_step d (snd (run_tx (dup_bind k c now) d))"
  by (cases "k < 1"; cases "c < 1")
    (auto simp: dup_bind_def dup_identifier_def run_tx_def good_step_same Let_def intro!: dup_rebind_good)

lemma dup_release_good: "dup_inv d \<Longrightarrow> good_step d (snd (run_tx (dup_release_for_card c now) d))"
  by (cases "c < 1")
    (auto simp: dup_release_for_card_def dup_identifier_def run_tx_def good_step_same Let_def
      intro!: dup_rebind_good)

lemma insert_proposal_good:
  assumes inv: "dup_inv d" and order: "tk_id l < tk_id r"
    and vs: "1 \<le> tk_version l" "1 \<le> tk_version r"
    and bounds: "1 \<le> length basis" "length basis \<le> 1200" "1 \<le> length detector" "length detector \<le> 64"
    and fresh: "List.find (alive_pair (tk_id l) (tk_id r)) (proposals d) = None"
  shows "good_step d (snd (insert_proposal l r basis detector routes now d))"
proof -
  define k where "k = next_id dp_id (proposals d)"
  define p where "p = \<lparr>dp_id = k, dp_left_task_id = tk_id l, dp_right_task_id = tk_id r,
    dp_left_task_version = tk_version l, dp_right_task_version = tk_version r,
    dp_basis = basis, dp_detector = detector, dp_state = DupProposed,
    dp_created_at = now, dp_updated_at = now, dp_settled_at = None, dp_card_id = None\<rparr>"
  define d1 where "d1 = d\<lparr>proposals := proposals d @ [p],
    proposal_events := proposal_events d @ [proposal_event_row k PevProposed detector None now]\<rparr>"
  have eq: "snd (insert_proposal l r basis detector routes now d) = record_routes k routes d1"
    by (simp add: insert_proposal_def d1_def p_def k_def Let_def)
  have ids: "unique_key dp_id (proposals d1)" and less: "\<And>q. q \<in> set (proposals d) \<Longrightarrow> dp_id q < k"
    using inv unique_key_insert [of dp_id "proposals d" p] next_id_fresh [of _ "proposals d" dp_id]
    by (simp_all add: dup_inv_def d1_def p_def k_def)
  have log: "logged_state j d1 = (if j = k then Some DupProposed else logged_state j d)" for j
    by (simp add: logged_state_def d1_def proposal_event_row_def)
  have "proposal_check p" using order vs bounds next_id_positive [of dp_id "proposals d"]
    by (simp add: proposal_check_def p_def k_def)
  moreover have "\<not> (alive q \<and> pair_of q = pair_of p)" if "q \<in> set (proposals d)" for q
    using fresh that by (auto simp: find_None_iff alive_pair_def alive_def pair_of_def p_def)
  moreover have "logged_state (dp_id q) d1 = Some (dp_state q)" if "q \<in> set (proposals d1)" for q
    using that inv less log by (auto simp: d1_def p_def dup_inv_def list_all_iff)
  moreover have rows: "proposals d1 = proposals d @ [p]" by (simp add: d1_def)
  ultimately have check: "\<forall>q \<in> set (proposals d1). proposal_check q"
    and log1: "\<forall>q \<in> set (proposals d1). logged_state (dp_id q) d1 = Some (dp_state q)"
    and new: "\<forall>q \<in> set (proposals d). \<not> (alive q \<and> pair_of q = pair_of p)"
    using inv unfolding dup_inv_def list_all_iff by auto
  have old: "\<forall>q \<in> set (proposals d). \<forall>q' \<in> set (proposals d).
      alive q \<and> alive q' \<and> pair_of q = pair_of q' \<longrightarrow> dp_id q = dp_id q'"
    using inv unfolding dup_inv_def list_all_iff by blast
  have "\<forall>q \<in> set (proposals d1). \<forall>q' \<in> set (proposals d1).
      alive q \<and> alive q' \<and> pair_of q = pair_of q' \<longrightarrow> dp_id q = dp_id q'"
  proof (intro ballI impI)
    fix q q'
    assume "q \<in> set (proposals d1)" "q' \<in> set (proposals d1)"
      and h: "alive q \<and> alive q' \<and> pair_of q = pair_of q'"
    then have "q \<in> set (proposals d) \<or> q = p" "q' \<in> set (proposals d) \<or> q' = p"
      by (simp_all add: rows disj_commute)
    then show "dp_id q = dp_id q'" using new old h by (elim disjE) metis+
  qed
  with check log1 ids have "dup_inv d1"
    unfolding dup_inv_def list_all_iff by (intro conjI)
  then have "dup_inv (record_routes k routes d1)" using dup_inv_cong [of "record_routes k routes d1" d1] by simp
  moreover have "\<forall>q \<in> set (proposals d). \<exists>q' \<in> set (proposals d1). dp_evolves q q'"
    unfolding rows by (metis Un_iff dp_evolves_refl set_append)
  moreover have "tasks d1 = tasks d" "work_items d1 = work_items d" by (simp_all add: d1_def)
  ultimately show ?thesis by (simp add: eq good_step_def)
qed

lemma dup_propose_good:
  assumes "ledger_inv d" and "dup_inv d"
  shows "good_step d (snd (run_tx (dup_propose q now) d))"
proof (cases "dup_propose q now d")
  case (Inl x)
  then show ?thesis by (simp add: run_tx_def good_step_same [OF assms(2)])
next
  case (Inr y)
  have routes: "good_step d (record_routes k rs d)" for k rs
    using assms(2) dup_inv_cong [of "record_routes k rs d" d]
    by (auto simp: good_step_def dp_evolves_def)
  have vs: "1 \<le> tk_version t" if "task_of i d = Some t" for i t
    using task_of_mem [OF that] ledger_invD(2) [OF assms(1)] by (auto simp: task_ok_def)
  have ins: "good_step d d'"
    if "insert_proposal l r basis detector rs now d = (res, d')" "dq_task_a q \<noteq> dq_task_b q" "dup_bounded (dq_basis q) ''proposal basis'' DUP_MAX_BASIS = Inr basis"
      "dup_bounded (dq_detector q) ''detector'' DUP_MAX_DETECTOR = Inr detector"
      "pair_rows (min (dq_task_a q) (dq_task_b q)) (max (dq_task_a q) (dq_task_b q)) d = Some (l, r)"
      "List.find (alive_pair (min (dq_task_a q) (dq_task_b q)) (max (dq_task_a q) (dq_task_b q)))
        (proposals d) = None"
    for l r basis detector rs res d'
  proof -
    have d': "d' = snd (insert_proposal l r basis detector rs now d)" using that(1) by simp
    have t: "task_of (min (dq_task_a q) (dq_task_b q)) d = Some l"
      "task_of (max (dq_task_a q) (dq_task_b q)) d = Some r"
      using that(5) by (auto simp: pair_rows_def split: option.splits)
    show ?thesis
      unfolding d' by (rule insert_proposal_good [OF assms(2)])
        (use that t [THEN row_of_key] vs [OF t(1)] vs [OF t(2)]
          in \<open>auto simp: dup_bounded_def table_simps DUP_MAX_BASIS_def DUP_MAX_DETECTOR_def min_def max_def
            split: if_splits\<close>)
  qed
  show ?thesis
    using Inr good_step_same [OF assms(2)] routes ins
    by (auto simp: dup_propose_def dup_identifier_def run_tx_def rbind_Inr_iff Let_def
        split: if_splits option.splits prod.splits)
qed

datatype dup_op =
    DupPropose dup_request time
  | DupSettle rowid decision string time
  | DupSupersede rowid string string time
  | DupReopen rowid string time
  | DupReopenConfirmed rowid string time
  | DupBind rowid rowid time
  | DupRelease rowid time

fun dup_step :: "dup_op \<Rightarrow> db \<Rightarrow> db" where
  "dup_step (DupPropose q now) d = snd (run_tx (dup_propose q now) d)"
| "dup_step (DupSettle k dec actor now) d = snd (run_tx (dup_settle k dec actor now) d)"
| "dup_step (DupSupersede k actor reason now) d = snd (run_tx (dup_supersede k actor reason now) d)"
| "dup_step (DupReopen k actor now) d = snd (run_tx (dup_reopen k actor now) d)"
| "dup_step (DupReopenConfirmed k actor now) d = snd (run_tx (dup_reopen_confirmed k actor now) d)"
| "dup_step (DupBind k c now) d = snd (run_tx (dup_bind k c now) d)"
| "dup_step (DupRelease c now) d = snd (run_tx (dup_release_for_card c now) d)"

lemma dup_step_good: "ledger_inv d \<Longrightarrow> dup_inv d \<Longrightarrow> good_step d (dup_step op d)"
  by (cases op) (simp_all add: dup_propose_good dup_settle_good dup_supersede_good dup_reopen_good
      dup_reopen_confirmed_good dup_bind_good dup_release_good)

definition dup_run :: "dup_op list \<Rightarrow> db \<Rightarrow> db" where
  "dup_run ops d = fold dup_step ops d"

lemma dup_step_inv: "ledger_inv d \<and> dup_inv d \<Longrightarrow> ledger_inv (dup_step op d) \<and> dup_inv (dup_step op d)"
  using dup_step_good [of d op] by (auto simp: good_step_def ledger_inv_def)

interpretation proposal_rows: append_only dup_step proposals dp_evolves "\<lambda>d. ledger_inv d \<and> dup_inv d"
proof unfold_locales
  show "dp_evolves p p" for p by (simp add: dp_evolves_def)
  show "dp_evolves p r" if "dp_evolves p q" "dp_evolves q r" for p q r
    using that by (rule dp_evolves_trans)
  show "\<exists>p' \<in> set (proposals (dup_step op d)). dp_evolves p p'"
    if "ledger_inv d \<and> dup_inv d" "p \<in> set (proposals d)" for d p op
    using that dup_step_good [of d op] by (auto simp: good_step_def)
qed (rule dup_step_inv)

lemma dup_run_inv: "ledger_inv d \<and> dup_inv d \<Longrightarrow> ledger_inv (dup_run ops d) \<and> dup_inv (dup_run ops d)"
  unfolding dup_run_def by (induction ops arbitrary: d) (simp_all add: dup_step_inv)

section \<open>Answers\<close>

definition proposal_state_of :: "rowid \<Rightarrow> db \<Rightarrow> proposal_state option" where
  "proposal_state_of k d = map_option dp_state (row_of dp_id k (proposals d))"

text \<open>A reader's answer: the proposal, the decision, who decided and when.\<close>

definition answer_proposal :: "rowid \<times> decision \<times> string \<times> time \<Rightarrow> db \<Rightarrow> bool \<times> db" where
  "answer_proposal r d =
     (case run_tx (dup_settle (fst r) (fst (snd r)) (fst (snd (snd r))) (snd (snd (snd r)))) d of
        (Inl x, d') \<Rightarrow> (False, d') | (Inr b, d') \<Rightarrow> (b, d'))"

definition valid_answer :: "rowid \<times> decision \<times> string \<times> time \<Rightarrow> bool" where
  "valid_answer r \<longleftrightarrow> (\<exists>a. dup_bounded (fst (snd (snd r))) ''actor'' DUP_MAX_ACTOR = Inr a)"

lemma answer_proposal_simp:
  assumes "dup_inv d"
  shows "answer_proposal (k, dec, actor, now) d =
    (case (dup_bounded actor ''actor'' DUP_MAX_ACTOR, row_of dp_id k (proposals d)) of
       (Inr a, Some p) \<Rightarrow> if dp_state p = DupProposed
         then (True, d\<lparr>proposals := update_where (\<lambda>p. dp_id p = k \<and> dp_state p = DupProposed)
             (\<lambda>p. p\<lparr>dp_state := decision_state dec, dp_updated_at := now, dp_settled_at := Some now\<rparr>)
             (proposals d),
             proposal_events := proposal_events d @ [proposal_event_row k (decision_event dec) a None now]\<rparr>)
         else (False, d)
     | _ \<Rightarrow> (False, d))"
proof -
  have inv: "unique_key dp_id (proposals d)" "\<And>p. p \<in> set (proposals d) \<Longrightarrow> 1 \<le> dp_id p"
    using assms by (auto simp: dup_inv_def list_all_iff proposal_check_def)
  have "row_of dp_id k (proposals d) = None" if "k < 1"
    using inv(2) that by (fastforce simp: find_None_iff)
  then show ?thesis
    by (cases "dup_bounded actor ''actor'' DUP_MAX_ACTOR"; cases "k < 1")
      (auto simp: answer_proposal_def dup_settle_def dup_identifier_def run_tx_def
        dup_write_unique [OF inv(1)] split: option.splits)
qed

lemma dup_inv_answer: "dup_inv d \<Longrightarrow> dup_inv (snd (answer_proposal r d))"
  using dup_settle_good [of d "fst r" "fst (snd r)" "fst (snd (snd r))" "snd (snd (snd r))"]
  by (auto simp: answer_proposal_def good_step_def split: prod.splits sum.splits)

lemma decision_state_final [simp]: "decision_state dec \<noteq> DupProposed"
  by (cases dec) simp_all

lemma answered_accepted_iff:
  "dup_inv d \<Longrightarrow> fst (answer_proposal (k, dec, actor, now) d)
    \<longleftrightarrow> valid_answer (k, dec, actor, now) \<and> proposal_state_of k d = Some DupProposed"
  by (auto simp: answer_proposal_simp valid_answer_def proposal_state_of_def split: sum.splits option.splits)

lemma proposal_state_after_answer:
  assumes "dup_inv d"
  shows "proposal_state_of j (snd (answer_proposal (k, dec, actor, now) d))
    = (if j = k \<and> fst (answer_proposal (k, dec, actor, now) d) then Some (decision_state dec)
       else proposal_state_of j d)"
proof -
  have upd: "row_of dp_id j (update_where (\<lambda>p. dp_id p = k \<and> dp_state p = DupProposed)
      (\<lambda>p. p\<lparr>dp_state := decision_state dec, dp_updated_at := now, dp_settled_at := Some now\<rparr>) (proposals d))
    = map_option (\<lambda>p. if dp_id p = k \<and> dp_state p = DupProposed then p\<lparr>dp_state := decision_state dec,
        dp_updated_at := now, dp_settled_at := Some now\<rparr> else p) (row_of dp_id j (proposals d))"
    by (rule find_update_where) simp
  show ?thesis
  proof (cases "row_of dp_id j (proposals d)")
    case None
    then show ?thesis
      using upd by (auto simp: answer_proposal_simp [OF assms] proposal_state_of_def
          split: sum.splits option.splits)
  next
    case (Some p)
    then have "dp_id p = j" by (rule row_of_key)
    then show ?thesis
      using Some upd by (auto simp: answer_proposal_simp [OF assms] proposal_state_of_def
          split: sum.splits option.splits)
  qed
qed

interpretation proposal_answers: question_store answer_proposal fst
  "\<lambda>r. decision_state (fst (snd r))" DupProposed proposal_state_of valid_answer dup_inv
proof unfold_locales
  fix d :: db and r :: "rowid \<times> decision \<times> string \<times> time" and k
  assume inv: "dup_inv d"
  obtain j dec actor now where r: "r = (j, dec, actor, now)" by (cases r)
  show "dup_inv (snd (answer_proposal r d))" by (rule dup_inv_answer [OF inv])
  show "fst (answer_proposal r d) = (valid_answer r \<and> proposal_state_of (fst r) d = Some DupProposed)"
    using answered_accepted_iff [OF inv] by (simp add: r)
  show "fst (answer_proposal r d) \<Longrightarrow>
      proposal_state_of (fst r) (snd (answer_proposal r d)) = Some (decision_state (fst (snd r)))"
    by (simp add: r proposal_state_after_answer [OF inv])
  show "k \<noteq> fst r \<Longrightarrow> proposal_state_of k (snd (answer_proposal r d)) = proposal_state_of k d"
    by (simp add: r proposal_state_after_answer [OF inv])
  show "\<not> fst (answer_proposal r d) \<Longrightarrow>
      proposal_state_of k (snd (answer_proposal r d)) = proposal_state_of k d"
    by (simp add: r proposal_state_after_answer [OF inv])
qed simp

section \<open>Properties\<close>

definition sample_proposal :: "rowid \<Rightarrow> rowid \<Rightarrow> rowid \<Rightarrow> proposal_state \<Rightarrow> rowid option \<Rightarrow> proposal_row" where
  "sample_proposal k l r st c = \<lparr>dp_id = k, dp_left_task_id = l, dp_right_task_id = r,
     dp_left_task_version = 1, dp_right_task_version = 1, dp_basis = ''same ask'',
     dp_detector = ''words'', dp_state = st, dp_created_at = 3, dp_updated_at = 3,
     dp_settled_at = (if st = DupProposed then None else Some 4), dp_card_id = c\<rparr>"

text \<open>A rejected proposal that went out on card 7, and an unanswered one.\<close>

definition sample_proposals :: db where
  "sample_proposals = sample_ledger\<lparr>
     proposals := [sample_proposal 1 1 2 DupRejected (Some 7), sample_proposal 2 2 3 DupProposed None],
     proposal_events := [proposal_event_row 1 PevProposed ''words'' None 3,
       proposal_event_row 2 PevProposed ''words'' None 3,
       proposal_event_row 1 PevRejected ''ada'' None 4]\<rparr>"

lemma sample_proposals_ok: "ledger_inv sample_proposals" "dup_inv sample_proposals"
  by code_simp+

text \<open>Whatever detectors, readers and cards do, in any order, the proposal table stays sound:
  ids are unique, a pair is stored smaller id first, settled rows and only they are dated, a
  pair has at most one proposal that has not expired, and every proposal is in the state of its
  last event.\<close>

lemma proposals_stay_consistent:
  assumes "ledger_inv d" and "dup_inv d"
  shows "dup_inv (dup_run ops d)
    \<and> (\<forall>p \<in> set (proposals (dup_run ops d)). \<forall>q \<in> set (proposals (dup_run ops d)).
        dp_state p \<noteq> DupSuperseded \<and> dp_state q \<noteq> DupSuperseded \<and> pair_of p = pair_of q
        \<longrightarrow> dp_id p = dp_id q)
    \<and> (\<forall>p \<in> set (proposals (dup_run ops d)). logged_state (dp_id p) (dup_run ops d) = Some (dp_state p))"
proof -
  have "dup_inv (dup_run ops d)" using dup_run_inv [of d ops] assms by simp
  then show ?thesis unfolding dup_inv_def list_all_iff alive_def by blast
qed

theorem proposals_stay_consistent_witness:
  "dup_inv (dup_run [DupReopen 1 ''ada'' 9, DupSettle 2 Confirmed ''ada'' 10] sample_proposals)"
  using proposals_stay_consistent [OF sample_proposals_ok] by blast

text \<open>What a proposal compares is fixed when it is recorded: after any requests its row is still
  there with the same pair, task versions, basis, detector and creation time, and a proposal
  that expired never changes again.\<close>

lemma proposals_are_append_only:
  assumes "ledger_inv d" and "dup_inv d" and "p \<in> set (proposals d)"
  shows "\<exists>p' \<in> set (proposals (dup_run ops d)). dp_id p' = dp_id p \<and> dp_shown p' = dp_shown p
    \<and> (dp_state p = DupSuperseded \<longrightarrow> p' = p)"
  using proposal_rows.run_evolves [OF conjI [OF assms(1,2)] assms(3), of ops] dp_evolvesD(1,2,5)
  unfolding dup_run_def alive_def by blast

theorem proposals_are_append_only_witness:
  "\<exists>p' \<in> set (proposals (dup_run [DupReopen 1 ''ada'' 9] sample_proposals)).
    dp_id p' = dp_id (sample_proposal 1 1 2 DupRejected (Some 7))
    \<and> dp_shown p' = dp_shown (sample_proposal 1 1 2 DupRejected (Some 7))
    \<and> (dp_state (sample_proposal 1 1 2 DupRejected (Some 7)) = DupSuperseded
        \<longrightarrow> p' = sample_proposal 1 1 2 DupRejected (Some 7))"
  by (rule proposals_are_append_only [OF sample_proposals_ok]) (simp add: sample_proposals_def)

text \<open>A pair the table already carries (waiting, confirmed or rejected) is not proposed again: no
  proposal call for that pair, in either order of the ids, from any detector, with any basis,
  changes the proposals or their events; the call raises, is refused, or answers with the row
  that is there.\<close>

lemma carried_pair_is_not_proposed_again:
  assumes "dup_inv d" and "p \<in> set (proposals d)" and "dp_state p \<noteq> DupSuperseded"
    and "pair_of p = (min (dq_task_a q) (dq_task_b q), max (dq_task_a q) (dq_task_b q))"
  shows "(\<exists>x. dup_propose q now d = Inl x)
    \<or> (\<exists>r d'. dup_propose q now d = Inr (r, d') \<and> proposals d' = proposals d
        \<and> proposal_events d' = proposal_events d
        \<and> (du_disposition r = DupRefused \<or> (du_disposition r = DupUnchanged \<and> du_proposal_id r = Some (dp_id p))))"
proof -
  obtain l r where lr: "min (dq_task_a q) (dq_task_b q) = l" "max (dq_task_a q) (dq_task_b q) = r"
    by blast
  have "alive_pair l r p" using assms(3,4) by (simp add: lr alive_pair_def pair_of_def)
  then obtain f where f: "List.find (alive_pair l r) (proposals d) = Some f"
    using assms(2) by (cases "List.find (alive_pair l r) (proposals d)") (auto simp: find_None_iff)
  then have "f \<in> set (proposals d)" "alive f" "alive p" "pair_of f = pair_of p"
    using find_SomeD [OF f] assms(3,4) by (auto simp: lr alive_pair_def alive_def pair_of_def)
  then have id: "dp_id f = dp_id p"
    using assms(1,2) unfolding dup_inv_def list_all_iff by blast
  show ?thesis
    by (cases "dq_task_a q < 1"; cases "dq_task_b q < 1";
        cases "dup_bounded (dq_basis q) ''proposal basis'' DUP_MAX_BASIS";
        cases "dup_bounded (dq_detector q) ''detector'' DUP_MAX_DETECTOR"; cases "routes_of (dq_routes q)";
        cases "pair_rows l r d")
      (simp_all add: dup_propose_def dup_identifier_def lr f id dup_refuse_def Let_def split_beta)
qed

theorem carried_pair_is_not_proposed_again_witness:
  "(\<exists>x. dup_propose \<lparr>dq_task_a = 2, dq_task_b = 1, dq_basis = ''again'', dq_detector = ''owner'',
        dq_strict_owner = False, dq_routes = [''owner'']\<rparr> 9 sample_proposals = Inl x)
    \<or> (\<exists>r d'. dup_propose \<lparr>dq_task_a = 2, dq_task_b = 1, dq_basis = ''again'', dq_detector = ''owner'',
        dq_strict_owner = False, dq_routes = [''owner'']\<rparr> 9 sample_proposals = Inr (r, d')
        \<and> proposals d' = proposals sample_proposals
        \<and> proposal_events d' = proposal_events sample_proposals
        \<and> (du_disposition r = DupRefused \<or> (du_disposition r = DupUnchanged
            \<and> du_proposal_id r = Some (dp_id (sample_proposal 1 1 2 DupRejected (Some 7))))))"
  by (rule carried_pair_is_not_proposed_again [OF sample_proposals_ok(2)])
    (simp_all add: sample_proposals_def sample_proposal_def pair_of_def)

text \<open>A proposal is answered once.  Among any answers, the first one accepted for a proposal is
  the state the table keeps, and every other answer for it writes nothing.\<close>

lemma proposal_first_answer_wins:
  assumes "dup_inv d" and "m < length reqs" and "fst (run_ops answer_proposal reqs d) ! m"
  shows "proposal_state_of (fst (reqs ! m)) (snd (run_ops answer_proposal reqs d))
      = Some (decision_state (fst (snd (reqs ! m))))
    \<and> (\<forall>n < length reqs. n \<noteq> m \<longrightarrow> fst (reqs ! n) = fst (reqs ! m)
        \<longrightarrow> \<not> fst (run_ops answer_proposal reqs d) ! n)"
  using assms by (rule proposal_answers.first_answer_wins)

theorem proposal_first_answer_wins_witness:
  "proposal_state_of 2 (snd (run_ops answer_proposal
      [(2, Confirmed, ''ada'', 11), (2, Rejected, ''ada'', 12)] sample_proposals)) = Some DupConfirmed"
proof -
  have "dup_bounded ''ada'' ''actor'' DUP_MAX_ACTOR = Inr ''ada''" by code_simp
  moreover have "proposal_state_of 2 sample_proposals = Some DupProposed"
    by (simp add: proposal_state_of_def sample_proposals_def sample_proposal_def)
  ultimately have "fst (run_ops answer_proposal [(2, Confirmed, ''ada'', 11), (2, Rejected, ''ada'', 12)]
      sample_proposals) ! 0"
    by (simp add: answered_accepted_iff [OF sample_proposals_ok(2)] valid_answer_def)
  from proposal_first_answer_wins [OF sample_proposals_ok(2) _ this] show ?thesis by simp
qed

text \<open>A rejected proposal that is reopened keeps the card it was answered on, unlike a
  confirmed one.  It is waiting again, but no card can take it and it cannot expire: binding
  and expiry both require an empty card column.\<close>

lemma reopened_rejection_keeps_its_card:
  assumes "dup_inv d" and "row_of dp_id k (proposals d) = Some p" and "dp_state p = DupRejected"
    and "dp_card_id p = Some c" and "dup_reopen k actor now d = Inr (True, d')"
  shows "proposal_state_of k d' = Some DupProposed
    \<and> (\<forall>c' t. 1 \<le> c' \<longrightarrow> dup_bind k c' t d' = Inr (False, d'))
    \<and> (\<forall>a r t. \<not> (\<exists>d2. dup_supersede k a r t d' = Inr (True, d2)))"
proof -
  let ?f = "\<lambda>p. p\<lparr>dp_state := DupProposed, dp_updated_at := now, dp_settled_at := None\<rparr>"
  have uniq: "unique_key dp_id (proposals d)" using assms(1) by (simp add: dup_inv_def)
  have k: "1 \<le> k"
    using find_SomeD [OF assms(2)] assms(1) by (auto simp: dup_inv_def list_all_iff proposal_check_def)
  obtain e where d': "d' = d\<lparr>proposals := update_where (\<lambda>p. dp_id p = k \<and> dp_state p = DupRejected) ?f
      (proposals d), proposal_events := proposal_events d @ [e]\<rparr>"
    using assms(2,3,5) k
    by (auto simp: dup_reopen_def dup_identifier_def rbind_Inr_iff dup_write_unique [OF uniq])
  have id: "dp_id p = k" using assms(2) by (rule row_of_key)
  then have row: "row_of dp_id k (proposals d') = Some (?f p)"
    using assms(2,3) by (simp add: d' find_update_where)
  have uniq': "unique_key dp_id (proposals d')" using uniq by (simp add: d' unique_key_update)
  have none: "\<not> (dp_id q = k \<and> dp_state q = DupProposed \<and> dp_card_id q = None)"
    if "q \<in> set (proposals d')" for q
    using row_of_unique [OF uniq', of k q] that row assms(4) by auto
  have count: "rowcount (\<lambda>q. dp_id q = k \<and> dp_state q = DupProposed \<and> dp_card_id q = None) (proposals d') = 0"
    using none by (auto simp: rowcount_def filter_empty_conv)
  have same: "update_where (\<lambda>q. dp_id q = k \<and> dp_state q = DupProposed \<and> dp_card_id q = None) g
      (proposals d') = proposals d'" for g
    using none by (rule update_where_none)
  have bind: "dup_bind k c' t d' = Inr (False, d')" if "1 \<le> c'" for c' t
    using that k count same by (simp add: dup_bind_def dup_identifier_def Let_def)
  have expire: "dup_supersede k a r t d' \<noteq> Inr (True, d2)" for a r t d2
    using k count
    by (cases "dup_bounded a ''actor'' DUP_MAX_ACTOR"; cases "dup_bounded r ''reason'' DUP_MAX_REASON")
      (simp_all add: dup_supersede_def dup_identifier_def dup_write_def Let_def)
  have "proposal_state_of k d' = Some DupProposed" using row by (simp add: proposal_state_of_def)
  with bind expire show ?thesis by blast
qed

theorem reopened_rejection_keeps_its_card_witness:
  "\<exists>d'. dup_reopen 1 ''ada'' 9 sample_proposals = Inr (True, d')
    \<and> proposal_state_of 1 d' = Some DupProposed \<and> dup_bind 1 8 10 d' = Inr (False, d')"
proof -
  have row: "row_of dp_id 1 (proposals sample_proposals) = Some (sample_proposal 1 1 2 DupRejected (Some 7))"
    by (simp add: sample_proposals_def sample_proposal_def)
  have "dup_bounded ''ada'' ''actor'' DUP_MAX_ACTOR = Inr ''ada''" by code_simp
  then obtain d' where d': "dup_reopen 1 ''ada'' 9 sample_proposals = Inr (True, d')"
    using row sample_proposals_ok(2)
    by (simp add: dup_reopen_def dup_identifier_def dup_write_unique dup_inv_def sample_proposal_def)
  have "proposal_state_of 1 d' = Some DupProposed \<and> dup_bind 1 8 10 d' = Inr (False, d')"
    using reopened_rejection_keeps_its_card [OF sample_proposals_ok(2) row _ _ d', of 7]
    by (simp add: sample_proposal_def)
  with d' show ?thesis by blast
qed

end
