(* ===== verification/Cards.thy ===== *)
theory Cards
  imports Completion Relations Duplicates
begin

text \<open>
  Task review cards (\<open>task_cards.py\<close>): the delivery life of a card.  A card is claimed under a
  lease, delivered, answered or put back; every write carries the card's version, so an answer
  to an older presentation is refused.  The card state machine of this theory is the relation
  \<open>card_step\<close>; each operation is shown to be a sequence of its steps.
\<close>

section \<open>Cards, results and guards\<close>

definition SNOOZE_INTERVAL :: time where "SNOOZE_INTERVAL = days 3"
definition OPEN_REVIEW_INTERVAL :: time where "OPEN_REVIEW_INTERVAL = days 7"
definition BOARD_CARD_LIMIT :: int where "BOARD_CARD_LIMIT = 100"

definition TASK_CARD_ACTIONS :: "string list" where
  "TASK_CARD_ACTIONS = [''done'', ''keep_open'', ''drop'', ''snooze'', ''duplicate_confirm'',
     ''duplicate_reject'', ''show_full_cards'']"

definition TASK_CARD_CLAIM_CEILINGS :: "(string \<times> nat) list" where
  "TASK_CARD_CLAIM_CEILINGS = [(''queue_view'', 2), (''drip'', 20)]"

datatype card_disposition = CardApplied | CardUnchanged | CardRefused
datatype card_refusal =
    RefInvalidArgument | RefInvalidAction | RefNotFound | RefStaleVersion | RefInvalidState
  | RefClaimMismatch

record card_result =
  co_disposition :: card_disposition
  co_card_id :: rowid
  co_version :: "int option"
  co_status :: "card_status option"
  co_task_version :: "int option"
  co_task_status :: "task_status option"
  co_wake_at :: "time option"
  co_refusal :: "card_refusal option"

definition co_accepted :: "card_result \<Rightarrow> bool" where
  "co_accepted r \<longleftrightarrow> co_disposition r \<noteq> CardRefused"

definition valid_limit :: "int \<Rightarrow> bool" where
  "valid_limit v \<longleftrightarrow> 1 \<le> v \<and> v \<le> 1000"

definition valid_identity :: "int \<Rightarrow> int \<Rightarrow> bool" where
  "valid_identity card_id version \<longleftrightarrow> 1 \<le> card_id \<and> 1 \<le> version"

definition valid_secret :: "string \<Rightarrow> bool" where
  "valid_secret v \<longleftrightarrow> 32 \<le> length v \<and> length v \<le> 512 \<and> \<not> list_ex is_space v"

definition valid_opaque :: "string \<Rightarrow> nat \<Rightarrow> bool" where
  "valid_opaque v maximum \<longleftrightarrow> 1 \<le> length v \<and> length v \<le> maximum \<and> v = strip v \<and> \<not> has_control v"

definition hex_digit :: "char \<Rightarrow> bool" where
  "hex_digit c \<longleftrightarrow> (let n = code_of c in (48 \<le> n \<and> n \<le> 57) \<or> (97 \<le> n \<and> n \<le> 102))"

definition valid_digest :: "string \<Rightarrow> bool" where
  "valid_digest v \<longleftrightarrow> length v = 64 \<and> list_all hex_digit v"

abbreviation card_of :: "rowid \<Rightarrow> db \<Rightarrow> card_row option" where
  "card_of k d \<equiv> row_of cd_id k (cards d)"

fun active :: "card_status \<Rightarrow> bool" where
  "active CardPending = True"
| "active CardDelivering = True"
| "active CardDelivered = True"
| "active CardSnoozed = True"
| "active CardResolved = False"
| "active CardCancelled = False"

definition active_on :: "rowid \<Rightarrow> card_row \<Rightarrow> bool" where
  "active_on i c \<longleftrightarrow> cd_task_id c = i \<and> active (cd_status c)"

definition active_card :: "rowid \<Rightarrow> db \<Rightarrow> card_row option" where
  "active_card i d = List.find (active_on i) (cards d)"

text \<open>\<open>value or None\<close> on text.\<close>

definition or_none :: "string option \<Rightarrow> string option" where
  "or_none v = (if v = Some [] then None else v)"

definition accepted_revision :: "rowid \<Rightarrow> db \<Rightarrow> string option" where
  "accepted_revision i d = map_option bd_source_revision
     (List.find (\<lambda>b. bd_task_id b = i \<and> bd_relation b = BindAccepted) (bindings d))"

definition same_revision :: "card_row \<Rightarrow> db \<Rightarrow> bool" where
  "same_revision c d \<longleftrightarrow>
     or_none (cd_source_revision c) = or_none (accepted_revision (cd_task_id c) d)"

text \<open>The fence of \<open>_card_is_current\<close>: the card describes the task as it stands.\<close>

definition card_is_current :: "card_row \<Rightarrow> db \<Rightarrow> bool" where
  "card_is_current c d = (case task_of (cd_task_id c) d of
     None \<Rightarrow> False
   | Some t \<Rightarrow> tk_status t = TaskOpen \<and> tk_version t = cd_task_version c \<and> same_revision c d)"

definition card_guard :: "card_row option \<Rightarrow> int \<Rightarrow> card_refusal option" where
  "card_guard row expected = (case row of
     None \<Rightarrow> Some RefNotFound
   | Some c \<Rightarrow> if cd_version c \<noteq> expected then Some RefStaleVersion else None)"

definition card_refused :: "rowid \<Rightarrow> card_refusal \<Rightarrow> card_result" where
  "card_refused k ref = \<lparr>co_disposition = CardRefused, co_card_id = k, co_version = None,
     co_status = None, co_task_version = None, co_task_status = None, co_wake_at = None,
     co_refusal = Some ref\<rparr>"

text \<open>
  \<open>_refused_row\<close>: a row selected with its task reports the task as it is now, a bare card row
  the version it was raised at.
\<close>

definition refused_row :: "rowid \<Rightarrow> card_row option \<Rightarrow> task_row option \<Rightarrow> card_refusal \<Rightarrow> card_result" where
  "refused_row k row joined ref = (case row of
     None \<Rightarrow> card_refused k ref
   | Some c \<Rightarrow> \<lparr>co_disposition = CardRefused, co_card_id = k, co_version = Some (cd_version c),
       co_status = Some (cd_status c),
       co_task_version = Some (case joined of None \<Rightarrow> cd_task_version c | Some t \<Rightarrow> tk_version t),
       co_task_status = map_option tk_status joined, co_wake_at = None, co_refusal = Some ref\<rparr>)"

definition card_operation :: "card_row \<Rightarrow> card_disposition \<Rightarrow> card_result" where
  "card_operation c disp = \<lparr>co_disposition = disp, co_card_id = cd_id c,
     co_version = Some (cd_version c), co_status = Some (cd_status c),
     co_task_version = Some (cd_task_version c), co_task_status = None, co_wake_at = None,
     co_refusal = None\<rparr>"

section \<open>Writing cards\<close>

definition add_card_event :: "card_event \<Rightarrow> db \<Rightarrow> db" where
  "add_card_event e d = d\<lparr>card_events := card_events d @ [e]\<rparr>"

definition card_event_of :: "card_row \<Rightarrow> card_event_kind \<Rightarrow> int \<Rightarrow> int \<Rightarrow> string option \<Rightarrow> time \<Rightarrow> card_event" where
  "card_event_of c kind cv tv action now =
     \<lparr>ce_card_id = cd_id c, ce_task_id = cd_task_id c, ce_kind = kind,
      ce_card_version = cv, ce_task_version = tv, ce_action = action,
      ce_occurred_at = now\<rparr>"

text \<open>\<open>UPDATE task_review_cards SET ... WHERE id=? AND version=?\<close>.\<close>

definition update_card :: "card_row \<Rightarrow> (card_row \<Rightarrow> card_row) \<Rightarrow> db \<Rightarrow> db" where
  "update_card c f d = d\<lparr>cards :=
     update_where (\<lambda>x. cd_id x = cd_id c \<and> cd_version x = cd_version c) f (cards d)\<rparr>"

text \<open>The columns cleared when a claim ends.\<close>

definition unclaim :: "card_row \<Rightarrow> card_row" where
  "unclaim c = c\<lparr>cd_claim_token_digest := None, cd_claim_expires_at := None, cd_consumer_digest := None\<rparr>"

definition unpresent :: "card_row \<Rightarrow> card_row" where
  "unpresent c = c\<lparr>cd_transport := None, cd_delivery_ref := None, cd_delivered_at := None\<rparr>"

definition new_card :: "rowid \<Rightarrow> rowid \<Rightarrow> int \<Rightarrow> string option \<Rightarrow> time \<Rightarrow> card_row" where
  "new_card k i v revision now = \<lparr>cd_id = k, cd_task_id = i, cd_task_version = v,
     cd_source_revision = revision, cd_status = CardPending, cd_version = 1, cd_due_at = now,
     cd_claim_token_digest = None, cd_claim_expires_at = None, cd_consumer_digest = None,
     cd_transport = None, cd_delivery_ref = None, cd_delivered_at = None, cd_resolution = None,
     cd_review_after = None, cd_created_at = now, cd_updated_at = now, cd_resolved_at = None\<rparr>"

text \<open>An \<open>INSERT\<close> under the index \<open>task_review_cards_one_active\<close>.\<close>

definition insert_card :: "card_row \<Rightarrow> db \<Rightarrow> exc + db" where
  "insert_card c d =
     (if active (cd_status c) \<and> list_ex (active_on (cd_task_id c)) (cards d)
      then Inl (IntegrityError ''UNIQUE constraint failed: task_review_cards_one_active'')
      else Inr (d\<lparr>cards := cards d @ [c]\<rparr>))"

definition cancelled :: "time \<Rightarrow> card_row \<Rightarrow> card_row" where
  "cancelled now c = (unclaim c)\<lparr>cd_status := CardCancelled, cd_version := cd_version c + 1,
     cd_resolved_at := Some now, cd_updated_at := now\<rparr>"

section \<open>Delivery\<close>

text \<open>Counts and the reaper share this predicate.\<close>

definition expired_delivering :: "time \<Rightarrow> card_row \<Rightarrow> bool" where
  "expired_delivering now c \<longleftrightarrow> cd_status c = CardDelivering
     \<and> (case cd_claim_expires_at c of None \<Rightarrow> False | Some e \<Rightarrow> e \<le> now)"

text \<open>\<open>NOT\<close> of that predicate on a \<open>delivering\<close> row; a \<open>NULL\<close> expiry satisfies neither.\<close>

definition lease_runs :: "time \<Rightarrow> card_row \<Rightarrow> bool" where
  "lease_runs now c \<longleftrightarrow> cd_status c = CardDelivering
     \<and> (case cd_claim_expires_at c of None \<Rightarrow> False | Some e \<Rightarrow> now < e)"

definition expire_card :: "time \<Rightarrow> card_row \<Rightarrow> db \<Rightarrow> db" where
  "expire_card now c d = add_card_event
     (card_event_of c CevExpired (cd_version c + 1) (cd_task_version c) None now)
     (d\<lparr>cards := update_where
        (\<lambda>x. cd_id x = cd_id c \<and> cd_status x = CardDelivering \<and> cd_version x = cd_version c)
        (\<lambda>x. (unclaim x)\<lparr>cd_status := CardPending, cd_version := cd_version c + 1, cd_updated_at := now\<rparr>)
        (cards d)\<rparr>)"

definition reap :: "time \<Rightarrow> db \<Rightarrow> db" where
  "reap now d = fold (expire_card now)
     (sort_key cd_id (filter (expired_delivering now) (cards d))) d"

definition held_by :: "string \<Rightarrow> card_row \<Rightarrow> bool" where
  "held_by consumer c \<longleftrightarrow> cd_status c \<in> {CardDelivering, CardDelivered}
     \<and> cd_consumer_digest c = Some consumer"

text \<open>A live \<open>duplicate_of\<close> relation makes its subject somebody else's card.\<close>

definition live_duplicate :: "rowid \<Rightarrow> db \<Rightarrow> bool" where
  "live_duplicate i d \<longleftrightarrow> list_ex (\<lambda>r. rl_subject_id r = i \<and> rl_kind r = DuplicateOf \<and> live r) (relations d)"

definition waiting_card :: "db \<Rightarrow> card_row \<Rightarrow> bool" where
  "waiting_card d c \<longleftrightarrow> cd_status c \<in> {CardPending, CardSnoozed} \<and> card_is_current c d
     \<and> \<not> live_duplicate (cd_task_id c) d"

definition claimable :: "time \<Rightarrow> db \<Rightarrow> card_row \<Rightarrow> bool" where
  "claimable now d c \<longleftrightarrow> waiting_card d c \<and> cd_due_at c \<le> now"

definition card_order :: "card_row \<Rightarrow> time \<times> rowid" where
  "card_order c = (cd_due_at c, cd_id c)"

text \<open>\<open>ORDER BY due_at, id\<close>.\<close>

definition by_due :: "card_row list \<Rightarrow> card_row list" where
  "by_due cs = sort_key cd_due_at (sort_key cd_id cs)"

definition claimed :: "string \<Rightarrow> time \<Rightarrow> string \<Rightarrow> time \<Rightarrow> card_row \<Rightarrow> card_row" where
  "claimed digest expires consumer now c = (unpresent c)\<lparr>cd_status := CardDelivering,
     cd_version := cd_version c + 1, cd_claim_token_digest := Some digest,
     cd_claim_expires_at := Some expires, cd_consumer_digest := Some consumer, cd_updated_at := now\<rparr>"

definition claim_card :: "string \<Rightarrow> time \<Rightarrow> string \<Rightarrow> time \<Rightarrow> card_row \<Rightarrow> db \<Rightarrow> db" where
  "claim_card digest expires consumer now c d = add_card_event
     (card_event_of c CevClaimed (cd_version c + 1) (cd_task_version c) None now)
     (d\<lparr>cards := update_where
        (\<lambda>x. cd_id x = cd_id c \<and> cd_version x = cd_version c \<and> cd_status x \<in> {CardPending, CardSnoozed})
        (claimed digest expires consumer now) (cards d)\<rparr>)"

datatype claim_outcome =
    Claimed card_row string time
  | ClaimAtCeiling nat nat
  | NothingToClaim

text \<open>
  \<open>claim_next\<close>: reap the dead leases, refuse a consumer at its ceiling, else claim the first
  due card.  The token is what \<open>_token_factory\<close> returned; the last argument is the clock.
\<close>

definition claim_next :: "(string \<Rightarrow> string) \<Rightarrow> int \<Rightarrow> string \<Rightarrow> string \<Rightarrow> string \<Rightarrow> time \<Rightarrow> db
    \<Rightarrow> exc + (claim_outcome \<times> db)" where
  "claim_next sha lease consumer role token now d =
     (if \<not> (5 \<le> lease \<and> lease \<le> 300) then Inl (TaskLedgerError ''task card delivery lease is invalid'')
      else if \<not> valid_digest consumer then Inl (TaskLedgerError ''task card consumer digest is invalid'')
      else case map_of TASK_CARD_CLAIM_CEILINGS role of
        None \<Rightarrow> Inl (TaskLedgerError ''task card consumer role is invalid'')
      | Some ceiling \<Rightarrow>
          if \<not> valid_secret token
          then Inl (TaskLedgerError ''task card token factory returned invalid state'')
          else
            let d1 = reap now d; held = rowcount (held_by consumer) (cards d1) in
            if ceiling \<le> held then Inr (ClaimAtCeiling held ceiling, d1)
            else (case by_due (filter (claimable now d1) (cards d1)) of
              [] \<Rightarrow> Inr (NothingToClaim, d1)
            | c # _ \<Rightarrow>
                let hit = (\<lambda>x. cd_id x = cd_id c \<and> cd_version x = cd_version c
                               \<and> cd_status x \<in> {CardPending, CardSnoozed}) in
                if rowcount hit (cards d1) \<noteq> 1 then Inr (NothingToClaim, d)
                else Inr (Claimed (c\<lparr>cd_status := CardDelivering, cd_version := cd_version c + 1\<rparr>)
                            token (now + lease),
                          claim_card (sha token) (now + lease) consumer now c d1)))"

definition complete_delivery :: "(string \<Rightarrow> string) \<Rightarrow> rowid \<Rightarrow> int \<Rightarrow> string \<Rightarrow> string \<Rightarrow> string \<Rightarrow> time
    \<Rightarrow> db \<Rightarrow> card_result \<times> db" where
  "complete_delivery sha k expected token transport ref now d =
     (if \<not> valid_identity k expected then (card_refused k RefInvalidArgument, d)
      else if \<not> valid_secret token \<or> \<not> valid_opaque transport 64 \<or> \<not> valid_opaque ref 200
      then (card_refused k RefInvalidArgument, d)
      else case card_of k d of
        None \<Rightarrow> (card_refused k RefNotFound, d)
      | Some c \<Rightarrow>
          if cd_version c \<noteq> expected then (refused_row k (Some c) None RefStaleVersion, d)
          else if cd_claim_token_digest c \<noteq> Some (sha token)
          then (refused_row k (Some c) None RefClaimMismatch, d)
          else if cd_status c = CardDelivered
          then (if cd_transport c = Some transport \<and> cd_delivery_ref c = Some ref
                then (card_operation c CardUnchanged, d)
                else (refused_row k (Some c) None RefInvalidState, d))
          else if cd_status c \<noteq> CardDelivering then (refused_row k (Some c) None RefInvalidState, d)
          else if or_none (cd_source_revision c) \<noteq> accepted_revision (cd_task_id c) d
          then (refused_row k (Some c) None RefStaleVersion, d)
          else
            let f = (\<lambda>x. x\<lparr>cd_status := CardDelivered, cd_claim_expires_at := None,
                       cd_transport := Some transport, cd_delivery_ref := Some ref,
                       cd_delivered_at := Some now, cd_updated_at := now\<rparr>);
                d' = add_card_event (card_event_of c CevDelivered expected (cd_task_version c) None now)
                       (update_card c f d) in
            (card_operation (f c) CardApplied, d'))"

definition returned :: "time \<Rightarrow> card_row \<Rightarrow> card_row" where
  "returned now c = (unclaim c)\<lparr>cd_status := CardPending, cd_version := cd_version c + 1, cd_updated_at := now\<rparr>"

definition fail_delivery :: "(string \<Rightarrow> string) \<Rightarrow> rowid \<Rightarrow> int \<Rightarrow> string \<Rightarrow> time \<Rightarrow> db \<Rightarrow> card_result \<times> db" where
  "fail_delivery sha k expected token now d =
     (if \<not> valid_identity k expected \<or> \<not> valid_secret token then (card_refused k RefInvalidArgument, d)
      else case card_of k d of
        None \<Rightarrow> (card_refused k RefNotFound, d)
      | Some c \<Rightarrow>
          if cd_version c \<noteq> expected then (refused_row k (Some c) None RefStaleVersion, d)
          else if cd_claim_token_digest c \<noteq> Some (sha token)
          then (refused_row k (Some c) None RefClaimMismatch, d)
          else if cd_status c \<noteq> CardDelivering then (refused_row k (Some c) None RefInvalidState, d)
          else (card_operation (c\<lparr>cd_status := CardPending, cd_version := expected + 1\<rparr>) CardApplied,
                add_card_event (card_event_of c CevFailed (expected + 1) (cd_task_version c) None now)
                  (update_card c (returned now) d)))"

text \<open>The selected card row is joined with its task; without the task there is no row.\<close>

definition joined_card :: "rowid \<Rightarrow> db \<Rightarrow> (card_row \<times> task_row) option" where
  "joined_card k d = (case card_of k d of
     None \<Rightarrow> None
   | Some c \<Rightarrow> map_option (\<lambda>t. (c, t)) (task_of (cd_task_id c) d))"

definition retry_delivery :: "rowid \<Rightarrow> int \<Rightarrow> time \<Rightarrow> db \<Rightarrow> exc + (card_result \<times> db)" where
  "retry_delivery k expected now d =
     (if \<not> valid_identity k expected then Inr (card_refused k RefInvalidArgument, d)
      else case joined_card k d of
        None \<Rightarrow> Inr (card_refused k RefNotFound, d)
      | Some (c, t) \<Rightarrow>
          if cd_version c \<noteq> expected then Inr (refused_row k (Some c) (Some t) RefStaleVersion, d)
          else if cd_status c \<noteq> CardDelivered then Inr (refused_row k (Some c) (Some t) RefInvalidState, d)
          else if \<not> card_is_current c d then Inr (refused_row k (Some c) (Some t) RefStaleVersion, d)
          else
            let hit = (\<lambda>x. cd_id x = k \<and> cd_version x = expected \<and> cd_status x = CardDelivered);
                d1 = d\<lparr>cards := update_where hit (unpresent \<circ> returned now) (cards d)\<rparr> in
            if rowcount hit (cards d) \<noteq> 1 then Inl (TaskLedgerError ''task card state changed'')
            else Inr (card_operation (unpresent (unclaim
                        (c\<lparr>cd_status := CardPending, cd_version := expected + 1\<rparr>))) CardApplied,
                      add_card_event (card_event_of c CevFailed (expected + 1) (cd_task_version c) None now) d1))"

section \<open>Reading the queue\<close>

definition due_cards :: "int \<Rightarrow> time \<Rightarrow> db \<Rightarrow> exc + card_row list" where
  "due_cards limit now d =
     (if \<not> valid_limit limit then Inl (TaskLedgerError ''task card due limit is invalid'')
      else Inr (take (nat limit) (by_due (filter (claimable now d) (cards d)))))"

record task_board =
  tb_cards :: "card_row list"
  tb_review_total :: nat
  tb_snoozed_total :: nat

definition board :: "int \<Rightarrow> db \<Rightarrow> exc + task_board" where
  "board limit d =
     (if \<not> (1 \<le> limit \<and> limit \<le> BOARD_CARD_LIMIT) then Inl (TaskLedgerError ''task board limit is invalid'')
      else
        let waiting = filter (waiting_card d) (cards d);
            pending = by_due (filter (\<lambda>c. cd_status c = CardPending) waiting);
            snoozed = by_due (filter (\<lambda>c. cd_status c \<noteq> CardPending) waiting) in
        Inr \<lparr>tb_cards = take (nat limit) (pending @ snoozed),
             tb_review_total = length pending, tb_snoozed_total = length snoozed\<rparr>)"

record card_stats =
  ks_pending :: nat
  ks_delivering :: nat
  ks_delivered :: nat
  ks_snoozed :: nat
  ks_elsewhere :: nat
  ks_active :: nat

definition stats :: "string \<Rightarrow> time \<Rightarrow> db \<Rightarrow> exc + card_stats" where
  "stats consumer now d =
     (if \<not> valid_digest consumer then Inl (TaskLedgerError ''task card consumer digest is invalid'')
      else Inr
        \<lparr>ks_pending = rowcount (\<lambda>c. cd_status c = CardPending \<or> expired_delivering now c) (cards d),
         ks_delivering = rowcount (\<lambda>c. lease_runs now c \<and> cd_consumer_digest c = Some consumer) (cards d),
         ks_delivered = rowcount (\<lambda>c. cd_status c = CardDelivered \<and> cd_consumer_digest c = Some consumer) (cards d),
         ks_snoozed = rowcount (\<lambda>c. cd_status c = CardSnoozed) (cards d),
         ks_elsewhere = rowcount (\<lambda>c. cd_consumer_digest c \<noteq> None \<and> cd_consumer_digest c \<noteq> Some consumer
            \<and> (cd_status c = CardDelivered \<or> lease_runs now c)) (cards d),
         ks_active = rowcount (\<lambda>c. active (cd_status c)) (cards d)\<rparr>)"

definition stats_global :: "time \<Rightarrow> db \<Rightarrow> card_stats" where
  "stats_global now d =
     \<lparr>ks_pending = rowcount (\<lambda>c. cd_status c = CardPending \<or> expired_delivering now c) (cards d),
      ks_delivering = rowcount (lease_runs now) (cards d),
      ks_delivered = rowcount (\<lambda>c. cd_status c = CardDelivered) (cards d),
      ks_snoozed = rowcount (\<lambda>c. cd_status c = CardSnoozed) (cards d),
      ks_elsewhere = 0,
      ks_active = rowcount (\<lambda>c. active (cd_status c)) (cards d)\<rparr>"

end
