(* ===== verification/CardQueue.thy ===== *)
theory CardQueue
  imports Cards
begin

text \<open>
  The scheduling half of \<open>task_cards.py\<close>: cards that no longer describe their task are
  cancelled and the question they carried goes back in the queue, waiting questions are bound to
  a card, proposals nobody can be asked any more expire, and unanswered presentations are put
  back.
\<close>

section \<open>What holds a task\<close>

definition execution_holds :: "rowid \<Rightarrow> db \<Rightarrow> bool" where
  "execution_holds i d \<longleftrightarrow> list_ex (\<lambda>w. wf_task_id w = i
     \<and> wf_status w \<notin> {WfCompleted, WfCancelled}) (workflows d)"

definition duplicate_execution_holds :: "rowid \<Rightarrow> db \<Rightarrow> bool" where
  "duplicate_execution_holds i d \<longleftrightarrow> list_ex (\<lambda>w. wf_task_id w = i
     \<and> wf_status w \<notin> {WfCompleted, WfCancelled, WfSnoozed}) (workflows d)"

definition preserved_open_withdrawal :: "rowid \<Rightarrow> db \<Rightarrow> bool" where
  "preserved_open_withdrawal i d \<longleftrightarrow> list_ex (\<lambda>b. bd_task_id b = i \<and> bd_relation b = BindAccepted
     \<and> list_ex (\<lambda>l. lc_candidate_id l = bd_candidate_id b \<and> lc_state l = LifeWithdrawn
                  \<and> lc_resolution l = ResPreservedOpen) (lifecycles d)) (bindings d)"

definition carries_proposal :: "rowid \<Rightarrow> db \<Rightarrow> bool" where
  "carries_proposal k d \<longleftrightarrow> list_ex (\<lambda>p. dp_card_id p = Some k \<and> dp_state p = DupProposed) (proposals d)"

definition card_execution_holds :: "card_row \<Rightarrow> db \<Rightarrow> bool" where
  "card_execution_holds c d = (if carries_proposal (cd_id c) d
     then duplicate_execution_holds (cd_task_id c) d else execution_holds (cd_task_id c) d)"

section \<open>Withdrawing cards\<close>

text \<open>
  The body the four withdrawals share: the card is cancelled, its questions are released, the
  event is recorded.
\<close>

definition cancel_card :: "time \<Rightarrow> card_row \<Rightarrow> db \<Rightarrow> exc + db" where
  "cancel_card now c d =
     rbind (release_evidence (cd_id c) (update_card c (cancelled now) d)) (\<lambda>(_, d1).
     rbind (dup_release_for_card (cd_id c) now d1) (\<lambda>(_, d2).
       Inr (add_card_event (card_event_of c CevCancelled (cd_version c + 1) (cd_task_version c) None now) d2)))"

definition stale :: "db \<Rightarrow> card_row \<Rightarrow> bool" where
  "stale d c \<longleftrightarrow> active (cd_status c) \<and> (case task_of (cd_task_id c) d of
     None \<Rightarrow> False
   | Some t \<Rightarrow> tk_status t \<noteq> TaskOpen \<or> tk_version t \<noteq> cd_task_version c \<or> card_execution_holds c d
       \<or> \<not> same_revision c d \<or> live_duplicate (tk_id t) d \<or> preserved_open_withdrawal (tk_id t) d)"

definition cancel_stale :: "time \<Rightarrow> db \<Rightarrow> exc + (nat \<times> db)" where
  "cancel_stale now d =
     (let rows = sort_key cd_id (filter (stale d) (cards d)) in
      rbind (each (cancel_card now) rows d) (\<lambda>d'. Inr (length rows, d')))"

definition cancel_bound_duplicate_card :: "rowid \<Rightarrow> time \<Rightarrow> db \<Rightarrow> exc + (nat \<times> db)" where
  "cancel_bound_duplicate_card k now d =
     (case card_of k d of
        Some c \<Rightarrow>
          if active (cd_status c) then
            (let hit = (\<lambda>x. cd_id x = cd_id c \<and> cd_version x = cd_version c) in
             if rowcount hit (cards d) \<noteq> 1 then Inl (TaskLedgerError ''task card state changed'')
             else rbind (cancel_card now c d) (\<lambda>d'. Inr (1, d')))
          else rbind (dup_release_for_card k now d) (\<lambda>(_, d'). Inr (0, d'))
      | None \<Rightarrow> rbind (dup_release_for_card k now d) (\<lambda>(_, d'). Inr (0, d')))"

definition cancel_duplicate_task_cards :: "rowid \<Rightarrow> rowid \<Rightarrow> time \<Rightarrow> db \<Rightarrow> exc + db" where
  "cancel_duplicate_task_cards i except now d =
     each (\<lambda>c d. if cd_id c = except then Inr d else cancel_card now c d)
       (filter (active_on i) (cards d)) d"

section \<open>Asking\<close>

text \<open>
  A fetched question: its id, the task to card, the active card of that task, and what a new
  card records.
\<close>

record question_row =
  qn_id :: rowid
  qn_task_id :: rowid
  qn_active :: "(rowid \<times> card_status) option"
  qn_task_version :: int
  qn_revision :: "string option"

definition active_ref :: "rowid \<Rightarrow> db \<Rightarrow> (rowid \<times> card_status) option" where
  "active_ref i d = map_option (\<lambda>c. (cd_id c, cd_status c)) (active_card i d)"

text \<open>A card waiting on its own schedule that has just acquired something to say.\<close>

definition touch_card :: "rowid \<Rightarrow> time \<Rightarrow> db \<Rightarrow> db" where
  "touch_card k now d = d\<lparr>cards := update_where (\<lambda>x. cd_id x = k \<and> cd_status x = CardPending)
     (\<lambda>x. x\<lparr>cd_due_at := now, cd_updated_at := now\<rparr>) (cards d)\<rparr>"

definition raise_card :: "question_row \<Rightarrow> time \<Rightarrow> db \<Rightarrow> exc + (rowid \<times> db)" where
  "raise_card q now d =
     (let c = new_card (next_id cd_id (cards d)) (qn_task_id q) (qn_task_version q) (qn_revision q) now in
      rbind (insert_card c d) (\<lambda>d1.
        Inr (cd_id c, add_card_event (card_event_of c CevScheduled 1 (qn_task_version q) None now) d1)))"

definition completion_questions :: "int \<Rightarrow> db \<Rightarrow> question_row list" where
  "completion_questions limit d = take (nat limit) (concat (map (\<lambda>e.
     case task_of (ev_task_id e) d of
       None \<Rightarrow> []
     | Some t \<Rightarrow>
         if ev_state e = EvidenceProposed \<and> ev_card_id e = None \<and> tk_status t = TaskOpen
           \<and> \<not> execution_holds (tk_id t) d \<and> \<not> preserved_open_withdrawal (tk_id t) d
         then [\<lparr>qn_id = ev_id e, qn_task_id = ev_task_id e, qn_active = active_ref (ev_task_id e) d,
                qn_task_version = tk_version t, qn_revision = accepted_revision (tk_id t) d\<rparr>]
         else [])
     (sort_key ev_id (evidence d))))"

fun ask_completion_loop :: "time \<Rightarrow> question_row list \<Rightarrow> rowid list \<Rightarrow> nat \<times> nat \<Rightarrow> db
    \<Rightarrow> exc + ((nat \<times> nat) \<times> db)" where
  "ask_completion_loop now [] seen n d = Inr (n, d)"
| "ask_completion_loop now (q # qs) seen (asked, raised) d =
     (if qn_task_id q \<in> set seen then ask_completion_loop now qs seen (asked, raised) d
      else
        let bound = (\<lambda>k r d1. rbind (bind_evidence (qn_id q) k d1) (\<lambda>(done, d2).
              if \<not> done then ask_completion_loop now qs seen (asked, r) d2
              else ask_completion_loop now qs (qn_task_id q # seen) (asked + 1, r) d2)) in
        case qn_active q of
          None \<Rightarrow> rbind (raise_card q now d) (\<lambda>(k, d1). bound k (raised + 1) d1)
        | Some (k, st) \<Rightarrow>
            if st \<noteq> CardPending then ask_completion_loop now qs seen (asked, raised) d
            else bound k raised (touch_card k now d))"

definition ask_completion_questions :: "int \<Rightarrow> time \<Rightarrow> db \<Rightarrow> exc + ((nat \<times> nat) \<times> db)" where
  "ask_completion_questions limit now d =
     ask_completion_loop now (completion_questions limit d) [] (0, 0) d"

text \<open>The task of the pair a comparison is carded on: the left one while it is open.\<close>

definition carded_left :: "proposal_row \<Rightarrow> db \<Rightarrow> bool" where
  "carded_left p d = (case task_of (dp_left_task_id p) d of
     None \<Rightarrow> False | Some t \<Rightarrow> tk_status t = TaskOpen)"

definition carded_task :: "proposal_row \<Rightarrow> db \<Rightarrow> rowid" where
  "carded_task p d = (if carded_left p d then dp_left_task_id p else dp_right_task_id p)"

definition askable_pair :: "proposal_row \<Rightarrow> db \<Rightarrow> bool" where
  "askable_pair p d = (case pair_rows (dp_left_task_id p) (dp_right_task_id p) d of
     None \<Rightarrow> False
   | Some (l, r) \<Rightarrow>
       dp_state p = DupProposed \<and> dp_card_id p = None
       \<and> \<not> duplicate_execution_holds (tk_id l) d \<and> \<not> duplicate_execution_holds (tk_id r) d
       \<and> \<not> preserved_open_withdrawal (carded_task p d) d
       \<and> tk_version l = dp_left_task_version p \<and> tk_version r = dp_right_task_version p
       \<and> (tk_status l = TaskOpen \<or> (tk_status r = TaskOpen \<and> tk_status l \<in> {TaskDone, TaskDropped})))"

definition duplicate_questions :: "int \<Rightarrow> db \<Rightarrow> question_row list" where
  "duplicate_questions limit d = take (nat limit) (map (\<lambda>p.
     let i = carded_task p d in
     \<lparr>qn_id = dp_id p, qn_task_id = i, qn_active = active_ref i d,
      qn_task_version = (if carded_left p d then dp_left_task_version p else dp_right_task_version p),
      qn_revision = accepted_revision i d\<rparr>)
     (filter (\<lambda>p. askable_pair p d) (sort_key dp_id (proposals d))))"

fun ask_duplicates_loop :: "time \<Rightarrow> question_row list \<Rightarrow> rowid list \<Rightarrow> nat \<times> nat \<Rightarrow> db
    \<Rightarrow> exc + ((nat \<times> nat) \<times> db)" where
  "ask_duplicates_loop now [] handled n d = Inr (n, d)"
| "ask_duplicates_loop now (q # qs) handled (asked, raised) d =
     (if qn_task_id q \<in> set handled then ask_duplicates_loop now qs handled (asked, raised) d
      else
        let bound = (\<lambda>k r d1. rbind (dup_bind (qn_id q) k now d1) (\<lambda>(done, d2).
              ask_duplicates_loop now qs (qn_task_id q # handled) ((if done then asked + 1 else asked), r) d2)) in
        case qn_active q of
          None \<Rightarrow> rbind (raise_card q now d) (\<lambda>(k, d1). bound k (raised + 1) d1)
        | Some (k, st) \<Rightarrow>
            if st \<noteq> CardPending then ask_duplicates_loop now qs handled (asked, raised) d
            else if carries_proposal k d
            then ask_duplicates_loop now qs (qn_task_id q # handled) (asked, raised) d
            else bound k raised (touch_card k now d))"

definition ask_duplicate_proposals :: "int \<Rightarrow> time \<Rightarrow> db \<Rightarrow> exc + ((nat \<times> nat) \<times> db)" where
  "ask_duplicate_proposals limit now d =
     ask_duplicates_loop now (duplicate_questions limit d) [] (0, 0) d"

section \<open>Expiring what cannot be asked\<close>

text \<open>Comparisons with a scalar subquery: a missing task compares as \<open>NULL\<close>.\<close>

definition task_moved :: "rowid \<Rightarrow> int \<Rightarrow> db \<Rightarrow> bool" where
  "task_moved i v d = (case task_of i d of None \<Rightarrow> False | Some t \<Rightarrow> tk_version t \<noteq> v)"

definition task_closed :: "rowid \<Rightarrow> db \<Rightarrow> bool" where
  "task_closed i d = (case task_of i d of None \<Rightarrow> False | Some t \<Rightarrow> tk_status t \<noteq> TaskOpen)"

definition unaskable :: "db \<Rightarrow> proposal_row \<Rightarrow> bool" where
  "unaskable d p \<longleftrightarrow> dp_state p = DupProposed \<and> dp_card_id p = None
     \<and> (task_moved (dp_left_task_id p) (dp_left_task_version p) d
        \<or> task_moved (dp_right_task_id p) (dp_right_task_version p) d
        \<or> (task_closed (dp_left_task_id p) d \<and> task_closed (dp_right_task_id p) d)
        \<or> live_duplicate (dp_left_task_id p) d \<or> live_duplicate (dp_right_task_id p) d
        \<or> preserved_open_withdrawal (carded_task p d) d)"

fun supersede_all :: "string \<Rightarrow> string \<Rightarrow> time \<Rightarrow> proposal_row list \<Rightarrow> nat \<Rightarrow> db \<Rightarrow> exc + (nat \<times> db)" where
  "supersede_all actor reason now [] n d = Inr (n, d)"
| "supersede_all actor reason now (p # ps) n d =
     rbind (dup_supersede (dp_id p) actor reason now d) (\<lambda>(done, d1).
       supersede_all actor reason now ps (if done then n + 1 else n) d1)"

definition resolve_unaskable_proposals :: "time \<Rightarrow> db \<Rightarrow> exc + (nat \<times> db)" where
  "resolve_unaskable_proposals now d =
     supersede_all ''duplicate-card-scheduler''
       ''task state or revision made proposal unaskable'' now (filter (unaskable d) (proposals d)) 0 d"

section \<open>The passes\<close>

record schedule_result =
  sr_disposition :: card_disposition
  sr_created :: nat
  sr_cancelled :: nat
  sr_asked :: nat
  sr_refusal :: "card_refusal option"

definition schedule_refused :: schedule_result where
  "schedule_refused = \<lparr>sr_disposition = CardRefused, sr_created = 0, sr_cancelled = 0, sr_asked = 0,
     sr_refusal = Some RefInvalidArgument\<rparr>"

definition schedule :: "int \<Rightarrow> time \<Rightarrow> db \<Rightarrow> exc + (schedule_result \<times> db)" where
  "schedule limit now d =
     (if \<not> valid_limit limit then Inr (schedule_refused, d)
      else
        rbind (cancel_stale now d) (\<lambda>(gone, d1).
        rbind (ask_completion_questions limit now d1) (\<lambda>((asked, raised), d2).
        rbind (ask_duplicate_proposals limit now d2) (\<lambda>((dup_asked, dup_raised), d3).
          let created = raised + dup_raised; all_asked = asked + dup_asked in
          Inr (\<lparr>sr_disposition = (if created \<noteq> 0 \<or> gone \<noteq> 0 \<or> all_asked \<noteq> 0 then CardApplied else CardUnchanged),
                sr_created = created, sr_cancelled = gone, sr_asked = all_asked, sr_refusal = None\<rparr>, d3)))))"

definition schedule_duplicate_proposals :: "int \<Rightarrow> time \<Rightarrow> db \<Rightarrow> exc + (schedule_result \<times> db)" where
  "schedule_duplicate_proposals limit now d =
     (if \<not> valid_limit limit then Inr (schedule_refused, d)
      else
        rbind (cancel_stale now d) (\<lambda>(gone, d1).
        rbind (resolve_unaskable_proposals now d1) (\<lambda>(superseded, d2).
        rbind (ask_duplicate_proposals limit now d2) (\<lambda>((asked, raised), d3).
          Inr (\<lparr>sr_disposition = (if gone \<noteq> 0 \<or> asked \<noteq> 0 \<or> superseded \<noteq> 0 then CardApplied else CardUnchanged),
                sr_created = raised, sr_cancelled = gone, sr_asked = asked, sr_refusal = None\<rparr>, d3)))))"

record supersede_result =
  su_matched :: nat
  su_cards_matched :: nat
  su_superseded :: nat
  su_cards_cancelled :: nat
  su_applied :: bool

fun supersede_carded :: "string \<Rightarrow> string \<Rightarrow> time \<Rightarrow> proposal_row list \<Rightarrow> nat \<times> nat \<Rightarrow> db
    \<Rightarrow> exc + ((nat \<times> nat) \<times> db)" where
  "supersede_carded actor reason now [] n d = Inr (n, d)"
| "supersede_carded actor reason now (p # ps) (gone, expired) d =
     rbind (case dp_card_id p of
         None \<Rightarrow> Inr (0, d) | Some k \<Rightarrow> cancel_bound_duplicate_card k now d) (\<lambda>(n, d1).
     rbind (dup_supersede (dp_id p) actor reason now d1) (\<lambda>(done, d2).
       supersede_carded actor reason now ps (gone + n, (if done then expired + 1 else expired)) d2))"

definition supersede_duplicate_proposals :: "string option \<Rightarrow> bool \<Rightarrow> string \<Rightarrow> string \<Rightarrow> time \<Rightarrow> db
    \<Rightarrow> exc + (supersede_result \<times> db)" where
  "supersede_duplicate_proposals detector apply_it actor reason now d =
     (if (case detector of None \<Rightarrow> False
            | Some s \<Rightarrow> strip s = [] \<or> DUP_MAX_DETECTOR < length s)
      then Inl (DuplicateProposalError ''detector is invalid'')
      else
        let rows = sort_key dp_id (filter (\<lambda>p. dp_state p = DupProposed
              \<and> (case detector of None \<Rightarrow> True | Some s \<Rightarrow> dp_detector p = s)) (proposals d));
            carded = rowcount (\<lambda>p. list_ex (\<lambda>c. dp_card_id p = Some (cd_id c) \<and> active (cd_status c)) (cards d)) rows in
        if \<not> apply_it
        then Inr (\<lparr>su_matched = length rows, su_cards_matched = carded, su_superseded = 0,
                   su_cards_cancelled = 0, su_applied = False\<rparr>, d)
        else rbind (supersede_carded actor reason now rows (0, 0) d) (\<lambda>((gone, expired), d').
          Inr (\<lparr>su_matched = length rows, su_cards_matched = carded, su_superseded = expired,
                su_cards_cancelled = gone, su_applied = True\<rparr>, d')))"

definition unanswered :: "time \<Rightarrow> card_row \<Rightarrow> bool" where
  "unanswered due c \<longleftrightarrow> cd_status c = CardDelivered
     \<and> (case cd_delivered_at c of None \<Rightarrow> False | Some t \<Rightarrow> t \<le> due)"

definition by_delivery :: "card_row list \<Rightarrow> card_row list" where
  "by_delivery cs = sort_key (\<lambda>c. case cd_delivered_at c of None \<Rightarrow> 0 | Some t \<Rightarrow> t) (sort_key cd_id cs)"

fun requeue_loop :: "time \<Rightarrow> card_row list \<Rightarrow> nat \<Rightarrow> db \<Rightarrow> exc + (nat \<times> db)" where
  "requeue_loop now [] n d = Inr (n, d)"
| "requeue_loop now (c # cs) n d =
     (if \<not> card_is_current c d then requeue_loop now cs n d
      else
        let hit = (\<lambda>x. cd_id x = cd_id c \<and> cd_version x = cd_version c \<and> cd_status x = CardDelivered) in
        if rowcount hit (cards d) \<noteq> 1 then Inl (TaskLedgerError ''task card state changed'')
        else requeue_loop now cs (n + 1)
          (add_card_event (card_event_of c CevFailed (cd_version c + 1) (cd_task_version c) None now)
            (d\<lparr>cards := update_where hit (unpresent \<circ> returned now) (cards d)\<rparr>)))"

definition requeue_unanswered :: "int \<Rightarrow> time \<Rightarrow> db \<Rightarrow> exc + (nat \<times> db)" where
  "requeue_unanswered limit now d =
     (if \<not> valid_limit limit then Inr (0, d)
      else
        rbind (cancel_stale now d) (\<lambda>(_, d1).
          requeue_loop now (take (nat limit) (by_delivery (filter (\<lambda>c. unanswered (now - 3600) c
             \<and> task_of (cd_task_id c) d1 \<noteq> None) (cards d1)))) 0 d1))"

end
