(* ===== verification/CardActions.thy ===== *)
theory CardActions
  imports CardQueue
begin

text \<open>
  What a reader does with a card (\<open>task_cards.py\<close>: \<open>act\<close>, \<open>resolve\<close>, the duplicate answers and
  their reversal, the expansion into full cards), and the derived titles of fused tasks that
  those answers request (\<open>fused_task_titles.py\<close>).
\<close>

section \<open>Fused titles\<close>

definition title_enqueue :: "rowid \<Rightarrow> time \<Rightarrow> db \<Rightarrow> db" where
  "title_enqueue i now d =
     (if list_ex (\<lambda>j. fj_task_id j = i) (title_jobs d)
      then d\<lparr>title_jobs := update_where (\<lambda>j. fj_task_id j = i)
             (\<lambda>j. j\<lparr>fj_state := TitlePending, fj_title := None, fj_last_attempt_at := None,
                    fj_updated_at := now\<rparr>) (title_jobs d)\<rparr>
      else d\<lparr>title_jobs := title_jobs d @
             [\<lparr>fj_task_id = i, fj_state = TitlePending, fj_title = None, fj_attempts = 0,
               fj_last_attempt_at = None, fj_created_at = now, fj_updated_at = now\<rparr>]\<rparr>)"

definition title_clear :: "rowid \<Rightarrow> time \<Rightarrow> db \<Rightarrow> db" where
  "title_clear i now d = d\<lparr>title_jobs := update_where (\<lambda>j. fj_task_id j = i)
     (\<lambda>j. j\<lparr>fj_state := TitleIdle, fj_title := None, fj_last_attempt_at := None,
            fj_updated_at := now\<rparr>) (title_jobs d)\<rparr>"

definition refresh_after_withdrawal :: "rowid \<Rightarrow> time \<Rightarrow> db \<Rightarrow> db" where
  "refresh_after_withdrawal i now d =
     (if list_ex (\<lambda>r. rl_object_id r = i \<and> rl_kind r = DuplicateOf \<and> live r) (relations d)
      then title_enqueue i now d else title_clear i now d)"

section \<open>What a card shows\<close>

text \<open>
  The part of the projection that decides what a card can do: the text (a fused title when one
  is ready), the question and the comparison.
\<close>

record card_view =
  vw_card :: card_row
  vw_task :: task_row
  vw_text :: string
  vw_question :: "evidence_row option"
  vw_duplicate :: "(proposal_row \<times> task_row option) option"

definition shown_text :: "task_row \<Rightarrow> db \<Rightarrow> string" where
  "shown_text t d = (case List.find (\<lambda>j. fj_task_id j = tk_id t \<and> fj_state j = TitleReady) (title_jobs d) of
     None \<Rightarrow> tk_text t
   | Some j \<Rightarrow> (case fj_title j of None \<Rightarrow> tk_text t | Some s \<Rightarrow> s))"

definition carried_proposal :: "rowid \<Rightarrow> db \<Rightarrow> proposal_row option" where
  "carried_proposal k d = List.find (\<lambda>p. dp_card_id p = Some k \<and> dp_state p = DupProposed) (proposals d)"

definition other_task :: "proposal_row \<Rightarrow> rowid \<Rightarrow> rowid" where
  "other_task p i = (if dp_left_task_id p = i then dp_right_task_id p else dp_left_task_id p)"

definition card_view_of :: "rowid \<Rightarrow> db \<Rightarrow> card_view option" where
  "card_view_of k d = (case joined_card k d of
     None \<Rightarrow> None
   | Some (c, t) \<Rightarrow> Some \<lparr>vw_card = c, vw_task = t, vw_text = shown_text t d,
       vw_question = List.find (carried_by k) (evidence d),
       vw_duplicate = map_option (\<lambda>p. (p, task_of (other_task p (tk_id t)) d)) (carried_proposal k d)\<rparr>)"

record presentation =
  ps_disposition :: card_disposition
  ps_card_id :: rowid
  ps_card_version :: "int option"
  ps_card :: "card_view option"
  ps_expanded :: bool
  ps_refusal :: "card_refusal option"

definition view_refused :: "rowid \<Rightarrow> card_row option \<Rightarrow> card_refusal \<Rightarrow> presentation" where
  "view_refused k row ref = \<lparr>ps_disposition = CardRefused, ps_card_id = k,
     ps_card_version = map_option cd_version row, ps_card = None, ps_expanded = False,
     ps_refusal = Some ref\<rparr>"

text \<open>\<open>view\<close> is a read: it returns a presentation and no database.\<close>

definition view :: "rowid \<Rightarrow> int \<Rightarrow> bool \<Rightarrow> db \<Rightarrow> presentation" where
  "view k expected expanded d =
     (if \<not> valid_identity k expected then view_refused k None RefInvalidArgument
      else case card_view_of k d of
        None \<Rightarrow> view_refused k None RefNotFound
      | Some v \<Rightarrow>
          let c = vw_card v in
          if cd_version c \<noteq> expected then view_refused k (Some c) RefStaleVersion
          else if cd_status c \<noteq> CardDelivered then view_refused k (Some c) RefInvalidState
          else if \<not> card_is_current c d then view_refused k (Some c) RefStaleVersion
          else if vw_duplicate v = None then view_refused k (Some c) RefInvalidState
          else \<lparr>ps_disposition = CardUnchanged, ps_card_id = k, ps_card_version = Some expected,
                ps_card = Some v, ps_expanded = expanded, ps_refusal = None\<rparr>)"

section \<open>Both full cards of a pair\<close>

record full_cards_result =
  fr_disposition :: card_disposition
  fr_card_id :: rowid
  fr_card_version :: "int option"
  fr_cards :: "rowid list"
  fr_refusal :: "card_refusal option"

definition full_refused :: "rowid \<Rightarrow> int option \<Rightarrow> card_refusal \<Rightarrow> full_cards_result" where
  "full_refused k v ref = \<lparr>fr_disposition = CardRefused, fr_card_id = k, fr_card_version = v,
     fr_cards = [], fr_refusal = Some ref\<rparr>"

definition text_or :: "string option \<Rightarrow> string \<Rightarrow> string" where
  "text_or v dflt = (case or_none v of None \<Rightarrow> dflt | Some s \<Rightarrow> s)"

definition full_card :: "rowid \<Rightarrow> card_row \<Rightarrow> task_row \<Rightarrow> time \<Rightarrow> db \<Rightarrow> card_row" where
  "full_card k shown_on t now d = (new_card k (tk_id t) (tk_version t) (accepted_revision (tk_id t) d) now)
     \<lparr>cd_status := CardDelivered,
      cd_transport := Some (text_or (cd_transport shown_on) ''synthetic''),
      cd_delivery_ref := Some (text_or (cd_delivery_ref shown_on) ''card'' @ ''-t'' @ digits (nat (tk_id t))),
      cd_delivered_at := Some now, cd_consumer_digest := cd_consumer_digest shown_on\<rparr>"

definition deliver_full :: "card_row \<Rightarrow> task_row \<Rightarrow> time \<Rightarrow> db \<Rightarrow> exc + (rowid \<times> db)" where
  "deliver_full shown_on t now d =
     (let c = full_card (next_id cd_id (cards d)) shown_on t now d in
      rbind (insert_card c d) (\<lambda>d1.
        Inr (cd_id c,
          add_card_event (card_event_of c CevDelivered 1 (tk_version t) None now)
            (add_card_event (card_event_of c CevScheduled 1 (tk_version t) None now) d1))))"

definition show_full_cards :: "rowid \<Rightarrow> int \<Rightarrow> time \<Rightarrow> db \<Rightarrow> exc + (full_cards_result \<times> db)" where
  "show_full_cards k expected now d =
     (if \<not> valid_identity k expected then Inr (full_refused k None RefInvalidArgument, d)
      else case card_view_of k d of
        None \<Rightarrow> Inr (full_refused k None RefNotFound, d)
      | Some v \<Rightarrow>
          let c = vw_card v; refuse = (\<lambda>ref. Inr (full_refused k (Some (cd_version c)) ref, d)) in
          if cd_version c \<noteq> expected then refuse RefStaleVersion
          else if cd_status c \<noteq> CardDelivered then refuse RefInvalidState
          else if \<not> card_is_current c d then refuse RefStaleVersion
          else (case vw_duplicate v of
            None \<Rightarrow> refuse RefInvalidState
          | Some (p, _) \<Rightarrow>
              (case (task_of (cd_task_id c) d, task_of (other_task p (cd_task_id c)) d) of
                 (Some ta, Some tb) \<Rightarrow>
                   let d1 = add_card_event
                         (card_event_of c CevCancelled (expected + 1) (cd_task_version c) None now)
                         (update_card c (cancelled now) d) in
                   rbind (deliver_full c ta now d1) (\<lambda>(ka, d2).
                   rbind (deliver_full c tb now d2) (\<lambda>(kb, d3).
                     Inr (\<lparr>fr_disposition = CardApplied, fr_card_id = k,
                           fr_card_version = Some (expected + 1), fr_cards = [ka, kb],
                           fr_refusal = None\<rparr>, d3)))
               | _ \<Rightarrow> refuse RefNotFound)))"

section \<open>Answers\<close>

definition ANSWERS :: "(string \<times> outcome) list" where
  "ANSWERS = [(''done'', OutAccepted), (''keep_open'', OutRejected), (''drop'', OutSuperseded)]"

text \<open>
  The body of a confirmation: the relation, the title request, the drop of the subject and the
  withdrawal of its other cards.  \<open>None\<close> is the early \<open>return None\<close>.  \<open>duplicate_ends\<close> is the
  choice of the relation's subject (dropped) and object (kept).
\<close>

definition duplicate_ends :: "proposal_row \<Rightarrow> task_row \<Rightarrow> task_row \<Rightarrow> rowid \<times> rowid" where
  "duplicate_ends p l r =
     (if tk_status l = TaskOpen \<and> tk_status r = TaskOpen then (dp_right_task_id p, dp_left_task_id p)
      else if tk_status l = TaskOpen then (tk_id l, tk_id r) else (tk_id r, tk_id l))"

definition confirm_duplicate :: "card_row \<Rightarrow> proposal_row \<Rightarrow> task_row \<Rightarrow> task_row \<Rightarrow> time \<Rightarrow> db
    \<Rightarrow> exc + db option" where
  "confirm_duplicate c p l r now d =
     (let (subject, object) = duplicate_ends p l r in
      case assert_relation \<lparr>rq_subject = subject, rq_object = object, rq_kind = ''duplicate_of'',
             rq_basis = take 500 (dp_basis p), rq_asserted_by = ''reader'', rq_actor = Some ''reader'',
             rq_note = None\<rparr> now d of
        Inl _ \<Rightarrow> Inr None
      | Inr (_, d1) \<Rightarrow>
          let d2 = title_enqueue object now d1;
              v = (if subject = dp_right_task_id p then dp_right_task_version p else dp_left_task_version p);
              (tr, d3) = apply_task_transition subject v ''drop'' now d2 in
          if \<not> tr_accepted tr then Inr None
          else rbind (cancel_duplicate_task_cards subject (cd_id c) now d3) (\<lambda>d4. Inr (Some d4)))"

definition act_duplicate :: "card_row \<Rightarrow> string \<Rightarrow> time \<Rightarrow> db \<Rightarrow> exc + (card_result \<times> db) option" where
  "act_duplicate c action now d =
     (case carried_proposal (cd_id c) d of
        None \<Rightarrow> Inr None
      | Some p \<Rightarrow>
        (case pair_rows (dp_left_task_id p) (dp_right_task_id p) d of
           None \<Rightarrow> Inr None
         | Some (l, r) \<Rightarrow>
             if \<not> reviewable_status_pair [l, r] \<or> tk_version l \<noteq> dp_left_task_version p
               \<or> tk_version r \<noteq> dp_right_task_version p then Inr None
             else if list_ex (\<lambda>w. wf_task_id w \<in> {dp_left_task_id p, dp_right_task_id p}
                       \<and> wf_status w \<in> {WfRunning, WfAwaitingReview}) (workflows d) then Inr None
             else
               let confirm = (action = ''duplicate_confirm'') in
               rbind (if confirm then confirm_duplicate c p l r now d else Inr (Some d)) (\<lambda>m.
                 case m of None \<Rightarrow> Inr None
                 | Some d1 \<Rightarrow>
                     rbind (dup_settle (dp_id p) (if confirm then Confirmed else Rejected) ''reader'' now d1)
                       (\<lambda>(settled, d2).
                         if \<not> settled then Inr None
                         else Inr (Some
                           (\<lparr>co_disposition = CardApplied, co_card_id = cd_id c,
                             co_version = Some (cd_version c + 1), co_status = Some CardCancelled,
                             co_task_version = Some (cd_task_version c),
                             co_task_status = Some (if confirm then TaskDropped else TaskOpen),
                             co_wake_at = None, co_refusal = None\<rparr>,
                            add_card_event
                              (card_event_of c CevCancelled (cd_version c + 1) (cd_task_version c) None now)
                              (update_card c (cancelled now) d2)))))))"

definition snoozed :: "time \<Rightarrow> card_row \<Rightarrow> card_row" where
  "snoozed now c = unpresent (unclaim c)\<lparr>cd_status := CardSnoozed, cd_version := cd_version c + 1,
     cd_due_at := now + SNOOZE_INTERVAL, cd_updated_at := now\<rparr>"

definition resolved :: "string \<Rightarrow> time \<Rightarrow> card_row \<Rightarrow> card_row" where
  "resolved action now c = c\<lparr>cd_status := CardResolved, cd_version := cd_version c + 1,
     cd_resolution := Some action,
     cd_review_after := (if action = ''keep_open'' then Some (now + OPEN_REVIEW_INTERVAL) else None),
     cd_resolved_at := Some now, cd_consumer_digest := None, cd_updated_at := now\<rparr>"

text \<open>\<open>done\<close>, \<open>drop\<close>, \<open>keep_open\<close> and \<open>snooze\<close> on a delivered, current card.\<close>

definition answer_card :: "card_row \<Rightarrow> task_row \<Rightarrow> string \<Rightarrow> time \<Rightarrow> db \<Rightarrow> exc + (card_result \<times> db)" where
  "answer_card c t action now d =
     (let (tr, d1) = (if action \<in> {''done'', ''drop''}
            then apply_task_transition (cd_task_id c) (cd_task_version c) action now d
            else (\<lparr>tr_disposition = TrApplied, tr_task_id = cd_task_id c,
                   tr_version = Some (cd_task_version c), tr_status = Some TaskOpen, tr_refusal = None\<rparr>, d)) in
      if \<not> tr_accepted tr
      then Inr (refused_row (cd_id c) (Some c) (Some t)
             (if tr_refusal tr = Some TrStaleVersion then RefStaleVersion else RefInvalidState), d)
      else
        let tv = the (tr_version tr); snooze = (action = ''snooze'');
            d2 = update_card c (if snooze then snoozed now else resolved action now) d1 in
        rbind (if snooze then Inr (0, d2)
               else settle_for_card (cd_id c) (the (map_of ANSWERS action)) now d2) (\<lambda>(_, d3).
          Inr (\<lparr>co_disposition = CardApplied, co_card_id = cd_id c, co_version = Some (cd_version c + 1),
                co_status = Some (if snooze then CardSnoozed else CardResolved),
                co_task_version = Some tv, co_task_status = tr_status tr,
                co_wake_at = (if snooze then Some (now + SNOOZE_INTERVAL)
                   else if action = ''keep_open'' then Some (now + OPEN_REVIEW_INTERVAL) else None),
                co_refusal = None\<rparr>,
               add_card_event (card_event_of c (if snooze then CevSnoozed else CevResolved)
                 (cd_version c + 1) tv (Some action) now) d3)))"

definition act :: "rowid \<Rightarrow> int \<Rightarrow> string \<Rightarrow> time \<Rightarrow> db \<Rightarrow> exc + (card_result \<times> db)" where
  "act k expected action now d =
     (if \<not> valid_identity k expected then Inr (card_refused k RefInvalidArgument, d)
      else if action \<notin> set TASK_CARD_ACTIONS then Inr (card_refused k RefInvalidAction, d)
      else case joined_card k d of
        None \<Rightarrow> Inr (card_refused k RefNotFound, d)
      | Some (c, t) \<Rightarrow>
          let refuse = (\<lambda>ref. Inr (refused_row k (Some c) (Some t) ref, d)) in
          if cd_version c \<noteq> expected then refuse RefStaleVersion
          else if cd_status c \<noteq> CardDelivered then refuse RefInvalidState
          else if \<not> card_is_current c d then refuse RefStaleVersion
          else if action \<in> {''duplicate_confirm'', ''duplicate_reject''} then
            rbind (act_duplicate c action now d) (\<lambda>res.
              case res of None \<Rightarrow> refuse RefStaleVersion | Some rd \<Rightarrow> Inr rd)
          else if action = ''show_full_cards'' then
            rbind (show_full_cards k expected now d) (\<lambda>(full, d').
              if fr_disposition full = CardRefused
              then refuse (case fr_refusal full of None \<Rightarrow> RefInvalidState | Some ref \<Rightarrow> ref)
              else Inr (\<lparr>co_disposition = CardApplied, co_card_id = k, co_version = Some (expected + 1),
                     co_status = Some CardCancelled, co_task_version = Some (cd_task_version c),
                     co_task_status = Some TaskOpen, co_wake_at = None, co_refusal = None\<rparr>, d'))
          else answer_card c t action now d)"

section \<open>Claim, deliver and answer in one call\<close>

datatype resolve_outcome =
    Resolved card_result
  | ResolveAtCeiling nat nat
  | ResolveNotFound

text \<open>The first of the three transactions of \<open>resolve\<close>: the claim of one exact card.\<close>

definition resolve_claim :: "(string \<Rightarrow> string) \<Rightarrow> rowid \<Rightarrow> int \<Rightarrow> string \<Rightarrow> nat \<Rightarrow> string \<Rightarrow> time \<Rightarrow> db
    \<Rightarrow> resolve_outcome option \<times> db" where
  "resolve_claim sha k expected consumer ceiling token now d =
     (let held = rowcount (held_by consumer) (cards d) in
      if ceiling \<le> held then (Some (ResolveAtCeiling held ceiling), d)
      else case joined_card k d of
        None \<Rightarrow> (Some ResolveNotFound, d)
      | Some (c, t) \<Rightarrow>
          let stale_answer = (Some (Resolved (refused_row k (Some c) (Some t) RefStaleVersion)), d);
              hit = (\<lambda>x. cd_id x = k \<and> cd_version x = expected \<and> cd_status x \<in> {CardPending, CardSnoozed}) in
          if cd_version c \<noteq> expected then stale_answer
          else if cd_status c \<notin> {CardPending, CardSnoozed} then stale_answer
          else if \<not> card_is_current c d then stale_answer
          else if rowcount hit (cards d) \<noteq> 1 then stale_answer
          else (None, claim_card (sha token) (now + 60) consumer now c d))"

text \<open>Delivery and answer are transactions of their own, each with its own clock reading.\<close>

definition resolve :: "(string \<Rightarrow> string) \<Rightarrow> rowid \<Rightarrow> int \<Rightarrow> string \<Rightarrow> string \<Rightarrow> string \<Rightarrow> string
    \<Rightarrow> time \<Rightarrow> time \<Rightarrow> time \<Rightarrow> db \<Rightarrow> (exc + resolve_outcome) \<times> db" where
  "resolve sha k expected action consumer role token now1 now2 now3 d =
     (if \<not> valid_identity k expected \<or> action \<notin> set TASK_CARD_ACTIONS \<or> \<not> valid_digest consumer
      then (Inr (Resolved (card_refused k RefInvalidArgument)), d)
      else case map_of TASK_CARD_CLAIM_CEILINGS role of
        None \<Rightarrow> (Inl (TaskLedgerError ''task card consumer role is invalid''), d)
      | Some ceiling \<Rightarrow>
          if \<not> valid_secret token
          then (Inl (TaskLedgerError ''task card token factory returned invalid state''), d)
          else (case resolve_claim sha k expected consumer ceiling token now1 d of
            (Some out, d1) \<Rightarrow> (Inr out, d1)
          | (None, d1) \<Rightarrow>
              let v = expected + 1;
                  ref = ''resolve-'' @ digits (nat k) @ ''-v'' @ digits (nat v);
                  (delivered, d2) = complete_delivery sha k v token ''resolved'' ref now2 d1 in
              if \<not> co_accepted delivered then (Inr (Resolved delivered), d2)
              else (case run_tx (act k v action now3) d2 of
                (Inl e, d3) \<Rightarrow> (Inl e, d3)
              | (Inr r, d3) \<Rightarrow> (Inr (Resolved r), d3))))"

section \<open>Taking a confirmation back\<close>

definition reopen_task :: "rowid \<Rightarrow> time \<Rightarrow> db \<Rightarrow> db" where
  "reopen_task i now d = d\<lparr>tasks := update_where (\<lambda>t. tk_id t = i \<and> tk_status t = TaskDropped)
     (\<lambda>t. t\<lparr>tk_status := TaskOpen, tk_version := tk_version t + 1, tk_updated_at := now,
            tk_closed_at := None\<rparr>) (tasks d)\<rparr>"

definition confirmed_pair :: "rowid \<Rightarrow> rowid \<Rightarrow> db \<Rightarrow> proposal_row option" where
  "confirmed_pair l r d = List.find (\<lambda>p. dp_left_task_id p = l \<and> dp_right_task_id p = r
     \<and> dp_state p = DupConfirmed) (proposals d)"

text \<open>
  Errors of the relation module (and of SQLite) are caught and answered with \<open>False\<close>; any other
  exception is the caller's.
\<close>

definition reverse_duplicate :: "rowid \<Rightarrow> time \<Rightarrow> db \<Rightarrow> exc + (bool \<times> db)" where
  "reverse_duplicate k now d =
     (case rel_get k d of
        Inl _ \<Rightarrow> Inr (False, d)
      | Inr rel \<Rightarrow>
          if \<not> live rel \<or> rl_kind rel \<noteq> DuplicateOf \<or> rl_asserted_by rel \<noteq> AssertedByReader
          then Inr (False, d)
          else (case confirmed_pair (rl_object_id rel) (rl_subject_id rel) d of
            None \<Rightarrow> Inr (False, d)
          | Some p \<Rightarrow>
              (case withdraw k ''reader'' now d of
                 Inl _ \<Rightarrow> Inr (False, d)
               | Inr (_, d1) \<Rightarrow>
                   let d2 = reopen_task (rl_subject_id rel) now d1 in
                   rbind (dup_reopen_confirmed (dp_id p) ''reader'' now d2) (\<lambda>(reopened, d3).
                     if \<not> reopened then Inr (False, d)
                     else Inr (True, refresh_after_withdrawal (rl_object_id rel) now d3)))))"

end
