(* ===== verification/CardMachine.thy ===== *)
theory CardMachine
  imports CardActions
begin

text \<open>
  The life of a card as a state machine, and the invariants of the card tables.  \<open>card_next\<close>
  is the abstract machine; \<open>card_step\<close> is one write of the card tables that follows it;
  \<open>cards_inv\<close> is preserved by every step, by rule induction over runs.
\<close>

section \<open>The machine\<close>

fun card_next :: "card_status \<Rightarrow> card_event_kind \<Rightarrow> card_status option" where
  "card_next CardPending CevClaimed = Some CardDelivering"
| "card_next CardSnoozed CevClaimed = Some CardDelivering"
| "card_next CardDelivering CevDelivered = Some CardDelivered"
| "card_next CardDelivering CevFailed = Some CardPending"
| "card_next CardDelivered CevFailed = Some CardPending"
| "card_next CardDelivering CevExpired = Some CardPending"
| "card_next CardDelivered CevSnoozed = Some CardSnoozed"
| "card_next CardDelivered CevResolved = Some CardResolved"
| "card_next CardPending CevCancelled = Some CardCancelled"
| "card_next CardDelivering CevCancelled = Some CardCancelled"
| "card_next CardDelivered CevCancelled = Some CardCancelled"
| "card_next CardSnoozed CevCancelled = Some CardCancelled"
| "card_next _ _ = None"

text \<open>Every event but the delivery itself makes a new version of the card.\<close>

definition version_step :: "card_event_kind \<Rightarrow> int" where
  "version_step kind = (if kind = CevDelivered then 0 else 1)"

fun kind_status :: "card_event_kind \<Rightarrow> card_status" where
  "kind_status CevScheduled = CardPending"
| "kind_status CevClaimed = CardDelivering"
| "kind_status CevDelivered = CardDelivered"
| "kind_status CevFailed = CardPending"
| "kind_status CevExpired = CardPending"
| "kind_status CevSnoozed = CardSnoozed"
| "kind_status CevResolved = CardResolved"
| "kind_status CevCancelled = CardCancelled"

lemma card_next_active: "card_next st kind = Some st' \<Longrightarrow> active st \<and> st' = kind_status kind"
  by (cases st; cases kind) auto

text \<open>The columns a status allows: a lease only while delivering, no consumer when nobody holds it.\<close>

definition card_ok :: "card_row \<Rightarrow> bool" where
  "card_ok c \<longleftrightarrow> 1 \<le> cd_id c \<and> 1 \<le> cd_version c
     \<and> (cd_resolved_at c = None \<longleftrightarrow> active (cd_status c))
     \<and> (cd_status c \<noteq> CardDelivering \<longrightarrow> cd_claim_expires_at c = None)
     \<and> (cd_status c = CardDelivering \<longrightarrow> cd_claim_token_digest c \<noteq> None
          \<and> cd_claim_expires_at c \<noteq> None \<and> cd_consumer_digest c \<noteq> None)
     \<and> (cd_status c \<in> {CardPending, CardSnoozed, CardCancelled} \<longrightarrow> cd_claim_token_digest c = None)
     \<and> (cd_status c \<notin> {CardDelivering, CardDelivered} \<longrightarrow> cd_consumer_digest c = None)"

text \<open>What no write changes: what the card is about and when it was raised.\<close>

definition card_fixed :: "card_row \<Rightarrow> rowid \<times> rowid \<times> int \<times> string option \<times> time" where
  "card_fixed c = (cd_id c, cd_task_id c, cd_task_version c, cd_source_revision c, cd_created_at c)"

definition logged_card :: "rowid \<Rightarrow> db \<Rightarrow> (card_status \<times> int) option" where
  "logged_card k d = map_option (\<lambda>e. (kind_status (ce_kind e), ce_card_version e))
     (List.find (\<lambda>e. ce_card_id e = k) (rev (card_events d)))"

definition cards_inv :: "db \<Rightarrow> bool" where
  "cards_inv d \<longleftrightarrow> unique_key cd_id (cards d) \<and> list_all card_ok (cards d)
     \<and> list_all (\<lambda>c. list_all (\<lambda>x. cd_task_id x = cd_task_id c \<and> active (cd_status x)
          \<and> active (cd_status c) \<longrightarrow> cd_id x = cd_id c) (cards d)) (cards d)
     \<and> list_all (\<lambda>c. logged_card (cd_id c) d = Some (cd_status c, cd_version c)) (cards d)"

inductive card_step :: "db \<Rightarrow> db \<Rightarrow> bool" where
  silent: "cards d' = cards d \<Longrightarrow> card_events d' = card_events d \<Longrightarrow> card_step d d'"
| moved: "c \<in> set (cards d) \<Longrightarrow> card_next (cd_status c) (ce_kind e) = Some (cd_status c') \<Longrightarrow>
    card_fixed c' = card_fixed c \<Longrightarrow> cd_version c' = cd_version c + version_step (ce_kind e) \<Longrightarrow>
    card_ok c' \<Longrightarrow> ce_card_id e = cd_id c \<Longrightarrow> ce_card_version e = cd_version c' \<Longrightarrow>
    cards d' = update_where (\<lambda>x. cd_id x = cd_id c) (\<lambda>_. c') (cards d) \<Longrightarrow>
    card_events d' = card_events d @ [e] \<Longrightarrow> card_step d d'"
| raised: "cd_id c = next_id cd_id (cards d) \<Longrightarrow> cd_version c = 1 \<Longrightarrow> active (cd_status c) \<Longrightarrow> card_ok c \<Longrightarrow>
    \<not> list_ex (active_on (cd_task_id c)) (cards d) \<Longrightarrow>
    list_all (\<lambda>e. ce_card_id e = cd_id c \<and> ce_card_version e = 1) es \<Longrightarrow>
    es \<noteq> [] \<Longrightarrow> kind_status (ce_kind (last es)) = cd_status c \<Longrightarrow>
    cards d' = cards d @ [c] \<Longrightarrow> card_events d' = card_events d @ es \<Longrightarrow> card_step d d'"
| touched: "cards d' = update_where (\<lambda>x. cd_id x = k \<and> cd_status x = CardPending)
      (\<lambda>x. x\<lparr>cd_due_at := now, cd_updated_at := now\<rparr>) (cards d) \<Longrightarrow>
    card_events d' = card_events d \<Longrightarrow> card_step d d'"

inductive_cases card_stepE: "card_step d d'"

section \<open>How a card evolves\<close>

definition card_evolves :: "card_row \<Rightarrow> card_row \<Rightarrow> bool" where
  "card_evolves c c' \<longleftrightarrow> card_fixed c' = card_fixed c \<and> cd_version c \<le> cd_version c'
     \<and> (\<not> active (cd_status c) \<longrightarrow> c' = c)
     \<and> (cd_version c' = cd_version c \<longrightarrow> cd_status c' = cd_status c
          \<or> (cd_status c = CardDelivering \<and> cd_status c' = CardDelivered))"

lemma card_evolves_refl [simp]: "card_evolves c c"
  by (simp add: card_evolves_def)

lemma card_evolves_trans: "card_evolves a b \<Longrightarrow> card_evolves b c \<Longrightarrow> card_evolves a c"
  unfolding card_evolves_def by (cases "active (cd_status a)"; cases "cd_version a = cd_version c") auto

lemma card_fixedD:
  "card_fixed c' = card_fixed c \<Longrightarrow> cd_id c' = cd_id c \<and> cd_task_id c' = cd_task_id c
    \<and> cd_task_version c' = cd_task_version c"
  by (simp add: card_fixed_def)

lemma move_evolves:
  assumes "card_next (cd_status c) kind = Some (cd_status c')" and "card_fixed c' = card_fixed c"
    and "cd_version c' = cd_version c + version_step kind"
  shows "card_evolves c c'"
  using assms card_next_active [OF assms(1)]
  by (cases "cd_status c"; cases kind) (auto simp: card_evolves_def version_step_def)

section \<open>The invariant along steps\<close>

lemma cards_invD:
  assumes "cards_inv d"
  shows "unique_key cd_id (cards d)" and "c \<in> set (cards d) \<Longrightarrow> card_ok c"
    and "c \<in> set (cards d) \<Longrightarrow> x \<in> set (cards d) \<Longrightarrow> cd_task_id x = cd_task_id c \<Longrightarrow>
      active (cd_status x) \<Longrightarrow> active (cd_status c) \<Longrightarrow> x = c"
    and "c \<in> set (cards d) \<Longrightarrow> logged_card (cd_id c) d = Some (cd_status c, cd_version c)"
proof -
  show uniq: "unique_key cd_id (cards d)" using assms by (simp add: cards_inv_def)
  show "c \<in> set (cards d) \<Longrightarrow> card_ok c" using assms by (simp add: cards_inv_def list_all_iff)
  show "c \<in> set (cards d) \<Longrightarrow> logged_card (cd_id c) d = Some (cd_status c, cd_version c)"
    using assms by (simp add: cards_inv_def list_all_iff)
  assume h: "c \<in> set (cards d)" "x \<in> set (cards d)" "cd_task_id x = cd_task_id c"
    "active (cd_status x)" "active (cd_status c)"
  then have "cd_id x = cd_id c" using assms unfolding cards_inv_def list_all_iff by blast
  then show "x = c"
    using row_of_unique [OF uniq, of "cd_id c" c] row_of_unique [OF uniq, of "cd_id c" x] h(1,2) by simp
qed

lemma cards_inv_intro:
  assumes "unique_key cd_id (cards d)" and "\<And>c. c \<in> set (cards d) \<Longrightarrow> card_ok c"
    and "\<And>c x. c \<in> set (cards d) \<Longrightarrow> x \<in> set (cards d) \<Longrightarrow> cd_task_id x = cd_task_id c \<Longrightarrow>
      active (cd_status x) \<Longrightarrow> active (cd_status c) \<Longrightarrow> cd_id x = cd_id c"
    and "\<And>c. c \<in> set (cards d) \<Longrightarrow> logged_card (cd_id c) d = Some (cd_status c, cd_version c)"
  shows "cards_inv d"
  unfolding cards_inv_def list_all_iff
proof (intro conjI ballI impI)
  fix c x assume "c \<in> set (cards d)" "x \<in> set (cards d)"
    "cd_task_id x = cd_task_id c \<and> active (cd_status x) \<and> active (cd_status c)"
  then show "cd_id x = cd_id c" using assms(3) by blast
qed (simp_all add: assms)

lemma cards_inv_cong:
  "cards d' = cards d \<Longrightarrow> card_events d' = card_events d \<Longrightarrow> cards_inv d' = cards_inv d"
  by (simp add: cards_inv_def logged_card_def)

lemma cards_inv_moved:
  assumes inv: "cards_inv d" and c: "c \<in> set (cards d)"
    and next1: "card_next (cd_status c) (ce_kind e) = Some (cd_status c')"
    and fixd: "card_fixed c' = card_fixed c" and ok: "card_ok c'"
    and e: "ce_card_id e = cd_id c" "ce_card_version e = cd_version c'"
    and rows: "cards d' = update_where (\<lambda>x. cd_id x = cd_id c) (\<lambda>_. c') (cards d)"
    and evs: "card_events d' = card_events d @ [e]"
  shows "cards_inv d'"
proof (rule cards_inv_intro)
  have id: "cd_id c' = cd_id c" "cd_task_id c' = cd_task_id c" using card_fixedD [OF fixd] by simp_all
  have mem: "x = c' \<or> (x \<in> set (cards d) \<and> cd_id x \<noteq> cd_id c)" if "x \<in> set (cards d')" for x
    using that unfolding rows by (auto elim!: update_whereE split: if_splits)
  have log: "logged_card k d' = (if k = cd_id c then Some (kind_status (ce_kind e), cd_version c')
      else logged_card k d)" for k
    using e by (simp add: logged_card_def evs)
  have "map cd_id (cards d') = map cd_id (cards d)"
    unfolding rows update_where_def by (simp add: id)
  then show "unique_key cd_id (cards d')"
    using cards_invD(1) [OF inv] by (simp add: unique_key_def)
  show "card_ok x" if "x \<in> set (cards d')" for x
    using mem [OF that] ok cards_invD(2) [OF inv] by auto
  show "cd_id y = cd_id x" if "x \<in> set (cards d')" "y \<in> set (cards d')"
    "cd_task_id y = cd_task_id x" "active (cd_status y)" "active (cd_status x)" for x y
  proof -
    have act: "active (cd_status c)" using card_next_active [OF next1] by simp
    show ?thesis
      using mem [OF that(1)] mem [OF that(2)]
    proof (elim disjE conjE)
      assume "x = c'" "y \<in> set (cards d)"
      then show ?thesis using cards_invD(3) [OF inv c, of y] that act id by simp
    next
      assume "y = c'" "x \<in> set (cards d)"
      then show ?thesis using cards_invD(3) [OF inv c, of x] that act id by simp
    next
      assume "x \<in> set (cards d)" "y \<in> set (cards d)"
      then show ?thesis using cards_invD(3) [OF inv, of x y] that by simp
    qed simp
  qed
  show "logged_card (cd_id x) d' = Some (cd_status x, cd_version x)" if "x \<in> set (cards d')" for x
    using mem [OF that] card_next_active [OF next1] id cards_invD(4) [OF inv, of x]
    by (auto simp: log)
qed

lemma cards_inv_raised:
  assumes inv: "cards_inv d" and id: "cd_id c = next_id cd_id (cards d)" and v: "cd_version c = 1"
    and ok: "card_ok c" and free: "\<not> list_ex (active_on (cd_task_id c)) (cards d)"
    and es: "list_all (\<lambda>e. ce_card_id e = cd_id c \<and> ce_card_version e = 1) es" "es \<noteq> []"
      "kind_status (ce_kind (last es)) = cd_status c"
    and rows: "cards d' = cards d @ [c]" and evs: "card_events d' = card_events d @ es"
  shows "cards_inv d'"
proof (rule cards_inv_intro)
  have less: "cd_id x < cd_id c" if "x \<in> set (cards d)" for x
    using next_id_fresh [OF that, of cd_id] id by simp
  have others: "logged_card k d' = logged_card k d" if "k \<noteq> cd_id c" for k
  proof -
    have "List.find (\<lambda>e. ce_card_id e = k) (rev es) = None"
      using es(1) that by (auto simp: find_None_iff list_all_iff)
    then show ?thesis by (simp add: logged_card_def evs find_append)
  qed
  obtain fs e where fs: "es = fs @ [e]" using es(2) by (cases es rule: rev_cases) auto
  have log: "logged_card (cd_id c) d' = Some (cd_status c, 1)"
    using es(1,3) by (simp add: logged_card_def evs fs)
  show "unique_key cd_id (cards d')"
    unfolding rows by (rule unique_key_insert [OF cards_invD(1) [OF inv] id])
  show "card_ok x" if "x \<in> set (cards d')" for x
    using that ok cards_invD(2) [OF inv] by (auto simp: rows)
  show "cd_id y = cd_id x" if xy: "x \<in> set (cards d')" "y \<in> set (cards d')"
    "cd_task_id y = cd_task_id x" "active (cd_status y)" "active (cd_status x)" for x y
  proof -
    have free': "\<not> (cd_task_id z = cd_task_id c \<and> active (cd_status z))" if "z \<in> set (cards d)" for z
      using free that by (auto simp: list_ex_iff active_on_def)
    have "x \<in> set (cards d) \<or> x = c" "y \<in> set (cards d) \<or> y = c" using xy(1,2) by (auto simp: rows)
    then show ?thesis
      using free' [of x] free' [of y] cards_invD(3) [OF inv, of x y] xy(3-5) by (elim disjE) auto
  qed
  show "logged_card (cd_id x) d' = Some (cd_status x, cd_version x)" if "x \<in> set (cards d')" for x
  proof (cases "x \<in> set (cards d)")
    case True
    then show ?thesis using others [of "cd_id x"] less [OF True] cards_invD(4) [OF inv] by simp
  next
    case False
    then have "x = c" using that by (simp add: rows)
    then show ?thesis using log v by simp
  qed
qed

lemma cards_inv_touched:
  assumes inv: "cards_inv d"
    and rows: "cards d' = update_where (\<lambda>x. cd_id x = k \<and> cd_status x = CardPending)
      (\<lambda>x. x\<lparr>cd_due_at := now, cd_updated_at := now\<rparr>) (cards d)"
    and evs: "card_events d' = card_events d"
  shows "cards_inv d'"
proof (rule cards_inv_intro)
  have mem: "\<exists>x0 \<in> set (cards d). cd_id x = cd_id x0 \<and> cd_task_id x = cd_task_id x0
      \<and> cd_status x = cd_status x0 \<and> cd_version x = cd_version x0 \<and> (card_ok x0 \<longrightarrow> card_ok x)"
    if "x \<in> set (cards d')" for x
  proof -
    from that obtain x0 where x0: "x0 \<in> set (cards d)" and x: "x = (if cd_id x0 = k \<and> cd_status x0 = CardPending
        then x0\<lparr>cd_due_at := now, cd_updated_at := now\<rparr> else x0)"
      unfolding rows by (rule update_whereE)
    have "card_ok (x0\<lparr>cd_due_at := now, cd_updated_at := now\<rparr>) = card_ok x0"
      by (simp add: card_ok_def)
    with x0 x show ?thesis by (intro bexI [of _ x0]) simp_all
  qed
  have log: "logged_card j d' = logged_card j d" for j by (simp add: logged_card_def evs)
  show "unique_key cd_id (cards d')"
    using cards_invD(1) [OF inv] by (simp add: rows unique_key_update)
  show "card_ok x" if "x \<in> set (cards d')" for x
    using mem [OF that] cards_invD(2) [OF inv] by auto
  show "cd_id y = cd_id x" if xy: "x \<in> set (cards d')" "y \<in> set (cards d')"
    "cd_task_id y = cd_task_id x" "active (cd_status y)" "active (cd_status x)" for x y
    using mem [OF xy(1)] mem [OF xy(2)] cards_invD(3) [OF inv] xy(3-5) by metis
  show "logged_card (cd_id x) d' = Some (cd_status x, cd_version x)" if "x \<in> set (cards d')" for x
    using mem [OF that] cards_invD(4) [OF inv] by (auto simp: log)
qed

lemma cards_inv_step: "card_step d d' \<Longrightarrow> cards_inv d \<Longrightarrow> cards_inv d'"
proof (induction rule: card_step.induct)
  case (silent d' d)
  then show ?case using cards_inv_cong [of d' d] by simp
next
  case (moved c d e c' d')
  then show ?case using cards_inv_moved [of d c e c' d'] by simp
next
  case (raised c d es d')
  then show ?case using cards_inv_raised [of d c es d'] by simp
next
  case (touched d' k now d)
  then show ?case using cards_inv_touched [of d d' k now] by simp
qed

lemma cards_inv_run: "card_step\<^sup>*\<^sup>* d d' \<Longrightarrow> cards_inv d \<Longrightarrow> cards_inv d'"
  by (induction rule: rtranclp_induct) (simp_all add: cards_inv_step)

lemma card_step_evolves:
  assumes "card_step d d'" and "cards_inv d" and "x \<in> set (cards d)"
  shows "\<exists>x' \<in> set (cards d'). card_evolves x x'"
  using assms(1)
proof (cases rule: card_step.cases)
  case silent
  then show ?thesis using assms(3) by (intro bexI [of _ x]) simp_all
next
  case (moved c e c')
  have "cd_id x = cd_id c \<Longrightarrow> x = c"
    using row_of_unique [OF cards_invD(1) [OF assms(2)], of "cd_id c" c]
      row_of_unique [OF cards_invD(1) [OF assms(2)], of "cd_id c" x] assms(3) moved(1) by simp
  then have "card_evolves x (if cd_id x = cd_id c then c' else x)"
    using move_evolves [OF moved(2,3,4)] by (cases "cd_id x = cd_id c") simp_all
  moreover have "(if cd_id x = cd_id c then c' else x) \<in> set (cards d')"
    using assms(3) unfolding moved(8) update_where_def by auto
  ultimately show ?thesis by blast
next
  case (raised c es)
  then show ?thesis using assms(3) by (intro bexI [of _ x]) simp_all
next
  case (touched k now)
  let ?x = "if cd_id x = k \<and> cd_status x = CardPending then x\<lparr>cd_due_at := now, cd_updated_at := now\<rparr> else x"
  have "card_evolves x ?x" by (simp add: card_evolves_def card_fixed_def)
  moreover have "?x \<in> set (cards d')" using assms(3) unfolding touched(1) update_where_def by auto
  ultimately show ?thesis by blast
qed

lemma card_run_evolves:
  "card_step\<^sup>*\<^sup>* d d' \<Longrightarrow> cards_inv d \<Longrightarrow> x \<in> set (cards d) \<Longrightarrow> \<exists>x' \<in> set (cards d'). card_evolves x x'"
proof (induction rule: rtranclp_induct)
  case base
  then show ?case by (intro bexI [of _ x]) simp_all
next
  case (step d1 d2)
  then obtain y where y: "y \<in> set (cards d1)" "card_evolves x y" by blast
  obtain z where "z \<in> set (cards d2)" "card_evolves y z"
    using card_step_evolves [OF step.hyps(2) cards_inv_run [OF step.hyps(1) step.prems(1)] y(1)] by blast
  with y(2) show ?case using card_evolves_trans by blast
qed

end
