(* ===== verification/System.thy ===== *)
theory System
  imports CardMachine
begin

text \<open>
  The components together: one invariant over the task, evidence, proposal, relation and card
  tables, and the proof that every operation of the card service (which writes them all)
  keeps it, moves cards only along the card machine and evolves every attributed row only the
  way its own module allows.
\<close>

section \<open>The invariant of the database\<close>

definition system_inv :: "db \<Rightarrow> bool" where
  "system_inv d \<longleftrightarrow> ledger_inv d \<and> evidence_inv d \<and> dup_inv d \<and> relations_inv d \<and> cards_inv d"

text \<open>Work items and the event log agree with the tasks.\<close>

definition ledger_consistent :: "db \<Rightarrow> bool" where
  "ledger_consistent d \<longleftrightarrow> work_agrees d \<and> log_agrees d"

text \<open>
  What a write keeps.  The flag says whether the agreement of the work items and of the event
  log with the tasks is kept too; every operation but the reversal of a confirmed duplicate
  keeps it.
\<close>

definition keeps :: "bool \<Rightarrow> db \<Rightarrow> db \<Rightarrow> bool" where
  "keeps b d d' \<longleftrightarrow> (system_inv d \<longrightarrow> system_inv d' \<and> card_step\<^sup>*\<^sup>* d d'
     \<and> (\<forall>e \<in> set (evidence d). \<exists>e' \<in> set (evidence d'). evolves e e')
     \<and> (\<forall>p \<in> set (proposals d). \<exists>p' \<in> set (proposals d'). dp_evolves p p')
     \<and> (\<forall>r \<in> set (relations d). \<exists>r' \<in> set (relations d'). rel_evolves r r')
     \<and> (b \<and> ledger_consistent d \<longrightarrow> ledger_consistent d'))"

lemma same_evolve:
  "\<forall>e \<in> set es. \<exists>e' \<in> set es. evolves e e'" "\<forall>p \<in> set ps. \<exists>p' \<in> set ps. dp_evolves p p'"
  "\<forall>r \<in> set rs. \<exists>r' \<in> set rs. rel_evolves r r'"
  by (auto intro: evolves_refl dp_evolves_refl simp: rel_evolves_def)

lemma keeps_refl: "keeps b d d"
  by (simp add: keeps_def same_evolve)

lemma keepsD:
  assumes "keeps b d d'" and "system_inv d"
  shows "system_inv d'" and "card_step\<^sup>*\<^sup>* d d'"
    and "\<forall>e \<in> set (evidence d). \<exists>e' \<in> set (evidence d'). evolves e e'"
    and "\<forall>p \<in> set (proposals d). \<exists>p' \<in> set (proposals d'). dp_evolves p p'"
    and "\<forall>r \<in> set (relations d). \<exists>r' \<in> set (relations d'). rel_evolves r r'"
    and "b \<Longrightarrow> ledger_consistent d \<Longrightarrow> ledger_consistent d'"
  using assms unfolding keeps_def by blast+

lemma keepsI:
  assumes "system_inv d \<Longrightarrow> system_inv d'" and "system_inv d \<Longrightarrow> card_step\<^sup>*\<^sup>* d d'"
    and "system_inv d \<Longrightarrow> \<forall>e \<in> set (evidence d). \<exists>e' \<in> set (evidence d'). evolves e e'"
    and "system_inv d \<Longrightarrow> \<forall>p \<in> set (proposals d). \<exists>p' \<in> set (proposals d'). dp_evolves p p'"
    and "system_inv d \<Longrightarrow> \<forall>r \<in> set (relations d). \<exists>r' \<in> set (relations d'). rel_evolves r r'"
    and "system_inv d \<Longrightarrow> b \<Longrightarrow> ledger_consistent d \<Longrightarrow> ledger_consistent d'"
  shows "keeps b d d'"
  unfolding keeps_def using assms by blast

lemma rows_evolve_trans:
  assumes "\<forall>x \<in> A. \<exists>y \<in> B. R x y" and "\<forall>y \<in> B. \<exists>z \<in> C. R y z"
    and "\<And>x y z. R x y \<Longrightarrow> R y z \<Longrightarrow> R x z"
  shows "\<forall>x \<in> A. \<exists>z \<in> C. R x z"
  using assms by meson

lemma keeps_trans:
  assumes "keeps b d d1" and "keeps b d1 d2"
  shows "keeps b d d2"
proof (rule keepsI)
  assume inv: "system_inv d"
  note 1 = keepsD [OF assms(1) inv]
  note 2 = keepsD [OF assms(2) 1(1)]
  show "system_inv d2" by (rule 2(1))
  show "card_step\<^sup>*\<^sup>* d d2" using 1(2) 2(2) by (rule rtranclp_trans)
  show "\<forall>e \<in> set (evidence d). \<exists>e' \<in> set (evidence d2). evolves e e'"
    by (rule rows_evolve_trans [OF 1(3) 2(3)]) (rule evolves_trans)
  show "\<forall>p \<in> set (proposals d). \<exists>p' \<in> set (proposals d2). dp_evolves p p'"
    by (rule rows_evolve_trans [OF 1(4) 2(4)]) (rule dp_evolves_trans)
  show "\<forall>r \<in> set (relations d). \<exists>r' \<in> set (relations d2). rel_evolves r r'"
    by (rule rows_evolve_trans [OF 1(5) 2(5)]) (rule rel_evolves_trans)
  show "b \<Longrightarrow> ledger_consistent d \<Longrightarrow> ledger_consistent d2" using 1(6) 2(6) by simp
qed

section \<open>Frames\<close>

lemma ledger_frame:
  "tasks d' = tasks d \<Longrightarrow> work_items d' = work_items d \<Longrightarrow> ledger_inv d' = ledger_inv d"
  by (simp add: ledger_inv_def)

lemma consistent_frame:
  "tasks d' = tasks d \<Longrightarrow> work_items d' = work_items d \<Longrightarrow> task_events d' = task_events d \<Longrightarrow>
    ledger_consistent d' = ledger_consistent d"
  by (simp add: ledger_consistent_def work_agrees_def log_agrees_def logged_status_def)

lemma evidence_frame: "evidence d' = evidence d \<Longrightarrow> evidence_inv d' = evidence_inv d"
  by (simp add: evidence_inv_def)

lemma relations_frame: "relations d' = relations d \<Longrightarrow> relations_inv d' = relations_inv d"
  by (simp add: relations_inv_def no_cycle_def reaches_def live_edges_def)

text \<open>A write of one component's tables: only that component has something to show.\<close>

lemma keeps_cards:
  assumes "cards_inv d \<Longrightarrow> card_step d (d\<lparr>cards := cs, card_events := es\<rparr>)"
  shows "keeps b d (d\<lparr>cards := cs, card_events := es\<rparr>)" (is "keeps b d ?d")
proof (rule keepsI)
  assume inv: "system_inv d"
  then have step: "card_step d ?d" using assms by (simp add: system_inv_def)
  then show "card_step\<^sup>*\<^sup>* d ?d" by (rule r_into_rtranclp)
  have "cards_inv ?d" using cards_inv_step [OF step] inv by (simp add: system_inv_def)
  then show "system_inv ?d"
    using inv ledger_frame [of ?d d] evidence_frame [of ?d d] relations_frame [of ?d d] dup_inv_cong [of ?d d]
    by (simp add: system_inv_def)
  show "ledger_consistent d \<Longrightarrow> ledger_consistent ?d" using consistent_frame [of ?d d] by simp
qed (simp_all add: same_evolve)

lemma silent_steps: "cards d' = cards d \<Longrightarrow> card_events d' = card_events d \<Longrightarrow> card_step\<^sup>*\<^sup>* d d'"
  by (rule r_into_rtranclp) (rule card_step.silent)

lemma keeps_evidence:
  assumes "list_all2 evolves (evidence d) es"
  shows "keeps b d (d\<lparr>evidence := es\<rparr>)" (is "keeps b d ?d")
proof (rule keepsI)
  assume inv: "system_inv d"
  have "evidence_inv ?d" using evidence_inv_evolves [OF _ assms] inv by (simp add: system_inv_def)
  then show "system_inv ?d"
    using inv ledger_frame [of ?d d] relations_frame [of ?d d] dup_inv_cong [of ?d d] cards_inv_cong [of ?d d]
    by (simp add: system_inv_def)
  show "\<forall>e \<in> set (evidence d). \<exists>e' \<in> set (evidence ?d). evolves e e'"
    using list_all2_set_left [OF assms] by simp
  show "ledger_consistent d \<Longrightarrow> ledger_consistent ?d" using consistent_frame [of ?d d] by simp
qed (simp_all add: same_evolve silent_steps)

lemma keeps_proposals:
  assumes "dup_inv d \<Longrightarrow> good_step d d'" and "\<exists>ps es. d' = d\<lparr>proposals := ps, proposal_events := es\<rparr>"
  shows "keeps b d d'"
proof -
  obtain ps es where d': "d' = d\<lparr>proposals := ps, proposal_events := es\<rparr>" using assms(2) by blast
  have frame: "tasks d' = tasks d" "work_items d' = work_items d" "task_events d' = task_events d"
    "evidence d' = evidence d" "relations d' = relations d" "cards d' = cards d"
    "card_events d' = card_events d" by (simp_all add: d')
  show ?thesis
  proof (rule keepsI)
    assume inv: "system_inv d"
    then have good: "good_step d d'" using assms(1) by (simp add: system_inv_def)
    show "system_inv d'"
      using inv good ledger_frame [OF frame(1,2)] evidence_frame [OF frame(4)] relations_frame [OF frame(5)]
        cards_inv_cong [OF frame(6,7)]
      by (simp add: system_inv_def good_step_def)
    show "\<forall>p \<in> set (proposals d). \<exists>p' \<in> set (proposals d'). dp_evolves p p'"
      using good by (simp add: good_step_def)
    show "ledger_consistent d \<Longrightarrow> ledger_consistent d'" using consistent_frame [OF frame(1-3)] by simp
  qed (simp_all add: frame same_evolve silent_steps)
qed

lemma keeps_relations:
  assumes "relations_inv d \<Longrightarrow> relations_inv (d\<lparr>relations := rs\<rparr>)"
    and "relations_inv d \<Longrightarrow> \<forall>r \<in> set (relations d). \<exists>r' \<in> set rs. rel_evolves r r'"
  shows "keeps b d (d\<lparr>relations := rs\<rparr>)" (is "keeps b d ?d")
proof (rule keepsI)
  assume inv: "system_inv d"
  then show "system_inv ?d"
    using assms(1) ledger_frame [of ?d d] evidence_frame [of ?d d] dup_inv_cong [of ?d d] cards_inv_cong [of ?d d]
    by (simp add: system_inv_def)
  show "\<forall>r \<in> set (relations d). \<exists>r' \<in> set (relations ?d). rel_evolves r r'"
    using assms(2) inv by (simp add: system_inv_def)
  show "ledger_consistent d \<Longrightarrow> ledger_consistent ?d" using consistent_frame [of ?d d] by simp
qed (simp_all add: same_evolve silent_steps)

lemma keeps_titles: "keeps b d (d\<lparr>title_jobs := js\<rparr>)" (is "keeps b d ?d")
proof (rule keepsI)
  show "system_inv d \<Longrightarrow> system_inv ?d"
    using ledger_frame [of ?d d] evidence_frame [of ?d d] relations_frame [of ?d d] dup_inv_cong [of ?d d]
      cards_inv_cong [of ?d d]
    by (simp add: system_inv_def)
  show "ledger_consistent d \<Longrightarrow> ledger_consistent ?d" using consistent_frame [of ?d d] by simp
qed (simp_all add: same_evolve silent_steps)

text \<open>The task tables: an accepted transition, and the reopening that writes no event.\<close>

lemma keeps_tasks:
  assumes "ledger_inv d \<Longrightarrow> ledger_inv d'"
    and "ledger_inv d \<Longrightarrow> b \<Longrightarrow> ledger_consistent d \<Longrightarrow> ledger_consistent d'"
    and "evidence d' = evidence d" "relations d' = relations d" "cards d' = cards d"
      "card_events d' = card_events d" "proposals d' = proposals d" "proposal_events d' = proposal_events d"
  shows "keeps b d d'"
proof (rule keepsI)
  show "system_inv d \<Longrightarrow> system_inv d'"
    using assms(1) evidence_frame [OF assms(3)] relations_frame [OF assms(4)] cards_inv_cong [OF assms(5,6)]
      dup_inv_cong [OF assms(7,8)]
    by (simp add: system_inv_def)
  show "system_inv d \<Longrightarrow> b \<Longrightarrow> ledger_consistent d \<Longrightarrow> ledger_consistent d'"
    using assms(2) by (simp add: system_inv_def)
qed (simp_all add: assms(3-8) same_evolve silent_steps)

section \<open>Writes of the card tables\<close>

lemma keeps_move:
  assumes c: "cards_inv d \<Longrightarrow> c \<in> set (cards d)" and q: "Q c"
    and next1: "card_next (cd_status c) (ce_kind e) = Some (cd_status (f c))"
    and fixd: "card_fixed (f c) = card_fixed c"
    and v: "cd_version (f c) = cd_version c + version_step (ce_kind e)"
    and ok: "card_ok c \<Longrightarrow> card_ok (f c)"
    and e: "ce_card_id e = cd_id c" "ce_card_version e = cd_version (f c)"
  shows "keeps b d (add_card_event e (d\<lparr>cards :=
    update_where (\<lambda>x. cd_id x = cd_id c \<and> Q x) f (cards d)\<rparr>))"
proof -
  have eq: "add_card_event e (d\<lparr>cards := cs\<rparr>) = d\<lparr>cards := cs, card_events := card_events d @ [e]\<rparr>" for cs
    by (simp add: add_card_event_def)
  show ?thesis
    unfolding eq
  proof (rule keeps_cards)
    assume inv: "cards_inv d"
    note mem = c [OF inv]
    show "card_step d (d\<lparr>cards := update_where (\<lambda>x. cd_id x = cd_id c \<and> Q x) f (cards d),
        card_events := card_events d @ [e]\<rparr>)"
      by (rule card_step.moved [OF mem next1 fixd v ok [OF cards_invD(2) [OF inv mem]] e])
        (simp_all add: update_where_unique [OF cards_invD(1) [OF inv] mem, of Q f, OF q])
  qed
qed

lemma keeps_raise:
  assumes "insert_card c d = Inr d1" and "cd_id c = next_id cd_id (cards d)" and "cd_version c = 1"
    and "active (cd_status c)" and "card_ok c"
    and "list_all (\<lambda>e. ce_card_id e = cd_id c \<and> ce_card_version e = 1) es" "es \<noteq> []"
    and "kind_status (ce_kind (last es)) = cd_status c"
  shows "keeps b d (d1\<lparr>card_events := card_events d1 @ es\<rparr>)"
proof -
  have d1: "d1 = d\<lparr>cards := cards d @ [c]\<rparr>" and free: "\<not> list_ex (active_on (cd_task_id c)) (cards d)"
    using assms(1,4) by (auto simp: insert_card_def split: if_splits)
  have "keeps b d (d\<lparr>cards := cards d @ [c], card_events := card_events d @ es\<rparr>)"
    by (rule keeps_cards, rule card_step.raised [OF assms(2-5) free assms(6-8)]) simp_all
  then show ?thesis by (simp add: d1)
qed

lemma keeps_touch: "keeps b d (touch_card k now d)"
proof -
  have "keeps b d (d\<lparr>cards := update_where (\<lambda>x. cd_id x = k \<and> cd_status x = CardPending)
      (\<lambda>x. x\<lparr>cd_due_at := now, cd_updated_at := now\<rparr>) (cards d), card_events := card_events d\<rparr>)"
    by (rule keeps_cards, rule card_step.touched) simp_all
  then show ?thesis by (simp add: touch_card_def)
qed

lemma card_event_of_simps [simp]:
  "ce_card_id (card_event_of c kind cv tv a now) = cd_id c"
  "ce_kind (card_event_of c kind cv tv a now) = kind"
  "ce_card_version (card_event_of c kind cv tv a now) = cv"
  by (simp_all add: card_event_of_def)

lemma card_ok_writes:
  "card_ok c \<Longrightarrow> card_ok (cancelled now c)"
  "card_ok c \<Longrightarrow> active (cd_status c) \<Longrightarrow> card_ok (returned now c)"
  "card_ok c \<Longrightarrow> active (cd_status c) \<Longrightarrow> card_ok (snoozed now c)"
  "card_ok c \<Longrightarrow> cd_status c = CardDelivered \<Longrightarrow> card_ok (resolved a now c)"
  "card_ok c \<Longrightarrow> active (cd_status c) \<Longrightarrow> card_ok (claimed digest expires consumer now c)"
  "card_ok c \<Longrightarrow> card_ok (unpresent c)"
  by (auto simp: card_ok_def cancelled_def returned_def snoozed_def resolved_def claimed_def unclaim_def
      unpresent_def)

lemma card_fixed_writes [simp]:
  "card_fixed (cancelled now c) = card_fixed c" "card_fixed (returned now c) = card_fixed c"
  "card_fixed (snoozed now c) = card_fixed c" "card_fixed (resolved a now c) = card_fixed c"
  "card_fixed (claimed digest expires consumer now c) = card_fixed c"
  "card_fixed (unpresent c) = card_fixed c"
  by (simp_all add: card_fixed_def cancelled_def returned_def snoozed_def resolved_def claimed_def
      unclaim_def unpresent_def)

lemma card_write_columns [simp]:
  "cd_status (cancelled now c) = CardCancelled" "cd_version (cancelled now c) = cd_version c + 1"
  "cd_status (returned now c) = CardPending" "cd_version (returned now c) = cd_version c + 1"
  "cd_status (snoozed now c) = CardSnoozed" "cd_version (snoozed now c) = cd_version c + 1"
  "cd_status (resolved a now c) = CardResolved" "cd_version (resolved a now c) = cd_version c + 1"
  "cd_status (claimed digest expires consumer now c) = CardDelivering"
  "cd_version (claimed digest expires consumer now c) = cd_version c + 1"
  "cd_status (unpresent c) = cd_status c" "cd_version (unpresent c) = cd_version c"
  "cd_id (cancelled now c) = cd_id c" "cd_id (returned now c) = cd_id c"
  by (simp_all add: cancelled_def returned_def snoozed_def resolved_def claimed_def unclaim_def
      unpresent_def)

section \<open>Delivery\<close>

lemma next_cancelled: "active st \<Longrightarrow> card_next st CevCancelled = Some CardCancelled"
  by (cases st) simp_all

lemma keeps_expire:
  assumes "cards_inv d \<Longrightarrow> c \<in> set (cards d)" and "cd_status c = CardDelivering"
  shows "keeps b d (expire_card now c d)"
  unfolding expire_card_def
  by (rule keeps_move [where Q = "\<lambda>x. cd_status x = CardDelivering \<and> cd_version x = cd_version c", OF assms(1)])
    (use assms(2) in \<open>auto simp: version_step_def unclaim_def card_fixed_def card_ok_def\<close>)

lemma keeps_claim:
  assumes "cards_inv d \<Longrightarrow> c \<in> set (cards d)" and "cd_status c \<in> {CardPending, CardSnoozed}"
  shows "keeps b d (claim_card digest expires consumer now c d)"
proof -
  have st: "card_next (cd_status c) CevClaimed = Some CardDelivering" "active (cd_status c)"
    using assms(2) by auto
  show ?thesis
    unfolding claim_card_def
    by (rule keeps_move [where Q = "\<lambda>x. cd_version x = cd_version c \<and> cd_status x \<in> {CardPending, CardSnoozed}",
          OF assms(1)])
      (use assms(2) st in \<open>simp_all add: version_step_def card_ok_writes\<close>)
qed

lemma expire_other:
  "x \<in> set (cards d) \<Longrightarrow> cd_id x \<noteq> cd_id c \<Longrightarrow> x \<in> set (cards (expire_card now c d))"
  by (force simp: expire_card_def add_card_event_def update_where_def)

lemma keeps_expire_all:
  assumes "distinct (map cd_id rows)" and "\<And>c. c \<in> set rows \<Longrightarrow> c \<in> set (cards d) \<and> cd_status c = CardDelivering"
  shows "keeps b d (fold (expire_card now) rows d)"
  using assms
proof (induction rows arbitrary: d)
  case (Cons c rows)
  have "x \<in> set (cards (expire_card now c d)) \<and> cd_status x = CardDelivering" if "x \<in> set rows" for x
    using Cons.prems that expire_other [of x d c now] by (metis distinct.simps(2) image_eqI list.set_intros(2)
        list.set_map list.simps(9))
  then have "keeps b (expire_card now c d) (fold (expire_card now) rows (expire_card now c d))"
    using Cons.prems(1) by (intro Cons.IH) simp_all
  moreover have "keeps b d (expire_card now c d)"
    by (rule keeps_expire) (use Cons.prems(2) [of c] in simp_all)
  ultimately show ?case using keeps_trans by simp
qed (simp add: keeps_refl)

lemma keeps_unless: "(system_inv d \<Longrightarrow> keeps b d d') \<Longrightarrow> keeps b d d'"
  unfolding keeps_def by blast

lemma distinct_rows:
  "cards_inv d \<Longrightarrow> distinct (map cd_id (filter P (cards d)))"
  using cards_invD(1) [of d] by (simp add: unique_key_def distinct_map_filter)

lemma distinct_sorted_rows: "distinct (map key xs) \<Longrightarrow> distinct (map key (sort_key f xs))"
  by (simp add: distinct_map)

lemma keeps_reap: "keeps b d (reap now d)"
proof (rule keeps_unless)
  assume "system_inv d"
  then have "distinct (map cd_id (sort_key cd_id (filter (expired_delivering now) (cards d))))"
    by (intro distinct_sorted_rows distinct_rows) (simp add: system_inv_def)
  then show "keeps b d (reap now d)"
    unfolding reap_def by (rule keeps_expire_all) (auto simp: expired_delivering_def)
qed

lemma set_by_due [simp]: "set (by_due cs) = set cs"
  by (simp add: by_due_def)

lemma keeps_claim_next:
  assumes "claim_next sha lease consumer role token now d = Inr (out, d')"
  shows "keeps b d d'"
proof -
  let ?d1 = "reap now d"
  have cases: "d' = ?d1 \<or> d' = d \<or> (\<exists>c rest. by_due (filter (claimable now ?d1) (cards ?d1)) = c # rest
      \<and> d' = claim_card (sha token) (now + lease) consumer now c ?d1)"
  proof (cases "by_due (filter (claimable now ?d1) (cards ?d1))")
    case Nil
    with assms show ?thesis
      by (simp add: claim_next_def Let_def split: if_splits option.splits)
  next
    case (Cons c rest)
    with assms show ?thesis
      by (simp add: claim_next_def Let_def split: if_splits option.splits)
  qed
  show ?thesis
    using cases
  proof (elim disjE exE conjE)
    fix c rest
    assume rows: "by_due (filter (claimable now ?d1) (cards ?d1)) = c # rest"
      and d': "d' = claim_card (sha token) (now + lease) consumer now c ?d1"
    have "c \<in> set (by_due (filter (claimable now ?d1) (cards ?d1)))" unfolding rows by simp
    then have "c \<in> set (cards ?d1)" "cd_status c \<in> {CardPending, CardSnoozed}"
      by (auto simp: claimable_def waiting_card_def)
    then have "keeps b ?d1 d'" unfolding d' by (intro keeps_claim) simp_all
    with keeps_reap show ?thesis by (rule keeps_trans)
  qed (simp_all add: keeps_reap keeps_refl)
qed

lemma card_of_mem: "card_of k d = Some c \<Longrightarrow> c \<in> set (cards d) \<and> cd_id c = k"
  by (rule find_SomeD)

lemma keeps_complete: "keeps b d (snd (complete_delivery sha k expected token transport ref now d))"
proof (cases "snd (complete_delivery sha k expected token transport ref now d) = d")
  case True
  then show ?thesis by (simp only: keeps_refl)
next
  case False
  then obtain c where c: "card_of k d = Some c" "cd_version c = expected" "cd_status c = CardDelivering"
    and eq: "snd (complete_delivery sha k expected token transport ref now d)
      = add_card_event (card_event_of c CevDelivered expected (cd_task_version c) None now)
          (update_card c (\<lambda>x. x\<lparr>cd_status := CardDelivered, cd_claim_expires_at := None,
             cd_transport := Some transport, cd_delivery_ref := Some ref,
             cd_delivered_at := Some now, cd_updated_at := now\<rparr>) d)"
    by (auto simp: complete_delivery_def Let_def split: if_splits option.splits)
  show ?thesis
    unfolding eq update_card_def
    by (rule keeps_move)
      (use c card_of_mem [OF c(1)] in \<open>auto simp: version_step_def card_fixed_def card_ok_def\<close>)
qed

lemma keeps_fail: "keeps b d (snd (fail_delivery sha k expected token now d))"
proof (cases "snd (fail_delivery sha k expected token now d) = d")
  case True
  then show ?thesis by (simp only: keeps_refl)
next
  case False
  then obtain c where c: "card_of k d = Some c" "cd_version c = expected" "cd_status c = CardDelivering"
    and eq: "snd (fail_delivery sha k expected token now d)
      = add_card_event (card_event_of c CevFailed (expected + 1) (cd_task_version c) None now)
          (update_card c (returned now) d)"
    by (auto simp: fail_delivery_def split: if_splits option.splits)
  show ?thesis
    unfolding eq update_card_def
    by (rule keeps_move)
      (use c card_of_mem [OF c(1)] in \<open>auto simp: version_step_def card_ok_writes\<close>)
qed

text \<open>A delivered card put back, by the operator or because nobody answered.\<close>

lemma keeps_put_back:
  assumes "rowcount (\<lambda>x. cd_id x = cd_id c \<and> cd_version x = cd_version c \<and> cd_status x = CardDelivered) (cards d) = 1"
  shows "keeps b d (add_card_event (card_event_of c CevFailed (cd_version c + 1) tv None now)
    (d\<lparr>cards := update_where (\<lambda>x. cd_id x = cd_id c \<and> cd_version x = cd_version c
        \<and> cd_status x = CardDelivered) (unpresent \<circ> returned now) (cards d)\<rparr>))"
proof -
  have "filter (\<lambda>x. cd_id x = cd_id c \<and> cd_version x = cd_version c \<and> cd_status x = CardDelivered) (cards d) \<noteq> []"
    using assms by (auto simp: rowcount_def)
  then obtain x where x: "x \<in> set (cards d)" "cd_id x = cd_id c" "cd_version x = cd_version c"
    "cd_status x = CardDelivered" unfolding filter_empty_conv by blast
  have ev: "card_event_of c CevFailed (cd_version c + 1) tv None now
      = (card_event_of x CevFailed (cd_version x + 1) tv None now)\<lparr>ce_task_id := cd_task_id c\<rparr>"
    using x by (simp add: card_event_of_def)
  show ?thesis
    unfolding ev x(2,3) [symmetric]
    by (rule keeps_move [where c = x and Q = "\<lambda>y. cd_version y = cd_version x \<and> cd_status y = CardDelivered"])
      (use x in \<open>simp_all add: version_step_def card_ok_writes card_event_of_def\<close>)
qed

lemma keeps_retry:
  assumes "retry_delivery k expected now d = Inr (r, d')"
  shows "keeps b d d'"
proof (cases "d' = d")
  case True
  then show ?thesis by (simp only: keeps_refl)
next
  case False
  then obtain c t where c: "joined_card k d = Some (c, t)" "cd_version c = expected"
    and count: "rowcount (\<lambda>x. cd_id x = k \<and> cd_version x = expected \<and> cd_status x = CardDelivered) (cards d) = 1"
    and d': "d' = add_card_event (card_event_of c CevFailed (expected + 1) (cd_task_version c) None now)
      (d\<lparr>cards := update_where (\<lambda>x. cd_id x = k \<and> cd_version x = expected \<and> cd_status x = CardDelivered)
        (unpresent \<circ> returned now) (cards d)\<rparr>)"
    using assms by (auto simp: retry_delivery_def Let_def split: if_splits option.splits prod.splits)
  have "cd_id c = k" using c(1) by (auto simp: joined_card_def split: option.splits dest: row_of_key)
  then show ?thesis
    using keeps_put_back [of c d b "cd_task_version c" now] count d' c(2) by simp
qed

section \<open>Withdrawing cards\<close>

lemma keeps_rebind:
  assumes "\<And>p. hit p \<Longrightarrow> dp_state p = DupProposed"
  shows "keeps b d (d\<lparr>proposals := update_where hit (\<lambda>p. p\<lparr>dp_card_id := c, dp_updated_at := now\<rparr>)
    (proposals d)\<rparr>)"
proof (rule keeps_proposals)
  show "dup_inv d \<Longrightarrow> good_step d (d\<lparr>proposals := update_where hit
      (\<lambda>p. p\<lparr>dp_card_id := c, dp_updated_at := now\<rparr>) (proposals d)\<rparr>)"
    by (rule dup_rebind_good) (simp_all add: assms)
  show "\<exists>ps es. d\<lparr>proposals := update_where hit (\<lambda>p. p\<lparr>dp_card_id := c, dp_updated_at := now\<rparr>) (proposals d)\<rparr>
      = d\<lparr>proposals := ps, proposal_events := es\<rparr>"
    by (rule exI, rule exI [of _ "proposal_events d"]) simp
qed

lemma keeps_dup_release: "dup_release_for_card c now d = Inr (n, d') \<Longrightarrow> keeps b d d'"
  by (cases "c < 1")
    (auto simp: dup_release_for_card_def dup_identifier_def Let_def intro!: keeps_rebind)

lemma keeps_release_evidence: "release_evidence c d = Inr (n, d') \<Longrightarrow> keeps b d d'"
  by (cases "c < 1")
    (auto simp: release_evidence_def comp_identifier_def intro!: keeps_evidence list_all2_update_where
      bind_evolves evolves_refl)

text \<open>The card write and its event, with the releases moved behind them.\<close>

definition card_cancelled :: "time \<Rightarrow> card_row \<Rightarrow> db \<Rightarrow> db" where
  "card_cancelled now c d = add_card_event
     (card_event_of c CevCancelled (cd_version c + 1) (cd_task_version c) None now)
     (update_card c (cancelled now) d)"

lemma cancel_card_effect:
  assumes "cancel_card now c d = Inr d'"
  shows "\<exists>n m d1. release_evidence (cd_id c) (card_cancelled now c d) = Inr (n, d1)
    \<and> dup_release_for_card (cd_id c) now d1 = Inr (m, d')"
proof (cases "cd_id c < 1")
  case True
  then show ?thesis using assms by (simp add: cancel_card_def release_evidence_def comp_identifier_def)
next
  case False
  then show ?thesis
    using assms
    by (auto simp: cancel_card_def release_evidence_def comp_identifier_def dup_release_for_card_def
        dup_identifier_def Let_def card_cancelled_def add_card_event_def update_card_def)
qed

lemma keeps_card_cancelled:
  assumes "cards_inv d \<Longrightarrow> c \<in> set (cards d)" and "active (cd_status c)"
  shows "keeps b d (card_cancelled now c d)"
  unfolding card_cancelled_def update_card_def
  by (rule keeps_move [where Q = "\<lambda>x. cd_version x = cd_version c", OF assms(1)])
    (use assms(2) in \<open>simp_all add: version_step_def card_ok_writes next_cancelled\<close>)

lemma keeps_cancel_card:
  assumes "cancel_card now c d = Inr d'" and "cards_inv d \<Longrightarrow> c \<in> set (cards d)" and "active (cd_status c)"
  shows "keeps b d d'"
proof -
  obtain n m d1 where 1: "release_evidence (cd_id c) (card_cancelled now c d) = Inr (n, d1)"
    and 2: "dup_release_for_card (cd_id c) now d1 = Inr (m, d')"
    using cancel_card_effect [OF assms(1)] by blast
  show ?thesis
    by (rule keeps_trans [OF keeps_trans [OF keeps_card_cancelled [OF assms(2,3)]
            keeps_release_evidence [OF 1]] keeps_dup_release [OF 2]])
qed

lemma release_frame:
  "release_evidence c d = Inr (n, d') \<Longrightarrow> cards d' = cards d \<and> card_events d' = card_events d
    \<and> tasks d' = tasks d \<and> proposals d' = proposals d"
  "dup_release_for_card c now d = Inr (n, d') \<Longrightarrow> cards d' = cards d \<and> card_events d' = card_events d
    \<and> tasks d' = tasks d \<and> evidence d' = evidence d"
  by (cases "c < 1";
      auto simp: release_evidence_def comp_identifier_def dup_release_for_card_def dup_identifier_def Let_def)+

lemma cards_cancel_card:
  assumes "cancel_card now c d = Inr d'"
  shows "cards d' = update_where (\<lambda>x. cd_id x = cd_id c \<and> cd_version x = cd_version c) (cancelled now) (cards d)
    \<and> tasks d' = tasks d"
proof -
  obtain n m d1 where 1: "release_evidence (cd_id c) (card_cancelled now c d) = Inr (n, d1)"
    and 2: "dup_release_for_card (cd_id c) now d1 = Inr (m, d')"
    using cancel_card_effect [OF assms] by blast
  show ?thesis
    using release_frame(1) [OF 1] release_frame(2) [OF 2]
    by (simp add: card_cancelled_def add_card_event_def update_card_def)
qed

lemma cancel_other:
  assumes "cancel_card now c d = Inr d'" and "x \<in> set (cards d)" and "cd_id x \<noteq> cd_id c"
  shows "x \<in> set (cards d')"
proof -
  have "x = (if cd_id x = cd_id c \<and> cd_version x = cd_version c then cancelled now x else x)"
    using assms(3) by simp
  then show ?thesis
    using cards_cancel_card [OF assms(1)] assms(2) by (auto simp: update_where_def image_iff)
qed

text \<open>Rows fetched once and cancelled one after the other.\<close>

lemma keeps_cancel_each:
  assumes "distinct (map cd_id rows)"
    and "\<And>c. c \<in> set rows \<Longrightarrow> c \<in> set (cards d) \<and> active (cd_status c)"
    and "each (\<lambda>c d. if P c then Inr d else cancel_card now c d) rows d = Inr d'"
  shows "keeps b d d'"
  using assms
proof (induction rows arbitrary: d)
  case Nil
  then show ?case by (simp add: keeps_refl)
next
  case (Cons c rows)
  obtain d1 where d1: "(if P c then Inr d else cancel_card now c d) = Inr d1"
    and rest: "each (\<lambda>c d. if P c then Inr d else cancel_card now c d) rows d1 = Inr d'"
    using Cons.prems(3) by (auto simp: rbind_Inr_iff)
  have ids: "cd_id x \<noteq> cd_id c" if "x \<in> set rows" for x
    using Cons.prems(1) that by (metis distinct.simps(2) image_eqI list.set_map list.simps(9))
  have mem: "x \<in> set (cards d1) \<and> active (cd_status x)" if "x \<in> set rows" for x
  proof (cases "P c")
    case True
    then show ?thesis using d1 Cons.prems(2) that by simp
  next
    case False
    then have "cancel_card now c d = Inr d1" using d1 by simp
    from cancel_other [OF this, of x] show ?thesis
      using Cons.prems(2) [of x] ids [OF that] that by simp
  qed
  have dist: "distinct (map cd_id rows)" using Cons.prems(1) by simp
  have "keeps b d d1"
  proof (cases "P c")
    case True
    then show ?thesis using d1 keeps_refl by simp
  next
    case False
    then have "cancel_card now c d = Inr d1" using d1 by simp
    then show ?thesis
      by (rule keeps_cancel_card) (use Cons.prems(2) [of c] in simp_all)
  qed
  moreover have "keeps b d1 d'" by (rule Cons.IH [OF dist mem rest])
  ultimately show ?case by (rule keeps_trans)
qed

lemma keeps_cancel_stale:
  assumes "cancel_stale now d = Inr (n, d')"
  shows "keeps b d d'"
proof (rule keeps_unless)
  assume "system_inv d"
  let ?rows = "sort_key cd_id (filter (stale d) (cards d))"
  have "each (cancel_card now) ?rows d = Inr d'"
    using assms by (auto simp: cancel_stale_def rbind_Inr_iff Let_def)
  then have loop: "each (\<lambda>c d. if False then Inr d else cancel_card now c d) ?rows d = Inr d'"
    by simp
  have dist: "distinct (map cd_id ?rows)"
    using \<open>system_inv d\<close> by (intro distinct_sorted_rows distinct_rows) (simp add: system_inv_def)
  have "c \<in> set (cards d) \<and> active (cd_status c)" if "c \<in> set ?rows" for c
    using that by (auto simp: stale_def)
  from keeps_cancel_each [where P = "\<lambda>c. False", OF dist this loop] show "keeps b d d'" .
qed

lemma keeps_cancel_duplicate_task_cards:
  assumes "cancel_duplicate_task_cards i except now d = Inr d'"
  shows "keeps b d d'"
proof (rule keeps_unless)
  assume "system_inv d"
  have dist: "distinct (map cd_id (filter (active_on i) (cards d)))"
    using \<open>system_inv d\<close> by (intro distinct_rows) (simp add: system_inv_def)
  have "c \<in> set (cards d) \<and> active (cd_status c)" if "c \<in> set (filter (active_on i) (cards d))" for c
    using that by (auto simp: active_on_def)
  from keeps_cancel_each [where P = "\<lambda>c. cd_id c = except", OF dist this
      assms [unfolded cancel_duplicate_task_cards_def]]
  show "keeps b d d'" .
qed

lemma keeps_cancel_bound:
  assumes "cancel_bound_duplicate_card k now d = Inr (n, d')"
  shows "keeps b d d'"
proof (cases "card_of k d")
  case None
  then show ?thesis using assms by (auto simp: cancel_bound_duplicate_card_def rbind_Inr_iff intro: keeps_dup_release)
next
  case (Some c)
  show ?thesis
  proof (cases "active (cd_status c)")
    case True
    then have "cancel_card now c d = Inr d'"
      using assms Some by (auto simp: cancel_bound_duplicate_card_def rbind_Inr_iff Let_def split: if_splits)
    then show ?thesis by (rule keeps_cancel_card) (use True card_of_mem [OF Some] in simp_all)
  next
    case False
    then show ?thesis
      using assms Some by (auto simp: cancel_bound_duplicate_card_def rbind_Inr_iff intro: keeps_dup_release)
  qed
qed

section \<open>Asking and expiring\<close>

lemma keeps_raise_card:
  assumes "raise_card q now d = Inr (k, d')"
  shows "keeps b d d'"
proof -
  let ?c = "new_card (next_id cd_id (cards d)) (qn_task_id q) (qn_task_version q) (qn_revision q) now"
  obtain d1 where ins: "insert_card ?c d = Inr d1"
    and d': "d' = d1\<lparr>card_events := card_events d1 @ [card_event_of ?c CevScheduled 1 (qn_task_version q) None now]\<rparr>"
    using assms by (auto simp: raise_card_def rbind_Inr_iff Let_def add_card_event_def)
  show ?thesis
    unfolding d'
    by (rule keeps_raise [OF ins])
      (use next_id_positive [of cd_id "cards d"] in \<open>simp_all add: new_card_def card_ok_def\<close>)
qed

lemma keeps_bind_evidence: "bind_evidence k c d = Inr (done, d') \<Longrightarrow> keeps b d d'"
  by (cases "c < 1"; cases "k < 1")
    (auto simp: bind_evidence_def comp_identifier_def intro!: keeps_evidence list_all2_update_where
      bind_evolves evolves_refl)

lemma keeps_dup_bind: "dup_bind k c now d = Inr (done, d') \<Longrightarrow> keeps b d d'"
  by (cases "c < 1"; cases "k < 1")
    (auto simp: dup_bind_def dup_identifier_def Let_def intro!: keeps_rebind)

lemma keeps_ask_completion_loop:
  "ask_completion_loop now qs seen n d = Inr (m, d') \<Longrightarrow> keeps b d d'"
proof (induction qs arbitrary: seen n d)
  case Nil
  then show ?case by (simp add: keeps_refl)
next
  case (Cons q qs)
  obtain asked raised where n: "n = (asked, raised)" by (cases n)
  have bound: "keeps b d1 d'"
    if h: "rbind (bind_evidence (qn_id q) k d1) (\<lambda>(done, d2).
        if \<not> done then ask_completion_loop now qs seen (asked, r) d2
        else ask_completion_loop now qs (qn_task_id q # seen) (asked + 1, r) d2) = Inr (m, d')" for k r d1
  proof -
    obtain done1 d2 where b: "bind_evidence (qn_id q) k d1 = Inr (done1, d2)"
      and rest: "(if \<not> done1 then ask_completion_loop now qs seen (asked, r) d2
        else ask_completion_loop now qs (qn_task_id q # seen) (asked + 1, r) d2) = Inr (m, d')"
      using h by (cases "bind_evidence (qn_id q) k d1") auto
    have "keeps b d2 d'" using rest Cons.IH by (cases done1) auto
    with keeps_bind_evidence [OF b] show ?thesis by (rule keeps_trans)
  qed
  show ?case
  proof (cases "qn_task_id q \<in> set seen")
    case True
    then show ?thesis using Cons by (simp add: n)
  next
    case False
    show ?thesis
    proof (cases "qn_active q")
      case None
      obtain k d1 where r: "raise_card q now d = Inr (k, d1)"
        using Cons.prems False None by (auto simp: n rbind_Inr_iff)
      have "keeps b d1 d'" using Cons.prems False None r by (intro bound) (simp add: n)
      with keeps_raise_card [OF r] show ?thesis by (rule keeps_trans)
    next
      case (Some a)
      obtain k st where a: "a = (k, st)" by (cases a)
      show ?thesis
      proof (cases "st = CardPending")
        case True
        have "keeps b (touch_card k now d) d'"
          using Cons.prems False Some a True by (intro bound) (simp add: n)
        with keeps_touch show ?thesis by (rule keeps_trans)
      next
        case False
        then show ?thesis using Cons Some a \<open>qn_task_id q \<notin> set seen\<close> by (simp add: n)
      qed
    qed
  qed
qed

lemma keeps_ask_duplicates_loop:
  "ask_duplicates_loop now qs handled n d = Inr (m, d') \<Longrightarrow> keeps b d d'"
proof (induction qs arbitrary: handled n d)
  case Nil
  then show ?case by (simp add: keeps_refl)
next
  case (Cons q qs)
  obtain asked raised where n: "n = (asked, raised)" by (cases n)
  have bound: "keeps b d1 d'"
    if h: "rbind (dup_bind (qn_id q) k now d1) (\<lambda>(done, d2).
        ask_duplicates_loop now qs (qn_task_id q # handled) ((if done then asked + 1 else asked), r) d2)
        = Inr (m, d')" for k r d1
  proof -
    obtain done1 d2 where b: "dup_bind (qn_id q) k now d1 = Inr (done1, d2)"
      and rest: "ask_duplicates_loop now qs (qn_task_id q # handled)
        ((if done1 then asked + 1 else asked), r) d2 = Inr (m, d')"
      using h by (cases "dup_bind (qn_id q) k now d1") auto
    show ?thesis by (rule keeps_trans [OF keeps_dup_bind [OF b] Cons.IH [OF rest]])
  qed
  show ?case
  proof (cases "qn_task_id q \<in> set handled")
    case True
    then show ?thesis using Cons by (simp add: n)
  next
    case False
    show ?thesis
    proof (cases "qn_active q")
      case None
      obtain k d1 where r: "raise_card q now d = Inr (k, d1)"
        using Cons.prems False None by (auto simp: n rbind_Inr_iff)
      have "keeps b d1 d'" using Cons.prems False None r by (intro bound) (simp add: n)
      with keeps_raise_card [OF r] show ?thesis by (rule keeps_trans)
    next
      case (Some a)
      obtain k st where a: "a = (k, st)" by (cases a)
      show ?thesis
      proof (cases "st = CardPending \<and> \<not> carries_proposal k d")
        case True
        have "keeps b (touch_card k now d) d'"
          using Cons.prems False Some a True by (intro bound) (simp add: n)
        with keeps_touch show ?thesis by (rule keeps_trans)
      next
        case False
        then show ?thesis
          using Cons Some a \<open>qn_task_id q \<notin> set handled\<close> by (auto simp: n split: if_splits)
      qed
    qed
  qed
qed

lemma dup_write_frame:
  assumes "dup_write hit f e d = (done, d')"
  shows "\<exists>ps es. d' = d\<lparr>proposals := ps, proposal_events := es\<rparr>"
proof (cases "rowcount hit (proposals d) = 1")
  case True
  with assms show ?thesis by (auto simp: dup_write_def Let_def)
next
  case False
  with assms have "d' = d\<lparr>proposals := update_where hit f (proposals d)\<rparr>"
    by (auto simp: dup_write_def Let_def)
  also have "\<dots> = d\<lparr>proposals := update_where hit f (proposals d), proposal_events := proposal_events d\<rparr>"
    by simp
  finally show ?thesis by blast
qed

lemma keeps_dup_settle: "dup_settle k dec actor now d = Inr (done, d') \<Longrightarrow> keeps b d d'"
proof (rule keeps_proposals)
  assume h: "dup_settle k dec actor now d = Inr (done, d')"
  show "dup_inv d \<Longrightarrow> good_step d d'" using dup_settle_good [of d k dec actor now] h by (simp add: run_tx_def)
  show "\<exists>ps es. d' = d\<lparr>proposals := ps, proposal_events := es\<rparr>"
  proof -
    obtain hit f e where "dup_write hit f e d = (done, d')"
      using h by (auto simp: dup_settle_def rbind_Inr_iff)
    then show ?thesis by (rule dup_write_frame)
  qed
qed

lemma keeps_dup_supersede: "dup_supersede k actor reason now d = Inr (done, d') \<Longrightarrow> keeps b d d'"
proof (rule keeps_proposals)
  assume h: "dup_supersede k actor reason now d = Inr (done, d')"
  show "dup_inv d \<Longrightarrow> good_step d d'"
    using dup_supersede_good [of d k actor reason now] h by (simp add: run_tx_def)
  show "\<exists>ps es. d' = d\<lparr>proposals := ps, proposal_events := es\<rparr>"
  proof -
    obtain hit f e where "dup_write hit f e d = (done, d')"
      using h by (auto simp: dup_supersede_def rbind_Inr_iff)
    then show ?thesis by (rule dup_write_frame)
  qed
qed

lemma keeps_dup_reopen_confirmed: "dup_reopen_confirmed k actor now d = Inr (done, d') \<Longrightarrow> keeps b d d'"
proof (rule keeps_proposals)
  assume h: "dup_reopen_confirmed k actor now d = Inr (done, d')"
  show "dup_inv d \<Longrightarrow> good_step d d'"
    using dup_reopen_confirmed_good [of d k actor now] h by (simp add: run_tx_def)
  show "\<exists>ps es. d' = d\<lparr>proposals := ps, proposal_events := es\<rparr>"
  proof -
    obtain hit f e where "dup_write hit f e d = (done, d')"
      using h by (auto simp: dup_reopen_confirmed_def rbind_Inr_iff)
    then show ?thesis by (rule dup_write_frame)
  qed
qed

lemma keeps_supersede_all: "supersede_all actor reason now ps n d = Inr (m, d') \<Longrightarrow> keeps b d d'"
proof (induction ps arbitrary: n d)
  case (Cons p ps)
  then obtain done1 d1 where 1: "dup_supersede (dp_id p) actor reason now d = Inr (done1, d1)"
    and 2: "supersede_all actor reason now ps (if done1 then n + 1 else n) d1 = Inr (m, d')"
    by (auto simp: rbind_Inr_iff)
  show ?case by (rule keeps_trans [OF keeps_dup_supersede [OF 1] Cons.IH [OF 2]])
qed (simp add: keeps_refl)

lemma keeps_supersede_carded: "supersede_carded actor reason now ps n d = Inr (m, d') \<Longrightarrow> keeps b d d'"
proof (induction ps arbitrary: n d)
  case (Cons p ps)
  obtain gone expired where n: "n = (gone, expired)" by (cases n)
  obtain c d1 done2 d2 where
    1: "(case dp_card_id p of None \<Rightarrow> Inr (0, d) | Some k \<Rightarrow> cancel_bound_duplicate_card k now d) = Inr (c, d1)"
    and 2: "dup_supersede (dp_id p) actor reason now d1 = Inr (done2, d2)"
    and 3: "supersede_carded actor reason now ps (gone + c, (if done2 then expired + 1 else expired)) d2
      = Inr (m, d')"
    using Cons.prems by (auto simp: n rbind_Inr_iff)
  have "keeps b d d1" using 1 keeps_cancel_bound by (cases "dp_card_id p") (auto simp: keeps_refl)
  then show ?case
    using keeps_trans [OF _ keeps_trans [OF keeps_dup_supersede [OF 2] Cons.IH [OF 3]]] by blast
qed (simp add: keeps_refl)

lemma keeps_requeue_loop: "requeue_loop now cs n d = Inr (m, d') \<Longrightarrow> keeps b d d'"
proof (induction cs arbitrary: n d)
  case (Cons c cs)
  let ?d1 = "add_card_event (card_event_of c CevFailed (cd_version c + 1) (cd_task_version c) None now)
    (d\<lparr>cards := update_where (\<lambda>x. cd_id x = cd_id c \<and> cd_version x = cd_version c
        \<and> cd_status x = CardDelivered) (unpresent \<circ> returned now) (cards d)\<rparr>)"
  show ?case
  proof (cases "card_is_current c d")
    case False
    then show ?thesis using Cons by simp
  next
    case True
    then have "rowcount (\<lambda>x. cd_id x = cd_id c \<and> cd_version x = cd_version c \<and> cd_status x = CardDelivered) (cards d) = 1"
      and rest: "requeue_loop now cs (n + 1) ?d1 = Inr (m, d')"
      using Cons.prems by (auto simp: Let_def split: if_splits)
    then have "keeps b d ?d1" by (intro keeps_put_back)
    then show ?thesis using Cons.IH [OF rest] by (rule keeps_trans)
  qed
qed (simp add: keeps_refl)

section \<open>The passes\<close>

lemma keeps_schedule: "schedule limit now d = Inr (r, d') \<Longrightarrow> keeps b d d'"
  by (auto simp: schedule_def ask_completion_questions_def ask_duplicate_proposals_def rbind_Inr_iff Let_def
      keeps_refl split: if_splits
      intro: keeps_trans [OF keeps_trans [OF keeps_cancel_stale keeps_ask_completion_loop]
        keeps_ask_duplicates_loop])

lemma keeps_schedule_duplicates: "schedule_duplicate_proposals limit now d = Inr (r, d') \<Longrightarrow> keeps b d d'"
  by (auto simp: schedule_duplicate_proposals_def resolve_unaskable_proposals_def
      ask_duplicate_proposals_def rbind_Inr_iff keeps_refl split: if_splits
      intro: keeps_trans [OF keeps_trans [OF keeps_cancel_stale keeps_supersede_all]
        keeps_ask_duplicates_loop])

lemma keeps_supersede_proposals:
  "supersede_duplicate_proposals detector apply_it actor reason now d = Inr (r, d') \<Longrightarrow> keeps b d d'"
  by (auto simp: supersede_duplicate_proposals_def rbind_Inr_iff Let_def keeps_refl
      intro: keeps_supersede_carded split: if_splits)

lemma keeps_requeue: "requeue_unanswered limit now d = Inr (n, d') \<Longrightarrow> keeps b d d'"
  by (auto simp: requeue_unanswered_def rbind_Inr_iff keeps_refl split: if_splits
      intro: keeps_trans [OF keeps_cancel_stale keeps_requeue_loop])

section \<open>Reader actions\<close>

lemma settle_for_card_evidence:
  assumes "settle_for_card c out now d = Inr (n, d')"
  shows "\<exists>es. d' = d\<lparr>evidence := es\<rparr> \<and> list_all2 evolves (evidence d) es"
proof -
  have d': "d' = snd (run_tx (settle_for_card c out now) d)" using assms by (simp add: run_tx_def)
  from settle_card_as_settle [of c out now d] show ?thesis
  proof
    assume "snd (run_tx (settle_for_card c out now) d) = d"
    then show ?thesis using d' by (intro exI [of _ "evidence d"]) (simp add: all2_evolves_refl)
  next
    assume "\<exists>k. snd (run_tx (settle_for_card c out now) d) = snd (run_tx (settle_evidence k out now) d)"
    then show ?thesis using d' settle_evidence_effect by auto
  qed
qed

lemma keeps_assert_relation:
  assumes "assert_relation q now d = Inr (r, d')"
  shows "keeps b d d'"
proof (rule assert_relation_cases [of q now d])
  fix r1
  assume h: "clean_relation q now = Inr (r1\<lparr>rl_id := 0\<rparr>)" "rl_id r1 = next_id rl_id (relations d)"
    "\<not> reaches d (rl_object_id r1) (rl_subject_id r1) (rl_kind r1)"
    "rowcount (live_of (rl_subject_id r1)) (relations d) < MAX_LIVE_RELATIONS_PER_TASK"
    "rowcount (live_of (rl_object_id r1)) (relations d) < MAX_LIVE_RELATIONS_PER_TASK"
    "\<not> list_ex (same_live (rl_subject_id r1) (rl_object_id r1) (rl_kind r1)) (relations d)"
    and eq: "assert_relation q now d = Inr (r1, d\<lparr>relations := relations d @ [r1]\<rparr>)"
  have d': "d' = d\<lparr>relations := relations d @ [r1]\<rparr>" using eq assms by simp
  show ?thesis
    unfolding d'
    by (rule keeps_relations)
      (use relations_inv_append [OF _ h] in \<open>auto simp: rel_evolves_def\<close>)
qed (use assms in simp)

lemma keeps_withdraw:
  assumes "withdraw k who now d = Inr (r, d')"
  shows "keeps b d d'"
proof -
  have step: "rel_step (RelWithdraw k who now) d = d'" using assms by (simp add: run_tx_def)
  obtain rs where d': "d' = d\<lparr>relations := rs\<rparr>"
    using assms by (rule_tac withdraw_cases [of k who now d]) auto
  show ?thesis
    unfolding d'
  proof (rule keeps_relations)
    show "relations_inv d \<Longrightarrow> relations_inv (d\<lparr>relations := rs\<rparr>)"
      using relations_inv_step [of d "RelWithdraw k who now"] step d' by simp
    show "relations_inv d \<Longrightarrow> \<forall>r \<in> set (relations d). \<exists>r' \<in> set rs. rel_evolves r r'"
      using rel_evolves_step [of d _ "RelWithdraw k who now"] step d' by auto
  qed
qed

lemma keeps_transition:
  assumes "apply_task_transition i v a now d = (r, d')"
  shows "keeps b d d'"
proof (rule keeps_unless)
  assume "system_inv d"
  then have inv: "ledger_inv d" by (simp add: system_inv_def)
  show "keeps b d d'"
  proof (rule apply_transition_cases [OF ledger_invD(1) [OF inv], of a i v now])
    fix row sources target
    assume row: "task_of i d = Some row"
      and eq: "apply_task_transition i v a now d =
        (\<lparr>tr_disposition = TrApplied, tr_task_id = i, tr_version = Some (v + 1),
          tr_status = Some target, tr_refusal = None\<rparr>, transition_effect i row target now d)"
    have d': "d' = transition_effect i row target now d" using eq assms by simp
    show ?thesis
    proof (rule keeps_tasks)
      show "ledger_inv d \<Longrightarrow> ledger_inv d'" unfolding d' by (rule ledger_inv_transition_effect [OF _ row])
      show "ledger_inv d \<Longrightarrow> b \<Longrightarrow> ledger_consistent d \<Longrightarrow> ledger_consistent d'"
        unfolding d' ledger_consistent_def
        using work_agrees_transition_effect [OF _ _ row] log_agrees_transition_effect [OF _ _ row] by blast
    qed (simp_all add: d' transition_effect_def set_work_state_def insert_task_event_def)
  next
    assume "snd (apply_task_transition i v a now d) = d"
    then show ?thesis using assms by (simp add: keeps_refl)
  qed
qed

lemma transition_frame:
  "cards (snd (apply_task_transition i v a now d)) = cards d"
  "evidence (snd (apply_task_transition i v a now d)) = evidence d"
  by (auto simp: apply_task_transition_def Let_def split: option.splits prod.splits)

lemma keeps_answer:
  assumes "answer_card c t action now d = Inr (r, d')" and "c \<in> set (cards d)"
    and "cd_status c = CardDelivered"
  shows "keeps b d d'"
proof -
  let ?f = "if action = ''snooze'' then snoozed now else resolved action now"
  obtain tr d1 where tr: "(if action \<in> {''done'', ''drop''}
        then apply_task_transition (cd_task_id c) (cd_task_version c) action now d
        else (\<lparr>tr_disposition = TrApplied, tr_task_id = cd_task_id c,
               tr_version = Some (cd_task_version c), tr_status = Some TaskOpen, tr_refusal = None\<rparr>, d)) = (tr, d1)"
    by (metis surj_pair)
  have d1: "keeps b d d1" "cards d1 = cards d"
    using tr keeps_transition [of "cd_task_id c" "cd_task_version c" action now d tr d1 b]
      transition_frame(1) [of "cd_task_id c" "cd_task_version c" action now d] keeps_refl
    by (auto split: if_splits)
  show ?thesis
  proof (cases "tr_accepted tr")
    case False
    then show ?thesis using assms(1) tr keeps_refl by (simp add: answer_card_def)
  next
    case True
    define e where "e = card_event_of c (if action = ''snooze'' then CevSnoozed else CevResolved)
      (cd_version c + 1) (the (tr_version tr)) (Some action) now"
    obtain n d3 where d3: "(if action = ''snooze'' then Inr (0, update_card c ?f d1)
        else settle_for_card (cd_id c) (the (map_of ANSWERS action)) now (update_card c ?f d1)) = Inr (n, d3)"
      and d': "d' = add_card_event e d3"
      using assms(1) tr True by (auto simp: answer_card_def Let_def rbind_Inr_iff e_def)
    obtain es where es: "d3 = (update_card c ?f d1)\<lparr>evidence := es\<rparr>" "list_all2 evolves (evidence d1) es"
    proof (cases "action = ''snooze''")
      case True
      show thesis
      proof (rule that)
        show "d3 = (update_card c ?f d1)\<lparr>evidence := evidence d1\<rparr>"
          using d3 True by (auto simp: update_card_def)
      qed (rule all2_evolves_refl)
    next
      case False
      then have "settle_for_card (cd_id c) (the (map_of ANSWERS action)) now (update_card c ?f d1) = Inr (n, d3)"
        using d3 by simp
      from settle_for_card_evidence [OF this] show thesis
        using that by (auto simp: update_card_def)
    qed
    have k2: "keeps b d1 (add_card_event e (update_card c ?f d1))"
      unfolding update_card_def
      by (rule keeps_move [where Q = "\<lambda>x. cd_version x = cd_version c"])
        (use assms(2,3) d1(2) in \<open>simp_all add: e_def version_step_def card_ok_writes\<close>)
    have eq: "d' = (add_card_event e (update_card c ?f d1))\<lparr>evidence := es\<rparr>"
      by (simp add: d' es(1) add_card_event_def update_card_def)
    have k3: "keeps b (add_card_event e (update_card c ?f d1))
        ((add_card_event e (update_card c ?f d1))\<lparr>evidence := es\<rparr>)"
      by (rule keeps_evidence) (use es(2) in \<open>simp add: add_card_event_def update_card_def\<close>)
    show ?thesis unfolding eq by (rule keeps_trans [OF keeps_trans [OF d1(1) k2] k3])
  qed
qed

lemma keeps_deliver_full:
  assumes "deliver_full s t now d = Inr (k, d')"
  shows "keeps b d d'"
proof -
  let ?c = "full_card (next_id cd_id (cards d)) s t now d"
  obtain d1 where ins: "insert_card ?c d = Inr d1"
    and d': "d' = d1\<lparr>card_events := card_events d1 @ [card_event_of ?c CevScheduled 1 (tk_version t) None now,
      card_event_of ?c CevDelivered 1 (tk_version t) None now]\<rparr>"
    using assms by (auto simp: deliver_full_def rbind_Inr_iff Let_def add_card_event_def)
  show ?thesis
    unfolding d'
    by (rule keeps_raise [OF ins])
      (use next_id_positive [of cd_id "cards d"] in \<open>simp_all add: full_card_def new_card_def card_ok_def\<close>)
qed

lemma joined_card_mem: "joined_card k d = Some (c, t) \<Longrightarrow> c \<in> set (cards d) \<and> cd_id c = k"
  by (auto simp: joined_card_def split: option.splits dest!: card_of_mem)

lemma keeps_show_full:
  assumes "show_full_cards k expected now d = Inr (r, d')"
  shows "keeps b d d'"
proof (cases "d' = d")
  case True
  then show ?thesis by (simp only: keeps_refl)
next
  case False
  obtain v where v: "card_view_of k d = Some v"
    using assms False by (auto simp: show_full_cards_def split: if_splits option.splits)
  obtain c t where c: "joined_card k d = Some (c, t)" "vw_card v = c"
    using v by (auto simp: card_view_of_def split: option.splits prod.splits)
  obtain p ta tb where vs: "cd_version c = expected" "cd_status c = CardDelivered"
    and body: "rbind (deliver_full c ta now (card_cancelled now c d)) (\<lambda>(ka, d2).
        rbind (deliver_full c tb now d2) (\<lambda>(kb, d3).
          Inr (\<lparr>fr_disposition = CardApplied, fr_card_id = k, fr_card_version = Some (expected + 1),
                fr_cards = [ka, kb], fr_refusal = None\<rparr>, d3))) = Inr (r, d')"
    using assms False v c
    by (auto simp: show_full_cards_def Let_def card_cancelled_def split: if_splits option.splits prod.splits)
  obtain ka d2 kb where 2: "deliver_full c ta now (card_cancelled now c d) = Inr (ka, d2)"
    and 3: "deliver_full c tb now d2 = Inr (kb, d')"
    using body by (auto simp: rbind_Inr_iff)
  have "keeps b d (card_cancelled now c d)"
    by (rule keeps_card_cancelled) (use joined_card_mem [OF c(1)] vs in simp_all)
  then show ?thesis
    using keeps_trans [OF keeps_trans [OF _ keeps_deliver_full [OF 2]] keeps_deliver_full [OF 3]] by blast
qed

lemma each_cancel_spares:
  assumes "each (\<lambda>c d. if P c then Inr d else cancel_card now c d) rows d = Inr d'"
    and "x \<in> set (cards d)" and "\<And>c. c \<in> set rows \<Longrightarrow> cd_id c = cd_id x \<Longrightarrow> P c"
  shows "x \<in> set (cards d')"
  using assms
proof (induction rows arbitrary: d)
  case (Cons c rows)
  obtain d1 where d1: "(if P c then Inr d else cancel_card now c d) = Inr d1"
    and rest: "each (\<lambda>c d. if P c then Inr d else cancel_card now c d) rows d1 = Inr d'"
    using Cons.prems(1) by (auto simp: rbind_Inr_iff)
  have "x \<in> set (cards d1)"
    using d1 Cons.prems(2) Cons.prems(3) [of c] cancel_other [of now c d d1 x]
    by (cases "P c"; cases "cd_id c = cd_id x") auto
  then show ?case using Cons.IH [OF rest] Cons.prems(3) by simp
qed simp

lemma assert_relation_cards: "assert_relation q now d = Inr (r, d') \<Longrightarrow> cards d' = cards d"
  by (rule assert_relation_cases [of q now d]) auto

lemma keeps_confirm:
  assumes "confirm_duplicate c p l r now d = Inr (Some d')" and "c \<in> set (cards d)"
  shows "keeps b d d' \<and> c \<in> set (cards d')"
proof -
  obtain subject object where ends: "duplicate_ends p l r = (subject, object)"
    by (cases "duplicate_ends p l r")
  obtain q x d1 tr d3 where
    1: "assert_relation q now d = Inr (x, d1)"
    and 3: "apply_task_transition subject (if subject = dp_right_task_id p then dp_right_task_version p
        else dp_left_task_version p) ''drop'' now (title_enqueue object now d1) = (tr, d3)"
    and 4: "cancel_duplicate_task_cards subject (cd_id c) now d3 = Inr d'"
    using assms(1)
    by (auto simp: confirm_duplicate_def ends Let_def rbind_Inr_iff split: prod.splits sum.splits if_splits)
  have 2: "keeps b d1 (title_enqueue object now d1)" "cards (title_enqueue object now d1) = cards d1"
    by (auto simp: title_enqueue_def intro: keeps_titles)
  have "cards d3 = cards d"
    using transition_frame(1) [of subject _ "''drop''" now "title_enqueue object now d1"] 3 2(2)
      assert_relation_cards [OF 1] by (metis snd_conv)
  then have "c \<in> set (cards d')"
    using each_cancel_spares [of "\<lambda>x. cd_id x = cd_id c" now _ d3 d' c] 4 assms(2)
    by (auto simp: cancel_duplicate_task_cards_def)
  then show ?thesis
    using keeps_trans [OF keeps_trans [OF keeps_trans [OF keeps_assert_relation [OF 1] 2(1)]
          keeps_transition [OF 3]] keeps_cancel_duplicate_task_cards [OF 4]] by blast
qed

lemma dup_settle_cards: "dup_settle k dec actor now d = Inr (done, d') \<Longrightarrow> cards d' = cards d"
  by (cases "k < 1"; cases "dup_bounded actor ''actor'' DUP_MAX_ACTOR")
    (auto simp: dup_settle_def dup_identifier_def dup_write_def Let_def split: if_splits)

lemma keeps_act_duplicate:
  assumes "act_duplicate c action now d = Inr (Some (r, d'))" and "c \<in> set (cards d)"
    and "active (cd_status c)"
  shows "keeps b d d'"
proof -
  obtain p l rr d1 d2 where
    1: "(if action = ''duplicate_confirm'' then confirm_duplicate c p l rr now d else Inr (Some d)) = Inr (Some d1)"
    and 2: "dup_settle (dp_id p) (if action = ''duplicate_confirm'' then Confirmed else Rejected) ''reader'' now d1
      = Inr (True, d2)"
    and d': "d' = card_cancelled now c d2"
    using assms(1)
    by (auto simp: act_duplicate_def Let_def rbind_Inr_iff card_cancelled_def
        split: option.splits prod.splits if_splits)
  have 0: "keeps b d d1 \<and> c \<in> set (cards d1)"
    using 1 keeps_confirm assms(2) keeps_refl by (auto split: if_splits)
  then have "c \<in> set (cards d2)" using dup_settle_cards [OF 2] by simp
  then have "keeps b d2 d'" unfolding d' using assms(3) by (intro keeps_card_cancelled) simp_all
  then show ?thesis using keeps_trans [OF keeps_trans [OF _ keeps_dup_settle [OF 2]]] 0 by blast
qed

lemma keeps_act:
  assumes "act k expected action now d = Inr (r, d')"
  shows "keeps b d d'"
proof (cases "d' = d")
  case True
  then show ?thesis by (simp only: keeps_refl)
next
  case False
  then obtain c t where c: "joined_card k d = Some (c, t)"
    using assms by (auto simp: act_def split: if_splits option.splits)
  note mem = joined_card_mem [OF c, THEN conjunct1]
  have vs: "cd_version c = expected" "cd_status c = CardDelivered" "card_is_current c d"
    using assms False c by (auto simp: act_def Let_def split: if_splits)
  show ?thesis
  proof (cases "action \<in> {''duplicate_confirm'', ''duplicate_reject''}")
    case True
    then have "rbind (act_duplicate c action now d) (\<lambda>res. case res of
        None \<Rightarrow> Inr (refused_row k (Some c) (Some t) RefStaleVersion, d) | Some rd \<Rightarrow> Inr rd) = Inr (r, d')"
      using assms False c vs by (simp add: act_def split: if_splits)
    then have "act_duplicate c action now d = Inr (Some (r, d'))"
      using False by (auto simp: rbind_Inr_iff split: option.splits)
    then show ?thesis by (rule keeps_act_duplicate) (use mem vs in simp_all)
  next
    case other: False
    show ?thesis
    proof (cases "action = ''show_full_cards''")
      case True
      then obtain full d1 where 1: "show_full_cards k expected now d = Inr (full, d1)"
        and "d' = d \<or> d' = d1"
        using assms c vs other False by (auto simp: act_def Let_def rbind_Inr_iff split: if_splits option.splits)
      then show ?thesis using keeps_show_full [OF 1] False by auto
    next
      case False
      then have "answer_card c t action now d = Inr (r, d')"
        using assms \<open>d' \<noteq> d\<close> c vs other by (auto simp: act_def Let_def split: if_splits)
      then show ?thesis by (rule keeps_answer) (use mem vs in simp_all)
    qed
  qed
qed

lemma keeps_resolve_claim: "keeps b d (snd (resolve_claim sha k expected consumer ceiling token now d))"
proof (cases "snd (resolve_claim sha k expected consumer ceiling token now d) = d")
  case True
  then show ?thesis by (simp only: keeps_refl)
next
  case False
  then obtain c t where c: "joined_card k d = Some (c, t)" "cd_status c \<in> {CardPending, CardSnoozed}"
    and eq: "snd (resolve_claim sha k expected consumer ceiling token now d)
      = claim_card (sha token) (now + 60) consumer now c d"
    by (auto simp: resolve_claim_def Let_def split: if_splits option.splits prod.splits)
  show ?thesis
    unfolding eq by (rule keeps_claim) (use joined_card_mem [OF c(1)] c(2) in simp_all)
qed

lemma keeps_run: "(\<And>r d'. h d = Inr (r, d') \<Longrightarrow> keeps b d d') \<Longrightarrow> keeps b d (snd (run_tx h d))"
  by (cases "h d") (auto simp: run_tx_def keeps_refl)

lemma keeps_resolve: "keeps b d (snd (resolve sha k expected action consumer role token now1 now2 now3 d))"
proof (cases "snd (resolve sha k expected action consumer role token now1 now2 now3 d) = d")
  case True
  then show ?thesis by (simp only: keeps_refl)
next
  case False
  then obtain ceiling where guards: "\<not> (\<not> valid_identity k expected \<or> action \<notin> set TASK_CARD_ACTIONS
      \<or> \<not> valid_digest consumer)" "map_of TASK_CARD_CLAIM_CEILINGS role = Some ceiling" "valid_secret token"
    by (auto simp: resolve_def split: if_splits option.splits)
  obtain out d1 where 1: "resolve_claim sha k expected consumer ceiling token now1 d = (out, d1)"
    by (cases "resolve_claim sha k expected consumer ceiling token now1 d")
  have k1: "keeps b d d1" using keeps_resolve_claim [of b d sha k expected consumer ceiling token now1] 1 by simp
  show ?thesis
  proof (cases out)
    case (Some x)
    then show ?thesis using guards 1 k1 by (simp add: resolve_def)
  next
    case None
    let ?ref = "''resolve-'' @ digits (nat k) @ ''-v'' @ digits (nat (expected + 1))"
    obtain delivered d2 where 2: "complete_delivery sha k (expected + 1) token ''resolved'' ?ref now2 d1 = (delivered, d2)"
      by (cases "complete_delivery sha k (expected + 1) token ''resolved'' ?ref now2 d1")
    have k2: "keeps b d1 d2"
      using keeps_complete [of b d1 sha k "expected + 1" token "''resolved''" ?ref now2] 2 by simp
    have k3: "keeps b d2 (snd (run_tx (act k (expected + 1) action now3) d2))"
      by (rule keeps_run) (rule keeps_act)
    have "snd (resolve sha k expected action consumer role token now1 now2 now3 d)
        = (if co_accepted delivered then snd (run_tx (act k (expected + 1) action now3) d2) else d2)"
      using guards 1 2 None by (simp add: resolve_def Let_def split: sum.splits prod.splits)
    then show ?thesis using keeps_trans [OF keeps_trans [OF k1 k2] k3] keeps_trans [OF k1 k2] by simp
  qed
qed

lemma keeps_reopen_task: "keeps False d (reopen_task i now d)"
proof (rule keeps_tasks)
  assume inv: "ledger_inv d"
  let ?P = "\<lambda>t. tk_id t = i \<and> tk_status t = TaskDropped"
  let ?f = "\<lambda>t. t\<lparr>tk_status := TaskOpen, tk_version := tk_version t + 1, tk_updated_at := now, tk_closed_at := None\<rparr>"
  have "task_ok t" if h: "t \<in> set (update_where ?P ?f (tasks d))" for t
  proof -
    obtain t0 where "t0 \<in> set (tasks d)" "t = (if ?P t0 then ?f t0 else t0)"
      using h by (rule update_whereE)
    then show ?thesis using ledger_invD(2) [OF inv, of t0] by (auto simp: task_ok_def)
  qed
  then show "ledger_inv (reopen_task i now d)"
    using inv by (simp add: ledger_inv_def reopen_task_def unique_key_update list_all_iff)
qed (simp_all add: reopen_task_def)

lemma keeps_reverse:
  assumes "reverse_duplicate k now d = Inr (done, d')"
  shows "keeps False d d'"
proof (cases "d' = d")
  case True
  then show ?thesis by (simp only: keeps_refl)
next
  case False
  obtain rel where rel: "rel_get k d = Inr rel"
    using assms False by (auto simp: reverse_duplicate_def split: sum.splits)
  obtain p where p: "confirmed_pair (rl_object_id rel) (rl_subject_id rel) d = Some p"
    using assms False rel by (auto simp: reverse_duplicate_def split: if_splits option.splits)
  obtain x d1 where 1: "withdraw k ''reader'' now d = Inr (x, d1)"
    using assms False rel p
    by (cases "withdraw k ''reader'' now d") (auto simp: reverse_duplicate_def split: if_splits)
  have "rbind (dup_reopen_confirmed (dp_id p) ''reader'' now (reopen_task (rl_subject_id rel) now d1))
      (\<lambda>(reopened, d3). if \<not> reopened then Inr (False, d)
        else Inr (True, refresh_after_withdrawal (rl_object_id rel) now d3)) = Inr (done, d')"
    using assms False rel p 1 by (auto simp: reverse_duplicate_def Let_def split: if_splits)
  then obtain done2 d3 where
    3: "dup_reopen_confirmed (dp_id p) ''reader'' now (reopen_task (rl_subject_id rel) now d1) = Inr (done2, d3)"
    and d': "d' = refresh_after_withdrawal (rl_object_id rel) now d3"
    using False
    by (cases "dup_reopen_confirmed (dp_id p) ''reader'' now (reopen_task (rl_subject_id rel) now d1)")
      (auto split: if_splits)
  have "keeps False d3 d'"
    unfolding d' refresh_after_withdrawal_def title_enqueue_def title_clear_def by (auto intro: keeps_titles)
  then show ?thesis
    using keeps_trans [OF keeps_trans [OF keeps_trans [OF keeps_withdraw [OF 1] keeps_reopen_task]
          keeps_dup_reopen_confirmed [OF 3]]] by blast
qed

section \<open>The service\<close>

text \<open>Every writing operation of \<open>TaskCardService\<close>, with the clock readings and tokens it uses.\<close>

datatype service_req =
    ReqSchedule int time
  | ReqScheduleDuplicates int time
  | ReqSupersede "string option" bool string string time
  | ReqClaim int string string string time
  | ReqComplete rowid int string string string time
  | ReqFail rowid int string time
  | ReqRetry rowid int time
  | ReqRequeue int time
  | ReqAct rowid int string time
  | ReqShowFull rowid int time
  | ReqResolve rowid int string string string string time time time
  | ReqReverse rowid time

fun service_step :: "(string \<Rightarrow> string) \<Rightarrow> service_req \<Rightarrow> db \<Rightarrow> db" where
  "service_step sha (ReqSchedule limit now) d = snd (run_tx (schedule limit now) d)"
| "service_step sha (ReqScheduleDuplicates limit now) d = snd (run_tx (schedule_duplicate_proposals limit now) d)"
| "service_step sha (ReqSupersede det ap actor reason now) d =
     snd (run_tx (supersede_duplicate_proposals det ap actor reason now) d)"
| "service_step sha (ReqClaim lease consumer role token now) d =
     snd (run_tx (claim_next sha lease consumer role token now) d)"
| "service_step sha (ReqComplete k v token transport ref now) d =
     snd (complete_delivery sha k v token transport ref now d)"
| "service_step sha (ReqFail k v token now) d = snd (fail_delivery sha k v token now d)"
| "service_step sha (ReqRetry k v now) d = snd (run_tx (retry_delivery k v now) d)"
| "service_step sha (ReqRequeue limit now) d = snd (run_tx (requeue_unanswered limit now) d)"
| "service_step sha (ReqAct k v action now) d = snd (run_tx (act k v action now) d)"
| "service_step sha (ReqShowFull k v now) d = snd (run_tx (show_full_cards k v now) d)"
| "service_step sha (ReqResolve k v action consumer role token now1 now2 now3) d =
     snd (resolve sha k v action consumer role token now1 now2 now3 d)"
| "service_step sha (ReqReverse k now) d = snd (run_tx (reverse_duplicate k now) d)"

fun reverses :: "service_req \<Rightarrow> bool" where
  "reverses (ReqReverse k now) = True"
| "reverses _ = False"

lemma keeps_service: "b \<longrightarrow> \<not> reverses req \<Longrightarrow> keeps b d (service_step sha req d)"
  by (cases req)
    (auto intro!: keeps_run intro: keeps_schedule keeps_schedule_duplicates keeps_supersede_proposals
      keeps_claim_next keeps_complete keeps_fail keeps_retry keeps_requeue keeps_act keeps_show_full
      keeps_resolve keeps_reverse)

definition service_run :: "(string \<Rightarrow> string) \<Rightarrow> service_req list \<Rightarrow> db \<Rightarrow> db" where
  "service_run sha reqs d = fold (service_step sha) reqs d"

lemma keeps_service_run: "b \<longrightarrow> list_all (\<lambda>r. \<not> reverses r) reqs \<Longrightarrow> keeps b d (service_run sha reqs d)"
  unfolding service_run_def
proof (induction reqs arbitrary: d)
  case (Cons r reqs)
  have "keeps b d (service_step sha r d)" using Cons.prems by (intro keeps_service) simp
  moreover have "keeps b (service_step sha r d) (fold (service_step sha) reqs (service_step sha r d))"
    using Cons.prems by (intro Cons.IH) simp
  ultimately show ?case using keeps_trans by simp
qed (simp add: keeps_refl)

end
