(* ===== verification/CardProps.thy ===== *)
theory CardProps
  imports System
begin

text \<open>
  The promises of the card service: what its operations keep, who may claim how much, that an
  answer is fenced by the version of the presentation it answers, that counting and reaping
  agree, and where the code falls short of what it says.
\<close>

section \<open>Answers are fenced by the card's version\<close>

definition act_applied :: "exc + card_result \<Rightarrow> bool" where
  "act_applied out \<longleftrightarrow> (case out of Inl _ \<Rightarrow> False | Inr r \<Rightarrow> co_disposition r = CardApplied)"

definition card_version :: "rowid \<Rightarrow> db \<Rightarrow> int option" where
  "card_version k d = map_option cd_version (card_of k d)"

lemma refused_not_applied [simp]:
  "co_disposition (card_refused k ref) = CardRefused"
  "co_disposition (refused_row k row t ref) = CardRefused"
  by (simp_all add: card_refused_def refused_row_def split: option.splits)

lemma action_groups: "x \<in> set [a, b, c, d, e, f, g] \<Longrightarrow> x \<in> {e, f} \<or> x = g \<or> x \<in> {a, b, c, d}"
  by auto

text \<open>The branches of \<open>act\<close> that answer, with the guards they passed.\<close>

lemma act_cases:
  assumes "act k expected action now d = Inr (r, d')"
  obtains (refused) "co_disposition r = CardRefused" "d' = d"
  | (duplicate) c t where "joined_card k d = Some (c, t)" "cd_version c = expected"
      "cd_status c = CardDelivered" "card_is_current c d" "co_disposition r = CardApplied"
      "action \<in> {''duplicate_confirm'', ''duplicate_reject''}"
      "act_duplicate c action now d = Inr (Some (r, d'))"
  | (full) c t full where "joined_card k d = Some (c, t)" "cd_version c = expected"
      "cd_status c = CardDelivered" "card_is_current c d" "co_disposition r = CardApplied"
      "fr_disposition full \<noteq> CardRefused" "show_full_cards k expected now d = Inr (full, d')"
  | (answer) c t where "joined_card k d = Some (c, t)" "cd_version c = expected"
      "cd_status c = CardDelivered" "card_is_current c d"
      "action \<in> {''done'', ''keep_open'', ''drop'', ''snooze''}"
      "answer_card c t action now d = Inr (r, d')"
proof (cases "joined_card k d")
  case None
  then show thesis
    using assms by (intro refused) (auto simp: act_def split: if_splits)
next
  case (Some ct)
  obtain c t where ct: "joined_card k d = Some (c, t)" using Some by (cases ct) auto
  show thesis
  proof (cases "valid_identity k expected \<and> action \<in> set TASK_CARD_ACTIONS \<and> cd_version c = expected
      \<and> cd_status c = CardDelivered \<and> card_is_current c d")
    case False
    then show thesis using assms ct by (intro refused) (auto simp: act_def Let_def split: if_splits)
  next
    case True
    then have g: "valid_identity k expected" "action \<in> set TASK_CARD_ACTIONS" "cd_version c = expected"
      "cd_status c = CardDelivered" "card_is_current c d" by simp_all
    from action_groups [OF g(2) [unfolded TASK_CARD_ACTIONS_def]] show thesis
    proof (elim disjE)
      assume 1: "action \<in> {''duplicate_confirm'', ''duplicate_reject''}"
      then have *: "rbind (act_duplicate c action now d) (\<lambda>res. case res of
          None \<Rightarrow> Inr (refused_row k (Some c) (Some t) RefStaleVersion, d) | Some rd \<Rightarrow> Inr rd) = Inr (r, d')"
        using assms ct g by (simp add: act_def)
      show thesis
      proof (cases "act_duplicate c action now d = Inr (Some (r, d'))")
        case True
        then have "co_disposition r = CardApplied"
          by (auto simp: act_duplicate_def Let_def rbind_Inr_iff split: option.splits prod.splits if_splits)
        with True 1 ct g show thesis by (intro duplicate)
      next
        case False
        then show thesis
          using * by (intro refused) (auto simp: rbind_Inr_iff split: option.splits)
      qed
    next
      assume 2: "action = ''show_full_cards''"
      then have *: "rbind (show_full_cards k expected now d) (\<lambda>(full, d').
          if fr_disposition full = CardRefused
          then Inr (refused_row k (Some c) (Some t)
            (case fr_refusal full of None \<Rightarrow> RefInvalidState | Some ref \<Rightarrow> ref), d)
          else Inr (\<lparr>co_disposition = CardApplied, co_card_id = k, co_version = Some (expected + 1),
                 co_status = Some CardCancelled, co_task_version = Some (cd_task_version c),
                 co_task_status = Some TaskOpen, co_wake_at = None, co_refusal = None\<rparr>, d')) = Inr (r, d')"
        using assms ct g by (simp add: act_def)
      show thesis
      proof (cases "show_full_cards k expected now d")
        case (Inl x)
        with * show thesis by simp
      next
        case (Inr y)
        obtain fl d1 where y: "y = (fl, d1)" by (cases y)
        show thesis
        proof (cases "fr_disposition fl = CardRefused")
          case True
          with * Inr y show thesis by (intro refused) auto
        next
          case False
          with * Inr y ct g show thesis by (intro full [of c t fl]) auto
        qed
      qed
    next
      assume 3: "action \<in> {''done'', ''keep_open'', ''drop'', ''snooze''}"
      then have "answer_card c t action now d = Inr (r, d')"
        using assms ct g by (auto simp: act_def)
      with 3 ct g show thesis by (intro answer)
    qed
  qed
qed

lemma unique_card: "system_inv d \<Longrightarrow> unique_key cd_id (cards d)"
  by (simp add: system_inv_def cards_invD(1))

lemma card_of_unique: "system_inv d \<Longrightarrow> card_of k d = Some c \<longleftrightarrow> c \<in> set (cards d) \<and> cd_id c = k"
  by (rule row_of_unique [OF unique_card])

lemma card_after_update:
  assumes "system_inv d" and "c \<in> set (cards d)" and "\<And>x. cd_id (f x) = cd_id x"
    and "cards d' = update_where (\<lambda>x. cd_id x = cd_id c \<and> cd_version x = cd_version c) f (cards d)"
  shows "card_of (cd_id c) d' = Some (f c)"
proof -
  have "card_of (cd_id c) d = Some c" using assms(1,2) by (simp add: card_of_unique)
  then show ?thesis using assms(3) by (simp add: assms(4) find_update_where)
qed

lemma settle_for_card_cards:
  assumes "settle_for_card c out now (d\<lparr>cards := cs\<rparr>) = Inr (n, d3)"
  shows "\<exists>d4. settle_for_card c out now d = Inr (n, d4) \<and> evidence d4 = evidence d3"
proof (cases "c < 1")
  case True
  then show ?thesis using assms by (simp add: settle_for_card_def for_card_def comp_identifier_def)
next
  case False
  show ?thesis
  proof (cases "List.find (carried_by c) (evidence d)")
    case None
    then show ?thesis using assms False by (auto simp: settle_for_card_def for_card_def comp_identifier_def)
  next
    case (Some e)
    then show ?thesis
      using assms False
      by (cases "ev_id e < 1")
        (auto simp: settle_for_card_def for_card_def comp_identifier_def settle_effect)
  qed
qed

text \<open>What an ordinary answer leaves: the task's transition, the card and the evidence table.\<close>

lemma answer_effect:
  assumes "answer_card c t action now d = Inr (r, d')" and "co_disposition r = CardApplied"
  shows "\<exists>tr d1. (if action \<in> {''done'', ''drop''}
        then apply_task_transition (cd_task_id c) (cd_task_version c) action now d
        else (\<lparr>tr_disposition = TrApplied, tr_task_id = cd_task_id c,
               tr_version = Some (cd_task_version c), tr_status = Some TaskOpen, tr_refusal = None\<rparr>, d)) = (tr, d1)
      \<and> tr_accepted tr \<and> tasks d' = tasks d1
      \<and> cards d' = update_where (\<lambda>x. cd_id x = cd_id c \<and> cd_version x = cd_version c)
          (if action = ''snooze'' then snoozed now else resolved action now) (cards d1)
      \<and> (if action = ''snooze'' then evidence d' = evidence d1
         else \<exists>n d3. settle_for_card (cd_id c) (the (map_of ANSWERS action)) now d1 = Inr (n, d3)
            \<and> evidence d' = evidence d3)"
proof -
  let ?f = "if action = ''snooze'' then snoozed now else resolved action now"
  obtain tr d1 where tr: "(if action \<in> {''done'', ''drop''}
        then apply_task_transition (cd_task_id c) (cd_task_version c) action now d
        else (\<lparr>tr_disposition = TrApplied, tr_task_id = cd_task_id c,
               tr_version = Some (cd_task_version c), tr_status = Some TaskOpen, tr_refusal = None\<rparr>, d)) = (tr, d1)"
    by (metis surj_pair)
  have acc: "tr_accepted tr"
    using assms tr by (auto simp: answer_card_def split: if_splits)
  obtain n d3 e where d3: "(if action = ''snooze'' then Inr (0, update_card c ?f d1)
      else settle_for_card (cd_id c) (the (map_of ANSWERS action)) now (update_card c ?f d1)) = Inr (n, d3)"
    and d': "d' = add_card_event e d3"
    using assms(1) tr acc by (auto simp: answer_card_def Let_def rbind_Inr_iff)
  show ?thesis
  proof (cases "action = ''snooze''")
    case True
    then show ?thesis
      using tr acc d3 d' by (intro exI [of _ tr] exI [of _ d1]) (auto simp: add_card_event_def update_card_def)
  next
    case False
    then have s: "settle_for_card (cd_id c) (the (map_of ANSWERS action)) now (update_card c ?f d1) = Inr (n, d3)"
      using d3 by simp
    obtain es where es: "d3 = (update_card c ?f d1)\<lparr>evidence := es\<rparr>"
      using settle_for_card_evidence [OF s] by blast
    have "\<exists>d4. settle_for_card (cd_id c) (the (map_of ANSWERS action)) now d1 = Inr (n, d4)
        \<and> evidence d4 = evidence d3"
      using settle_for_card_cards [OF s [unfolded update_card_def]] .
    then show ?thesis
      using False tr acc d' es
      by (intro exI [of _ tr] exI [of _ d1]) (auto simp: add_card_event_def update_card_def)
  qed
qed

lemma show_full_bumps:
  assumes "system_inv d" and "show_full_cards k expected now d = Inr (fl, d')"
    and "fr_disposition fl \<noteq> CardRefused"
  shows "card_version k d = Some expected \<and> card_version k d' = Some (expected + 1)"
proof -
  obtain v where v: "card_view_of k d = Some v" "cd_version (vw_card v) = expected"
    "cd_status (vw_card v) = CardDelivered"
    using assms(2,3) by (auto simp: show_full_cards_def full_refused_def Let_def split: if_splits option.splits)
  then obtain c t where c: "joined_card k d = Some (c, t)" "cd_version c = expected" "cd_status c = CardDelivered"
    by (auto simp: card_view_of_def split: option.splits)
  note mem = joined_card_mem [OF c(1)]
  obtain ta tb ka kb d2 where 2: "deliver_full c ta now (card_cancelled now c d) = Inr (ka, d2)"
    and 3: "deliver_full c tb now d2 = Inr (kb, d')"
    using assms(2,3) c(1)
    by (auto simp: show_full_cards_def full_refused_def card_view_of_def Let_def rbind_Inr_iff
        card_cancelled_def split: if_splits option.splits prod.splits)
  have app: "\<exists>x. cards d2 = cards d1 @ [x]" if "deliver_full c s now d1 = Inr (y, d2)" for s d1 y d2
    using that by (auto simp: deliver_full_def rbind_Inr_iff Let_def insert_card_def add_card_event_def
        split: if_splits)
  obtain x y where "cards d' = cards (card_cancelled now c d) @ [x, y]"
    using app [OF 2] app [OF 3] by auto
  moreover have "card_of (cd_id c) (card_cancelled now c d) = Some (cancelled now c)"
    by (rule card_after_update [OF assms(1)]) (use mem in \<open>simp_all add: card_cancelled_def
      add_card_event_def update_card_def\<close>)
  ultimately have "card_of (cd_id c) d' = Some (cancelled now c)" by (simp add: find_append)
  moreover have "card_of k d = Some c" using mem assms(1) by (simp add: card_of_unique)
  ultimately show ?thesis using mem c(2) by (simp add: card_version_def)
qed

lemma act_bumps:
  assumes "system_inv d" and "act k expected action now d = Inr (r, d')" and "co_disposition r = CardApplied"
  shows "card_version k d = Some expected \<and> card_version k d' = Some (expected + 1)"
proof (rule act_cases [OF assms(2)])
  assume "co_disposition r = CardRefused"
  then show ?thesis using assms(3) by simp
next
  fix c t
  assume c: "joined_card k d = Some (c, t)" "cd_version c = expected" "cd_status c = CardDelivered"
    and a: "act_duplicate c action now d = Inr (Some (r, d'))"
  note mem = joined_card_mem [OF c(1)]
  obtain p l rr d1 d2 where
    1: "(if action = ''duplicate_confirm'' then confirm_duplicate c p l rr now d else Inr (Some d)) = Inr (Some d1)"
    and 2: "dup_settle (dp_id p) (if action = ''duplicate_confirm'' then Confirmed else Rejected) ''reader'' now d1
      = Inr (True, d2)"
    and d': "d' = card_cancelled now c d2"
    using a
    by (auto simp: act_duplicate_def Let_def rbind_Inr_iff card_cancelled_def
        split: option.splits prod.splits if_splits)
  have 0: "keeps False d d1 \<and> c \<in> set (cards d1)"
    using 1 keeps_confirm mem keeps_refl by (auto split: if_splits)
  have "system_inv d2"
    using keepsD(1) [OF keeps_trans [OF conjunct1 [OF 0] keeps_dup_settle [OF 2]] assms(1)] .
  moreover have "c \<in> set (cards d2)" using 0 dup_settle_cards [OF 2] by simp
  moreover have "cards d' = update_where (\<lambda>x. cd_id x = cd_id c \<and> cd_version x = cd_version c) (cancelled now) (cards d2)"
    by (simp add: d' card_cancelled_def add_card_event_def update_card_def)
  ultimately have "card_of (cd_id c) d' = Some (cancelled now c)"
    by (intro card_after_update) simp_all
  moreover have "card_of k d = Some c" using mem assms(1) by (simp add: card_of_unique)
  ultimately show ?thesis using mem c(2) by (simp add: card_version_def)
next
  fix c t fl
  assume "fr_disposition fl \<noteq> CardRefused" and "show_full_cards k expected now d = Inr (fl, d')"
  then show ?thesis using show_full_bumps [OF assms(1)] by blast
next
  fix c t
  assume c: "joined_card k d = Some (c, t)" "cd_version c = expected"
    and ans: "answer_card c t action now d = Inr (r, d')"
  note mem = joined_card_mem [OF c(1)]
  obtain tr d1 where d1: "(if action \<in> {''done'', ''drop''}
        then apply_task_transition (cd_task_id c) (cd_task_version c) action now d
        else (\<lparr>tr_disposition = TrApplied, tr_task_id = cd_task_id c,
               tr_version = Some (cd_task_version c), tr_status = Some TaskOpen, tr_refusal = None\<rparr>, d)) = (tr, d1)"
    and cs: "cards d' = update_where (\<lambda>x. cd_id x = cd_id c \<and> cd_version x = cd_version c)
      (if action = ''snooze'' then snoozed now else resolved action now) (cards d1)"
    using answer_effect [OF ans assms(3)] by blast
  have "cards d1 = cards d"
    using d1 transition_frame(1) [of "cd_task_id c" "cd_task_version c" action now d]
    by (auto split: if_splits)
  then have "card_of (cd_id c) d' = Some ((if action = ''snooze'' then snoozed now else resolved action now) c)"
    using cs mem
    by (intro card_after_update [OF assms(1)])
      (auto simp: snoozed_def resolved_def unclaim_def unpresent_def)
  moreover have "card_of k d = Some c" using mem assms(1) by (simp add: card_of_unique)
  ultimately show ?thesis using mem c(2) by (simp add: card_version_def)
qed

lemma other_versions:
  assumes "keeps b d d'" and "system_inv d" and "card_version k d = Some v"
  shows "\<exists>v' \<ge> v. card_version k d' = Some v'"
proof -
  obtain c where c: "c \<in> set (cards d)" "cd_id c = k" "cd_version c = v"
    using assms(3) by (auto simp: card_version_def dest: card_of_mem)
  obtain c' where c': "c' \<in> set (cards d')" "card_evolves c c'"
    using card_run_evolves [OF keepsD(2) [OF assms(1,2)] _ c(1)] assms(2) by (auto simp: system_inv_def)
  have "card_of k d' = Some c'"
    using card_of_unique [OF keepsD(1) [OF assms(1,2)]] c' c(2) card_fixedD [of c' c]
    by (simp add: card_evolves_def)
  then show ?thesis using c'(2) c(3) by (auto simp: card_version_def card_evolves_def)
qed

section \<open>Every fenced request\<close>

lemma fail_bumps:
  assumes "system_inv d" and "fail_delivery sha k expected token now d = (r, d')"
    and "co_disposition r = CardApplied"
  shows "card_version k d = Some expected \<and> card_version k d' = Some (expected + 1)"
proof -
  obtain c where c: "card_of k d = Some c"
    using assms(2,3) by (cases "card_of k d") (auto simp: fail_delivery_def split: if_splits)
  have vd: "cd_version c = expected
    \<and> d' = add_card_event (card_event_of c CevFailed (expected + 1) (cd_task_version c) None now)
        (update_card c (returned now) d)"
    using assms(2,3) c by (simp add: fail_delivery_def split: if_splits) auto
  note d' = vd [THEN conjunct2] and c = c vd [THEN conjunct1]
  have mem: "c \<in> set (cards d)" "cd_id c = k" using c(1) assms(1) by (simp_all add: card_of_unique)
  have "card_of (cd_id c) d' = Some (returned now c)"
    by (rule card_after_update [OF assms(1) mem(1)])
      (simp add: returned_def unclaim_def, simp add: d' add_card_event_def update_card_def)
  then show ?thesis using c mem by (simp add: card_version_def returned_def)
qed

lemma retry_bumps:
  assumes "system_inv d" and "retry_delivery k expected now d = Inr (r, d')"
    and "co_disposition r = CardApplied"
  shows "card_version k d = Some expected \<and> card_version k d' = Some (expected + 1)"
proof -
  obtain c t where c: "joined_card k d = Some (c, t)"
    using assms(2,3) by (cases "joined_card k d") (auto simp: retry_delivery_def split: if_splits)
  have vd: "cd_version c = expected \<and> cd_status c = CardDelivered
    \<and> d' = add_card_event (card_event_of c CevFailed (expected + 1) (cd_task_version c) None now)
      (d\<lparr>cards := update_where
        (\<lambda>x. cd_id x = k \<and> cd_version x = expected \<and> cd_status x = CardDelivered)
        (unpresent \<circ> returned now) (cards d)\<rparr>)"
    using assms(2,3) c by (simp add: retry_delivery_def Let_def split: if_splits) auto
  note d' = vd [THEN conjunct2, THEN conjunct2] and c = c vd [THEN conjunct1] vd [THEN conjunct2, THEN conjunct1]
  have card: "card_of k d = Some c" using joined_card_mem [OF c(1)] assms(1) by (simp add: card_of_unique)
  then have "card_of k d' = Some (unpresent (returned now c))"
    using c joined_card_mem [OF c(1)]
    by (simp add: d' add_card_event_def find_update_where unpresent_def returned_def unclaim_def)
  then show ?thesis using card c(2) by (simp add: card_version_def unpresent_def returned_def)
qed

text \<open>
  The requests that carry the version of a presentation, whether one was applied, and the card and
  version it names.  A request of another kind carries no version and counts as not applied.
\<close>

fun service_applied :: "(string \<Rightarrow> string) \<Rightarrow> service_req \<Rightarrow> db \<Rightarrow> bool" where
  "service_applied sha (ReqFail k v token now) d \<longleftrightarrow>
     co_disposition (fst (fail_delivery sha k v token now d)) = CardApplied"
| "service_applied sha (ReqRetry k v now) d \<longleftrightarrow> act_applied (fst (run_tx (retry_delivery k v now) d))"
| "service_applied sha (ReqAct k v action now) d \<longleftrightarrow> act_applied (fst (run_tx (act k v action now) d))"
| "service_applied sha (ReqShowFull k v now) d \<longleftrightarrow> (case fst (run_tx (show_full_cards k v now) d) of
     Inl _ \<Rightarrow> False | Inr r \<Rightarrow> fr_disposition r \<noteq> CardRefused)"
| "service_applied sha _ d \<longleftrightarrow> False"

fun req_card :: "service_req \<Rightarrow> rowid" where
  "req_card (ReqFail k v token now) = k"
| "req_card (ReqRetry k v now) = k"
| "req_card (ReqAct k v action now) = k"
| "req_card (ReqShowFull k v now) = k"
| "req_card _ = 0"

fun req_version :: "service_req \<Rightarrow> int" where
  "req_version (ReqFail k v token now) = v"
| "req_version (ReqRetry k v now) = v"
| "req_version (ReqAct k v action now) = v"
| "req_version (ReqShowFull k v now) = v"
| "req_version _ = 0"

definition service_call :: "(string \<Rightarrow> string) \<Rightarrow> service_req \<Rightarrow> db \<Rightarrow> bool \<times> db" where
  "service_call sha r d = (service_applied sha r d, service_step sha r d)"

lemma applied_bumps:
  assumes "system_inv d" and "service_applied sha r d"
  shows "card_version (req_card r) d = Some (req_version r)
    \<and> card_version (req_card r) (service_step sha r d) = Some (req_version r + 1)"
proof (cases r)
  case (ReqFail k v token now)
  then show ?thesis
    using fail_bumps [OF assms(1), of sha k v token now] assms(2)
    by (cases "fail_delivery sha k v token now d") simp
next
  case (ReqRetry k v now)
  then show ?thesis
    using retry_bumps [OF assms(1), of k v now] assms(2)
    by (cases "retry_delivery k v now d") (auto simp: act_applied_def run_tx_def)
next
  case (ReqAct k v action now)
  then show ?thesis
    using act_bumps [OF assms(1), of k v action now] assms(2)
    by (cases "act k v action now d") (auto simp: act_applied_def run_tx_def)
next
  case (ReqShowFull k v now)
  then show ?thesis
    using show_full_bumps [OF assms(1), of k v now] assms(2)
    by (cases "show_full_cards k v now d") (auto simp: run_tx_def)
qed (use assms(2) in simp_all)

interpretation card_calls: fenced_op "service_call sha" "\<lambda>b. b" req_card req_version card_version system_inv
  for sha
proof unfold_locales
  fix d :: db and r :: service_req and k v
  assume inv: "system_inv d"
  have keeps: "keeps False d (service_step sha r d)" by (rule keeps_service) simp
  show "system_inv (snd (service_call sha r d))"
    using keepsD(1) [OF keeps inv] by (simp add: service_call_def)
  show "fst (service_call sha r d) \<Longrightarrow> card_version (req_card r) d = Some (req_version r)"
    "fst (service_call sha r d) \<Longrightarrow>
      card_version (req_card r) (snd (service_call sha r d)) = Some (req_version r + 1)"
    using applied_bumps [OF inv, of sha r] by (simp_all add: service_call_def)
  show "card_version k d = Some v \<Longrightarrow> \<exists>v' \<ge> v. card_version k (snd (service_call sha r d)) = Some v'"
    using other_versions [OF keeps inv] by (simp add: service_call_def)
qed

section \<open>Claims\<close>

lemma hd_by_due:
  assumes "by_due cs = c # rest" and "x \<in> set cs"
  shows "cd_due_at c < cd_due_at x \<or> (cd_due_at c = cd_due_at x \<and> cd_id c \<le> cd_id x)"
proof -
  let ?ids = "sort_key cd_id cs"
  have "sorted (map cd_due_at (c # rest))" using assms(1) by (metis by_due_def sorted_sort_key)
  moreover have x: "x \<in> set (c # rest)" using assms by (metis set_by_due)
  ultimately have le: "cd_due_at c \<le> cd_due_at x" by auto
  show ?thesis
  proof (cases "cd_due_at c = cd_due_at x")
    case True
    let ?P = "\<lambda>y. cd_due_at y = cd_due_at c"
    have "filter ?P (by_due cs) = filter ?P ?ids"
      unfolding by_due_def by (rule sort_key_stable)
    then have eq: "c # filter ?P rest = filter ?P ?ids" using assms(1) by simp
    have "sorted (map cd_id (filter ?P ?ids))" by (rule sorted_filter) (rule sorted_sort_key)
    moreover have "x \<in> set (c # filter ?P rest)" using x True by auto
    ultimately have "cd_id c \<le> cd_id x" unfolding eq [symmetric] by auto
    with True show ?thesis by simp
  qed (use le in simp)
qed

lemma rowcount_update:
  "(\<And>r. r \<in> set rows \<Longrightarrow> P r \<Longrightarrow> Q (f r) = Q r) \<Longrightarrow> rowcount Q (update_where P f rows) = rowcount Q rows"
  "(\<And>r. r \<in> set rows \<Longrightarrow> P r \<Longrightarrow> \<not> Q r \<and> Q (f r)) \<Longrightarrow>
    rowcount Q (update_where P f rows) = rowcount Q rows + rowcount P rows"
  by (induction rows) (auto simp: rowcount_def update_where_def)

section \<open>Reaping and counting\<close>

definition lapsed :: "time \<Rightarrow> card_row \<Rightarrow> card_row" where
  "lapsed now c = (if expired_delivering now c
     then (unclaim c)\<lparr>cd_status := CardPending, cd_version := cd_version c + 1, cd_updated_at := now\<rparr> else c)"

lemma expire_all_rows:
  assumes "distinct (map cd_id rows)" and "unique_key cd_id (cards d)"
    and "\<And>c. c \<in> set rows \<Longrightarrow> c \<in> set (cards d) \<and> cd_status c = CardDelivering"
  shows "cards (fold (expire_card now) rows d) = map (\<lambda>x. if x \<in> set rows
    then (unclaim x)\<lparr>cd_status := CardPending, cd_version := cd_version x + 1, cd_updated_at := now\<rparr> else x) (cards d)"
  using assms
proof (induction rows arbitrary: d)
  case (Cons c rows)
  let ?g = "\<lambda>x. (unclaim x)\<lparr>cd_status := CardPending, cd_version := cd_version x + 1, cd_updated_at := now\<rparr>"
  let ?d = "expire_card now c d"
  have c: "c \<in> set (cards d)" "cd_status c = CardDelivering" using Cons.prems(3) [of c] by simp_all
  have only: "x = c" if "x \<in> set (cards d)" "cd_id x = cd_id c" for x
    using row_of_unique [OF Cons.prems(2), of "cd_id c" x] row_of_unique [OF Cons.prems(2), of "cd_id c" c] c(1) that
    by simp
  have rows: "cards ?d = map (\<lambda>x. if x = c then ?g x else x) (cards d)"
    using only c(2) by (auto simp: expire_card_def add_card_event_def update_where_def)
  have ids: "cd_id x \<noteq> cd_id c" if "x \<in> set rows" for x
    using Cons.prems(1) that by (metis distinct.simps(2) image_eqI list.set_map list.simps(9))
  have "cards (fold (expire_card now) rows ?d) = map (\<lambda>x. if x \<in> set rows then ?g x else x) (cards ?d)"
  proof (rule Cons.IH)
    show "distinct (map cd_id rows)" using Cons.prems(1) by simp
    show "unique_key cd_id (cards ?d)"
      using Cons.prems(2) by (simp add: expire_card_def add_card_event_def unique_key_update unclaim_def)
    show "x \<in> set (cards ?d) \<and> cd_status x = CardDelivering" if "x \<in> set rows" for x
      using Cons.prems(3) [of x] expire_other [of x d c now] ids [OF that] that by simp
  qed
  also have "\<dots> = map (\<lambda>x. if x \<in> set (c # rows) then ?g x else x) (cards d)"
  proof -
    have "?g c \<notin> set rows"
      using ids [of "?g c"] by (auto simp: unclaim_def)
    moreover have "c \<notin> set rows" using ids by blast
    ultimately show ?thesis unfolding rows by auto
  qed
  finally show ?case by simp
qed simp

lemma reap_rows:
  assumes "system_inv d"
  shows "cards (reap now d) = map (lapsed now) (cards d)"
proof -
  let ?rows = "sort_key cd_id (filter (expired_delivering now) (cards d))"
  have "distinct (map cd_id ?rows)"
    using assms by (intro distinct_sorted_rows distinct_rows) (simp add: system_inv_def)
  from expire_all_rows [OF this unique_card [OF assms]]
  have "cards (reap now d) = map (\<lambda>x. if x \<in> set ?rows
    then (unclaim x)\<lparr>cd_status := CardPending, cd_version := cd_version x + 1, cd_updated_at := now\<rparr> else x) (cards d)"
    unfolding reap_def by (auto simp: expired_delivering_def)
  also have "\<dots> = map (lapsed now) (cards d)"
    by (rule map_cong) (simp_all add: lapsed_def)
  finally show ?thesis .
qed

lemma rowcount_map: "rowcount P (map f rows) = rowcount (P \<circ> f) rows"
  by (simp add: rowcount_def filter_map)

lemma rowcount_cong: "(\<And>r. r \<in> set rows \<Longrightarrow> P r = Q r) \<Longrightarrow> rowcount P rows = rowcount Q rows"
  unfolding rowcount_def by (metis (mono_tags, lifting) filter_cong)

lemma lapsed_running:
  "expired_delivering now (lapsed now c) = False"
  "lease_runs now (lapsed now c) = lease_runs now c"
  by (auto simp: lapsed_def expired_delivering_def lease_runs_def unclaim_def split: option.splits if_splits)

end
