(* ===== verification/CardTheorems.thy ===== *)
theory CardTheorems
  imports CardProps
begin

text \<open>
  The properties of the card service, over one sample database that satisfies the invariant of
  the whole system: a delivered card that asks whether task 1 is done, a waiting card on task 2
  and a cancelled one on task 3.
\<close>

section \<open>A sample database\<close>

definition sample_card :: "rowid \<Rightarrow> rowid \<Rightarrow> card_status \<Rightarrow> int \<Rightarrow> card_row" where
  "sample_card k i st v = (new_card k i 1 None 10)\<lparr>cd_status := st, cd_version := v,
     cd_claim_token_digest := (if st = CardDelivered then Some (replicate 64 CHR ''a'') else None),
     cd_consumer_digest := (if st = CardDelivered then Some (replicate 64 CHR ''b'') else None),
     cd_delivered_at := (if st = CardDelivered then Some 12 else None),
     cd_resolved_at := (if active st then None else Some 12)\<rparr>"

definition sample_event :: "card_row \<Rightarrow> card_event_kind \<Rightarrow> int \<Rightarrow> card_event" where
  "sample_event c kind v = card_event_of c kind v (cd_task_version c) None 12"

definition sample_system :: db where
  "sample_system = sample_ledger\<lparr>
     evidence := [(detection_row sample_sha sample_detection 1 7)\<lparr>ev_card_id := Some 1\<rparr>],
     proposals := [sample_proposal 1 1 2 DupProposed None],
     proposal_events := [proposal_event_row 1 PevProposed ''words'' None 3],
     cards := [sample_card 1 1 CardDelivered 2, sample_card 2 2 CardPending 1,
       sample_card 3 3 CardCancelled 2],
     card_events := [sample_event (sample_card 1 1 CardDelivered 2) CevClaimed 2,
       sample_event (sample_card 1 1 CardDelivered 2) CevDelivered 2,
       sample_event (sample_card 2 2 CardPending 1) CevScheduled 1,
       sample_event (sample_card 3 3 CardCancelled 2) CevCancelled 2]\<rparr>"

lemma sample_evidence_inv: "evidence_inv sample_system"
  by code_simp

lemma sample_dup_inv: "dup_inv sample_system"
  by code_simp

lemma sample_cards_inv: "cards_inv sample_system"
  by code_simp

lemma sample_consistent: "ledger_consistent sample_system"
  by code_simp

lemma sample_ledger_inv: "ledger_inv sample_system"
  by code_simp

lemma sample_relations_inv: "relations_inv sample_system"
proof -
  have "live_edges k sample_system = []" for k
    by (simp add: live_edges_def sample_system_def sample_ledger_def empty_db_def)
  then show ?thesis
    by (simp add: relations_inv_def no_cycle_def sample_system_def sample_ledger_def empty_db_def unique_key_def)
qed

lemma sample_system_ok: "system_inv sample_system"
  unfolding system_inv_def
  using sample_ledger_inv sample_evidence_inv sample_dup_inv sample_relations_inv sample_cards_inv by blast

section \<open>What the service keeps\<close>

definition sample_reqs :: "service_req list" where
  "sample_reqs = [ReqAct 1 2 ''done'' 20, ReqSchedule 10 21,
     ReqClaim 60 (replicate 64 CHR ''b'') ''drip'' (replicate 32 CHR ''t'') 22]"

text \<open>C1: One invariant covers the task, evidence, duplicate, relation and card tables, and every
  sequence of card service requests keeps it, whatever the requests, the clock readings and the
  tokens are and whether a request is applied, refused or rolled back.\<close>

theorem service_keeps_system_invariant:
  assumes "system_inv d"
  shows "system_inv (service_run sha reqs d)"
  using keepsD(1) [OF keeps_service_run assms] by blast

theorem service_keeps_system_invariant_witness:
  "system_inv (service_run sample_sha sample_reqs sample_system)"
  by (rule service_keeps_system_invariant [OF sample_system_ok])

text \<open>C3: Cards move only along the card machine.  Whatever the service is asked, the card table it
  leaves is reached from the one it found by steps of \<open>card_step\<close>: a card is raised, moved along
  an edge of \<open>card_next\<close> with an event that names its new version, or brought forward.\<close>

theorem service_refines_card_machine:
  assumes "system_inv d"
  shows "card_step\<^sup>*\<^sup>* d (service_run sha reqs d)"
  using keepsD(2) [OF keeps_service_run assms] by blast

theorem service_refines_card_machine_witness:
  "card_step\<^sup>*\<^sup>* sample_system (service_run sample_sha sample_reqs sample_system)"
  by (rule service_refines_card_machine [OF sample_system_ok])

text \<open>C33: A card is never lost and never rewritten: after any requests its row is still there, about
  the same task at the same version and source revision, with a version that never went down, and a
  resolved or cancelled card is exactly as it was.\<close>

theorem cards_are_never_rewritten:
  assumes "system_inv d" and "c \<in> set (cards d)"
  shows "\<exists>c' \<in> set (cards (service_run sha reqs d)). card_fixed c' = card_fixed c
    \<and> cd_version c \<le> cd_version c' \<and> (\<not> active (cd_status c) \<longrightarrow> c' = c)"
proof -
  have "cards_inv d" using assms(1) by (simp add: system_inv_def)
  moreover have "card_step\<^sup>*\<^sup>* d (service_run sha reqs d)"
    using keepsD(2) [OF keeps_service_run assms(1)] by blast
  ultimately obtain c' where "c' \<in> set (cards (service_run sha reqs d))" "card_evolves c c'"
    using card_run_evolves assms(2) by blast
  then show ?thesis by (auto simp: card_evolves_def)
qed

theorem cards_are_never_rewritten_witness:
  "\<exists>c' \<in> set (cards (service_run sample_sha sample_reqs sample_system)).
    card_fixed c' = card_fixed (sample_card 3 3 CardCancelled 2)
    \<and> cd_version (sample_card 3 3 CardCancelled 2) \<le> cd_version c'
    \<and> (\<not> active (cd_status (sample_card 3 3 CardCancelled 2)) \<longrightarrow> c' = sample_card 3 3 CardCancelled 2)"
  by (rule cards_are_never_rewritten [OF sample_system_ok]) (simp add: sample_system_def)

lemma rows_weaken:
  "\<forall>x \<in> A. \<exists>y \<in> B. R x y \<Longrightarrow> (\<And>x y. R x y \<Longrightarrow> S x y) \<Longrightarrow> \<forall>x \<in> A. \<exists>y \<in> B. S x y"
  by blast

text \<open>The card service never forges or forgets what it asks about.  After any requests every
  piece of evidence, every duplicate proposal and every relation is still there with what it showed,
  and settled evidence, expired proposals and withdrawn relations did not change.\<close>

lemma service_keeps_questions:
  assumes "system_inv d"
  shows "(\<forall>e \<in> set (evidence d). \<exists>e' \<in> set (evidence (service_run sha reqs d)).
      shown e' = shown e \<and> (ev_state e \<noteq> EvidenceProposed \<longrightarrow> e' = e))
    \<and> (\<forall>p \<in> set (proposals d). \<exists>p' \<in> set (proposals (service_run sha reqs d)).
      dp_id p' = dp_id p \<and> dp_shown p' = dp_shown p \<and> (dp_state p = DupSuperseded \<longrightarrow> p' = p))
    \<and> (\<forall>r \<in> set (relations d). \<exists>r' \<in> set (relations (service_run sha reqs d)). rel_evolves r r')"
proof -
  note k = keepsD(3-5) [OF keeps_service_run [of False reqs d sha] assms]
  show ?thesis
  proof (intro conjI)
    show "\<forall>e \<in> set (evidence d). \<exists>e' \<in> set (evidence (service_run sha reqs d)).
        shown e' = shown e \<and> (ev_state e \<noteq> EvidenceProposed \<longrightarrow> e' = e)"
      by (rule rows_weaken [OF k(1)]) (auto dest: evolvesD(1,6))
    show "\<forall>p \<in> set (proposals d). \<exists>p' \<in> set (proposals (service_run sha reqs d)).
        dp_id p' = dp_id p \<and> dp_shown p' = dp_shown p \<and> (dp_state p = DupSuperseded \<longrightarrow> p' = p)"
      by (rule rows_weaken [OF k(2)]) (auto simp: alive_def dest: dp_evolvesD(1,2,5))
    show "\<forall>r \<in> set (relations d). \<exists>r' \<in> set (relations (service_run sha reqs d)). rel_evolves r r'"
      using k(3) by blast
  qed
qed

theorem service_keeps_questions_witness:
  "\<exists>p' \<in> set (proposals (service_run sample_sha sample_reqs sample_system)).
    dp_id p' = 1 \<and> dp_shown p' = dp_shown (sample_proposal 1 1 2 DupProposed None)"
proof -
  have "sample_proposal 1 1 2 DupProposed None \<in> set (proposals sample_system)"
    by (simp add: sample_system_def)
  then obtain p' where "p' \<in> set (proposals (service_run sample_sha sample_reqs sample_system))"
    "dp_id p' = dp_id (sample_proposal 1 1 2 DupProposed None)"
    "dp_shown p' = dp_shown (sample_proposal 1 1 2 DupProposed None)"
    using service_keeps_questions [OF sample_system_ok, THEN conjunct2, THEN conjunct1] by blast
  then show ?thesis by (auto simp: sample_proposal_def)
qed

text \<open>C32: Work items and the task log stay in step with the tasks under every sequence of requests
  that reverses no confirmed duplicate: a work item is closed exactly when its task is, and the last
  status event of a task names its status.\<close>

theorem service_keeps_ledger_consistent:
  assumes "system_inv d" and "ledger_consistent d" and "list_all (\<lambda>r. \<not> reverses r) reqs"
  shows "ledger_consistent (service_run sha reqs d)"
  using keepsD(6) [OF keeps_service_run [of True reqs d sha] assms(1)] assms(2,3) by simp

theorem service_keeps_ledger_consistent_witness:
  "ledger_consistent (service_run sample_sha sample_reqs sample_system)"
  by (rule service_keeps_ledger_consistent [OF sample_system_ok sample_consistent])
    (simp add: sample_reqs_def)

section \<open>Claims\<close>

text \<open>A claim takes the card that has been due the longest.  Once the dead leases are reaped, the
  claimed card is claimable, no other claimable card is due earlier (or as early with a smaller id),
  and its row now is that card leased to this consumer under the digest of the token returned.\<close>

lemma claim_takes_the_first_due_card:
  assumes "system_inv d" and "claim_next sha lease consumer role token now d = Inr (Claimed c tok expires, d')"
  shows "\<exists>c0 \<in> set (cards (reap now d)). claimable now (reap now d) c0
    \<and> (\<forall>x \<in> set (cards (reap now d)). claimable now (reap now d) x \<longrightarrow>
         cd_due_at c0 < cd_due_at x \<or> (cd_due_at c0 = cd_due_at x \<and> cd_id c0 \<le> cd_id x))
    \<and> card_of (cd_id c0) d' = Some (claimed (sha token) (now + lease) consumer now c0)
    \<and> cd_id c = cd_id c0 \<and> tok = token \<and> expires = now + lease"
proof -
  let ?d = "reap now d"
  have inv: "system_inv ?d" using keepsD(1) [OF keeps_reap assms(1)] .
  obtain ceiling c0 rest where
    due: "by_due (filter (claimable now ?d) (cards ?d)) = c0 # rest"
    and c: "c = c0\<lparr>cd_status := CardDelivering, cd_version := cd_version c0 + 1\<rparr>"
      "tok = token" "expires = now + lease"
    and d': "d' = claim_card (sha token) (now + lease) consumer now c0 ?d"
    using assms(2) by (auto simp: claim_next_def Let_def split: if_splits option.splits list.splits)
  have "c0 \<in> set (by_due (filter (claimable now ?d) (cards ?d)))" using due by simp
  then have c0: "c0 \<in> set (cards ?d)" "claimable now ?d c0" by (simp_all add: set_by_due)
  have first: "cd_due_at c0 < cd_due_at x \<or> (cd_due_at c0 = cd_due_at x \<and> cd_id c0 \<le> cd_id x)"
    if "x \<in> set (cards ?d)" "claimable now ?d x" for x
    using hd_by_due [OF due, of x] that by simp
  have hit: "cd_status c0 \<in> {CardPending, CardSnoozed}"
    using c0(2) by (simp add: claimable_def waiting_card_def)
  have card: "card_of (cd_id c0) ?d = Some c0" using c0(1) inv by (simp add: card_of_unique)
  have "card_of (cd_id c0) d' = Some (claimed (sha token) (now + lease) consumer now c0)"
    using card hit
    by (simp add: d' claim_card_def add_card_event_def find_update_where claimed_def unpresent_def)
  then show ?thesis using c0 first c by (intro bexI [of _ c0]) simp_all
qed

text \<open>C29: Claims respect the ceiling.  Once the dead leases are reaped, a consumer that holds the ceiling
  of its role is told so, with both numbers; below it, it is told that there is nothing to claim
  exactly when no card is claimable, and otherwise it is granted a card, holds exactly one more, at
  most the ceiling, and no other consumer holds more or fewer.  Nothing but the reaping is written
  when no card is granted.\<close>

theorem claims_respect_the_ceiling:
  assumes "system_inv d" and "map_of TASK_CARD_CLAIM_CEILINGS role = Some ceiling"
    and "claim_next sha lease consumer role token now d = Inr (out, d')"
  shows "let d1 = reap now d; held = rowcount (held_by consumer) (cards d1) in
    if ceiling \<le> held then out = ClaimAtCeiling held ceiling \<and> d' = d1
    else if \<not> list_ex (claimable now d1) (cards d1) then out = NothingToClaim \<and> d' = d1
    else (\<exists>c. out = Claimed c token (now + lease)) \<and> rowcount (held_by consumer) (cards d') = held + 1
      \<and> held + 1 \<le> ceiling
      \<and> (\<forall>other. other \<noteq> consumer \<longrightarrow>
          rowcount (held_by other) (cards d') = rowcount (held_by other) (cards d1))"
proof -
  let ?d = "reap now d"
  let ?held = "rowcount (held_by consumer) (cards ?d)" and ?due = "by_due (filter (claimable now ?d) (cards ?d))"
  have inv: "system_inv ?d" using keepsD(1) [OF keeps_reap assms(1)] .
  note run = assms(3) [unfolded claim_next_def Let_def assms(2) option.case]
  have none: "?due = [] \<longleftrightarrow> \<not> list_ex (claimable now ?d) (cards ?d)"
    using set_by_due [of "filter (claimable now ?d) (cards ?d)"] by (cases ?due) (auto simp: list_ex_iff)
  consider (full) "ceiling \<le> ?held" | (idle) "\<not> ceiling \<le> ?held" "?due = []"
    | (due) c rest where "\<not> ceiling \<le> ?held" "?due = c # rest"
    by (cases ?due) auto
  then show ?thesis
  proof cases
    case full
    then show ?thesis using run by (auto simp: Let_def split: if_splits)
  next
    case idle
    then show ?thesis using run none by (auto simp: Let_def split: if_splits)
  next
    case due
    let ?hit = "\<lambda>x. cd_id x = cd_id c \<and> cd_version x = cd_version c \<and> cd_status x \<in> {CardPending, CardSnoozed}"
    have "c \<in> set ?due" using due(2) by simp
    then have c: "c \<in> set (cards ?d)" "cd_status c \<in> {CardPending, CardSnoozed}"
      by (auto simp: claimable_def waiting_card_def)
    have "card_of (cd_id c) ?d = Some c" using c(1) inv by (simp add: card_of_unique)
    then have one: "rowcount ?hit (cards ?d) = 1"
      using c(2) by (simp add: rowcount_unique [OF unique_card [OF inv]])
    let ?c' = "c\<lparr>cd_status := CardDelivering, cd_version := cd_version c + 1\<rparr>"
    have out: "out = Claimed ?c' token (now + lease)"
      and d': "cards d' = update_where ?hit (claimed (sha token) (now + lease) consumer now) (cards ?d)"
      using run due one by (auto simp: claim_card_def add_card_event_def split: if_splits)
    have "rowcount (held_by consumer) (cards d') = ?held + 1"
      unfolding d' one [symmetric] by (rule rowcount_update(2)) (auto simp: held_by_def claimed_def)
    moreover have "rowcount (held_by other) (cards d') = rowcount (held_by other) (cards ?d)" if "other \<noteq> consumer" for other
      unfolding d' by (rule rowcount_update(1)) (use that in \<open>auto simp: held_by_def claimed_def\<close>)
    moreover have "list_ex (claimable now ?d) (cards ?d)" using none due(2) by simp
    ultimately show ?thesis using out due(1) by (simp add: Let_def)
  qed
qed

definition sample_claim :: "exc + (claim_outcome \<times> db)" where
  "sample_claim = claim_next sample_sha 60 (replicate 64 CHR ''b'') ''drip'' (replicate 32 CHR ''t'') 22
     sample_system"

lemma sample_claim_granted:
  "case sample_claim of Inl _ \<Rightarrow> False | Inr (out, d') \<Rightarrow> (case out of Claimed c tok e \<Rightarrow> cd_id c = 2 | _ \<Rightarrow> False)"
  by code_simp

lemma sample_claimE:
  obtains c tok e d' where "claim_next sample_sha 60 (replicate 64 CHR ''b'') ''drip''
      (replicate 32 CHR ''t'') 22 sample_system = Inr (Claimed c tok e, d')" "cd_id c = 2"
  using sample_claim_granted unfolding sample_claim_def
  by (auto split: sum.splits claim_outcome.splits)

theorem claim_takes_the_first_due_card_witness:
  "\<exists>c d'. cd_id c = 2 \<and> card_of 2 d' = Some (claimed (sample_sha (replicate 32 CHR ''t'')) (22 + 60)
     (replicate 64 CHR ''b'') 22 c)"
proof -
  obtain c tok e d' where 1: "claim_next sample_sha 60 (replicate 64 CHR ''b'') ''drip''
      (replicate 32 CHR ''t'') 22 sample_system = Inr (Claimed c tok e, d')" "cd_id c = 2"
    by (rule sample_claimE)
  from claim_takes_the_first_due_card [OF sample_system_ok 1(1)] 1(2) show ?thesis by metis
qed

theorem claims_respect_the_ceiling_witness:
  "\<exists>c tok e d'. sample_claim = Inr (Claimed c tok e, d')
    \<and> rowcount (held_by (replicate 64 CHR ''b'')) (cards d') = 2"
proof -
  obtain c tok e d' where 1: "claim_next sample_sha 60 (replicate 64 CHR ''b'') ''drip''
      (replicate 32 CHR ''t'') 22 sample_system = Inr (Claimed c tok e, d')"
    by (rule sample_claimE)
  have "map_of TASK_CARD_CLAIM_CEILINGS ''drip'' = Some 20" by code_simp
  note r = claims_respect_the_ceiling [OF sample_system_ok this 1, unfolded Let_def]
  have "rowcount (held_by (replicate 64 CHR ''b'')) (cards (reap 22 sample_system)) = 1" by code_simp
  with r have "rowcount (held_by (replicate 64 CHR ''b'')) (cards d') = 2" by (auto split: if_splits)
  then show ?thesis using 1 by (simp add: sample_claim_def)
qed

section \<open>Counting\<close>

text \<open>The counts promise exactly what the reaper delivers: counting the queue as it is, dead leases
  and all, gives the numbers that are seen after the reaper has returned those leases, for every
  consumer and in the global snapshot.\<close>

lemma stats_agree_with_the_reaper:
  assumes "system_inv d"
  shows "stats consumer now (reap now d) = stats consumer now d
    \<and> stats_global now (reap now d) = stats_global now d"
proof -
  have same: "rowcount P (cards (reap now d)) = rowcount P (cards d)"
    if "\<And>c. P (lapsed now c) = P c" for P
    by (simp add: reap_rows [OF assms] rowcount_map that comp_def)
  have pending: "cd_status (lapsed now c) = CardPending \<or> expired_delivering now (lapsed now c)
      \<longleftrightarrow> cd_status c = CardPending \<or> expired_delivering now c" for c
    by (auto simp: lapsed_running(1)) (auto simp: lapsed_def unclaim_def split: if_splits)
  have others: "cd_status (lapsed now c) = CardDelivered \<longleftrightarrow> cd_status c = CardDelivered"
    "cd_status (lapsed now c) = CardSnoozed \<longleftrightarrow> cd_status c = CardSnoozed"
    "active (cd_status (lapsed now c)) = active (cd_status c)" for c
    by (auto simp: lapsed_def unclaim_def expired_delivering_def)
  have consumer: "cd_consumer_digest (lapsed now c) = cd_consumer_digest c"
    if "lease_runs now c \<or> cd_status c = CardDelivered" for c
    using that by (auto simp: lapsed_def expired_delivering_def lease_runs_def split: option.splits)
  have held: "lease_runs now (lapsed now c) \<and> cd_consumer_digest (lapsed now c) = x
      \<longleftrightarrow> lease_runs now c \<and> cd_consumer_digest c = x"
    "cd_status (lapsed now c) = CardDelivered \<and> cd_consumer_digest (lapsed now c) = x
      \<longleftrightarrow> cd_status c = CardDelivered \<and> cd_consumer_digest c = x"
    "cd_consumer_digest (lapsed now c) \<noteq> None \<and> cd_consumer_digest (lapsed now c) \<noteq> x
        \<and> (cd_status (lapsed now c) = CardDelivered \<or> lease_runs now (lapsed now c))
      \<longleftrightarrow> cd_consumer_digest c \<noteq> None \<and> cd_consumer_digest c \<noteq> x
        \<and> (cd_status c = CardDelivered \<or> lease_runs now c)" for c x
    using consumer [of c] others(1) [of c] lapsed_running(2) [of now c]
    by (cases "lease_runs now c"; cases "cd_status c = CardDelivered"; simp del: not_None_eq)+
  show ?thesis
    using same [of "\<lambda>c. cd_status c = CardPending \<or> expired_delivering now c", OF pending]
      same [of "\<lambda>c. lease_runs now c \<and> cd_consumer_digest c = Some consumer", OF held(1)]
      same [of "\<lambda>c. cd_status c = CardDelivered \<and> cd_consumer_digest c = Some consumer", OF held(2)]
      same [of "\<lambda>c. cd_consumer_digest c \<noteq> None \<and> cd_consumer_digest c \<noteq> Some consumer
        \<and> (cd_status c = CardDelivered \<or> lease_runs now c)", OF held(3)]
      same [of "\<lambda>c. cd_status c = CardDelivered", OF others(1)]
      same [of "\<lambda>c. cd_status c = CardSnoozed", OF others(2)]
      same [of "\<lambda>c. active (cd_status c)", OF others(3)]
      same [of "lease_runs now", OF lapsed_running(2)]
    by (simp add: stats_def stats_global_def)
qed

theorem stats_agree_with_the_reaper_witness:
  "stats (replicate 64 CHR ''b'') 22 (reap 22 sample_system) = stats (replicate 64 CHR ''b'') 22 sample_system"
  using stats_agree_with_the_reaper [OF sample_system_ok] by blast

text \<open>The global snapshot is a partition: every active card is counted in exactly one of the four
  columns.\<close>

lemma stats_global_partitions_active_cards:
  assumes "system_inv d"
  shows "ks_active (stats_global now d) = ks_pending (stats_global now d) + ks_delivering (stats_global now d)
    + ks_delivered (stats_global now d) + ks_snoozed (stats_global now d)"
proof -
  have split: "rowcount P rows = rowcount Q rows + rowcount R rows"
    if "\<And>c. c \<in> set rows \<Longrightarrow> P c \<longleftrightarrow> Q c \<or> R c" "\<And>c. c \<in> set rows \<Longrightarrow> \<not> (Q c \<and> R c)"
    for P Q R and rows :: "card_row list"
    using that by (induction rows) (auto simp: rowcount_def)
  have leased: "cd_claim_expires_at c \<noteq> None" if "c \<in> set (cards d)" "cd_status c = CardDelivering" for c
    using that assms by (auto simp: system_inv_def cards_inv_def list_all_iff card_ok_def)
  let ?A = "\<lambda>c. cd_status c = CardPending \<or> expired_delivering now c"
  have "rowcount (\<lambda>c. active (cd_status c)) (cards d)
      = rowcount (\<lambda>c. (?A c \<or> lease_runs now c) \<or> cd_status c = CardDelivered) (cards d)
        + rowcount (\<lambda>c. cd_status c = CardSnoozed) (cards d)"
    using leased
    by (intro split; case_tac "cd_status c"; force simp: expired_delivering_def lease_runs_def)
  also have "rowcount (\<lambda>c. (?A c \<or> lease_runs now c) \<or> cd_status c = CardDelivered) (cards d)
      = rowcount (\<lambda>c. ?A c \<or> lease_runs now c) (cards d)
        + rowcount (\<lambda>c. cd_status c = CardDelivered) (cards d)"
    by (intro split) (auto simp: expired_delivering_def lease_runs_def)
  also have "rowcount (\<lambda>c. ?A c \<or> lease_runs now c) (cards d)
      = rowcount ?A (cards d) + rowcount (lease_runs now) (cards d)"
    by (intro split) (auto simp: expired_delivering_def lease_runs_def split: option.splits)
  finally show ?thesis by (simp add: stats_global_def)
qed

theorem stats_global_partitions_active_cards_witness:
  "ks_active (stats_global 22 sample_system) = ks_pending (stats_global 22 sample_system)
    + ks_delivering (stats_global 22 sample_system) + ks_delivered (stats_global 22 sample_system)
    + ks_snoozed (stats_global 22 sample_system)"
  by (rule stats_global_partitions_active_cards [OF sample_system_ok])

section \<open>Answers\<close>

text \<open>C6: A presentation is acted on at most once.  In any sequence of card service requests, the
  answers, failures, retries and expansions applied to one card carry strictly increasing versions,
  whatever is claimed, scheduled or cancelled between them.\<close>

theorem requests_are_fenced:
  assumes "system_inv d" and "m < n" and "n < length reqs"
    and "fst (run_ops (service_call sha) reqs d) ! m" and "fst (run_ops (service_call sha) reqs d) ! n"
    and "req_card (reqs ! m) = req_card (reqs ! n)"
  shows "req_version (reqs ! m) < req_version (reqs ! n)"
  using assms by (rule card_calls.accepted_strictly_increasing)

definition answered_task :: "string \<Rightarrow> time \<Rightarrow> task_row \<Rightarrow> task_row" where
  "answered_task action now t =
     (if action = ''done'' \<or> action = ''drop''
      then t\<lparr>tk_status := (if action = ''done'' then TaskDone else TaskDropped), tk_version := tk_version t + 1,
             tk_updated_at := now, tk_closed_at := Some now\<rparr>
      else t)"

definition answered_card :: "string \<Rightarrow> time \<Rightarrow> card_row \<Rightarrow> card_row" where
  "answered_card action now c = (if action = ''snooze'' then snoozed now c else resolved action now c)"

definition answered_question :: "string \<Rightarrow> time \<Rightarrow> evidence_row \<Rightarrow> evidence_row" where
  "answered_question action now e = (if action = ''snooze'' then e
     else e\<lparr>ev_state := outcome_state (the (map_of ANSWERS action)), ev_settled_at := Some now\<rparr>)"

lemma answer_transition:
  assumes "system_inv d" and "task_of (cd_task_id c) d = Some t" and "card_is_current c d"
    and "action \<in> {''done'', ''keep_open'', ''drop'', ''snooze''}"
  obtains tr d1 where
    "(if action \<in> {''done'', ''drop''}
      then apply_task_transition (cd_task_id c) (cd_task_version c) action now d
      else (\<lparr>tr_disposition = TrApplied, tr_task_id = cd_task_id c,
             tr_version = Some (cd_task_version c), tr_status = Some TaskOpen, tr_refusal = None\<rparr>, d)) = (tr, d1)"
    "tr_accepted tr" "task_of (cd_task_id c) d1 = Some (answered_task action now t)"
proof (cases "action = ''done'' \<or> action = ''drop''")
  case False
  then show thesis
    by (intro that [of "\<lparr>tr_disposition = TrApplied, tr_task_id = cd_task_id c,
        tr_version = Some (cd_task_version c), tr_status = Some TaskOpen, tr_refusal = None\<rparr>" d])
      (use assms(2) in \<open>simp_all add: tr_accepted_def answered_task_def\<close>)
next
  case True
  let ?target = "if action = ''done'' then TaskDone else TaskDropped"
  have t: "tk_status t = TaskOpen" "tk_version t = cd_task_version c"
    using assms(2,3) by (simp_all add: card_is_current_def)
  have "targets action = Some ([TaskOpen], ?target)" using True by (auto simp: targets_def)
  from apply_transition_Some [OF _ assms(2) this t(2)] t(1)
  have tr: "apply_task_transition (cd_task_id c) (cd_task_version c) action now d =
    (\<lparr>tr_disposition = TrApplied, tr_task_id = cd_task_id c, tr_version = Some (cd_task_version c + 1),
      tr_status = Some ?target, tr_refusal = None\<rparr>, transition_effect (cd_task_id c) t ?target now d)"
    using assms(1) by (simp add: system_inv_def ledger_inv_def)
  show thesis
    using True tr task_of_transition_effect [OF assms(2), of "cd_task_id c" ?target now]
    by (intro that [of "\<lparr>tr_disposition = TrApplied, tr_task_id = cd_task_id c,
        tr_version = Some (cd_task_version c + 1), tr_status = Some ?target, tr_refusal = None\<rparr>"
        "transition_effect (cd_task_id c) t ?target now d"])
      (auto simp: tr_accepted_def answered_task_def)
qed

lemma settle_carried:
  assumes "system_inv d" and "1 \<le> k" and "List.find (carried_by k) (evidence d) = Some e"
    and "evidence d1 = evidence d"
  shows "\<exists>n d2. settle_for_card k out now d1 = Inr (n, d2)
    \<and> row_of ev_id (ev_id e) (evidence d2)
      = Some (e\<lparr>ev_state := outcome_state out, ev_settled_at := Some now\<rparr>)"
proof -
  have inv: "unique_key ev_id (evidence d)" "\<And>x. x \<in> set (evidence d) \<Longrightarrow> 1 \<le> ev_id x"
    using assms(1) by (simp_all add: system_inv_def evidence_inv_def list_all_iff)
  have e: "e \<in> set (evidence d)" "settleable (ev_id e) e"
    using find_SomeD [OF assms(3)] by (simp_all add: carried_by_def settleable_def)
  have "row_of ev_id (ev_id e) (evidence d) = Some e" using row_of_unique [OF inv(1)] e(1) by simp
  then show ?thesis
    using settle_for_card_effect [OF assms(2), of d1 out now] inv(2) assms(3,4) e(2)
    by (simp add: find_update_where)
qed

lemma settle_uncarried:
  assumes "system_inv d" and "1 \<le> k" and "List.find (carried_by k) (evidence d) = None"
    and "evidence d1 = evidence d"
  shows "settle_for_card k out now d1 = Inr (0, d1)"
  using settle_for_card_effect [OF assms(2), of d1 out now] assms
  by (simp add: system_inv_def evidence_inv_def list_all_iff)

lemma answer_settles:
  assumes inv: "system_inv d" and k: "1 \<le> k" and ev: "evidence d1 = evidence d"
  obtains n d2 where "(if action = ''snooze'' then Inr (0, d1)
      else settle_for_card k (the (map_of ANSWERS action)) now d1) = Inr (n, d2)"
    and "\<And>e. List.find (carried_by k) (evidence d) = Some e \<Longrightarrow>
      row_of ev_id (ev_id e) (evidence d2) = Some (answered_question action now e)"
proof (cases "action = ''snooze''")
  case True
  have "row_of ev_id (ev_id e) (evidence d) = Some e" if "List.find (carried_by k) (evidence d) = Some e" for e
    using row_of_unique [of ev_id "evidence d" "ev_id e" e] find_SomeD [OF that] inv
    by (simp add: system_inv_def evidence_inv_def)
  then show thesis using True ev by (intro that [of 0 d1]) (simp_all add: answered_question_def)
next
  case False
  show thesis
  proof (cases "List.find (carried_by k) (evidence d)")
    case None
    then show thesis
      using False settle_uncarried [OF inv k None ev] by (intro that [of 0 d1]) simp_all
  next
    case (Some e)
    then show thesis
      using settle_carried [OF inv k Some ev, of "the (map_of ANSWERS action)" now] False that
      by (auto simp: answered_question_def)
  qed
qed

text \<open>C5: An answer to a delivered, current card succeeds and is atomic: in one step the task makes the
  transition the answer names (or stays as it is), the card is resolved or put to sleep at its next
  version, and the question it carried is settled with the outcome the answer stands for.\<close>

theorem answers_are_atomic:
  assumes "system_inv d" and "joined_card k d = Some (c, t)" and "cd_status c = CardDelivered"
    and "card_is_current c d" and "action \<in> {''done'', ''keep_open'', ''drop'', ''snooze''}"
  shows "\<exists>r d'. act k (cd_version c) action now d = Inr (r, d') \<and> co_disposition r = CardApplied
    \<and> task_of (cd_task_id c) d' = Some (answered_task action now t)
    \<and> card_of k d' = Some (answered_card action now c)
    \<and> (\<forall>e. List.find (carried_by k) (evidence d) = Some e \<longrightarrow>
         row_of ev_id (ev_id e) (evidence d') = Some (answered_question action now e))"
proof -
  note mem = joined_card_mem [OF assms(2)]
  have task: "task_of (cd_task_id c) d = Some t"
    using assms(2) mem by (auto simp: joined_card_def split: option.splits)
  have ok: "1 \<le> k" "1 \<le> cd_version c"
    using assms(1) mem by (auto simp: system_inv_def cards_inv_def list_all_iff card_ok_def)
  obtain tr d1 where tr: "(if action \<in> {''done'', ''drop''}
      then apply_task_transition (cd_task_id c) (cd_task_version c) action now d
      else (\<lparr>tr_disposition = TrApplied, tr_task_id = cd_task_id c,
             tr_version = Some (cd_task_version c), tr_status = Some TaskOpen, tr_refusal = None\<rparr>, d)) = (tr, d1)"
    "tr_accepted tr" "task_of (cd_task_id c) d1 = Some (answered_task action now t)"
    by (rule answer_transition [OF assms(1) task assms(4,5)])
  have frame: "cards d1 = cards d" "evidence d1 = evidence d"
    using tr(1) transition_frame [of "cd_task_id c" "cd_task_version c" action now d]
    by (auto split: if_splits)
  let ?d2 = "update_card c (answered_card action now) d1"
  have ev: "evidence ?d2 = evidence d" using frame(2) by (simp add: update_card_def)
  obtain n d3 where d3: "(if action = ''snooze'' then Inr (0, ?d2)
      else settle_for_card k (the (map_of ANSWERS action)) now ?d2) = Inr (n, d3)"
    and q: "\<And>e. List.find (carried_by k) (evidence d) = Some e \<Longrightarrow>
      row_of ev_id (ev_id e) (evidence d3) = Some (answered_question action now e)"
    using answer_settles [OF assms(1) ok(1) ev, of action now] by blast
  have rest: "tasks d3 = tasks d1 \<and> cards d3 = cards ?d2"
    using d3 settle_for_card_evidence [of k "the (map_of ANSWERS action)" now ?d2 n d3]
    by (auto simp: update_card_def split: if_splits)
  have valid: "valid_identity k (cd_version c)" "action \<in> set TASK_CARD_ACTIONS"
    using ok assms(5) by (auto simp: valid_identity_def TASK_CARD_ACTIONS_def)
  have plain: "action \<notin> {''duplicate_confirm'', ''duplicate_reject''} \<and> action \<noteq> ''show_full_cards''"
    using assms(5) by auto
  have k: "cd_id c = k" using mem by simp
  have "\<exists>e r. act k (cd_version c) action now d = Inr (r, add_card_event e d3) \<and> co_disposition r = CardApplied"
  proof -
    have f: "answered_card ''snooze'' now = snoozed now"
      "\<And>a. a \<noteq> ''snooze'' \<Longrightarrow> answered_card a now = resolved a now"
      by (simp_all add: fun_eq_iff answered_card_def)
    show ?thesis
      using valid plain assms(2-4) tr(1,2) d3
      by (cases "action = ''snooze''"; cases "action = ''keep_open''") (auto simp: act_def answer_card_def k f Let_def)
  qed
  moreover have "card_of k d3 = Some (answered_card action now c)"
    using card_after_update [OF assms(1) conjunct1 [OF mem], of "answered_card action now" d3] k rest frame
    by (auto simp: answered_card_def snoozed_def resolved_def unclaim_def unpresent_def update_card_def)
  moreover have "task_of (cd_task_id c) d3 = Some (answered_task action now t)" using tr(3) rest by simp
  ultimately show ?thesis using q unfolding add_card_event_def by fastforce
qed

definition fenced_reqs :: "service_req list" where
  "fenced_reqs = [ReqRetry 1 2 20, ReqClaim 60 (replicate 64 CHR ''b'') ''drip'' (replicate 32 CHR ''t'') 22,
     ReqFail 1 4 (replicate 32 CHR ''t'') 23]"

lemma fenced_reqs_applied: "fst (run_ops (service_call sample_sha) fenced_reqs sample_system) = [True, False, True]"
  by code_simp

theorem requests_are_fenced_witness:
  "req_version (fenced_reqs ! 0) < req_version (fenced_reqs ! 2)"
  by (rule requests_are_fenced [OF sample_system_ok, of 0 2 fenced_reqs sample_sha])
    (simp_all add: fenced_reqs_applied, simp_all add: fenced_reqs_def)

theorem answers_are_atomic_witness:
  "\<exists>r d'. act 1 2 ''done'' 20 sample_system = Inr (r, d') \<and> co_disposition r = CardApplied
    \<and> map_option tk_status (task_of 1 d') = Some TaskDone
    \<and> map_option cd_status (card_of 1 d') = Some CardResolved"
proof -
  let ?c = "sample_card 1 1 CardDelivered 2"
  have "card_of 1 sample_system = Some ?c" "task_of 1 sample_system = Some (sample_task 1 TaskOpen 1)"
    by (simp_all add: sample_system_def sample_ledger_def sample_card_def sample_task_def new_card_def)
  then have "joined_card 1 sample_system = Some (?c, sample_task 1 TaskOpen 1)"
    by (simp add: joined_card_def sample_card_def new_card_def)
  moreover have "card_is_current ?c sample_system" by code_simp
  moreover have "cd_status ?c = CardDelivered" "cd_version ?c = 2" "cd_task_id ?c = 1"
    by (simp_all add: sample_card_def new_card_def)
  ultimately obtain r d' where "act 1 2 ''done'' 20 sample_system = Inr (r, d')"
    "co_disposition r = CardApplied"
    "task_of 1 d' = Some (answered_task ''done'' 20 (sample_task 1 TaskOpen 1))"
    "card_of 1 d' = Some (answered_card ''done'' 20 ?c)"
    using answers_are_atomic [OF sample_system_ok, of 1 ?c "sample_task 1 TaskOpen 1" "''done''" 20] by auto
  then show ?thesis by (simp add: answered_task_def answered_card_def resolved_def)
qed

end
