(* ===== verification/CardPasses.thy ===== *)
theory CardPasses
  imports CardTheorems
begin

text \<open>
  What the scheduling passes achieve, and the situations in which the card service does not do what
  its comments say: cards that are raised only to be cancelled, a pair that cannot be expanded, a
  confirmation that cannot be taken back, and a reopening the log does not know of.
\<close>

section \<open>After the stale cards are gone\<close>

lemma same_card:
  assumes "unique_key cd_id (cards d)" and "x \<in> set (cards d)" and "y \<in> set (cards d)" and "cd_id x = cd_id y"
  shows "x = y"
  using row_of_unique [OF assms(1), of "cd_id y" x] row_of_unique [OF assms(1), of "cd_id y" y] assms(2-4)
  by simp

text \<open>What decides whether a card is stale, besides the card.\<close>

definition same_world :: "db \<Rightarrow> db \<Rightarrow> bool" where
  "same_world d d' \<longleftrightarrow> tasks d' = tasks d \<and> workflows d' = workflows d \<and> bindings d' = bindings d
     \<and> lifecycles d' = lifecycles d \<and> relations d' = relations d"

lemma same_world_trans: "same_world a b \<Longrightarrow> same_world b c \<Longrightarrow> same_world a c"
  by (simp add: same_world_def)

lemma stale_cong:
  assumes "same_world d d'" and "carries_proposal (cd_id x) d' = carries_proposal (cd_id x) d"
  shows "stale d' x = stale d x"
  using assms
  by (simp add: same_world_def stale_def card_execution_holds_def duplicate_execution_holds_def
      execution_holds_def same_revision_def accepted_revision_def live_duplicate_def
      preserved_open_withdrawal_def split: option.splits)

lemma release_carries:
  assumes "dup_release_for_card k now d = Inr (n, d')" and "j \<noteq> k"
  shows "carries_proposal j d' = carries_proposal j d"
proof -
  have "\<not> k < 1" using assms(1) by (auto simp: dup_release_for_card_def dup_identifier_def)
  then have d': "proposals d' = update_where (\<lambda>p. dp_card_id p = Some k \<and> dp_state p = DupProposed)
      (\<lambda>p. p\<lparr>dp_card_id := None, dp_updated_at := now\<rparr>) (proposals d)"
    using assms(1) by (auto simp: dup_release_for_card_def dup_identifier_def Let_def)
  have "list_ex (\<lambda>p. dp_card_id p = Some j \<and> dp_state p = DupProposed)
      (update_where (\<lambda>p. dp_card_id p = Some k \<and> dp_state p = DupProposed)
        (\<lambda>p. p\<lparr>dp_card_id := None, dp_updated_at := now\<rparr>) ps)
    = list_ex (\<lambda>p. dp_card_id p = Some j \<and> dp_state p = DupProposed) ps" for ps
    using assms(2) by (induction ps) (auto simp: update_where_def)
  then show ?thesis by (simp add: carries_proposal_def d')
qed

lemma cancel_card_world:
  assumes "cancel_card now c d = Inr d'"
  shows "same_world d d'" and "j \<noteq> cd_id c \<Longrightarrow> carries_proposal j d' = carries_proposal j d"
proof -
  obtain n m d1 where 1: "release_evidence (cd_id c) (card_cancelled now c d) = Inr (n, d1)"
    and 2: "dup_release_for_card (cd_id c) now d1 = Inr (m, d')"
    using cancel_card_effect [OF assms] by blast
  have "\<not> cd_id c < 1" using 1 by (auto simp: release_evidence_def comp_identifier_def)
  then show "same_world d d'"
    using 1 2
    by (auto simp: same_world_def release_evidence_def comp_identifier_def dup_release_for_card_def
        dup_identifier_def Let_def card_cancelled_def add_card_event_def update_card_def)
  have "proposals d1 = proposals d"
    using release_frame(1) [OF 1] by (simp add: card_cancelled_def add_card_event_def update_card_def)
  then show "j \<noteq> cd_id c \<Longrightarrow> carries_proposal j d' = carries_proposal j d"
    using release_carries [OF 2, of j] by (simp add: carries_proposal_def)
qed

lemma cancel_each_world:
  assumes "each (cancel_card now) rows d = Inr d'" and "unique_key cd_id (cards d)"
    and "distinct (map cd_id rows)" and "set rows \<subseteq> set (cards d)"
  shows "same_world d d'
    \<and> (\<forall>j. j \<notin> cd_id ` set rows \<longrightarrow> carries_proposal j d' = carries_proposal j d)
    \<and> (\<forall>x \<in> set (cards d'). cd_status x = CardCancelled \<or> (x \<in> set (cards d) \<and> cd_id x \<notin> cd_id ` set rows))"
  using assms
proof (induction rows arbitrary: d)
  case Nil
  then show ?case by (simp add: same_world_def)
next
  case (Cons c rows)
  obtain d1 where d1: "cancel_card now c d = Inr d1" and rest: "each (cancel_card now) rows d1 = Inr d'"
    using Cons.prems(1) by (auto simp: rbind_Inr_iff)
  have cs: "cards d1 = update_where (\<lambda>x. cd_id x = cd_id c \<and> cd_version x = cd_version c) (cancelled now) (cards d)"
    using cards_cancel_card [OF d1] by simp
  have fresh: "cd_id c \<notin> cd_id ` set rows" using Cons.prems(3) by simp
  have "set rows \<subseteq> set (cards d1)"
  proof
    fix x assume x: "x \<in> set rows"
    then have "cd_id x \<noteq> cd_id c" using fresh by (metis imageI)
    then show "x \<in> set (cards d1)" using cancel_other [OF d1] Cons.prems(4) x by auto
  qed
  moreover have "unique_key cd_id (cards d1)"
    using Cons.prems(2) by (simp add: cs unique_key_update cancelled_def unclaim_def)
  ultimately have ih: "same_world d1 d'"
    "\<And>j. j \<notin> cd_id ` set rows \<Longrightarrow> carries_proposal j d' = carries_proposal j d1"
    "\<And>x. x \<in> set (cards d') \<Longrightarrow> cd_status x = CardCancelled \<or> (x \<in> set (cards d1) \<and> cd_id x \<notin> cd_id ` set rows)"
    using Cons.IH [OF rest] Cons.prems(3) by auto
  have step: "cd_status x = CardCancelled \<or> (x \<in> set (cards d) \<and> cd_id x \<noteq> cd_id c)"
    if "x \<in> set (cards d1)" for x
  proof -
    obtain y where y: "y \<in> set (cards d)"
      "x = (if cd_id y = cd_id c \<and> cd_version y = cd_version c then cancelled now y else y)"
      using \<open>x \<in> set (cards d1)\<close> unfolding cs update_where_def by auto
    have "y = c" if "cd_id y = cd_id c"
      by (rule same_card [OF Cons.prems(2) y(1)]) (use Cons.prems(4) that in simp_all)
    then show ?thesis using y by (auto simp: cancelled_def)
  qed
  show ?case
    using same_world_trans [OF cancel_card_world(1) [OF d1] ih(1)] ih(2,3) step cancel_card_world(2) [OF d1]
    by auto
qed

lemma cancel_card_total: "1 \<le> cd_id c \<Longrightarrow> \<exists>d'. cancel_card now c d = Inr d'"
  by (simp add: cancel_card_def release_evidence_def comp_identifier_def dup_release_for_card_def
      dup_identifier_def Let_def)

lemma each_total:
  "(\<And>r d. r \<in> set rows \<Longrightarrow> \<exists>d'. f r d = Inr d') \<Longrightarrow> \<exists>d'. each f rows d = Inr d'"
proof (induction rows arbitrary: d)
  case (Cons r rows)
  obtain d1 where d1: "f r d = Inr d1" using Cons.prems [of r d] by auto
  obtain d2 where "each f rows d1 = Inr d2" using Cons.IH [of d1] Cons.prems by auto
  then show ?case using d1 by simp
qed simp

text \<open>C31: The pass that removes stale cards always returns, and removes them all.  It reports how many
  it cancelled, and afterwards no active card describes a task that has closed, moved on, is held by
  execution, has become somebody else's duplicate or lost its source.\<close>

theorem no_stale_card_remains:
  assumes "system_inv d"
  shows "\<exists>d'. cancel_stale now d = Inr (rowcount (stale d) (cards d), d') \<and> rowcount (stale d') (cards d') = 0"
proof -
  let ?rows = "sort_key cd_id (filter (stale d) (cards d))"
  have "1 \<le> cd_id c" if "c \<in> set ?rows" for c
    using that assms by (auto simp: system_inv_def cards_inv_def list_all_iff card_ok_def)
  then obtain d' where e: "each (cancel_card now) ?rows d = Inr d'"
    using each_total [of ?rows "cancel_card now" d] cancel_card_total by blast
  have "\<not> stale d' c" if "c \<in> set (cards d')" for c
  proof -
    have "distinct (map cd_id ?rows)"
      using assms(1) by (intro distinct_sorted_rows distinct_rows) (simp add: system_inv_def)
    from cancel_each_world [OF e unique_card [OF assms(1)] this]
    have w: "same_world d d'"
      "\<And>j. j \<notin> cd_id ` set ?rows \<Longrightarrow> carries_proposal j d' = carries_proposal j d"
      "\<And>x. x \<in> set (cards d') \<Longrightarrow> cd_status x = CardCancelled \<or> (x \<in> set (cards d) \<and> cd_id x \<notin> cd_id ` set ?rows)"
      by auto
    from w(3) [OF that] show ?thesis
    proof
      assume "cd_status c = CardCancelled"
      then show ?thesis by (simp add: stale_def)
    next
      assume c: "c \<in> set (cards d) \<and> cd_id c \<notin> cd_id ` set ?rows"
      then have "\<not> stale d c" by auto
      then show ?thesis using stale_cong [OF w(1)] w(2) c by blast
    qed
  qed
  then have "rowcount (stale d') (cards d') = 0" by (auto simp: rowcount_def filter_empty_conv)
  then show ?thesis using e by (auto simp: cancel_stale_def Let_def rowcount_def)
qed

theorem no_stale_card_remains_witness:
  "\<exists>d'. cancel_stale 30 sample_system = Inr (rowcount (stale sample_system) (cards sample_system), d')
    \<and> rowcount (stale d') (cards d') = 0"
  by (rule no_stale_card_remains [OF sample_system_ok])

section \<open>A pair that cannot be expanded\<close>

lemma cancelled_spares: "x \<in> set (cards d) \<Longrightarrow> cd_id x \<noteq> cd_id c \<Longrightarrow> x \<in> set (cards (card_cancelled now c d))"
  by (force simp: card_cancelled_def add_card_event_def update_card_def update_where_def)

text \<open>C39: Expanding a comparison whose other task already has an active card never succeeds.  Both full
  cards are inserted under the index that allows one active card per task, so the request raises an
  integrity error instead of being refused.\<close>

theorem expansion_collides_with_active_card:
  assumes "system_inv d" and "joined_card k d = Some (c, t)" and "cd_status c = CardDelivered"
    and "card_is_current c d" and "carried_proposal k d = Some p"
    and "x \<in> set (cards d)" and "active_on (other_task p (cd_task_id c)) x"
    and "other_task p (cd_task_id c) \<noteq> cd_task_id c"
    and "task_of (other_task p (cd_task_id c)) d = Some tb"
  shows "\<exists>msg. show_full_cards k (cd_version c) now d = Inl (IntegrityError msg)"
proof -
  note mem = joined_card_mem [OF assms(2)]
  have ta: "task_of (cd_task_id c) d = Some t"
    using assms(2) mem by (auto simp: joined_card_def split: option.splits)
  have k: "1 \<le> k" "1 \<le> cd_version c"
    using assms(1) mem by (auto simp: system_inv_def cards_inv_def list_all_iff card_ok_def)
  obtain v q where v: "card_view_of k d = Some v" "vw_card v = c" "vw_duplicate v = Some (p, q)"
    using assms(2,5) mem by (auto simp: card_view_of_def)
  let ?d1 = "card_cancelled now c d"
  have x: "x \<in> set (cards ?d1)"
  proof (rule cancelled_spares [OF assms(6)])
    show "cd_id x \<noteq> cd_id c"
      using same_card [OF unique_card [OF assms(1)] assms(6) conjunct1 [OF mem]] assms(7,8)
      by (auto simp: active_on_def)
  qed
  have tb: "tk_id tb = other_task p (cd_task_id c)" using assms(9) by (rule row_of_key)
  have collide: "\<exists>msg. deliver_full c tb now d2 = Inl (IntegrityError msg)" if "x \<in> set (cards d2)" for d2
    using that assms(7) tb
    by (auto simp: deliver_full_def insert_card_def full_card_def new_card_def list_ex_iff Let_def)
  have fails: "\<exists>msg. rbind (deliver_full c t now ?d1) (\<lambda>(ka, d2).
      rbind (deliver_full c tb now d2) (f ka)) = Inl (IntegrityError msg)" for f :: "rowid \<Rightarrow> rowid \<times> db \<Rightarrow> exc + (full_cards_result \<times> db)"
  proof (cases "deliver_full c t now ?d1")
    case (Inl e)
    then show ?thesis
      by (auto simp: deliver_full_def insert_card_def Let_def split: if_splits)
  next
    case (Inr y)
    obtain ka d2 where y: "y = (ka, d2)" by (cases y)
    have "x \<in> set (cards d2)"
      using Inr x by (auto simp: y deliver_full_def insert_card_def add_card_event_def Let_def split: if_splits)
    then show ?thesis using collide [of d2] Inr y by auto
  qed
  show ?thesis
    using fails [of "\<lambda>ka (kb, d3). Inr (\<lparr>fr_disposition = CardApplied, fr_card_id = k,
        fr_card_version = Some (cd_version c + 1), fr_cards = [ka, kb], fr_refusal = None\<rparr>, d3)"]
      k v assms(3,4,9) ta
    by (simp add: show_full_cards_def valid_identity_def Let_def card_cancelled_def)
qed

definition sample_pair :: db where
  "sample_pair = sample_system\<lparr>
     evidence := [], proposals := [sample_proposal 1 1 2 DupProposed (Some 1)]\<rparr>"

lemma sample_pair_ok: "system_inv sample_pair"
  unfolding system_inv_def
proof (intro conjI)
  show "ledger_inv sample_pair" by code_simp
  show "evidence_inv sample_pair" by code_simp
  show "dup_inv sample_pair" by code_simp
  show "cards_inv sample_pair" by code_simp
  show "relations_inv sample_pair"
    using sample_relations_inv relations_frame [of sample_pair sample_system] by (simp add: sample_pair_def)
qed

theorem expansion_collides_with_active_card_witness:
  "\<exists>msg. show_full_cards 1 2 30 sample_pair = Inl (IntegrityError msg)"
proof -
  let ?c = "sample_card 1 1 CardDelivered 2" and ?p = "sample_proposal 1 1 2 DupProposed (Some 1)"
  have c: "cd_version ?c = 2" "cd_status ?c = CardDelivered" "cd_task_id ?c = 1"
    by (simp_all add: sample_card_def new_card_def)
  have "joined_card 1 sample_pair = Some (?c, sample_task 1 TaskOpen 1)" by code_simp
  moreover have "card_is_current ?c sample_pair" by code_simp
  moreover have "carried_proposal 1 sample_pair = Some ?p" by code_simp
  moreover have "sample_card 2 2 CardPending 1 \<in> set (cards sample_pair)"
    by (simp add: sample_pair_def sample_system_def)
  moreover have "active_on 2 (sample_card 2 2 CardPending 1)" by code_simp
  moreover have "task_of 2 sample_pair = Some (sample_task 2 TaskOpen 1)" by code_simp
  moreover have "other_task ?p 1 = 2" by code_simp
  ultimately show ?thesis
    using expansion_collides_with_active_card [OF sample_pair_ok, of 1 ?c "sample_task 1 TaskOpen 1" ?p
        "sample_card 2 2 CardPending 1" "sample_task 2 TaskOpen 1" 30] c
    by simp
qed

section \<open>Confirmations and their reversal\<close>

text \<open>A confirmation that kept the closed right task cannot be taken back.  With the left task open
  and the right one closed the relation is recorded with the left task as its subject, but the
  reversal looks for a proposal whose right task is the subject; pairs are stored smaller id first,
  so it finds none and reports \<open>False\<close> without changing anything.\<close>

lemma open_left_confirmation_is_final:
  assumes "system_inv d" and "rel_get k d = Inr rel"
    and "tk_status l = TaskOpen" and "tk_status r \<noteq> TaskOpen" and "tk_id l < tk_id r"
    and "(rl_subject_id rel, rl_object_id rel) = duplicate_ends p l r"
  shows "reverse_duplicate k now d = Inr (False, d)"
proof -
  have "rl_subject_id rel < rl_object_id rel"
    using assms(3-6) by (simp add: duplicate_ends_def)
  moreover have "dp_left_task_id q < dp_right_task_id q" if "q \<in> set (proposals d)" for q
    using assms(1) that by (auto simp: system_inv_def dup_inv_def list_all_iff proposal_check_def)
  ultimately have "confirmed_pair (rl_object_id rel) (rl_subject_id rel) d = None"
    unfolding confirmed_pair_def find_None_iff by fastforce
  then show ?thesis using assms(2) by (simp add: reverse_duplicate_def)
qed

definition sample_mixed :: db where
  "sample_mixed = sample_system\<lparr>
     evidence := [], proposals := [(sample_proposal 1 1 3 DupProposed (Some 1))\<lparr>dp_right_task_version := 2\<rparr>]\<rparr>"

lemma sample_mixed_ok: "system_inv sample_mixed"
  unfolding system_inv_def
proof (intro conjI)
  show "ledger_inv sample_mixed" by code_simp
  show "evidence_inv sample_mixed" by code_simp
  show "dup_inv sample_mixed" by code_simp
  show "cards_inv sample_mixed" by code_simp
  show "relations_inv sample_mixed"
    using sample_relations_inv relations_frame [of sample_mixed sample_system] by (simp add: sample_mixed_def)
qed

lemma sample_mixed_confirmed:
  "case act 1 2 ''duplicate_confirm'' 40 sample_mixed of
     Inl _ \<Rightarrow> False
   | Inr (r, d) \<Rightarrow> (case rel_get 1 d of Inl _ \<Rightarrow> False | Inr rel \<Rightarrow> rl_subject_id rel = 1 \<and> rl_object_id rel = 3)"
  by code_simp

theorem open_left_confirmation_is_final_witness:
  "\<exists>r d. act 1 2 ''duplicate_confirm'' 40 sample_mixed = Inr (r, d) \<and> reverse_duplicate 1 60 d = Inr (False, d)"
proof -
  obtain r d where act: "act 1 2 ''duplicate_confirm'' 40 sample_mixed = Inr (r, d)"
    using sample_mixed_confirmed by (auto split: sum.splits)
  obtain rel where rel: "rel_get 1 d = Inr rel" "rl_subject_id rel = 1" "rl_object_id rel = 3"
    using sample_mixed_confirmed act by (auto split: sum.splits)
  have "system_inv d" using keepsD(1) [OF keeps_act [OF act] sample_mixed_ok] .
  from open_left_confirmation_is_final [OF this rel(1), of "sample_task 1 TaskOpen 1" "sample_task 3 TaskDropped 2"
      "sample_proposal 1 1 3 DupProposed (Some 1)" 60] rel(2,3)
  have "reverse_duplicate 1 60 d = Inr (False, d)"
    by (simp add: duplicate_ends_def sample_task_def)
  then show ?thesis using act by blast
qed

lemma reverse_effect:
  assumes "reverse_duplicate k now d = Inr (True, d')" and "rel_get k d = Inr rel"
  obtains p where "confirmed_pair (rl_object_id rel) (rl_subject_id rel) d = Some p"
    "tasks d' = tasks (reopen_task (rl_subject_id rel) now d)"
    "task_events d' = task_events d" "work_items d' = work_items d"
    "row_of dp_id (dp_id p) (proposals d') = map_option (\<lambda>q. if dp_id q = dp_id p \<and> dp_state q = DupConfirmed
       then q\<lparr>dp_state := DupProposed, dp_card_id := None, dp_updated_at := now, dp_settled_at := None\<rparr> else q)
       (row_of dp_id (dp_id p) (proposals d))"
proof -
  let ?i = "rl_subject_id rel"
  obtain p where p: "confirmed_pair (rl_object_id rel) ?i d = Some p"
    using assms by (auto simp: reverse_duplicate_def split: if_splits option.splits)
  obtain x d1 where 1: "withdraw k ''reader'' now d = Inr (x, d1)"
    using assms p by (cases "withdraw k ''reader'' now d") (auto simp: reverse_duplicate_def split: if_splits)
  have "rbind (dup_reopen_confirmed (dp_id p) ''reader'' now (reopen_task ?i now d1))
      (\<lambda>(reopened, d3). if \<not> reopened then Inr (False, d)
        else Inr (True, refresh_after_withdrawal (rl_object_id rel) now d3)) = Inr (True, d')"
    using assms p 1 by (auto simp: reverse_duplicate_def Let_def split: if_splits)
  then obtain d3 where
    3: "dup_reopen_confirmed (dp_id p) ''reader'' now (reopen_task ?i now d1) = Inr (True, d3)"
    and d': "d' = refresh_after_withdrawal (rl_object_id rel) now d3"
    by (cases "dup_reopen_confirmed (dp_id p) ''reader'' now (reopen_task ?i now d1)") (auto split: if_splits)
  have w: "\<exists>rs. d1 = d\<lparr>relations := rs\<rparr>"
    by (rule withdraw_cases [of k "''reader''" now d]) (use 1 in auto)
  obtain e where d3: "d3 = (let d2 = reopen_task ?i now d1 in d2\<lparr>proposals := update_where
      (\<lambda>q. dp_id q = dp_id p \<and> dp_state q = DupConfirmed)
      (\<lambda>q. q\<lparr>dp_state := DupProposed, dp_card_id := None, dp_updated_at := now, dp_settled_at := None\<rparr>)
      (proposals d2), proposal_events := proposal_events d2 @ [e]\<rparr>)"
    using 3 by (auto simp: dup_reopen_confirmed_def dup_identifier_def rbind_Inr_iff dup_write_def Let_def
        split: if_splits)
  have titles: "\<exists>js. d' = d3\<lparr>title_jobs := js\<rparr>"
    unfolding d' refresh_after_withdrawal_def title_enqueue_def title_clear_def by auto
  show thesis
    by (rule that [OF p]) (use w d3 titles in \<open>auto simp: Let_def reopen_task_def find_update_where\<close>)
qed

text \<open>Taking a confirmation back leaves the log behind.  The reopened task is open again at a new
  version, but no status event is recorded and its work item stays closed, so work items, log and
  tasks no longer agree.\<close>

lemma reversal_leaves_the_log_behind:
  assumes "ledger_consistent d" and "rel_get k d = Inr rel"
    and "task_of (rl_subject_id rel) d = Some t" and "tk_status t = TaskDropped"
    and "reverse_duplicate k now d = Inr (True, d')"
  shows "map_option tk_status (task_of (rl_subject_id rel) d') = Some TaskOpen
    \<and> task_events d' = task_events d \<and> work_items d' = work_items d \<and> \<not> ledger_consistent d'"
proof -
  let ?i = "rl_subject_id rel"
  obtain p where e: "tasks d' = tasks (reopen_task ?i now d)"
    "task_events d' = task_events d" "work_items d' = work_items d"
    by (rule reverse_effect [OF assms(5,2)])
  let ?t = "t\<lparr>tk_status := TaskOpen, tk_version := tk_version t + 1, tk_updated_at := now, tk_closed_at := None\<rparr>"
  have id: "tk_id t = ?i" using assms(3) by (rule row_of_key)
  have row: "task_of ?i d' = Some ?t"
    using assms(3,4) id by (simp add: e reopen_task_def find_update_where)
  have mem: "t \<in> set (tasks d)" "?t \<in> set (tasks d')"
    using task_of_mem [OF assms(3)] task_of_mem [OF row] by simp_all
  have "logged_status ?i d = Some TaskDropped"
    using assms(1,4) mem(1) id by (auto simp: ledger_consistent_def log_agrees_def list_all_iff)
  then have "logged_status ?i d' \<noteq> Some (tk_status ?t)" by (simp add: logged_status_def e(2))
  then have "\<not> log_agrees d'" using mem(2) id unfolding log_agrees_def list_all_iff by force
  then show ?thesis using row e(2,3) by (simp add: ledger_consistent_def)
qed

text \<open>A reversed pair is not offered again.  The reversal puts the proposal back in the queue, but
  the reopened task has a newer version than the one the proposal compared, so the asking pass can
  never select it; the next duplicate pass expires it instead.\<close>

lemma reversed_pair_is_not_offered_again:
  assumes "system_inv d" and "rel_get k d = Inr rel"
    and "confirmed_pair (rl_object_id rel) (rl_subject_id rel) d = Some p"
    and "task_of (rl_subject_id rel) d = Some t" and "tk_status t = TaskDropped"
    and "dp_right_task_version p \<le> tk_version t"
    and "reverse_duplicate k now d = Inr (True, d')"
  shows "\<exists>q. row_of dp_id (dp_id p) (proposals d') = Some q \<and> dp_state q = DupProposed
    \<and> \<not> askable_pair q d' \<and> unaskable d' q"
proof -
  let ?i = "rl_subject_id rel"
  let ?q = "p\<lparr>dp_state := DupProposed, dp_card_id := None, dp_updated_at := now, dp_settled_at := None\<rparr>"
  obtain p' where e: "confirmed_pair (rl_object_id rel) ?i d = Some p'"
    "tasks d' = tasks (reopen_task ?i now d)"
    "row_of dp_id (dp_id p') (proposals d') = map_option (\<lambda>q. if dp_id q = dp_id p' \<and> dp_state q = DupConfirmed
       then q\<lparr>dp_state := DupProposed, dp_card_id := None, dp_updated_at := now, dp_settled_at := None\<rparr> else q)
       (row_of dp_id (dp_id p') (proposals d))"
    by (rule reverse_effect [OF assms(7,2)])
  have p: "p \<in> set (proposals d)" "dp_right_task_id p = ?i" "dp_state p = DupConfirmed"
    using find_SomeD [OF assms(3) [unfolded confirmed_pair_def]] by simp_all
  have "unique_key dp_id (proposals d)" using assms(1) by (simp add: system_inv_def dup_inv_def)
  then have "row_of dp_id (dp_id p) (proposals d) = Some p" using p(1) by (simp add: row_of_unique)
  then have q: "row_of dp_id (dp_id p) (proposals d') = Some ?q" using e(1,3) assms(3) p(3) by simp
  have "task_of ?i d' = Some (t\<lparr>tk_status := TaskOpen, tk_version := tk_version t + 1,
      tk_updated_at := now, tk_closed_at := None\<rparr>)"
    using assms(4,5) row_of_key [OF assms(4)] by (simp add: e(2) reopen_task_def find_update_where)
  then have "task_moved (dp_right_task_id ?q) (dp_right_task_version ?q) d'" and "\<not> askable_pair ?q d'"
    using assms(6) p(2) by (auto simp: task_moved_def askable_pair_def pair_rows_def split: option.splits)
  then show ?thesis using q by (auto simp: unaskable_def)
qed

definition sample_confirmed :: "exc + (card_result \<times> db)" where
  "sample_confirmed = act 1 2 ''duplicate_confirm'' 40 sample_pair"

lemma sample_reversal:
  "case sample_confirmed of Inl _ \<Rightarrow> False | Inr (r, d) \<Rightarrow>
     (case reverse_duplicate 1 60 d of Inl _ \<Rightarrow> False | Inr (done, d') \<Rightarrow> done)
     \<and> (case rel_get 1 d of Inl _ \<Rightarrow> False | Inr rel \<Rightarrow> rl_subject_id rel = 2 \<and> rl_object_id rel = 1)
     \<and> (case task_of 2 d of None \<Rightarrow> False | Some t \<Rightarrow> tk_status t = TaskDropped \<and> tk_version t = 2)
     \<and> (case confirmed_pair 1 2 d of None \<Rightarrow> False | Some p \<Rightarrow> dp_right_task_version p = 1 \<and> dp_id p = 1)"
  by code_simp

lemma sample_reversalE:
  obtains r d rel t p d' where "act 1 2 ''duplicate_confirm'' 40 sample_pair = Inr (r, d)"
    "system_inv d" "ledger_consistent d" "rel_get 1 d = Inr rel" "rl_subject_id rel = 2" "rl_object_id rel = 1"
    "task_of 2 d = Some t" "tk_status t = TaskDropped" "tk_version t = 2"
    "confirmed_pair 1 2 d = Some p" "dp_right_task_version p = 1" "dp_id p = 1"
    "reverse_duplicate 1 60 d = Inr (True, d')"
proof -
  obtain r d where act: "act 1 2 ''duplicate_confirm'' 40 sample_pair = Inr (r, d)"
    using sample_reversal by (auto simp: sample_confirmed_def split: sum.splits)
  note facts = sample_reversal [unfolded sample_confirmed_def act sum.case prod.case]
  obtain rel t p d' where "rel_get 1 d = Inr rel" "rl_subject_id rel = 2" "rl_object_id rel = 1"
    "task_of 2 d = Some t" "tk_status t = TaskDropped" "tk_version t = 2"
    "confirmed_pair 1 2 d = Some p" "dp_right_task_version p = 1" "dp_id p = 1"
    "reverse_duplicate 1 60 d = Inr (True, d')"
    using facts by (auto split: sum.splits option.splits)
  moreover have "ledger_consistent sample_pair" by code_simp
  ultimately show thesis
    using act keepsD(1) [OF keeps_act [OF act] sample_pair_ok]
      keepsD(6) [OF keeps_act [OF act, of True] sample_pair_ok] by (intro that) simp_all
qed

theorem reversal_leaves_the_log_behind_witness:
  "\<exists>r d d'. act 1 2 ''duplicate_confirm'' 40 sample_pair = Inr (r, d)
    \<and> reverse_duplicate 1 60 d = Inr (True, d') \<and> ledger_consistent d \<and> \<not> ledger_consistent d'"
proof -
  obtain r d rel t d' where *: "act 1 2 ''duplicate_confirm'' 40 sample_pair = Inr (r, d)"
    "ledger_consistent d" "rel_get 1 d = Inr rel" "rl_subject_id rel = 2"
    "task_of 2 d = Some t" "tk_status t = TaskDropped" "reverse_duplicate 1 60 d = Inr (True, d')"
    by (rule sample_reversalE)
  then have "\<not> ledger_consistent d'"
    using reversal_leaves_the_log_behind [OF *(2,3) _ *(6,7)] by simp
  then show ?thesis using * by blast
qed

theorem reversed_pair_is_not_offered_again_witness:
  "\<exists>r d d' q. act 1 2 ''duplicate_confirm'' 40 sample_pair = Inr (r, d)
    \<and> reverse_duplicate 1 60 d = Inr (True, d') \<and> row_of dp_id 1 (proposals d') = Some q
    \<and> dp_state q = DupProposed \<and> unaskable d' q"
proof -
  obtain r d rel t p d' where *: "act 1 2 ''duplicate_confirm'' 40 sample_pair = Inr (r, d)" "system_inv d"
    "rel_get 1 d = Inr rel" "rl_subject_id rel = 2" "rl_object_id rel = 1" "task_of 2 d = Some t"
    "tk_status t = TaskDropped" "tk_version t = 2" "confirmed_pair 1 2 d = Some p"
    "dp_right_task_version p = 1" "dp_id p = 1" "reverse_duplicate 1 60 d = Inr (True, d')"
    by (rule sample_reversalE)
  then show ?thesis
    using reversed_pair_is_not_offered_again [OF *(2,3) _ _ *(7) _ *(12), of p] by fastforce
qed

section \<open>A question about a duplicate is raised and withdrawn for ever\<close>

definition sample_churn :: db where
  "sample_churn = sample_ledger\<lparr>
     evidence := [detection_row sample_sha (sample_detection\<lparr>pr_task_id := 2\<rparr>) 1 7],
     relations := [(sample_relation 1 2 1)\<lparr>rl_kind := DuplicateOf\<rparr>]\<rparr>"

definition two_passes :: "exc + ((schedule_result \<times> schedule_result) \<times> db)" where
  "two_passes = rbind (schedule 10 50 sample_churn) (\<lambda>(r1, d1).
     rbind (schedule 10 51 d1) (\<lambda>(r2, d2). Inr ((r1, r2), d2)))"

lemma two_passes_effect:
  "case two_passes of Inl _ \<Rightarrow> False | Inr ((r1, r2), d2) \<Rightarrow>
     sr_cancelled r1 = 0 \<and> sr_created r1 = 1 \<and> sr_cancelled r2 = 1 \<and> sr_created r2 = 1
     \<and> list_all (\<lambda>c. \<not> claimable 51 d2 c) (cards d2) \<and> rowcount (\<lambda>c. active (cd_status c)) (cards d2) = 1"
  by code_simp

text \<open>The asking passes do not skip tasks that are live duplicates, although the stale pass and the
  claim do.  With one unanswered question about such a task the scheduler raises a card that nobody
  can claim, cancels it in the next pass, and raises another.\<close>

lemma duplicate_questions_churn:
  "\<exists>r1 d1 r2 d2. schedule 10 50 sample_churn = Inr (r1, d1) \<and> schedule 10 51 d1 = Inr (r2, d2)
    \<and> sr_created r1 = 1 \<and> sr_cancelled r2 = 1 \<and> sr_created r2 = 1
    \<and> rowcount (\<lambda>c. active (cd_status c)) (cards d2) = 1 \<and> rowcount (claimable 51 d2) (cards d2) = 0"
proof -
  obtain r1 d1 where 1: "schedule 10 50 sample_churn = Inr (r1, d1)"
    using two_passes_effect unfolding two_passes_def
    by (cases "schedule 10 50 sample_churn") auto
  obtain r2 d2 where 2: "schedule 10 51 d1 = Inr (r2, d2)"
    using two_passes_effect unfolding two_passes_def 1 by (cases "schedule 10 51 d1") auto
  have "rowcount (claimable 51 d2) (cards d2) = 0"
    using two_passes_effect unfolding two_passes_def 1
    by (auto simp: 2 rowcount_def filter_empty_conv list_all_iff)
  then show ?thesis using two_passes_effect 1 2 unfolding two_passes_def by auto
qed

end
