(* ===== verification/CardDelivery.thy ===== *)
theory CardDelivery
  imports CardTheorems
begin

text \<open>
  Delivery as a contract with the transport: acknowledging twice is acknowledging once, a failed or
  retried delivery puts the card back, and the one-call answer never applies an action it has not
  recorded a delivery for.
\<close>

definition acknowledged :: "string \<Rightarrow> string \<Rightarrow> time \<Rightarrow> card_row \<Rightarrow> card_row" where
  "acknowledged transport ref now c = c\<lparr>cd_status := CardDelivered, cd_claim_expires_at := None,
     cd_transport := Some transport, cd_delivery_ref := Some ref, cd_delivered_at := Some now,
     cd_updated_at := now\<rparr>"

lemma complete_delivery_cases:
  assumes "complete_delivery sha k v token transport ref now d = (r, d')" and "co_accepted r"
  obtains (unchanged) c where "card_of k d = Some c" "cd_version c = v" "cd_status c = CardDelivered" "d' = d"
      "r = card_operation c CardUnchanged"
  | (applied) c where "card_of k d = Some c" "cd_version c = v" "cd_status c = CardDelivering"
      "cd_claim_token_digest c = Some (sha token)" "r = card_operation (acknowledged transport ref now c) CardApplied"
      "d' = add_card_event (card_event_of c CevDelivered v (cd_task_version c) None now)
        (update_card c (acknowledged transport ref now) d)"
proof (cases "card_of k d")
  case None
  then show thesis
    using assms by (auto simp: complete_delivery_def co_accepted_def split: if_splits)
next
  case (Some c)
  have acc: "\<not> co_accepted (card_refused k x)" "\<not> co_accepted (refused_row k row t x)" for row t x
    by (simp_all add: co_accepted_def)
  show thesis
  proof (cases "cd_status c = CardDelivered")
    case True
    then show thesis
      using assms Some acc by (intro unchanged) (auto simp: complete_delivery_def split: if_splits)
  next
    case False
    then show thesis
      using assms Some acc
      by (intro applied)
        (auto simp: complete_delivery_def Let_def acknowledged_def acknowledged_def [abs_def] split: if_splits)
  qed
qed

text \<open>Acknowledging a delivery is idempotent.  A transport that repeats an acknowledgement it does
  not know to have been recorded gets the same card, unchanged, and nothing is written.\<close>

lemma acknowledging_twice_is_once:
  assumes "system_inv d" and "complete_delivery sha k v token transport ref now d = (r, d')"
    and "co_disposition r = CardApplied"
  shows "\<exists>r'. complete_delivery sha k v token transport ref now' d' = (r', d')
    \<and> co_disposition r' = CardUnchanged \<and> co_version r' = co_version r \<and> co_status r' = co_status r"
proof -
  have valid: "valid_identity k v \<and> valid_secret token \<and> valid_opaque transport 64 \<and> valid_opaque ref 200"
    using assms(2,3) by (auto simp: complete_delivery_def split: if_splits)
  have acc: "co_accepted r" using assms(3) by (simp add: co_accepted_def)
  show ?thesis
  proof (rule complete_delivery_cases [OF assms(2) acc])
    fix c
    assume "r = card_operation c CardUnchanged"
    then show ?thesis using assms(3) by (simp add: card_operation_def)
  next
    fix c
    assume c: "card_of k d = Some c" "cd_version c = v" "cd_claim_token_digest c = Some (sha token)"
      and r: "r = card_operation (acknowledged transport ref now c) CardApplied"
      and d': "d' = add_card_event (card_event_of c CevDelivered v (cd_task_version c) None now)
        (update_card c (acknowledged transport ref now) d)"
    let ?c = "acknowledged transport ref now c"
    have mem: "c \<in> set (cards d)" "cd_id c = k" using c(1) assms(1) by (simp_all add: card_of_unique)
    have "card_of k d' = Some ?c"
      using card_after_update [OF assms(1) mem(1), of "acknowledged transport ref now" d'] mem(2)
      by (simp add: d' add_card_event_def update_card_def acknowledged_def)
    then have "complete_delivery sha k v token transport ref now' d' = (card_operation ?c CardUnchanged, d')"
      using valid c by (simp add: complete_delivery_def acknowledged_def)
    then show ?thesis by (simp add: card_operation_def r)
  qed
qed

lemma sample_claim_acknowledged:
  "case sample_claim of Inl _ \<Rightarrow> False | Inr (out, d) \<Rightarrow>
     co_disposition (fst (complete_delivery sample_sha 2 2 (replicate 32 CHR ''t'') ''telegram'' ''m-1'' 23 d))
       = CardApplied"
  by code_simp

theorem acknowledging_twice_is_once_witness:
  "\<exists>d d' r'. complete_delivery sample_sha 2 2 (replicate 32 CHR ''t'') ''telegram'' ''m-1'' 99 d = (r', d')
    \<and> d' = d \<and> co_disposition r' = CardUnchanged"
proof -
  obtain c tok e d where 1: "claim_next sample_sha 60 (replicate 64 CHR ''b'') ''drip''
      (replicate 32 CHR ''t'') 22 sample_system = Inr (Claimed c tok e, d)"
    by (rule sample_claimE)
  let ?call = "\<lambda>t. complete_delivery sample_sha 2 2 (replicate 32 CHR ''t'') ''telegram'' ''m-1'' t"
  have inv: "system_inv d" using keepsD(1) [OF keeps_claim_next [OF 1] sample_system_ok] .
  have "co_disposition (fst (?call 23 d)) = CardApplied"
    using sample_claim_acknowledged 1 by (simp add: sample_claim_def)
  then have "\<exists>r'. ?call 99 (snd (?call 23 d)) = (r', snd (?call 23 d)) \<and> co_disposition r' = CardUnchanged"
    using acknowledging_twice_is_once [OF inv prod.collapse [symmetric], where now' = 99] by blast
  then show ?thesis by blast
qed

section \<open>Answering in one call\<close>

lemma card_step_events: "card_step d d' \<Longrightarrow> \<exists>es. card_events d' = card_events d @ es"
  by (erule card_stepE) auto

lemma card_run_events: "card_step\<^sup>*\<^sup>* d d' \<Longrightarrow> \<exists>es. card_events d' = card_events d @ es"
  by (induction rule: rtranclp_induct) (use card_step_events in fastforce)+

lemma resolve_claim_refused:
  "resolve_claim sha k v consumer ceiling token now d = (Some (Resolved r), d') \<Longrightarrow> co_disposition r = CardRefused"
  by (auto simp: resolve_claim_def Let_def split: if_splits option.splits)

lemma resolve_applied:
  assumes "resolve sha k v action consumer role token now1 now2 now3 d = (Inr (Resolved r), d')"
    and "co_disposition r = CardApplied"
  shows "\<exists>ceiling d1 x d2. resolve_claim sha k v consumer ceiling token now1 d = (None, d1)
    \<and> complete_delivery sha k (v + 1) token ''resolved''
        (''resolve-'' @ digits (nat k) @ ''-v'' @ digits (nat (v + 1))) now2 d1 = (x, d2)
    \<and> co_accepted x \<and> act k (v + 1) action now3 d2 = Inr (r, d')"
proof -
  let ?ref = "''resolve-'' @ digits (nat k) @ ''-v'' @ digits (nat (v + 1))"
  obtain ceiling where guards: "\<not> (\<not> valid_identity k v \<or> action \<notin> set TASK_CARD_ACTIONS
      \<or> \<not> valid_digest consumer)" "map_of TASK_CARD_CLAIM_CEILINGS role = Some ceiling" "valid_secret token"
    using assms by (auto simp: resolve_def split: if_splits option.splits)
  obtain out d1 where 1: "resolve_claim sha k v consumer ceiling token now1 d = (out, d1)"
    by (cases "resolve_claim sha k v consumer ceiling token now1 d")
  show ?thesis
  proof (cases out)
    case (Some y)
    then have "resolve_claim sha k v consumer ceiling token now1 d = (Some (Resolved r), d')"
      using assms(1) guards 1 by (simp add: resolve_def)
    then show ?thesis using resolve_claim_refused [of sha k v consumer ceiling token now1 d r d'] assms(2) by simp
  next
    case None
    obtain x d2 where 2: "complete_delivery sha k (v + 1) token ''resolved'' ?ref now2 d1 = (x, d2)"
      by (cases "complete_delivery sha k (v + 1) token ''resolved'' ?ref now2 d1")
    have res: "resolve sha k v action consumer role token now1 now2 now3 d
        = (if \<not> co_accepted x then (Inr (Resolved x), d2)
           else (case run_tx (act k (v + 1) action now3) d2 of
              (Inl e, d3) \<Rightarrow> (Inl e, d3) | (Inr r, d3) \<Rightarrow> (Inr (Resolved r), d3)))"
      using guards 1 2 None by (simp add: resolve_def Let_def)
    have x: "co_accepted x"
      using assms res by (cases "co_accepted x") (auto simp: co_accepted_def)
    have "act k (v + 1) action now3 d2 = Inr (r, d')"
      using assms(1) res x by (cases "act k (v + 1) action now3 d2") (auto simp: run_tx_def)
    then show ?thesis using 1 2 None x by blast
  qed
qed

text \<open>\<open>resolve\<close> never applies an answer without its delivery record.  When the one-call answer is
  applied, the card went from the version the caller named to two versions on, and the log holds the
  delivery of the version that was answered.\<close>

lemma resolved_answers_were_delivered:
  assumes "system_inv d"
    and "resolve sha k v action consumer role token now1 now2 now3 d = (Inr (Resolved r), d')"
    and "co_disposition r = CardApplied"
  shows "card_version k d = Some v \<and> card_version k d' = Some (v + 2)
    \<and> (\<exists>e \<in> set (card_events d'). ce_card_id e = k \<and> ce_kind e = CevDelivered \<and> ce_card_version e = v + 1)"
proof -
  let ?ref = "''resolve-'' @ digits (nat k) @ ''-v'' @ digits (nat (v + 1))"
  obtain ceiling d1 x d2 where
    claim: "resolve_claim sha k v consumer ceiling token now1 d = (None, d1)"
    and del: "complete_delivery sha k (v + 1) token ''resolved'' ?ref now2 d1 = (x, d2)" "co_accepted x"
    and act: "act k (v + 1) action now3 d2 = Inr (r, d')"
    using assms(2,3) resolve_applied [of sha k v action consumer role token now1 now2 now3 d r d'] by blast
  obtain c t where c: "joined_card k d = Some (c, t)" "cd_version c = v"
    and d1: "d1 = claim_card (sha token) (now1 + 60) consumer now1 c d"
    and status: "cd_status c \<in> {CardPending, CardSnoozed}"
    using claim by (auto simp: resolve_claim_def Let_def split: if_splits option.splits)
  have inv1: "system_inv d1"
    using keepsD(1) [OF keeps_resolve_claim assms(1), of sha k v consumer ceiling token now1] claim by simp
  have inv2: "system_inv d2"
    using keepsD(1) [OF keeps_complete inv1, of sha k "v + 1" token "''resolved''" ?ref now2] del(1) by simp
  have mem: "c \<in> set (cards d)" "cd_id c = k" using joined_card_mem [OF c(1)] by simp_all
  have "card_of k d = Some c" using mem assms(1) by (simp add: card_of_unique)
  then have now_claimed: "card_of k d1 = Some (claimed (sha token) (now1 + 60) consumer now1 c)"
    using status mem(2)
    by (simp add: d1 claim_card_def add_card_event_def find_update_where claimed_def unpresent_def)
  have log: "\<exists>e \<in> set (card_events d2). ce_card_id e = k \<and> ce_kind e = CevDelivered \<and> ce_card_version e = v + 1"
  proof (rule complete_delivery_cases [OF del])
    fix c' assume "card_of k d1 = Some c'" "cd_status c' = CardDelivered"
    then show ?thesis using now_claimed by (auto simp: claimed_def)
  next
    fix c'
    assume "card_of k d1 = Some c'" "d2 = add_card_event
      (card_event_of c' CevDelivered (v + 1) (cd_task_version c') None now2)
      (update_card c' (acknowledged ''resolved'' ?ref now2) d1)"
    then show ?thesis
      using row_of_key [of cd_id k "cards d1" c'] by (simp add: add_card_event_def card_event_of_def)
  qed
  obtain es where "card_events d' = card_events d2 @ es"
    using card_run_events [OF keepsD(2) [OF keeps_act [OF act] inv2]] by blast
  then show ?thesis
    using log act_bumps [OF inv2 act assms(3)] \<open>card_of k d = Some c\<close> c(2)
    by (auto simp: card_version_def)
qed

definition sample_resolve :: "(exc + resolve_outcome) \<times> db" where
  "sample_resolve = resolve sample_sha 2 1 ''keep_open'' (replicate 64 CHR ''b'') ''drip'' (replicate 32 CHR ''t'')
     22 23 24 sample_system"

lemma sample_resolve_applied:
  "case fst sample_resolve of Inr (Resolved r) \<Rightarrow> co_disposition r = CardApplied | _ \<Rightarrow> False"
  by code_simp

theorem resolved_answers_were_delivered_witness:
  "\<exists>r d. sample_resolve = (Inr (Resolved r), d) \<and> card_version 2 d = Some 3"
proof -
  obtain r where r: "fst sample_resolve = Inr (Resolved r)" "co_disposition r = CardApplied"
    using sample_resolve_applied by (auto split: sum.splits resolve_outcome.splits)
  then have "resolve sample_sha 2 1 ''keep_open'' (replicate 64 CHR ''b'') ''drip'' (replicate 32 CHR ''t'')
     22 23 24 sample_system = (Inr (Resolved r), snd sample_resolve)"
    unfolding sample_resolve_def by (metis prod.collapse)
  from resolved_answers_were_delivered [OF sample_system_ok this r(2)] r(1) show ?thesis
    by (intro exI [of _ r] exI [of _ "snd sample_resolve"]) (simp add: prod_eq_iff)
qed

end
