(* ===== verification/Callback.thy ===== *)
theory Callback
  imports Cards
begin

text \<open>
  The wire form of an answer (\<open>task_cards.py\<close>): the callback text a rendered card puts behind a
  button, and the parser of what comes back.  \<open>py_int\<close> is Python's \<open>int(text)\<close> on ASCII text, with
  its surrounding white space, sign, leading zeros and single underscores.
\<close>

definition CALLBACK_PREFIX :: string where
  "CALLBACK_PREFIX = ''fhc''"

definition CALLBACK_DATA_LIMIT :: nat where
  "CALLBACK_DATA_LIMIT = 64"

definition TASK_CARD_READS :: "string list" where
  "TASK_CARD_READS = [''duplicate_expand'', ''duplicate_collapse'']"

section \<open>Python text primitives\<close>

definition str_int :: "int \<Rightarrow> string" where
  "str_int n = (if n < 0 then CHR ''-'' # digits (nat (- n)) else digits (nat n))"

definition is_digit :: "char \<Rightarrow> bool" where
  "is_digit c = (let n = code_of c in 48 \<le> n \<and> n \<le> 57)"

fun digit_run :: "nat \<Rightarrow> bool \<Rightarrow> string \<Rightarrow> nat option" where
  "digit_run acc seen [] = (if seen then Some acc else None)"
| "digit_run acc seen (c # cs) =
     (if is_digit c then digit_run (10 * acc + (code_of c - 48)) True cs
      else if c = CHR ''_'' \<and> seen then digit_run acc False cs
      else None)"

definition py_int :: "string \<Rightarrow> int option" where
  "py_int s = (case strip s of
     [] \<Rightarrow> None
   | c # cs \<Rightarrow>
       if c = CHR ''-'' then map_option (\<lambda>n. - int n) (digit_run 0 False cs)
       else if c = CHR ''+'' then map_option int (digit_run 0 False cs)
       else map_option int (digit_run 0 False (c # cs)))"

section \<open>Rendering and parsing\<close>

definition callback :: "rowid \<Rightarrow> int \<Rightarrow> string \<Rightarrow> exc + string" where
  "callback k v action =
     (let value = CALLBACK_PREFIX @ ''|'' @ str_int k @ ''|'' @ str_int v @ ''|'' @ action in
      if CALLBACK_DATA_LIMIT < length value
      then Inl (ValueError ''task review callback exceeds transport limit'')
      else Inr value)"

definition parse_task_review_callback :: "string \<Rightarrow> (rowid \<times> int \<times> string) option" where
  "parse_task_review_callback value =
     (if CALLBACK_DATA_LIMIT < length value then None
      else (case split_on CHR ''|'' value of
        [prefix, p1, p2, action] \<Rightarrow>
          if prefix \<noteq> CALLBACK_PREFIX then None
          else (case (py_int p1, py_int p2) of
            (Some k, Some v) \<Rightarrow>
              if \<not> valid_identity k v \<or> action \<notin> set TASK_CARD_ACTIONS then None else Some (k, v, action)
          | _ \<Rightarrow> None)
      | _ \<Rightarrow> None))"

section \<open>Lemmas\<close>

lemma digit_code: "n < 10 \<Longrightarrow> code_of (char_of (48 + n)) = 48 + n"
  by (simp add: code_of_def)

lemma digit_char: "n < 10 \<Longrightarrow> is_digit (char_of (48 + n :: nat))"
  by (simp add: is_digit_def digit_code)

lemma set_digits: "c \<in> set (digits n) \<Longrightarrow> is_digit c"
proof (induction n rule: digits.induct)
  case (1 n)
  then show ?case by (subst (asm) digits.simps) (auto simp: digit_char split: if_splits)
qed

lemma digits_ne: "digits n \<noteq> []"
  by (subst digits.simps) simp

lemma length_digits: "n < 10 ^ k \<Longrightarrow> 0 < k \<Longrightarrow> length (digits n) \<le> k"
proof (induction k arbitrary: n)
  case (Suc k)
  show ?case
  proof (cases "n < 10")
    case False
    then have "n div 10 < 10 ^ k" using Suc.prems by (simp add: less_mult_imp_div_less)
    moreover have "0 < k" using False Suc.prems by (cases k) auto
    ultimately have "length (digits (n div 10)) \<le> k" by (rule Suc.IH)
    then show ?thesis using False by (subst digits.simps) simp
  qed (subst digits.simps, simp)
qed simp

lemma digit_run_append:
  "digit_run acc seen (digits n @ rest) = digit_run (acc * 10 ^ length (digits n) + n) True rest"
proof (induction n arbitrary: rest acc seen rule: digits.induct)
  case (1 n)
  show ?case
  proof (cases "n < 10")
    case True
    then show ?thesis
      by (subst (1 2) digits.simps) (simp add: digit_char digit_code mult.commute)
  next
    case False
    have "digit_run acc seen (digits n @ rest)
        = digit_run acc seen (digits (n div 10) @ char_of (48 + n mod 10) # rest)"
      using False by (subst digits.simps) simp
    also have "\<dots> = digit_run (10 * (acc * 10 ^ length (digits (n div 10)) + n div 10) + n mod 10) True rest"
      using 1 [OF False] by (simp add: digit_char digit_code)
    also have "10 * (acc * 10 ^ length (digits (n div 10)) + n div 10) + n mod 10
        = acc * 10 ^ length (digits n) + n"
    proof -
      have "length (digits n) = Suc (length (digits (n div 10)))" using False by (subst digits.simps) simp
      then show ?thesis by (simp add: algebra_simps)
    qed
    finally show ?thesis .
  qed
qed

lemma digit_not_space: "is_digit c \<Longrightarrow> \<not> is_space c"
  by (simp add: is_digit_def is_space_def Let_def)

lemma strip_digits: "strip (digits n) = digits n"
proof -
  have *: "dropWhile is_space s = s" if "s \<noteq> []" "\<forall>c \<in> set s. is_digit c" for s
    using that digit_not_space by (cases s) auto
  have "\<forall>c \<in> set (digits n). is_digit c" using set_digits by blast
  then show ?thesis using * [of "digits n"] * [of "rev (digits n)"] digits_ne by (simp add: strip_def)
qed

lemma py_int_digits: "py_int (digits n) = Some (int n)"
proof -
  obtain c cs where d: "digits n = c # cs" using digits_ne by (cases "digits n") auto
  have "is_digit c" using set_digits [of c n] d by simp
  then have "c \<noteq> CHR ''-'' \<and> c \<noteq> CHR ''+''"
    by (auto simp: is_digit_def code_of_def)
  moreover have "digit_run 0 False (digits n) = Some n"
    using digit_run_append [of 0 False n "[]"] by simp
  moreover have "strip (c # cs) = c # cs" using strip_digits [of n] d by simp
  ultimately show ?thesis by (simp add: py_int_def d del: digit_run.simps)
qed

lemma split_on_ne: "split_on sep s \<noteq> []"
  by (induction s) (auto split: list.splits)

lemma split_on_field: "sep \<notin> set w \<Longrightarrow> split_on sep (w @ sep # rest) = w # split_on sep rest"
  by (induction w) auto

lemma split_on_last: "sep \<notin> set w \<Longrightarrow> split_on sep w = [w]"
  by (induction w) auto

lemma digits_no_bar: "CHR ''|'' \<notin> set (digits n)"
  using set_digits [of "CHR ''|''" n] by (auto simp: is_digit_def code_of_def)

lemma parse_callback:
  assumes "1 \<le> k" and "1 \<le> v" and "CHR ''|'' \<notin> set action" and "callback k v action = Inr s"
  shows "parse_task_review_callback s
    = (if action \<in> set TASK_CARD_ACTIONS then Some (k, v, action) else None)"
proof -
  have s: "s = ''fhc'' @ CHR ''|'' # digits (nat k) @ CHR ''|'' # digits (nat v) @ CHR ''|'' # action"
    and len: "length s \<le> CALLBACK_DATA_LIMIT"
    using assms by (auto simp: callback_def CALLBACK_PREFIX_def str_int_def Let_def split: if_splits)
  have "split_on CHR ''|'' s = [''fhc'', digits (nat k), digits (nat v), action]"
    unfolding s
    by (simp add: split_on_field [of "CHR ''|''" "''fhc''", simplified] split_on_field digits_no_bar
        split_on_last assms(3))
  then show ?thesis
    using len assms(1,2)
    by (simp add: parse_task_review_callback_def CALLBACK_PREFIX_def py_int_digits valid_identity_def)
qed

section \<open>Properties\<close>

text \<open>C35: What a button sends is what the reader pressed: the parser gives back exactly the card, the
  version and the action the callback was rendered from.\<close>

theorem callback_roundtrip:
  assumes "1 \<le> k" and "1 \<le> v" and "action \<in> set TASK_CARD_ACTIONS" and "callback k v action = Inr s"
  shows "parse_task_review_callback s = Some (k, v, action)"
proof -
  have "list_all (\<lambda>a. CHR ''|'' \<notin> set a) TASK_CARD_ACTIONS" by code_simp
  then have "CHR ''|'' \<notin> set action" using assms(3) by (simp add: list_all_iff)
  then show ?thesis using parse_callback [OF assms(1,2) _ assms(4)] assms(3) by simp
qed

theorem callback_roundtrip_witness:
  "callback 12 3 ''keep_open'' = Inr ''fhc|12|3|keep_open''
    \<and> parse_task_review_callback ''fhc|12|3|keep_open'' = Some (12, 3, ''keep_open'')"
proof -
  have c: "callback 12 3 ''keep_open'' = Inr ''fhc|12|3|keep_open''" by code_simp
  moreover have "''keep_open'' \<in> set TASK_CARD_ACTIONS" by code_simp
  ultimately show ?thesis using callback_roundtrip [OF _ _ _ c] by simp
qed

text \<open>Rendering a button never fails.  For every card id and version a SQLite integer column can
  hold and every answer or read token, the callback fits the transport's 64 bytes.\<close>

lemma callback_fits:
  assumes "0 \<le> k" and "k < 2 ^ 63" and "0 \<le> v" and "v < 2 ^ 63"
    and "action \<in> set (TASK_CARD_ACTIONS @ TASK_CARD_READS)"
  shows "\<exists>s. callback k v action = Inr s \<and> length s \<le> 64"
proof -
  have "length (str_int n) \<le> 19" if "0 \<le> n" "n < 2 ^ 63" for n
  proof -
    have "nat n < 10 ^ 19" using that by simp
    from length_digits [OF this] show ?thesis using that by (simp add: str_int_def)
  qed
  note 1 = this [OF assms(1,2)] and 2 = this [OF assms(3,4)]
  have "list_all (\<lambda>a. length a \<le> 18) (TASK_CARD_ACTIONS @ TASK_CARD_READS)" by code_simp
  then have "length action \<le> 18" using assms(5) by (simp only: list_all_iff)
  then show ?thesis
    using 1 2 by (simp add: callback_def CALLBACK_PREFIX_def CALLBACK_DATA_LIMIT_def Let_def)
qed

theorem callback_fits_witness:
  "\<exists>s. callback (2 ^ 63 - 1) (2 ^ 63 - 1) ''duplicate_collapse'' = Inr s \<and> length s \<le> 64"
proof -
  have "''duplicate_collapse'' \<in> set (TASK_CARD_ACTIONS @ TASK_CARD_READS)" by code_simp
  then show ?thesis using callback_fits [of "2 ^ 63 - 1" "2 ^ 63 - 1" "''duplicate_collapse''"] by simp
qed

text \<open>A control that only reads never arrives as an answer: the callback of an expand or collapse
  button is refused by the parser of answers.\<close>

lemma reads_never_parse_as_answers:
  assumes "1 \<le> k" and "1 \<le> v" and "action \<in> set TASK_CARD_READS" and "callback k v action = Inr s"
  shows "parse_task_review_callback s = None"
proof -
  have "list_all (\<lambda>a. CHR ''|'' \<notin> set a \<and> a \<notin> set TASK_CARD_ACTIONS) TASK_CARD_READS" by code_simp
  then have "CHR ''|'' \<notin> set action" "action \<notin> set TASK_CARD_ACTIONS"
    using assms(3) by (simp_all only: list_all_iff) blast+
  then show ?thesis using parse_callback [OF assms(1,2) _ assms(4)] by simp
qed

theorem reads_never_parse_as_answers_witness:
  "parse_task_review_callback ''fhc|12|3|duplicate_expand'' = None"
proof (rule reads_never_parse_as_answers)
  show "callback 12 3 ''duplicate_expand'' = Inr ''fhc|12|3|duplicate_expand''" by code_simp
  show "''duplicate_expand'' \<in> set TASK_CARD_READS" by code_simp
qed simp_all

end
