(* ===== verification/Workflows.thy ===== *)
theory Workflows
  imports Ledger
begin

text \<open>
  The execution workflow row of \<open>task_execution.py\<close>: its CHECK constraints, the guards that every
  operation starts with, its event log, the results of its operations, and
  \<open>_apply_review_lifecycle_action\<close> of \<open>execution_cards.py\<close>, which ends the task and its
  workflow together.
\<close>

section \<open>Results and refusals\<close>

datatype workflow_disposition = WdApplied | WdUnchanged | WdRefused

datatype workflow_refusal =
    WrInvalidArgument | WrInvalidAction | WrInvalidState | WrNotFound | WrStaleTask
  | WrStaleWorkflow | WrClaimMismatch | WrResultConflict | WrResultUnchanged
  | WrAgentProfileUnavailable | WrArtifactsUnavailable

record workflow_result =
  xr_disposition :: workflow_disposition
  xr_task_id :: rowid
  xr_version :: "int option"
  xr_status :: "workflow_status option"
  xr_phase :: "workflow_phase option"
  xr_wake_at :: "time option"
  xr_next_attempt_at :: "time option"
  xr_refusal :: "workflow_refusal option"
  xr_profile_id :: "string option"
  xr_profile_revision :: "string option"
  xr_priority :: "workflow_priority option"

definition xr_accepted :: "workflow_result \<Rightarrow> bool" where
  "xr_accepted r \<longleftrightarrow> xr_disposition r \<noteq> WdRefused"

text \<open>The positional constructor calls of the code: the other fields default to \<open>None\<close>.\<close>

definition xr_blank :: "workflow_disposition \<Rightarrow> rowid \<Rightarrow> workflow_result" where
  "xr_blank disp i = \<lparr>xr_disposition = disp, xr_task_id = i, xr_version = None, xr_status = None,
     xr_phase = None, xr_wake_at = None, xr_next_attempt_at = None, xr_refusal = None,
     xr_profile_id = None, xr_profile_revision = None, xr_priority = None\<rparr>"

lemma xr_disposition_blank [simp]: "xr_disposition (xr_blank disp i) = disp"
  by (simp add: xr_blank_def)

definition wf_refused :: "rowid \<Rightarrow> workflow_refusal \<Rightarrow> workflow_result" where
  "wf_refused i ref = (xr_blank WdRefused i)\<lparr>xr_refusal := Some ref\<rparr>"

definition wf_refused_row :: "rowid \<Rightarrow> workflow_row option \<Rightarrow> workflow_refusal \<Rightarrow> workflow_result" where
  "wf_refused_row i row ref =
     (case row of
        None \<Rightarrow> wf_refused i ref
      | Some w \<Rightarrow> (xr_blank WdRefused i)\<lparr>xr_version := Some (wf_version w),
          xr_status := Some (wf_status w), xr_phase := Some (wf_phase w), xr_refusal := Some ref,
          xr_profile_id := wf_profile_id w, xr_profile_revision := wf_profile_revision w\<rparr>)"

definition wf_operation :: "workflow_row \<Rightarrow> workflow_disposition \<Rightarrow> workflow_result" where
  "wf_operation w disp = (xr_blank disp (wf_task_id w))\<lparr>xr_version := Some (wf_version w),
     xr_status := Some (wf_status w), xr_phase := Some (wf_phase w), xr_wake_at := wf_due_at w,
     xr_next_attempt_at := wf_next_attempt_at w, xr_profile_id := wf_profile_id w,
     xr_profile_revision := wf_profile_revision w, xr_priority := Some (wf_priority w)\<rparr>"

text \<open>An applied operation that names the row's profile.\<close>

definition wf_applied :: "workflow_row \<Rightarrow> int \<Rightarrow> workflow_status \<Rightarrow> workflow_phase \<Rightarrow> workflow_result" where
  "wf_applied w v st ph = (xr_blank WdApplied (wf_task_id w))\<lparr>xr_version := Some v,
     xr_status := Some st, xr_phase := Some ph, xr_profile_id := wf_profile_id w,
     xr_profile_revision := wf_profile_revision w\<rparr>"

section \<open>The workflow table\<close>

definition FAILURE_REASONS :: "string list" where
  "FAILURE_REASONS = [''startup_failed'', ''process_exit'', ''timeout'', ''interrupted'',
     ''claim_expired'', ''lease_failed'', ''result_invalid'', ''budget_handoff'',
     ''context_exhausted'']"

text \<open>The patterns of the CHECK constraints on profile and run columns; \<open>GLOB\<close> of a run id reads its first character only.\<close>

definition lower_char :: "char \<Rightarrow> bool" where
  "lower_char c \<longleftrightarrow> 97 \<le> code_of c \<and> code_of c \<le> 122"

definition digit_char :: "char \<Rightarrow> bool" where
  "digit_char c \<longleftrightarrow> 48 \<le> code_of c \<and> code_of c \<le> 57"

definition hex_char :: "char \<Rightarrow> bool" where
  "hex_char c \<longleftrightarrow> digit_char c \<or> 97 \<le> code_of c \<and> code_of c \<le> 102"

definition profile_columns :: "string option \<Rightarrow> string option \<Rightarrow> bool" where
  "profile_columns i r \<longleftrightarrow>
     (case i of None \<Rightarrow> False
      | Some s \<Rightarrow> 1 \<le> length s \<and> length s \<le> 32 \<and> list_ex lower_char (take 1 s)
          \<and> list_all (\<lambda>c. lower_char c \<or> digit_char c \<or> c = CHR ''-'') s)
     \<and> (case r of None \<Rightarrow> False | Some s \<Rightarrow> length s = 64 \<and> list_all hex_char s)"

definition run_column :: "string option \<Rightarrow> bool" where
  "run_column run \<longleftrightarrow> (case run of None \<Rightarrow> True | Some s \<Rightarrow> length s = 32 \<and> list_ex hex_char (take 1 s))"

lemma run_column_None [simp]: "run_column None"
  by (simp add: run_column_def)

text \<open>
  The CHECK constraints of \<open>task_execution_workflows\<close>, those of the columns its migrations added
  included: the profile (V12), the exit code and the run of a failure (V34), the current run (V49), the
  source of a priority (V66).  Statuses, phases, priorities and the steer flag are types here.
\<close>

definition wf_check :: "workflow_row \<Rightarrow> bool" where
  "wf_check w \<longleftrightarrow> 1 \<le> wf_task_version w \<and> 1 \<le> wf_version w \<and> 0 \<le> wf_failure_count w
     \<and> (case wf_last_failure_reason w of None \<Rightarrow> True | Some r \<Rightarrow> r \<in> set FAILURE_REASONS)
     \<and> (case wf_last_failure_exit_code w of None \<Rightarrow> True | Some c \<Rightarrow> 1 \<le> c \<and> c \<le> 255)
     \<and> run_column (wf_last_failure_run_id w) \<and> run_column (wf_current_run_id w)
     \<and> profile_columns (wf_profile_id w) (wf_profile_revision w)
     \<and> wf_priority_source w \<in> {None, Some ''reader'', Some ''automation''}
     \<and> (if wf_status w = WfRunning
        then (case wf_claim_token_digest w of None \<Rightarrow> False | Some s \<Rightarrow> length s = 64)
          \<and> wf_claimed_at w \<noteq> None \<and> wf_claim_heartbeat_at w \<noteq> None \<and> wf_claim_expires_at w \<noteq> None
        else wf_claim_token_digest w = None \<and> wf_claimed_at w = None
          \<and> wf_claim_heartbeat_at w = None \<and> wf_claim_expires_at w = None)
     \<and> (wf_status w = WfSnoozed \<longrightarrow> wf_due_at w \<noteq> None)
     \<and> (wf_status w = WfParked \<longleftrightarrow> wf_parked_at w \<noteq> None)
     \<and> (wf_status w \<in> {WfCompleted, WfCancelled} \<longleftrightarrow> wf_completed_at w \<noteq> None)"

abbreviation workflow_of :: "rowid \<Rightarrow> db \<Rightarrow> workflow_row option" where
  "workflow_of i d \<equiv> row_of wf_task_id i (workflows d)"

text \<open>An \<open>UPDATE\<close> of the table: its row count and the new table, or the failed constraint.\<close>

definition update_workflows :: "(workflow_row \<Rightarrow> bool) \<Rightarrow> (workflow_row \<Rightarrow> workflow_row) \<Rightarrow> db
    \<Rightarrow> exc + (nat \<times> db)" where
  "update_workflows hit f d =
     (if list_all (\<lambda>w. wf_check (f w)) (filter hit (workflows d))
      then Inr (rowcount hit (workflows d), d\<lparr>workflows := update_where hit f (workflows d)\<rparr>)
      else Inl (IntegrityError ''task_execution_workflows''))"

definition insert_workflow :: "workflow_row \<Rightarrow> db \<Rightarrow> exc + db" where
  "insert_workflow w d =
     (if wf_check w \<and> workflow_of (wf_task_id w) d = None
      then Inr (d\<lparr>workflows := workflows d @ [w]\<rparr>)
      else Inl (IntegrityError ''task_execution_workflows''))"

section \<open>The event table\<close>

text \<open>The kinds \<open>task_execution_events\<close> admits, after its last migration.\<close>

definition EXECUTION_EVENT_KINDS :: "string list" where
  "EXECUTION_EVENT_KINDS = [''scheduled'', ''start_approved'', ''snoozed'', ''cancelled'', ''claimed'',
     ''claim_renewed'', ''released'', ''claim_expired'', ''retry_scheduled'', ''parked'',
     ''result_recorded'', ''phase_approved'', ''phase_granted'', ''revision_requested'',
     ''result_unchanged'', ''reader_instruction_delivered'', ''discussion_requested'',
     ''task_completed'', ''task_dropped'', ''reassigned'', ''agent_selected'', ''priority_raised'',
     ''priority_lowered'', ''priority_cleared'']"

lemma event_kinds [simp]:
  "''scheduled'' \<in> set EXECUTION_EVENT_KINDS" "''start_approved'' \<in> set EXECUTION_EVENT_KINDS"
  "''snoozed'' \<in> set EXECUTION_EVENT_KINDS" "''cancelled'' \<in> set EXECUTION_EVENT_KINDS"
  "''claimed'' \<in> set EXECUTION_EVENT_KINDS" "''claim_renewed'' \<in> set EXECUTION_EVENT_KINDS"
  "''released'' \<in> set EXECUTION_EVENT_KINDS" "''claim_expired'' \<in> set EXECUTION_EVENT_KINDS"
  "''retry_scheduled'' \<in> set EXECUTION_EVENT_KINDS" "''parked'' \<in> set EXECUTION_EVENT_KINDS"
  "''result_recorded'' \<in> set EXECUTION_EVENT_KINDS" "''phase_approved'' \<in> set EXECUTION_EVENT_KINDS"
  "''phase_granted'' \<in> set EXECUTION_EVENT_KINDS" "''revision_requested'' \<in> set EXECUTION_EVENT_KINDS"
  "''result_unchanged'' \<in> set EXECUTION_EVENT_KINDS" "''agent_selected'' \<in> set EXECUTION_EVENT_KINDS"
  "''discussion_requested'' \<in> set EXECUTION_EVENT_KINDS" "''task_completed'' \<in> set EXECUTION_EVENT_KINDS"
  "''task_dropped'' \<in> set EXECUTION_EVENT_KINDS" "''reassigned'' \<in> set EXECUTION_EVENT_KINDS"
  "''priority_raised'' \<in> set EXECUTION_EVENT_KINDS" "''priority_lowered'' \<in> set EXECUTION_EVENT_KINDS"
  "''priority_cleared'' \<in> set EXECUTION_EVENT_KINDS"
  by (simp_all add: EXECUTION_EVENT_KINDS_def)

definition event_check :: "workflow_event \<Rightarrow> bool" where
  "event_check e \<longleftrightarrow> we_kind e \<in> set EXECUTION_EVENT_KINDS \<and> 1 \<le> we_workflow_version e
     \<and> 1 \<le> we_task_version e \<and> profile_columns (we_profile_id e) (we_profile_revision e)"

definition insert_workflow_events :: "workflow_event list \<Rightarrow> db \<Rightarrow> exc + db" where
  "insert_workflow_events es d =
     (if list_all event_check es then Inr (d\<lparr>workflow_events := workflow_events d @ es\<rparr>)
      else Inl (IntegrityError ''task_execution_events''))"

text \<open>\<open>TaskExecutionService._event\<close>: the event names the profile the row has now.\<close>

definition wf_event :: "rowid \<Rightarrow> string \<Rightarrow> int \<Rightarrow> int \<Rightarrow> workflow_phase \<Rightarrow> workflow_status \<Rightarrow> time
    \<Rightarrow> db \<Rightarrow> exc + db" where
  "wf_event i kind wv tv ph st now d =
     (case workflow_of i d of
        None \<Rightarrow> Inl (TaskLedgerError ''execution workflow is unavailable'')
      | Some w \<Rightarrow> insert_workflow_events
          [\<lparr>we_task_id = i, we_kind = kind, we_workflow_version = wv, we_task_version = tv,
            we_phase = ph, we_status = st, we_occurred_at = now, we_profile_id = wf_profile_id w,
            we_profile_revision = wf_profile_revision w\<rparr>] d)"

lemma insert_workflow_eventsD:
  assumes "insert_workflow_events es d = Inr d'"
  shows "d' = d\<lparr>workflow_events := workflow_events d @ es\<rparr>" and "list_all event_check es"
  using assms by (auto simp: insert_workflow_events_def split: if_splits)

text \<open>The event of a row that meets its own constraints meets those of the log.\<close>

lemma wf_event_Inr:
  assumes "workflow_of i d = Some w" and "wf_check w" and "kind \<in> set EXECUTION_EVENT_KINDS"
    and "1 \<le> wv" and "1 \<le> tv"
  shows "wf_event i kind wv tv ph st now d =
     Inr (d\<lparr>workflow_events := workflow_events d @ [
          \<lparr>we_task_id = i, we_kind = kind, we_workflow_version = wv, we_task_version = tv,
           we_phase = ph, we_status = st, we_occurred_at = now, we_profile_id = wf_profile_id w,
           we_profile_revision = wf_profile_revision w\<rparr>]\<rparr>)"
  using assms by (simp add: wf_event_def insert_workflow_events_def event_check_def wf_check_def)

text \<open>What a written event leaves: one more row of the log.\<close>

lemma wf_event_adds:
  assumes "wf_event i kind wv tv ph st now d = Inr d'"
  obtains w where "workflow_of i d = Some w"
    and "d' = d\<lparr>workflow_events := workflow_events d @ [
          \<lparr>we_task_id = i, we_kind = kind, we_workflow_version = wv, we_task_version = tv,
           we_phase = ph, we_status = st, we_occurred_at = now, we_profile_id = wf_profile_id w,
           we_profile_revision = wf_profile_revision w\<rparr>]\<rparr>"
  using assms by (auto simp: wf_event_def dest!: insert_workflow_eventsD(1) split: option.splits)

text \<open>The source kind of the accepted binding, \<open>NULL\<close> for a task without one.\<close>

definition origin_kind :: "rowid \<Rightarrow> db \<Rightarrow> string option" where
  "origin_kind i d =
     (case [ib. b \<leftarrow> bindings d, bd_task_id b = i \<and> bd_relation b = BindAccepted,
                ib \<leftarrow> inbox d, ib_candidate_id ib = bd_candidate_id b] of
        [] \<Rightarrow> None | ib # _ \<Rightarrow> Some (ib_kind ib))"

text \<open>\<open>_workflow_with_task\<close>: the join keeps a workflow only with its task.\<close>

definition workflow_with_task :: "rowid \<Rightarrow> db \<Rightarrow> (workflow_row \<times> task_row) option" where
  "workflow_with_task i d =
     (case (workflow_of i d, task_of i d) of (Some w, Some t) \<Rightarrow> Some (w, t) | _ \<Rightarrow> None)"

section \<open>Guards\<close>

definition valid_identity :: "rowid \<Rightarrow> int \<Rightarrow> bool" where
  "valid_identity i v \<longleftrightarrow> 1 \<le> i \<and> 1 \<le> v"

definition valid_secret :: "string \<Rightarrow> bool" where
  "valid_secret s \<longleftrightarrow> 32 \<le> length s \<and> length s \<le> 512 \<and> \<not> list_ex is_space s"

definition task_guard :: "task_row option \<Rightarrow> int \<Rightarrow> workflow_refusal option" where
  "task_guard row expected =
     (case row of
        None \<Rightarrow> Some WrNotFound
      | Some t \<Rightarrow> if tk_version t \<noteq> expected then Some WrStaleTask
                  else if tk_status t \<noteq> TaskOpen then Some WrInvalidState else None)"

definition workflow_guard :: "workflow_row option \<Rightarrow> int \<Rightarrow> workflow_status list
    \<Rightarrow> workflow_refusal option" where
  "workflow_guard row expected statuses =
     (case row of
        None \<Rightarrow> Some WrNotFound
      | Some w \<Rightarrow> if wf_version w \<noteq> expected then Some WrStaleWorkflow
                  else if wf_status w \<notin> set statuses then Some WrInvalidState else None)"

definition running_guard :: "workflow_row option \<Rightarrow> int \<Rightarrow> string \<Rightarrow> time \<Rightarrow> workflow_refusal option" where
  "running_guard row expected digest now =
     (case workflow_guard row expected [WfRunning] of
        Some ref \<Rightarrow> Some ref
      | None \<Rightarrow>
          (case row of
             None \<Rightarrow> None
           | Some w \<Rightarrow>
               if wf_claim_token_digest w \<noteq> Some digest then Some WrClaimMismatch
               else (case wf_claim_expires_at w of
                       None \<Rightarrow> Some WrInvalidState
                     | Some e \<Rightarrow> if e \<le> now then Some WrInvalidState else None)))"

section \<open>Ending a task from a card\<close>

record lifecycle_row_view =
  lv_task_id :: rowid
  lv_task_version :: int
  lv_workflow_version :: int
  lv_phase :: workflow_phase

text \<open>The claim columns and the failure columns that every settling \<open>UPDATE\<close> clears.\<close>

definition clear_claim :: "workflow_row \<Rightarrow> workflow_row" where
  "clear_claim w = w\<lparr>wf_claim_token_digest := None, wf_claimed_at := None,
     wf_claim_heartbeat_at := None, wf_claim_expires_at := None, wf_current_run_id := None\<rparr>"

definition clear_failure :: "workflow_row \<Rightarrow> workflow_row" where
  "clear_failure w = w\<lparr>wf_failure_count := 0, wf_last_failure_reason := None,
     wf_last_failure_exit_code := None, wf_last_failure_run_id := None, wf_last_failure_at := None,
     wf_next_attempt_at := None, wf_parked_at := None\<rparr>"

definition apply_review_lifecycle_action :: "lifecycle_row_view \<Rightarrow> string \<Rightarrow> time \<Rightarrow> db
    \<Rightarrow> exc + (workflow_result \<times> db)" where
  "apply_review_lifecycle_action row action now d =
     (let i = lv_task_id row;
          (transition, d1) = apply_task_transition i (lv_task_version row) action now d in
      if \<not> tr_accepted transition then Inr (wf_refused i WrStaleTask, d1)
      else
        let status = (if action = ''done'' then WfCompleted else WfCancelled);
            version = lv_workflow_version row + 1;
            task_version = the (tr_version transition) in
        rbind (update_workflows
            (\<lambda>w. wf_task_id w = i \<and> wf_version w = lv_workflow_version row)
            (\<lambda>w. (clear_failure (clear_claim w))\<lparr>wf_task_version := task_version, wf_status := status,
                wf_version := version, wf_due_at := None, wf_updated_at := now,
                wf_completed_at := Some now\<rparr>) d1)
          (\<lambda>(n, d2).
            if n \<noteq> 1 then Inr (wf_refused i WrStaleWorkflow, d2)
            else
              rbind (wf_event i (if action = ''done'' then ''task_completed'' else ''task_dropped'')
                  version task_version (lv_phase row) status now d2)
                (\<lambda>d3. Inr ((xr_blank WdApplied i)\<lparr>xr_version := Some version,
                    xr_status := Some status, xr_phase := Some (lv_phase row)\<rparr>, d3))))"

end
