(* ===== verification/ChangeReviews.thy ===== *)
theory ChangeReviews
  imports Workflows
begin

text \<open>
  \<open>change_reviews.py\<close>: the Keep/Undo card of an automatic change.  A change is recorded in the
  transaction that made it, leased to a consumer, delivered, and answered once.  Undo reopens the
  task, unless the task has moved since the change.
\<close>

section \<open>Results\<close>

datatype sched_disposition = SdApplied | SdUnchanged | SdRefused

datatype sched_refusal =
    SrInvalidArgument | SrInvalidRecommendation | SrNotFound | SrStaleTask | SrStaleWorkflow
  | SrInvalidState | SrLimitExceeded | SrCycle | SrDepthExceeded | SrManualPriority | SrStaleCard
  | SrUndoConflict | SrClaimMismatch

record card_action_result =
  ca_disposition :: sched_disposition
  ca_refusal :: "sched_refusal option"
  ca_card_id :: rowid
  ca_card_version :: "int option"

definition chg_result :: "sched_disposition \<Rightarrow> rowid \<Rightarrow> int option \<Rightarrow> sched_refusal option
    \<Rightarrow> card_action_result" where
  "chg_result disp i v ref = \<lparr>ca_disposition = disp, ca_refusal = ref, ca_card_id = i, ca_card_version = v\<rparr>"

definition ca_accepted :: "card_action_result \<Rightarrow> bool" where
  "ca_accepted r \<longleftrightarrow> ca_disposition r \<noteq> SdRefused"

record change_card =
  hc_card_id :: rowid
  hc_version :: int
  hc_task_id :: rowid
  hc_kind :: string
  hc_summary :: string
  hc_task_text :: string

record change_claim =
  hc_card :: change_card
  hc_token :: string
  hc_expires_at :: time

section \<open>Recording a change\<close>

definition CHANGE_KINDS :: "string list" where
  "CHANGE_KINDS = [''source_closed'']"

definition MAX_SUMMARY_CHARS :: nat where
  "MAX_SUMMARY_CHARS = 200"

definition record_change :: "string \<Rightarrow> rowid \<Rightarrow> change_snapshot \<Rightarrow> change_snapshot \<Rightarrow> string \<Rightarrow> time
    \<Rightarrow> db \<Rightarrow> exc + db" where
  "record_change kind i before after summary now d =
     (if kind \<notin> set CHANGE_KINDS then Inl (ValueError ''unknown automatic change kind'')
      else Inr (d\<lparr>change_reviews := change_reviews d @ [
        \<lparr>ar_id = next_id ar_id (change_reviews d), ar_kind = kind, ar_task_id = i,
         ar_before = before, ar_after = after, ar_summary = take MAX_SUMMARY_CHARS summary,
         ar_version = 1, ar_status = ChgPending, ar_claim_token_digest = None,
         ar_claim_expires_at = None, ar_consumer_digest = None, ar_transport = None,
         ar_delivery_ref = None, ar_resolved_at = None, ar_created_at = now,
         ar_updated_at = now\<rparr>]\<rparr>))"

section \<open>Delivery\<close>

abbreviation change_of :: "rowid \<Rightarrow> db \<Rightarrow> change_row option" where
  "change_of i d \<equiv> row_of ar_id i (change_reviews d)"

definition update_change :: "rowid \<Rightarrow> int \<Rightarrow> (change_row \<Rightarrow> change_row) \<Rightarrow> db \<Rightarrow> db" where
  "update_change i v f d = d\<lparr>change_reviews :=
     update_where (\<lambda>r. ar_id r = i \<and> ar_version r = v) f (change_reviews d)\<rparr>"

definition change_back :: "time \<Rightarrow> change_row \<Rightarrow> change_row" where
  "change_back now r = r\<lparr>ar_status := ChgPending, ar_version := ar_version r + 1,
     ar_claim_token_digest := None, ar_claim_expires_at := None, ar_consumer_digest := None,
     ar_updated_at := now\<rparr>"

text \<open>The rows of the expiry loop are read before it starts; \<open>_timestamp(None)\<close> raises.\<close>

definition expire_change :: "time \<Rightarrow> change_row \<Rightarrow> db \<Rightarrow> exc + db" where
  "expire_change now r d =
     (case ar_claim_expires_at r of
        None \<Rightarrow> Inl (ValueError ''Invalid isoformat string'')
      | Some e \<Rightarrow> Inr (if e \<le> now then update_change (ar_id r) (ar_version r) (change_back now) d else d))"

definition expire_changes :: "time \<Rightarrow> db \<Rightarrow> exc + db" where
  "expire_changes now d =
     each (expire_change now) (filter (\<lambda>r. ar_status r = ChgDelivering) (change_reviews d)) d"

text \<open>The oldest pending change whose task exists, with that task's text.\<close>

definition next_change :: "db \<Rightarrow> (change_row \<times> task_row) option" where
  "next_change d =
     (case [(r, t). r \<leftarrow> sort_key ar_id (change_reviews d), ar_status r = ChgPending,
                    t \<leftarrow> tasks d, tk_id t = ar_task_id r] of
        [] \<Rightarrow> None | x # _ \<Rightarrow> Some x)"

definition chg_claim_next :: "(string \<Rightarrow> string) \<Rightarrow> string \<Rightarrow> int \<Rightarrow> string \<Rightarrow> time \<Rightarrow> db
    \<Rightarrow> exc + (change_claim option \<times> db)" where
  "chg_claim_next sha consumer lease token now d =
     rbind (expire_changes now d) (\<lambda>d1.
       case next_change d1 of
         None \<Rightarrow> Inr (None, d1)
       | Some (r, t) \<Rightarrow>
           let version = ar_version r + 1;
               expires = now + lease;
               d2 = update_change (ar_id r) (ar_version r)
                 (\<lambda>x. x\<lparr>ar_status := ChgDelivering, ar_version := version,
                   ar_claim_token_digest := Some (sha token), ar_claim_expires_at := Some expires,
                   ar_consumer_digest := Some consumer, ar_updated_at := now\<rparr>) d1 in
           Inr (Some \<lparr>hc_card = \<lparr>hc_card_id = ar_id r, hc_version = version,
               hc_task_id = ar_task_id r, hc_kind = ar_kind r, hc_summary = ar_summary r,
               hc_task_text = tk_text t\<rparr>, hc_token = token, hc_expires_at = expires\<rparr>, d2))"

definition claim_refusal :: "(string \<Rightarrow> string) \<Rightarrow> change_row option \<Rightarrow> int \<Rightarrow> string \<Rightarrow> time
    \<Rightarrow> exc + sched_refusal option" where
  "claim_refusal sha row expected token now =
     (case row of
        None \<Rightarrow> Inr (Some SrNotFound)
      | Some r \<Rightarrow>
          if ar_version r \<noteq> expected then Inr (Some SrStaleCard)
          else if ar_status r \<noteq> ChgDelivering then Inr (Some SrInvalidState)
          else if ar_claim_token_digest r \<noteq> Some (sha token) then Inr (Some SrClaimMismatch)
          else (case ar_claim_expires_at r of
                  None \<Rightarrow> Inl (ValueError ''Invalid isoformat string'')
                | Some e \<Rightarrow> Inr (if e \<le> now then Some SrInvalidState else None)))"

text \<open>\<open>_finish_claim\<close>: \<open>delivered\<close> carries the transport and the reference.\<close>

definition finish_claim :: "(string \<Rightarrow> string) \<Rightarrow> rowid \<Rightarrow> int \<Rightarrow> string \<Rightarrow> (string \<times> string) option
    \<Rightarrow> time \<Rightarrow> db \<Rightarrow> exc + (card_action_result \<times> db)" where
  "finish_claim sha i expected token delivered now d =
     (if delivered \<noteq> None \<and> (case change_of i d of None \<Rightarrow> False
          | Some r \<Rightarrow> ar_status r = ChgDelivered \<and> ar_version r = expected)
      then Inr (chg_result SdUnchanged i (Some expected) None, d)
      else
        rbind (claim_refusal sha (change_of i d) expected token now) (\<lambda>refusal.
          case refusal of
            Some ref \<Rightarrow> Inr (chg_result SdRefused i None (Some ref), d)
          | None \<Rightarrow>
              (case delivered of
                 Some (transport, ref) \<Rightarrow>
                   Inr (chg_result SdApplied i (Some expected) None,
                     update_change i expected (\<lambda>r. r\<lparr>ar_status := ChgDelivered,
                       ar_claim_token_digest := None, ar_claim_expires_at := None,
                       ar_transport := Some transport, ar_delivery_ref := Some ref,
                       ar_updated_at := now\<rparr>) d)
               | None \<Rightarrow>
                   Inr (chg_result SdApplied i (Some (expected + 1)) None,
                     update_change i expected (change_back now) d))))"

definition chg_complete_delivery :: "(string \<Rightarrow> string) \<Rightarrow> rowid \<Rightarrow> int \<Rightarrow> string \<Rightarrow> string \<Rightarrow> string
    \<Rightarrow> time \<Rightarrow> db \<Rightarrow> exc + (card_action_result \<times> db)" where
  "chg_complete_delivery sha i expected token transport ref =
     finish_claim sha i expected token (Some (transport, ref))"

definition chg_fail_delivery :: "(string \<Rightarrow> string) \<Rightarrow> rowid \<Rightarrow> int \<Rightarrow> string \<Rightarrow> time \<Rightarrow> db
    \<Rightarrow> exc + (card_action_result \<times> db)" where
  "chg_fail_delivery sha i expected token = finish_claim sha i expected token None"

section \<open>The answer\<close>

definition undo_change :: "change_row \<Rightarrow> time \<Rightarrow> db \<Rightarrow> sched_refusal option \<times> db" where
  "undo_change r now d =
     (case task_of (ar_task_id r) d of
        None \<Rightarrow> (Some SrNotFound, d)
      | Some t \<Rightarrow>
          if tk_version t \<noteq> fst (cs_task (ar_after r)) then (Some SrUndoConflict, d)
          else
            let (transition, d1) = apply_task_transition (ar_task_id r) (tk_version t) ''reopen'' now d in
            (if tr_accepted transition then None else Some SrUndoConflict, d1))"

definition chg_act :: "rowid \<Rightarrow> int \<Rightarrow> string \<Rightarrow> time \<Rightarrow> db \<Rightarrow> card_action_result \<times> db" where
  "chg_act i expected action now d =
     (let refuse = (\<lambda>ref. (chg_result SdRefused i None (Some ref), d)) in
      if action \<notin> {''keep'', ''undo''} then refuse SrInvalidArgument
      else
        case change_of i d of
          None \<Rightarrow> refuse SrNotFound
        | Some r \<Rightarrow>
            if ar_version r \<noteq> expected then refuse SrStaleCard
            else if ar_status r \<noteq> ChgDelivered then refuse SrInvalidState
            else
              let (refusal, d1) = (if action = ''undo'' then undo_change r now d else (None, d)) in
              case refusal of
                Some ref \<Rightarrow> refuse ref
              | None \<Rightarrow>
                  (chg_result SdApplied i (Some (expected + 1)) None,
                   update_change i expected (\<lambda>x. x\<lparr>
                     ar_status := (if action = ''keep'' then ChgKept else ChgUndone),
                     ar_version := expected + 1, ar_resolved_at := Some now,
                     ar_updated_at := now\<rparr>) d1))"

section \<open>What an operation may do to a change\<close>

definition change_closed :: "change_row \<Rightarrow> bool" where
  "change_closed r \<longleftrightarrow> ar_status r \<in> {ChgKept, ChgUndone}"

text \<open>What happened is fixed, the version never goes down and an answer is final.\<close>

definition change_evolves :: "change_row \<Rightarrow> change_row \<Rightarrow> bool" where
  "change_evolves r r' \<longleftrightarrow> ar_id r' = ar_id r \<and> ar_kind r' = ar_kind r
     \<and> ar_task_id r' = ar_task_id r \<and> ar_before r' = ar_before r \<and> ar_after r' = ar_after r
     \<and> ar_summary r' = ar_summary r \<and> ar_created_at r' = ar_created_at r
     \<and> ar_version r \<le> ar_version r' \<and> (change_closed r \<longrightarrow> r' = r)"

lemma change_evolves_refl [simp]: "change_evolves r r"
  by (simp add: change_evolves_def)

lemma change_evolves_trans: "change_evolves a b \<Longrightarrow> change_evolves b c \<Longrightarrow> change_evolves a c"
  by (auto simp: change_evolves_def)

definition changes_evolve :: "db \<Rightarrow> db \<Rightarrow> bool" where
  "changes_evolve d d' \<longleftrightarrow> list_all2 change_evolves (change_reviews d) (change_reviews d')"

lemma changes_evolve_refl [simp]: "changes_evolve d d"
  by (simp add: changes_evolve_def list_all2_refl)

lemma changes_evolve_trans: "changes_evolve a b \<Longrightarrow> changes_evolve b c \<Longrightarrow> changes_evolve a c"
  unfolding changes_evolve_def
  by (rule list_all2_trans [of change_evolves change_evolves change_evolves]) (rule change_evolves_trans)

lemma changes_evolve_same: "change_reviews d' = change_reviews d \<Longrightarrow> changes_evolve d d'"
  by (simp add: changes_evolve_def list_all2_refl)

lemma changes_evolve_update:
  assumes "\<And>r. r \<in> set (change_reviews d) \<Longrightarrow> ar_id r = i \<Longrightarrow> ar_version r = v \<Longrightarrow> change_evolves r (f r)"
  shows "changes_evolve d (update_change i v f d)"
  unfolding changes_evolve_def update_change_def using assms
  by (simp add: update_where_def list_all2_map2 list_all2_same)

text \<open>Ids are unique and a leased change carries its lease.\<close>

definition change_ok :: "change_row \<Rightarrow> bool" where
  "change_ok r \<longleftrightarrow> 1 \<le> ar_version r \<and> (ar_status r = ChgDelivering \<longrightarrow> ar_claim_expires_at r \<noteq> None)"

definition changes_inv :: "db \<Rightarrow> bool" where
  "changes_inv d \<longleftrightarrow> unique_key ar_id (change_reviews d) \<and> list_all change_ok (change_reviews d)"

lemma changes_invD:
  assumes "changes_inv d"
  shows "unique_key ar_id (change_reviews d)" and "r \<in> set (change_reviews d) \<Longrightarrow> change_ok r"
  using assms by (auto simp: changes_inv_def list_all_iff)

lemma touches_changes_trans:
  assumes "d1 = d\<lparr>change_reviews := change_reviews d1\<rparr>" and "d2 = d1\<lparr>change_reviews := x\<rparr>"
  shows "d2 = d\<lparr>change_reviews := x\<rparr>"
proof -
  have "d1\<lparr>change_reviews := x\<rparr> = d\<lparr>change_reviews := change_reviews d1\<rparr>\<lparr>change_reviews := x\<rparr>"
    using assms(1) by (rule arg_cong)
  then show ?thesis using assms(2) by simp
qed

lemma changes_row_unique:
  "changes_inv d \<Longrightarrow> x \<in> set (change_reviews d) \<Longrightarrow> r \<in> set (change_reviews d) \<Longrightarrow> ar_id x = ar_id r \<Longrightarrow> x = r"
  using row_of_unique [of ar_id "change_reviews d" "ar_id r" x]
    row_of_unique [of ar_id "change_reviews d" "ar_id r" r]
  by (auto dest: changes_invD(1))

lemma changes_inv_same: "change_reviews d' = change_reviews d \<Longrightarrow> changes_inv d' = changes_inv d"
  by (simp add: changes_inv_def)

lemma changes_inv_update:
  assumes "changes_inv d" and "\<And>r. ar_id (f r) = ar_id r"
    and "\<And>r. change_ok r \<Longrightarrow> ar_version r = v \<Longrightarrow> change_ok (f r)"
  shows "changes_inv (update_change i v f d)"
  using assms by (auto simp: changes_inv_def update_change_def unique_key_update list_all_iff set_update_where)

lemma update_change_frame [simp]:
  "tasks (update_change i v f d) = tasks d" "work_items (update_change i v f d) = work_items d"
  "task_events (update_change i v f d) = task_events d" "workflows (update_change i v f d) = workflows d"
  "bindings (update_change i v f d) = bindings d"
  by (simp_all add: update_change_def)

lemma change_of_update:
  assumes "\<And>r. ar_id (f r) = ar_id r"
  shows "change_of k (update_change i v f d)
    = map_option (\<lambda>r. if ar_id r = i \<and> ar_version r = v then f r else r) (change_of k d)"
  using assms by (simp add: update_change_def find_update_where)

lemma change_of_evolve:
  assumes "changes_evolve d d'" and "change_of k d = Some r"
  obtains r' where "change_of k d' = Some r'" "change_evolves r r'"
proof -
  have "\<exists>r'. row_of ar_id k ys = Some r' \<and> change_evolves r r'"
    if "list_all2 change_evolves xs ys" "row_of ar_id k xs = Some r" for xs ys
    using that by (induction rule: list_all2_induct) (auto simp: change_evolves_def split: if_splits)
  with assms that show thesis by (auto simp: changes_evolve_def)
qed

text \<open>
  The expiry loop.  Its rows were read before it ran, but a row it meets again at the version it
  read is one that nothing has closed.
\<close>

definition open_at_read :: "change_row list \<Rightarrow> db \<Rightarrow> bool" where
  "open_at_read rs d \<longleftrightarrow> (\<forall>r \<in> set rs. \<forall>x \<in> set (change_reviews d).
     ar_id x = ar_id r \<and> ar_version x = ar_version r \<longrightarrow> \<not> change_closed x)"

lemma change_back_evolves: "\<not> change_closed x \<Longrightarrow> change_evolves x (change_back now x)"
  by (simp add: change_evolves_def change_back_def)

lemma expire_loop:
  assumes "each (expire_change now) rs d = Inr d'" and "changes_inv d" and "open_at_read rs d"
  shows "d' = d\<lparr>change_reviews := change_reviews d'\<rparr> \<and> changes_inv d' \<and> changes_evolve d d'"
  using assms
proof (induction rs arbitrary: d)
  case (Cons r rs)
  then obtain d1 where d1: "expire_change now r d = Inr d1" "each (expire_change now) rs d1 = Inr d'"
    by (auto simp: rbind_Inr_iff)
  then have d1_def: "d1 = d \<or> d1 = update_change (ar_id r) (ar_version r) (change_back now) d"
    by (auto simp: expire_change_def split: option.splits if_splits)
  have 1: "changes_inv d1"
    using d1_def Cons.prems(2) by (auto intro!: changes_inv_update simp: change_back_def change_ok_def)
  have 2: "changes_evolve d d1"
    using d1_def Cons.prems(3)
    by (auto simp: open_at_read_def intro!: changes_evolve_update change_back_evolves)
  have 3: "open_at_read rs d1"
    using d1_def Cons.prems(3)
    by (auto simp: open_at_read_def update_change_def set_update_where change_back_def change_closed_def)
  have 4: "d1 = d\<lparr>change_reviews := change_reviews d1\<rparr>"
    using d1_def by (auto simp: update_change_def)
  note IH = Cons.IH [OF d1(2) 1 3]
  show ?case using IH changes_evolve_trans [OF 2, of d'] touches_changes_trans [OF 4] by blast
qed simp

lemma expire_changes_keeps:
  assumes "expire_changes now d = Inr d'" and "changes_inv d"
  shows "d' = d\<lparr>change_reviews := change_reviews d'\<rparr> \<and> changes_inv d' \<and> changes_evolve d d'"
proof (rule expire_loop)
  show "each (expire_change now) (filter (\<lambda>r. ar_status r = ChgDelivering) (change_reviews d)) d = Inr d'"
    using assms(1) by (simp add: expire_changes_def)
  show "open_at_read (filter (\<lambda>r. ar_status r = ChgDelivering) (change_reviews d)) d"
    unfolding open_at_read_def
  proof (intro ballI impI)
    fix r x
    assume r: "r \<in> set (filter (\<lambda>r. ar_status r = ChgDelivering) (change_reviews d))"
      and x: "x \<in> set (change_reviews d)" and eq: "ar_id x = ar_id r \<and> ar_version x = ar_version r"
    have "x = r"
      using changes_row_unique [OF assms(2) x, of r] r eq by simp
    then show "\<not> change_closed x" using r by (simp add: change_closed_def)
  qed
qed (rule assms(2))

section \<open>Every operation\<close>

lemma update_found:
  assumes "changes_inv d" and "r \<in> set (change_reviews d)" and "\<not> change_closed r"
    and "change_evolves r (f r)"
  shows "changes_evolve d (update_change (ar_id r) (ar_version r) f d)"
proof (rule changes_evolve_update)
  fix x assume "x \<in> set (change_reviews d)" "ar_id x = ar_id r"
  then have "x = r" using changes_row_unique [OF assms(1), of x r] assms(2) by simp
  then show "change_evolves x (f x)" using assms(4) by simp
qed

lemma change_of_mem: "change_of i d = Some r \<Longrightarrow> r \<in> set (change_reviews d) \<and> ar_id r = i"
  by (rule find_SomeD)

lemma next_change_mem:
  assumes "next_change d = Some (r, t)"
  shows "r \<in> set (change_reviews d) \<and> ar_status r = ChgPending \<and> t \<in> set (tasks d) \<and> tk_id t = ar_task_id r"
  using hd_row_mem [OF assms [unfolded next_change_def]] by (auto simp: set_concat)

lemma chg_claim_keeps:
  assumes "chg_claim_next sha consumer lease token now d = Inr (c, d')" and "changes_inv d"
  shows "d' = d\<lparr>change_reviews := change_reviews d'\<rparr> \<and> changes_inv d' \<and> changes_evolve d d'"
proof -
  obtain d1 where d1: "expire_changes now d = Inr d1"
    using assms(1) by (auto simp: chg_claim_next_def rbind_Inr_iff)
  note k = expire_changes_keeps [OF d1 assms(2)]
  show ?thesis
  proof (cases "next_change d1")
    case None
    then show ?thesis using assms(1) d1 k by (simp add: chg_claim_next_def)
  next
    case (Some rt)
    obtain r t where rt: "rt = (r, t)" by (cases rt)
    let ?f = "\<lambda>x. x\<lparr>ar_status := ChgDelivering, ar_version := ar_version r + 1,
       ar_claim_token_digest := Some (sha token), ar_claim_expires_at := Some (now + lease),
       ar_consumer_digest := Some consumer, ar_updated_at := now\<rparr>"
    have d': "d' = update_change (ar_id r) (ar_version r) ?f d1"
      using assms(1) d1 Some by (simp add: chg_claim_next_def Let_def rt)
    have r: "r \<in> set (change_reviews d1)" "ar_status r = ChgPending"
      using next_change_mem Some rt by auto
    have "changes_evolve d1 d'" unfolding d'
      by (rule update_found) (use k r in \<open>auto simp: change_evolves_def change_closed_def\<close>)
    moreover have "changes_inv d'" unfolding d'
      by (rule changes_inv_update) (use k in \<open>auto simp: change_ok_def\<close>)
    moreover have "d' = d1\<lparr>change_reviews := change_reviews d'\<rparr>" by (simp add: d' update_change_def)
    moreover note touches_changes_trans [of d1 d d']
    ultimately show ?thesis using k changes_evolve_trans [of d d1 d'] by blast
  qed
qed

lemma finish_claim_keeps:
  assumes "finish_claim sha i expected token delivered now d = Inr (c, d')" and "changes_inv d"
  shows "d' = d\<lparr>change_reviews := change_reviews d'\<rparr> \<and> changes_inv d' \<and> changes_evolve d d'"
proof (cases "d' = d")
  case True
  then show ?thesis using assms(2) by simp
next
  case False
  then obtain r where r: "change_of i d = Some r" "ar_version r = expected" "ar_status r = ChgDelivering"
    and d': "d' = update_change i expected (change_back now) d \<or> (\<exists>transport ref. d' =
      update_change i expected (\<lambda>r. r\<lparr>ar_status := ChgDelivered, ar_claim_token_digest := None,
        ar_claim_expires_at := None, ar_transport := Some transport, ar_delivery_ref := Some ref,
        ar_updated_at := now\<rparr>) d)"
    using assms(1)
    by (cases "change_of i d") (auto simp: finish_claim_def claim_refusal_def split: if_splits option.splits prod.splits)
  have m: "r \<in> set (change_reviews d)" "ar_id r = i" using change_of_mem [OF r(1)] by auto
  have "changes_evolve d d'"
    using d'
  proof (elim disjE exE)
    assume "d' = update_change i expected (change_back now) d"
    then show ?thesis
      using update_found [OF assms(2) m(1), of "change_back now"] r m
      by (simp add: change_closed_def change_back_evolves)
  next
    fix transport ref
    let ?f = "\<lambda>r. r\<lparr>ar_status := ChgDelivered, ar_claim_token_digest := None,
        ar_claim_expires_at := None, ar_transport := Some transport, ar_delivery_ref := Some ref,
        ar_updated_at := now\<rparr>"
    assume "d' = update_change i expected ?f d"
    then show ?thesis
      using update_found [OF assms(2) m(1), of ?f] r m by (simp add: change_closed_def change_evolves_def)
  qed
  moreover have "changes_inv d'"
    using d' assms(2) by (auto intro!: changes_inv_update simp: change_back_def change_ok_def)
  moreover have "d' = d\<lparr>change_reviews := change_reviews d'\<rparr>"
    using d' by (auto simp: update_change_def)
  ultimately show ?thesis by blast
qed

text \<open>The answer.\<close>

definition answered :: "string \<Rightarrow> time \<Rightarrow> int \<Rightarrow> change_row \<Rightarrow> change_row" where
  "answered action now expected x = x\<lparr>
     ar_status := (if action = ''keep'' then ChgKept else ChgUndone),
     ar_version := expected + 1, ar_resolved_at := Some now, ar_updated_at := now\<rparr>"

lemma change_reviews_transition_effect [simp]:
  "change_reviews (transition_effect i row target now d) = change_reviews d"
  by (simp add: transition_effect_def insert_task_event_def set_work_state_def)

lemma undo_change_cases:
  assumes "unique_key tk_id (tasks d)"
  obtains (undone) t where "task_of (ar_task_id r) d = Some t" "tk_version t = fst (cs_task (ar_after r))"
      "tk_status t \<noteq> TaskOpen"
      "undo_change r now d = (None, transition_effect (ar_task_id r) t TaskOpen now d)"
  | (refused) ref where "undo_change r now d = (Some ref, d)"
      "task_of (ar_task_id r) d = None \<and> ref = SrNotFound
        \<or> (\<exists>t. task_of (ar_task_id r) d = Some t \<and> ref = SrUndoConflict
            \<and> (tk_version t \<noteq> fst (cs_task (ar_after r)) \<or> tk_status t = TaskOpen))"
proof (cases "task_of (ar_task_id r) d")
  case None
  then show thesis using refused [of SrNotFound] by (simp add: undo_change_def)
next
  case (Some t)
  show thesis
  proof (cases "tk_version t = fst (cs_task (ar_after r))")
    case False
    then show thesis using Some refused [of SrUndoConflict] by (simp add: undo_change_def)
  next
    case True
    show thesis
    proof (cases "tk_status t = TaskOpen")
      case closed: False
      have "apply_task_transition (ar_task_id r) (tk_version t) ''reopen'' now d =
        (\<lparr>tr_disposition = TrApplied, tr_task_id = ar_task_id r, tr_version = Some (tk_version t + 1),
          tr_status = Some TaskOpen, tr_refusal = None\<rparr>, transition_effect (ar_task_id r) t TaskOpen now d)"
        by (rule apply_transition_Some [OF assms Some, of _ "[TaskDone, TaskDropped]"])
          (use closed in \<open>cases "tk_status t"; simp add: targets_def\<close>)+
      then show thesis using Some True closed undone [of t] by (simp add: undo_change_def Let_def)
    next
      case op: True
      have "apply_task_transition (ar_task_id r) (tk_version t) ''reopen'' now d
          = (tr_refuse (ar_task_id r) (Some (tk_version t)) (Some TaskOpen) TrInvalidState, d)"
        using Some op by (simp add: apply_task_transition_def targets_def Let_def)
      then show thesis
        using Some True op refused [of SrUndoConflict]
        by (simp add: undo_change_def Let_def tr_refuse_def tr_accepted_def)
    qed
  qed
qed

lemma chg_act_cases:
  assumes "unique_key tk_id (tasks d)"
  obtains (kept) r where "change_of i d = Some r" "ar_version r = expected" "ar_status r = ChgDelivered"
      "action = ''keep''"
      "chg_act i expected action now d = (chg_result SdApplied i (Some (expected + 1)) None,
         update_change i expected (answered action now expected) d)"
  | (undone) r t where "change_of i d = Some r" "ar_version r = expected" "ar_status r = ChgDelivered"
      "action = ''undo''" "task_of (ar_task_id r) d = Some t"
      "tk_version t = fst (cs_task (ar_after r))" "tk_status t \<noteq> TaskOpen"
      "chg_act i expected action now d = (chg_result SdApplied i (Some (expected + 1)) None,
         update_change i expected (answered action now expected)
           (transition_effect (ar_task_id r) t TaskOpen now d))"
  | (refused) ref where "chg_act i expected action now d = (chg_result SdRefused i None (Some ref), d)"
      "\<not> (action = ''keep'' \<and> (\<exists>r. change_of i d = Some r \<and> ar_version r = expected \<and> ar_status r = ChgDelivered))"
      "\<not> (action = ''undo'' \<and> (\<exists>r t. change_of i d = Some r \<and> ar_version r = expected
           \<and> ar_status r = ChgDelivered \<and> task_of (ar_task_id r) d = Some t
           \<and> tk_version t = fst (cs_task (ar_after r)) \<and> tk_status t \<noteq> TaskOpen))"
proof (cases "action \<in> {''keep'', ''undo''} \<and> (\<exists>r. change_of i d = Some r \<and> ar_version r = expected
    \<and> ar_status r = ChgDelivered)")
  case False
  have "\<exists>ref. chg_act i expected action now d = (chg_result SdRefused i None (Some ref), d)"
    using False by (auto simp: chg_act_def Let_def split: option.splits)
  then show thesis using False refused by blast
next
  case True
  then obtain r where r: "change_of i d = Some r" "ar_version r = expected" "ar_status r = ChgDelivered"
    and a: "action = ''keep'' \<or> action = ''undo''" by auto
  show thesis
  proof (cases "action = ''keep''")
    case keep: True
    then show thesis using r kept [of r] by (simp add: chg_act_def answered_def [abs_def])
  next
    case False
    with a have a: "action = ''undo''" by simp
    show thesis
    proof (rule undo_change_cases [OF assms, of r now])
      fix t assume h: "task_of (ar_task_id r) d = Some t" "tk_version t = fst (cs_task (ar_after r))"
        "tk_status t \<noteq> TaskOpen"
        "undo_change r now d = (None, transition_effect (ar_task_id r) t TaskOpen now d)"
      then show thesis using r a undone [of r t] by (simp add: chg_act_def answered_def [abs_def])
    next
      fix ref assume h: "undo_change r now d = (Some ref, d)"
        "task_of (ar_task_id r) d = None \<and> ref = SrNotFound
        \<or> (\<exists>t. task_of (ar_task_id r) d = Some t \<and> ref = SrUndoConflict
            \<and> (tk_version t \<noteq> fst (cs_task (ar_after r)) \<or> tk_status t = TaskOpen))"
      have "chg_act i expected action now d = (chg_result SdRefused i None (Some ref), d)"
        using r a h(1) by (simp add: chg_act_def)
      then show thesis by (rule refused) (use a r(1) h(2) in auto)
    qed
  qed
qed

lemma changes_evolve_answer:
  assumes "changes_inv d0" and "change_reviews d = change_reviews d0" and "change_of i d0 = Some r"
    and "ar_version r = expected" and "ar_status r = ChgDelivered"
  shows "changes_evolve d0 (update_change i expected (answered action now expected) d)
    \<and> changes_inv (update_change i expected (answered action now expected) d)"
proof -
  have inv: "changes_inv d" using assms(1,2) by (simp add: changes_inv_def)
  have m: "r \<in> set (change_reviews d)" "ar_id r = i" using change_of_mem [OF assms(3)] assms(2) by auto
  have "changes_evolve d (update_change (ar_id r) (ar_version r) (answered action now expected) d)"
    by (rule update_found [OF inv m(1)])
      (use assms(4,5) in \<open>simp_all add: change_closed_def change_evolves_def answered_def\<close>)
  moreover have "changes_inv (update_change i expected (answered action now expected) d)"
    by (rule changes_inv_update [OF inv]) (auto simp: answered_def change_ok_def)
  ultimately show ?thesis using m(2) assms(2,4) by (simp add: changes_evolve_def)
qed

lemma chg_act_keeps:
  assumes "changes_inv d" and "ledger_inv d"
  shows "changes_evolve d (snd (chg_act i expected action now d))
    \<and> changes_inv (snd (chg_act i expected action now d))
    \<and> ledger_inv (snd (chg_act i expected action now d))"
proof (rule chg_act_cases [OF ledger_invD(1) [OF assms(2)], of i expected action now])
  fix r assume h: "change_of i d = Some r" "ar_version r = expected" "ar_status r = ChgDelivered"
    "chg_act i expected action now d = (chg_result SdApplied i (Some (expected + 1)) None,
       update_change i expected (answered action now expected) d)"
  show ?thesis
    using changes_evolve_answer [OF assms(1) refl h(1-3), of action now] h(4) assms(2) by (simp add: ledger_inv_def)
next
  fix r t assume h: "change_of i d = Some r" "ar_version r = expected" "ar_status r = ChgDelivered"
    "task_of (ar_task_id r) d = Some t"
    "chg_act i expected action now d = (chg_result SdApplied i (Some (expected + 1)) None,
       update_change i expected (answered action now expected) (transition_effect (ar_task_id r) t TaskOpen now d))"
  show ?thesis
    using changes_evolve_answer [OF assms(1) change_reviews_transition_effect h(1-3), of action now]
      ledger_inv_transition_effect [OF assms(2) h(4)] h(5)
    by (simp add: ledger_inv_def)
next
  fix ref assume "chg_act i expected action now d = (chg_result SdRefused i None (Some ref), d)"
  then show ?thesis using assms by simp
qed

section \<open>Requests\<close>

datatype change_request =
    ChgClaim string int string time
  | ChgComplete rowid int string string string time
  | ChgFail rowid int string time
  | ChgAnswer rowid int string time

datatype change_reply = RepClaim "exc + change_claim option" | RepResult "exc + card_action_result"

fun change_step :: "(string \<Rightarrow> string) \<Rightarrow> change_request \<Rightarrow> db \<Rightarrow> change_reply \<times> db" where
  "change_step sha (ChgClaim consumer lease token now) d =
     map_prod RepClaim id (run_tx (chg_claim_next sha consumer lease token now) d)"
| "change_step sha (ChgComplete i v token transport ref now) d =
     map_prod RepResult id (run_tx (chg_complete_delivery sha i v token transport ref now) d)"
| "change_step sha (ChgFail i v token now) d =
     map_prod RepResult id (run_tx (chg_fail_delivery sha i v token now) d)"
| "change_step sha (ChgAnswer i v action now) d =
     map_prod (RepResult \<circ> Inr) id (chg_act i v action now d)"

fun answers :: "change_request \<Rightarrow> rowid option" where
  "answers (ChgAnswer i v action now) = Some i"
| "answers _ = None"

fun reply_ok :: "change_reply \<Rightarrow> bool" where
  "reply_ok (RepResult (Inr r)) = ca_accepted r"
| "reply_ok _ = False"

lemma ledger_inv_changes [simp]: "ledger_inv (d\<lparr>change_reviews := x\<rparr>) = ledger_inv d"
  by (simp add: ledger_inv_def)

definition changes_ledger_inv :: "db \<Rightarrow> bool" where
  "changes_ledger_inv d \<longleftrightarrow> changes_inv d \<and> ledger_inv d"

lemma run_tx_keeps:
  assumes "\<And>x d'. h d = Inr (x, d') \<Longrightarrow> R d d'" and "R d d"
  shows "R d (snd (run_tx h d))"
  using assms by (auto simp: run_tx_def split: sum.splits)

lemma change_step_keeps:
  assumes "changes_ledger_inv d"
  shows "changes_evolve d (snd (change_step sha req d)) \<and> changes_ledger_inv (snd (change_step sha req d))"
proof -
  note inv = assms [unfolded changes_ledger_inv_def]
  let ?R = "\<lambda>d d'. changes_evolve d d' \<and> changes_ledger_inv d'"
  have touch: "?R d d'" if "d' = d\<lparr>change_reviews := change_reviews d'\<rparr> \<and> changes_inv d' \<and> changes_evolve d d'" for d'
  proof -
    have "ledger_inv d'" using inv by (subst that [THEN conjunct1]) simp
    then show ?thesis using that [THEN conjunct2] by (simp add: changes_ledger_inv_def)
  qed
  have refl: "?R d d" using assms by simp
  show ?thesis
  proof (cases req)
    case (ChgClaim consumer lease token now)
    have "?R d (snd (run_tx (chg_claim_next sha consumer lease token now) d))"
      by (rule run_tx_keeps [of _ d ?R, OF touch refl]) (rule chg_claim_keeps [OF _ inv [THEN conjunct1]])
    then show ?thesis by (simp add: ChgClaim)
  next
    case (ChgComplete i v token transport ref now)
    have "?R d (snd (run_tx (chg_complete_delivery sha i v token transport ref now) d))"
      by (rule run_tx_keeps [of _ d ?R, OF touch refl])
        (rule finish_claim_keeps [OF _ inv [THEN conjunct1]], simp add: chg_complete_delivery_def)
    then show ?thesis by (simp add: ChgComplete)
  next
    case (ChgFail i v token now)
    have "?R d (snd (run_tx (chg_fail_delivery sha i v token now) d))"
      by (rule run_tx_keeps [of _ d ?R, OF touch refl])
        (rule finish_claim_keeps [OF _ inv [THEN conjunct1]], simp add: chg_fail_delivery_def)
    then show ?thesis by (simp add: ChgFail)
  next
    case (ChgAnswer i v action now)
    show ?thesis using chg_act_keeps [OF inv [THEN conjunct1] inv [THEN conjunct2], of i v action now]
      by (simp add: ChgAnswer changes_ledger_inv_def)
  qed
qed

text \<open>A closed change stays closed and no later answer to it is accepted.\<close>

lemma closed_change_refuses:
  assumes "changes_ledger_inv d" and "change_of i d = Some r" and "change_closed r"
  shows "answers req = Some i \<Longrightarrow> \<not> reply_ok (fst (change_step sha req d))"
    and "change_of i (snd (change_step sha req d)) = Some r"
proof -
  show "change_of i (snd (change_step sha req d)) = Some r"
    using change_step_keeps [OF assms(1), of sha req] change_of_evolve [OF _ assms(2)] assms(3)
    by (metis change_evolves_def)
  assume "answers req = Some i"
  then obtain v action now where req: "req = ChgAnswer i v action now" by (cases req) auto
  show "\<not> reply_ok (fst (change_step sha req d))"
    using assms(2,3) by (auto simp: req chg_act_def Let_def chg_result_def ca_accepted_def change_closed_def)
qed

lemma accepted_answer_closes:
  assumes "changes_ledger_inv d" and "answers req = Some i" and "reply_ok (fst (change_step sha req d))"
  shows "\<exists>r. change_of i (snd (change_step sha req d)) = Some r \<and> change_closed r"
proof -
  obtain v action now where req: "req = ChgAnswer i v action now" using assms(2) by (cases req) auto
  have inv: "unique_key tk_id (tasks d)" using assms(1) by (auto simp: changes_ledger_inv_def ledger_inv_def)
  have closed: "\<exists>x. change_of i (update_change i v (answered action now v) d1) = Some x \<and> change_closed x"
    if "change_reviews d1 = change_reviews d" "change_of i d = Some r" "ar_version r = v" for d1 r
  proof -
    have "change_of i d1 = Some r" using that by simp
    then show ?thesis using row_of_key [OF that(2)] that(3)
      by (simp add: change_of_update answered_def change_closed_def)
  qed
  show ?thesis
    by (rule chg_act_cases [OF inv, of i v action now])
      (use assms(3) closed [OF refl] closed [OF change_reviews_transition_effect] in
        \<open>auto simp: req chg_result_def ca_accepted_def\<close>)
qed

definition change_answered :: "rowid \<Rightarrow> db \<Rightarrow> bool" where
  "change_answered i d \<longleftrightarrow> (\<exists>r. change_of i d = Some r \<and> change_closed r)"

interpretation change_questions: once_op "change_step sha" reply_ok answers change_answered changes_ledger_inv for sha
proof unfold_locales
  fix d r k assume inv: "changes_ledger_inv d"
  show "changes_ledger_inv (snd (change_step sha r d))" using change_step_keeps [OF inv] by blast
  show "answers r = Some k \<Longrightarrow> reply_ok (fst (change_step sha r d)) \<Longrightarrow> change_answered k (snd (change_step sha r d))"
    using accepted_answer_closes [OF inv] by (simp add: change_answered_def)
  show "change_answered k d \<Longrightarrow> change_answered k (snd (change_step sha r d))"
    using closed_change_refuses(2) [OF inv] by (auto simp: change_answered_def)
  show "answers r = Some k \<Longrightarrow> change_answered k d \<Longrightarrow> \<not> reply_ok (fst (change_step sha r d))"
    using closed_change_refuses(1) [OF inv] by (auto simp: change_answered_def)
qed

text \<open>C24: A Keep/Undo card is answered once.  In any sequence of claims, delivery reports and
  answers, at most one answer to a change is accepted, whatever the version it names.\<close>

theorem changes_are_answered_once:
  assumes "changes_ledger_inv d" and "m < n" and "n < length reqs"
    and "answers (reqs ! m) = Some i" and "answers (reqs ! n) = Some i"
    and "reply_ok (fst (run_ops (change_step sha) reqs d) ! m)"
  shows "\<not> reply_ok (fst (run_ops (change_step sha) reqs d) ! n)"
  by (rule change_questions.accepted_at_most_once [OF assms])

definition sample_change :: change_row where
  "sample_change = \<lparr>ar_id = 1, ar_kind = ''source_closed'', ar_task_id = 3,
     ar_before = \<lparr>cs_task = (1, TaskOpen), cs_workflow = None\<rparr>,
     ar_after = \<lparr>cs_task = (2, TaskDropped), cs_workflow = None\<rparr>,
     ar_summary = ''Issue #7 was closed as not planned'', ar_version = 2, ar_status = ChgDelivered,
     ar_claim_token_digest = None, ar_claim_expires_at = None, ar_consumer_digest = Some ''c'',
     ar_transport = Some ''t'', ar_delivery_ref = Some ''m'', ar_resolved_at = None,
     ar_created_at = 0, ar_updated_at = 0\<rparr>"

definition sample_changes :: db where
  "sample_changes = sample_ledger\<lparr>change_reviews := [sample_change]\<rparr>"

lemma sample_changes_ok: "changes_ledger_inv sample_changes" "ledger_inv sample_changes"
  by code_simp+

theorem changes_are_answered_once_witness:
  "\<not> reply_ok (fst (run_ops (change_step id)
     [ChgAnswer 1 2 ''undo'' 5, ChgAnswer 1 3 ''keep'' 6] sample_changes) ! 1)"
  by (rule changes_are_answered_once [OF sample_changes_ok(1), of 0 1 _ 1]) (simp, simp, simp, simp, code_simp)

text \<open>C27: Undo takes back exactly what the automatic change did.  It is accepted exactly when the
  change is delivered at the version named and its task is still closed at the version the change
  left; the task is then open again at the next version, and a refused undo writes nothing.\<close>

theorem undo_reopens_an_unmoved_task:
  assumes "ledger_inv d" and "chg_act i v ''undo'' now d = (r, d')"
  shows "(ca_accepted r \<longleftrightarrow> (\<exists>c t. change_of i d = Some c \<and> ar_version c = v \<and> ar_status c = ChgDelivered
        \<and> task_of (ar_task_id c) d = Some t \<and> tk_version t = fst (cs_task (ar_after c)) \<and> tk_status t \<noteq> TaskOpen))
    \<and> (ca_accepted r \<longrightarrow> (\<exists>c t. change_of i d = Some c \<and> task_of (ar_task_id c) d = Some t
        \<and> task_of (ar_task_id c) d' = Some (t\<lparr>tk_status := TaskOpen, tk_version := tk_version t + 1,
            tk_updated_at := now, tk_closed_at := None\<rparr>)))
    \<and> (\<not> ca_accepted r \<longrightarrow> d' = d)"
proof (rule chg_act_cases [OF ledger_invD(1) [OF assms(1)], of i v "''undo''" now])
  fix c t assume h: "change_of i d = Some c" "ar_version c = v" "ar_status c = ChgDelivered"
    "task_of (ar_task_id c) d = Some t" "tk_version t = fst (cs_task (ar_after c))" "tk_status t \<noteq> TaskOpen"
    "chg_act i v ''undo'' now d = (chg_result SdApplied i (Some (v + 1)) None,
       update_change i v (answered ''undo'' now v) (transition_effect (ar_task_id c) t TaskOpen now d))"
  then have "ca_accepted r" "task_of (ar_task_id c) d' = Some (t\<lparr>tk_status := TaskOpen,
      tk_version := tk_version t + 1, tk_updated_at := now, tk_closed_at := None\<rparr>)"
    using assms(2) by (auto simp: ca_accepted_def chg_result_def task_of_transition_effect)
  with h show ?thesis by auto
next
  fix ref assume h: "chg_act i v ''undo'' now d = (chg_result SdRefused i None (Some ref), d)"
    "\<not> (''undo'' = ''undo'' \<and> (\<exists>r t. change_of i d = Some r \<and> ar_version r = v
           \<and> ar_status r = ChgDelivered \<and> task_of (ar_task_id r) d = Some t
           \<and> tk_version t = fst (cs_task (ar_after r)) \<and> tk_status t \<noteq> TaskOpen))"
  then have "\<not> ca_accepted r" "d' = d"
    using assms(2) by (auto simp: ca_accepted_def chg_result_def)
  with h(2) show ?thesis by auto
qed simp

theorem undo_reopens_an_unmoved_task_witness:
  "ca_accepted (fst (chg_act 1 2 ''undo'' 5 sample_changes)) \<longleftrightarrow>
    (\<exists>c t. change_of 1 sample_changes = Some c \<and> ar_version c = 2 \<and> ar_status c = ChgDelivered
      \<and> task_of (ar_task_id c) sample_changes = Some t \<and> tk_version t = fst (cs_task (ar_after c))
      \<and> tk_status t \<noteq> TaskOpen)"
  using undo_reopens_an_unmoved_task [OF sample_changes_ok(2) prod.collapse [symmetric], of 1 2 5] by blast

end
