(* ===== verification/SourcePolicy.thy ===== *)
theory SourcePolicy
  imports Prelude
begin

text \<open>
  \<open>source_policy.py\<close>: the closed registry of source kinds, what each may do, and the validation
  of the grants one machine declares over them.
\<close>

record source_policy =
  sp_candidates :: bool
  sp_shadow :: bool
  sp_native :: bool
  sp_addressable :: bool
  sp_roles :: "string list"

definition policy :: "bool \<Rightarrow> string list \<Rightarrow> source_policy" where
  "policy addressable roles = \<lparr>sp_candidates = True, sp_shadow = True, sp_native = True,
     sp_addressable = addressable, sp_roles = roles\<rparr>"

definition SOURCE_POLICIES :: "(string \<times> source_policy) list" where
  "SOURCE_POLICIES =
     [(''meeting'', policy False [''handoff'', ''protocol'', ''transcript'']),
      (''email'', policy False [''handoff'', ''subject'', ''message'']),
      (''teams'', policy False [''handoff'', ''message'']),
      (''issue'', policy True [''title'', ''body'', ''comment'']),
      (''legacy'', policy False [''record'']),
      (''review_request'', policy True [''title'', ''body'', ''diff'']),
      (''mention'', policy True [''title'', ''body'', ''comment'']),
      (''calendar'', policy False [''event'', ''description'']),
      (''alert'', policy False [''signal'', ''detail''])]"

text \<open>\<open>None\<close> is a machine that declares nothing.\<close>

definition source_kind_grants :: "string list option \<Rightarrow> string \<Rightarrow> exc + string list" where
  "source_kind_grants requested label =
     (case requested of
        None \<Rightarrow> Inr []
      | Some kinds \<Rightarrow>
          let grants = remdups kinds in
          if list_ex (\<lambda>k. k \<notin> fst ` set SOURCE_POLICIES) grants
          then Inl (ValueError (label @ '' name unknown source kinds'')) else Inr grants)"

definition planning_grants :: "string list option \<Rightarrow> exc + string list" where
  "planning_grants requested = source_kind_grants requested ''planning grants''"

definition execution_grants :: "string list option \<Rightarrow> exc + string list" where
  "execution_grants requested = source_kind_grants requested ''execution grants''"

definition action_grants :: "string list option \<Rightarrow> exc + string list" where
  "action_grants requested = source_kind_grants requested ''action grants''"

definition capability_of :: "string \<Rightarrow> (source_policy \<Rightarrow> bool) option" where
  "capability_of c =
     (if c = ''accepts_candidates'' then Some sp_candidates
      else if c = ''accepts_shadow_observations'' then Some sp_shadow
      else if c = ''accepts_native_intake'' then Some sp_native
      else if c = ''addressable_origin'' then Some sp_addressable
      else None)"

definition source_kinds_accepting :: "string \<Rightarrow> exc + string list" where
  "source_kinds_accepting c =
     (case capability_of c of
        None \<Rightarrow> Inl (ValueError ''unknown source-policy capability'')
      | Some f \<Rightarrow> Inr (map fst (filter (\<lambda>kp. f (snd kp)) SOURCE_POLICIES)))"

definition provenance_roles_for :: "string \<Rightarrow> exc + string list" where
  "provenance_roles_for kind =
     (case map_of SOURCE_POLICIES kind of
        None \<Rightarrow> Inl (ValueError ''unknown candidate source kind'')
      | Some p \<Rightarrow>
          if \<not> sp_candidates p then Inl (ValueError ''unknown candidate source kind'')
          else if sp_roles p = [] then Inl (ValueError ''candidate source has no provenance vocabulary'')
          else Inr (sp_roles p))"

text \<open>A grant never widens authority: it names kinds of the registry only, each of them declared.\<close>

lemma grants_within_registry:
  assumes "source_kind_grants requested label = Inr grants"
  shows "set grants \<subseteq> fst ` set SOURCE_POLICIES
    \<and> (case requested of None \<Rightarrow> grants = [] | Some kinds \<Rightarrow> set grants = set kinds)"
  using assms by (auto simp: source_kind_grants_def Let_def list_ex_iff split: option.splits if_splits)

lemma native_intake_kinds:
  "source_kinds_accepting ''accepts_native_intake'' = Inr (map fst SOURCE_POLICIES)"
  by code_simp

end
