(* ===== verification/Intake.thy ===== *)
theory Intake
  imports ChangeReviews SourcePolicy
begin

text \<open>
  Native intake of \<open>task_ledger.py\<close>: the suffix of a producer's candidate feed that becomes tasks.
  A revision of a candidate creates a task, revises it, enriches its evidence, withdraws it, brings
  it back or is acknowledged after the reader has closed it; the cursor then moves over the whole
  page in the same transaction.
\<close>

section \<open>Constants and identity guards\<close>

definition FORGE_SOURCE_KINDS :: "string list" where
  "FORGE_SOURCE_KINDS = [''issue'', ''review_request'']"

definition MAX_UNPRODUCTIVE_RESURFACES :: nat where
  "MAX_UNPRODUCTIVE_RESURFACES = 3"

definition MAX_NATIVE_INTAKE_LIMIT :: int where
  "MAX_NATIVE_INTAKE_LIMIT = 500"

definition MAX_SQLITE_INTEGER :: int where
  "MAX_SQLITE_INTEGER = 9223372036854775807"

text \<open>The stream id pattern: an alphanumeric character, then up to 199 of \<open>[A-Za-z0-9._:-]\<close>.\<close>

definition valid_stream_id :: "string \<Rightarrow> bool" where
  "valid_stream_id s \<longleftrightarrow> s \<noteq> [] \<and> length s \<le> 200 \<and> is_alnum (hd s)
     \<and> list_all (\<lambda>c. is_alnum c \<or> c \<in> set ''._:-'') s"

definition valid_native_identity :: "string \<Rightarrow> string \<Rightarrow> int \<Rightarrow> bool" where
  "valid_native_identity producer stream cursor \<longleftrightarrow>
     producer = ''gw'' \<and> valid_stream_id stream \<and> 0 \<le> cursor \<and> cursor \<le> MAX_SQLITE_INTEGER"

section \<open>Comparing a candidate with its task\<close>

definition candidate_owner_values :: "candidate \<Rightarrow> string option \<Rightarrow> owner_state" where
  "candidate_owner_values c display =
     (case (if display \<noteq> cn_owner c then None else cn_owner_ref c) of
        None \<Rightarrow> \<lparr>ow_display = display, ow_ref_version = 0, ow_kind = None, ow_speaker_id = None,
          ow_canonical_speaker_id = None, ow_speaker_registry_id = None, ow_pinned = False,
          ow_provisional = True, ow_person_id = None\<rparr>
      | Some r \<Rightarrow> \<lparr>ow_display = display, ow_ref_version = 1, ow_kind = Some (or_kind r),
          ow_speaker_id = or_speaker_id r, ow_canonical_speaker_id = or_canonical_speaker_id r,
          ow_speaker_registry_id = or_speaker_registry_id r, ow_pinned = or_pinned r,
          ow_provisional = or_provisional r, ow_person_id = or_person_id r\<rparr>)"

definition without_owner_registry :: "owner_state \<Rightarrow> owner_state" where
  "without_owner_registry o' = o'\<lparr>ow_speaker_registry_id := None\<rparr>"

definition without_participant_registry :: "speaker_ref list \<Rightarrow> speaker_ref list" where
  "without_participant_registry ps = map (\<lambda>p. p\<lparr>sp_speaker_registry_id := None\<rparr>) ps"

definition stored_participants :: "rowid \<Rightarrow> db \<Rightarrow> speaker_ref list" where
  "stored_participants i d =
     map pt_ref (sort_key pt_position (filter (\<lambda>p. pt_task_id p = i) (participants d)))"

definition replace_participants :: "rowid \<Rightarrow> candidate \<Rightarrow> db \<Rightarrow> db" where
  "replace_participants i c d = d\<lparr>participants :=
     filter (\<lambda>p. pt_task_id p \<noteq> i) (participants d)
     @ map (\<lambda>(n, r). \<lparr>pt_task_id = i, pt_position = n, pt_ref = r\<rparr>) (List.enumerate 0 (cn_participants c))\<rparr>"

definition is_head_oid :: "string \<Rightarrow> bool" where
  "is_head_oid s \<longleftrightarrow> length s = 40 \<and> list_all (\<lambda>c. c \<in> set ''0123456789abcdef'') s"

definition review_head_oid :: "candidate \<Rightarrow> string option" where
  "review_head_oid c =
     (if cn_kind c \<noteq> ''review_request'' then None
      else case [es_extract e. e \<leftarrow> cn_sources c, es_role e = ''diff'' \<and> is_head_oid (es_extract e)] of
             [x] \<Rightarrow> Some x | _ \<Rightarrow> None)"

definition review_head_changed :: "candidate \<Rightarrow> candidate \<Rightarrow> bool" where
  "review_head_changed before after \<longleftrightarrow> review_head_oid before \<noteq> None
     \<and> review_head_oid after \<noteq> None \<and> review_head_oid before \<noteq> review_head_oid after"

text \<open>Re-surfaces since the task last ran its execution to completion.\<close>

definition unproductive_resurfaces :: "rowid \<Rightarrow> db \<Rightarrow> nat" where
  "unproductive_resurfaces i d =
     (let since = (case workflow_of i d of None \<Rightarrow> None | Some w \<Rightarrow> wf_completed_at w) in
      length (filter (\<lambda>e. te_task_id e = i \<and> te_kind e = EvStatusChanged
          \<and> te_from_status e = Some TaskDone \<and> te_to_status e = Some TaskOpen
          \<and> (case since of None \<Rightarrow> True | Some s \<Rightarrow> s < te_occurred_at e)) (task_events d)))"

section \<open>Bindings and work revisions\<close>

definition bound_row :: "string \<Rightarrow> db \<Rightarrow> (binding_row \<times> lifecycle_row) option" where
  "bound_row cid d =
     (case (row_of bd_candidate_id cid (bindings d), row_of lc_candidate_id cid (lifecycles d)) of
        (Some b, Some l) \<Rightarrow> Some (b, l) | _ \<Rightarrow> None)"

definition work_item_of :: "rowid \<Rightarrow> db \<Rightarrow> work_item option" where
  "work_item_of i d = row_of wi_task_id i (work_items d)"

definition insert_work_revision :: "rowid \<Rightarrow> string \<Rightarrow> string \<Rightarrow> int \<Rightarrow> work_revision_kind \<Rightarrow> time
    \<Rightarrow> source_history option \<Rightarrow> db \<Rightarrow> db" where
  "insert_work_revision w cid rvn v kind now history d = d\<lparr>work_revisions := work_revisions d @ [
     \<lparr>wr_id = next_id wr_id (work_revisions d), wr_work_item_id = w, wr_candidate_id = cid,
      wr_source_revision = rvn, wr_task_version = v, wr_kind = kind, wr_created_at = now,
      wr_history = history\<rparr>]\<rparr>"

text \<open>
  The trigger \<open>work_revision_on_accepted_binding\<close>: it takes the source history from the candidate
  inbox, whatever revision the binding names.
\<close>

definition binding_trigger :: "string \<Rightarrow> string \<Rightarrow> rowid \<Rightarrow> time \<Rightarrow> db \<Rightarrow> db" where
  "binding_trigger cid rvn i now d =
     (let d1 = (if work_item_of i d = None
          then d\<lparr>work_items := work_items d @ [\<lparr>wi_id = next_id wi_id (work_items d),
             wi_task_id = i, wi_state = WorkActive, wi_created_at = now, wi_updated_at = now\<rparr>]\<rparr>
          else d) in
      case (work_item_of i d1, row_of ib_candidate_id cid (inbox d1), task_of i d1) of
        (Some w, Some ib, Some t) \<Rightarrow>
          insert_work_revision (wi_id w) cid rvn (tk_version t) RevAccepted now
            (case ib_payload ib of None \<Rightarrow> None | Some c \<Rightarrow> cn_history c) d1
      | _ \<Rightarrow> d1)"

definition insert_binding :: "string \<Rightarrow> string \<Rightarrow> rowid \<Rightarrow> time \<Rightarrow> db \<Rightarrow> exc + db" where
  "insert_binding cid rvn i now d =
     (if row_of bd_candidate_id cid (bindings d) \<noteq> None
         \<or> list_ex (\<lambda>b. bd_task_id b = i \<and> bd_relation b = BindAccepted) (bindings d)
      then Inl (IntegrityError ''task_candidate_bindings'')
      else Inr (binding_trigger cid rvn i now (d\<lparr>bindings := bindings d @ [
        \<lparr>bd_candidate_id = cid, bd_source_revision = rvn, bd_task_id = i,
         bd_relation = BindAccepted, bd_decided_at = now\<rparr>]\<rparr>)))"

definition insert_task_candidate_lifecycle :: "candidate \<Rightarrow> int \<Rightarrow> time \<Rightarrow> db \<Rightarrow> exc + db" where
  "insert_task_candidate_lifecycle c v now d =
     (if row_of lc_candidate_id (cn_id c) (lifecycles d) \<noteq> None
      then Inl (IntegrityError ''task_candidate_lifecycle'')
      else Inr (d\<lparr>lifecycles := lifecycles d @ [\<lparr>lc_candidate_id = cn_id c,
        lc_source_revision = cn_revision c, lc_task_version = v, lc_state = cn_state c,
        lc_resolution = ResCurrent, lc_changed_at = cn_changed_at c, lc_decided_at = now\<rparr>]\<rparr>))"

definition append_work_revision :: "rowid \<Rightarrow> candidate \<Rightarrow> int \<Rightarrow> time \<Rightarrow> db \<Rightarrow> exc + db" where
  "append_work_revision i c v now d =
     (case work_item_of i d of
        None \<Rightarrow> Inl NativeIntakeConflict
      | Some w \<Rightarrow> Inr (insert_work_revision (wi_id w) (cn_id c) (cn_revision c) v RevSourceAdvance now
          (cn_history c) d))"

text \<open>Every revision moves the binding and the candidate's lifecycle row to itself.\<close>

definition move_binding :: "candidate \<Rightarrow> time \<Rightarrow> db \<Rightarrow> db" where
  "move_binding c now d = d\<lparr>bindings := update_where (\<lambda>b. bd_candidate_id b = cn_id c)
     (\<lambda>b. b\<lparr>bd_source_revision := cn_revision c, bd_decided_at := now\<rparr>) (bindings d)\<rparr>"

definition move_lifecycle :: "candidate \<Rightarrow> (lifecycle_row \<Rightarrow> lifecycle_row) \<Rightarrow> time \<Rightarrow> db \<Rightarrow> db" where
  "move_lifecycle c f now d = d\<lparr>lifecycles := update_where (\<lambda>l. lc_candidate_id l = cn_id c)
     (\<lambda>l. f (l\<lparr>lc_source_revision := cn_revision c, lc_changed_at := cn_changed_at c,
                lc_decided_at := now\<rparr>)) (lifecycles d)\<rparr>"

definition candidate_event :: "rowid \<Rightarrow> event_kind \<Rightarrow> int \<Rightarrow> candidate \<Rightarrow> task_status option
    \<Rightarrow> task_status option \<Rightarrow> time \<Rightarrow> task_event" where
  "candidate_event i kind v c from to now = \<lparr>te_task_id = i, te_kind = kind, te_task_version = v,
     te_candidate_id = Some (cn_id c), te_source_revision = Some (cn_revision c),
     te_from_status = from, te_to_status = to, te_occurred_at = now\<rparr>"

definition bound_candidate :: "binding_row \<Rightarrow> db \<Rightarrow> exc + candidate" where
  "bound_candidate b d =
     (case List.find (\<lambda>h. rh_candidate_id h = bd_candidate_id b
           \<and> rh_source_revision h = bd_source_revision b) (revision_history d) of
        None \<Rightarrow> Inl NativeIntakeConflict
      | Some h \<Rightarrow> (case rh_payload h of None \<Rightarrow> Inl NativeIntakeConflict | Some c \<Rightarrow> Inr c))"

section \<open>Task rows\<close>

definition update_task :: "rowid \<Rightarrow> (task_row \<Rightarrow> task_row) \<Rightarrow> db \<Rightarrow> db" where
  "update_task i f d = d\<lparr>tasks := update_where (\<lambda>t. tk_id t = i) f (tasks d)\<rparr>"

text \<open>The content columns a revision rewrites.\<close>

definition task_content :: "candidate \<Rightarrow> owner_state \<Rightarrow> time \<Rightarrow> task_row \<Rightarrow> task_row" where
  "task_content c owner now t = t\<lparr>tk_text := cn_text c, tk_owner := owner, tk_due := cn_due c,
     tk_structure := cn_structure c, tk_updated_at := now, tk_working_group := cn_working_group c\<rparr>"

definition insert_task :: "candidate \<Rightarrow> string option \<Rightarrow> time \<Rightarrow> db \<Rightarrow> rowid \<times> db" where
  "insert_task c effective now d =
     (let i = next_id tk_id (tasks d);
          d1 = d\<lparr>tasks := tasks d @ [\<lparr>tk_id = i, tk_status = TaskOpen, tk_text = cn_text c,
             tk_owner = candidate_owner_values c effective, tk_due = cn_due c,
             tk_structure = cn_structure c, tk_version = 1, tk_created_at = now,
             tk_updated_at = now, tk_closed_at = None, tk_working_group = cn_working_group c\<rparr>]\<rparr>;
          d2 = replace_participants i c d1 in
      (i, insert_task_event (candidate_event i EvCreated 1 c None (Some TaskOpen) now) d2))"

definition desired_owner :: "task_row \<Rightarrow> candidate \<Rightarrow> owner_state" where
  "desired_owner t c =
     (if ow_pinned (tk_owner t) then tk_owner t else candidate_owner_values c (cn_owner c))"

definition acknowledge_revision_after_close :: "candidate \<Rightarrow> binding_row \<Rightarrow> task_row \<Rightarrow> time \<Rightarrow> db \<Rightarrow> db" where
  "acknowledge_revision_after_close c b t now d =
     (let d1 = move_binding c now d;
          d2 = move_lifecycle c (\<lambda>l. l\<lparr>lc_task_version := tk_version t,
                 lc_resolution := ResReaderConflict\<rparr>) now d1 in
      insert_task_event (candidate_event (bd_task_id b) EvRevisionConflict (tk_version t) c
        (Some (tk_status t)) (Some (tk_status t)) now) d2)"

section \<open>Withdrawal and re-activation\<close>

definition source_closed_summary :: "candidate \<Rightarrow> string" where
  "source_closed_summary c =
     (let number = cn_item_id c; reason = cn_reason c in
      if cn_kind c = ''review_request''
      then (if number \<noteq> [] then ''Pull request #'' @ number else ''Its pull request'')
        @ (if reason = Some ''pr_closed'' then '' was closed without merging''
           else if reason = Some ''pr_merged'' then '' was merged'' else '' was closed'')
      else (if number \<noteq> [] then ''Issue #'' @ number else ''Its issue'')
        @ (if reason = Some ''issue_not_planned'' then '' was closed as not planned''
           else '' was closed''))"

text \<open>How the item ended: not planned, or closed unmerged, drops the task.\<close>

definition forge_action :: "candidate \<Rightarrow> string" where
  "forge_action c = (if cn_reason c \<in> {Some ''issue_not_planned'', Some ''pr_closed''} then ''drop'' else ''done'')"

definition snapshot :: "task_row \<Rightarrow> workflow_row option \<Rightarrow> change_snapshot" where
  "snapshot t w = \<lparr>cs_task = (tk_version t, tk_status t),
     cs_workflow = map_option (\<lambda>x. (wf_version x, wf_status x, wf_phase x)) w\<rparr>"

text \<open>
  \<open>_close_for_forge_source\<close>: \<open>None\<close> is "not closed here".  A refused transition leaves \<open>None\<close> too.
\<close>

definition close_for_forge_source :: "candidate \<Rightarrow> task_row \<Rightarrow> time \<Rightarrow> db \<Rightarrow> exc + (int option \<times> db)" where
  "close_for_forge_source c t now d =
     (if cn_kind c \<notin> set FORGE_SOURCE_KINDS \<or> tk_status t \<noteq> TaskOpen then Inr (None, d)
      else
        let i = tk_id t; workflow = workflow_of i d in
        if (case workflow of None \<Rightarrow> False | Some w \<Rightarrow> wf_status w = WfRunning) then Inr (None, d)
        else
          let action = forge_action c in
          rbind (case workflow of
              Some w \<Rightarrow>
                if wf_status w \<notin> {WfCompleted, WfCancelled}
                then rbind (apply_review_lifecycle_action \<lparr>lv_task_id = i, lv_task_version = tk_version t,
                    lv_workflow_version = wf_version w, lv_phase = wf_phase w\<rparr> action now d)
                  (\<lambda>(r, d1). Inr (xr_accepted r, d1))
                else (let (r, d1) = apply_task_transition i (tk_version t) action now d in
                      Inr (tr_accepted r, d1))
            | None \<Rightarrow> (let (r, d1) = apply_task_transition i (tk_version t) action now d in
                      Inr (tr_accepted r, d1)))
            (\<lambda>(accepted, d1).
              if \<not> accepted then Inr (None, d1)
              else
                case task_of i d1 of
                  None \<Rightarrow> Inl (TypeError ''NoneType is not subscriptable'')
                | Some t1 \<Rightarrow>
                    rbind (record_change ''source_closed'' i (snapshot t workflow)
                        (snapshot t1 (workflow_of i d1)) (source_closed_summary c) now d1)
                      (\<lambda>d2. Inr (Some (tk_version t1), d2))))"

text \<open>A workflow that is neither waiting to start nor over.\<close>

definition active_workflow :: "rowid \<Rightarrow> db \<Rightarrow> bool" where
  "active_workflow i d \<longleftrightarrow> list_ex (\<lambda>w. wf_task_id w = i
     \<and> wf_status w \<notin> {WfAwaitingStart, WfCompleted, WfCancelled}) (workflows d)"

definition withdrawal_conflict :: "binding_row \<Rightarrow> lifecycle_row \<Rightarrow> task_row \<Rightarrow> candidate \<Rightarrow> db \<Rightarrow> bool" where
  "withdrawal_conflict b l t previous d \<longleftrightarrow>
     tk_status t \<noteq> TaskOpen \<or> tk_version t \<noteq> lc_task_version l \<or> tk_text t \<noteq> cn_text previous
     \<or> tk_owner t \<noteq> desired_owner t previous \<or> tk_due t \<noteq> cn_due previous
     \<or> active_workflow (bd_task_id b) d"

definition apply_candidate_withdrawal :: "candidate \<Rightarrow> binding_row \<Rightarrow> lifecycle_row \<Rightarrow> time \<Rightarrow> db
    \<Rightarrow> exc + db" where
  "apply_candidate_withdrawal c b l now d =
     (let i = bd_task_id b in
      case task_of i d of
        None \<Rightarrow> Inl NativeIntakeConflict
      | Some t \<Rightarrow>
          rbind (bound_candidate b d) (\<lambda>previous.
            let conflict = withdrawal_conflict b l t previous d in
            rbind (close_for_forge_source c t now d) (\<lambda>(closed, d1).
              let (version, kind, resolution, d2) =
                (case closed of
                   Some v \<Rightarrow> (v, EvWithdrawn, ResClosedBySource, set_work_state i WorkClosed now d1)
                 | None \<Rightarrow>
                     if \<not> conflict
                     then (tk_version t + 1, EvWithdrawn, ResPreservedOpen,
                       set_work_state i WorkWithdrawn now
                         (update_task i (\<lambda>x. x\<lparr>tk_version := tk_version t + 1, tk_updated_at := now\<rparr>) d1))
                     else (tk_version t, EvWithdrawalConflict, ResReaderConflict, d1));
                  d3 = move_binding c now d2;
                  d4 = move_lifecycle c (\<lambda>x. x\<lparr>lc_task_version := version,
                         lc_state := LifeWithdrawn, lc_resolution := resolution\<rparr>) now d3 in
              Inr (insert_task_event (candidate_event i kind version c None None now) d4))))"

definition apply_candidate_reactivation :: "candidate \<Rightarrow> binding_row \<Rightarrow> lifecycle_row \<Rightarrow> time \<Rightarrow> db
    \<Rightarrow> exc + db" where
  "apply_candidate_reactivation c b l now d =
     (let i = bd_task_id b in
      case task_of i d of
        None \<Rightarrow> Inl NativeIntakeConflict
      | Some t \<Rightarrow>
          let reopening = (tk_status t = TaskDone);
              conflict = (lc_resolution l = ResReaderConflict
                \<or> (tk_status t \<noteq> TaskOpen \<and> \<not> reopening)
                \<or> tk_version t \<noteq> lc_task_version l \<or> active_workflow i d);
              (version, kind, resolution, d1) =
                (if \<not> conflict
                 then (tk_version t + 1, EvReactivated, ResCurrent,
                   set_work_state i WorkActive now (replace_participants i c
                     (update_task i (\<lambda>x. (task_content c (desired_owner t c) now x)\<lparr>tk_version := tk_version t + 1\<rparr>)
                       (if reopening
                        then update_task i (\<lambda>x. x\<lparr>tk_status := TaskOpen, tk_closed_at := None\<rparr>) d
                        else d))))
                 else (tk_version t, EvReactivationConflict, ResReaderConflict, d));
              d2 = move_binding c now d1;
              d3 = move_lifecycle c (\<lambda>x. x\<lparr>lc_task_version := version, lc_state := LifeActive,
                     lc_resolution := resolution\<rparr>) now d2 in
          Inr (insert_task_event (candidate_event i kind version c None None now) d3))"

section \<open>A revision of an active candidate\<close>

record intake_counts =
  ic_created :: nat
  ic_revised :: nat
  ic_unchanged :: nat
  ic_withdrawn :: nat
  ic_after_close :: nat
  ic_checks :: "rowid list"

definition no_counts :: intake_counts where
  "no_counts = \<lparr>ic_created = 0, ic_revised = 0, ic_unchanged = 0, ic_withdrawn = 0,
     ic_after_close = 0, ic_checks = []\<rparr>"

definition checked :: "rowid \<Rightarrow> intake_counts \<Rightarrow> intake_counts" where
  "checked i n = n\<lparr>ic_checks := List.insert i (ic_checks n)\<rparr>"

definition revised :: "intake_counts \<Rightarrow> intake_counts" where
  "revised n = n\<lparr>ic_revised := ic_revised n + 1\<rparr>"

definition duplicate_comparable_changed :: "task_row \<Rightarrow> candidate \<Rightarrow> db \<Rightarrow> bool" where
  "duplicate_comparable_changed t c d \<longleftrightarrow>
     tk_text t \<noteq> cn_text c \<or> tk_owner t \<noteq> desired_owner t c
     \<or> (st_object (tk_structure t), st_action (tk_structure t))
         \<noteq> (st_object (cn_structure c), st_action (cn_structure c))
     \<or> stored_participants (tk_id t) d \<noteq> cn_participants c
     \<or> tk_working_group t \<noteq> cn_working_group c"

definition advances_version :: "task_row \<Rightarrow> candidate \<Rightarrow> bool \<Rightarrow> db \<Rightarrow> bool" where
  "advances_version t c head_changed d \<longleftrightarrow>
     \<not> ((cn_kind c = ''review_request'' \<and> \<not> head_changed)
        \<or> (tk_text t = cn_text c \<and> tk_due t = cn_due c \<and> tk_owner t = desired_owner t c
           \<and> tk_structure t = cn_structure c \<and> stored_participants (tk_id t) d = cn_participants c
           \<and> \<not> head_changed))"

text \<open>The re-surfacing of a finished task, before the revision itself is applied.\<close>

definition resurface :: "task_row \<Rightarrow> candidate \<Rightarrow> binding_row \<Rightarrow> bool \<Rightarrow> time \<Rightarrow> db \<Rightarrow> db" where
  "resurface t c b head_changed now d =
     (let i = bd_task_id b in
      if tk_status t = TaskDone \<and> advances_version t c head_changed d
         \<and> unproductive_resurfaces i d < MAX_UNPRODUCTIVE_RESURFACES
      then insert_task_event (candidate_event i EvStatusChanged (tk_version t + 1) c
             (Some TaskDone) (Some TaskOpen) now)
           (update_task i (\<lambda>x. x\<lparr>tk_status := TaskOpen, tk_closed_at := None\<rparr>) d)
      else d)"

text \<open>A pull-request edit that leaves the head alone: the row is kept current, its version stays.\<close>

definition refresh_review_request :: "task_row \<Rightarrow> candidate \<Rightarrow> binding_row \<Rightarrow> owner_state \<Rightarrow> time \<Rightarrow> db \<Rightarrow> db" where
  "refresh_review_request t c b owner now d =
     (let i = bd_task_id b;
          d1 = replace_participants i c (update_task i (task_content c owner now) d);
          d2 = move_lifecycle c (\<lambda>l. l) now (move_binding c now d1) in
      insert_task_event (candidate_event i EvCandidateRevised (tk_version t) c None None now) d2)"

definition same_work :: "task_row \<Rightarrow> candidate \<Rightarrow> owner_state \<Rightarrow> bool \<Rightarrow> db \<Rightarrow> bool" where
  "same_work t c owner head_changed d \<longleftrightarrow>
     tk_text t = cn_text c \<and> tk_due t = cn_due c
     \<and> without_owner_registry (tk_owner t) = without_owner_registry owner
     \<and> tk_structure t = cn_structure c
     \<and> without_participant_registry (stored_participants (tk_id t) d)
         = without_participant_registry (cn_participants c)
     \<and> \<not> head_changed"

text \<open>New evidence for the same work: only registry ids and the working group may be written.\<close>

definition enrich_evidence :: "task_row \<Rightarrow> candidate \<Rightarrow> binding_row \<Rightarrow> owner_state \<Rightarrow> time
    \<Rightarrow> intake_counts \<times> db \<Rightarrow> intake_counts \<times> db" where
  "enrich_evidence t c b owner now nd =
     (let i = bd_task_id b; (n, d) = nd;
          d1 = (if ow_speaker_registry_id (tk_owner t) \<noteq> ow_speaker_registry_id owner
                then update_task i (\<lambda>x. x\<lparr>tk_owner := (tk_owner x)\<lparr>ow_speaker_registry_id :=
                       ow_speaker_registry_id owner\<rparr>, tk_updated_at := now\<rparr>) d
                else d);
          d2 = (if stored_participants (tk_id t) d1 \<noteq> cn_participants c
                then replace_participants i c d1 else d1);
          (n3, d3) = (if tk_working_group t \<noteq> cn_working_group c
                then (checked i n, update_task i (\<lambda>x. x\<lparr>tk_working_group := cn_working_group c,
                       tk_updated_at := now\<rparr>) d2)
                else (n, d2));
          d4 = move_lifecycle c (\<lambda>l. l) now (move_binding c now d3) in
      (revised n3,
       insert_task_event (candidate_event i EvCandidateRevised (tk_version t) c None None now) d4))"

definition fold_revision :: "task_row \<Rightarrow> candidate \<Rightarrow> binding_row \<Rightarrow> owner_state \<Rightarrow> time \<Rightarrow> db \<Rightarrow> exc + db" where
  "fold_revision t c b owner now d =
     (let i = bd_task_id b; version = tk_version t + 1;
          d1 = update_task i (\<lambda>x. (task_content c owner now x)\<lparr>tk_version := version\<rparr>) d;
          d2 = replace_participants i c d1;
          d3 = move_binding c now d2;
          d4 = move_lifecycle c (\<lambda>l. l\<lparr>lc_task_version := version, lc_state := LifeActive,
                 lc_resolution := ResCurrent\<rparr>) now d3 in
      rbind (append_work_revision i c version now d4) (\<lambda>d5.
        Inr (insert_task_event (candidate_event i EvCandidateRevised version c None None now) d5)))"

text \<open>
  The tail of the loop body: a revision of an accepted, active candidate.  The comparisons are made
  on the row read before the re-surfacing; the branches see the row read again after it.
\<close>

definition accept_revision :: "candidate \<Rightarrow> binding_row \<Rightarrow> time \<Rightarrow> intake_counts \<times> db
    \<Rightarrow> exc + (intake_counts \<times> db)" where
  "accept_revision c b now nd =
     (let i = bd_task_id b; (n, d) = nd in
      case task_of i d of
        None \<Rightarrow> Inl NativeIntakeConflict
      | Some t0 \<Rightarrow>
          rbind (bound_candidate b d) (\<lambda>previous.
            let head_changed = review_head_changed previous c;
                owner = desired_owner t0 c;
                comparable_changed = duplicate_comparable_changed t0 c d;
                d1 = resurface t0 c b head_changed now d in
            case task_of i d1 of
              None \<Rightarrow> Inl (TypeError ''NoneType is not subscriptable'')
            | Some t \<Rightarrow>
                let n1 = (if comparable_changed then checked i n else n) in
                if tk_status t \<noteq> TaskOpen
                then Inr (n\<lparr>ic_after_close := ic_after_close n + 1\<rparr>,
                          acknowledge_revision_after_close c b t now d1)
                else if cn_kind c = ''review_request'' \<and> \<not> head_changed
                then Inr (revised n1, refresh_review_request t c b owner now d1)
                else if same_work t c owner head_changed d1
                then Inr (enrich_evidence t c b owner now (n, d1))
                else rbind (fold_revision t c b owner now d1) (\<lambda>d2. Inr (revised n1, d2))))"

section \<open>The duplicate-check obligation\<close>

text \<open>
  \<open>comparable_digest\<close> and \<open>enqueue\<close> of \<open>task_duplicate_stage1.py\<close>; the model compares the
  digested columns (all owner columns but the pin) themselves.
\<close>

definition comparable_content :: "task_row \<Rightarrow> db \<Rightarrow> compared_content" where
  "comparable_content t d = \<lparr>cc_text = tk_text t, cc_object = st_object (tk_structure t),
     cc_action = st_action (tk_structure t), cc_owner_columns = (tk_owner t)\<lparr>ow_pinned := False\<rparr>,
     cc_working_group = tk_working_group t, cc_participants = stored_participants (tk_id t) d\<rparr>"

definition enqueue :: "time \<Rightarrow> rowid \<Rightarrow> db \<Rightarrow> exc + db" where
  "enqueue now i d =
     (case task_of i d of
        None \<Rightarrow> Inl (ValueError ''task does not exist'')
      | Some t \<Rightarrow>
          let fresh = \<lparr>dc_task_id = i, dc_task_version = tk_version t,
                 dc_content = comparable_content t d, dc_signals_done = False,
                 dc_embedding_done = False, dc_embedding_attempts = 0, dc_enqueued_at = now,
                 dc_updated_at = now\<rparr> in
          Inr (case row_of dc_task_id i (duplicate_checks d) of
                 None \<Rightarrow> d\<lparr>duplicate_checks := duplicate_checks d @ [fresh]\<rparr>
               | Some _ \<Rightarrow> d\<lparr>duplicate_checks := update_where
                   (\<lambda>x. dc_task_id x = i \<and> (dc_task_version x \<noteq> dc_task_version fresh
                      \<or> dc_content x \<noteq> dc_content fresh)) (\<lambda>_. fresh) (duplicate_checks d)\<rparr>))"

section \<open>The intake loop\<close>

record feed_row =
  fr_sequence :: int
  fr_candidate_id :: string
  fr_source_revision :: string
  fr_payload :: "candidate option"

definition feed_rows :: "string \<Rightarrow> string \<Rightarrow> int \<Rightarrow> int \<Rightarrow> int \<Rightarrow> db \<Rightarrow> feed_row list" where
  "feed_rows producer stream previous current limit d =
     take (nat limit) (sort_key fr_sequence
       [\<lparr>fr_sequence = fi_sequence i, fr_candidate_id = fi_candidate_id i,
         fr_source_revision = fi_source_revision i, fr_payload = rh_payload h\<rparr>.
        i \<leftarrow> feed_items d, fi_producer i = producer \<and> fi_stream_id i = stream
          \<and> previous < fi_sequence i \<and> fi_sequence i \<le> current,
        h \<leftarrow> revision_history d, rh_candidate_id h = fi_candidate_id i
          \<and> rh_source_revision h = fi_source_revision i])"

text \<open>A decision the producer has observed already: any row for this very revision.\<close>

definition producer_decision :: "candidate \<Rightarrow> db \<Rightarrow> bool" where
  "producer_decision c d \<longleftrightarrow> list_ex (\<lambda>ob. ob_candidate_id ob = cn_id c
     \<and> ob_source_revision ob = cn_revision c) (observations d)"

text \<open>The document of a feed row, refused when it is not the one the row names.\<close>

definition candidate_of_row :: "string \<Rightarrow> feed_row \<Rightarrow> exc + candidate" where
  "candidate_of_row producer r =
     (case fr_payload r of
        None \<Rightarrow> Inl NativeIntakeConflict
      | Some c \<Rightarrow>
          rbind (source_kinds_accepting ''accepts_native_intake'') (\<lambda>kinds.
            if cn_system c \<noteq> producer \<or> cn_kind c \<notin> set kinds \<or> cn_id c \<noteq> fr_candidate_id r
               \<or> cn_revision c \<noteq> fr_source_revision r
            then Inl NativeIntakeConflict else Inr c))"

definition accept_new :: "candidate \<Rightarrow> time \<Rightarrow> intake_counts \<times> db \<Rightarrow> exc + (intake_counts \<times> db)" where
  "accept_new c now nd =
     (let (n, d) = nd; (i, d1) = insert_task c (cn_owner c) now d in
      rbind (insert_binding (cn_id c) (cn_revision c) i now d1) (\<lambda>d2.
      rbind (insert_task_candidate_lifecycle c 1 now d2) (\<lambda>d3.
        Inr (checked i (n\<lparr>ic_created := ic_created n + 1\<rparr>), d3))))"

definition unchanged_one :: "intake_counts \<Rightarrow> intake_counts" where
  "unchanged_one n = n\<lparr>ic_unchanged := ic_unchanged n + 1\<rparr>"

definition withdrawn_one :: "intake_counts \<Rightarrow> intake_counts" where
  "withdrawn_one n = n\<lparr>ic_withdrawn := ic_withdrawn n + 1\<rparr>"

text \<open>The body of the loop over the page, after the sequence check.\<close>

definition accept_candidate :: "candidate \<Rightarrow> time \<Rightarrow> intake_counts \<times> db \<Rightarrow> exc + (intake_counts \<times> db)" where
  "accept_candidate c now nd =
     (let (n, d) = nd; binding = bound_row (cn_id c) d in
      if producer_decision c d
      then (case binding of
              Some (b, l) \<Rightarrow> if bd_source_revision b = cn_revision c \<and> bd_relation b = BindAccepted
                then Inr (unchanged_one n, d) else Inl NativeIntakeConflict
            | None \<Rightarrow> Inl NativeIntakeConflict)
      else if cn_state c = LifeWithdrawn
      then (case binding of
              None \<Rightarrow> Inr (withdrawn_one n, d)
            | Some (b, l) \<Rightarrow>
                if bd_source_revision b = cn_revision c then Inr (unchanged_one n, d)
                else if bd_relation b \<noteq> BindAccepted then Inl NativeIntakeConflict
                else rbind (apply_candidate_withdrawal c b l now d) (\<lambda>d1. Inr (withdrawn_one n, d1)))
      else
        (case binding of
           None \<Rightarrow> accept_new c now (n, d)
         | Some (b, l) \<Rightarrow>
             if bd_source_revision b = cn_revision c then Inr (unchanged_one n, d)
             else if bd_relation b \<noteq> BindAccepted then Inl NativeIntakeConflict
             else if lc_state l = LifeWithdrawn
             then rbind (apply_candidate_reactivation c b l now d) (\<lambda>d1.
                    Inr (revised (checked (bd_task_id b) n), d1))
             else accept_revision c b now (n, d)))"

fun accept_rows :: "string \<Rightarrow> time \<Rightarrow> feed_row list \<Rightarrow> int \<Rightarrow> intake_counts \<times> db
    \<Rightarrow> exc + (intake_counts \<times> db)" where
  "accept_rows producer now [] expected nd = Inr nd"
| "accept_rows producer now (r # rs) expected nd =
     (if fr_sequence r \<noteq> expected then Inl NativeIntakeConflict
      else rbind (candidate_of_row producer r) (\<lambda>c.
           rbind (accept_candidate c now nd) (accept_rows producer now rs (expected + 1))))"

section \<open>The operations\<close>

datatype intake_disposition = NdApplied | NdUnchanged | NdRefused
datatype intake_refusal =
    NrInvalidArgument | NrNotActivated | NrCursorMismatch | NrUnreconciledPrefix
  | NrExpectedCountMismatch | NrAlreadyActivated | NrStateConflict

record activation_result =
  na_disposition :: intake_disposition
  na_activation_cursor :: "int option"
  na_refusal :: "intake_refusal option"

record intake_result =
  nr_disposition :: intake_disposition
  nr_refusal :: "intake_refusal option"
  nr_previous_cursor :: int
  nr_current_cursor :: int
  nr_counts :: intake_counts
  nr_remaining :: int

definition intake_of :: "string \<Rightarrow> string \<Rightarrow> db \<Rightarrow> intake_row option" where
  "intake_of producer stream d =
     List.find (\<lambda>x. ni_producer x = producer \<and> ni_stream_id x = stream) (intakes d)"

definition feed_cursor_of :: "string \<Rightarrow> string \<Rightarrow> db \<Rightarrow> int" where
  "feed_cursor_of producer stream d =
     (case List.find (\<lambda>x. fc_producer x = producer \<and> fc_stream_id x = stream) (feed_cursors d) of
        None \<Rightarrow> 0 | Some x \<Rightarrow> fc_cursor x)"

definition native_intake_event :: "intake_event \<Rightarrow> db \<Rightarrow> db" where
  "native_intake_event e d = d\<lparr>intake_events := intake_events d @ [e]\<rparr>"

text \<open>A live candidate of the producer that nothing has decided at its current revision.\<close>

definition unreconciled :: "string \<Rightarrow> string \<Rightarrow> db \<Rightarrow> inbox_row \<Rightarrow> candidate_lifecycle_row \<Rightarrow> bool" where
  "unreconciled producer stream d c l \<longleftrightarrow>
     cl_candidate_id l = ib_candidate_id c \<and> ib_system c = producer \<and> cl_state l \<noteq> LifeWithdrawn
     \<and> \<not> list_ex (\<lambda>b. bd_candidate_id b = ib_candidate_id c \<and> bd_source_revision b = ib_revision c)
           (bindings d)
     \<and> \<not> list_ex (\<lambda>ob. ob_candidate_id ob = ib_candidate_id c \<and> ob_source_revision ob = ib_revision c
           \<and> ob_comparison ob = CmpRefused) (observations d)
     \<and> \<not> list_ex (\<lambda>h. hr_candidate_id h = ib_candidate_id c \<and> hr_source_revision h = ib_revision c
           \<and> hr_producer h = producer \<and> hr_stream_id h = stream) (historical_refusals d)"

definition activate_native_intake :: "string \<Rightarrow> string \<Rightarrow> int \<Rightarrow> time \<Rightarrow> db \<Rightarrow> activation_result \<times> db" where
  "activate_native_intake producer stream expected now d =
     (let refuse = (\<lambda>ref. (\<lparr>na_disposition = NdRefused, na_activation_cursor = None,
            na_refusal = Some ref\<rparr>, d)) in
      if \<not> valid_native_identity producer stream expected then refuse NrInvalidArgument
      else
        case intake_of producer stream d of
          Some x \<Rightarrow>
            if ni_activation_cursor x = expected
            then (\<lparr>na_disposition = NdUnchanged, na_activation_cursor = Some expected,
                   na_refusal = None\<rparr>, d)
            else refuse NrCursorMismatch
        | None \<Rightarrow>
            if feed_cursor_of producer stream d \<noteq> expected then refuse NrCursorMismatch
            else if list_ex (\<lambda>c. list_ex (unreconciled producer stream d c) (candidate_lifecycles d)) (inbox d)
            then refuse NrUnreconciledPrefix
            else
              (\<lparr>na_disposition = NdApplied, na_activation_cursor = Some expected, na_refusal = None\<rparr>,
               native_intake_event \<lparr>ne_producer = producer, ne_stream_id = stream,
                   ne_kind = IntakeActivated, ne_from_cursor = expected, ne_to_cursor = expected,
                   ne_tasks_created = 0, ne_tasks_revised = 0, ne_candidates_unchanged = 0,
                   ne_occurred_at = now\<rparr>
                 (d\<lparr>intakes := intakes d @ [\<lparr>ni_producer = producer, ni_stream_id = stream,
                   ni_activation_cursor = expected, ni_cursor = expected, ni_activated_at = now,
                   ni_updated_at = now\<rparr>]\<rparr>)))"

definition intake_refused :: "intake_refusal \<Rightarrow> intake_result" where
  "intake_refused ref = \<lparr>nr_disposition = NdRefused, nr_refusal = Some ref,
     nr_previous_cursor = 0, nr_current_cursor = 0, nr_counts = no_counts, nr_remaining = 0\<rparr>"

text \<open>The transaction of \<open>accept_native_candidates\<close>, once the arguments are valid.\<close>

text \<open>The tail of a page: the cursor, the event and the obligations of duplicate detection.\<close>

definition finish_page :: "intake_row \<Rightarrow> int \<Rightarrow> feed_row list \<Rightarrow> time \<Rightarrow> intake_counts \<Rightarrow> db
    \<Rightarrow> exc + (intake_result \<times> db)" where
  "finish_page x feed rows now n d1 =
     (let producer = ni_producer x; stream = ni_stream_id x; previous = ni_cursor x;
          current = fr_sequence (last rows);
          hit = (\<lambda>y. ni_producer y = producer \<and> ni_stream_id y = stream \<and> ni_cursor y = previous);
          d2 = d1\<lparr>intakes := update_where hit
                 (\<lambda>y. y\<lparr>ni_cursor := current, ni_updated_at := now\<rparr>) (intakes d1)\<rparr> in
      if rowcount hit (intakes d1) \<noteq> 1 then Inl NativeIntakeConflict
      else
        let d3 = native_intake_event \<lparr>ne_producer = producer, ne_stream_id = stream,
              ne_kind = IntakeAdvanced, ne_from_cursor = previous, ne_to_cursor = current,
              ne_tasks_created = ic_created n, ne_tasks_revised = ic_revised n,
              ne_candidates_unchanged = ic_unchanged n, ne_occurred_at = now\<rparr> d2 in
        rbind (each (enqueue now) (sort (ic_checks n)) d3) (\<lambda>d4.
          Inr (\<lparr>nr_disposition = NdApplied, nr_refusal = None,
            nr_previous_cursor = previous, nr_current_cursor = current,
            nr_counts = n, nr_remaining = feed - current\<rparr>, d4)))"

definition intake_tx :: "string \<Rightarrow> string \<Rightarrow> int \<Rightarrow> time \<Rightarrow> db \<Rightarrow> exc + (intake_result \<times> db)" where
  "intake_tx producer stream limit now d =
     (case intake_of producer stream d of
        None \<Rightarrow> Inr (intake_refused NrNotActivated, d)
      | Some x \<Rightarrow>
          let previous = ni_cursor x; feed = feed_cursor_of producer stream d in
          if feed < previous then Inl NativeIntakeConflict
          else
            let rows = feed_rows producer stream previous feed limit d in
            if rows = []
            then if feed \<noteq> previous then Inl NativeIntakeConflict
                 else Inr (\<lparr>nr_disposition = NdUnchanged, nr_refusal = None,
                   nr_previous_cursor = previous, nr_current_cursor = previous,
                   nr_counts = no_counts, nr_remaining = 0\<rparr>, d)
            else
              rbind (accept_rows producer now rows (previous + 1) (no_counts, d)) (\<lambda>(n, d1).
                finish_page x feed rows now n d1))"

definition accept_native_candidates :: "string \<Rightarrow> string \<Rightarrow> int \<Rightarrow> time \<Rightarrow> db
    \<Rightarrow> (exc + intake_result) \<times> db" where
  "accept_native_candidates producer stream limit now d =
     (if \<not> valid_native_identity producer stream 0 \<or> \<not> (1 \<le> limit \<and> limit \<le> MAX_NATIVE_INTAKE_LIMIT)
      then (Inr (intake_refused NrInvalidArgument), d)
      else case run_tx (intake_tx producer stream limit now) d of
             (Inl NativeIntakeConflict, d') \<Rightarrow> (Inr (intake_refused NrStateConflict), d')
           | r \<Rightarrow> r)"

end
