(* ===== verification/IntakeProps.thy ===== *)
theory IntakeProps
  imports Intake
begin

text \<open>
  What native intake does to the ledger: it keeps the ledger's invariant, respects what the reader
  decided, moves its cursor over exactly the page it accepted, and stops re-surfacing a finished
  task that nothing answers.
\<close>

section \<open>What intake writes to the ledger\<close>

lemma ledger_inv_core:
  "tasks d' = tasks d \<Longrightarrow> map wi_task_id (work_items d') = map wi_task_id (work_items d) \<Longrightarrow>
   ledger_inv d' = ledger_inv d"
  by (simp add: ledger_inv_def unique_key_def)

lemma intake_frame [simp]:
  "tasks (move_binding c now d) = tasks d" "tasks (move_lifecycle c f now d) = tasks d"
  "tasks (replace_participants i c d) = tasks d"
  "tasks (insert_work_revision w cid rvn v k now h d) = tasks d"
  "work_items (move_binding c now d) = work_items d"
  "work_items (move_lifecycle c f now d) = work_items d"
  "work_items (replace_participants i c d) = work_items d"
  "work_items (insert_work_revision w cid rvn v k now h d) = work_items d"
  "work_items (update_task i g d) = work_items d"
  "workflows (move_binding c now d) = workflows d" "workflows (move_lifecycle c f now d) = workflows d"
  "workflows (replace_participants i c d) = workflows d"
  "workflows (insert_work_revision w cid rvn v k now h d) = workflows d"
  "workflows (update_task i g d) = workflows d"
  by (simp_all add: move_binding_def move_lifecycle_def replace_participants_def
      insert_work_revision_def update_task_def)

lemma set_work_state_keys [simp]:
  "map wi_task_id (work_items (set_work_state i st now d)) = map wi_task_id (work_items d)"
  by (simp add: set_work_state_def map_update_where)

lemma transition_effect_keys [simp]:
  "map wi_task_id (work_items (transition_effect i row target now d)) = map wi_task_id (work_items d)"
  by (simp add: transition_effect_work map_update_where)

text \<open>The tables the page is read from.\<close>

definition feeds :: "db \<Rightarrow> intake_row list \<times> feed_item list \<times> feed_cursor list \<times> revision_row list" where
  "feeds d = (intakes d, feed_items d, feed_cursors d, revision_history d)"

lemma feeds_frame [simp]:
  "feeds (move_binding c now d) = feeds d" "feeds (move_lifecycle c f now d) = feeds d"
  "feeds (replace_participants i c d) = feeds d"
  "feeds (insert_work_revision w cid rvn v k now h d) = feeds d"
  "feeds (update_task i g d) = feeds d" "feeds (set_work_state i st now d) = feeds d"
  "feeds (insert_task_event e d) = feeds d" "feeds (transition_effect i row target now d) = feeds d"
  by (simp_all add: feeds_def move_binding_def move_lifecycle_def replace_participants_def
      insert_work_revision_def update_task_def set_work_state_def insert_task_event_def transition_effect_def)

lemma feeds_fields [simp]:
  "feeds (d\<lparr>workflows := x\<rparr>) = feeds d" "feeds (d\<lparr>workflow_events := y\<rparr>) = feeds d"
  "feeds (d\<lparr>bindings := z\<rparr>) = feeds d" "feeds (d\<lparr>lifecycles := u\<rparr>) = feeds d"
  "feeds (d\<lparr>tasks := v\<rparr>) = feeds d" "feeds (d\<lparr>work_items := w\<rparr>) = feeds d"
  "feeds (d\<lparr>duplicate_checks := q\<rparr>) = feeds d" "feeds (d\<lparr>change_reviews := r\<rparr>) = feeds d"
  by (simp_all add: feeds_def)

text \<open>
  What intake may do to a task: never lose it, never lower its version, never touch a dropped row,
  never replace a pinned owner.
\<close>

definition task_follows :: "task_row \<Rightarrow> task_row \<Rightarrow> bool" where
  "task_follows t t' \<longleftrightarrow> tk_id t' = tk_id t \<and> tk_created_at t' = tk_created_at t
     \<and> tk_version t \<le> tk_version t' \<and> (tk_status t = TaskDropped \<longrightarrow> t' = t)
     \<and> (ow_pinned (tk_owner t) \<longrightarrow> tk_owner t' = tk_owner t)"

lemma task_follows_refl [simp]: "task_follows t t"
  by (simp add: task_follows_def)

lemma task_follows_trans: "task_follows a b \<Longrightarrow> task_follows b c \<Longrightarrow> task_follows a c"
  by (auto simp: task_follows_def)

definition ledger_follows :: "db \<Rightarrow> db \<Rightarrow> bool" where
  "ledger_follows d d' \<longleftrightarrow>
     (\<forall>i t. task_of i d = Some t \<longrightarrow> (\<exists>t'. task_of i d' = Some t' \<and> task_follows t t'))"

lemma ledger_follows_refl [simp]: "ledger_follows d d"
  by (simp add: ledger_follows_def)

lemma ledger_follows_trans: "ledger_follows a b \<Longrightarrow> ledger_follows b c \<Longrightarrow> ledger_follows a c"
  unfolding ledger_follows_def by (meson task_follows_trans)

lemma ledger_followsD:
  "ledger_follows d d' \<Longrightarrow> task_of i d = Some t \<Longrightarrow> \<exists>t'. task_of i d' = Some t' \<and> task_follows t t'"
  by (simp add: ledger_follows_def)

definition keeps_ledger :: "db \<Rightarrow> db \<Rightarrow> bool" where
  "keeps_ledger d d' \<longleftrightarrow> ledger_inv d' \<and> ledger_follows d d'
     \<and> map wf_task_id (workflows d') = map wf_task_id (workflows d) \<and> feeds d' = feeds d"

lemma keeps_ledger_trans: "keeps_ledger a b \<Longrightarrow> keeps_ledger b c \<Longrightarrow> keeps_ledger a c"
  by (auto simp: keeps_ledger_def intro: ledger_follows_trans)

lemma task_of_update_task:
  assumes "\<And>x. tk_id (f x) = tk_id x"
  shows "task_of k (update_task i f d) = (if k = i then map_option f (task_of i d) else task_of k d)"
proof -
  have "task_of k (update_task i f d) = map_option (\<lambda>r. if tk_id r = i then f r else r) (task_of k d)"
    using assms by (simp add: update_task_def find_update_where)
  then show ?thesis by (cases "task_of k d") (auto dest: row_of_key)
qed

text \<open>One row rewritten, the keys of the work items kept.\<close>

lemma keeps_ledger_update:
  assumes "ledger_inv d" and "task_of i d = Some t"
    and "tasks d' = tasks (update_task i f d)"
    and "map wi_task_id (work_items d') = map wi_task_id (work_items d)"
    and "map wf_task_id (workflows d') = map wf_task_id (workflows d)" and "feeds d' = feeds d"
    and "\<And>x. tk_id (f x) = tk_id x" and "task_follows t (f t)" and "task_ok (f t)"
  shows "keeps_ledger d d'"
proof -
  have t: "x = t" if "x \<in> set (tasks d)" "tk_id x = i" for x
    using task_row_determined [OF assms(1) that(1)] that(2) assms(2) by simp
  have "list_all task_ok (tasks (update_task i f d))"
    using ledger_invD(2) [OF assms(1)] t assms(9)
    by (auto simp: update_task_def list_all_iff set_update_where)
  then have "ledger_inv d'"
    using assms(1,3,4,7) by (simp add: ledger_inv_def unique_key_def update_task_def map_update_where)
  moreover have "task_of k d' = (if k = i then Some (f t) else task_of k d)" for k
    using task_of_update_task [of f k i d, OF assms(7)] assms(2,3) by simp
  ultimately show ?thesis using assms(2,5,6,8) by (simp add: keeps_ledger_def ledger_follows_def)
qed

lemma keeps_ledger_same:
  assumes "ledger_inv d" and "tasks d' = tasks d"
    and "map wi_task_id (work_items d') = map wi_task_id (work_items d)"
    and "map wf_task_id (workflows d') = map wf_task_id (workflows d)" and "feeds d' = feeds d"
  shows "keeps_ledger d d'"
  using ledger_inv_core [OF assms(2,3)] assms(1,2,4,5) by (simp add: keeps_ledger_def ledger_follows_def)

lemma desired_owner_pinned: "ow_pinned (tk_owner t) \<Longrightarrow> desired_owner t c = tk_owner t"
  by (simp add: desired_owner_def)

lemma keeps_ledger_transition:
  assumes "ledger_inv d" and "task_of i d = Some t" and "tk_status t = TaskOpen"
  shows "keeps_ledger d (transition_effect i t target now d)"
  using ledger_inv_transition_effect [OF assms(1,2)] assms(2,3)
  by (simp add: keeps_ledger_def ledger_follows_def task_of_transition_effect [OF assms(2)] task_follows_def)

section \<open>The branches of the loop\<close>

text \<open>The keys of the workflow table, as its primary key keeps them.\<close>

abbreviation workflow_keys :: "db \<Rightarrow> bool" where
  "workflow_keys d \<equiv> unique_key wf_task_id (workflows d)"

lemma workflow_keys_same:
  "map wf_task_id (workflows d') = map wf_task_id (workflows d) \<Longrightarrow> workflow_keys d' = workflow_keys d"
  by (simp add: unique_key_def)

lemma update_workflows_Inr:
  assumes "update_workflows hit f d = Inr (n, d')"
  shows "n = rowcount hit (workflows d) \<and> d' = d\<lparr>workflows := update_where hit f (workflows d)\<rparr>"
  using assms by (auto simp: update_workflows_def split: if_splits)

lemma wf_event_written:
  assumes "wf_event i kind wv tv ph st now d = Inr d'"
  shows "\<exists>e. d' = d\<lparr>workflow_events := workflow_events d @ [e]\<rparr> \<and> we_task_id e = i \<and> we_kind e = kind"
  by (rule wf_event_adds [OF assms]) (rule exI, rule conjI, assumption, simp)

lemma close_action_targets:
  "action \<in> {''done'', ''drop''} \<Longrightarrow> \<exists>target. targets action = Some ([TaskOpen], target) \<and> target \<noteq> TaskOpen"
  by (auto simp: targets_def)

text \<open>A card or a forge that ends an open task with its workflow always succeeds.\<close>

lemma apply_review_lifecycle_action_Inr:
  assumes "ledger_inv d" and "workflow_keys d" and "task_of i d = Some t" and "tk_status t = TaskOpen"
    and "workflow_of i d = Some w" and "action \<in> {''done'', ''drop''}"
    and "apply_review_lifecycle_action \<lparr>lv_task_id = i, lv_task_version = tk_version t,
           lv_workflow_version = wf_version w, lv_phase = wf_phase w\<rparr> action now d = Inr (r, d')"
  obtains target e where "target \<noteq> TaskOpen" "targets action = Some ([TaskOpen], target)" "xr_accepted r"
    "d' = (transition_effect i t target now d)\<lparr>
       workflows := update_where (\<lambda>x. wf_task_id x = i \<and> wf_version x = wf_version w)
         (\<lambda>x. (clear_failure (clear_claim x))\<lparr>wf_task_version := tk_version t + 1,
             wf_status := (if action = ''done'' then WfCompleted else WfCancelled),
             wf_version := wf_version w + 1, wf_due_at := None, wf_updated_at := now,
             wf_completed_at := Some now\<rparr>) (workflows d),
       workflow_events := workflow_events (transition_effect i t target now d) @ [e]\<rparr>"
    "we_task_id e = i" "we_kind e = (if action = ''done'' then ''task_completed'' else ''task_dropped'')"
proof -
  obtain target where tg: "targets action = Some ([TaskOpen], target)" "target \<noteq> TaskOpen"
    using close_action_targets [OF assms(6)] by blast
  have tr: "apply_task_transition i (tk_version t) action now d =
    (\<lparr>tr_disposition = TrApplied, tr_task_id = i, tr_version = Some (tk_version t + 1),
      tr_status = Some target, tr_refusal = None\<rparr>, transition_effect i t target now d)"
    by (rule apply_transition_Some [OF ledger_invD(1) [OF assms(1)] assms(3) tg(1)])
      (use assms(4) in simp_all)
  have n: "rowcount (\<lambda>x. wf_task_id x = i \<and> wf_version x = wf_version w) (workflows d) = 1"
    using rowcount_unique [OF assms(2), of i "\<lambda>x. wf_version x = wf_version w"] assms(5) by simp
  let ?hit = "\<lambda>x. wf_task_id x = i \<and> wf_version x = wf_version w"
  let ?f = "\<lambda>x. (clear_failure (clear_claim x))\<lparr>wf_task_version := tk_version t + 1,
     wf_status := (if action = ''done'' then WfCompleted else WfCancelled),
     wf_version := wf_version w + 1, wf_due_at := None, wf_updated_at := now, wf_completed_at := Some now\<rparr>"
  let ?d1 = "transition_effect i t target now d"
  let ?ev = "\<lambda>d2. wf_event i (if action = ''done'' then ''task_completed'' else ''task_dropped'')
        (wf_version w + 1) (tk_version t + 1) (wf_phase w)
        (if action = ''done'' then WfCompleted else WfCancelled) now d2"
  note eq = assms(7) [unfolded apply_review_lifecycle_action_def Let_def lifecycle_row_view.simps tr
      prod.case tr_accepted_applied not_True_eq_False if_False transition_result.simps option.sel]
  obtain m d2 where u: "update_workflows ?hit ?f ?d1 = Inr (m, d2)"
    using eq by (cases "update_workflows ?hit ?f ?d1") auto
  have d2: "m = 1" "d2 = ?d1\<lparr>workflows := update_where ?hit ?f (workflows d)\<rparr>"
    using update_workflows_Inr [OF u] n by simp_all
  obtain d3 where d3: "?ev d2 = Inr d3" "d' = d3" "xr_disposition r = WdApplied"
    using eq unfolding u by (cases "?ev d2") (auto simp: d2(1))
  from wf_event_written [OF d3(1)] obtain e where e: "d3 = d2\<lparr>workflow_events := workflow_events d2 @ [e]\<rparr>"
    "we_task_id e = i" "we_kind e = (if action = ''done'' then ''task_completed'' else ''task_dropped'')" by blast
  show thesis
  proof (rule that [OF tg(2,1), of e])
    show "xr_accepted r" using d3(3) by (simp add: xr_accepted_def)
    show "d' = ?d1\<lparr>workflows := update_where ?hit ?f (workflows d), workflow_events := workflow_events ?d1 @ [e]\<rparr>"
      using d3(2) e(1) d2(2) by simp
  qed (rule e)+
qed

lemma record_change_frame:
  assumes "record_change kind i before after summary now d = Inr d'"
  shows "tasks d' = tasks d" "work_items d' = work_items d" "workflows d' = workflows d"
    "task_events d' = task_events d" "workflow_events d' = workflow_events d"
    "bindings d' = bindings d" "lifecycles d' = lifecycles d" "feeds d' = feeds d"
  using assms by (auto simp: record_change_def split: if_splits)

lemma workflow_keys_update:
  assumes "\<And>x. wf_task_id (f x) = wf_task_id x"
  shows "map wf_task_id (update_where hit f ws) = map wf_task_id ws"
  using assms by (rule map_update_where)

lemma clear_simps [simp]:
  "wf_task_id (clear_claim w) = wf_task_id w" "wf_task_id (clear_failure w) = wf_task_id w"
  "wf_version (clear_claim w) = wf_version w" "wf_version (clear_failure w) = wf_version w"
  by (simp_all add: clear_claim_def clear_failure_def)

definition forge_target :: "candidate \<Rightarrow> task_status" where
  "forge_target c = (if cn_reason c \<in> {Some ''issue_not_planned'', Some ''pr_closed''} then TaskDropped else TaskDone)"

lemma targets_forge [simp]: "targets (forge_action c) = Some ([TaskOpen], forge_target c)"
  by (simp add: forge_action_def forge_target_def targets_def)

lemma forge_action_mem: "forge_action c \<in> {''done'', ''drop''}"
  by (simp add: forge_action_def)

lemma forge_target_closed [simp]: "forge_target c \<noteq> TaskOpen" "TaskOpen \<noteq> forge_target c"
  by (simp_all add: forge_target_def)

text \<open>
  A forge item that ends either leaves the database alone or closes the task, ends its workflow
  and records the change.
\<close>

lemma close_for_forge_cases:
  assumes "ledger_inv d" and "workflow_keys d" and "task_of i d = Some t"
    and "close_for_forge_source c t now d = Inr (closed, d')"
  obtains (left) "closed = None" "d' = d"
  | (ended) "closed = Some (tk_version t + 1)" "tk_status t = TaskOpen" "cn_kind c \<in> set FORGE_SOURCE_KINDS"
      "tasks d' = tasks (transition_effect i t (forge_target c) now d)"
      "work_items d' = work_items (transition_effect i t (forge_target c) now d)"
      "map wf_task_id (workflows d') = map wf_task_id (workflows d)" "feeds d' = feeds d"
proof (cases "cn_kind c \<notin> set FORGE_SOURCE_KINDS \<or> tk_status t \<noteq> TaskOpen
    \<or> (\<exists>w. workflow_of i d = Some w \<and> wf_status w = WfRunning)")
  case True
  have "tk_id t = i" using assms(3) by (rule row_of_key)
  then show thesis using left True assms(4) by (auto simp: close_for_forge_source_def Let_def split: if_splits)
next
  case False
  have i: "tk_id t = i" using assms(3) by (rule row_of_key)
  have op: "tk_status t = TaskOpen" "cn_kind c \<in> set FORGE_SOURCE_KINDS" using False by auto
  let ?tr = "transition_effect i t (forge_target c) now d"
  have tr: "apply_task_transition i (tk_version t) (forge_action c) now d =
    (\<lparr>tr_disposition = TrApplied, tr_task_id = i, tr_version = Some (tk_version t + 1),
      tr_status = Some (forge_target c), tr_refusal = None\<rparr>, ?tr)"
    by (rule apply_transition_Some [OF ledger_invD(1) [OF assms(1)] assms(3) targets_forge]) (simp_all add: op)
  have t1: "task_of i ?tr = Some (t\<lparr>tk_status := forge_target c, tk_version := tk_version t + 1,
      tk_updated_at := now, tk_closed_at := Some now\<rparr>)"
    by (simp add: task_of_transition_effect [OF assms(3)])
  have run: "\<not> (case workflow_of i d of None \<Rightarrow> False | Some w \<Rightarrow> wf_status w = WfRunning)"
    using False by (auto split: option.splits)
  let ?close = "case workflow_of i d of
      Some w \<Rightarrow>
        if wf_status w \<notin> {WfCompleted, WfCancelled}
        then rbind (apply_review_lifecycle_action \<lparr>lv_task_id = i, lv_task_version = tk_version t,
            lv_workflow_version = wf_version w, lv_phase = wf_phase w\<rparr> (forge_action c) now d)
          (\<lambda>(r, d1). Inr (xr_accepted r, d1))
        else Inr (True, ?tr)
    | None \<Rightarrow> Inr (True, ?tr)"
  have eq: "rbind ?close (\<lambda>(accepted, d1).
      if \<not> accepted then Inr (None, d1)
      else case task_of i d1 of
          None \<Rightarrow> Inl (TypeError ''NoneType is not subscriptable'')
        | Some t1 \<Rightarrow>
            rbind (record_change ''source_closed'' i (snapshot t (workflow_of i d))
                (snapshot t1 (workflow_of i d1)) (source_closed_summary c) now d1)
              (\<lambda>d2. Inr (Some (tk_version t1), d2))) = Inr (closed, d')"
    using assms(4) op run
    unfolding close_for_forge_source_def i Let_def tr prod.case eqTrueI [OF tr_accepted_applied]
    by simp
  have ok: "\<exists>d1. ?close = Inr (True, d1) \<and> tasks d1 = tasks ?tr \<and> work_items d1 = work_items ?tr
      \<and> map wf_task_id (workflows d1) = map wf_task_id (workflows d) \<and> feeds d1 = feeds d"
  proof (cases "workflow_of i d")
    case None
    then show ?thesis by simp
  next
    case (Some w)
    show ?thesis
    proof (cases "wf_status w \<in> {WfCompleted, WfCancelled}")
      case True
      then show ?thesis using Some by simp
    next
      case nt: False
      let ?a = "apply_review_lifecycle_action \<lparr>lv_task_id = i, lv_task_version = tk_version t,
            lv_workflow_version = wf_version w, lv_phase = wf_phase w\<rparr> (forge_action c) now d"
      obtain r d1 where a: "?a = Inr (r, d1)"
        using eq Some nt by (cases ?a) auto
      show ?thesis
      proof (rule apply_review_lifecycle_action_Inr [OF assms(1,2,3) op(1) Some forge_action_mem a])
        fix target e
        assume h: "targets (forge_action c) = Some ([TaskOpen], target)" "xr_accepted r"
          "d1 = (transition_effect i t target now d)\<lparr>
             workflows := update_where (\<lambda>x. wf_task_id x = i \<and> wf_version x = wf_version w)
               (\<lambda>x. (clear_failure (clear_claim x))\<lparr>wf_task_version := tk_version t + 1,
                   wf_status := (if forge_action c = ''done'' then WfCompleted else WfCancelled),
                   wf_version := wf_version w + 1, wf_due_at := None, wf_updated_at := now,
                   wf_completed_at := Some now\<rparr>) (workflows d),
             workflow_events := workflow_events (transition_effect i t target now d) @ [e]\<rparr>"
        show ?thesis
          using Some nt a h(2) h(1) unfolding h(3) by (simp add: map_update_where)
      qed
    qed
  qed
  then obtain d1 where d1: "?close = Inr (True, d1)" "tasks d1 = tasks ?tr" "work_items d1 = work_items ?tr"
      "map wf_task_id (workflows d1) = map wf_task_id (workflows d)" "feeds d1 = feeds d" by blast
  then have "task_of i d1 = Some (t\<lparr>tk_status := forge_target c, tk_version := tk_version t + 1,
      tk_updated_at := now, tk_closed_at := Some now\<rparr>)" using t1 by simp
  then obtain d2 where rec: "closed = Some (tk_version t + 1)" "d' = d2"
      "record_change ''source_closed'' i (snapshot t (workflow_of i d))
         (snapshot (t\<lparr>tk_status := forge_target c, tk_version := tk_version t + 1,
            tk_updated_at := now, tk_closed_at := Some now\<rparr>) (workflow_of i d1))
         (source_closed_summary c) now d1 = Inr d2"
    using eq unfolding d1(1) by (auto simp: rbind_Inr_iff)
  show thesis
    by (rule ended [OF rec(1) op]) (use record_change_frame [OF rec(3)] rec(2) d1 in simp_all)
qed

text \<open>Each branch keeps the ledger.\<close>

lemma task_okD: "ledger_inv d \<Longrightarrow> task_of i d = Some t \<Longrightarrow> task_ok t"
  by (auto dest: task_of_mem ledger_invD(2))

lemma keeps_ledger_chain:
  assumes "keeps_ledger d d1" and "tasks d2 = tasks d1"
    and "map wi_task_id (work_items d2) = map wi_task_id (work_items d1)"
    and "map wf_task_id (workflows d2) = map wf_task_id (workflows d1)" and "feeds d2 = feeds d1"
  shows "keeps_ledger d d2"
  using assms(1) keeps_ledger_same [OF _ assms(2-5)] by (auto simp: keeps_ledger_def intro: ledger_follows_trans)

lemma withdrawal_keeps:
  assumes "ledger_inv d" and "workflow_keys d" and "apply_candidate_withdrawal c b l now d = Inr d'"
  shows "keeps_ledger d d'"
proof -
  let ?i = "bd_task_id b"
  obtain t where t: "task_of ?i d = Some t"
    using assms(3) by (cases "task_of ?i d") (simp_all add: apply_candidate_withdrawal_def)
  obtain previous where p: "bound_candidate b d = Inr previous"
    using assms(3) t by (cases "bound_candidate b d") (simp_all add: apply_candidate_withdrawal_def)
  obtain closed d1 where cl: "close_for_forge_source c t now d = Inr (closed, d1)"
    using assms(3) t p by (cases "close_for_forge_source c t now d") (auto simp: apply_candidate_withdrawal_def Let_def)
  note ok = task_okD [OF assms(1) t]
  show ?thesis
  proof (rule close_for_forge_cases [OF assms(1,2) t cl])
    assume h: "closed = None" "d1 = d"
    show ?thesis
    proof (cases "withdrawal_conflict b l t previous d")
      case True
      then show ?thesis
        using assms(1,3) t p cl h by (auto simp: apply_candidate_withdrawal_def Let_def intro!: keeps_ledger_same)
    next
      case False
      then have op: "tk_status t = TaskOpen" by (auto simp: withdrawal_conflict_def)
      show ?thesis
        by (rule keeps_ledger_update [OF assms(1) t,
              of _ "\<lambda>x. x\<lparr>tk_version := tk_version t + 1, tk_updated_at := now\<rparr>"])
          (use assms(3) t p cl h False ok op in
            \<open>auto simp: apply_candidate_withdrawal_def Let_def task_follows_def task_ok_def\<close>)
    qed
  next
    assume h: "closed = Some (tk_version t + 1)" "tk_status t = TaskOpen"
      "tasks d1 = tasks (transition_effect ?i t (forge_target c) now d)"
      "work_items d1 = work_items (transition_effect ?i t (forge_target c) now d)"
      "map wf_task_id (workflows d1) = map wf_task_id (workflows d)" "feeds d1 = feeds d"
    show ?thesis
      by (rule keeps_ledger_chain [OF keeps_ledger_transition [OF assms(1) t h(2)]])
        (use assms(3) t p cl h in \<open>auto simp: apply_candidate_withdrawal_def Let_def\<close>)
  qed
qed

lemma reactivation_keeps:
  assumes "ledger_inv d" and "apply_candidate_reactivation c b l now d = Inr d'"
  shows "keeps_ledger d d'"
proof -
  let ?i = "bd_task_id b"
  obtain t where t: "task_of ?i d = Some t"
    using assms(2) by (cases "task_of ?i d") (simp_all add: apply_candidate_reactivation_def)
  note ok = task_okD [OF assms(1) t]
  show ?thesis
  proof (cases "lc_resolution l = ResReaderConflict \<or> (tk_status t \<noteq> TaskOpen \<and> tk_status t \<noteq> TaskDone)
      \<or> tk_version t \<noteq> lc_task_version l \<or> active_workflow ?i d")
    case True
    then show ?thesis
      using assms t by (auto simp: apply_candidate_reactivation_def Let_def intro!: keeps_ledger_same)
  next
    case False
    let ?g = "\<lambda>x. x\<lparr>tk_status := TaskOpen, tk_closed_at := None\<rparr>"
    let ?h = "\<lambda>x. (task_content c (desired_owner t c) now x)\<lparr>tk_version := tk_version t + 1\<rparr>"
    let ?f = "if tk_status t = TaskDone then ?h \<circ> ?g else ?h"
    have upd: "tasks (update_task ?i ?h (if tk_status t = TaskDone then update_task ?i ?g d else d))
        = tasks (update_task ?i ?f d)"
      by (simp add: update_task_def update_where_def comp_def)
    show ?thesis
      by (rule keeps_ledger_update [OF assms(1) t, of _ ?f])
        (use assms(2) t False ok upd in
          \<open>auto simp: apply_candidate_reactivation_def Let_def task_follows_def task_ok_def task_content_def
             desired_owner_pinned split: if_splits\<close>)
  qed
qed

lemma binding_trigger_frame:
  shows "tasks (binding_trigger cid rvn i now d) = tasks d"
    and "feeds (binding_trigger cid rvn i now d) = feeds d"
    and "workflows (binding_trigger cid rvn i now d) = workflows d"
    and "bindings (binding_trigger cid rvn i now d) = bindings d"
    and "map wi_task_id (work_items (binding_trigger cid rvn i now d))
      = map wi_task_id (work_items d) @ (if work_item_of i d = None then [i] else [])"
  by (simp_all add: binding_trigger_def Let_def feeds_def insert_work_revision_def split: option.split)

lemma work_item_of_None: "work_item_of i d = None \<longleftrightarrow> i \<notin> set (map wi_task_id (work_items d))"
  by (auto simp: work_item_of_def find_None_iff)

lemma insert_task_frame:
  assumes "insert_task c eff now d = (i, d')"
  shows "i = next_id tk_id (tasks d)"
    and "tasks d' = tasks d @ [\<lparr>tk_id = i, tk_status = TaskOpen, tk_text = cn_text c,
             tk_owner = candidate_owner_values c eff, tk_due = cn_due c,
             tk_structure = cn_structure c, tk_version = 1, tk_created_at = now,
             tk_updated_at = now, tk_closed_at = None, tk_working_group = cn_working_group c\<rparr>]"
    and "work_items d' = work_items d" and "workflows d' = workflows d" and "feeds d' = feeds d"
  using assms by (auto simp: insert_task_def Let_def replace_participants_def feeds_def insert_task_event_def)

lemma accept_new_frame:
  assumes "accept_new c now (n, d) = Inr (n', d')"
  obtains i row where "i = next_id tk_id (tasks d)" "tasks d' = tasks d @ [row]" "tk_id row = i"
    "task_ok row" "map wi_task_id (work_items d') = map wi_task_id (work_items d)
      @ (if work_item_of i d = None then [i] else [])" "workflows d' = workflows d" "feeds d' = feeds d"
    "n' = checked i (n\<lparr>ic_created := ic_created n + 1\<rparr>)"
proof -
  obtain i d1 where ins: "insert_task c (cn_owner c) now d = (i, d1)"
    by (cases "insert_task c (cn_owner c) now d")
  note fr = insert_task_frame [OF ins]
  obtain d2 where d2: "insert_binding (cn_id c) (cn_revision c) i now d1 = Inr d2"
    "insert_task_candidate_lifecycle c 1 now d2 = Inr d'" "n' = checked i (n\<lparr>ic_created := ic_created n + 1\<rparr>)"
    using assms ins by (auto simp: accept_new_def rbind_Inr_iff)
  have 1: "tasks d2 = tasks d1" "workflows d2 = workflows d1" "feeds d2 = feeds d1"
    "map wi_task_id (work_items d2) = map wi_task_id (work_items d1)
       @ (if work_item_of i d1 = None then [i] else [])"
    using d2(1) by (auto simp: insert_binding_def binding_trigger_frame work_item_of_def split: if_splits)
  have 2: "tasks d' = tasks d2" "workflows d' = workflows d2" "work_items d' = work_items d2" "feeds d' = feeds d2"
    using d2(2) by (auto simp: insert_task_candidate_lifecycle_def split: if_splits)
  have 3: "work_item_of i d1 = work_item_of i d" using fr by (simp add: work_item_of_def)
  show thesis
    by (rule that [OF fr(1)]) (use fr 1 2 3 d2(3) next_id_positive [of tk_id "tasks d"] in \<open>auto simp: task_ok_def\<close>)
qed

lemma accept_new_keeps:
  assumes "ledger_inv d" and "accept_new c now (n, d) = Inr (n', d')"
  shows "keeps_ledger d d'"
proof -
  obtain i row where h: "i = next_id tk_id (tasks d)" "tasks d' = tasks d @ [row]" "tk_id row = i"
    "task_ok row" "map wi_task_id (work_items d') = map wi_task_id (work_items d)
      @ (if work_item_of i d = None then [i] else [])" "workflows d' = workflows d" "feeds d' = feeds d"
    using accept_new_frame [OF assms(2)] by metis
  have u: "unique_key tk_id (tasks d @ [row])"
    by (rule unique_key_insert) (use assms(1) h in \<open>simp_all add: ledger_inv_def\<close>)
  have "ledger_inv d'"
    using assms(1) u h(2,4,5) work_item_of_None [of i d] by (auto simp: ledger_inv_def unique_key_def)
  then show ?thesis
    using h by (simp add: keeps_ledger_def ledger_follows_def find_append)
qed

lemma resurface_keeps:
  assumes "ledger_inv d" and "task_of (bd_task_id b) d = Some t"
  shows "keeps_ledger d (resurface t c b hc now d)"
proof (cases "resurface t c b hc now d = d")
  case True
  then show ?thesis using keeps_ledger_same [OF assms(1)] by simp
next
  case False
  then have s: "tk_status t = TaskDone" "advances_version t c hc d"
    "unproductive_resurfaces (bd_task_id b) d < MAX_UNPRODUCTIVE_RESURFACES"
    by (auto simp: resurface_def Let_def split: if_splits)
  show ?thesis
    by (rule keeps_ledger_update [OF assms, of _ "\<lambda>x. x\<lparr>tk_status := TaskOpen, tk_closed_at := None\<rparr>"])
      (use s task_okD [OF assms] in \<open>auto simp: resurface_def Let_def task_follows_def task_ok_def\<close>)
qed

lemma resurface_task_of:
  assumes "task_of (bd_task_id b) d = Some t"
  shows "task_of (bd_task_id b) (resurface t c b hc now d)
    = Some (if resurface t c b hc now d = d then t else t\<lparr>tk_status := TaskOpen, tk_closed_at := None\<rparr>)"
  using assms by (auto simp: resurface_def Let_def task_of_update_task)

lemma refresh_keeps:
  assumes "ledger_inv d" and "task_of (bd_task_id b) d = Some t" and "tk_status t = TaskOpen"
    and "ow_pinned (tk_owner t) \<Longrightarrow> owner = tk_owner t"
  shows "keeps_ledger d (refresh_review_request t c b owner now d)"
  by (rule keeps_ledger_update [OF assms(1,2), of _ "task_content c owner now"])
    (use assms(3,4) task_okD [OF assms(1,2)] in
      \<open>auto simp: refresh_review_request_def Let_def task_content_def task_follows_def task_ok_def\<close>)

lemma fold_revision_keeps:
  assumes "ledger_inv d" and "task_of (bd_task_id b) d = Some t" and "tk_status t = TaskOpen"
    and "ow_pinned (tk_owner t) \<Longrightarrow> owner = tk_owner t" and "fold_revision t c b owner now d = Inr d'"
  shows "keeps_ledger d d'"
  by (rule keeps_ledger_update [OF assms(1,2),
        of _ "\<lambda>x. (task_content c owner now x)\<lparr>tk_version := tk_version t + 1\<rparr>"])
    (use assms(3,4,5) task_okD [OF assms(1,2)] in
      \<open>auto simp: fold_revision_def append_work_revision_def Let_def task_content_def task_follows_def
        task_ok_def rbind_Inr_iff split: option.splits\<close>)

text \<open>An enrichment writes the registry id and the working group of the row, nothing else.\<close>

definition enriched :: "candidate \<Rightarrow> owner_state \<Rightarrow> time \<Rightarrow> task_row \<Rightarrow> task_row \<Rightarrow> bool" where
  "enriched c owner now t t' \<longleftrightarrow>
     t' = t\<lparr>tk_owner := (tk_owner t)\<lparr>ow_speaker_registry_id := ow_speaker_registry_id owner\<rparr>,
        tk_working_group := cn_working_group c, tk_updated_at := tk_updated_at t'\<rparr>"

lemma enrich_update:
  assumes "task_of (bd_task_id b) d = Some t"
  obtains f where "tasks (snd (enrich_evidence t c b owner now (n, d))) = tasks (update_task (bd_task_id b) f d)"
    "\<And>x. tk_id (f x) = tk_id x" "enriched c owner now t (f t)"
proof -
  let ?g = "\<lambda>x. x\<lparr>tk_owner := (tk_owner x)\<lparr>ow_speaker_registry_id := ow_speaker_registry_id owner\<rparr>,
     tk_updated_at := now\<rparr>"
  let ?h = "\<lambda>x. x\<lparr>tk_working_group := cn_working_group c, tk_updated_at := now\<rparr>"
  let ?f = "(if tk_working_group t \<noteq> cn_working_group c then ?h else (\<lambda>x. x))
    \<circ> (if ow_speaker_registry_id (tk_owner t) \<noteq> ow_speaker_registry_id owner then ?g else (\<lambda>x. x))"
  have "tasks (snd (enrich_evidence t c b owner now (n, d))) = tasks (update_task (bd_task_id b) ?f d)"
    by (auto simp: enrich_evidence_def Let_def update_task_def update_where_def comp_def replace_participants_def)
  then show thesis by (rule that) (auto simp: enriched_def)
qed

lemma enrich_keeps:
  assumes "ledger_inv d" and "task_of (bd_task_id b) d = Some t" and "tk_status t = TaskOpen"
    and "ow_pinned (tk_owner t) \<Longrightarrow> owner = tk_owner t"
  shows "keeps_ledger d (snd (enrich_evidence t c b owner now (n, d)))"
proof -
  obtain f where f: "tasks (snd (enrich_evidence t c b owner now (n, d))) = tasks (update_task (bd_task_id b) f d)"
    "\<And>x. tk_id (f x) = tk_id x" "enriched c owner now t (f t)"
    by (rule enrich_update [OF assms(2), of c owner now n]) blast
  have "f t = t\<lparr>tk_owner := (tk_owner t)\<lparr>ow_speaker_registry_id := ow_speaker_registry_id owner\<rparr>,
     tk_working_group := cn_working_group c, tk_updated_at := tk_updated_at (f t)\<rparr>"
    using f(3) by (simp add: enriched_def)
  then obtain u where u: "f t = t\<lparr>tk_owner := (tk_owner t)\<lparr>ow_speaker_registry_id := ow_speaker_registry_id owner\<rparr>,
     tk_working_group := cn_working_group c, tk_updated_at := u\<rparr>" by blast
  show ?thesis
    by (rule keeps_ledger_update [OF assms(1,2) f(1) _ _ _ f(2)])
      (use assms(3,4) task_okD [OF assms(1,2)] in
        \<open>auto simp: enrich_evidence_def Let_def u task_follows_def task_ok_def\<close>)
qed

text \<open>The four ways the tail of the loop body ends.\<close>

lemma accept_revision_cases:
  assumes "accept_revision c b now (n, d) = Inr (n', d')"
  obtains t0 previous hc owner d1 t n1 where
    "task_of (bd_task_id b) d = Some t0" "bound_candidate b d = Inr previous"
    "hc = review_head_changed previous c" "owner = desired_owner t0 c"
    "d1 = resurface t0 c b hc now d" "task_of (bd_task_id b) d1 = Some t"
    "t = (if d1 = d then t0 else t0\<lparr>tk_status := TaskOpen, tk_closed_at := None\<rparr>)"
    "n1 = (if duplicate_comparable_changed t0 c d then checked (bd_task_id b) n else n)"
    "(tk_status t \<noteq> TaskOpen \<and> n' = n\<lparr>ic_after_close := ic_after_close n + 1\<rparr>
        \<and> d' = acknowledge_revision_after_close c b t now d1)
      \<or> (tk_status t = TaskOpen \<and> cn_kind c = ''review_request'' \<and> \<not> hc \<and> n' = revised n1
        \<and> d' = refresh_review_request t c b owner now d1)
      \<or> (tk_status t = TaskOpen \<and> \<not> (cn_kind c = ''review_request'' \<and> \<not> hc)
        \<and> same_work t c owner hc d1 \<and> (n', d') = enrich_evidence t c b owner now (n, d1))
      \<or> (tk_status t = TaskOpen \<and> \<not> (cn_kind c = ''review_request'' \<and> \<not> hc)
        \<and> \<not> same_work t c owner hc d1 \<and> n' = revised n1 \<and> fold_revision t c b owner now d1 = Inr d')"
proof -
  let ?i = "bd_task_id b"
  obtain t0 where t0: "task_of ?i d = Some t0"
    using assms by (cases "task_of ?i d") (simp_all add: accept_revision_def)
  obtain previous where p: "bound_candidate b d = Inr previous"
    using assms t0 by (cases "bound_candidate b d") (simp_all add: accept_revision_def)
  define hc where "hc = review_head_changed previous c"
  define d1 where "d1 = resurface t0 c b hc now d"
  define t where "t = (if d1 = d then t0 else t0\<lparr>tk_status := TaskOpen, tk_closed_at := None\<rparr>)"
  have t: "task_of ?i d1 = Some t" unfolding t_def d1_def by (rule resurface_task_of [OF t0])
  have "(if tk_status t \<noteq> TaskOpen
      then Inr (n\<lparr>ic_after_close := ic_after_close n + 1\<rparr>, acknowledge_revision_after_close c b t now d1)
      else if cn_kind c = ''review_request'' \<and> \<not> hc
      then Inr (revised (if duplicate_comparable_changed t0 c d then checked ?i n else n),
        refresh_review_request t c b (desired_owner t0 c) now d1)
      else if same_work t c (desired_owner t0 c) hc d1
      then Inr (enrich_evidence t c b (desired_owner t0 c) now (n, d1))
      else rbind (fold_revision t c b (desired_owner t0 c) now d1)
        (\<lambda>d2. Inr (revised (if duplicate_comparable_changed t0 c d then checked ?i n else n), d2)))
    = Inr (n', d')"
    using assms [unfolded accept_revision_def Let_def prod.case t0 option.case p rbind.simps
      hc_def [symmetric] d1_def [symmetric] t] .
  note end_eq = this
  show thesis
    by (rule that [OF t0 p hc_def refl d1_def t t_def refl]) (use end_eq in \<open>auto simp: rbind_Inr_iff split: if_splits\<close>)
qed

lemma accept_revision_keeps:
  assumes "ledger_inv d" and "accept_revision c b now (n, d) = Inr (n', d')"
  shows "keeps_ledger d d'"
proof (rule accept_revision_cases [OF assms(2)])
  fix t0 previous hc owner d1 t n1
  assume t0: "task_of (bd_task_id b) d = Some t0" and owner: "owner = desired_owner t0 c"
    and d1: "d1 = resurface t0 c b hc now d" and t: "task_of (bd_task_id b) d1 = Some t"
    and t_def: "t = (if d1 = d then t0 else t0\<lparr>tk_status := TaskOpen, tk_closed_at := None\<rparr>)"
    and ends: "(tk_status t \<noteq> TaskOpen \<and> n' = n\<lparr>ic_after_close := ic_after_close n + 1\<rparr>
        \<and> d' = acknowledge_revision_after_close c b t now d1)
      \<or> (tk_status t = TaskOpen \<and> cn_kind c = ''review_request'' \<and> \<not> hc \<and> n' = revised n1
        \<and> d' = refresh_review_request t c b owner now d1)
      \<or> (tk_status t = TaskOpen \<and> \<not> (cn_kind c = ''review_request'' \<and> \<not> hc)
        \<and> same_work t c owner hc d1 \<and> (n', d') = enrich_evidence t c b owner now (n, d1))
      \<or> (tk_status t = TaskOpen \<and> \<not> (cn_kind c = ''review_request'' \<and> \<not> hc)
        \<and> \<not> same_work t c owner hc d1 \<and> n' = revised n1 \<and> fold_revision t c b owner now d1 = Inr d')"
  have pin: "ow_pinned (tk_owner t) \<Longrightarrow> owner = tk_owner t"
    by (auto simp: t_def owner desired_owner_pinned split: if_splits)
  have k1: "keeps_ledger d d1" unfolding d1 by (rule resurface_keeps [OF assms(1) t0])
  then have inv1: "ledger_inv d1" by (simp add: keeps_ledger_def)
  have "keeps_ledger d1 d'"
    using ends
  proof (elim disjE conjE)
    assume "d' = acknowledge_revision_after_close c b t now d1"
    then show ?thesis
      using inv1 by (auto simp: acknowledge_revision_after_close_def Let_def intro!: keeps_ledger_same)
  next
    assume "tk_status t = TaskOpen" "d' = refresh_review_request t c b owner now d1"
    then show ?thesis using refresh_keeps [OF inv1 t _ pin] by simp
  next
    assume "tk_status t = TaskOpen" "(n', d') = enrich_evidence t c b owner now (n, d1)"
    then show ?thesis using enrich_keeps [OF inv1 t _ pin, where n = n] by (metis snd_conv)
  next
    assume "tk_status t = TaskOpen" "fold_revision t c b owner now d1 = Inr d'"
    then show ?thesis using fold_revision_keeps [OF inv1 t _ pin] by simp
  qed
  with k1 show ?thesis by (rule keeps_ledger_trans)
qed

lemma accept_candidate_cases:
  assumes "accept_candidate c now (n, d) = Inr (n', d')"
  obtains (unchanged) "d' = d" "n' = unchanged_one n \<or> n' = withdrawn_one n"
  | (created) "bound_row (cn_id c) d = None" "accept_new c now (n, d) = Inr (n', d')"
  | (withdrawal) b l where "bound_row (cn_id c) d = Some (b, l)"
      "apply_candidate_withdrawal c b l now d = Inr d'" "n' = withdrawn_one n"
  | (reactivation) b l where "bound_row (cn_id c) d = Some (b, l)" "lc_state l = LifeWithdrawn"
      "apply_candidate_reactivation c b l now d = Inr d'" "n' = revised (checked (bd_task_id b) n)"
  | (revision) b l where "bound_row (cn_id c) d = Some (b, l)" "lc_state l = LifeActive"
      "accept_revision c b now (n, d) = Inr (n', d')"
proof (cases "bound_row (cn_id c) d")
  case None
  then show thesis
    using assms unchanged created
    by (auto simp: accept_candidate_def Let_def split: if_splits)
next
  case (Some bl)
  obtain b l where bl: "bl = (b, l)" by (cases bl)
  show thesis
  proof (cases "d' = d \<and> n' = unchanged_one n")
    case True
    then show thesis using unchanged by blast
  next
    case False
    then have "(cn_state c = LifeWithdrawn \<and> apply_candidate_withdrawal c b l now d = Inr d' \<and> n' = withdrawn_one n)
      \<or> (lc_state l = LifeWithdrawn \<and> apply_candidate_reactivation c b l now d = Inr d'
          \<and> n' = revised (checked (bd_task_id b) n))
      \<or> (lc_state l \<noteq> LifeWithdrawn \<and> accept_revision c b now (n, d) = Inr (n', d'))"
      using assms Some bl by (auto simp: accept_candidate_def Let_def rbind_Inr_iff split: if_splits)
    then show thesis
      using Some bl withdrawal [of b l] reactivation [of b l] revision [of b l]
      by (cases "lc_state l") auto
  qed
qed

lemma accept_candidate_keeps:
  assumes "ledger_inv d" and "workflow_keys d" and "accept_candidate c now (n, d) = Inr (n', d')"
  shows "keeps_ledger d d'"
  using assms(3)
proof (cases rule: accept_candidate_cases)
  case unchanged
  then show ?thesis using keeps_ledger_same [OF assms(1)] by simp
next
  case created
  show ?thesis by (rule accept_new_keeps [OF assms(1) created(2)])
next
  case (withdrawal b l)
  show ?thesis by (rule withdrawal_keeps [OF assms(1,2) withdrawal(2)])
next
  case (reactivation b l)
  show ?thesis by (rule reactivation_keeps [OF assms(1) reactivation(3)])
next
  case (revision b l)
  show ?thesis by (rule accept_revision_keeps [OF assms(1) revision(3)])
qed

text \<open>Every candidate of the page is counted once.\<close>

definition handled :: "intake_counts \<Rightarrow> nat" where
  "handled n = ic_created n + ic_revised n + ic_unchanged n + ic_withdrawn n + ic_after_close n"

lemma handled_simps [simp]:
  "handled (checked i n) = handled n" "handled (revised n) = Suc (handled n)"
  "handled (unchanged_one n) = Suc (handled n)" "handled (withdrawn_one n) = Suc (handled n)"
  "handled no_counts = 0"
  "handled (n\<lparr>ic_created := Suc (ic_created n)\<rparr>) = Suc (handled n)"
  "handled (n\<lparr>ic_after_close := Suc (ic_after_close n)\<rparr>) = Suc (handled n)"
  by (simp_all add: handled_def checked_def revised_def unchanged_one_def withdrawn_one_def no_counts_def)

lemma handled_enrich: "(n', d') = enrich_evidence t c b owner now (n, d) \<Longrightarrow> handled n' = Suc (handled n)"
  by (simp add: enrich_evidence_def Let_def split_beta split: if_splits)

lemma accept_candidate_counts:
  assumes "accept_candidate c now (n, d) = Inr (n', d')"
  shows "handled n' = Suc (handled n)"
  using assms
proof (cases rule: accept_candidate_cases)
  case created
  show ?thesis by (rule accept_new_frame [OF created(2)]) simp
next
  case (revision b l)
  show ?thesis
  proof (rule accept_revision_cases [OF revision(3)])
    fix t0 previous hc owner d1 t n1
    assume "n1 = (if duplicate_comparable_changed t0 c d then checked (bd_task_id b) n else n)"
    then have n1: "handled n1 = handled n" by simp
    assume "(tk_status t \<noteq> TaskOpen \<and> n' = n\<lparr>ic_after_close := ic_after_close n + 1\<rparr>
        \<and> d' = acknowledge_revision_after_close c b t now d1)
      \<or> (tk_status t = TaskOpen \<and> cn_kind c = ''review_request'' \<and> \<not> hc \<and> n' = revised n1
        \<and> d' = refresh_review_request t c b owner now d1)
      \<or> (tk_status t = TaskOpen \<and> \<not> (cn_kind c = ''review_request'' \<and> \<not> hc)
        \<and> same_work t c owner hc d1 \<and> (n', d') = enrich_evidence t c b owner now (n, d1))
      \<or> (tk_status t = TaskOpen \<and> \<not> (cn_kind c = ''review_request'' \<and> \<not> hc)
        \<and> \<not> same_work t c owner hc d1 \<and> n' = revised n1 \<and> fold_revision t c b owner now d1 = Inr d')"
    then show ?thesis using n1 handled_enrich by (elim disjE conjE) auto
  qed
qed auto

section \<open>The page\<close>

lemma accept_rows_keeps:
  assumes "accept_rows producer now rs expected (n, d) = Inr (n', d')" and "ledger_inv d" and "workflow_keys d"
  shows "keeps_ledger d d' \<and> handled n' = handled n + length rs
    \<and> (rs \<noteq> [] \<longrightarrow> fr_sequence (last rs) = expected + int (length rs) - 1)"
  using assms
proof (induction rs arbitrary: expected n d)
  case Nil
  then show ?case using keeps_ledger_same [of d d] by simp
next
  case (Cons r rs)
  then obtain c n1 d1 where seq: "fr_sequence r = expected"
    and one: "accept_candidate c now (n, d) = Inr (n1, d1)"
    and rest: "accept_rows producer now rs (expected + 1) (n1, d1) = Inr (n', d')"
    by (auto simp: rbind_Inr_iff split: if_splits)
  have k: "keeps_ledger d d1" by (rule accept_candidate_keeps [OF Cons.prems(2,3) one])
  have inv1: "ledger_inv d1" "workflow_keys d1"
    using k workflow_keys_same [of d1 d] Cons.prems(3) unfolding keeps_ledger_def by blast+
  note IH = Cons.IH [OF rest inv1]
  show ?case
    using IH keeps_ledger_trans [OF k] accept_candidate_counts [OF one] seq by (cases rs) auto
qed

lemma enqueue_frame:
  assumes "enqueue now i d = Inr d'"
  shows "tasks d' = tasks d \<and> work_items d' = work_items d \<and> workflows d' = workflows d
    \<and> task_events d' = task_events d \<and> feeds d' = feeds d"
  using assms by (auto simp: enqueue_def Let_def split: option.splits)

lemma each_enqueue_frame:
  assumes "each (enqueue now) is d = Inr d'"
  shows "tasks d' = tasks d \<and> work_items d' = work_items d \<and> workflows d' = workflows d
    \<and> task_events d' = task_events d \<and> feeds d' = feeds d"
  by (rule each_keeps [where P = "\<lambda>d d'. tasks d' = tasks d \<and> work_items d' = work_items d
    \<and> workflows d' = workflows d \<and> task_events d' = task_events d \<and> feeds d' = feeds d", OF _ _ _ assms])
    (simp, simp, rule enqueue_frame)

section \<open>The whole call\<close>

definition intake_inv :: "db \<Rightarrow> bool" where
  "intake_inv d \<longleftrightarrow> ledger_inv d \<and> workflow_keys d
     \<and> unique_key (\<lambda>x. (ni_producer x, ni_stream_id x)) (intakes d)"

lemma feed_rows_bounds:
  "length (feed_rows producer stream previous current limit d) \<le> nat limit"
  "r \<in> set (feed_rows producer stream previous current limit d) \<Longrightarrow> fr_sequence r \<le> current"
  unfolding feed_rows_def by (auto dest!: in_set_takeD)

lemma intake_of_row: "intake_of producer stream d
    = row_of (\<lambda>x. (ni_producer x, ni_stream_id x)) (producer, stream) (intakes d)"
  by (simp add: intake_of_def)

lemma intake_of_ids: "intake_of p s d = Some x \<Longrightarrow> ni_producer x = p \<and> ni_stream_id x = s"
  unfolding intake_of_def by (drule find_SomeD) simp

lemma intake_of_advanced:
  assumes "unique_key (\<lambda>x. (ni_producer x, ni_stream_id x)) (intakes d)" and "intake_of p s d = Some x"
  shows "intake_of p s (d\<lparr>intakes := update_where
      (\<lambda>y. ni_producer y = p \<and> ni_stream_id y = s \<and> ni_cursor y = ni_cursor x)
      (\<lambda>y. y\<lparr>ni_cursor := v, ni_updated_at := now\<rparr>) (intakes d)\<rparr>)
    = Some (x\<lparr>ni_cursor := v, ni_updated_at := now\<rparr>)"
proof -
  have "(ni_producer x, ni_stream_id x) = (p, s)"
    using assms(2) unfolding intake_of_row by (rule row_of_key)
  note eq = find_update_where [where key = "\<lambda>x. (ni_producer x, ni_stream_id x)" and k = "(p, s)"
      and f = "\<lambda>y. y\<lparr>ni_cursor := v, ni_updated_at := now\<rparr>" and rows = "intakes d"
      and P = "\<lambda>y. ni_producer y = p \<and> ni_stream_id y = s \<and> ni_cursor y = ni_cursor x"]
  with \<open>(ni_producer x, ni_stream_id x) = (p, s)\<close> show ?thesis
    using assms(2) by (simp add: intake_of_def)
qed

text \<open>The transaction: refused or unchanged without a write, or the page and the cursor together.\<close>

lemma intake_tx_cases:
  assumes "intake_inv d" and "intake_tx producer stream limit now d = Inr (r, d')" and "1 \<le> limit"
  obtains (idle) "d' = d" "nr_disposition r \<noteq> NdApplied"
  | (applied) x rows n d1 where "intake_of producer stream d = Some x"
      "rows = feed_rows producer stream (ni_cursor x) (feed_cursor_of producer stream d) limit d" "rows \<noteq> []"
      "accept_rows producer now rows (ni_cursor x + 1) (no_counts, d) = Inr (n, d1)"
      "nr_disposition r = NdApplied" "nr_previous_cursor r = ni_cursor x"
      "nr_current_cursor r = ni_cursor x + int (handled n)" "nr_counts r = n"
      "nr_remaining r = feed_cursor_of producer stream d - nr_current_cursor r" "0 \<le> nr_remaining r"
      "handled n = length rows" "int (length rows) \<le> limit"
      "intake_of producer stream d' = Some (x\<lparr>ni_cursor := nr_current_cursor r, ni_updated_at := now\<rparr>)"
      "tasks d' = tasks d1" "work_items d' = work_items d1" "workflows d' = workflows d1"
      "task_events d' = task_events d1" "feed_items d' = feed_items d" "feed_cursors d' = feed_cursors d"
      "revision_history d' = revision_history d"
proof (cases "intake_of producer stream d")
  case None
  then have "d' = d \<and> r = intake_refused NrNotActivated" using assms(2) by (auto simp: intake_tx_def)
  then show thesis using idle by (simp add: intake_refused_def)
next
  case (Some x)
  let ?feed = "feed_cursor_of producer stream d"
  let ?rows = "feed_rows producer stream (ni_cursor x) ?feed limit d"
  show thesis
  proof (cases "?rows = []")
    case True
    then show thesis using assms(2) Some idle by (auto simp: intake_tx_def Let_def split: if_splits)
  next
    case ne: False
    let ?cur = "fr_sequence (last ?rows)"
    let ?hit = "\<lambda>y. ni_producer y = producer \<and> ni_stream_id y = stream \<and> ni_cursor y = ni_cursor x"
    obtain n d1 d4 where rows: "accept_rows producer now ?rows (ni_cursor x + 1) (no_counts, d) = Inr (n, d1)"
      and e: "each (enqueue now) (sort (ic_checks n)) (native_intake_event \<lparr>ne_producer = producer,
           ne_stream_id = stream, ne_kind = IntakeAdvanced, ne_from_cursor = ni_cursor x, ne_to_cursor = ?cur,
           ne_tasks_created = ic_created n, ne_tasks_revised = ic_revised n,
           ne_candidates_unchanged = ic_unchanged n, ne_occurred_at = now\<rparr>
         (d1\<lparr>intakes := update_where ?hit (\<lambda>y. y\<lparr>ni_cursor := ?cur, ni_updated_at := now\<rparr>) (intakes d1)\<rparr>))
         = Inr d4"
      and r: "r = \<lparr>nr_disposition = NdApplied, nr_refusal = None, nr_previous_cursor = ni_cursor x,
           nr_current_cursor = ?cur, nr_counts = n, nr_remaining = ?feed - ?cur\<rparr>" "d' = d4"
      using assms(2) Some ne intake_of_ids [OF Some]
      by (auto simp: intake_tx_def finish_page_def Let_def rbind_Inr_iff split: if_splits)
    have inv: "ledger_inv d" "workflow_keys d" using assms(1) by (auto simp: intake_inv_def)
    note k = accept_rows_keeps [OF rows inv]
    have cur: "?cur = ni_cursor x + int (handled n)" using k ne by simp
    have fd: "feeds d1 = feeds d" using k by (simp add: keeps_ledger_def)
    note fr = each_enqueue_frame [OF e]
    have it: "intakes d4 = update_where ?hit (\<lambda>y. y\<lparr>ni_cursor := ?cur, ni_updated_at := now\<rparr>) (intakes d)"
      using fr fd by (simp add: feeds_def native_intake_event_def)
    have "intake_of producer stream d4 = intake_of producer stream
        (d\<lparr>intakes := update_where ?hit (\<lambda>y. y\<lparr>ni_cursor := ?cur, ni_updated_at := now\<rparr>) (intakes d)\<rparr>)"
      using it by (simp add: intake_of_def)
    also have "\<dots> = Some (x\<lparr>ni_cursor := ?cur, ni_updated_at := now\<rparr>)"
      by (rule intake_of_advanced [OF _ Some]) (use assms(1) in \<open>simp add: intake_inv_def\<close>)
    finally have io: "intake_of producer stream d4 = Some (x\<lparr>ni_cursor := ?cur, ni_updated_at := now\<rparr>)" .
    have le: "?cur \<le> ?feed" using feed_rows_bounds(2) last_in_set [OF ne] by blast
    have len: "int (length ?rows) \<le> limit"
      using feed_rows_bounds(1) [of producer stream "ni_cursor x" ?feed limit d] assms(3) by linarith
    have tabs: "tasks d4 = tasks d1" "work_items d4 = work_items d1" "workflows d4 = workflows d1"
      "task_events d4 = task_events d1" "feed_items d4 = feed_items d" "feed_cursors d4 = feed_cursors d"
      "revision_history d4 = revision_history d"
      using fr fd by (simp_all add: feeds_def native_intake_event_def)
    show thesis
      by (rule applied [OF Some refl ne rows]) (use r cur k io le len tabs in simp_all)
  qed
qed

lemma accept_native_cases:
  assumes "intake_inv d" and "accept_native_candidates producer stream limit now d = (r, d')"
  obtains (idle) "d' = d" "case r of Inl e \<Rightarrow> True | Inr x \<Rightarrow> nr_disposition x \<noteq> NdApplied"
  | (applied) x where "r = Inr x" "intake_tx producer stream limit now d = Inr (x, d')"
      "1 \<le> limit" "nr_disposition x = NdApplied"
proof (cases "\<not> valid_native_identity producer stream 0 \<or> \<not> (1 \<le> limit \<and> limit \<le> MAX_NATIVE_INTAKE_LIMIT)")
  case True
  then show thesis using assms(2) idle by (auto simp: accept_native_candidates_def intake_refused_def)
next
  case False
  then have lim: "1 \<le> limit" by simp
  show thesis
  proof (cases "intake_tx producer stream limit now d")
    case (Inl e)
    then have "d' = d \<and> (r = Inl e \<or> r = Inr (intake_refused NrStateConflict))"
      using assms(2) False by (cases e) (auto simp: accept_native_candidates_def run_tx_def)
    then show thesis using idle by (auto simp: intake_refused_def)
  next
    case (Inr xd)
    obtain x d1 where xd: "xd = (x, d1)" by (cases xd)
    have rd: "r = Inr x" "d' = d1"
      using assms(2) False Inr xd by (auto simp: accept_native_candidates_def run_tx_def)
    show thesis
    proof (cases "nr_disposition x = NdApplied")
      case True
      then show thesis using applied rd Inr xd lim by blast
    next
      case no: False
      have "d1 = d" using intake_tx_cases [OF assms(1) Inr [unfolded xd] lim] no by metis
      then show thesis using idle rd no by simp
    qed
  qed
qed

text \<open>C26: A page is all or nothing, and the cursor moves over exactly the candidates that were
  handled.  A call that does not apply, whatever the reason, leaves the database as it was.  An
  applied call handles between one and \<open>limit\<close> candidates, each of them counted once, and moves
  the stream's cursor over precisely those, never past the feed.\<close>

theorem intake_moves_over_its_page:
  assumes "intake_inv d" and "accept_native_candidates producer stream limit now d = (r, d')"
  shows "(d' = d \<and> (\<forall>x. r = Inr x \<longrightarrow> nr_disposition x \<noteq> NdApplied))
    \<or> (\<exists>x row. r = Inr x \<and> nr_disposition x = NdApplied \<and> intake_of producer stream d = Some row
        \<and> nr_previous_cursor x = ni_cursor row
        \<and> nr_current_cursor x = ni_cursor row + int (handled (nr_counts x))
        \<and> 1 \<le> handled (nr_counts x) \<and> int (handled (nr_counts x)) \<le> limit
        \<and> nr_remaining x = feed_cursor_of producer stream d - nr_current_cursor x \<and> 0 \<le> nr_remaining x
        \<and> intake_of producer stream d'
            = Some (row\<lparr>ni_cursor := nr_current_cursor x, ni_updated_at := now\<rparr>))"
proof (rule accept_native_cases [OF assms])
  assume "d' = d" "case r of Inl e \<Rightarrow> True | Inr x \<Rightarrow> nr_disposition x \<noteq> NdApplied"
  then show ?thesis by (auto split: sum.splits)
next
  fix x assume x: "r = Inr x" "intake_tx producer stream limit now d = Inr (x, d')" "1 \<le> limit"
    "nr_disposition x = NdApplied"
  show ?thesis
    by (rule intake_tx_cases [OF assms(1) x(2,3)]) (use x(1,4) in \<open>auto simp: Suc_le_eq\<close>)
qed

text \<open>C25: Intake respects the reader.  Whatever a page holds, no task is lost and no version goes
  down, a task the reader dropped keeps its row to the last column, a pinned owner is never
  replaced, and the ledger's invariant holds afterwards.\<close>

theorem intake_respects_the_reader:
  assumes "intake_inv d" and "accept_native_candidates producer stream limit now d = (r, d')"
  shows "ledger_inv d' \<and> (\<forall>i t. task_of i d = Some t \<longrightarrow>
    (\<exists>t'. task_of i d' = Some t' \<and> tk_version t \<le> tk_version t' \<and> tk_created_at t' = tk_created_at t
      \<and> (tk_status t = TaskDropped \<longrightarrow> t' = t)
      \<and> (ow_pinned (tk_owner t) \<longrightarrow> tk_owner t' = tk_owner t)))"
proof (rule accept_native_cases [OF assms])
  assume "d' = d"
  then show ?thesis using assms(1) by (auto simp: intake_inv_def)
next
  fix x assume x: "intake_tx producer stream limit now d = Inr (x, d')" "1 \<le> limit"
  have inv: "ledger_inv d" "workflow_keys d" using assms(1) by (auto simp: intake_inv_def)
  show ?thesis
  proof (rule intake_tx_cases [OF assms(1) x])
    assume "d' = d"
    then show ?thesis using inv by auto
  next
    fix row rows n d1
    assume rows: "accept_rows producer now rows (ni_cursor row + 1) (no_counts, d) = Inr (n, d1)"
      and tabs: "tasks d' = tasks d1" "work_items d' = work_items d1"
    have "keeps_ledger d d1" using accept_rows_keeps [OF rows inv] by blast
    then have k: "ledger_inv d1" "ledger_follows d d1" by (auto simp: keeps_ledger_def)
    have "ledger_inv d'" using k(1) tabs by (simp add: ledger_inv_def)
    moreover have "ledger_follows d d'" using k(2) tabs(1) by (simp add: ledger_follows_def)
    ultimately show ?thesis unfolding ledger_follows_def task_follows_def by blast
  qed
qed

section \<open>A revision of a finished task\<close>

lemma accept_candidate_revision:
  assumes "bound_row (cn_id c) d = Some (b, l)" and "lc_state l = LifeActive" and "cn_state c = LifeActive"
    and "bd_relation b = BindAccepted" and "bd_source_revision b \<noteq> cn_revision c" and "\<not> producer_decision c d"
  shows "accept_candidate c now (n, d) = accept_revision c b now (n, d)"
  using assms by (simp add: accept_candidate_def)

text \<open>The row of the task after each of the four ends.\<close>

lemma task_of_same: "tasks d' = tasks d \<Longrightarrow> task_of i d' = task_of i d"
  by simp

lemma acknowledge_tasks [simp]: "tasks (acknowledge_revision_after_close c b t now d) = tasks d"
  by (simp add: acknowledge_revision_after_close_def Let_def)

lemma refresh_tasks: "tasks (refresh_review_request t c b owner now d)
    = tasks (update_task (bd_task_id b) (task_content c owner now) d)"
  by (simp add: refresh_review_request_def Let_def)

lemma fold_revision_tasks:
  assumes "fold_revision t c b owner now d = Inr d'"
  shows "tasks d' = tasks (update_task (bd_task_id b)
      (\<lambda>x. (task_content c owner now x)\<lparr>tk_version := tk_version t + 1\<rparr>) d)"
  using assms by (auto simp: fold_revision_def append_work_revision_def Let_def rbind_Inr_iff split: option.splits)

lemma task_content_id [simp]: "tk_id (task_content c owner now t) = tk_id t"
  by (simp add: task_content_def)

text \<open>
  What makes a revision news for a finished task, read off the task and the two revisions: a pull
  request shows another head; of any other source the text, the deadline, the structure or the
  participants differ from the task, or the owner does and is not pinned.
\<close>

definition head_moved :: "candidate \<Rightarrow> candidate \<Rightarrow> bool" where
  "head_moved before after \<longleftrightarrow> (case (review_head_oid before, review_head_oid after) of
     (Some x, Some y) \<Rightarrow> x \<noteq> y | _ \<Rightarrow> False)"

definition owner_wanted :: "task_row \<Rightarrow> candidate \<Rightarrow> owner_state" where
  "owner_wanted t c = (if ow_pinned (tk_owner t) then tk_owner t else candidate_owner_values c (cn_owner c))"

definition changes_the_task :: "task_row \<Rightarrow> candidate \<Rightarrow> candidate \<Rightarrow> db \<Rightarrow> bool" where
  "changes_the_task t before c d \<longleftrightarrow> head_moved before c
     \<or> cn_kind c \<noteq> ''review_request''
       \<and> (tk_text t \<noteq> cn_text c \<or> tk_due t \<noteq> cn_due c \<or> tk_structure t \<noteq> cn_structure c
          \<or> stored_participants (tk_id t) d \<noteq> cn_participants c \<or> tk_owner t \<noteq> owner_wanted t c)"

text \<open>Only ids of the speaker registry differ.\<close>

definition only_registry_ids :: "task_row \<Rightarrow> candidate \<Rightarrow> candidate \<Rightarrow> db \<Rightarrow> bool" where
  "only_registry_ids t before c d \<longleftrightarrow> \<not> head_moved before c
     \<and> tk_text t = cn_text c \<and> tk_due t = cn_due c \<and> tk_structure t = cn_structure c
     \<and> (tk_owner t)\<lparr>ow_speaker_registry_id := None\<rparr> = (owner_wanted t c)\<lparr>ow_speaker_registry_id := None\<rparr>
     \<and> map (\<lambda>p. p\<lparr>sp_speaker_registry_id := None\<rparr>) (stored_participants (tk_id t) d)
         = map (\<lambda>p. p\<lparr>sp_speaker_registry_id := None\<rparr>) (cn_participants c)"

lemma spec_of_revision:
  "review_head_changed before c = head_moved before c" "desired_owner t c = owner_wanted t c"
  "advances_version t c (head_moved before c) d = changes_the_task t before c d"
  "same_work t c (owner_wanted t c) (head_moved before c) d = only_registry_ids t before c d"
  by (auto simp: review_head_changed_def head_moved_def desired_owner_def owner_wanted_def advances_version_def
      changes_the_task_def same_work_def only_registry_ids_def without_owner_registry_def
      without_participant_registry_def review_head_oid_def split: option.splits if_splits)

lemma owner_with_registry:
  "(o1::owner_state)\<lparr>ow_speaker_registry_id := None\<rparr> = o2\<lparr>ow_speaker_registry_id := None\<rparr> \<Longrightarrow>
    o1\<lparr>ow_speaker_registry_id := ow_speaker_registry_id o2\<rparr> = o2"
  by (cases o1; cases o2) simp

text \<open>C28: A finished task comes back exactly for a revision that changes it, and only while fewer than
  three re-surfaces have gone unanswered.  A pull request changes its task when it shows another
  head; any other candidate does when its text, deadline, structure or participants differ from the
  task's, or its owner and the task's is not pinned.  The task is then open again with the text, the
  deadline, the structure, the working group and, unless it is pinned, the owner of the revision, at
  the next version; only where nothing but ids of the speaker registry differ does it keep its
  version, although the code means such a revision not to reopen it (C36).  Otherwise no task changes
  and the revision is counted as one after the close.\<close>

theorem finished_task_revision:
  assumes "accept_revision c b now (n, d) = Inr (n', d')" and "task_of (bd_task_id b) d = Some t"
    and "tk_status t = TaskDone" and "bound_candidate b d = Inr previous"
  shows "if changes_the_task t previous c d
        \<and> unproductive_resurfaces (bd_task_id b) d < MAX_UNPRODUCTIVE_RESURFACES
    then (\<exists>t'. task_of (bd_task_id b) d' = Some t' \<and> tk_status t' = TaskOpen \<and> tk_closed_at t' = None
        \<and> tk_text t' = cn_text c \<and> tk_due t' = cn_due c \<and> tk_structure t' = cn_structure c
        \<and> tk_working_group t' = cn_working_group c \<and> tk_owner t' = owner_wanted t c
        \<and> tk_version t' = (if only_registry_ids t previous c d then tk_version t else tk_version t + 1))
    else tasks d' = tasks d \<and> n' = n\<lparr>ic_after_close := ic_after_close n + 1\<rparr>"
proof (rule accept_revision_cases [OF assms(1)])
  fix t0 previous' hc owner d1 t1 n1
  assume h: "task_of (bd_task_id b) d = Some t0" "bound_candidate b d = Inr previous'"
    "hc = review_head_changed previous' c" "owner = desired_owner t0 c" "d1 = resurface t0 c b hc now d"
    "task_of (bd_task_id b) d1 = Some t1"
    "t1 = (if d1 = d then t0 else t0\<lparr>tk_status := TaskOpen, tk_closed_at := None\<rparr>)"
    "(tk_status t1 \<noteq> TaskOpen \<and> n' = n\<lparr>ic_after_close := ic_after_close n + 1\<rparr>
        \<and> d' = acknowledge_revision_after_close c b t1 now d1)
      \<or> (tk_status t1 = TaskOpen \<and> cn_kind c = ''review_request'' \<and> \<not> hc \<and> n' = revised n1
        \<and> d' = refresh_review_request t1 c b owner now d1)
      \<or> (tk_status t1 = TaskOpen \<and> \<not> (cn_kind c = ''review_request'' \<and> \<not> hc)
        \<and> same_work t1 c owner hc d1 \<and> (n', d') = enrich_evidence t1 c b owner now (n, d1))
      \<or> (tk_status t1 = TaskOpen \<and> \<not> (cn_kind c = ''review_request'' \<and> \<not> hc)
        \<and> \<not> same_work t1 c owner hc d1 \<and> n' = revised n1 \<and> fold_revision t1 c b owner now d1 = Inr d')"
  have eqs: "t0 = t" "previous' = previous" using assms(2,4) h(1,2) by auto
  have hc: "hc = head_moved previous c" "owner = owner_wanted t c"
    using h(3,4) eqs by (simp_all add: spec_of_revision(1,2))
  show ?thesis
  proof (cases "changes_the_task t previous c d
      \<and> unproductive_resurfaces (bd_task_id b) d < MAX_UNPRODUCTIVE_RESURFACES")
    case False
    then have "d1 = d" using h(5) hc(1) eqs by (auto simp: resurface_def Let_def spec_of_revision(3))
    then show ?thesis using False h(7,8) eqs assms(3) by auto
  next
    case True
    have d1: "d1 = insert_task_event (candidate_event (bd_task_id b) EvStatusChanged (tk_version t + 1) c
             (Some TaskDone) (Some TaskOpen) now)
           (update_task (bd_task_id b) (\<lambda>x. x\<lparr>tk_status := TaskOpen, tk_closed_at := None\<rparr>) d)"
      using h(5) hc(1) True eqs assms(3) by (auto simp: resurface_def Let_def spec_of_revision(3))
    have "d1 \<noteq> d"
    proof
      assume "d1 = d"
      then have "length (task_events d1) = length (task_events d)" by simp
      then show False by (simp add: d1 update_task_def)
    qed
    then have t1: "t1 = t\<lparr>tk_status := TaskOpen, tk_closed_at := None\<rparr>" using h(7) eqs by simp
    have sw: "same_work t1 c owner hc d1 = only_registry_ids t previous c d"
      unfolding spec_of_revision(4) [symmetric] hc t1
      by (simp add: same_work_def stored_participants_def d1 update_task_def insert_task_event_def)
    have goal: "?thesis" if "task_of (bd_task_id b) d' = Some t'" "tk_status t' = TaskOpen" "tk_closed_at t' = None"
        "tk_text t' = cn_text c" "tk_due t' = cn_due c" "tk_structure t' = cn_structure c"
        "tk_working_group t' = cn_working_group c" "tk_owner t' = owner_wanted t c"
        "tk_version t' = (if only_registry_ids t previous c d then tk_version t else tk_version t + 1)" for t'
      using that True by auto
    from h(8) show ?thesis
    proof (elim disjE conjE)
      assume "tk_status t1 \<noteq> TaskOpen"
      then show ?thesis by (simp add: t1)
    next
      assume "cn_kind c = ''review_request''" "\<not> hc"
      then show ?thesis using True hc(1) by (simp add: changes_the_task_def)
    next
      assume same: "same_work t1 c owner hc d1" and e: "(n', d') = enrich_evidence t1 c b owner now (n, d1)"
      obtain f where f: "tasks (snd (enrich_evidence t1 c b owner now (n, d1))) = tasks (update_task (bd_task_id b) f d1)"
        "\<And>x. tk_id (f x) = tk_id x" "enriched c owner now t1 (f t1)"
        by (rule enrich_update [OF h(6), of c owner now n]) blast
      have "tasks d' = tasks (update_task (bd_task_id b) f d1)"
        using f(1) unfolding e [symmetric] snd_conv .
      then have "task_of (bd_task_id b) d' = Some (f t1)"
        using task_of_update_task [of f "bd_task_id b" "bd_task_id b" d1, OF f(2)] h(6) by simp
      moreover obtain u where "f t1 = t1\<lparr>tk_owner := (tk_owner t1)\<lparr>ow_speaker_registry_id := ow_speaker_registry_id owner\<rparr>,
          tk_working_group := cn_working_group c, tk_updated_at := u\<rparr>"
        using f(3) unfolding enriched_def by blast
      ultimately show ?thesis
        using same sw owner_with_registry [of "tk_owner t" owner]
        by (intro goal [of "f t1"]) (simp_all add: t1 hc(2) only_registry_ids_def)
    next
      assume differs: "\<not> same_work t1 c owner hc d1" and "fold_revision t1 c b owner now d1 = Inr d'"
      then show ?thesis
        using h(6) differs sw
        by (intro goal [of "(task_content c owner now t1)\<lparr>tk_version := tk_version t1 + 1\<rparr>"])
          (simp_all add: task_of_same [OF fold_revision_tasks] task_of_update_task, simp_all add: task_content_def t1 hc(2))
    qed
  qed
qed

text \<open>C36: A rebuilt speaker registry alone brings a finished task back, at a version that is never
  written.  The gate of the re-surfacing compares owners with their registry id, the branch that
  then applies the revision without it: the task is open again at its old version while the log
  names the next one.\<close>

theorem registry_change_reopens_without_a_version:
  assumes "accept_revision c b now (n, d) = Inr (n', d')" and "task_of (bd_task_id b) d = Some t"
    and "tk_status t = TaskDone" and "bound_candidate b d = Inr previous"
    and "same_work t c (desired_owner t c) (review_head_changed previous c) d"
    and "tk_owner t \<noteq> desired_owner t c" and "cn_kind c \<noteq> ''review_request''"
    and "unproductive_resurfaces (bd_task_id b) d < MAX_UNPRODUCTIVE_RESURFACES"
  shows "(\<exists>t'. task_of (bd_task_id b) d' = Some t' \<and> tk_status t' = TaskOpen \<and> tk_version t' = tk_version t)
    \<and> (\<exists>e \<in> set (task_events d'). te_task_id e = bd_task_id b \<and> te_kind e = EvStatusChanged
        \<and> te_to_status e = Some TaskOpen \<and> te_task_version e = tk_version t + 1)"
proof -
  let ?hc = "review_head_changed previous c"
  let ?e = "candidate_event (bd_task_id b) EvStatusChanged (tk_version t + 1) c (Some TaskDone) (Some TaskOpen) now"
  let ?d1 = "insert_task_event ?e
    (update_task (bd_task_id b) (\<lambda>x. x\<lparr>tk_status := TaskOpen, tk_closed_at := None\<rparr>) d)"
  let ?t1 = "t\<lparr>tk_status := TaskOpen, tk_closed_at := None\<rparr>"
  have d1: "resurface t c b ?hc now d = ?d1"
    using assms(3,6,7,8) by (simp add: resurface_def advances_version_def Let_def)
  have t1: "task_of (bd_task_id b) ?d1 = Some ?t1"
    using assms(2) by (simp add: task_of_update_task)
  have sw: "same_work ?t1 c (desired_owner t c) ?hc ?d1"
    using assms(5) by (simp add: same_work_def stored_participants_def update_task_def insert_task_event_def)
  have "enrich_evidence ?t1 c b (desired_owner t c) now (n, ?d1) = (n', d')"
    using assms(1) [unfolded accept_revision_def Let_def prod.case assms(2) option.case assms(4) rbind.simps d1 t1]
      sw assms(7) by simp
  then have d': "d' = snd (enrich_evidence ?t1 c b (desired_owner t c) now (n, ?d1))" by simp
  obtain f where f: "tasks d' = tasks (update_task (bd_task_id b) f ?d1)"
    "\<And>x. tk_id (f x) = tk_id x" "enriched c (desired_owner t c) now ?t1 (f ?t1)"
    unfolding d' by (rule enrich_update [OF t1, of c "desired_owner t c" now n]) blast
  have "task_of (bd_task_id b) d' = Some (f ?t1)"
    using f(1) task_of_update_task [of f "bd_task_id b" "bd_task_id b" ?d1, OF f(2)] t1 by simp
  moreover obtain u where "f ?t1 = ?t1\<lparr>tk_owner := (tk_owner ?t1)\<lparr>ow_speaker_registry_id :=
      ow_speaker_registry_id (desired_owner t c)\<rparr>, tk_working_group := cn_working_group c, tk_updated_at := u\<rparr>"
    using f(3) unfolding enriched_def by blast
  ultimately have "\<exists>t'. task_of (bd_task_id b) d' = Some t' \<and> tk_status t' = TaskOpen \<and> tk_version t' = tk_version t"
    by simp
  moreover have "?e \<in> set (task_events d')"
    unfolding d' by (simp add: enrich_evidence_def Let_def split_beta update_task_def move_binding_def
        move_lifecycle_def replace_participants_def)
  then have "\<exists>e \<in> set (task_events d'). te_task_id e = bd_task_id b \<and> te_kind e = EvStatusChanged
        \<and> te_to_status e = Some TaskOpen \<and> te_task_version e = tk_version t + 1"
    by (rule bexI [rotated]) (simp add: candidate_event_def)
  ultimately show ?thesis by blast
qed

section \<open>A feed\<close>

definition sample_ref :: "string \<Rightarrow> owner_ref" where
  "sample_ref registry = \<lparr>or_kind = ''person'', or_speaker_id = Some ''s1'',
     or_canonical_speaker_id = Some ''s1'', or_speaker_registry_id = Some registry, or_pinned = False,
     or_provisional = False, or_person_id = None\<rparr>"

definition sample_candidate :: "string \<Rightarrow> string \<Rightarrow> string \<Rightarrow> string \<Rightarrow> candidate" where
  "sample_candidate i revision words registry = \<lparr>cn_id = i, cn_system = ''gw'', cn_kind = ''issue'',
     cn_record_id = ''r'', cn_item_id = ''7'', cn_revision = revision,
     cn_history = Some \<lparr>sh_source = ''gw'', sh_stream_id = ''s'', sh_item_id = ''7'', sh_position = 1,
       sh_revision = revision\<rparr>,
     cn_text = words, cn_owner = Some ''Ada'', cn_owner_ref = Some (sample_ref registry), cn_due = None,
     cn_structure = \<lparr>st_object = None, st_action = None, st_confidence = None\<rparr>, cn_participants = [],
     cn_working_group = None, cn_sources = [], cn_state = LifeActive, cn_changed_at = None,
     cn_reason = None\<rparr>"

definition sample_history :: "candidate \<Rightarrow> revision_row" where
  "sample_history c = \<lparr>rh_candidate_id = cn_id c, rh_source_revision = cn_revision c, rh_payload = Some c\<rparr>"

definition sample_item :: "int \<Rightarrow> candidate \<Rightarrow> feed_item" where
  "sample_item n c = \<lparr>fi_producer = ''gw'', fi_stream_id = ''s'', fi_sequence = n,
     fi_candidate_id = cn_id c, fi_source_revision = cn_revision c\<rparr>"

definition sample_inbox :: "candidate \<Rightarrow> inbox_row" where
  "sample_inbox c = \<lparr>ib_candidate_id = cn_id c, ib_system = cn_system c, ib_kind = cn_kind c,
     ib_record_id = cn_record_id c, ib_item_id = cn_item_id c, ib_revision = cn_revision c,
     ib_payload = Some c\<rparr>"

text \<open>
  Task 1 was finished for the first revision of candidate \<open>a\<close>; the feed brings a second revision
  that only names another speaker registry, and two revisions of a new candidate \<open>b\<close>.
\<close>

definition sample_feed :: db where
  "sample_feed = empty_db\<lparr>tasks := [sample_task 1 TaskDone 2, sample_task 2 TaskDropped 2],
     task_events := [sample_created 1 TaskDone, sample_created 2 TaskDropped],
     work_items := [\<lparr>wi_id = 1, wi_task_id = 1, wi_state = WorkClosed, wi_created_at = 0, wi_updated_at = 0\<rparr>,
       \<lparr>wi_id = 2, wi_task_id = 2, wi_state = WorkClosed, wi_created_at = 0, wi_updated_at = 0\<rparr>],
     bindings := [\<lparr>bd_candidate_id = ''a'', bd_source_revision = ''1'', bd_task_id = 1,
       bd_relation = BindAccepted, bd_decided_at = 0\<rparr>],
     lifecycles := [\<lparr>lc_candidate_id = ''a'', lc_source_revision = ''1'', lc_task_version = 2,
       lc_state = LifeActive, lc_resolution = ResCurrent, lc_changed_at = None, lc_decided_at = 0\<rparr>],
     inbox := [sample_inbox (sample_candidate ''a'' ''2'' ''review the draft'' ''r2''),
       sample_inbox (sample_candidate ''b'' ''4'' ''send the notes again'' ''r2'')],
     revision_history := map sample_history [sample_candidate ''a'' ''1'' ''review the draft'' ''r1'',
       sample_candidate ''a'' ''2'' ''review the draft'' ''r2'',
       sample_candidate ''b'' ''3'' ''send the notes'' ''r2'',
       sample_candidate ''b'' ''4'' ''send the notes again'' ''r2''],
     feed_items := [sample_item 1 (sample_candidate ''a'' ''2'' ''review the draft'' ''r2''),
       sample_item 2 (sample_candidate ''b'' ''3'' ''send the notes'' ''r2''),
       sample_item 3 (sample_candidate ''b'' ''4'' ''send the notes again'' ''r2'')],
     feed_cursors := [\<lparr>fc_producer = ''gw'', fc_stream_id = ''s'', fc_cursor = 3\<rparr>],
     intakes := [\<lparr>ni_producer = ''gw'', ni_stream_id = ''s'', ni_activation_cursor = 0, ni_cursor = 0,
       ni_activated_at = 0, ni_updated_at = 0\<rparr>]\<rparr>"

lemma sample_feed_ok: "intake_inv sample_feed"
  by code_simp

theorem intake_moves_over_its_page_witness:
  "(let (r, d') = accept_native_candidates ''gw'' ''s'' 2 9 sample_feed in
     (d' = sample_feed \<and> (\<forall>x. r = Inr x \<longrightarrow> nr_disposition x \<noteq> NdApplied))
     \<or> (\<exists>x row. r = Inr x \<and> nr_disposition x = NdApplied \<and> intake_of ''gw'' ''s'' sample_feed = Some row
        \<and> nr_previous_cursor x = ni_cursor row
        \<and> nr_current_cursor x = ni_cursor row + int (handled (nr_counts x))
        \<and> 1 \<le> handled (nr_counts x) \<and> int (handled (nr_counts x)) \<le> 2
        \<and> nr_remaining x = feed_cursor_of ''gw'' ''s'' sample_feed - nr_current_cursor x \<and> 0 \<le> nr_remaining x
        \<and> intake_of ''gw'' ''s'' d' = Some (row\<lparr>ni_cursor := nr_current_cursor x, ni_updated_at := 9\<rparr>)))"
  unfolding split_beta Let_def
  by (rule intake_moves_over_its_page [OF sample_feed_ok prod.collapse [symmetric]])

theorem intake_respects_the_reader_witness:
  "ledger_inv (snd (accept_native_candidates ''gw'' ''s'' 3 9 sample_feed))"
  using intake_respects_the_reader [OF sample_feed_ok prod.collapse [symmetric], of "''gw''" "''s''" 3 9] by blast

definition sample_binding :: binding_row where
  "sample_binding = \<lparr>bd_candidate_id = ''a'', bd_source_revision = ''1'', bd_task_id = 1,
     bd_relation = BindAccepted, bd_decided_at = 0\<rparr>"

definition sample_revision :: "string \<Rightarrow> exc + (intake_counts \<times> db)" where
  "sample_revision words = accept_revision (sample_candidate ''a'' ''2'' words ''r2'') sample_binding 9
     (no_counts, sample_feed)"

theorem registry_change_reopens_without_a_version_witness:
  "map_sum (\<lambda>e. False) (\<lambda>(n, d). map_option (\<lambda>t. (tk_status t, tk_version t)) (task_of 1 d) = Some (TaskOpen, 2))
     (sample_revision ''review the draft'') = Inr True"
proof -
  obtain n d' where r: "sample_revision ''review the draft'' = Inr (n, d')"
    by (cases "sample_revision ''review the draft''") (simp add: sample_revision_def, code_simp, auto)
  have "(\<exists>t'. task_of (bd_task_id sample_binding) d' = Some t' \<and> tk_status t' = TaskOpen
      \<and> tk_version t' = tk_version (sample_task 1 TaskDone 2))"
    by (rule registry_change_reopens_without_a_version [OF r [unfolded sample_revision_def],
        of "sample_task 1 TaskDone 2" "sample_candidate ''a'' ''1'' ''review the draft'' ''r1''", THEN conjunct1];
      code_simp)
  then show ?thesis by (auto simp: r sample_binding_def sample_task_def)
qed

theorem finished_task_revision_witness:
  "map_sum (\<lambda>e. False) (\<lambda>(n, d). map_option (\<lambda>t. (tk_status t, tk_text t)) (task_of 1 d)
     = Some (TaskOpen, ''review it all'')) (sample_revision ''review it all'') = Inr True"
proof -
  obtain n d' where r: "sample_revision ''review it all'' = Inr (n, d')"
    by (cases "sample_revision ''review it all''") (simp add: sample_revision_def, code_simp, auto)
  have "changes_the_task (sample_task 1 TaskDone 2) (sample_candidate ''a'' ''1'' ''review the draft'' ''r1'')
      (sample_candidate ''a'' ''2'' ''review it all'' ''r2'') sample_feed
    \<and> unproductive_resurfaces (bd_task_id sample_binding) sample_feed < MAX_UNPRODUCTIVE_RESURFACES"
    by code_simp
  note go = this
  have prems: "task_of (bd_task_id sample_binding) sample_feed = Some (sample_task 1 TaskDone 2)"
    "tk_status (sample_task 1 TaskDone 2) = TaskDone"
    "bound_candidate sample_binding sample_feed = Inr (sample_candidate ''a'' ''1'' ''review the draft'' ''r1'')"
    by code_simp+
  obtain t' where "task_of (bd_task_id sample_binding) d' = Some t'" "tk_status t' = TaskOpen"
      "tk_text t' = cn_text (sample_candidate ''a'' ''2'' ''review it all'' ''r2'')"
    using finished_task_revision [OF r [unfolded sample_revision_def] prems] unfolding if_P [OF go] by blast
  then show ?thesis by (simp add: r sample_binding_def sample_candidate_def)
qed

text \<open>The baseline of a task can name another revision than the one it was made from.  When two
  revisions of a new candidate are waiting, the trigger that records the first work revision takes
  the source history from the inbox, which already holds the second.\<close>

lemma baseline_history_is_of_another_revision:
  "case accept_native_candidates ''gw'' ''s'' 2 9 sample_feed of
     (Inr r, d) \<Rightarrow> nr_disposition r = NdApplied \<and>
       map (\<lambda>w. (wr_source_revision w, map_option sh_revision (wr_history w)))
         (filter (\<lambda>w. wr_candidate_id w = ''b'') (work_revisions d)) = [(''3'', Some ''4'')]
   | _ \<Rightarrow> False"
  by code_simp

end
