(* ===== verification/Execution.thy ===== *)
theory Execution
  imports Workflows
begin

text \<open>
  \<open>TaskExecutionService\<close> of \<open>task_execution.py\<close>: the reader's gates before and after a phase, the
  fenced claim of a worker with its lease, its failures and retries, and the result it records.
  A worker holds a workflow by the digest of its token at one version until the lease ends.
\<close>

section \<open>Constants, profiles, configuration\<close>

definition MIN_LEASE_SECONDS :: int where "MIN_LEASE_SECONDS = 5"
definition MAX_LEASE_SECONDS :: int where "MAX_LEASE_SECONDS = 3600"
definition PARK_RETRY_INTERVAL :: int where "PARK_RETRY_INTERVAL = 6 * 3600"
definition RETRY_BASE_SECONDS :: int where "RETRY_BASE_SECONDS = 60"
definition RETRY_MAX_SECONDS :: int where "RETRY_MAX_SECONDS = 3600"
definition TIMEOUT_BACKOFF_SECONDS :: "int list" where
  "TIMEOUT_BACKOFF_SECONDS = [120, 600, 1800, 3600]"
definition MAX_SUMMARY :: nat where "MAX_SUMMARY = 1200"
definition MAX_WORK_MARKDOWN_CHARS :: nat where "MAX_WORK_MARKDOWN_CHARS = 131072"
definition MAX_FAILURE_DIGEST_CHARS :: nat where "MAX_FAILURE_DIGEST_CHARS = 800"

text \<open>An agent profile and the registry: the offered profiles, and every resolvable revision.\<close>

record profile =
  pr_id :: string
  pr_revision :: string
  pr_phases :: "workflow_phase list"
  pr_lease :: int

text \<open>What the validator and the digest of an \<open>AgentProfile\<close> say of its id and revision.\<close>

definition profile_ok :: "profile \<Rightarrow> bool" where
  "profile_ok p \<longleftrightarrow> profile_columns (Some (pr_id p)) (Some (pr_revision p))"

record registry =
  rg_profiles :: "profile list"
  rg_historical :: "profile list"

definition registry_get :: "registry \<Rightarrow> string option \<Rightarrow> profile option" where
  "registry_get rg i = List.find (\<lambda>p. Some (pr_id p) = i) (rg_profiles rg)"

definition registry_resolve :: "registry \<Rightarrow> string option \<Rightarrow> string option \<Rightarrow> profile option" where
  "registry_resolve rg i r =
     List.find (\<lambda>p. Some (pr_id p) = i \<and> Some (pr_revision p) = r) (rg_profiles rg @ rg_historical rg)"

definition registry_resolve_current :: "registry \<Rightarrow> string option \<Rightarrow> string option \<Rightarrow> profile option" where
  "registry_resolve_current rg i r =
     (case registry_get rg i of
        None \<Rightarrow> None | Some p \<Rightarrow> if Some (pr_revision p) = r then Some p else None)"

lemma registry_profile_ok:
  assumes "list_all profile_ok (rg_profiles rg)"
  shows "registry_get rg i = Some p \<Longrightarrow> profile_ok p"
    and "registry_resolve_current rg i r = Some p \<Longrightarrow> profile_ok p"
  using assms
  by (auto simp: registry_get_def registry_resolve_current_def list_all_iff dest!: find_SomeD
      split: option.splits if_splits)

section \<open>The transaction frame\<close>

text \<open>An accepted result is committed, a refusal rolls back, an exception rolls back and escapes.\<close>

definition commit_accepted :: "(db \<Rightarrow> exc + (workflow_result \<times> db)) \<Rightarrow> db \<Rightarrow> (exc + workflow_result) \<times> db" where
  "commit_accepted h d =
     (case h d of
        Inl e \<Rightarrow> (Inl e, d)
      | Inr (r, d') \<Rightarrow> (Inr r, if xr_accepted r then d' else d))"

text \<open>
  Both guards of an operation: the workflow at the expected version and in one of the statuses, and
  its task open at the version the workflow was made for.
\<close>

definition both_guards :: "(workflow_row \<times> task_row) option \<Rightarrow> workflow_refusal option
    \<Rightarrow> workflow_refusal option" where
  "both_guards row first =
     (case first of
        Some ref \<Rightarrow> Some ref
      | None \<Rightarrow> (case row of None \<Rightarrow> Some WrNotFound
                  | Some (w, t) \<Rightarrow> task_guard (Some t) (wf_task_version w)))"

text \<open>One guarded \<open>UPDATE\<close> of the row at its version.\<close>

definition at_version :: "rowid \<Rightarrow> int \<Rightarrow> workflow_row \<Rightarrow> bool" where
  "at_version i v w \<longleftrightarrow> wf_task_id w = i \<and> wf_version w = v"

section \<open>Failures\<close>

definition handoff_answers :: "string list" where
  "handoff_answers = [''start_approved'', ''phase_approved'', ''revision_requested'',
     ''discussion_requested'', ''phase_granted'']"

text \<open>Parks of this phase since anyone last answered; the log is in sequence order.\<close>

definition unanswered_handoff_parks :: "rowid \<Rightarrow> workflow_phase \<Rightarrow> db \<Rightarrow> nat" where
  "unanswered_handoff_parks i ph d =
     length (filter (\<lambda>e. we_task_id e = i \<and> we_phase e = ph \<and> we_kind e = ''parked'')
       (takeWhile (\<lambda>e. \<not> (we_task_id e = i \<and> we_kind e \<in> set handoff_answers))
         (rev (workflow_events d))))"

definition is_timeout_digest :: "string \<Rightarrow> bool" where
  "is_timeout_digest s \<longleftrightarrow> casefold (take 16 s) = ''timed out after ''"

definition timeout_count :: "rowid \<Rightarrow> db \<Rightarrow> nat" where
  "timeout_count i d = length (filter (\<lambda>g. fg_task_id g = i \<and> is_timeout_digest (fg_digest g))
     (failure_digests d))"

definition retry_delay :: "int \<Rightarrow> int" where
  "retry_delay failures = min RETRY_MAX_SECONDS (RETRY_BASE_SECONDS * 2 ^ nat (failures - 1))"

text \<open>
  What a failure does to the workflow: its status, its failure count, the next attempt, whether it
  is parked, and the kind of the event.
\<close>

definition failure_plan :: "nat \<Rightarrow> workflow_row \<Rightarrow> string \<Rightarrow> time \<Rightarrow> string option \<Rightarrow> int option \<Rightarrow> db
    \<Rightarrow> workflow_status \<times> int \<times> time option \<times> bool \<times> string" where
  "failure_plan max_attempts w reason now event_kind exit_code d =
     (let failures = wf_failure_count w + 1;
          kind = (case event_kind of None \<Rightarrow> ''retry_scheduled'' | Some k \<Rightarrow> k) in
      if reason = ''timeout'' \<or> exit_code = Some 124
      then (WfQueued, wf_failure_count w,
        Some (now + TIMEOUT_BACKOFF_SECONDS !
          min (timeout_count (wf_task_id w) d) (length TIMEOUT_BACKOFF_SECONDS - 1)), False, kind)
      else if reason = ''budget_handoff''
        \<and> int (unanswered_handoff_parks (wf_task_id w) (wf_phase w) d) < int max_attempts - 1
      then (WfParked, failures, Some (now + retry_delay failures), True, ''parked'')
      else if reason = ''budget_handoff''
      then (WfParked, failures, Some (now + PARK_RETRY_INTERVAL), True, ''parked'')
      else if reason = ''context_exhausted''
      then (WfParked, failures, None, True, ''parked'')
      else if int max_attempts \<le> failures
      then (WfParked, failures, Some (now + PARK_RETRY_INTERVAL), True, ''parked'')
      else (WfQueued, failures, Some (now + retry_delay failures), False, kind))"

definition defer_failure :: "nat \<Rightarrow> workflow_row \<Rightarrow> string \<Rightarrow> time \<Rightarrow> string option \<Rightarrow> int option
    \<Rightarrow> string option \<Rightarrow> db \<Rightarrow> exc + (workflow_result \<times> db)" where
  "defer_failure max_attempts w reason now event_kind exit_code run d =
     (if reason \<notin> set FAILURE_REASONS then Inl (ValueError ''execution failure reason is invalid'')
      else
        let version = wf_version w + 1;
            (status, failures, next_attempt, parked, kind) =
              failure_plan max_attempts w reason now event_kind exit_code d in
        rbind (update_workflows (at_version (wf_task_id w) (wf_version w))
            (\<lambda>x. (clear_claim x)\<lparr>wf_status := status, wf_version := version,
               wf_failure_count := failures, wf_last_failure_reason := Some reason,
               wf_last_failure_at := Some now, wf_last_failure_exit_code := exit_code,
               wf_last_failure_run_id := run, wf_next_attempt_at := next_attempt,
               wf_parked_at := (if parked then Some now else None), wf_updated_at := now\<rparr>) d)
          (\<lambda>(n, d1).
        rbind (wf_event (wf_task_id w) kind version (wf_task_version w) (wf_phase w) status now d1)
          (\<lambda>d2. Inr ((wf_applied w version status (wf_phase w))\<lparr>xr_next_attempt_at := next_attempt\<rparr>, d2))))"

text \<open>Leases that ended are failures; the rows are read before the loop.\<close>

definition lease_ended :: "time \<Rightarrow> workflow_row \<Rightarrow> bool" where
  "lease_ended now w \<longleftrightarrow> wf_status w = WfRunning
     \<and> (case wf_claim_expires_at w of None \<Rightarrow> True | Some e \<Rightarrow> e \<le> now)"

definition recover_expired :: "nat \<Rightarrow> time \<Rightarrow> db \<Rightarrow> exc + db" where
  "recover_expired max_attempts now d =
     each (\<lambda>w d. rbind (defer_failure max_attempts w ''claim_expired'' now (Some ''claim_expired'') None None d)
             (\<lambda>(r, d1). Inr d1))
       (sort_key wf_task_id (filter (lease_ended now) (workflows d))) d"

section \<open>Stale workflows\<close>

definition source_withdrawn :: "rowid \<Rightarrow> db \<Rightarrow> bool" where
  "source_withdrawn i d \<longleftrightarrow> list_ex (\<lambda>b. bd_task_id b = i \<and> bd_relation b = BindAccepted
     \<and> list_ex (\<lambda>l. lc_candidate_id l = bd_candidate_id b \<and> lc_state l = LifeWithdrawn
         \<and> lc_resolution l = ResPreservedOpen) (lifecycles d)) (bindings d)"

definition workflow_stale :: "db \<Rightarrow> workflow_row \<Rightarrow> bool" where
  "workflow_stale d w \<longleftrightarrow> wf_status w \<notin> {WfCompleted, WfCancelled}
     \<and> (case task_of (wf_task_id w) d of
          None \<Rightarrow> False
        | Some t \<Rightarrow> tk_status t \<noteq> TaskOpen \<or> tk_version t \<noteq> wf_task_version w
            \<or> source_withdrawn (tk_id t) d)"

definition cancel_workflow :: "time \<Rightarrow> workflow_row \<Rightarrow> db \<Rightarrow> exc + db" where
  "cancel_workflow now w d =
     (let version = wf_version w + 1 in
      rbind (update_workflows (at_version (wf_task_id w) (wf_version w))
          (\<lambda>x. (clear_claim x)\<lparr>wf_status := WfCancelled, wf_version := version,
             wf_next_attempt_at := None, wf_parked_at := None, wf_updated_at := now,
             wf_completed_at := Some now\<rparr>) d)
        (\<lambda>(n, d1). wf_event (wf_task_id w) ''cancelled'' version (wf_task_version w) (wf_phase w)
            WfCancelled now d1))"

definition cancel_stale_workflows :: "time \<Rightarrow> db \<Rightarrow> exc + db" where
  "cancel_stale_workflows now d =
     each (cancel_workflow now) (sort_key wf_task_id (filter (workflow_stale d) (workflows d))) d"

section \<open>The worker's claim\<close>

text \<open>
  The guards of every call a worker makes: the identity, the secret, the running workflow at its
  version under the digest of the token with a lease that has not ended, and the task.
\<close>

definition claim_guard :: "(string \<Rightarrow> string) \<Rightarrow> rowid \<Rightarrow> int \<Rightarrow> string \<Rightarrow> time \<Rightarrow> db
    \<Rightarrow> workflow_refusal option" where
  "claim_guard sha i expected token now d =
     (let row = workflow_with_task i d in
      both_guards row (running_guard (map_option fst row) expected (sha token) now))"

definition renew_tx :: "(string \<Rightarrow> string) \<Rightarrow> rowid \<Rightarrow> int \<Rightarrow> string \<Rightarrow> int \<Rightarrow> time \<Rightarrow> db
    \<Rightarrow> exc + (workflow_result \<times> db)" where
  "renew_tx sha i expected token lease now d =
     (let row = workflow_with_task i d in
      case claim_guard sha i expected token now d of
        Some ref \<Rightarrow> Inr (wf_refused_row i (map_option fst row) ref, d)
      | None \<Rightarrow>
          (let w = fst (the row); expires = now + lease in
           rbind (update_workflows (\<lambda>x. at_version i expected x \<and> wf_status x = WfRunning
                 \<and> wf_claim_token_digest x = Some (sha token))
               (\<lambda>x. x\<lparr>wf_claim_heartbeat_at := Some now, wf_claim_expires_at := Some expires,
                  wf_updated_at := now\<rparr>) d) (\<lambda>(n, d1).
           rbind (wf_event i ''claim_renewed'' expected (wf_task_version w) (wf_phase w) WfRunning now d1)
             (\<lambda>d2. Inr ((wf_applied w expected WfRunning (wf_phase w))\<lparr>xr_wake_at := Some expires\<rparr>, d2)))))"

definition renew :: "(string \<Rightarrow> string) \<Rightarrow> rowid \<Rightarrow> int \<Rightarrow> string \<Rightarrow> int \<Rightarrow> time \<Rightarrow> db
    \<Rightarrow> (exc + workflow_result) \<times> db" where
  "renew sha i expected token lease now d =
     (if \<not> valid_identity i expected \<or> \<not> valid_secret token
         \<or> \<not> (MIN_LEASE_SECONDS \<le> lease \<and> lease \<le> MAX_LEASE_SECONDS)
      then (Inr (wf_refused i WrInvalidArgument), d)
      else commit_accepted (renew_tx sha i expected token lease now) d)"

definition is_run_id :: "string \<Rightarrow> bool" where
  "is_run_id s \<longleftrightarrow> length s = 32 \<and> list_all (\<lambda>c. c \<in> set ''0123456789abcdef'') s"

lemma is_run_id_column: "is_run_id s \<Longrightarrow> run_column (Some s)"
proof -
  assume s: "is_run_id s"
  then obtain c cs where c: "s = c # cs" by (cases s) (auto simp: is_run_id_def)
  have "list_all hex_char ''0123456789abcdef''" by code_simp
  moreover have "c \<in> set ''0123456789abcdef''" using s unfolding c is_run_id_def by simp
  ultimately have "hex_char c" unfolding list_all_iff by blast
  then show ?thesis using s c by (simp add: run_column_def is_run_id_def)
qed

definition attach_run_tx :: "(string \<Rightarrow> string) \<Rightarrow> rowid \<Rightarrow> int \<Rightarrow> string \<Rightarrow> string \<Rightarrow> time \<Rightarrow> db
    \<Rightarrow> exc + (workflow_result \<times> db)" where
  "attach_run_tx sha i expected token run now d =
     (let row = workflow_with_task i d in
      case running_guard (map_option fst row) expected (sha token) now of
        Some ref \<Rightarrow> Inr (wf_refused_row i (map_option fst row) ref, d)
      | None \<Rightarrow>
          rbind (update_workflows (\<lambda>x. at_version i expected x \<and> wf_status x = WfRunning
                \<and> wf_claim_token_digest x = Some (sha token))
              (\<lambda>x. x\<lparr>wf_current_run_id := Some run, wf_updated_at := now\<rparr>) d)
            (\<lambda>(n, d1).
              if n \<noteq> 1 then Inr (wf_refused_row i (map_option fst row) WrClaimMismatch, d)
              else case workflow_with_task i d1 of
                     None \<Rightarrow> Inl (TypeError ''NoneType is not subscriptable'')
                   | Some (w, t) \<Rightarrow> Inr (wf_operation w WdApplied, d1)))"

definition attach_run_id :: "(string \<Rightarrow> string) \<Rightarrow> rowid \<Rightarrow> int \<Rightarrow> string \<Rightarrow> string \<Rightarrow> time \<Rightarrow> db
    \<Rightarrow> (exc + workflow_result) \<times> db" where
  "attach_run_id sha i expected token run now d =
     (if \<not> valid_identity i expected \<or> \<not> valid_secret token \<or> \<not> is_run_id run
      then (Inr (wf_refused i WrInvalidArgument), d)
      else commit_accepted (attach_run_tx sha i expected token run now) d)"

record failure_report =
  fp_reason :: string
  fp_exit_code :: "int option"
  fp_run_id :: "string option"
  fp_evidence :: "string option"

text \<open>\<open>INSERT OR IGNORE\<close>: the first digest of an attempt stays.\<close>

definition insert_failure_digest :: "rowid \<Rightarrow> int \<Rightarrow> workflow_phase \<Rightarrow> string option \<Rightarrow> string \<Rightarrow> time
    \<Rightarrow> db \<Rightarrow> db" where
  "insert_failure_digest i v ph run digest now d =
     (if list_ex (\<lambda>g. fg_task_id g = i \<and> fg_workflow_version g = v) (failure_digests d)
         \<or> \<not> (1 \<le> length digest \<and> length digest \<le> 800)
      then d
      else d\<lparr>failure_digests := failure_digests d @ [\<lparr>fg_task_id = i, fg_workflow_version = v,
             fg_phase = ph, fg_run_id = run, fg_digest = digest, fg_created_at = now\<rparr>]\<rparr>)"

text \<open>\<open>_finish_claim\<close>: \<open>None\<close> releases the claim, a report defers its failure.\<close>

definition finish_run_tx :: "nat \<Rightarrow> (string \<Rightarrow> string) \<Rightarrow> rowid \<Rightarrow> int \<Rightarrow> string \<Rightarrow> failure_report option
    \<Rightarrow> time \<Rightarrow> db \<Rightarrow> exc + (workflow_result \<times> db)" where
  "finish_run_tx max_attempts sha i expected token report now d =
     (let row = workflow_with_task i d in
      case claim_guard sha i expected token now d of
        Some ref \<Rightarrow> Inr (wf_refused_row i (map_option fst row) ref, d)
      | None \<Rightarrow>
          (let w = fst (the row) in
           case report of
             None \<Rightarrow>
               rbind (update_workflows (at_version i expected)
                   (\<lambda>x. (clear_claim x)\<lparr>wf_status := WfQueued, wf_version := expected + 1,
                      wf_updated_at := now\<rparr>) d) (\<lambda>(n, d1).
               rbind (wf_event i ''released'' (expected + 1) (wf_task_version w) (wf_phase w) WfQueued now d1)
                 (\<lambda>d2. Inr (wf_applied w (expected + 1) WfQueued (wf_phase w), d2)))
           | Some rep \<Rightarrow>
               rbind (defer_failure max_attempts w (fp_reason rep) now None (fp_exit_code rep)
                   (fp_run_id rep) d) (\<lambda>(r, d1).
                 Inr (r, case fp_evidence rep of
                           None \<Rightarrow> d1
                         | Some text \<Rightarrow> insert_failure_digest i expected (wf_phase w) (fp_run_id rep) text now d1))))"

definition finish_run_claim :: "nat \<Rightarrow> (string \<Rightarrow> string) \<Rightarrow> rowid \<Rightarrow> int \<Rightarrow> string \<Rightarrow> failure_report option
    \<Rightarrow> time \<Rightarrow> db \<Rightarrow> (exc + workflow_result) \<times> db" where
  "finish_run_claim max_attempts sha i expected token report now d =
     (if \<not> valid_identity i expected \<or> \<not> valid_secret token
      then (Inr (wf_refused i WrInvalidArgument), d)
      else commit_accepted (finish_run_tx max_attempts sha i expected token report now) d)"

definition release :: "nat \<Rightarrow> (string \<Rightarrow> string) \<Rightarrow> rowid \<Rightarrow> int \<Rightarrow> string \<Rightarrow> time \<Rightarrow> db
    \<Rightarrow> (exc + workflow_result) \<times> db" where
  "release max_attempts sha i expected token = finish_run_claim max_attempts sha i expected token None"

text \<open>The arguments of \<open>fail\<close>, with the evidence stripped as it is stored.\<close>

definition valid_report :: "failure_report \<Rightarrow> failure_report option" where
  "valid_report rep =
     (let reason = fp_reason rep; code = fp_exit_code rep; run = fp_run_id rep in
      if reason \<notin> set FAILURE_REASONS \<or> reason = ''claim_expired'' then None
      else if reason \<in> {''process_exit'', ''timeout''}
        \<and> ((code = None) \<noteq> (run = None)
           \<or> (case (code, run) of (Some c, Some r) \<Rightarrow> \<not> (1 \<le> c \<and> c \<le> 255) \<or> \<not> is_run_id r | _ \<Rightarrow> False))
      then None
      else if reason \<notin> {''process_exit'', ''timeout''} \<and> (code \<noteq> None \<or> run \<noteq> None) then None
      else
        case fp_evidence rep of
          None \<Rightarrow> Some rep
        | Some e \<Rightarrow>
            if reason \<noteq> ''timeout'' \<or> run = None \<or> strip e = [] \<or> MAX_FAILURE_DIGEST_CHARS < length (strip e)
            then None else Some (rep\<lparr>fp_evidence := Some (strip e)\<rparr>))"

definition fail_claim :: "nat \<Rightarrow> (string \<Rightarrow> string) \<Rightarrow> rowid \<Rightarrow> int \<Rightarrow> string \<Rightarrow> failure_report \<Rightarrow> time
    \<Rightarrow> db \<Rightarrow> (exc + workflow_result) \<times> db" where
  "fail_claim max_attempts sha i expected token rep now d =
     (case valid_report rep of
        None \<Rightarrow> (Inr (wf_refused i WrInvalidArgument), d)
      | Some rep' \<Rightarrow> finish_run_claim max_attempts sha i expected token (Some rep') now d)"

definition retry_tx :: "rowid \<Rightarrow> int \<Rightarrow> time \<Rightarrow> db \<Rightarrow> exc + (workflow_result \<times> db)" where
  "retry_tx i expected now d =
     (let row = workflow_with_task i d in
      case both_guards row (workflow_guard (map_option fst row) expected [WfQueued, WfParked]) of
        Some ref \<Rightarrow> Inr (wf_refused_row i (map_option fst row) ref, d)
      | None \<Rightarrow>
          (let w = fst (the row) in
           rbind (update_workflows (at_version i expected)
               (\<lambda>x. (clear_failure x)\<lparr>wf_status := WfQueued, wf_version := expected + 1,
                  wf_updated_at := now\<rparr>) d) (\<lambda>(n, d1).
           rbind (wf_event i ''retry_scheduled'' (expected + 1) (wf_task_version w) (wf_phase w) WfQueued now d1)
             (\<lambda>d2. Inr (wf_applied w (expected + 1) WfQueued (wf_phase w), d2)))))"

definition retry :: "rowid \<Rightarrow> int \<Rightarrow> time \<Rightarrow> db \<Rightarrow> (exc + workflow_result) \<times> db" where
  "retry i expected now d =
     (if \<not> valid_identity i expected then (Inr (wf_refused i WrInvalidArgument), d)
      else commit_accepted (retry_tx i expected now) d)"

definition priority_of :: "string \<Rightarrow> workflow_priority option" where
  "priority_of action = (if action = ''raise'' then Some PrioRaised
     else if action = ''lower'' then Some PrioLowered
     else if action = ''clear'' then Some PrioNormal else None)"

definition priority_event :: "string \<Rightarrow> string" where
  "priority_event action = (if action = ''raise'' then ''priority_raised''
     else if action = ''lower'' then ''priority_lowered'' else ''priority_cleared'')"

text \<open>
  \<open>set_priority\<close>.  Its stale pass is rolled back with a refusal; an unchanged preference rolls back
  too, although its result is accepted.
\<close>

definition set_priority_tx :: "rowid \<Rightarrow> int \<Rightarrow> string \<Rightarrow> workflow_priority \<Rightarrow> time \<Rightarrow> db
    \<Rightarrow> exc + (workflow_result \<times> db)" where
  "set_priority_tx i expected action priority now d0 =
     rbind (cancel_stale_workflows now d0) (\<lambda>d.
       let row = workflow_with_task i d;
           refusal = (case both_guards row (workflow_guard (map_option fst row) expected [WfQueued]) of
             Some ref \<Rightarrow> Some ref
           | None \<Rightarrow> (case wf_next_attempt_at (fst (the row)) of
               Some a \<Rightarrow> if now < a then Some WrInvalidState else None | None \<Rightarrow> None)) in
       case refusal of
         Some ref \<Rightarrow> Inr (wf_refused_row i (map_option fst row) ref, d0)
       | None \<Rightarrow>
           (let w = fst (the row) in
            if wf_priority w = priority \<and> wf_priority_source w = None
            then Inr (wf_operation w WdUnchanged, d0)
            else
              rbind (update_workflows (\<lambda>x. at_version i expected x \<and> wf_status x = WfQueued
                    \<and> (case wf_next_attempt_at x of None \<Rightarrow> True | Some a \<Rightarrow> a \<le> now))
                  (\<lambda>x. x\<lparr>wf_priority := priority, wf_version := expected + 1, wf_updated_at := now,
                     wf_priority_source := (if action \<in> {''raise'', ''lower''} then Some ''reader'' else None)\<rparr>) d)
                (\<lambda>(n, d1).
                  if n \<noteq> 1
                  then Inr (wf_refused_row i (map_option fst (workflow_with_task i d1)) WrStaleWorkflow, d0)
                  else
                    rbind (wf_event i (priority_event action) (expected + 1) (wf_task_version w) (wf_phase w)
                        WfQueued now d1)
                      (\<lambda>d2. Inr ((wf_applied w (expected + 1) WfQueued (wf_phase w))
                          \<lparr>xr_priority := Some priority\<rparr>, d2)))))"

definition set_priority :: "rowid \<Rightarrow> int \<Rightarrow> string \<Rightarrow> time \<Rightarrow> db \<Rightarrow> (exc + workflow_result) \<times> db" where
  "set_priority i expected action now d =
     (if \<not> valid_identity i expected then (Inr (wf_refused i WrInvalidArgument), d)
      else case priority_of action of
             None \<Rightarrow> (Inr (wf_refused i WrInvalidAction), d)
           | Some p \<Rightarrow> commit_accepted (set_priority_tx i expected action p now) d)"

end
