(* ===== verification/Owners.thy ===== *)
theory Owners
  imports Completion
begin

text \<open>
  \<open>task_owner.py\<close> with the grammar of \<open>speaker_ids.py\<close>: what a card may show as the owner of a
  task, and when the owner is confidently the reader or confidently someone else.  The three
  regular expressions are written as the matchers they denote on ASCII text: each returns the
  length of the longest match the backtracking search accepts at a position.
\<close>

section \<open>Characters\<close>

definition dec_digit :: "char \<Rightarrow> bool" where
  "dec_digit c \<longleftrightarrow> c \<in> set ''0123456789''"

definition is_name_char :: "char \<Rightarrow> bool" where
  "is_name_char c \<longleftrightarrow> is_alnum c \<or> c = CHR ''_''"

section \<open>Speaker ids\<close>

definition digit_prefix :: "string \<Rightarrow> nat" where
  "digit_prefix s = length (takeWhile dec_digit s)"

text \<open>\<open>SPK_\d+|CLU_\d{6}\<close>, greedy.\<close>

definition speaker_id :: "string \<Rightarrow> nat option" where
  "speaker_id s =
     (if take 4 s = ''SPK_'' \<and> 1 \<le> digit_prefix (drop 4 s) then Some (4 + digit_prefix (drop 4 s))
      else if take 4 s = ''CLU_'' \<and> 6 \<le> digit_prefix (drop 4 s) then Some 10
      else None)"

text \<open>One more id, or the bare number of a legacy continuation, after a slash.\<close>

definition continuation :: "string \<Rightarrow> nat option" where
  "continuation s =
     (if s = [] \<or> hd s \<noteq> CHR ''/'' then None
      else case speaker_id (tl s) of
             Some n \<Rightarrow> Some (n + 1)
           | None \<Rightarrow> if 1 \<le> digit_prefix (tl s) then Some (digit_prefix (tl s) + 1) else None)"

text \<open>
  The lengths after the first id and after each continuation, the longest first: the order in which
  a backtracking search gives iterations up.  The fuel is the length of the text.
\<close>

fun token_ends :: "nat \<Rightarrow> nat \<Rightarrow> string \<Rightarrow> nat list" where
  "token_ends 0 n s = [n]"
| "token_ends (Suc k) n s =
     (case continuation s of
        None \<Rightarrow> [n] | Some m \<Rightarrow> token_ends k (n + m) (drop m s) @ [n])"

definition speaker_token :: "string \<Rightarrow> nat list" where
  "speaker_token s =
     (case speaker_id s of None \<Rightarrow> [] | Some n \<Rightarrow> token_ends (length s) n (drop n s))"

definition spaces :: "string \<Rightarrow> nat" where
  "spaces s = length (takeWhile is_space s)"

text \<open>\<open>\s*\(\s*TOKEN\s*\)\<close>: a shorter token is followed by a slash, so only the longest can match.\<close>

definition parenthetical_speaker :: "char option \<Rightarrow> string \<Rightarrow> nat option" where
  "parenthetical_speaker prev s =
     (let a = spaces s; s1 = drop a s in
      if s1 = [] \<or> hd s1 \<noteq> CHR ''('' then None
      else
        let b = spaces (tl s1); s2 = drop b (tl s1) in
        case speaker_token s2 of
          [] \<Rightarrow> None
        | n # _ \<Rightarrow>
            let c = spaces (drop n s2); s3 = drop c (drop n s2) in
            if s3 = [] \<or> hd s3 \<noteq> CHR '')'' then None else Some (a + 1 + b + n + c + 1))"

text \<open>\<open>(?<![A-Za-z0-9_])TOKEN(?!\d)\<close>.\<close>

definition bare_speaker :: "char option \<Rightarrow> string \<Rightarrow> nat option" where
  "bare_speaker prev s =
     (if (case prev of None \<Rightarrow> False | Some p \<Rightarrow> is_name_char p) then None
      else List.find (\<lambda>n. digit_prefix (drop n s) = 0) (speaker_token s))"

text \<open>\<open>re.sub(pattern, "", s)\<close>: \<open>skip\<close> characters of a match are still to be passed over.\<close>

fun remove_all :: "(char option \<Rightarrow> string \<Rightarrow> nat option) \<Rightarrow> nat \<Rightarrow> char option \<Rightarrow> string \<Rightarrow> string" where
  "remove_all m skip prev [] = []"
| "remove_all m (Suc k) prev (c # cs) = remove_all m k (Some c) cs"
| "remove_all m 0 prev (c # cs) =
     (case m prev (c # cs) of
        Some (Suc k) \<Rightarrow> remove_all m k (Some c) cs
      | _ \<Rightarrow> c # remove_all m 0 (Some c) cs)"

text \<open>\<open>re.sub(r"\s{2,}", " ", s)\<close>.\<close>

fun squeeze :: "string \<Rightarrow> string" where
  "squeeze [] = []"
| "squeeze [c] = [c]"
| "squeeze (c # e # cs) =
     (if is_space c \<and> is_space e then CHR '' '' # squeeze (dropWhile is_space cs)
      else c # squeeze (e # cs))"

definition strip_chars :: "string \<Rightarrow> string \<Rightarrow> string" where
  "strip_chars cs s = rev (dropWhile (\<lambda>c. c \<in> set cs) (rev (dropWhile (\<lambda>c. c \<in> set cs) s)))"

section \<open>The owner of a task\<close>

definition UNRESOLVED_DISPLAY :: string where "UNRESOLVED_DISPLAY = ''(unassigned)''"

text \<open>The dash of the code that is not ASCII has no character here.\<close>

definition canonical_owner_display :: "string option \<Rightarrow> string option \<Rightarrow> string option" where
  "canonical_owner_display owner kind =
     (if kind = Some ''unresolved'' then Some UNRESOLVED_DISPLAY
      else case owner of
             None \<Rightarrow> None
           | Some s \<Rightarrow>
               let display = strip_chars (CHR 0x09 # '' ,;:()[]-'')
                     (squeeze (remove_all bare_speaker 0 None (remove_all parenthetical_speaker 0 None s))) in
               Some (if display = [] then UNRESOLVED_DISPLAY else display))"

definition normalized_owner :: "string \<Rightarrow> string" where
  "normalized_owner value =
     join (words (map (\<lambda>c. if is_alnum c then c else CHR '' '') (casefold value)))"

definition normalized_aliases :: "string list \<Rightarrow> string list" where
  "normalized_aliases values = filter (\<lambda>a. a \<noteq> []) (map normalized_owner values)"

text \<open>The label of a confident owner: resolved, a person, of the current kind of reference.\<close>

definition confident_owner :: "owner_state \<Rightarrow> string option" where
  "confident_owner ow =
     (case canonical_owner_display (ow_display ow) (ow_kind ow) of
        None \<Rightarrow> None
      | Some display \<Rightarrow>
          if display = UNRESOLVED_DISPLAY \<or> ow_kind ow \<notin> {Some ''person'', Some ''external''}
             \<or> ow_ref_version ow \<noteq> 1 \<or> ow_provisional ow
          then None else Some display)"

definition reader_owned :: "string list \<Rightarrow> owner_state \<Rightarrow> bool" where
  "reader_owned aliases ow \<longleftrightarrow> aliases \<noteq> []
     \<and> (case confident_owner ow of None \<Rightarrow> False | Some s \<Rightarrow> normalized_owner s \<in> set aliases)"

definition confidently_other_owned :: "string list \<Rightarrow> owner_state \<Rightarrow> bool" where
  "confidently_other_owned aliases ow \<longleftrightarrow> aliases \<noteq> []
     \<and> (case confident_owner ow of None \<Rightarrow> False | Some s \<Rightarrow> normalized_owner s \<notin> set aliases)"

text \<open>The two verdicts exclude each other and cover exactly the confident owners.\<close>

lemma owner_verdicts:
  "\<not> (reader_owned aliases ow \<and> confidently_other_owned aliases ow)"
  "aliases \<noteq> [] \<Longrightarrow> confident_owner ow \<noteq> None \<longleftrightarrow>
     reader_owned aliases ow \<or> confidently_other_owned aliases ow"
  "ow_provisional ow \<Longrightarrow> \<not> reader_owned aliases ow \<and> \<not> confidently_other_owned aliases ow"
  by (auto simp: reader_owned_def confidently_other_owned_def confident_owner_def split: option.splits)

end
