(* ===== verification/ExecGates.thy ===== *)
theory ExecGates
  imports Execution Owners
begin

text \<open>
  The reader's side of \<open>TaskExecutionService\<close>: what a deployment declares, how a task gets its
  workflow (\<open>schedule\<close>), the gate before it runs (\<open>start_action\<close>, \<open>select_agent\<close>), the gate after
  each result (\<open>review_action\<close> and the choice of an executor), and the adoption of an installed
  profile revision.  Every operation answers one version of the workflow.
\<close>

section \<open>What a deployment declares\<close>

text \<open>The attributes that \<open>__init__\<close> keeps; a cap of \<open>None\<close> is an unbounded one.\<close>

record exec_config =
  ec_registry :: registry
  ec_default :: profile
  ec_routes :: "(string \<times> string) list"
  ec_planning_grants :: "string list"
  ec_ask_other :: "string list"
  ec_steer :: "string list"
  ec_execution_grants :: "string list"
  ec_action_grants :: "string list"
  ec_skip_planning :: "string list"
  ec_aliases :: "string list"
  ec_max_attempts :: nat
  ec_slot_cap :: "int option"

definition MAX_ATTEMPTS :: nat where "MAX_ATTEMPTS = 20"
definition EXECUTION_SLOT_CAP :: int where "EXECUTION_SLOT_CAP = 2"
definition UNBOUNDED_CAP :: int where "UNBOUNDED_CAP = -1"

definition resolve_cap :: "int option \<Rightarrow> int \<Rightarrow> exc + int option" where
  "resolve_cap override standard =
     (case override of
        None \<Rightarrow> Inr (Some standard)
      | Some c \<Rightarrow> if c = UNBOUNDED_CAP then Inr None
                  else if c < 0 then Inl (ValueError ''capacity override is invalid'')
                  else Inr (Some c))"

text \<open>What \<open>__init__\<close> accepts; the profiles of a registry are validated as they are built.\<close>

definition all_phases :: "workflow_phase list" where
  "all_phases = [PhasePlan, PhaseExecute, PhaseExternalAction]"

definition config_ok :: "exec_config \<Rightarrow> bool" where
  "config_ok cfg \<longleftrightarrow> 1 \<le> ec_max_attempts cfg \<and> ec_max_attempts cfg \<le> MAX_ATTEMPTS
     \<and> registry_get (ec_registry cfg) (Some (pr_id (ec_default cfg))) = Some (ec_default cfg)
     \<and> list_all profile_ok (rg_profiles (ec_registry cfg))
     \<and> PhasePlan \<in> set (pr_phases (ec_default cfg))
     \<and> list_all (\<lambda>(kind, i). kind \<noteq> [] \<and> i \<noteq> [] \<and> (case registry_get (ec_registry cfg) (Some i) of
          None \<Rightarrow> False | Some p \<Rightarrow> set all_phases \<subseteq> set (pr_phases p))) (ec_routes cfg)
     \<and> list_all (\<lambda>k. k \<notin> set (ec_ask_other cfg)) (ec_planning_grants cfg)
     \<and> list_all (\<lambda>k. k \<in> set (ec_execution_grants cfg) \<and> k \<in> set (ec_planning_grants cfg))
         (ec_skip_planning cfg)"

lemma config_ok_profiles: "config_ok cfg \<Longrightarrow> list_all profile_ok (rg_profiles (ec_registry cfg))"
  by (simp add: config_ok_def)

definition declared :: "string option \<Rightarrow> string list \<Rightarrow> bool" where
  "declared kind kinds = (case kind of None \<Rightarrow> False | Some k \<Rightarrow> k \<in> set kinds)"

text \<open>\<open>_profile_for\<close>.\<close>

definition profile_for :: "exec_config \<Rightarrow> string option \<Rightarrow> exc + profile" where
  "profile_for cfg kind =
     (case (case kind of None \<Rightarrow> None | Some k \<Rightarrow> map_of (ec_routes cfg) k) of
        None \<Rightarrow> Inr (ec_default cfg)
      | Some i \<Rightarrow>
          (case registry_get (ec_registry cfg) (Some i) of
             None \<Rightarrow> Inl (TaskLedgerError ''routed agent profile is unavailable'')
           | Some p \<Rightarrow> Inr p))"

definition initial_status :: "exec_config \<Rightarrow> string option \<Rightarrow> owner_state \<Rightarrow> workflow_status" where
  "initial_status cfg kind ow =
     (if declared kind (ec_planning_grants cfg) then WfQueued
      else if declared kind (ec_ask_other cfg)
      then if confidently_other_owned (ec_aliases cfg) ow then WfAwaitingStart else WfQueued
      else if reader_owned (ec_aliases cfg) ow then WfQueued
      else WfAwaitingStart)"

definition initial_phase :: "exec_config \<Rightarrow> string option \<Rightarrow> workflow_phase" where
  "initial_phase cfg kind = (if declared kind (ec_skip_planning cfg) then PhaseExecute else PhasePlan)"

section \<open>Scheduling one task\<close>

text \<open>The inserted row, with the defaults of the columns the statement does not name.\<close>

definition fresh_workflow :: "rowid \<Rightarrow> int \<Rightarrow> workflow_status \<Rightarrow> workflow_phase \<Rightarrow> profile \<Rightarrow> bool
    \<Rightarrow> time \<Rightarrow> workflow_row" where
  "fresh_workflow i tv st ph p steer now =
     \<lparr>wf_task_id = i, wf_task_version = tv, wf_status = st, wf_phase = ph, wf_version = 1,
      wf_due_at = None, wf_claim_token_digest = None, wf_claimed_at = None,
      wf_claim_heartbeat_at = None, wf_claim_expires_at = None, wf_failure_count = 0,
      wf_current_run_id = None, wf_last_failure_reason = None, wf_last_failure_exit_code = None,
      wf_last_failure_run_id = None, wf_last_failure_at = None, wf_next_attempt_at = None,
      wf_parked_at = None, wf_updated_at = now, wf_completed_at = None,
      wf_profile_id = Some (pr_id p), wf_profile_revision = Some (pr_revision p),
      wf_last_result_id = None, wf_created_at = now, wf_steer = steer, wf_priority = PrioNormal,
      wf_priority_source = None\<rparr>"

definition replan_workflow :: "int \<Rightarrow> workflow_status \<Rightarrow> workflow_phase \<Rightarrow> int \<Rightarrow> profile \<Rightarrow> bool
    \<Rightarrow> time \<Rightarrow> workflow_row \<Rightarrow> workflow_row" where
  "replan_workflow tv st ph version p steer now x =
     (clear_failure (clear_claim x))\<lparr>wf_task_version := tv, wf_status := st, wf_phase := ph,
        wf_version := version, wf_due_at := None, wf_last_result_id := None, wf_updated_at := now,
        wf_completed_at := None, wf_profile_id := Some (pr_id p),
        wf_profile_revision := Some (pr_revision p), wf_steer := steer\<rparr>"

definition place_workflow :: "exec_config \<Rightarrow> task_row \<Rightarrow> workflow_row option \<Rightarrow> time \<Rightarrow> db
    \<Rightarrow> exc + db" where
  "place_workflow cfg t row now d =
     (let i = tk_id t; kind = origin_kind i d;
          version = (case row of None \<Rightarrow> 1 | Some w \<Rightarrow> wf_version w + 1);
          phase = initial_phase cfg kind; status = initial_status cfg kind (tk_owner t);
          steer = declared kind (ec_steer cfg) in
      rbind (profile_for cfg kind) (\<lambda>p.
      rbind (case row of
               None \<Rightarrow> insert_workflow (fresh_workflow i (tk_version t) status phase p steer now) d
             | Some w \<Rightarrow> rbind (update_workflows (\<lambda>x. wf_task_id x = i)
                 (replan_workflow (tk_version t) status phase version p steer now) d) (\<lambda>(n, d1). Inr d1))
        (wf_event i ''scheduled'' version (tk_version t) phase status now)))"

text \<open>A live plan of this version of the task stays as it is.\<close>

definition already_placed :: "workflow_row \<Rightarrow> int \<Rightarrow> time \<Rightarrow> bool" where
  "already_placed w tv now \<longleftrightarrow> wf_task_version w = tv
     \<and> ((wf_status w = WfSnoozed \<and> (case wf_due_at w of None \<Rightarrow> False | Some due \<Rightarrow> now < due))
        \<or> wf_status w \<notin> {WfCompleted, WfCancelled, WfParked})"

definition schedule_tx :: "exec_config \<Rightarrow> rowid \<Rightarrow> int \<Rightarrow> time \<Rightarrow> db \<Rightarrow> exc + (workflow_result \<times> db)" where
  "schedule_tx cfg i expected now d =
     (case task_guard (task_of i d) expected of
        Some ref \<Rightarrow> Inr (wf_refused i ref, d)
      | None \<Rightarrow>
          if source_withdrawn i d then Inr (wf_refused i WrInvalidState, d)
          else
            let t = the (task_of i d); row = workflow_of i d in
            case row of
              Some w \<Rightarrow>
                if already_placed w expected now then Inr (wf_operation w WdUnchanged, d)
                else rbind (place_workflow cfg t row now d) (\<lambda>d1.
                  case workflow_of i d1 of
                    None \<Rightarrow> Inl (TypeError ''NoneType is not subscriptable'')
                  | Some w1 \<Rightarrow> Inr (wf_operation w1 WdApplied, d1))
            | None \<Rightarrow> rbind (place_workflow cfg t row now d) (\<lambda>d1.
                  case workflow_of i d1 of
                    None \<Rightarrow> Inl (TypeError ''NoneType is not subscriptable'')
                  | Some w1 \<Rightarrow> Inr (wf_operation w1 WdApplied, d1)))"

definition schedule_task :: "exec_config \<Rightarrow> rowid \<Rightarrow> int \<Rightarrow> time \<Rightarrow> db \<Rightarrow> (exc + workflow_result) \<times> db" where
  "schedule_task cfg i expected now d =
     (if \<not> valid_identity i expected then (Inr (wf_refused i WrInvalidArgument), d)
      else commit_accepted (schedule_tx cfg i expected now) d)"

section \<open>The start gate\<close>

definition SNOOZE_ACTIONS :: "string list" where
  "SNOOZE_ACTIONS = [''snooze'', ''snooze_1d'', ''snooze_7d'', ''snooze_14d'', ''snooze_30d'']"

text \<open>
  \<open>_calendar_snooze_until\<close>: 09:00 of a day of the host's calendar.  \<open>local\<close> maps an instant to the
  host's wall clock (seconds since the wall clock's 1970-01-01), \<open>utc\<close> a wall clock time back;
  1970-01-01 was a Thursday.
\<close>

definition snooze_until :: "(time \<Rightarrow> int) \<Rightarrow> (int \<Rightarrow> time) \<Rightarrow> string \<Rightarrow> time \<Rightarrow> time" where
  "snooze_until local utc action stamp =
     (let current = local stamp; today = current div 86400; weekday = (today + 3) mod 7;
          target =
            (if action = ''snooze'' \<or> action = ''snooze_1d'' then today + 1
             else if action = ''snooze_7d''
             then let friday = today + (4 - weekday) mod 7 in
               (if friday = today \<and> 9 * 3600 \<le> current mod 86400 then friday + 7 else friday)
             else if action = ''snooze_14d'' then today + (7 - weekday)
             else today + 14) in
      utc (target * 86400 + 9 * 3600))"

text \<open>\<open>record_ownership_decision\<close> of \<open>task_research_gate.py\<close>.\<close>

definition record_ownership_decision :: "rowid \<Rightarrow> int \<Rightarrow> ownership_status \<Rightarrow> time \<Rightarrow> db \<Rightarrow> bool \<times> db" where
  "record_ownership_decision i tv decision now d =
     (let hit = (\<lambda>r. ow_task_id r = i \<and> ow_task_version r = tv \<and> ow_status r = OwnPending) in
      (rowcount hit (ownership_reviews d) = 1,
       d\<lparr>ownership_reviews := update_where hit
           (\<lambda>r. r\<lparr>ow_status := decision, ow_decided_at := Some now\<rparr>) (ownership_reviews d)\<rparr>))"

definition pin_owner :: "task_row \<Rightarrow> task_row" where
  "pin_owner t = t\<lparr>tk_owner := (tk_owner t)\<lparr>ow_pinned := True\<rparr>\<rparr>"

text \<open>The status, the wake-up, the completion and the event of one answer to the start gate.\<close>

definition start_plan :: "(time \<Rightarrow> int) \<Rightarrow> (int \<Rightarrow> time) \<Rightarrow> string \<Rightarrow> time
    \<Rightarrow> workflow_status \<times> time option \<times> time option \<times> string" where
  "start_plan local utc action now =
     (if action = ''start'' then (WfQueued, None, None, ''start_approved'')
      else if action \<in> set SNOOZE_ACTIONS
      then (WfSnoozed, Some (snooze_until local utc action now), None, ''snoozed'')
      else (WfCancelled, None, Some now, ''cancelled''))"

definition settle_gate :: "workflow_status \<Rightarrow> workflow_phase \<Rightarrow> int \<Rightarrow> time option \<Rightarrow> time option \<Rightarrow> time
    \<Rightarrow> workflow_row \<Rightarrow> workflow_row" where
  "settle_gate st ph version wake completed now x =
     (clear_failure (clear_claim x))\<lparr>wf_status := st, wf_phase := ph, wf_version := version,
        wf_due_at := wake, wf_updated_at := now, wf_completed_at := completed\<rparr>"

definition woken :: "workflow_row \<Rightarrow> time \<Rightarrow> bool" where
  "woken w now \<longleftrightarrow> wf_status w = WfSnoozed \<longrightarrow> (case wf_due_at w of None \<Rightarrow> True | Some due \<Rightarrow> due \<le> now)"

definition apply_start_action :: "(time \<Rightarrow> int) \<Rightarrow> (int \<Rightarrow> time) \<Rightarrow> rowid \<Rightarrow> int \<Rightarrow> string \<Rightarrow> time
    \<Rightarrow> db \<Rightarrow> exc + (workflow_result \<times> db)" where
  "apply_start_action local utc i expected action now d =
     (if \<not> valid_identity i expected then Inr (wf_refused i WrInvalidArgument, d)
      else if action \<notin> set (''start'' # ''cancel'' # SNOOZE_ACTIONS)
      then Inr (wf_refused i WrInvalidAction, d)
      else
        let row = workflow_with_task i d;
            refusal = (case both_guards row (workflow_guard (map_option fst row) expected
                  [WfAwaitingStart, WfSnoozed, WfParked]) of
                Some ref \<Rightarrow> Some ref
              | None \<Rightarrow> if action = ''start'' \<and> \<not> woken (fst (the row)) now
                         then Some WrInvalidState else None) in
        case refusal of
          Some ref \<Rightarrow> Inr (wf_refused_row i (map_option fst row) ref, d)
        | None \<Rightarrow>
            (let w = fst (the row); version = expected + 1;
                 (status, wake, completed, kind) = start_plan local utc action now in
             rbind (update_workflows (at_version i expected)
                 (settle_gate status (wf_phase w) version wake completed now) d) (\<lambda>(n, d1).
             rbind (wf_event i kind version (wf_task_version w) (wf_phase w) status now d1) (\<lambda>d2.
               let (pending, d3) = (if kind = ''start_approved''
                     then record_ownership_decision i (wf_task_version w) OwnKept now d2 else (False, d2));
                   d4 = (if pending then d3\<lparr>tasks := update_where (\<lambda>t. tk_id t = i) pin_owner (tasks d3)\<rparr>
                         else d3) in
               Inr ((wf_applied w version status (wf_phase w))\<lparr>xr_wake_at := wake\<rparr>, d4)))))"

definition start_action :: "(time \<Rightarrow> int) \<Rightarrow> (int \<Rightarrow> time) \<Rightarrow> rowid \<Rightarrow> int \<Rightarrow> string \<Rightarrow> time \<Rightarrow> db
    \<Rightarrow> (exc + workflow_result) \<times> db" where
  "start_action local utc i expected action now d =
     (if \<not> valid_identity i expected then (Inr (wf_refused i WrInvalidArgument), d)
      else if action \<notin> {''start'', ''snooze'', ''cancel''} then (Inr (wf_refused i WrInvalidAction), d)
      else commit_accepted (apply_start_action local utc i expected action now) d)"

section \<open>Choosing the agent\<close>

text \<open>The write that every choice of an agent makes.\<close>

definition bind_profile :: "rowid \<Rightarrow> int \<Rightarrow> (workflow_row \<Rightarrow> bool) \<Rightarrow> profile \<Rightarrow> workflow_row
    \<Rightarrow> workflow_phase \<Rightarrow> time \<Rightarrow> db \<Rightarrow> exc + (workflow_result \<times> db)" where
  "bind_profile i expected extra p w ph now d =
     rbind (update_workflows (\<lambda>x. at_version i expected x \<and> extra x)
         (\<lambda>x. x\<lparr>wf_version := expected + 1, wf_profile_id := Some (pr_id p),
            wf_profile_revision := Some (pr_revision p), wf_updated_at := now\<rparr>) d) (\<lambda>(n, d1).
       if n \<noteq> 1 then Inr (wf_refused_row i (Some w) WrStaleWorkflow, d1)
       else rbind (wf_event i ''agent_selected'' (expected + 1) (wf_task_version w) ph (wf_status w) now d1)
         (\<lambda>d2. Inr ((xr_blank WdApplied i)\<lparr>xr_version := Some (expected + 1),
            xr_status := Some (wf_status w), xr_phase := Some (wf_phase w),
            xr_profile_id := Some (pr_id p), xr_profile_revision := Some (pr_revision p)\<rparr>, d2)))"

definition same_profile :: "workflow_row \<Rightarrow> profile \<Rightarrow> bool" where
  "same_profile w p \<longleftrightarrow> wf_profile_id w = Some (pr_id p) \<and> wf_profile_revision w = Some (pr_revision p)"

definition apply_agent_selection :: "rowid \<Rightarrow> int \<Rightarrow> profile \<Rightarrow> time \<Rightarrow> db
    \<Rightarrow> exc + (workflow_result \<times> db)" where
  "apply_agent_selection i expected p now d =
     (if \<not> valid_identity i expected then Inr (wf_refused i WrInvalidArgument, d)
      else if PhasePlan \<notin> set (pr_phases p) then Inr (wf_refused i WrAgentProfileUnavailable, d)
      else
        let row = workflow_with_task i d in
        case both_guards row (workflow_guard (map_option fst row) expected [WfAwaitingStart]) of
          Some ref \<Rightarrow> Inr (wf_refused_row i (map_option fst row) ref, d)
        | None \<Rightarrow>
            (let w = fst (the row) in
             if same_profile w p then Inr (wf_operation w WdUnchanged, d)
             else rbind (bind_profile i expected (\<lambda>x. wf_status x = WfAwaitingStart) p w PhasePlan now d)
               (\<lambda>(r, d1). Inr (if xr_accepted r then r\<lparr>xr_phase := Some PhasePlan\<rparr> else r, d1))))"

definition select_agent :: "exec_config \<Rightarrow> rowid \<Rightarrow> int \<Rightarrow> string \<Rightarrow> string \<Rightarrow> time \<Rightarrow> db
    \<Rightarrow> (exc + workflow_result) \<times> db" where
  "select_agent cfg i expected profile_id revision now d =
     (if \<not> valid_identity i expected then (Inr (wf_refused i WrInvalidArgument), d)
      else case registry_resolve_current (ec_registry cfg) (Some profile_id) (Some revision) of
             None \<Rightarrow> (Inr (wf_refused i WrAgentProfileUnavailable), d)
           | Some p \<Rightarrow>
               if PhasePlan \<notin> set (pr_phases p) then (Inr (wf_refused i WrAgentProfileUnavailable), d)
               else commit_accepted (apply_agent_selection i expected p now) d)"

text \<open>The executor of a plan under review; its event names the phase the executor is for.\<close>

definition apply_plan_review_agent_selection :: "rowid \<Rightarrow> int \<Rightarrow> profile \<Rightarrow> time \<Rightarrow> db
    \<Rightarrow> exc + (workflow_result \<times> db)" where
  "apply_plan_review_agent_selection i expected p now d =
     (if \<not> valid_identity i expected then Inr (wf_refused i WrInvalidArgument, d)
      else if PhaseExecute \<notin> set (pr_phases p) then Inr (wf_refused i WrAgentProfileUnavailable, d)
      else
        let row = workflow_with_task i d;
            refusal = (case workflow_guard (map_option fst row) expected [WfAwaitingReview] of
                Some ref \<Rightarrow> Some ref
              | None \<Rightarrow> if wf_phase (fst (the row)) \<noteq> PhasePlan then Some WrInvalidState
                         else both_guards row None) in
        case refusal of
          Some ref \<Rightarrow> Inr (wf_refused_row i (map_option fst row) ref, d)
        | None \<Rightarrow>
            (let w = fst (the row) in
             if same_profile w p then Inr (wf_operation w WdUnchanged, d)
             else bind_profile i expected (\<lambda>x. wf_status x = WfAwaitingReview \<and> wf_phase x = PhasePlan)
               p w PhaseExecute now d))"

section \<open>The review gate\<close>

text \<open>What approving a result opens.\<close>

definition approval_opens :: "execution_outcome \<Rightarrow> workflow_phase option" where
  "approval_opens outcome =
     (case outcome of OutAwaitingPlan \<Rightarrow> Some PhaseExecute
      | OutAwaitingExternal \<Rightarrow> Some PhaseExternalAction | _ \<Rightarrow> None)"

text \<open>The status, phase, wake-up, completion and event of one answer to a review.\<close>

definition review_plan :: "(time \<Rightarrow> int) \<Rightarrow> (int \<Rightarrow> time) \<Rightarrow> string \<Rightarrow> workflow_phase \<Rightarrow> execution_outcome
    \<Rightarrow> time \<Rightarrow> (workflow_status \<times> workflow_phase \<times> time option \<times> time option \<times> string) option" where
  "review_plan local utc action phase outcome now =
     (if action = ''cancel'' then Some (WfCancelled, phase, None, Some now, ''cancelled'')
      else if action = ''revise'' then Some (WfQueued, PhasePlan, None, None, ''revision_requested'')
      else if action \<in> set SNOOZE_ACTIONS
      then Some (WfSnoozed, phase, Some (snooze_until local utc action now), None, ''snoozed'')
      else case approval_opens outcome of
             None \<Rightarrow> None | Some target \<Rightarrow> Some (WfQueued, target, None, None, ''phase_approved''))"

text \<open>The outcome of the result the workflow shows.\<close>

definition shown_outcome :: "workflow_row \<Rightarrow> db \<Rightarrow> execution_outcome option" where
  "shown_outcome w d = map_option rs_outcome
     (List.find (\<lambda>r. Some (rs_result_id r) = wf_last_result_id w \<and> rs_task_id r = wf_task_id w) (results d))"

definition apply_review_action :: "(time \<Rightarrow> int) \<Rightarrow> (int \<Rightarrow> time) \<Rightarrow> rowid \<Rightarrow> int \<Rightarrow> string \<Rightarrow> time
    \<Rightarrow> db \<Rightarrow> exc + (workflow_result \<times> db)" where
  "apply_review_action local utc i expected action now d =
     (if \<not> valid_identity i expected then Inr (wf_refused i WrInvalidArgument, d)
      else if action \<notin> set ([''approve'', ''revise'', ''cancel''] @ SNOOZE_ACTIONS)
      then Inr (wf_refused i WrInvalidAction, d)
      else
        let row = workflow_with_task i d;
            allowed = [WfAwaitingReview, WfSnoozed] @ (if action \<in> set SNOOZE_ACTIONS then [WfCompleted] else []);
            refusal = (case both_guards row (workflow_guard (map_option fst row) expected allowed) of
                Some ref \<Rightarrow> Some ref
              | None \<Rightarrow> if \<not> woken (fst (the row)) now \<or> shown_outcome (fst (the row)) d = None
                         then Some WrInvalidState else None) in
        case refusal of
          Some ref \<Rightarrow> Inr (wf_refused_row i (map_option fst row) ref, d)
        | None \<Rightarrow>
            (let w = fst (the row); version = expected + 1 in
             case review_plan local utc action (wf_phase w) (the (shown_outcome w d)) now of
               None \<Rightarrow> Inr (wf_refused_row i (Some w) WrInvalidState, d)
             | Some (status, phase, wake, completed, kind) \<Rightarrow>
                 rbind (update_workflows (at_version i expected)
                     (settle_gate status phase version wake completed now) d) (\<lambda>(n, d1).
                 rbind (wf_event i kind version (wf_task_version w) phase status now d1) (\<lambda>d2.
                   Inr ((wf_applied w version status phase)\<lparr>xr_wake_at := wake\<rparr>, d2)))))"

definition review_action :: "(time \<Rightarrow> int) \<Rightarrow> (int \<Rightarrow> time) \<Rightarrow> rowid \<Rightarrow> int \<Rightarrow> string \<Rightarrow> time \<Rightarrow> db
    \<Rightarrow> (exc + workflow_result) \<times> db" where
  "review_action local utc i expected action now d =
     (if \<not> valid_identity i expected then (Inr (wf_refused i WrInvalidArgument), d)
      else if action \<notin> set [''approve'', ''revise'', ''cancel'', ''snooze_1d'', ''snooze_7d'', ''snooze_14d'', ''snooze_30d'']
      then (Inr (wf_refused i WrInvalidAction), d)
      else commit_accepted (apply_review_action local utc i expected action now) d)"

section \<open>Adopting an installed revision\<close>

definition ADOPTABLE_STATUSES :: "workflow_status list" where
  "ADOPTABLE_STATUSES = [WfAwaitingStart, WfSnoozed, WfQueued, WfAwaitingReview, WfParked]"

definition adopt_tx :: "exec_config \<Rightarrow> rowid \<Rightarrow> int \<Rightarrow> time \<Rightarrow> db \<Rightarrow> exc + (workflow_result \<times> db)" where
  "adopt_tx cfg i expected now d =
     (let row = workflow_with_task i d in
      case both_guards row (workflow_guard (map_option fst row) expected ADOPTABLE_STATUSES) of
        Some ref \<Rightarrow> Inr (wf_refused_row i (map_option fst row) ref, d)
      | None \<Rightarrow>
          (let w = fst (the row) in
           case registry_get (ec_registry cfg) (wf_profile_id w) of
             None \<Rightarrow> Inr (wf_refused_row i (Some w) WrAgentProfileUnavailable, d)
           | Some p \<Rightarrow>
               if wf_phase w \<notin> set (pr_phases p)
               then Inr (wf_refused_row i (Some w) WrAgentProfileUnavailable, d)
               else if wf_profile_revision w = Some (pr_revision p)
               then Inr (wf_operation w WdUnchanged, d)
               else bind_profile i expected (\<lambda>x. wf_status x \<noteq> WfRunning) p w (wf_phase w) now d))"

definition adopt_installed_revision :: "exec_config \<Rightarrow> rowid \<Rightarrow> int \<Rightarrow> time \<Rightarrow> db
    \<Rightarrow> (exc + workflow_result) \<times> db" where
  "adopt_installed_revision cfg i expected now d =
     (if \<not> valid_identity i expected then (Inr (wf_refused i WrInvalidArgument), d)
      else commit_accepted (adopt_tx cfg i expected now) d)"

end
