(* ===== verification/Results.thy ===== *)
theory Results
  imports ExecGates
begin

text \<open>
  What a worker records: the envelope of \<open>ExecutionResultEnvelope\<close>, its validation
  (\<open>_validated_result\<close> with the collections, references, artifacts and paths it checks), the
  canonical JSON whose SHA-256 identifies the answer, and \<open>record_result\<close>.
\<close>

section \<open>Canonical JSON\<close>

datatype json = JNull | JBool bool | JInt int | JStr string | JList "json list" | JObj "(string \<times> json) list"

definition hex_char :: "nat \<Rightarrow> char" where
  "hex_char n = ''0123456789abcdef'' ! n"

text \<open>The escapes of \<open>json.dumps\<close> on ASCII text.\<close>

definition json_char :: "char \<Rightarrow> string" where
  "json_char c =
     (let n = code_of c in
      if c = CHR 0x22 then [CHR 0x5C, CHR 0x22]
      else if c = CHR 0x5C then [CHR 0x5C, CHR 0x5C]
      else if n = 10 then [CHR 0x5C, CHR ''n'']
      else if n = 13 then [CHR 0x5C, CHR ''r'']
      else if n = 9 then [CHR 0x5C, CHR ''t'']
      else if n = 8 then [CHR 0x5C, CHR ''b'']
      else if n = 12 then [CHR 0x5C, CHR ''f'']
      else if n < 32 then CHR 0x5C # ''u00'' @ [hex_char (n div 16), hex_char (n mod 16)]
      else [c])"

definition json_string :: "string \<Rightarrow> string" where
  "json_string s = CHR 0x22 # concat (map json_char s) @ [CHR 0x22]"

definition json_int :: "int \<Rightarrow> string" where
  "json_int i = (if i < 0 then CHR ''-'' # digits (nat (- i)) else digits (nat i))"

text \<open>The parts with a comma between any two of them.\<close>

fun commas :: "string list \<Rightarrow> string" where
  "commas [] = []"
| "commas [s] = s"
| "commas (s # t # ss) = s @ CHR '','' # commas (t # ss)"

text \<open>\<open>_canonical_json\<close>; an object is listed with its keys in order.\<close>

fun canonical_json :: "json \<Rightarrow> string" where
  "canonical_json JNull = ''null''"
| "canonical_json (JBool b) = (if b then ''true'' else ''false'')"
| "canonical_json (JInt i) = json_int i"
| "canonical_json (JStr s) = json_string s"
| "canonical_json (JList xs) = CHR ''['' # commas (map canonical_json xs) @ '']''"
| "canonical_json (JObj kvs) =
     CHR 0x7B # commas (map (\<lambda>(k, v). json_string k @ CHR '':'' # canonical_json v) kvs) @ [CHR 0x7D]"

section \<open>The envelope\<close>

text \<open>A collection item is a line or a record of fields.\<close>

datatype item = PlainItem string | FieldsItem "(string \<times> string) list"

record artifact =
  af_path :: string
  af_name :: string
  af_size :: int
  af_digest :: string
  af_run :: string

record envelope =
  en_result_id :: string
  en_task_id :: rowid
  en_task_version :: int
  en_workflow_version :: int
  en_phase :: workflow_phase
  en_claim_token :: string
  en_outcome :: execution_outcome
  en_summary :: string
  en_work_markdown :: string
  en_work_digest :: string
  en_questions :: "string list"
  en_external_actions :: "item list"
  en_deliverables :: "item list"
  en_references :: "(string \<times> string) list"
  en_repository_impact :: bool
  en_work_directory :: "string option"
  en_kb_file :: "string option"
  en_artifacts :: "artifact list"
  en_instruction :: "int option"

definition MAX_RESULT_BYTES :: nat where "MAX_RESULT_BYTES = 262144"
definition RESULT_MAX_SUMMARY_CHARS :: nat where "RESULT_MAX_SUMMARY_CHARS = 1200"
definition MAX_WORK_DIGEST_CHARS :: nat where "MAX_WORK_DIGEST_CHARS = 800"
definition MAX_COLLECTION_ITEMS :: nat where "MAX_COLLECTION_ITEMS = 20"
definition MAX_QUESTION_CHARS :: nat where "MAX_QUESTION_CHARS = 1000"
definition MAX_ACTION_CHARS :: nat where "MAX_ACTION_CHARS = 4000"
definition MAX_DELIVERABLE_CHARS :: nat where "MAX_DELIVERABLE_CHARS = 16000"
definition MAX_REPOSITORY_REFERENCES :: nat where "MAX_REPOSITORY_REFERENCES = 8"

section \<open>Bounded text and collections\<close>

text \<open>\<open>_bounded_text\<close>; its \<open>ValueError\<close> and \<open>TypeError\<close> both refuse the envelope, so failure is \<open>None\<close>.\<close>

definition clean_char :: "char \<Rightarrow> bool" where
  "clean_char c = (let n = code_of c in (32 \<le> n \<or> n = 10 \<or> n = 9) \<and> n \<noteq> 127)"

definition result_text :: "nat \<Rightarrow> bool \<Rightarrow> string \<Rightarrow> string option" where
  "result_text maximum single_line value =
     (if value = [] \<or> maximum < length value \<or> value \<noteq> strip value
         \<or> \<not> list_all clean_char value
         \<or> (single_line \<and> list_ex (\<lambda>c. code_of c = 10 \<or> code_of c = 13) value)
      then None else Some value)"

definition text_collection :: "string list \<Rightarrow> nat \<Rightarrow> json option" where
  "text_collection items maximum =
     (if MAX_COLLECTION_ITEMS < length items then None
      else map_option (\<lambda>ts. JList (map JStr ts)) (all_some (map (result_text maximum True) items)))"

text \<open>\<open>_record_text\<close>: the first alias that says something.\<close>

fun record_text :: "(string \<times> string) list \<Rightarrow> string list \<Rightarrow> string option" where
  "record_text kvs [] = None"
| "record_text kvs (a # aliases) =
     (case map_of kvs a of
        Some s \<Rightarrow> if strip s \<noteq> [] then Some s else record_text kvs aliases
      | None \<Rightarrow> record_text kvs aliases)"

text \<open>A record keeps its text under the primary key and the optional fields; both are listed in the order
  of their names, the order of the canonical object.\<close>

definition structured_item :: "nat \<Rightarrow> string \<Rightarrow> string list \<Rightarrow> string list \<Rightarrow> item \<Rightarrow> json option" where
  "structured_item maximum primary aliases optional it =
     (case it of
        PlainItem s \<Rightarrow> map_option JStr (result_text maximum False s)
      | FieldsItem kvs \<Rightarrow>
          (case record_text kvs aliases of
             None \<Rightarrow> None
           | Some text \<Rightarrow>
               let main = map_option (\<lambda>t. (primary, JStr t)) (result_text maximum False text);
                   extra = [map_option (\<lambda>t. (k, JStr t)) (result_text MAX_QUESTION_CHARS True s).
                             k \<leftarrow> optional, Some s \<leftarrow> [map_of kvs k]] in
               if list_ex (\<lambda>(k, _). k \<notin> set aliases \<and> k \<notin> set optional) kvs then None
               else map_option JObj (all_some (main # extra))))"

definition structured_collection :: "item list \<Rightarrow> nat \<Rightarrow> string \<Rightarrow> string list \<Rightarrow> string list \<Rightarrow> json option" where
  "structured_collection items maximum primary aliases optional =
     (if MAX_COLLECTION_ITEMS < length items then None
      else map_option JList (all_some (map (structured_item maximum primary aliases optional) items)))"

section \<open>Repository references\<close>

text \<open>The three patterns: \<open>https://github.com/OWNER/NAME\<close> and a path of the kind.\<close>

definition segment :: "string \<Rightarrow> bool" where
  "segment s \<longleftrightarrow> s \<noteq> [] \<and> list_all (\<lambda>c. c \<noteq> CHR ''/'' \<and> \<not> is_space c) s"

definition positive_number :: "string \<Rightarrow> bool" where
  "positive_number s \<longleftrightarrow> s \<noteq> [] \<and> hd s \<noteq> CHR ''0'' \<and> list_all dec_digit s"

definition hex_name :: "string \<Rightarrow> bool" where
  "hex_name s \<longleftrightarrow> 7 \<le> length s \<and> length s \<le> 64
     \<and> list_all (\<lambda>c. c \<in> set ''0123456789abcdefABCDEF'') s"

definition reference_ok :: "string \<Rightarrow> string \<Rightarrow> bool" where
  "reference_ok kind url \<longleftrightarrow> take 19 url = ''https://github.com/''
     \<and> (case split_on (CHR ''/'') (drop 19 url) of
          owner # name # path \<Rightarrow> segment owner \<and> segment name
            \<and> (if kind = ''pull-request'' then
                 (case path of [p, n] \<Rightarrow> p = ''pull'' \<and> positive_number n | _ \<Rightarrow> False)
               else if kind = ''commit'' then
                 (case path of [p, n] \<Rightarrow> p = ''commit'' \<and> hex_name n | _ \<Rightarrow> False)
               else if kind = ''check'' then
                 (case path of
                    [a, r, n] \<Rightarrow> a = ''actions'' \<and> r = ''runs'' \<and> positive_number n
                  | [a, r, n, j, m] \<Rightarrow> a = ''actions'' \<and> r = ''runs'' \<and> positive_number n
                      \<and> j = ''job'' \<and> positive_number m
                  | _ \<Rightarrow> False)
               else False)
        | _ \<Rightarrow> False)"

definition repository_references :: "(string \<times> string) list \<Rightarrow> json option" where
  "repository_references refs =
     (if MAX_REPOSITORY_REFERENCES < length refs \<or> \<not> list_all (\<lambda>(k, u). reference_ok k u) refs then None
      else Some (JList (map (\<lambda>(k, u). JObj [(''kind'', JStr k), (''url'', JStr u)])
                  (rev (remdups (rev refs))))))"

section \<open>Artifacts and paths\<close>

text \<open>\<open>_result_path\<close> of a given path.\<close>

definition result_path :: "string \<Rightarrow> bool" where
  "result_path s \<longleftrightarrow> length s \<le> 4096 \<and> take 1 s = ''/'' \<and> list_all (\<lambda>c. 32 \<le> code_of c) s"

definition lower_hex :: "nat \<Rightarrow> string \<Rightarrow> bool" where
  "lower_hex n s \<longleftrightarrow> length s = n \<and> list_all (\<lambda>c. c \<in> set ''0123456789abcdef'') s"

definition artifact_ok :: "artifact \<Rightarrow> bool" where
  "artifact_ok a \<longleftrightarrow>
     (let path = af_path a; parts = split_on (CHR ''/'') path in
      path \<noteq> [] \<and> CHR 0x5C \<notin> set path \<and> list_all (\<lambda>p. p \<notin> {'''', ''.'', ''..''}) parts
      \<and> last parts = af_name a \<and> 0 \<le> af_size a \<and> af_size a \<le> 2097152
      \<and> lower_hex 64 (af_digest a) \<and> result_path (af_run a))"

definition artifact_records :: "artifact list \<Rightarrow> json option" where
  "artifact_records as =
     (if 100 < length as \<or> \<not> list_all artifact_ok as \<or> \<not> distinct (map af_path as) then None
      else Some (JList (map (\<lambda>a. JObj [(''content_digest'', JStr (af_digest a)),
             (''name'', JStr (af_name a)), (''relative_path'', JStr (af_path a)),
             (''run_directory'', JStr (af_run a)), (''size_bytes'', JInt (af_size a))]) as)))"

section \<open>Validation\<close>

definition phase_name :: "workflow_phase \<Rightarrow> string" where
  "phase_name ph = (case ph of PhasePlan \<Rightarrow> ''plan'' | PhaseExecute \<Rightarrow> ''execute''
     | PhaseExternalAction \<Rightarrow> ''external_action'')"

definition outcome_name :: "execution_outcome \<Rightarrow> string" where
  "outcome_name out = (case out of OutAwaitingPlan \<Rightarrow> ''awaiting_plan''
     | OutAwaitingExternal \<Rightarrow> ''awaiting_external'' | OutCompleted \<Rightarrow> ''completed''
     | OutDeclined \<Rightarrow> ''declined'' | OutIneligible \<Rightarrow> ''ineligible'')"

text \<open>\<open>PHASE_OUTCOMES\<close>: what a worker may record in a phase.\<close>

definition phase_outcomes :: "workflow_phase \<Rightarrow> execution_outcome list" where
  "phase_outcomes ph = (case ph of
       PhasePlan \<Rightarrow> [OutAwaitingPlan, OutCompleted, OutIneligible]
     | PhaseExecute \<Rightarrow> [OutAwaitingExternal, OutCompleted, OutDeclined, OutIneligible]
     | PhaseExternalAction \<Rightarrow> [OutCompleted, OutDeclined, OutIneligible])"

definition result_target :: "workflow_phase \<Rightarrow> execution_outcome \<Rightarrow> workflow_status option" where
  "result_target ph out = (if out \<in> set (phase_outcomes ph) then Some WfAwaitingReview else None)"

definition is_result_id :: "string \<Rightarrow> bool" where
  "is_result_id s \<longleftrightarrow> 1 \<le> length s \<and> length s \<le> 128 \<and> is_alnum (hd s)
     \<and> list_all (\<lambda>c. is_alnum c \<or> c \<in> set ''._:-'') s"

text \<open>The normalised result: the envelope with its stored JSON columns and its digest.\<close>

record validated =
  vr_envelope :: envelope
  vr_questions :: string
  vr_external_actions :: string
  vr_deliverables :: string
  vr_references :: string
  vr_work_digest :: "string option"
  vr_digest :: string

definition identity_ok :: "envelope \<Rightarrow> bool" where
  "identity_ok e \<longleftrightarrow> is_result_id (en_result_id e) \<and> valid_identity (en_task_id e) (en_task_version e)
     \<and> 1 \<le> en_workflow_version e \<and> valid_secret (en_claim_token e)
     \<and> result_target (en_phase e) (en_outcome e) \<noteq> None"

definition work_digest_ok :: "string \<Rightarrow> string option option" where
  "work_digest_ok s = (if s = [] then Some None
     else map_option Some (result_text MAX_WORK_DIGEST_CHARS False s))"

definition optional_path :: "string option \<Rightarrow> json" where
  "optional_path p = (case p of None \<Rightarrow> JNull | Some s \<Rightarrow> JStr s)"

definition paths_ok :: "envelope \<Rightarrow> bool" where
  "paths_ok e \<longleftrightarrow> (case en_work_directory e of None \<Rightarrow> True | Some p \<Rightarrow> result_path p)
     \<and> (case en_kb_file e of None \<Rightarrow> True | Some p \<Rightarrow> result_path p)
     \<and> (en_work_directory e = None) = (en_kb_file e = None)
     \<and> (case en_instruction e of None \<Rightarrow> True | Some n \<Rightarrow> 1 \<le> n)"

text \<open>The document that is hashed: what the agent produced, keys in order.\<close>

definition result_document :: "envelope \<Rightarrow> json \<Rightarrow> json \<Rightarrow> json \<Rightarrow> json \<Rightarrow> json \<Rightarrow> json" where
  "result_document e questions actions deliverables refs afs =
     JObj [(''artifacts'', afs), (''deliverables'', deliverables),
       (''external_actions'', actions), (''outcome'', JStr (outcome_name (en_outcome e))),
       (''phase'', JStr (phase_name (en_phase e))), (''questions'', questions),
       (''repository_impact'', JBool (en_repository_impact e)), (''repository_references'', refs),
       (''result_id'', JStr (en_result_id e)), (''summary'', JStr (en_summary e)),
       (''task_id'', JInt (en_task_id e)), (''task_kb_file'', optional_path (en_kb_file e)),
       (''task_version'', JInt (en_task_version e)),
       (''task_work_directory'', optional_path (en_work_directory e)),
       (''work_markdown'', JStr (en_work_markdown e)),
       (''workflow_version'', JInt (en_workflow_version e))]"

definition validated_result :: "(string \<Rightarrow> string) \<Rightarrow> envelope \<Rightarrow> validated option" where
  "validated_result sha e =
     (case (text_collection (en_questions e) MAX_QUESTION_CHARS,
            structured_collection (en_external_actions e) MAX_ACTION_CHARS ''action''
              [''action'', ''title'', ''text''] [''channel'', ''requires'', ''target''],
            structured_collection (en_deliverables e) MAX_DELIVERABLE_CHARS ''body''
              [''body'', ''text''] [''label'', ''recipient'', ''subject''],
            repository_references (en_references e), artifact_records (en_artifacts e),
            work_digest_ok (en_work_digest e)) of
        (Some questions, Some actions, Some deliverables, Some refs, Some afs, Some blurb) \<Rightarrow>
          let raw = canonical_json (result_document e questions actions deliverables refs afs);
              digest = sha raw in
          if \<not> identity_ok e \<or> result_text RESULT_MAX_SUMMARY_CHARS False (en_summary e) = None
             \<or> result_text MAX_WORK_MARKDOWN_CHARS False (en_work_markdown e) = None
             \<or> \<not> paths_ok e \<or> MAX_RESULT_BYTES < length raw \<or> \<not> lower_hex 64 digest
          then None
          else Some \<lparr>vr_envelope = e, vr_questions = canonical_json questions,
                 vr_external_actions = canonical_json actions,
                 vr_deliverables = canonical_json deliverables,
                 vr_references = canonical_json refs, vr_work_digest = blurb, vr_digest = digest\<rparr>
      | _ \<Rightarrow> None)"

section \<open>Recording a result\<close>

text \<open>\<open>_granted_advance\<close>: the phase a standing grant opens, each gate by its own grant.\<close>

definition granted_advance :: "workflow_phase \<Rightarrow> execution_outcome \<Rightarrow> string option \<Rightarrow> string list
    \<Rightarrow> string list \<Rightarrow> workflow_phase option" where
  "granted_advance ph out kind execution action =
     (if ph = PhasePlan \<and> out = OutAwaitingPlan \<and> declared kind execution then Some PhaseExecute
      else if ph = PhaseExecute \<and> out = OutAwaitingExternal \<and> declared kind action
      then Some PhaseExternalAction
      else None)"

definition cycle_started_at :: "rowid \<Rightarrow> db \<Rightarrow> int" where
  "cycle_started_at i d =
     (case List.find (\<lambda>e. we_task_id e = i \<and> we_kind e = ''scheduled'') (rev (workflow_events d)) of
        None \<Rightarrow> 0 | Some e \<Rightarrow> we_workflow_version e)"

definition repeats_an_earlier_answer :: "validated \<Rightarrow> db \<Rightarrow> bool" where
  "repeats_an_earlier_answer v d \<longleftrightarrow>
     (let e = vr_envelope v; start = cycle_started_at (en_task_id e) d in
      list_ex (\<lambda>r. rs_task_id r = en_task_id e \<and> rs_task_version r = en_task_version e
        \<and> rs_phase r = en_phase e \<and> start \<le> rs_workflow_version r
        \<and> rs_outcome r = en_outcome e \<and> rs_summary r = en_summary e
        \<and> rs_work_markdown r = en_work_markdown e
        \<and> rs_external_actions r = vr_external_actions v \<and> rs_deliverables r = vr_deliverables v
        \<and> rs_references r = vr_references v
        \<and> rs_repository_impact r = en_repository_impact e) (results d))"

text \<open>The row, and the constraints of its table, those of its later columns included.\<close>

definition result_of :: "validated \<Rightarrow> workflow_row \<Rightarrow> time \<Rightarrow> result_row" where
  "result_of v w now =
     (let e = vr_envelope v in
      \<lparr>rs_result_id = en_result_id e, rs_task_id = en_task_id e,
       rs_workflow_version = en_workflow_version e, rs_task_version = en_task_version e,
       rs_phase = en_phase e, rs_outcome = en_outcome e, rs_digest = vr_digest v,
       rs_summary = en_summary e, rs_work_markdown = en_work_markdown e,
       rs_questions = vr_questions v, rs_external_actions = vr_external_actions v,
       rs_deliverables = vr_deliverables v, rs_references = vr_references v,
       rs_repository_impact = en_repository_impact e, rs_created_at = now,
       rs_profile_id = wf_profile_id w, rs_profile_revision = wf_profile_revision w,
       rs_work_directory = en_work_directory e, rs_kb_file = en_kb_file e,
       rs_work_digest = vr_work_digest v, rs_instruction = en_instruction e\<rparr>)"

definition JSON_COLUMN :: nat where "JSON_COLUMN = 65536"

definition path_column :: "string option \<Rightarrow> bool" where
  "path_column p \<longleftrightarrow> (case p of None \<Rightarrow> True
     | Some s \<Rightarrow> 1 \<le> length s \<and> length s \<le> 4096 \<and> take 1 s = ''/'')"

definition result_check :: "result_row \<Rightarrow> bool" where
  "result_check r \<longleftrightarrow> 1 \<le> length (rs_result_id r) \<and> length (rs_result_id r) \<le> 128
     \<and> 1 \<le> rs_workflow_version r \<and> 1 \<le> rs_task_version r \<and> length (rs_digest r) = 64
     \<and> length (rs_summary r) \<le> 1200 \<and> length (rs_work_markdown r) \<le> 131072
     \<and> length (rs_questions r) \<le> JSON_COLUMN \<and> length (rs_external_actions r) \<le> JSON_COLUMN
     \<and> length (rs_deliverables r) \<le> JSON_COLUMN \<and> length (rs_references r) \<le> JSON_COLUMN
     \<and> profile_columns (rs_profile_id r) (rs_profile_revision r)
     \<and> path_column (rs_work_directory r) \<and> path_column (rs_kb_file r)
     \<and> (case rs_work_digest r of None \<Rightarrow> True | Some s \<Rightarrow> 1 \<le> length s \<and> length s \<le> 800)"

definition artifact_rows :: "envelope \<Rightarrow> artifact_row list" where
  "artifact_rows e = map (\<lambda>(k, a). \<lparr>at_result_id = en_result_id e, at_ordinal = k, at_path = af_path a,
     at_name = af_name a, at_size = af_size a, at_digest = af_digest a,
     at_run_directory = af_run a\<rparr>) (List.enumerate 0 (en_artifacts e))"

definition artifact_check :: "artifact_row \<Rightarrow> bool" where
  "artifact_check a \<longleftrightarrow> 1 \<le> length (at_path a) \<and> length (at_path a) \<le> 1024
     \<and> 1 \<le> length (at_name a) \<and> length (at_name a) \<le> 255 \<and> 0 \<le> at_size a \<and> at_size a \<le> 2097152
     \<and> length (at_digest a) = 64 \<and> 1 \<le> length (at_run_directory a) \<and> length (at_run_directory a) \<le> 4096"

text \<open>
  The keys: a new result id, and an instruction that is a row of \<open>execution_reader_inputs\<close>, whose
  rows are numbered from 1 in their order.
\<close>

definition result_keys :: "result_row \<Rightarrow> db \<Rightarrow> bool" where
  "result_keys r d \<longleftrightarrow> \<not> list_ex (\<lambda>x. rs_result_id x = rs_result_id r) (results d)
     \<and> (case rs_instruction r of None \<Rightarrow> True
        | Some n \<Rightarrow> 1 \<le> n \<and> n \<le> int (length (reader_inputs (gates d))))"

definition insert_result :: "result_row \<Rightarrow> artifact_row list \<Rightarrow> db \<Rightarrow> exc + db" where
  "insert_result r as d =
     (if \<not> result_check r \<or> \<not> result_keys r d then Inl (IntegrityError ''task_execution_results'')
      else if \<not> list_all artifact_check as \<or> \<not> distinct (map at_path as) then Inl (IntegrityError ''execution_result_artifacts'')
      else Inr (d\<lparr>results := results d @ [r], artifacts := artifacts d @ as\<rparr>))"

definition settle_run :: "workflow_status \<Rightarrow> workflow_phase \<Rightarrow> int \<Rightarrow> string \<Rightarrow> time \<Rightarrow> workflow_row \<Rightarrow> workflow_row" where
  "settle_run st ph version result now x =
     (clear_failure (clear_claim x))\<lparr>wf_status := st, wf_phase := ph, wf_version := version,
        wf_last_result_id := Some result, wf_updated_at := now,
        wf_completed_at := (if st = WfCompleted then Some now else None)\<rparr>"

text \<open>The guards of a result: the claim, the task at the envelope's version, the phase.\<close>

definition record_guard :: "(string \<Rightarrow> string) \<Rightarrow> envelope \<Rightarrow> time \<Rightarrow> db \<Rightarrow> workflow_refusal option" where
  "record_guard sha e now d =
     (let row = workflow_with_task (en_task_id e) d in
      case running_guard (map_option fst row) (en_workflow_version e) (sha (en_claim_token e)) now of
        Some ref \<Rightarrow> Some ref
      | None \<Rightarrow>
          (case task_guard (map_option snd row) (en_task_version e) of
             Some ref \<Rightarrow> Some ref
           | None \<Rightarrow> if map_option (wf_phase \<circ> fst) row \<noteq> Some (en_phase e)
                     then Some WrInvalidState else None))"

text \<open>A fresh result of a guarded claim.\<close>

definition record_fresh :: "exec_config \<Rightarrow> validated \<Rightarrow> workflow_row \<Rightarrow> time \<Rightarrow> db
    \<Rightarrow> exc + (workflow_result \<times> db)" where
  "record_fresh cfg v w now d =
     (let e = vr_envelope v; i = en_task_id e in
      case result_target (en_phase e) (en_outcome e) of
        None \<Rightarrow> Inr (wf_refused_row i (Some w) WrInvalidState, d)
      | Some asked \<Rightarrow>
          let advance = granted_advance (en_phase e) (en_outcome e) (origin_kind i d)
                (ec_execution_grants cfg) (ec_action_grants cfg);
              phase = (case advance of None \<Rightarrow> en_phase e | Some ph \<Rightarrow> ph);
              target = (if advance = None then asked else WfQueued);
              version = en_workflow_version e + 1 in
          rbind (insert_result (result_of v w now) (artifact_rows e) d) (\<lambda>d1.
          rbind (update_workflows
              (\<lambda>x. at_version i (en_workflow_version e) x \<and> wf_status x = WfRunning)
              (settle_run target phase version (en_result_id e) now) d1) (\<lambda>(n, d2).
          rbind (wf_event i ''result_recorded'' version (en_task_version e) (en_phase e) target now d2) (\<lambda>d3.
          rbind (if advance = None then Inr d3
                 else wf_event i ''phase_granted'' version (en_task_version e) phase target now d3) (\<lambda>d4.
            Inr (wf_applied w version target phase, d4))))))"

text \<open>
  The transaction.  A repeated answer is refused, but its event is committed; so the database that
  goes with the reply is part of the outcome and no frame rolls it back.
\<close>

definition record_tx :: "exec_config \<Rightarrow> (string \<Rightarrow> string) \<Rightarrow> validated \<Rightarrow> time \<Rightarrow> db
    \<Rightarrow> exc + (workflow_result \<times> db)" where
  "record_tx cfg sha v now d =
     (let e = vr_envelope v; i = en_task_id e in
      case List.find (\<lambda>r. rs_result_id r = en_result_id e) (results d) of
        Some r \<Rightarrow>
          if rs_task_id r = i \<and> rs_digest r = vr_digest v
          then (case workflow_of i d of
                  None \<Rightarrow> Inr (wf_refused i WrInvalidState, d)
                | Some w \<Rightarrow> Inr ((wf_applied w (wf_version w) (wf_status w) (wf_phase w))
                    \<lparr>xr_disposition := WdUnchanged\<rparr>, d))
          else Inr (wf_refused i WrResultConflict, d)
      | None \<Rightarrow>
          let row = workflow_with_task i d in
          case record_guard sha e now d of
            Some ref \<Rightarrow> Inr (wf_refused_row i (map_option fst row) ref, d)
          | None \<Rightarrow>
              let w = fst (the row) in
              if repeats_an_earlier_answer v d
              then rbind (wf_event i ''result_unchanged'' (wf_version w) (wf_task_version w) (wf_phase w)
                       (wf_status w) now d)
                     (\<lambda>d1. Inr (wf_refused_row i (Some w) WrResultUnchanged, d1))
              else record_fresh cfg v w now d)"

definition record_result :: "exec_config \<Rightarrow> (string \<Rightarrow> string) \<Rightarrow> envelope \<Rightarrow> time \<Rightarrow> db
    \<Rightarrow> (exc + workflow_result) \<times> db" where
  "record_result cfg sha e now d =
     (case validated_result sha e of
        None \<Rightarrow> (Inr (wf_refused (en_task_id e) WrInvalidArgument), d)
      | Some v \<Rightarrow> run_tx (record_tx cfg sha v now) d)"

end
