(* ===== verification/ExecClaim.thy ===== *)
theory ExecClaim
  imports Results
begin

text \<open>
  How a worker gets its work: the scheduling conditions of \<open>task_scheduling.py\<close> that hold a task
  back, and \<open>claim_next\<close> with the cap on running slots, the queue order, the bounded scan and the
  deferral of workflows whose profile cannot be resolved.  The model is the claim of a deployment
  that names no source for research before planning and has \<open>deadline_ordering\<close> switched off.
\<close>

section \<open>Scheduling conditions\<close>

definition set_condition_state :: "condition_row \<Rightarrow> condition_state \<Rightarrow> time \<Rightarrow> db \<Rightarrow> db" where
  "set_condition_state c st now d =
     d\<lparr>conditions := update_where (\<lambda>x. sc_id x = sc_id c)
         (\<lambda>x. x\<lparr>sc_state := st, sc_updated_at := now\<rparr>) (conditions d),
       condition_events := condition_events d @ [\<lparr>se_condition_id = sc_id c,
         se_task_id = sc_task_id c, se_state = st, se_occurred_at = now\<rparr>]\<rparr>"

text \<open>The state a row gets, and whether it lets the task run.\<close>

definition condition_verdict :: "int \<Rightarrow> time \<Rightarrow> db \<Rightarrow> condition_row \<Rightarrow> condition_state option \<times> bool" where
  "condition_verdict tv now d c =
     (if sc_task_version c \<noteq> tv then (Some CondNeedsReview, False)
      else case sc_kind c of
             NotBefore t \<Rightarrow> if t \<le> now then (Some CondSatisfied, True) else (None, False)
           | AfterTaskCompleted dep \<Rightarrow>
               (case map_option tk_status (task_of dep d) of
                  Some TaskDone \<Rightarrow> (Some CondSatisfied, True)
                | Some TaskOpen \<Rightarrow> (None, False)
                | _ \<Rightarrow> (Some CondNeedsReview, False)))"

fun evaluate_conditions :: "int \<Rightarrow> time \<Rightarrow> condition_row list \<Rightarrow> db \<Rightarrow> bool \<times> db" where
  "evaluate_conditions tv now [] d = (True, d)"
| "evaluate_conditions tv now (c # cs) d =
     (let (st, go) = condition_verdict tv now d c;
          d1 = (case st of
                  Some s \<Rightarrow> if s = sc_state c then d else set_condition_state c s now d
                | None \<Rightarrow> d);
          (rest, d2) = evaluate_conditions tv now cs d1 in
      (go \<and> rest, d2))"

definition evaluate_task_conditions :: "rowid \<Rightarrow> int \<Rightarrow> time \<Rightarrow> db \<Rightarrow> bool \<times> db" where
  "evaluate_task_conditions i tv now d =
     evaluate_conditions tv now (sort_key sc_id (filter (\<lambda>c. sc_task_id c = i
       \<and> sc_state c \<in> {CondActive, CondNeedsReview}) (conditions d))) d"

section \<open>The queue\<close>

definition MAX_CLAIM_SCAN :: nat where "MAX_CLAIM_SCAN = 50"

definition claim_source_tier :: "string option \<Rightarrow> nat" where
  "claim_source_tier kind = (if kind = Some ''review_request'' then 0
     else if kind = Some ''issue'' then 2 else 1)"

definition claim_queue_priority :: "workflow_priority \<Rightarrow> nat" where
  "claim_queue_priority p = (case p of PrioRaised \<Rightarrow> 0 | PrioNormal \<Rightarrow> 1 | PrioLowered \<Rightarrow> 2)"

definition runnable :: "time \<Rightarrow> workflow_row \<Rightarrow> bool" where
  "runnable now w \<longleftrightarrow>
     (wf_status w = WfQueued \<and> (case wf_next_attempt_at w of None \<Rightarrow> True | Some a \<Rightarrow> a \<le> now))
     \<or> (wf_status w = WfParked \<and> (case wf_next_attempt_at w of None \<Rightarrow> False | Some a \<Rightarrow> a \<le> now))"

text \<open>The task of the workflow is open at the version the workflow was made for.\<close>

definition current_task :: "db \<Rightarrow> workflow_row \<Rightarrow> bool" where
  "current_task d w \<longleftrightarrow> (case task_of (wf_task_id w) d of
     None \<Rightarrow> False | Some t \<Rightarrow> tk_status t = TaskOpen \<and> tk_version t = wf_task_version w)"

definition queue :: "workflow_phase list \<Rightarrow> time \<Rightarrow> db \<Rightarrow> workflow_row list" where
  "queue phases now d = take MAX_CLAIM_SCAN
     (sort_key (\<lambda>w. claim_source_tier (origin_kind (wf_task_id w) d))
     (sort_key (\<lambda>w. claim_queue_priority (wf_priority w))
     (sort_key (\<lambda>w. if wf_failure_count w = 0 then 0 else 1 :: nat)
     (sort_key wf_updated_at (sort_key wf_task_id
       (filter (\<lambda>w. runnable now w \<and> wf_phase w \<in> set phases \<and> current_task d w) (workflows d)))))))"

definition running_slots :: "db \<Rightarrow> nat" where
  "running_slots d = length (filter (\<lambda>w. wf_status w = WfRunning \<and> current_task d w) (workflows d))"

section \<open>The scan\<close>

definition resolve_profile :: "exec_config \<Rightarrow> workflow_row \<Rightarrow> profile option" where
  "resolve_profile cfg w =
     (case registry_resolve (ec_registry cfg) (wf_profile_id w) (wf_profile_revision w) of
        None \<Rightarrow> None | Some p \<Rightarrow> if wf_phase w \<in> set (pr_phases p) then Some p else None)"

fun scan :: "exec_config \<Rightarrow> time \<Rightarrow> workflow_row list \<Rightarrow> db
    \<Rightarrow> exc + ((workflow_row \<times> profile) option \<times> db)" where
  "scan cfg now [] d = Inr (None, d)"
| "scan cfg now (w # ws) d =
     (let (eligible, d1) = evaluate_task_conditions (wf_task_id w) (wf_task_version w) now d in
      if \<not> eligible then scan cfg now ws d1
      else case resolve_profile cfg w of
             Some p \<Rightarrow> Inr (Some (w, p), d1)
           | None \<Rightarrow>
               rbind (defer_failure (ec_max_attempts cfg) w ''startup_failed'' now None None None d1)
                 (\<lambda>(r, d2). scan cfg now ws d2))"

section \<open>The claim\<close>

record execution_claim =
  ex_task_id :: rowid
  ex_task_version :: int
  ex_workflow_version :: int
  ex_phase :: workflow_phase
  ex_token :: string
  ex_expires_at :: time
  ex_text :: string
  ex_owner :: "string option"
  ex_due :: "string option"
  ex_profile_id :: string
  ex_profile_revision :: string
  ex_lease_seconds :: int

definition take_claim :: "string \<Rightarrow> time \<Rightarrow> time \<Rightarrow> workflow_row \<Rightarrow> workflow_row" where
  "take_claim digest now expires x =
     x\<lparr>wf_status := WfRunning, wf_version := wf_version x + 1, wf_claim_token_digest := Some digest,
       wf_claimed_at := Some now, wf_claim_heartbeat_at := Some now, wf_claim_expires_at := Some expires,
       wf_updated_at := now, wf_current_run_id := None,
       wf_failure_count := (if wf_status x = WfParked then 0 else wf_failure_count x),
       wf_parked_at := None, wf_next_attempt_at := None, wf_priority := PrioNormal,
       wf_priority_source := None\<rparr>"

definition claim_of :: "workflow_row \<Rightarrow> task_row \<Rightarrow> profile \<Rightarrow> string \<Rightarrow> time \<Rightarrow> execution_claim" where
  "claim_of w t p token expires =
     \<lparr>ex_task_id = wf_task_id w, ex_task_version = wf_task_version w,
      ex_workflow_version = wf_version w + 1, ex_phase = wf_phase w, ex_token = token,
      ex_expires_at = expires, ex_text = tk_text t, ex_owner = ow_display (tk_owner t),
      ex_due = tk_due t, ex_profile_id = pr_id p, ex_profile_revision = pr_revision p,
      ex_lease_seconds = pr_lease p\<rparr>"

definition grant_claim :: "(string \<Rightarrow> string) \<Rightarrow> string \<Rightarrow> time \<Rightarrow> workflow_row \<Rightarrow> task_row \<Rightarrow> profile \<Rightarrow> db
    \<Rightarrow> db \<Rightarrow> exc + (execution_claim option \<times> db)" where
  "grant_claim sha token now w t p d0 d =
     (let expires = now + pr_lease p in
      rbind (update_workflows (\<lambda>x. at_version (wf_task_id w) (wf_version w) x
            \<and> wf_status x \<in> {WfQueued, WfParked}) (take_claim (sha token) now expires) d) (\<lambda>(n, d1).
        if n \<noteq> 1 then Inr (None, d0)
        else rbind (wf_event (wf_task_id w) ''claimed'' (wf_version w + 1) (wf_task_version w) (wf_phase w)
               WfRunning now d1)
             (\<lambda>d2. Inr (Some (claim_of w t p token expires), d2))))"

definition claim_tx :: "exec_config \<Rightarrow> (string \<Rightarrow> string) \<Rightarrow> workflow_phase list \<Rightarrow> string \<Rightarrow> time \<Rightarrow> db
    \<Rightarrow> exc + (execution_claim option \<times> db)" where
  "claim_tx cfg sha phases token now d =
     rbind (cancel_stale_workflows now d) (\<lambda>d1.
     rbind (recover_expired (ec_max_attempts cfg) now d1) (\<lambda>d2.
       if (case ec_slot_cap cfg of None \<Rightarrow> False | Some cap \<Rightarrow> cap \<le> int (running_slots d2))
       then Inr (None, d2)
       else
         rbind (scan cfg now (queue phases now d2) d2) (\<lambda>(found, d3).
           case found of
             None \<Rightarrow> Inr (None, d3)
           | Some (w, p) \<Rightarrow>
               (case task_of (wf_task_id w) d2 of
                  None \<Rightarrow> Inr (None, d3)
                | Some t \<Rightarrow> grant_claim sha token now w t p d d3))))"

text \<open>\<open>_validated_phase_allowlist\<close>: \<open>None\<close> is every phase.\<close>

definition phase_allowlist :: "workflow_phase list option \<Rightarrow> exc + workflow_phase list" where
  "phase_allowlist values =
     (case values of
        None \<Rightarrow> Inr all_phases
      | Some ps \<Rightarrow> if ps = [] \<or> \<not> distinct ps
                   then Inl (ValueError ''execution phase allowlist is invalid'') else Inr ps)"

definition claim_next_workflow :: "exec_config \<Rightarrow> (string \<Rightarrow> string) \<Rightarrow> workflow_phase list option \<Rightarrow> string
    \<Rightarrow> time \<Rightarrow> db \<Rightarrow> (exc + execution_claim option) \<times> db" where
  "claim_next_workflow cfg sha allowed token now d =
     (case phase_allowlist allowed of
        Inl e \<Rightarrow> (Inl e, d)
      | Inr phases \<Rightarrow>
          if \<not> valid_secret token then (Inl (TaskLedgerError ''execution claim capability is invalid''), d)
          else run_tx (claim_tx cfg sha phases token now) d)"

end
