(* ===== verification/ExecInv.thy ===== *)
theory ExecInv
  imports ExecClaim
begin

text \<open>
  The invariant of the execution workflows and what one write does to it.  The log of
  \<open>task_execution_events\<close> explains every row: the last event of a task has the version and the
  status of its workflow, and the last event that opened a phase has its phase.
\<close>

section \<open>The invariant\<close>

definition last_event :: "rowid \<Rightarrow> workflow_event list \<Rightarrow> workflow_event option" where
  "last_event i es = List.find (\<lambda>e. we_task_id e = i) (rev es)"

definition PHASE_OPENERS :: "string list" where
  "PHASE_OPENERS = [''scheduled'', ''phase_approved'', ''phase_granted'', ''revision_requested'']"

definition last_opener :: "rowid \<Rightarrow> workflow_event list \<Rightarrow> workflow_event option" where
  "last_opener i es = List.find (\<lambda>e. we_task_id e = i \<and> we_kind e \<in> set PHASE_OPENERS) (rev es)"

text \<open>An external action is opened by the reader or by a standing grant, never by the schedule.\<close>

definition opens :: "workflow_event \<Rightarrow> workflow_phase \<Rightarrow> bool" where
  "opens e ph \<longleftrightarrow> we_phase e = ph
     \<and> (ph = PhaseExternalAction \<longrightarrow> we_kind e \<in> {''phase_approved'', ''phase_granted''})"

definition explained :: "workflow_event list \<Rightarrow> workflow_row \<Rightarrow> bool" where
  "explained es w \<longleftrightarrow>
     (case last_event (wf_task_id w) es of
        None \<Rightarrow> False | Some e \<Rightarrow> we_workflow_version e = wf_version w \<and> we_status e = wf_status w)
     \<and> (case last_opener (wf_task_id w) es of None \<Rightarrow> False | Some e \<Rightarrow> opens e (wf_phase w))"

text \<open>What waits to be run or runs has attempts left.\<close>

definition attempts_left :: "nat \<Rightarrow> workflow_row \<Rightarrow> bool" where
  "attempts_left M w \<longleftrightarrow> (wf_status w \<in> {WfQueued, WfRunning} \<longrightarrow> wf_failure_count w < int M)"

definition workflow_ok :: "nat \<Rightarrow> workflow_event list \<Rightarrow> workflow_row \<Rightarrow> bool" where
  "workflow_ok M es w \<longleftrightarrow> wf_check w \<and> explained es w \<and> attempts_left M w"

definition exec_inv :: "nat \<Rightarrow> db \<Rightarrow> bool" where
  "exec_inv M d \<longleftrightarrow> unique_key wf_task_id (workflows d)
     \<and> (\<forall>i w. workflow_of i d = Some w \<longrightarrow> workflow_ok M (workflow_events d) w)"

lemma exec_invD:
  assumes "exec_inv M d"
  shows "unique_key wf_task_id (workflows d)"
    and "workflow_of i d = Some w \<Longrightarrow> workflow_ok M (workflow_events d) w"
    and "workflow_of i d = Some w \<Longrightarrow> wf_check w"
  using assms by (auto simp: exec_inv_def workflow_ok_def)

text \<open>One workflow moved, the others and the tasks' versions and states stayed.\<close>

definition same_tasks :: "db \<Rightarrow> db \<Rightarrow> bool" where
  "same_tasks d d' \<longleftrightarrow> (\<forall>k. map_option (\<lambda>t. (tk_status t, tk_version t)) (task_of k d')
     = map_option (\<lambda>t. (tk_status t, tk_version t)) (task_of k d))"

definition moves :: "nat \<Rightarrow> rowid \<Rightarrow> db \<Rightarrow> db \<Rightarrow> workflow_row \<Rightarrow> workflow_row \<Rightarrow> bool" where
  "moves M i d d' w w' \<longleftrightarrow> workflow_of i d = Some w \<and> workflow_of i d' = Some w' \<and> exec_inv M d'
     \<and> (\<forall>k. k \<noteq> i \<longrightarrow> workflow_of k d' = workflow_of k d) \<and> same_tasks d d'"

text \<open>Nothing but the workflows and their log was written.\<close>

definition only_workflows :: "db \<Rightarrow> db \<Rightarrow> bool" where
  "only_workflows d d' \<longleftrightarrow> (\<exists>ws es. d' = d\<lparr>workflows := ws, workflow_events := es\<rparr>)"

lemma only_workflows_frame:
  assumes "only_workflows d d'"
  shows "tasks d' = tasks d" "results d' = results d" "bindings d' = bindings d" "inbox d' = inbox d"
    "lifecycles d' = lifecycles d" "conditions d' = conditions d" "failure_digests d' = failure_digests d"
  using assms by (auto simp: only_workflows_def)

lemma only_workflows_refl [simp]: "only_workflows d d"
  unfolding only_workflows_def by (rule exI [of _ "workflows d"], rule exI [of _ "workflow_events d"]) simp

lemma only_workflows_trans:
  assumes "only_workflows a b" and "only_workflows b c"
  shows "only_workflows a c"
proof -
  obtain ws es where "c = b\<lparr>workflows := ws, workflow_events := es\<rparr>" using assms(2) by (auto simp: only_workflows_def)
  moreover obtain ws0 es0 where "b = a\<lparr>workflows := ws0, workflow_events := es0\<rparr>"
    using assms(1) by (auto simp: only_workflows_def)
  ultimately have "c = a\<lparr>workflows := ws, workflow_events := es\<rparr>" by simp
  then show ?thesis unfolding only_workflows_def by blast
qed

section \<open>One write\<close>

lemma update_workflows_row:
  assumes "unique_key wf_task_id (workflows d)" and "workflow_of i d = Some w"
    and "\<And>x. hit x \<Longrightarrow> wf_task_id x = i" and "hit w"
  shows "update_workflows hit f d =
    (if wf_check (f w) then Inr (1, d\<lparr>workflows := update_where hit f (workflows d)\<rparr>)
     else Inl (IntegrityError ''task_execution_workflows''))"
proof -
  have w: "w \<in> set (workflows d)" "wf_task_id w = i" using assms(2) by (auto dest: find_SomeD)
  have one: "x = w" if x: "x \<in> set (workflows d)" "hit x" for x
  proof -
    have "workflow_of i d = Some x"
      unfolding row_of_unique [OF assms(1)] using x(1) assms(3) [OF x(2)] by blast
    then show ?thesis using assms(2) by simp
  qed
  have "rowcount hit (workflows d) = rowcount (\<lambda>x. wf_task_id x = i \<and> hit x) (workflows d)"
    unfolding rowcount_def using assms(3) by (metis (no_types, lifting) filter_cong)
  also have "\<dots> = 1" unfolding rowcount_unique [OF assms(1)] assms(2) by (simp add: assms(4))
  finally have n: "rowcount hit (workflows d) = 1" .
  have "list_all (\<lambda>x. wf_check (f x)) (filter hit (workflows d)) = wf_check (f w)"
    unfolding list_all_iff set_filter using one w(1) assms(4) by blast
  then show ?thesis using n by (simp add: update_workflows_def)
qed

lemma workflow_of_update:
  assumes "\<And>x. hit x \<Longrightarrow> wf_task_id x = i" and "\<And>x. wf_task_id (f x) = wf_task_id x"
    and "workflow_of i d = Some w" and "hit w"
  shows "workflow_of k (d\<lparr>workflows := update_where hit f (workflows d)\<rparr>)
    = (if k = i then Some (f w) else workflow_of k d)"
proof -
  have "map_option (\<lambda>r. if hit r then f r else r) (workflow_of k d) = workflow_of k d" if "k \<noteq> i"
    using that assms(1) by (cases "workflow_of k d") (auto dest: row_of_key)
  then show ?thesis using assms(2-4) by (simp add: find_update_where)
qed

lemma last_event_snoc: "last_event k (es @ [e]) = (if we_task_id e = k then Some e else last_event k es)"
  by (simp add: last_event_def)

lemma last_opener_snoc: "last_opener k (es @ [e])
    = (if we_task_id e = k \<and> we_kind e \<in> set PHASE_OPENERS then Some e else last_opener k es)"
  by (simp add: last_opener_def)

lemma explained_other:
  "(\<And>e. e \<in> set new \<Longrightarrow> we_task_id e \<noteq> wf_task_id w) \<Longrightarrow> explained (es @ new) w = explained es w"
proof (induction new arbitrary: es)
  case (Cons e new)
  have "explained ((es @ [e]) @ new) w = explained (es @ [e]) w" by (rule Cons.IH) (use Cons.prems in simp)
  also have "\<dots> = explained es w"
    using Cons.prems [of e] by (simp add: explained_def last_event_snoc last_opener_snoc)
  finally show ?case by simp
qed simp

text \<open>What the event of a write has to say of the row it leaves.\<close>

definition tells :: "workflow_event \<Rightarrow> workflow_row \<Rightarrow> workflow_row \<Rightarrow> bool" where
  "tells e w w' \<longleftrightarrow> we_task_id e = wf_task_id w' \<and> we_workflow_version e = wf_version w'
     \<and> we_status e = wf_status w'
     \<and> (if we_kind e \<in> set PHASE_OPENERS then opens e (wf_phase w') else wf_phase w' = wf_phase w)"

lemma tells_explained:
  assumes "explained es w" and "tells e w w'" and "wf_task_id w' = wf_task_id w"
  shows "explained (es @ [e]) w'"
  using assms by (auto simp: explained_def tells_def last_event_snoc last_opener_snoc split: option.splits if_splits)

text \<open>A write and its events, evaluated.\<close>

lemma write_moves_all:
  assumes inv: "exec_inv M d" and w: "workflow_of i d = Some w"
    and hit: "\<And>x. hit x \<Longrightarrow> wf_task_id x = i" "hit w"
    and f: "\<And>x. wf_task_id (f x) = wf_task_id x" "wf_check (f w)" "attempts_left M (f w)"
    and e: "\<And>e. e \<in> set es \<Longrightarrow> we_task_id e = i" "explained (workflow_events d @ es) (f w)"
    and d': "workflows d' = update_where hit f (workflows d)" "workflow_events d' = workflow_events d @ es"
      "tasks d' = tasks d"
  shows "moves M i d d' w (f w)"
proof -
  have "workflow_of k d' = workflow_of k (d\<lparr>workflows := update_where hit f (workflows d)\<rparr>)" for k
    by (simp add: d'(1))
  then have of: "workflow_of k d' = (if k = i then Some (f w) else workflow_of k d)" for k
    using workflow_of_update [where hit = hit and f = f and k = k, OF hit(1) f(1) w hit(2)] by simp
  have "workflow_ok M (workflow_events d') x" if x: "workflow_of k d' = Some x" for k x
  proof (cases "k = i")
    case True
    then have "x = f w" using x of by simp
    then show ?thesis using f(2,3) e(2) by (simp add: workflow_ok_def d')
  next
    case False
    then have x': "workflow_of k d = Some x" using x of by simp
    have "we_task_id e \<noteq> wf_task_id x" if "e \<in> set es" for e
      using e(1) [OF that] row_of_key [OF x'] False by simp
    then have "explained (workflow_events d @ es) x = explained (workflow_events d) x"
      by (rule explained_other)
    then show ?thesis using exec_invD(2) [OF inv x'] by (simp add: workflow_ok_def d')
  qed
  moreover have "unique_key wf_task_id (workflows d')"
    using exec_invD(1) [OF inv] by (simp add: d' unique_key_update [where f = f and key = wf_task_id, OF f(1)])
  ultimately show ?thesis using w of by (auto simp: moves_def exec_inv_def same_tasks_def d')
qed

lemma write_moves:
  assumes inv: "exec_inv M d" and w: "workflow_of i d = Some w"
    and hit: "\<And>x. hit x \<Longrightarrow> wf_task_id x = i" "hit w"
    and f: "\<And>x. wf_task_id (f x) = wf_task_id x" "wf_check (f w)" "attempts_left M (f w)"
    and e: "tells e w (f w)"
    and d': "d' = d\<lparr>workflows := update_where hit f (workflows d), workflow_events := workflow_events d @ [e]\<rparr>"
  shows "moves M i d d' w (f w)"
proof -
  have ex: "explained (workflow_events d @ [e]) (f w)"
    using tells_explained [OF _ e f(1)] exec_invD(2) [OF inv w] by (simp add: workflow_ok_def)
  have eid: "we_task_id e = i" using e f(1) row_of_key [OF w] by (simp add: tells_def)
  show ?thesis
    by (rule write_moves_all [where hit = hit and f = f and es = "[e]", OF inv w _ hit(2) _ f(2,3) _ ex])
      (rule hit(1), assumption, rule f(1), simp_all add: eid d')
qed

text \<open>An \<open>UPDATE\<close> that passes its constraint, followed by its event, in one step.\<close>

lemma write_eval:
  assumes inv: "exec_inv M d" and w: "workflow_of i d = Some w"
    and hit: "\<And>x. hit x \<Longrightarrow> wf_task_id x = i" "hit w"
    and f: "\<And>x. wf_task_id (f x) = wf_task_id x" "wf_check (f w)"
    and e: "kind \<in> set EXECUTION_EVENT_KINDS" "1 \<le> wv" "1 \<le> tv"
  shows "update_workflows hit f d = Inr (1, d\<lparr>workflows := update_where hit f (workflows d)\<rparr>)"
    and "wf_event i kind wv tv ph st now (d\<lparr>workflows := update_where hit f (workflows d)\<rparr>) =
      Inr (d\<lparr>workflows := update_where hit f (workflows d), workflow_events := workflow_events d @ [
          \<lparr>we_task_id = i, we_kind = kind, we_workflow_version = wv, we_task_version = tv,
           we_phase = ph, we_status = st, we_occurred_at = now, we_profile_id = wf_profile_id (f w),
           we_profile_revision = wf_profile_revision (f w)\<rparr>]\<rparr>)"
  using update_workflows_row [where hit = hit and f = f, OF exec_invD(1) [OF inv] w hit] f(2)
    wf_event_Inr [of i "d\<lparr>workflows := update_where hit f (workflows d)\<rparr>" "f w", OF _ f(2) e]
    workflow_of_update [where hit = hit and f = f and k = i, OF hit(1) f(1) w hit(2)] by simp_all

text \<open>The two together: the whole write of an operation, with its move.\<close>

lemma write_ok:
  fixes wv tv :: int
  assumes inv: "exec_inv M d" and w: "workflow_of i d = Some w"
    and hit: "\<And>x. hit x \<Longrightarrow> wf_task_id x = i" "hit w"
    and f: "\<And>x. wf_task_id (f x) = wf_task_id x" "wf_check (f w)" "attempts_left M (f w)"
    and e: "wv = wf_version (f w)" "st = wf_status (f w)" "kind \<in> set EXECUTION_EVENT_KINDS" "1 \<le> tv"
      "if kind \<in> set PHASE_OPENERS then ph = wf_phase (f w)
         \<and> (ph = PhaseExternalAction \<longrightarrow> kind \<in> {''phase_approved'', ''phase_granted''})
       else wf_phase (f w) = wf_phase w"
  obtains d1 d2 where "update_workflows hit f d = Inr (1, d1)"
    and "wf_event i kind wv tv ph st now d1 = Inr d2" and "moves M i d d2 w (f w)"
    and "only_workflows d d2" and "workflow_of i d1 = Some (f w)"
proof -
  let ?d1 = "d\<lparr>workflows := update_where hit f (workflows d)\<rparr>"
  let ?e = "\<lparr>we_task_id = i, we_kind = kind, we_workflow_version = wv, we_task_version = tv,
           we_phase = ph, we_status = st, we_occurred_at = now, we_profile_id = wf_profile_id (f w),
           we_profile_revision = wf_profile_revision (f w)\<rparr>"
  have v: "1 \<le> wv" using f(2) e(1) by (simp add: wf_check_def)
  note ev = write_eval [where hit = hit and f = f and kind = kind, OF inv w hit f(1,2) e(3) v e(4)]
  have te: "tells ?e w (f w)" using e row_of_key [OF w] f(1) by (auto simp: tells_def opens_def)
  have "moves M i d (d\<lparr>workflows := update_where hit f (workflows d),
      workflow_events := workflow_events d @ [?e]\<rparr>) w (f w)"
    by (rule write_moves [where hit = hit and f = f and e = ?e, OF inv w _ hit(2) _ f(2,3) te refl])
      (rule hit(1), assumption, rule f(1))
  moreover have "only_workflows d (d\<lparr>workflows := update_where hit f (workflows d),
      workflow_events := workflow_events d @ [?e]\<rparr>)" unfolding only_workflows_def by blast
  ultimately show thesis using that [OF ev(1) ev(2)]
      workflow_of_update [where hit = hit and f = f and k = i, OF hit(1) f(1) w hit(2)] by simp
qed

end
