(* ===== verification/ExecOps.thy ===== *)
theory ExecOps
  imports ExecInv
begin

text \<open>
  The life of a workflow as an abstract machine, and each operation on one workflow as one step of
  it: an operation that does not apply leaves the database as it was, one that applies moves its
  workflow by one version and one step, keeps the invariant and touches no other workflow.
\<close>

section \<open>The machine\<close>

type_synonym workflow_view = "workflow_status \<times> workflow_phase \<times> int"

definition view_of :: "workflow_row \<Rightarrow> workflow_view" where
  "view_of w = (wf_status w, wf_phase w, wf_version w)"

text \<open>
  A phase is left in four ways: the reader approves the next one, a grant opens it, the reader asks
  for a revision, the task is planned anew.
\<close>

inductive workflow_step :: "workflow_view \<Rightarrow> workflow_view \<Rightarrow> bool" where
  start: "st \<in> {WfAwaitingStart, WfSnoozed, WfParked} \<Longrightarrow> workflow_step (st, ph, v) (WfQueued, ph, v + 1)"
| snooze: "st \<notin> {WfQueued, WfRunning, WfCancelled} \<Longrightarrow> workflow_step (st, ph, v) (WfSnoozed, ph, v + 1)"
| cancel: "st \<notin> {WfCompleted, WfCancelled} \<Longrightarrow> workflow_step (st, ph, v) (WfCancelled, ph, v + 1)"
| adjust: "st \<notin> {WfRunning, WfCompleted, WfCancelled} \<Longrightarrow> workflow_step (st, ph, v) (st, ph, v + 1)"
| approve: "st \<in> {WfAwaitingReview, WfSnoozed} \<Longrightarrow> ph' \<in> {PhaseExecute, PhaseExternalAction} \<Longrightarrow>
    workflow_step (st, ph, v) (WfQueued, ph', v + 1)"
| revise: "st \<in> {WfAwaitingReview, WfSnoozed} \<Longrightarrow> workflow_step (st, ph, v) (WfQueued, PhasePlan, v + 1)"
| claim: "st \<in> {WfQueued, WfParked} \<Longrightarrow> workflow_step (st, ph, v) (WfRunning, ph, v + 1)"
| release: "st \<in> {WfRunning, WfQueued, WfParked} \<Longrightarrow> workflow_step (st, ph, v) (WfQueued, ph, v + 1)"
| park: "st \<in> {WfRunning, WfQueued, WfParked} \<Longrightarrow> workflow_step (st, ph, v) (WfParked, ph, v + 1)"
| record_answer: "workflow_step (WfRunning, ph, v) (WfAwaitingReview, ph, v + 1)"
| grant_execute: "workflow_step (WfRunning, PhasePlan, v) (WfQueued, PhaseExecute, v + 1)"
| grant_external: "workflow_step (WfRunning, PhaseExecute, v) (WfQueued, PhaseExternalAction, v + 1)"
| plan_anew: "st' \<in> {WfQueued, WfAwaitingStart} \<Longrightarrow> ph' \<in> {PhasePlan, PhaseExecute} \<Longrightarrow>
    workflow_step (st, ph, v) (st', ph', v + 1)"

inductive_simps workflow_step_simps: "workflow_step (st, ph, v) (st', ph', v')"

lemma workflow_step_version: "workflow_step x y \<Longrightarrow> snd (snd y) = snd (snd x) + 1"
  by (induction rule: workflow_step.induct) simp_all

lemma workflow_steps_version: "workflow_step\<^sup>*\<^sup>* x y \<Longrightarrow> snd (snd x) \<le> snd (snd y)"
  by (induction rule: rtranclp_induct) (auto dest: workflow_step_version)

section \<open>Guards\<close>

lemma workflow_with_task_Some:
  "workflow_with_task i d = Some (w, t) \<longleftrightarrow> workflow_of i d = Some w \<and> task_of i d = Some t"
  by (auto simp: workflow_with_task_def split: option.splits)

lemma task_guard_None: "task_guard (Some t) v = None \<longleftrightarrow> tk_version t = v \<and> tk_status t = TaskOpen"
  by (simp add: task_guard_def)

lemma workflow_guard_None:
  "workflow_guard row v sts = None \<longleftrightarrow> (\<exists>w. row = Some w \<and> wf_version w = v \<and> wf_status w \<in> set sts)"
  by (auto simp: workflow_guard_def split: option.splits if_splits)

lemma running_guard_None:
  "running_guard row v digest now = None \<longleftrightarrow> (\<exists>w e. row = Some w \<and> wf_version w = v
     \<and> wf_status w = WfRunning \<and> wf_claim_token_digest w = Some digest
     \<and> wf_claim_expires_at w = Some e \<and> now < e)"
  by (auto simp: running_guard_def workflow_guard_def split: option.splits if_splits)

text \<open>A workflow whose task is open at the version the workflow was made for.\<close>

definition live_at :: "rowid \<Rightarrow> db \<Rightarrow> workflow_row \<Rightarrow> task_row \<Rightarrow> bool" where
  "live_at i d w t \<longleftrightarrow> workflow_of i d = Some w \<and> task_of i d = Some t
     \<and> tk_version t = wf_task_version w \<and> tk_status t = TaskOpen"

lemma both_guards_None:
  assumes "both_guards (workflow_with_task i d) first = None"
  obtains w t where "first = None" and "workflow_with_task i d = Some (w, t)" and "live_at i d w t"
proof (cases "workflow_with_task i d")
  case None
  then show thesis using assms by (auto simp: both_guards_def split: option.splits)
next
  case (Some x)
  then obtain w t where "workflow_with_task i d = Some (w, t)" by (cases x) simp
  then show thesis using assms that [of w t]
    by (auto simp: both_guards_def task_guard_None live_at_def workflow_with_task_Some split: option.splits)
qed

section \<open>Outcomes\<close>

text \<open>What a request on workflow \<open>i\<close> at version \<open>expected\<close> may do.\<close>

definition answers_once :: "nat \<Rightarrow> rowid \<Rightarrow> int \<Rightarrow> db \<Rightarrow> exc + (workflow_result \<times> db) \<Rightarrow> bool" where
  "answers_once M i expected d res \<longleftrightarrow> (\<exists>r d'. res = Inr (r, d') \<and>
     (if xr_disposition r = WdApplied
      then xr_version r = Some (expected + 1) \<and> (\<exists>w t w'. live_at i d w t \<and> wf_version w = expected
        \<and> moves M i d d' w w' \<and> workflow_step (view_of w) (view_of w'))
      else d' = d))"

lemma answers_once_refused:
  "xr_disposition r \<noteq> WdApplied \<Longrightarrow> answers_once M i v d (Inr (r, d))"
  by (simp add: answers_once_def)

lemma answers_once_applied:
  assumes "live_at i d w t" and "wf_version w = expected" and "moves M i d d' w w'"
    and "workflow_step (view_of w) (view_of w')" and "xr_disposition r = WdApplied"
    and "xr_version r = Some (expected + 1)"
  shows "answers_once M i expected d (Inr (r, d'))"
  using assms by (auto simp: answers_once_def)

lemma dispositions [simp]:
  "xr_disposition (wf_refused i ref) = WdRefused"
  "xr_disposition (wf_refused_row i row ref) = WdRefused"
  "xr_disposition (wf_operation w disp) = disp"
  "xr_disposition (wf_applied w v st ph) = WdApplied"
  "xr_version (wf_applied w v st ph) = Some v"
  by (simp_all add: wf_refused_def wf_refused_row_def wf_operation_def wf_applied_def split: option.split)

text \<open>
  The write of an operation on a live workflow: the row function keeps the task id, moves by one
  version along the machine and leaves a row the table accepts.
\<close>

lemma live_write:
  assumes inv: "exec_inv M d" and l: "live_at i d w t"
    and hit: "\<And>x. hit x \<Longrightarrow> wf_task_id x = i" "hit w"
    and f: "\<And>x. wf_task_id (f x) = wf_task_id x" "wf_check (f w)" "attempts_left M (f w)"
    and v: "wf_version w = expected" "wf_version (f w) = expected + 1"
    and e: "st = wf_status (f w)" "kind \<in> set EXECUTION_EVENT_KINDS" "tv = wf_task_version w"
      "if kind \<in> set PHASE_OPENERS then ph = wf_phase (f w)
         \<and> (ph = PhaseExternalAction \<longrightarrow> kind \<in> {''phase_approved'', ''phase_granted''})
       else wf_phase (f w) = wf_phase w"
    and s: "workflow_step (view_of w) (view_of (f w))"
  obtains d1 d2 where "update_workflows hit f d = Inr (1, d1)"
    and "wf_event i kind (expected + 1) tv ph st now d1 = Inr d2"
    and "\<And>r. xr_disposition r = WdApplied \<Longrightarrow> xr_version r = Some (expected + 1) \<Longrightarrow>
      answers_once M i expected d (Inr (r, d2))"
proof -
  have w: "workflow_of i d = Some w" using l by (simp add: live_at_def)
  have tv: "1 \<le> tv" using exec_invD(3) [OF inv w] e(3) by (simp add: wf_check_def)
  obtain d1 d2 where u: "update_workflows hit f d = Inr (1, d1)"
    and ev: "wf_event i kind (expected + 1) tv ph st now d1 = Inr d2" and m: "moves M i d d2 w (f w)"
    by (rule write_ok [where hit = hit and f = f and kind = kind and ph = ph and st = st and tv = tv
          and now = now and wv = "expected + 1", OF inv w _ hit(2) _ f(2,3) v(2)[symmetric] e(1,2) tv e(4)])
      (rule hit(1), assumption, rule f(1), blast)
  show thesis by (rule that [OF u ev answers_once_applied [OF l v(1) m s]])
qed

section \<open>The rows that the operations leave\<close>

text \<open>Columns that clearing a claim or a failure leaves alone.\<close>

lemma cleared [simp]:
  "wf_task_id (clear_claim w) = wf_task_id w" "wf_status (clear_claim w) = wf_status w"
  "wf_phase (clear_claim w) = wf_phase w" "wf_version (clear_claim w) = wf_version w"
  "wf_failure_count (clear_claim w) = wf_failure_count w"
  "wf_task_version (clear_claim w) = wf_task_version w"
  "wf_task_id (clear_failure w) = wf_task_id w" "wf_status (clear_failure w) = wf_status w"
  "wf_phase (clear_failure w) = wf_phase w" "wf_version (clear_failure w) = wf_version w"
  "wf_failure_count (clear_failure w) = 0"
  "wf_task_version (clear_failure w) = wf_task_version w"
  by (simp_all add: clear_claim_def clear_failure_def)

lemma wf_checkD:
  assumes "wf_check w"
  shows "1 \<le> wf_version w" and "1 \<le> wf_task_version w" and "0 \<le> wf_failure_count w"
  using assms by (simp_all add: wf_check_def)

lemma settle_gate_row [simp]:
  "wf_task_id (settle_gate st ph v wake completed now w) = wf_task_id w"
  "wf_status (settle_gate st ph v wake completed now w) = st"
  "wf_phase (settle_gate st ph v wake completed now w) = ph"
  "wf_version (settle_gate st ph v wake completed now w) = v"
  "wf_failure_count (settle_gate st ph v wake completed now w) = 0"
  by (simp_all add: settle_gate_def)

lemma settle_gate_check:
  assumes "wf_check w" and "1 \<le> v" and "st \<notin> {WfRunning, WfParked}" and "st = WfSnoozed \<longrightarrow> wake \<noteq> None"
    and "st \<in> {WfCompleted, WfCancelled} \<longleftrightarrow> completed \<noteq> None"
  shows "wf_check (settle_gate st ph v wake completed now w)"
  using assms by (cases st) (simp_all add: wf_check_def settle_gate_def clear_claim_def clear_failure_def)

lemma attempts_left_0: "0 < M \<Longrightarrow> wf_failure_count w = 0 \<Longrightarrow> attempts_left M w"
  by (simp add: attempts_left_def)

section \<open>The gates\<close>

lemma start_plan_cases:
  assumes "action \<in> set (''start'' # ''cancel'' # SNOOZE_ACTIONS)"
    and "start_plan local utc action now = (st, wake, completed, kind)"
  shows "kind \<notin> set PHASE_OPENERS \<and> kind \<in> set EXECUTION_EVENT_KINDS" and "st \<notin> {WfRunning, WfParked}" and "st = WfSnoozed \<longrightarrow> wake \<noteq> None"
    and "st \<in> {WfCompleted, WfCancelled} \<longleftrightarrow> completed \<noteq> None"
    and "st \<in> {WfQueued, WfSnoozed, WfCancelled}"
  using assms by (auto simp: start_plan_def PHASE_OPENERS_def split: if_splits)

lemma pin_owner_status [simp]:
  "tk_id (pin_owner t) = tk_id t" "tk_status (pin_owner t) = tk_status t" "tk_version (pin_owner t) = tk_version t"
  by (simp_all add: pin_owner_def)

text \<open>A decision about the owner touches no workflow.\<close>

lemma moves_frame:
  assumes "moves M i d d' w w'" and "workflows d'' = workflows d'" and "workflow_events d'' = workflow_events d'"
    and "same_tasks d' d''"
  shows "moves M i d d'' w w'"
  using assms by (auto simp: moves_def exec_inv_def same_tasks_def)

lemma same_tasks_refl [simp]: "same_tasks d d"
  by (simp add: same_tasks_def)

lemma same_tasks_trans: "same_tasks a b \<Longrightarrow> same_tasks b c \<Longrightarrow> same_tasks a c"
  by (simp add: same_tasks_def)

lemma same_tasks_pin: "same_tasks d (d'\<lparr>tasks := update_where P pin_owner (tasks d)\<rparr>)"
proof -
  have *: "(\<lambda>t. (tk_status (if P t then pin_owner t else t), tk_version (if P t then pin_owner t else t)))
      = (\<lambda>t. (tk_status t, tk_version t))" by (rule ext) simp
  show ?thesis by (simp add: same_tasks_def find_update_where option.map_comp comp_def *)
qed

lemma record_ownership_frame [simp]:
  "workflows (snd (record_ownership_decision i tv st now d)) = workflows d"
  "workflow_events (snd (record_ownership_decision i tv st now d)) = workflow_events d"
  "tasks (snd (record_ownership_decision i tv st now d)) = tasks d"
  by (simp_all add: record_ownership_decision_def Let_def)

lemma same_tasks_eq: "tasks d' = tasks d \<Longrightarrow> same_tasks d d'"
  by (simp add: same_tasks_def)

lemma answers_once_frame:
  assumes "answers_once M i v d (Inr (r, d'))" and "workflows d'' = workflows d'"
    and "workflow_events d'' = workflow_events d'" and "same_tasks d' d''" and "xr_disposition r = WdApplied"
  shows "answers_once M i v d (Inr (r, d''))"
proof -
  obtain w t w' where "live_at i d w t" "wf_version w = v" "moves M i d d' w w'"
    "workflow_step (view_of w) (view_of w')" "xr_version r = Some (v + 1)"
    using assms(1,5) by (auto simp: answers_once_def)
  then show ?thesis using answers_once_applied moves_frame [OF _ assms(2-4)] assms(5) by blast
qed

lemma start_gate_step:
  "st \<in> {WfAwaitingStart, WfSnoozed, WfParked} \<Longrightarrow> st' \<in> {WfQueued, WfSnoozed, WfCancelled} \<Longrightarrow>
    workflow_step (st, ph, v) (st', ph, v + 1)"
  by (auto intro: workflow_step.start workflow_step.snooze workflow_step.cancel)

lemma start_answers_once:
  assumes inv: "exec_inv M d" and M: "0 < M"
  shows "answers_once M i v d (apply_start_action local utc i v action now d)"
proof -
  let ?row = "workflow_with_task i d"
  let ?g = "both_guards ?row (workflow_guard (map_option fst ?row) v [WfAwaitingStart, WfSnoozed, WfParked])"
  consider "\<not> valid_identity i v" | "action \<notin> set (''start'' # ''cancel'' # SNOOZE_ACTIONS)"
    | "valid_identity i v" "action \<in> set (''start'' # ''cancel'' # SNOOZE_ACTIONS)" by blast
  then show ?thesis
  proof cases
    case 3
    show ?thesis
    proof (cases ?g)
      case (Some ref)
      then show ?thesis using 3 by (simp add: apply_start_action_def Let_def answers_once_refused)
    next
      case None
      obtain w t where g: "workflow_guard (map_option fst ?row) v [WfAwaitingStart, WfSnoozed, WfParked] = None"
        and row: "?row = Some (w, t)" and l: "live_at i d w t"
        using None by (rule both_guards_None)
      have wv: "wf_version w = v" "wf_status w \<in> {WfAwaitingStart, WfSnoozed, WfParked}"
        using g row by (auto simp: workflow_guard_None)
      have wo: "workflow_of i d = Some w" using l by (simp add: live_at_def)
      obtain st wake completed kind where p: "start_plan local utc action now = (st, wake, completed, kind)"
        by (cases "start_plan local utc action now") auto
      note pc = start_plan_cases [OF 3(2) p]
      show ?thesis
      proof (cases "action = ''start'' \<and> \<not> woken w now")
        case True
        then show ?thesis using 3 None row by (simp add: apply_start_action_def Let_def answers_once_refused)
      next
        case go: False
        let ?f = "settle_gate st (wf_phase w) (v + 1) wake completed now"
        let ?r = "(wf_applied w (v + 1) st (wf_phase w))\<lparr>xr_wake_at := wake\<rparr>"
        have chk: "wf_check (?f w)"
          by (rule settle_gate_check [OF exec_invD(3) [OF inv wo] _ pc(2-4)]) (use 3(1) in \<open>simp add: valid_identity_def\<close>)
        have step: "workflow_step (view_of w) (view_of (?f w))"
          using start_gate_step [OF wv(2) pc(5)] wv(1) by (simp add: view_of_def)
        obtain d1 d2 where u: "update_workflows (at_version i v) ?f d = Inr (1, d1)"
          and ev: "wf_event i kind (v + 1) (wf_task_version w) (wf_phase w) st now d1 = Inr d2"
          and a: "\<And>r. xr_disposition r = WdApplied \<Longrightarrow> xr_version r = Some (v + 1) \<Longrightarrow>
            answers_once M i v d (Inr (r, d2))"
          by (rule live_write [where f = ?f and hit = "at_version i v" and kind = kind
                and ph = "wf_phase w" and st = st and tv = "wf_task_version w" and now = now and expected = v,
                OF inv l])
            (use chk step wv pc(1) M row_of_key [OF wo] in \<open>simp_all add: at_version_def attempts_left_0\<close>)
        let ?d4 = "if kind = ''start_approved''
          then let (pending, d3) = record_ownership_decision i (wf_task_version w) OwnKept now d2 in
               if pending then d3\<lparr>tasks := update_where (\<lambda>t. tk_id t = i) pin_owner (tasks d3)\<rparr> else d3
          else d2"
        have G: "both_guards (Some (w, t)) (workflow_guard (Some w) v [WfAwaitingStart, WfSnoozed, WfParked]) = None"
          using None row by simp
        have "apply_start_action local utc i v action now d = Inr (?r, ?d4)"
          using 3 go by (auto simp: apply_start_action_def Let_def row G p u ev split: prod.split)
        moreover have "workflows ?d4 = workflows d2 \<and> workflow_events ?d4 = workflow_events d2 \<and> same_tasks d2 ?d4"
          by (simp add: split_beta Let_def same_tasks_pin same_tasks_eq)
        ultimately show ?thesis using answers_once_frame [OF a [of ?r], of ?d4] by simp
      qed
    qed
  qed (simp_all add: apply_start_action_def answers_once_refused)
qed

section \<open>The choice of an agent\<close>

lemma liveD:
  assumes "live_at i d w t"
  shows "workflow_of i d = Some w" and "wf_task_id w = i" and "workflow_with_task i d = Some (w, t)"
  using assms row_of_key [of wf_task_id i "workflows d" w] by (simp_all add: live_at_def workflow_with_task_Some)

lemma workflow_okD:
  assumes "exec_inv M d" and "workflow_of i d = Some w"
  shows "wf_check w" and "attempts_left M w" and "explained (workflow_events d) w"
  using exec_invD(2) [OF assms] by (simp_all add: workflow_ok_def)

lemma bind_profile_answers_once:
  assumes inv: "exec_inv M d" and l: "live_at i d w t" and v: "wf_version w = v" and x: "extra w"
    and st: "wf_status w \<notin> {WfRunning, WfCompleted, WfCancelled}" and p: "profile_ok p"
  shows "answers_once M i v d (bind_profile i v extra p w ph now d)"
proof -
  let ?f = "\<lambda>x. x\<lparr>wf_version := v + 1, wf_profile_id := Some (pr_id p),
            wf_profile_revision := Some (pr_revision p), wf_updated_at := now\<rparr>"
  note ok = workflow_okD [OF inv liveD(1) [OF l]]
  have chk: "wf_check (?f w)" using ok(1) v p by (simp add: wf_check_def profile_ok_def)
  have step: "workflow_step (view_of w) (view_of (?f w))"
    using st v by (simp add: view_of_def workflow_step.adjust)
  have att: "attempts_left M (?f w)" using ok(2) by (simp add: attempts_left_def)
  obtain d1 d2 where u: "update_workflows (\<lambda>x. at_version i v x \<and> extra x) ?f d = Inr (1, d1)"
    and ev: "wf_event i ''agent_selected'' (v + 1) (wf_task_version w) ph (wf_status w) now d1 = Inr d2"
    and a: "\<And>r. xr_disposition r = WdApplied \<Longrightarrow> xr_version r = Some (v + 1) \<Longrightarrow>
      answers_once M i v d (Inr (r, d2))"
    by (rule live_write [where f = ?f and hit = "\<lambda>x. at_version i v x \<and> extra x" and kind = "''agent_selected''"
          and ph = ph and st = "wf_status w" and tv = "wf_task_version w" and now = now and expected = v, OF inv l])
      (use chk step att v x liveD(2) [OF l] in \<open>simp_all add: at_version_def PHASE_OPENERS_def\<close>)
  show ?thesis by (simp add: bind_profile_def u ev a xr_blank_def)
qed

lemma answers_once_map:
  assumes "answers_once M i v d res" and "\<And>r. xr_disposition (g r) = xr_disposition r"
    and "\<And>r. xr_version (g r) = xr_version r"
  shows "answers_once M i v d (rbind res (\<lambda>(r, d'). Inr (g r, d')))"
proof -
  obtain r d' where r: "res = Inr (r, d')" and a: "answers_once M i v d (Inr (r, d'))"
    using assms(1) by (auto simp: answers_once_def)
  have "rbind res (\<lambda>(r, d'). Inr (g r, d')) = Inr (g r, d')" by (simp add: r)
  moreover have "answers_once M i v d (Inr (g r, d')) = answers_once M i v d (Inr (r, d'))"
    by (simp only: answers_once_def sum.inject prod.inject assms(2,3) ex_simps simp_thms)
      (simp add: assms(2,3))
  ultimately show ?thesis using a by simp
qed

text \<open>A guarded operation: refused, or run on a live workflow at the version it names.\<close>

lemma guarded:
  assumes "\<And>ref. both_guards (workflow_with_task i d)
      (workflow_guard (map_option fst (workflow_with_task i d)) v sts) = Some ref \<Longrightarrow> answers_once M i v d res"
    and "\<And>w t. live_at i d w t \<Longrightarrow> wf_version w = v \<Longrightarrow> wf_status w \<in> set sts \<Longrightarrow>
      workflow_with_task i d = Some (w, t) \<Longrightarrow> both_guards (Some (w, t)) (workflow_guard (Some w) v sts) = None \<Longrightarrow>
      answers_once M i v d res"
  shows "answers_once M i v d res"
proof (cases "both_guards (workflow_with_task i d)
      (workflow_guard (map_option fst (workflow_with_task i d)) v sts)")
  case None
  obtain w t where g: "workflow_guard (map_option fst (workflow_with_task i d)) v sts = None"
    and row: "workflow_with_task i d = Some (w, t)" and l: "live_at i d w t"
    using None by (rule both_guards_None)
  have "wf_version w = v" "wf_status w \<in> set sts" using g row by (auto simp: workflow_guard_None)
  then show ?thesis using assms(2) [OF l _ _ row] None row by simp
qed (rule assms(1))

lemma agent_selection_answers_once:
  assumes inv: "exec_inv M d" and p: "profile_ok p"
  shows "answers_once M i v d (apply_agent_selection i v p now d)"
proof (cases "valid_identity i v \<and> PhasePlan \<in> set (pr_phases p)")
  case args: True
  show ?thesis
  proof (rule guarded [where sts = "[WfAwaitingStart]"])
    fix w t assume l: "live_at i d w t" "wf_version w = v" "wf_status w \<in> set [WfAwaitingStart]"
      "workflow_with_task i d = Some (w, t)"
      "both_guards (Some (w, t)) (workflow_guard (Some w) v [WfAwaitingStart]) = None"
    have "answers_once M i v d (rbind (bind_profile i v (\<lambda>x. wf_status x = WfAwaitingStart) p w PhasePlan now d)
        (\<lambda>(r, d1). Inr (if xr_accepted r then r\<lparr>xr_phase := Some PhasePlan\<rparr> else r, d1)))"
      by (rule answers_once_map [OF bind_profile_answers_once [OF inv l(1,2)]]) (use l(3) p in simp_all)
    then show "answers_once M i v d (apply_agent_selection i v p now d)"
      using args by (simp add: apply_agent_selection_def Let_def l(4,5) answers_once_refused)
  qed (use args in \<open>simp add: apply_agent_selection_def Let_def answers_once_refused\<close>)
qed (auto simp: apply_agent_selection_def answers_once_refused)

lemma plan_review_selection_answers_once:
  assumes inv: "exec_inv M d" and p: "profile_ok p"
  shows "answers_once M i v d (apply_plan_review_agent_selection i v p now d)"
proof (cases "valid_identity i v \<and> PhaseExecute \<in> set (pr_phases p)")
  case args: True
  let ?row = "workflow_with_task i d"
  let ?g = "workflow_guard (map_option fst ?row) v [WfAwaitingReview]"
  consider (some) ref where "?g = Some ref" | (phase) "?g = None" "wf_phase (fst (the ?row)) \<noteq> PhasePlan"
    | (task) ref where "?g = None" "wf_phase (fst (the ?row)) = PhasePlan" "both_guards ?row None = Some ref"
    | (go) "?g = None" "wf_phase (fst (the ?row)) = PhasePlan" "both_guards ?row None = None"
    by (metis not_None_eq)
  then show ?thesis
  proof cases
    case go
    obtain w t where row: "?row = Some (w, t)" and l: "live_at i d w t" using go(3) by (rule both_guards_None)
    have w: "wf_version w = v" "wf_status w = WfAwaitingReview" "wf_phase w = PhasePlan"
      using go row by (auto simp: workflow_guard_None)
    have "answers_once M i v d (bind_profile i v (\<lambda>x. wf_status x = WfAwaitingReview \<and> wf_phase x = PhasePlan)
        p w PhaseExecute now d)"
      by (rule bind_profile_answers_once [OF inv l w(1)]) (use w p in simp_all)
    then show ?thesis
      using args go row w(3) by (simp add: apply_plan_review_agent_selection_def Let_def answers_once_refused)
  qed (use args in \<open>simp_all add: apply_plan_review_agent_selection_def Let_def answers_once_refused\<close>)
qed (auto simp: apply_plan_review_agent_selection_def answers_once_refused)

lemma adopt_answers_once:
  assumes inv: "exec_inv M d" and cfg: "config_ok cfg"
  shows "answers_once M i v d (adopt_tx cfg i v now d)"
proof (rule guarded [where sts = ADOPTABLE_STATUSES])
  fix w t assume l: "live_at i d w t" "wf_version w = v" "wf_status w \<in> set ADOPTABLE_STATUSES"
    "workflow_with_task i d = Some (w, t)"
    "both_guards (Some (w, t)) (workflow_guard (Some w) v ADOPTABLE_STATUSES) = None"
  have "answers_once M i v d (bind_profile i v (\<lambda>x. wf_status x \<noteq> WfRunning) p w (wf_phase w) now d)"
    if "registry_get (ec_registry cfg) (wf_profile_id w) = Some p" for p
    by (rule bind_profile_answers_once [OF inv l(1,2)])
      (use l(3) registry_profile_ok(1) [OF config_ok_profiles [OF cfg] that] in \<open>auto simp: ADOPTABLE_STATUSES_def\<close>)
  then show "answers_once M i v d (adopt_tx cfg i v now d)"
    by (simp add: adopt_tx_def l(4,5) answers_once_refused split: option.split)
qed (simp add: adopt_tx_def answers_once_refused)

section \<open>The review gate\<close>

lemma snooze_not_other:
  "action \<in> set SNOOZE_ACTIONS \<Longrightarrow> action \<noteq> ''cancel'' \<and> action \<noteq> ''revise'' \<and> action \<noteq> ''start''"
  by (auto simp: SNOOZE_ACTIONS_def)

lemma review_plan_cases:
  assumes "review_plan local utc action phase outcome now = Some (st, ph, wake, completed, kind)"
    and "st0 \<in> {WfAwaitingReview, WfSnoozed} \<or> (action \<in> set SNOOZE_ACTIONS \<and> st0 = WfCompleted)"
  shows "workflow_step (st0, phase, v) (st, ph, v + 1)"
    and "(if kind \<in> set PHASE_OPENERS
       then ph = PhaseExternalAction \<longrightarrow> kind \<in> {''phase_approved'', ''phase_granted''} else ph = phase)
      \<and> kind \<in> set EXECUTION_EVENT_KINDS"
    and "st \<notin> {WfRunning, WfParked}" and "st = WfSnoozed \<longrightarrow> wake \<noteq> None"
    and "st \<in> {WfCompleted, WfCancelled} \<longleftrightarrow> completed \<noteq> None"
proof -
  consider (cancel) "action = ''cancel''" | (revise) "action = ''revise''"
    | (snooze) "action \<in> set SNOOZE_ACTIONS"
    | (approve) "action \<noteq> ''cancel''" "action \<noteq> ''revise''" "action \<notin> set SNOOZE_ACTIONS" by blast
  then have "workflow_step (st0, phase, v) (st, ph, v + 1)
    \<and> (if kind \<in> set PHASE_OPENERS
       then ph = PhaseExternalAction \<longrightarrow> kind \<in> {''phase_approved'', ''phase_granted''} else ph = phase)
    \<and> kind \<in> set EXECUTION_EVENT_KINDS \<and> st \<notin> {WfRunning, WfParked} \<and> (st = WfSnoozed \<longrightarrow> wake \<noteq> None)
    \<and> (st \<in> {WfCompleted, WfCancelled} \<longleftrightarrow> completed \<noteq> None)"
  proof cases
    case cancel
    then have "action \<notin> set SNOOZE_ACTIONS" by (auto simp: SNOOZE_ACTIONS_def)
    then have "st0 \<notin> {WfCompleted, WfCancelled}" using assms(2) by auto
    moreover have "st = WfCancelled" "ph = phase" "wake = None" "completed = Some now" "kind = ''cancelled''"
      using assms(1) cancel by (simp_all add: review_plan_def)
    ultimately show ?thesis by (simp add: PHASE_OPENERS_def workflow_step.cancel)
  next
    case revise
    then have "st0 \<in> {WfAwaitingReview, WfSnoozed}" using assms(2) by (auto simp: SNOOZE_ACTIONS_def)
    moreover have "st = WfQueued" "ph = PhasePlan" "wake = None" "completed = None" "kind = ''revision_requested''"
      using assms(1) revise by (simp_all add: review_plan_def)
    ultimately show ?thesis by (simp add: PHASE_OPENERS_def workflow_step.revise)
  next
    case snooze
    have "st0 \<notin> {WfQueued, WfRunning, WfCancelled}" using assms(2) by auto
    moreover have "st = WfSnoozed" "ph = phase" "wake \<noteq> None" "completed = None" "kind = ''snoozed''"
      using assms(1) snooze snooze_not_other [OF snooze] by (auto simp: review_plan_def)
    ultimately show ?thesis by (simp add: PHASE_OPENERS_def workflow_step.snooze)
  next
    case approve
    have "st0 \<in> {WfAwaitingReview, WfSnoozed}" using assms(2) approve(3) by auto
    moreover have "st = WfQueued" "ph \<in> {PhaseExecute, PhaseExternalAction}" "wake = None" "completed = None"
        "kind = ''phase_approved''"
      using assms(1) approve
      by (auto simp: review_plan_def approval_opens_def split: option.splits execution_outcome.splits)
    ultimately show ?thesis by (simp add: PHASE_OPENERS_def workflow_step.approve)
  qed
  then show "workflow_step (st0, phase, v) (st, ph, v + 1)"
    and "(if kind \<in> set PHASE_OPENERS
       then ph = PhaseExternalAction \<longrightarrow> kind \<in> {''phase_approved'', ''phase_granted''} else ph = phase)
      \<and> kind \<in> set EXECUTION_EVENT_KINDS"
    and "st \<notin> {WfRunning, WfParked}" and "st = WfSnoozed \<longrightarrow> wake \<noteq> None"
    and "st \<in> {WfCompleted, WfCancelled} \<longleftrightarrow> completed \<noteq> None" by blast+
qed

lemma review_answers_once:
  assumes inv: "exec_inv M d" and M: "0 < M"
  shows "answers_once M i v d (apply_review_action local utc i v action now d)"
proof (cases "valid_identity i v \<and> action \<in> set ([''approve'', ''revise'', ''cancel''] @ SNOOZE_ACTIONS)")
  case args: True
  let ?sts = "[WfAwaitingReview, WfSnoozed] @ (if action \<in> set SNOOZE_ACTIONS then [WfCompleted] else [])"
  show ?thesis
  proof (rule guarded [where sts = ?sts])
    fix w t assume l: "live_at i d w t" "wf_version w = v" "wf_status w \<in> set ?sts"
      "workflow_with_task i d = Some (w, t)" "both_guards (Some (w, t)) (workflow_guard (Some w) v ?sts) = None"
    show "answers_once M i v d (apply_review_action local utc i v action now d)"
    proof (cases "\<not> woken w now \<or> shown_outcome w d = None")
      case True
      then show ?thesis using args by (simp add: apply_review_action_def Let_def l(4,5) answers_once_refused del: append_Cons)
    next
      case go: False
      then obtain out where out: "shown_outcome w d = Some out" by blast
      show ?thesis
      proof (cases "review_plan local utc action (wf_phase w) out now")
        case None
        then show ?thesis using args go out
          by (simp add: apply_review_action_def Let_def l(4,5) answers_once_refused del: append_Cons)
      next
        case (Some x)
        obtain st ph wake completed kind where x: "x = (st, ph, wake, completed, kind)" by (cases x)
        have wst: "wf_status w \<in> {WfAwaitingReview, WfSnoozed} \<or> (action \<in> set SNOOZE_ACTIONS \<and> wf_status w = WfCompleted)"
          using l(3) by (auto split: if_splits)
        note pc = review_plan_cases [OF Some [unfolded x] wst]
        let ?f = "settle_gate st ph (v + 1) wake completed now"
        have chk: "wf_check (?f w)"
          by (rule settle_gate_check [OF workflow_okD(1) [OF inv liveD(1) [OF l(1)]] _ pc(3-5)])
            (use args in \<open>simp add: valid_identity_def\<close>)
        obtain d1 d2 where u: "update_workflows (at_version i v) ?f d = Inr (1, d1)"
          and ev: "wf_event i kind (v + 1) (wf_task_version w) ph st now d1 = Inr d2"
          and a: "\<And>r. xr_disposition r = WdApplied \<Longrightarrow> xr_version r = Some (v + 1) \<Longrightarrow>
            answers_once M i v d (Inr (r, d2))"
          by (rule live_write [where f = ?f and hit = "at_version i v" and kind = kind and ph = ph and st = st
                and tv = "wf_task_version w" and now = now and expected = v, OF inv l(1)])
            (use chk pc(1,2) l(2) M liveD(2) [OF l(1)] in
              \<open>simp_all add: at_version_def attempts_left_0 view_of_def split: if_splits\<close>)
        show ?thesis using args go out Some x
          by (simp add: apply_review_action_def Let_def l(4,5) u ev a del: append_Cons)
      qed
    qed
  qed (use args in \<open>simp add: apply_review_action_def Let_def answers_once_refused del: append_Cons\<close>)
qed (auto simp: apply_review_action_def answers_once_refused)

section \<open>Failures\<close>

text \<open>One move of a workflow along the machine, whatever its task.\<close>

definition advances :: "nat \<Rightarrow> rowid \<Rightarrow> db \<Rightarrow> db \<Rightarrow> workflow_row \<Rightarrow> workflow_row \<Rightarrow> bool" where
  "advances M i d d' w w' \<longleftrightarrow> moves M i d d' w w' \<and> workflow_step (view_of w) (view_of w')
     \<and> only_workflows d d'"

definition exit_code_ok :: "int option \<Rightarrow> bool" where
  "exit_code_ok code \<longleftrightarrow> (case code of None \<Rightarrow> True | Some c \<Rightarrow> 1 \<le> c \<and> c \<le> 255)"

definition is_timeout :: "string \<Rightarrow> int option \<Rightarrow> bool" where
  "is_timeout reason code \<longleftrightarrow> reason = ''timeout'' \<or> code = Some 124"

lemma failure_plan_cases:
  assumes "failure_plan M w reason now ek code d = (st, n, wake, parked, kind)"
    and "0 \<le> wf_failure_count w" and "ek \<in> {None, Some ''claim_expired''}"
    and "is_timeout reason code \<Longrightarrow> wf_failure_count w < int M"
  shows "st \<in> {WfQueued, WfParked}" and "parked \<longleftrightarrow> st = WfParked" and "kind \<notin> set PHASE_OPENERS \<and> kind \<in> set EXECUTION_EVENT_KINDS"
    and "0 \<le> n" and "st = WfQueued \<Longrightarrow> n < int M"
proof -
  have ek: "(case ek of None \<Rightarrow> ''retry_scheduled'' | Some k \<Rightarrow> k) \<notin> set PHASE_OPENERS
      \<and> (case ek of None \<Rightarrow> ''retry_scheduled'' | Some k \<Rightarrow> k) \<in> set EXECUTION_EVENT_KINDS"
    and p: "''parked'' \<notin> set PHASE_OPENERS"
    using assms(3) by (auto simp: PHASE_OPENERS_def)
  have "st \<in> {WfQueued, WfParked} \<and> (parked \<longleftrightarrow> st = WfParked) \<and> kind \<notin> set PHASE_OPENERS \<and> kind \<in> set EXECUTION_EVENT_KINDS \<and> 0 \<le> n
      \<and> (st = WfQueued \<longrightarrow> n < int M)"
  proof (cases "is_timeout reason code")
    case True
    then have "st = WfQueued" "n = wf_failure_count w" "parked = False"
        "kind = (case ek of None \<Rightarrow> ''retry_scheduled'' | Some k \<Rightarrow> k)"
      using assms(1) by (simp_all add: failure_plan_def is_timeout_def)
    then show ?thesis using assms(2,4) True ek by simp
  next
    case no: False
    show ?thesis
    proof (cases "reason = ''budget_handoff'' \<or> reason = ''context_exhausted'' \<or> int M \<le> wf_failure_count w + 1")
      case True
      then have "st = WfParked" "n = wf_failure_count w + 1" "parked = True" "kind = ''parked''"
        using assms(1) no by (auto simp: failure_plan_def is_timeout_def Let_def split: if_splits)
      then show ?thesis using assms(2) p by simp
    next
      case False
      then have "st = WfQueued" "n = wf_failure_count w + 1" "parked = False"
          "kind = (case ek of None \<Rightarrow> ''retry_scheduled'' | Some k \<Rightarrow> k)"
        using assms(1) no by (auto simp: failure_plan_def is_timeout_def Let_def split: if_splits)
      then show ?thesis using assms(2) False ek by simp
    qed
  qed
  then show "st \<in> {WfQueued, WfParked}" "parked \<longleftrightarrow> st = WfParked" "kind \<notin> set PHASE_OPENERS \<and> kind \<in> set EXECUTION_EVENT_KINDS" "0 \<le> n"
    "st = WfQueued \<Longrightarrow> n < int M" by blast+
qed

definition deferred_row :: "workflow_status \<Rightarrow> int \<Rightarrow> time option \<Rightarrow> bool \<Rightarrow> string \<Rightarrow> int option \<Rightarrow> string option
    \<Rightarrow> int \<Rightarrow> time \<Rightarrow> workflow_row \<Rightarrow> workflow_row" where
  "deferred_row st n wake parked reason code run v now x =
     (clear_claim x)\<lparr>wf_status := st, wf_version := v, wf_failure_count := n,
        wf_last_failure_reason := Some reason, wf_last_failure_at := Some now,
        wf_last_failure_exit_code := code, wf_last_failure_run_id := run, wf_next_attempt_at := wake,
        wf_parked_at := (if parked then Some now else None), wf_updated_at := now\<rparr>"

lemma deferred_row_sel [simp]:
  "wf_task_id (deferred_row st n wake parked reason code run v now x) = wf_task_id x"
  "wf_status (deferred_row st n wake parked reason code run v now x) = st"
  "wf_phase (deferred_row st n wake parked reason code run v now x) = wf_phase x"
  "wf_version (deferred_row st n wake parked reason code run v now x) = v"
  "wf_failure_count (deferred_row st n wake parked reason code run v now x) = n"
  "wf_next_attempt_at (deferred_row st n wake parked reason code run v now x) = wake"
  by (simp_all add: deferred_row_def)

lemma deferred_row_check:
  assumes "wf_check w" and "wf_status w \<in> {WfRunning, WfQueued, WfParked}" and "st \<in> {WfQueued, WfParked}"
    and "0 \<le> n" and "parked \<longleftrightarrow> st = WfParked" and "reason \<in> set FAILURE_REASONS" and "exit_code_ok code"
    and "run_column run"
  shows "wf_check (deferred_row st n wake parked reason code run (wf_version w + 1) now w)"
proof -
  have "wf_completed_at w = None" using assms(1,2) by (auto simp: wf_check_def)
  then show ?thesis
    using assms by (auto simp: wf_check_def deferred_row_def clear_claim_def exit_code_ok_def)
qed

lemma defer_failure_ok:
  assumes inv: "exec_inv M d" and w: "workflow_of i d = Some w"
    and st: "wf_status w \<in> {WfRunning, WfQueued, WfParked}"
    and args: "reason \<in> set FAILURE_REASONS" "exit_code_ok code" "ek \<in> {None, Some ''claim_expired''}" "run_column run"
    and t: "is_timeout reason code \<Longrightarrow> wf_failure_count w < int M"
    and p: "failure_plan M w reason now ek code d = (st', n, wake, parked, kind)"
  obtains d2 where "defer_failure M w reason now ek code run d
      = Inr ((wf_applied w (wf_version w + 1) st' (wf_phase w))\<lparr>xr_next_attempt_at := wake\<rparr>, d2)"
    and "advances M i d d2 w (deferred_row st' n wake parked reason code run (wf_version w + 1) now w)"
proof -
  note ok = workflow_okD [OF inv w]
  have wid: "wf_task_id w = i" using w by (rule row_of_key)
  note pc = failure_plan_cases [OF p wf_checkD(3) [OF ok(1)] args(3) t]
  let ?f = "deferred_row st' n wake parked reason code run (wf_version w + 1) now"
  have chk: "wf_check (?f w)" by (rule deferred_row_check [OF ok(1) st pc(1) pc(4) pc(2) args(1,2,4)])
  have att: "attempts_left M (?f w)" using pc(1,5) by (auto simp: attempts_left_def)
  have step: "workflow_step (view_of w) (view_of (?f w))"
    using pc(1) st by (auto simp: view_of_def intro: workflow_step.release workflow_step.park)
  obtain d1 d2 where u: "update_workflows (at_version i (wf_version w)) ?f d = Inr (1, d1)"
    and ev: "wf_event i kind (wf_version w + 1) (wf_task_version w) (wf_phase w) st' now d1 = Inr d2"
    and m: "moves M i d d2 w (?f w)" and tt: "only_workflows d d2"
    by (rule write_ok [where f = ?f and hit = "at_version i (wf_version w)" and kind = kind and now = now
          and ph = "wf_phase w" and st = st' and tv = "wf_task_version w" and wv = "wf_version w + 1", OF inv w])
      (use chk att pc(3) wid wf_checkD(2) [OF ok(1)] in \<open>simp_all add: at_version_def\<close>)
  have "defer_failure M w reason now ek code run d
      = Inr ((wf_applied w (wf_version w + 1) st' (wf_phase w))\<lparr>xr_next_attempt_at := wake\<rparr>, d2)"
    using args(1) p wid u [unfolded deferred_row_def] ev by (simp add: defer_failure_def Let_def)
  then show thesis using that m step tt by (simp add: advances_def)
qed

section \<open>The worker's calls\<close>

lemma claim_guard_None:
  assumes "claim_guard sha i v token now d = None"
  obtains w t e where "workflow_with_task i d = Some (w, t)" and "live_at i d w t" and "wf_version w = v"
    and "wf_status w = WfRunning" and "wf_claim_token_digest w = Some (sha token)"
    and "wf_claim_expires_at w = Some e" and "now < e"
proof -
  obtain w t where "running_guard (map_option fst (workflow_with_task i d)) v (sha token) now = None"
    and row: "workflow_with_task i d = Some (w, t)" and l: "live_at i d w t"
    using assms unfolding claim_guard_def Let_def by (rule both_guards_None)
  then show thesis using that by (auto simp: running_guard_None)
qed

lemma digest_frame [simp]:
  "workflows (insert_failure_digest i v ph run g now d) = workflows d"
  "workflow_events (insert_failure_digest i v ph run g now d) = workflow_events d"
  "tasks (insert_failure_digest i v ph run g now d) = tasks d"
  by (simp_all add: insert_failure_digest_def)

text \<open>What \<open>fail\<close> may pass on.\<close>

definition report_ok :: "failure_report \<Rightarrow> bool" where
  "report_ok rep \<longleftrightarrow> fp_reason rep \<in> set FAILURE_REASONS \<and> exit_code_ok (fp_exit_code rep)
     \<and> run_column (fp_run_id rep)"

lemma valid_report_ok:
  assumes "valid_report rep = Some rep'"
  shows "report_ok rep'"
proof -
  have same: "fp_reason rep' = fp_reason rep" "fp_exit_code rep' = fp_exit_code rep" "fp_run_id rep' = fp_run_id rep"
    using assms by (auto simp: valid_report_def Let_def split: if_splits option.splits)
  have "fp_reason rep \<in> set FAILURE_REASONS"
    using assms by (auto simp: valid_report_def Let_def split: if_splits)
  moreover have "exit_code_ok (fp_exit_code rep)"
    using assms by (auto simp: valid_report_def exit_code_ok_def Let_def split: if_splits option.splits)
  moreover have "run_column (fp_run_id rep)"
    using assms by (auto simp: valid_report_def Let_def is_run_id_column split: if_splits option.splits)
  ultimately show ?thesis by (simp add: report_ok_def same)
qed

lemma finish_run_answers_once:
  assumes inv: "exec_inv M d" and rep: "\<And>rep. report = Some rep \<Longrightarrow> report_ok rep"
  shows "answers_once M i v d (finish_run_tx M sha i v token report now d)"
proof (cases "claim_guard sha i v token now d")
  case (Some ref)
  then show ?thesis by (simp add: finish_run_tx_def Let_def answers_once_refused)
next
  case None
  then obtain w t e where row: "workflow_with_task i d = Some (w, t)" and l: "live_at i d w t"
    and w: "wf_version w = v" "wf_status w = WfRunning" by (rule claim_guard_None)
  note ok = workflow_okD [OF inv liveD(1) [OF l]]
  show ?thesis
  proof (cases report)
    case None': None
    let ?f = "\<lambda>x. (clear_claim x)\<lparr>wf_status := WfQueued, wf_version := v + 1, wf_updated_at := now\<rparr>"
    have chk: "wf_check (?f w)" using ok(1) w by (auto simp: wf_check_def clear_claim_def)
    have att: "attempts_left M (?f w)" using ok(2) w by (simp add: attempts_left_def)
    have step: "workflow_step (view_of w) (view_of (?f w))"
      using w by (simp add: view_of_def workflow_step.release)
    obtain d1 d2 where u: "update_workflows (at_version i v) ?f d = Inr (1, d1)"
      and ev: "wf_event i ''released'' (v + 1) (wf_task_version w) (wf_phase w) WfQueued now d1 = Inr d2"
      and a: "\<And>r. xr_disposition r = WdApplied \<Longrightarrow> xr_version r = Some (v + 1) \<Longrightarrow>
        answers_once M i v d (Inr (r, d2))"
      by (rule live_write [where f = ?f and hit = "at_version i v" and kind = "''released''" and ph = "wf_phase w"
            and st = WfQueued and tv = "wf_task_version w" and now = now and expected = v, OF inv l])
        (use chk att step w liveD(2) [OF l] in \<open>simp_all add: at_version_def PHASE_OPENERS_def\<close>)
    show ?thesis by (simp add: finish_run_tx_def Let_def None None' row u ev a)
  next
    case (Some rp)
    obtain st n wake parked kind where p: "failure_plan M w (fp_reason rp) now None (fp_exit_code rp) d
        = (st, n, wake, parked, kind)" by (cases "failure_plan M w (fp_reason rp) now None (fp_exit_code rp) d")
    have c: "wf_failure_count w < int M" using ok(2) w by (simp add: attempts_left_def)
    obtain d2 where df: "defer_failure M w (fp_reason rp) now None (fp_exit_code rp) (fp_run_id rp) d
        = Inr ((wf_applied w (v + 1) st (wf_phase w))\<lparr>xr_next_attempt_at := wake\<rparr>, d2)"
      and adv: "advances M i d d2 w (deferred_row st n wake parked (fp_reason rp) (fp_exit_code rp)
        (fp_run_id rp) (v + 1) now w)"
      by (rule defer_failure_ok [OF inv liveD(1) [OF l] _ _ _ _ _ c p, of "fp_run_id rp"])
        (use w rep [OF Some] in \<open>simp_all add: report_ok_def\<close>)
    have a: "answers_once M i v d (Inr ((wf_applied w (v + 1) st (wf_phase w))\<lparr>xr_next_attempt_at := wake\<rparr>, d2))"
      by (rule answers_once_applied [OF l w(1) adv [unfolded advances_def, THEN conjunct1]
            adv [unfolded advances_def, THEN conjunct2, THEN conjunct1]]) simp_all
    let ?d3 = "case fp_evidence rp of None \<Rightarrow> d2
      | Some text \<Rightarrow> insert_failure_digest i v (wf_phase w) (fp_run_id rp) text now d2"
    have "finish_run_tx M sha i v token report now d
        = Inr ((wf_applied w (v + 1) st (wf_phase w))\<lparr>xr_next_attempt_at := wake\<rparr>, ?d3)"
      by (cases "fp_evidence rp") (simp_all add: finish_run_tx_def Let_def None Some row df)
    moreover have "workflows ?d3 = workflows d2" "workflow_events ?d3 = workflow_events d2" "same_tasks d2 ?d3"
      by (simp_all add: same_tasks_eq split: option.split)
    ultimately show ?thesis using answers_once_frame [OF a, of ?d3] by simp
  qed
qed

lemma clear_failure_check:
  assumes "wf_check w" and "wf_status w \<in> {WfQueued, WfParked}" and "1 \<le> v"
  shows "wf_check ((clear_failure w)\<lparr>wf_status := WfQueued, wf_version := v, wf_updated_at := now\<rparr>)"
  using assms by (auto simp: wf_check_def clear_failure_def)

lemma retry_answers_once:
  assumes inv: "exec_inv M d" and M: "0 < M"
  shows "answers_once M i v d (retry_tx i v now d)"
proof (rule guarded [where sts = "[WfQueued, WfParked]"])
  fix w t assume l: "live_at i d w t" "wf_version w = v" "wf_status w \<in> set [WfQueued, WfParked]"
    "workflow_with_task i d = Some (w, t)" "both_guards (Some (w, t)) (workflow_guard (Some w) v [WfQueued, WfParked]) = None"
  note ok = workflow_okD [OF inv liveD(1) [OF l(1)]]
  let ?f = "\<lambda>x. (clear_failure x)\<lparr>wf_status := WfQueued, wf_version := v + 1, wf_updated_at := now\<rparr>"
  have chk: "wf_check (?f w)"
    by (rule clear_failure_check [OF ok(1)]) (use l(2,3) wf_checkD(1) [OF ok(1)] in simp_all)
  have step: "workflow_step (view_of w) (view_of (?f w))"
    using l(2,3) by (simp add: view_of_def) (blast intro: workflow_step.release)
  obtain d1 d2 where u: "update_workflows (at_version i v) ?f d = Inr (1, d1)"
    and ev: "wf_event i ''retry_scheduled'' (v + 1) (wf_task_version w) (wf_phase w) WfQueued now d1 = Inr d2"
    and a: "\<And>r. xr_disposition r = WdApplied \<Longrightarrow> xr_version r = Some (v + 1) \<Longrightarrow>
      answers_once M i v d (Inr (r, d2))"
    by (rule live_write [where f = ?f and hit = "at_version i v" and kind = "''retry_scheduled''" and ph = "wf_phase w"
          and st = WfQueued and tv = "wf_task_version w" and now = now and expected = v, OF inv l(1)])
      (use chk step l(2) M liveD(2) [OF l(1)] in \<open>simp_all add: at_version_def PHASE_OPENERS_def attempts_left_0\<close>)
  show "answers_once M i v d (retry_tx i v now d)" by (simp add: retry_tx_def Let_def l(4,5) u ev a)
qed (simp add: retry_tx_def Let_def answers_once_refused)

end
