(* ===== verification/ExecRuns.thy ===== *)
theory ExecRuns
  imports ExecOps
begin

text \<open>
  The operations that meet several workflows or two tables: the pass that cancels stale workflows,
  the recovery of leases that ended, the bounded scan of a claim, scheduling, and the result of a
  run.  Each keeps the invariant and moves every workflow along the machine.
\<close>

section \<open>Several steps\<close>

text \<open>Every workflow is still there, some steps of the machine further.\<close>

definition runs_on :: "db \<Rightarrow> db \<Rightarrow> bool" where
  "runs_on d d' \<longleftrightarrow> (\<forall>i w. workflow_of i d = Some w \<longrightarrow>
     (\<exists>w'. workflow_of i d' = Some w' \<and> workflow_step\<^sup>*\<^sup>* (view_of w) (view_of w')))"

lemma runs_on_refl [simp]: "runs_on d d"
  by (auto simp: runs_on_def)

lemma runs_on_same: "workflows d' = workflows d \<Longrightarrow> runs_on d d'"
  by (auto simp: runs_on_def)

lemma runs_on_trans:
  assumes "runs_on a b" and "runs_on b c"
  shows "runs_on a c"
  unfolding runs_on_def
proof (intro allI impI)
  fix i w assume "workflow_of i a = Some w"
  then obtain w1 where 1: "workflow_of i b = Some w1" "workflow_step\<^sup>*\<^sup>* (view_of w) (view_of w1)"
    using assms(1) unfolding runs_on_def by blast
  obtain w2 where "workflow_of i c = Some w2" "workflow_step\<^sup>*\<^sup>* (view_of w1) (view_of w2)"
    using assms(2) 1(1) unfolding runs_on_def by blast
  then show "\<exists>w'. workflow_of i c = Some w' \<and> workflow_step\<^sup>*\<^sup>* (view_of w) (view_of w')"
    using 1(2) by (meson rtranclp_trans)
qed

lemma moves_runs_on:
  assumes "moves M i d d' w w'" and "workflow_step\<^sup>*\<^sup>* (view_of w) (view_of w')"
  shows "runs_on d d'"
  unfolding runs_on_def
proof (intro allI impI)
  fix k x assume x: "workflow_of k d = Some x"
  show "\<exists>w'. workflow_of k d' = Some w' \<and> workflow_step\<^sup>*\<^sup>* (view_of x) (view_of w')"
  proof (cases "k = i")
    case True
    then show ?thesis using assms x by (auto simp: moves_def)
  next
    case False
    then show ?thesis using assms(1) x by (auto simp: moves_def)
  qed
qed

lemma advances_runs_on: "advances M i d d' w w' \<Longrightarrow> runs_on d d'"
  using moves_runs_on [of M i d d' w w'] by (auto simp: advances_def)

lemma advancesD:
  assumes "advances M i d d' w w'"
  shows "exec_inv M d'" and "workflow_of i d' = Some w'" and "only_workflows d d'"
    and "k \<noteq> i \<Longrightarrow> workflow_of k d' = workflow_of k d"
  using assms by (auto simp: advances_def moves_def)

definition same_ids :: "db \<Rightarrow> db \<Rightarrow> bool" where
  "same_ids d d' \<longleftrightarrow> (\<forall>k. workflow_of k d' = None \<longleftrightarrow> workflow_of k d = None)"

lemma same_ids_trans: "same_ids a b \<Longrightarrow> same_ids b c \<Longrightarrow> same_ids a c"
  by (simp add: same_ids_def)

lemma advances_same_ids:
  assumes "advances M i d d' w w'"
  shows "same_ids d d'"
  unfolding same_ids_def
proof
  fix k
  have "workflow_of i d = Some w" "workflow_of i d' = Some w'" using assms by (simp_all add: advances_def moves_def)
  then show "workflow_of k d' = None \<longleftrightarrow> workflow_of k d = None"
    using advancesD(4) [OF assms, of k] by (cases "k = i") simp_all
qed

text \<open>
  A loop over workflows that were read before it, each body of which moves its own row: every row is
  met as it was read, so no body fails and every row is moved.
\<close>

lemma each_advances:
  assumes "exec_inv M d" and "distinct (map wf_task_id rows)"
    and "\<And>w. w \<in> set rows \<Longrightarrow> workflow_of (wf_task_id w) d = Some w"
    and body: "\<And>w d1. w \<in> set rows \<Longrightarrow> exec_inv M d1 \<Longrightarrow> only_workflows d d1 \<Longrightarrow>
      workflow_of (wf_task_id w) d1 = Some w \<Longrightarrow>
      \<exists>d2 w'. f w d1 = Inr d2 \<and> advances M (wf_task_id w) d1 d2 w w' \<and> R w w'"
  obtains d' where "each f rows d = Inr d'" and "exec_inv M d'" and "only_workflows d d'" and "runs_on d d'"
    and "same_ids d d'"
    and "\<And>w. w \<in> set rows \<Longrightarrow> \<exists>w'. workflow_of (wf_task_id w) d' = Some w' \<and> R w w'"
    and "\<And>k. k \<notin> wf_task_id ` set rows \<Longrightarrow> workflow_of k d' = workflow_of k d"
  using assms
proof (induction rows arbitrary: d thesis)
  case Nil
  show ?case by (rule Nil.prems(1) [of d]) (simp_all add: Nil.prems(2) same_ids_def)
next
  case (Cons w rows)
  obtain d2 w' where f: "f w d = Inr d2" and a: "advances M (wf_task_id w) d d2 w w'" and r: "R w w'"
    using Cons.prems(5) [of w d] Cons.prems(2) Cons.prems(4) [of w] by auto
  note ad = advancesD [OF a]
  have nin: "wf_task_id w \<notin> wf_task_id ` set rows" using Cons.prems(3) by auto
  have rows: "workflow_of (wf_task_id x) d2 = Some x" if x: "x \<in> set rows" for x
  proof -
    have "wf_task_id x \<noteq> wf_task_id w" using nin x by (metis image_eqI)
    then show ?thesis using ad(4) Cons.prems(4) [of x] x by simp
  qed
  obtain d' where e: "each f rows d2 = Inr d'" "exec_inv M d'" "only_workflows d2 d'" "runs_on d2 d'"
    "same_ids d2 d'"
    and rr: "\<And>x. x \<in> set rows \<Longrightarrow> \<exists>w'. workflow_of (wf_task_id x) d' = Some w' \<and> R x w'"
    and oth: "\<And>k. k \<notin> wf_task_id ` set rows \<Longrightarrow> workflow_of k d' = workflow_of k d2"
  proof (rule Cons.IH [of d2])
    show "\<exists>d3 w'. f x d1 = Inr d3 \<and> advances M (wf_task_id x) d1 d3 x w' \<and> R x w'"
      if "x \<in> set rows" "exec_inv M d1" "only_workflows d2 d1" "workflow_of (wf_task_id x) d1 = Some x" for x d1
      using Cons.prems(5) [of x d1] that only_workflows_trans [OF ad(3)] by simp
  qed (use ad(1) rows Cons.prems(3) in auto)
  show ?case
  proof (rule Cons.prems(1))
    show "each f (w # rows) d = Inr d'" using f e(1) by simp
    show "only_workflows d d'" by (rule only_workflows_trans [OF ad(3) e(3)])
    show "runs_on d d'" by (rule runs_on_trans [OF advances_runs_on [OF a] e(4)])
    show "same_ids d d'" by (rule same_ids_trans [OF advances_same_ids [OF a] e(5)])
    show "\<exists>w'. workflow_of (wf_task_id x) d' = Some w' \<and> R x w'" if "x \<in> set (w # rows)" for x
      using that rr oth [OF nin] ad(2) r by auto
    show "workflow_of k d' = workflow_of k d" if "k \<notin> wf_task_id ` set (w # rows)" for k
      using that oth [of k] ad(4) [of k] by auto
  qed (rule e(2))
qed

lemma read_rows:
  assumes "unique_key wf_task_id (workflows d)" and "rows = sort_key wf_task_id (filter P (workflows d))"
  shows "distinct (map wf_task_id rows)" and "\<And>w. w \<in> set rows \<Longrightarrow> workflow_of (wf_task_id w) d = Some w \<and> P w"
    and "\<And>w. w \<in> set rows \<longleftrightarrow> w \<in> set (workflows d) \<and> P w"
proof -
  have "inj_on wf_task_id (set (workflows d))" "distinct (workflows d)"
    using assms(1) by (simp_all add: unique_key_def distinct_map)
  then show "distinct (map wf_task_id rows)" by (auto simp: assms(2) distinct_map inj_on_def)
  show "w \<in> set rows \<longleftrightarrow> w \<in> set (workflows d) \<and> P w" for w by (simp add: assms(2))
  show "workflow_of (wf_task_id w) d = Some w \<and> P w" if "w \<in> set rows" for w
    using that row_of_unique [OF assms(1), of "wf_task_id w" w] by (auto simp: assms(2))
qed

text \<open>A pass reads the rows that satisfy \<open>P\<close> and moves each of them out of \<open>P\<close>.\<close>

lemma pass_ok:
  assumes inv: "exec_inv M d"
    and body: "\<And>w d1. P w \<Longrightarrow> exec_inv M d1 \<Longrightarrow> workflow_of (wf_task_id w) d1 = Some w \<Longrightarrow>
      \<exists>d2 w'. f w d1 = Inr d2 \<and> advances M (wf_task_id w) d1 d2 w w' \<and> \<not> P w' \<and> Q w'"
  obtains d' where "each f (sort_key wf_task_id (filter P (workflows d))) d = Inr d'" and "exec_inv M d'"
    and "only_workflows d d'" and "runs_on d d'" and "same_ids d d'"
    and "\<And>w. w \<in> set (workflows d') \<Longrightarrow> \<not> P w"
    and "\<And>i w. workflow_of i d = Some w \<Longrightarrow> P w \<Longrightarrow> \<exists>w'. workflow_of i d' = Some w' \<and> Q w'"
    and "\<And>i w. workflow_of i d = Some w \<Longrightarrow> \<not> P w \<Longrightarrow> workflow_of i d' = Some w"
proof -
  let ?rows = "sort_key wf_task_id (filter P (workflows d))"
  note rr = read_rows [where P = P, OF exec_invD(1) [OF inv] refl]
  obtain d' where e: "each f ?rows d = Inr d'" "exec_inv M d'" "only_workflows d d'" "runs_on d d'"
    "same_ids d d'"
    and fin: "\<And>w. w \<in> set ?rows \<Longrightarrow> \<exists>w'. workflow_of (wf_task_id w) d' = Some w' \<and> \<not> P w' \<and> Q w'"
    and oth: "\<And>k. k \<notin> wf_task_id ` set ?rows \<Longrightarrow> workflow_of k d' = workflow_of k d"
  proof (rule each_advances [where R = "\<lambda>w w'. \<not> P w' \<and> Q w'" and f = f, OF inv rr(1)])
    fix w d1 assume "w \<in> set ?rows" "exec_inv M d1" "workflow_of (wf_task_id w) d1 = Some w"
    then show "\<exists>d2 w'. f w d1 = Inr d2 \<and> advances M (wf_task_id w) d1 d2 w w' \<and> \<not> P w' \<and> Q w'"
      using body rr(2) [of w] by blast
  qed (use rr(2) in blast)+
  have "\<not> P w" if w: "w \<in> set (workflows d')" for w
  proof
    assume s: "P w"
    have wo: "workflow_of (wf_task_id w) d' = Some w"
      using row_of_unique [OF exec_invD(1) [OF e(2)], of "wf_task_id w" w] w by simp
    show False
    proof (cases "wf_task_id w \<in> wf_task_id ` set ?rows")
      case True
      then obtain x where "x \<in> set ?rows" "wf_task_id x = wf_task_id w" by (metis imageE)
      then show False using fin [of x] wo s by auto
    next
      case False
      then have "workflow_of (wf_task_id w) d = Some w" using oth wo by simp
      then have "w \<in> set ?rows" using s by (auto dest: find_SomeD)
      then show False using False by blast
    qed
  qed
  moreover have "workflow_of i d' = Some w" if w: "workflow_of i d = Some w" "\<not> P w" for i w
  proof -
    have "i \<notin> wf_task_id ` set ?rows"
    proof
      assume "i \<in> wf_task_id ` set ?rows"
      then obtain x where x: "x \<in> set ?rows" "wf_task_id x = i" by (metis imageE)
      then have "x = w" using rr(2) [OF x(1)] w(1) by simp
      then show False using x(1) w(2) by simp
    qed
    then show ?thesis using oth w(1) by simp
  qed
  moreover have "\<exists>w'. workflow_of i d' = Some w' \<and> Q w'" if w: "workflow_of i d = Some w" "P w" for i w
  proof -
    have "w \<in> set ?rows" "wf_task_id w = i" using w by (auto dest: find_SomeD)
    then show ?thesis using fin [of w] by blast
  qed
  ultimately show thesis using that e by blast
qed

section \<open>The stale pass\<close>

lemma cancel_workflow_ok:
  assumes inv: "exec_inv M d" and w: "workflow_of i d = Some w"
    and st: "wf_status w \<notin> {WfCompleted, WfCancelled}"
  shows "\<exists>d2 w'. cancel_workflow now w d = Inr d2 \<and> advances M i d d2 w w' \<and> wf_status w' = WfCancelled"
proof -
  note ok = workflow_okD [OF inv w]
  have wid: "wf_task_id w = i" using w by (rule row_of_key)
  let ?f = "\<lambda>x. (clear_claim x)\<lparr>wf_status := WfCancelled, wf_version := wf_version w + 1,
             wf_next_attempt_at := None, wf_parked_at := None, wf_updated_at := now, wf_completed_at := Some now\<rparr>"
  have chk: "wf_check (?f w)" using ok(1) by (auto simp: wf_check_def clear_claim_def)
  have step: "workflow_step (view_of w) (view_of (?f w))"
    using st by (simp add: view_of_def workflow_step.cancel)
  obtain d1 d2 where u: "update_workflows (at_version i (wf_version w)) ?f d = Inr (1, d1)"
    and ev: "wf_event i ''cancelled'' (wf_version w + 1) (wf_task_version w) (wf_phase w) WfCancelled now d1 = Inr d2"
    and m: "moves M i d d2 w (?f w)" "only_workflows d d2"
    by (rule write_ok [where f = ?f and hit = "at_version i (wf_version w)" and kind = "''cancelled''" and now = now
          and ph = "wf_phase w" and st = WfCancelled and tv = "wf_task_version w" and wv = "wf_version w + 1", OF inv w])
      (use chk wid wf_checkD(2) [OF ok(1)] in \<open>simp_all add: at_version_def PHASE_OPENERS_def attempts_left_def\<close>)
  have "cancel_workflow now w d = Inr d2" using u ev by (simp add: cancel_workflow_def Let_def wid)
  moreover have "advances M i d d2 w (?f w)" using m step by (simp add: advances_def)
  ultimately show ?thesis by (intro exI conjI) (assumption, assumption, simp)
qed

lemma workflow_stale_frame:
  assumes "only_workflows d d'"
  shows "workflow_stale d' w = workflow_stale d w"
proof -
  note fr = only_workflows_frame [OF assms]
  have "source_withdrawn k d' = source_withdrawn k d" for k by (simp add: source_withdrawn_def fr)
  then show ?thesis by (simp add: workflow_stale_def fr cong: option.case_cong)
qed

lemma cancel_stale_workflows_ok:
  assumes inv: "exec_inv M d"
  obtains d' where "cancel_stale_workflows now d = Inr d'" and "exec_inv M d'" and "only_workflows d d'"
    and "runs_on d d'" and "\<And>w. w \<in> set (workflows d') \<Longrightarrow> \<not> workflow_stale d' w"
    and "\<And>i w. workflow_of i d = Some w \<Longrightarrow> \<not> workflow_stale d w \<Longrightarrow> workflow_of i d' = Some w"
    and "\<And>i w. workflow_of i d = Some w \<Longrightarrow> workflow_stale d w \<Longrightarrow>
      \<exists>w'. workflow_of i d' = Some w' \<and> wf_status w' = WfCancelled"
    and "same_ids d d'"
proof -
  obtain d' where e: "each (cancel_workflow now) (sort_key wf_task_id (filter (workflow_stale d) (workflows d))) d = Inr d'"
      "exec_inv M d'" "only_workflows d d'" "runs_on d d'" "same_ids d d'"
      "\<And>w. w \<in> set (workflows d') \<Longrightarrow> \<not> workflow_stale d w"
      "\<And>i w. workflow_of i d = Some w \<Longrightarrow> \<not> workflow_stale d w \<Longrightarrow> workflow_of i d' = Some w"
      "\<And>i w. workflow_of i d = Some w \<Longrightarrow> workflow_stale d w \<Longrightarrow>
        \<exists>w'. workflow_of i d' = Some w' \<and> wf_status w' = WfCancelled"
  proof (rule pass_ok [where Q = "\<lambda>w'. wf_status w' = WfCancelled" and P = "workflow_stale d" and f = "cancel_workflow now", OF inv])
    fix w d1 assume w: "workflow_stale d w" "exec_inv M d1" "workflow_of (wf_task_id w) d1 = Some w"
    have "wf_status w \<notin> {WfCompleted, WfCancelled}" using w(1) by (simp add: workflow_stale_def)
    from cancel_workflow_ok [OF w(2,3) this, of now]
    show "\<exists>d2 w'. cancel_workflow now w d1 = Inr d2 \<and> advances M (wf_task_id w) d1 d2 w w' \<and> \<not> workflow_stale d w'
        \<and> wf_status w' = WfCancelled"
      by (auto simp: workflow_stale_def)
  qed (rule that; assumption)
  show thesis
    by (rule that [of d']) (use e workflow_stale_frame [OF e(3)] in \<open>simp_all add: cancel_stale_workflows_def\<close>)
qed

section \<open>Leases that ended\<close>

lemma recover_expired_ok:
  assumes inv: "exec_inv M d"
  obtains d' where "recover_expired M now d = Inr d'" and "exec_inv M d'" and "only_workflows d d'"
    and "runs_on d d'" and "same_ids d d'" and "\<And>w. w \<in> set (workflows d') \<Longrightarrow> \<not> lease_ended now w"
    and "\<And>i w. workflow_of i d = Some w \<Longrightarrow> \<not> lease_ended now w \<Longrightarrow> workflow_of i d' = Some w"
proof -
  let ?f = "\<lambda>w d. rbind (defer_failure M w ''claim_expired'' now (Some ''claim_expired'') None None d)
             (\<lambda>(r, d1). Inr d1)"
  obtain d' where e: "each ?f (sort_key wf_task_id (filter (lease_ended now) (workflows d))) d = Inr d'"
      "exec_inv M d'" "only_workflows d d'" "runs_on d d'" "same_ids d d'"
      "\<And>w. w \<in> set (workflows d') \<Longrightarrow> \<not> lease_ended now w"
      "\<And>i w. workflow_of i d = Some w \<Longrightarrow> \<not> lease_ended now w \<Longrightarrow> workflow_of i d' = Some w"
  proof (rule pass_ok [where Q = "\<lambda>_. True" and P = "lease_ended now" and f = ?f, OF inv])
    fix w d1 assume w: "lease_ended now w" "exec_inv M d1" "workflow_of (wf_task_id w) d1 = Some w"
    have run: "wf_status w = WfRunning" using w(1) by (simp add: lease_ended_def)
    have c: "wf_failure_count w < int M" using workflow_okD(2) [OF w(2,3)] run by (simp add: attempts_left_def)
    obtain st n wake parked kind where p: "failure_plan M w ''claim_expired'' now (Some ''claim_expired'') None d1
        = (st, n, wake, parked, kind)" by (cases "failure_plan M w ''claim_expired'' now (Some ''claim_expired'') None d1")
    have st: "st \<in> {WfQueued, WfParked}"
      by (rule failure_plan_cases(1) [OF p wf_checkD(3) [OF workflow_okD(1) [OF w(2,3)]] _ c]) simp
    obtain d2 where "defer_failure M w ''claim_expired'' now (Some ''claim_expired'') None None d1
        = Inr ((wf_applied w (wf_version w + 1) st (wf_phase w))\<lparr>xr_next_attempt_at := wake\<rparr>, d2)"
      and "advances M (wf_task_id w) d1 d2 w (deferred_row st n wake parked ''claim_expired'' None None (wf_version w + 1) now w)"
      by (rule defer_failure_ok [OF w(2,3) _ _ _ _ _ c p, of None])
        (use run in \<open>simp_all add: FAILURE_REASONS_def exit_code_ok_def\<close>)
    then show "\<exists>d2 w'. ?f w d1 = Inr d2 \<and> advances M (wf_task_id w) d1 d2 w w' \<and> \<not> lease_ended now w' \<and> True"
      using st by (auto simp: lease_ended_def)
  qed (rule that; assumption)
  show thesis by (rule that [of d']) (use e in \<open>simp_all add: recover_expired_def\<close>)
qed

section \<open>Conditions\<close>

text \<open>What a pending condition asks for.\<close>

definition met :: "int \<Rightarrow> time \<Rightarrow> db \<Rightarrow> condition_row \<Rightarrow> bool" where
  "met tv now d c \<longleftrightarrow> sc_task_version c = tv
     \<and> (case sc_kind c of NotBefore t \<Rightarrow> t \<le> now
        | AfterTaskCompleted dep \<Rightarrow> map_option tk_status (task_of dep d) = Some TaskDone)"

definition pending_condition :: "rowid \<Rightarrow> condition_row \<Rightarrow> bool" where
  "pending_condition i c \<longleftrightarrow> sc_task_id c = i \<and> sc_state c \<in> {CondActive, CondNeedsReview}"

lemma condition_verdict_met:
  "snd (condition_verdict tv now d c) = met tv now d c"
  "met tv now d c \<Longrightarrow> fst (condition_verdict tv now d c) = Some CondSatisfied"
  by (auto simp: condition_verdict_def met_def split: condition_kind.splits option.splits task_status.splits)

lemma set_condition_frame [simp]:
  "tasks (set_condition_state c s now d) = tasks d" "workflows (set_condition_state c s now d) = workflows d"
  "workflow_events (set_condition_state c s now d) = workflow_events d"
  "bindings (set_condition_state c s now d) = bindings d" "inbox (set_condition_state c s now d) = inbox d"
  "lifecycles (set_condition_state c s now d) = lifecycles d"
  by (simp_all add: set_condition_state_def)

lemma met_frame: "tasks d' = tasks d \<Longrightarrow> met tv now d' c = met tv now d c"
  by (simp add: met_def cong: condition_kind.case_cong)

text \<open>The loop answers whether every condition is met, and touches nothing but the conditions.\<close>

lemma evaluate_conditions_met:
  "fst (evaluate_conditions tv now cs d) \<longleftrightarrow> (\<forall>c \<in> set cs. met tv now d c)"
proof (induction cs arbitrary: d)
  case (Cons c cs)
  obtain st go where v: "condition_verdict tv now d c = (st, go)" by (cases "condition_verdict tv now d c")
  have go: "go = met tv now d c" using condition_verdict_met(1) [of tv now d c] v by simp
  let ?d1 = "case st of Some s \<Rightarrow> if s = sc_state c then d else set_condition_state c s now d | None \<Rightarrow> d"
  have "tasks ?d1 = tasks d" by (simp split: option.split)
  then have "met tv now ?d1 x = met tv now d x" for x by (rule met_frame)
  then show ?case using Cons.IH [of ?d1] v go by (simp add: Let_def split_beta)
qed simp

definition same_but_conditions :: "db \<Rightarrow> db \<Rightarrow> bool" where
  "same_but_conditions d d' \<longleftrightarrow> tasks d' = tasks d \<and> workflows d' = workflows d
     \<and> workflow_events d' = workflow_events d \<and> bindings d' = bindings d \<and> inbox d' = inbox d
     \<and> lifecycles d' = lifecycles d"

lemma evaluate_conditions_frame: "same_but_conditions d (snd (evaluate_conditions tv now cs d))"
proof (induction cs arbitrary: d)
  case (Cons c cs)
  obtain st go where v: "condition_verdict tv now d c = (st, go)" by (cases "condition_verdict tv now d c")
  let ?d1 = "case st of Some s \<Rightarrow> if s = sc_state c then d else set_condition_state c s now d | None \<Rightarrow> d"
  have "same_but_conditions d ?d1" by (simp add: same_but_conditions_def split: option.split)
  then show ?case using Cons.IH [of ?d1] v by (simp add: Let_def split_beta same_but_conditions_def)
qed (simp add: same_but_conditions_def)

text \<open>When the loop lets the task go, every condition it read is satisfied afterwards.\<close>

lemma evaluate_conditions_satisfies:
  assumes "fst (evaluate_conditions tv now cs d)" and "\<forall>c \<in> set cs. sc_state c \<noteq> CondSatisfied"
  shows "conditions (snd (evaluate_conditions tv now cs d)) =
    map (\<lambda>x. if sc_id x \<in> sc_id ` set cs then x\<lparr>sc_state := CondSatisfied, sc_updated_at := now\<rparr> else x) (conditions d)"
  using assms
proof (induction cs arbitrary: d)
  case (Cons c cs)
  have m: "met tv now d c" using Cons.prems(1) evaluate_conditions_met [of tv now "c # cs" d] by simp
  have v: "condition_verdict tv now d c = (Some CondSatisfied, True)"
    using condition_verdict_met [of tv now d c] m by (simp add: prod_eq_iff)
  let ?d1 = "set_condition_state c CondSatisfied now d"
  have go: "fst (evaluate_conditions tv now cs ?d1)"
    using Cons.prems v by (simp add: Let_def split_beta split: if_splits)
  show ?case using Cons.IH [OF go] Cons.prems v
    by (auto simp: Let_def split_beta set_condition_state_def update_where_def)
qed simp

lemma released_task_has_no_pending_condition:
  assumes "evaluate_task_conditions i tv now d = (True, d')" and "c \<in> set (conditions d')"
  shows "\<not> pending_condition i c"
proof
  assume p: "pending_condition i c"
  let ?cs = "sort_key sc_id (filter (\<lambda>c. sc_task_id c = i \<and> sc_state c \<in> {CondActive, CondNeedsReview}) (conditions d))"
  have e: "evaluate_conditions tv now ?cs d = (True, d')" using assms(1) by (simp add: evaluate_task_conditions_def)
  have "conditions d' = map (\<lambda>x. if sc_id x \<in> sc_id ` set ?cs
      then x\<lparr>sc_state := CondSatisfied, sc_updated_at := now\<rparr> else x) (conditions d)"
    using evaluate_conditions_satisfies [of tv now ?cs d] e by fastforce
  then obtain x where x: "x \<in> set (conditions d)" "c = (if sc_id x \<in> sc_id ` set ?cs
      then x\<lparr>sc_state := CondSatisfied, sc_updated_at := now\<rparr> else x)" using assms(2) by auto
  show False
  proof (cases "sc_id x \<in> sc_id ` set ?cs")
    case True
    then show False using p x(2) by (simp add: pending_condition_def)
  next
    case False
    then have "x \<in> set ?cs" using p x by (simp add: pending_condition_def)
    then show False using False by blast
  qed
qed

section \<open>The scan\<close>

lemma runs_on_conditions: "same_but_conditions d d' \<Longrightarrow> runs_on d d'"
  by (rule runs_on_same) (simp add: same_but_conditions_def)

lemma exec_inv_conditions: "same_but_conditions d d' \<Longrightarrow> exec_inv M d' = exec_inv M d"
  by (simp add: same_but_conditions_def exec_inv_def)

text \<open>The workflows that hold a slot.\<close>

definition slot_ids :: "db \<Rightarrow> rowid set" where
  "slot_ids d = {i. \<exists>w. workflow_of i d = Some w \<and> wf_status w = WfRunning \<and> current_task d w}"

lemma running_slots_card:
  assumes "unique_key wf_task_id (workflows d)"
  shows "running_slots d = card (slot_ids d)" and "finite (slot_ids d)"
proof -
  let ?ws = "filter (\<lambda>w. wf_status w = WfRunning \<and> current_task d w) (workflows d)"
  have eq: "slot_ids d = wf_task_id ` set ?ws"
    using row_of_unique [OF assms] by (auto simp: slot_ids_def)
  have "distinct (map wf_task_id ?ws)" using assms by (simp add: unique_key_def distinct_map_filter)
  then have "card (set (map wf_task_id ?ws)) = length (map wf_task_id ?ws)" by (rule distinct_card)
  then show "running_slots d = card (slot_ids d)" by (simp add: running_slots_def eq)
  show "finite (slot_ids d)" by (simp add: eq)
qed

text \<open>What a claim may change before it takes its row.\<close>

definition prepares :: "nat \<Rightarrow> db \<Rightarrow> db \<Rightarrow> bool" where
  "prepares M d d' \<longleftrightarrow> exec_inv M d' \<and> runs_on d d' \<and> tasks d' = tasks d \<and> bindings d' = bindings d
     \<and> inbox d' = inbox d \<and> lifecycles d' = lifecycles d"

lemma prepares_trans: "prepares M a b \<Longrightarrow> prepares M b c \<Longrightarrow> prepares M a c"
  using runs_on_trans [of a b c] by (simp add: prepares_def)

lemma prepares_conditions: "exec_inv M d \<Longrightarrow> same_but_conditions d d' \<Longrightarrow> prepares M d d'"
  using runs_on_conditions [of d d'] exec_inv_conditions [of d d' M] by (simp add: prepares_def same_but_conditions_def)

lemma prepares_only: "exec_inv M d' \<Longrightarrow> runs_on d d' \<Longrightarrow> only_workflows d d' \<Longrightarrow> prepares M d d'"
  using only_workflows_frame [of d d'] by (simp add: prepares_def)

lemma current_task_frame: "tasks d' = tasks d \<Longrightarrow> current_task d' w = current_task d w"
  by (simp add: current_task_def)

lemma scan_ok:
  assumes "exec_inv (ec_max_attempts cfg) d" and "distinct (map wf_task_id rows)"
    and "\<And>w. w \<in> set rows \<Longrightarrow> workflow_of (wf_task_id w) d = Some w"
    and "\<And>w. w \<in> set rows \<Longrightarrow> wf_status w \<in> {WfQueued, WfParked}"
  obtains found d' where "scan cfg now rows d = Inr (found, d')" and "prepares (ec_max_attempts cfg) d d'"
    and "slot_ids d' \<subseteq> slot_ids d"
    and "\<And>w p. found = Some (w, p) \<Longrightarrow> w \<in> set rows \<and> workflow_of (wf_task_id w) d' = Some w
      \<and> resolve_profile cfg w = Some p \<and> (\<forall>c \<in> set (conditions d'). \<not> pending_condition (wf_task_id w) c)"
  using assms
proof (induction rows arbitrary: d thesis)
  case Nil
  show ?case by (rule Nil.prems(1) [of None d]) (simp_all add: Nil.prems(2) prepares_def)
next
  case (Cons w rows)
  let ?M = "ec_max_attempts cfg"
  have nin: "wf_task_id w \<notin> wf_task_id ` set rows" using Cons.prems(3) by auto
  have wst: "wf_status w \<in> {WfQueued, WfParked}" by (rule Cons.prems(5)) simp
  obtain go d1 where e: "evaluate_task_conditions (wf_task_id w) (wf_task_version w) now d = (go, d1)"
    by (cases "evaluate_task_conditions (wf_task_id w) (wf_task_version w) now d")
  have s: "same_but_conditions d d1"
    using evaluate_conditions_frame [of d "wf_task_version w" now] e
    unfolding evaluate_task_conditions_def by (metis snd_conv)
  have p1: "prepares ?M d d1" by (rule prepares_conditions [OF Cons.prems(2) s])
  have sl1: "slot_ids d1 = slot_ids d"
    using s current_task_frame [of d1 d] by (simp add: slot_ids_def same_but_conditions_def)
  have of1: "workflow_of k d1 = workflow_of k d" for k using s by (simp add: same_but_conditions_def)
  have wd1: "workflow_of (wf_task_id w) d1 = Some w" using Cons.prems(4) [of w] of1 by simp
  have rest: thesis
    if d2: "prepares ?M d d2" "slot_ids d2 \<subseteq> slot_ids d"
      "\<And>k. k \<noteq> wf_task_id w \<Longrightarrow> workflow_of k d2 = workflow_of k d"
      "scan cfg now (w # rows) d = scan cfg now rows d2" for d2
  proof -
    have rows: "workflow_of (wf_task_id x) d2 = Some x" if x: "x \<in> set rows" for x
    proof -
      have "wf_task_id x \<noteq> wf_task_id w" using nin x by (metis image_eqI)
      then show ?thesis using d2(3) Cons.prems(4) [of x] x by simp
    qed
    have i2: "exec_inv ?M d2" using d2(1) by (simp add: prepares_def)
    obtain found d' where f: "scan cfg now rows d2 = Inr (found, d')" "prepares ?M d2 d'" "slot_ids d' \<subseteq> slot_ids d2"
      "\<And>w p. found = Some (w, p) \<Longrightarrow> w \<in> set rows \<and> workflow_of (wf_task_id w) d' = Some w
      \<and> resolve_profile cfg w = Some p \<and> (\<forall>c \<in> set (conditions d'). \<not> pending_condition (wf_task_id w) c)"
      by (rule Cons.IH [of d2]) (use i2 Cons.prems(3,5) rows in auto)
    show thesis
      by (rule Cons.prems(1) [of found d'])
        (use f d2 prepares_trans [OF d2(1) f(2)] in auto)
  qed
  show ?case
  proof (cases go)
    case False
    show ?thesis by (rule rest [of d1]) (use e False p1 sl1 of1 in simp_all)
  next
    case True
    show ?thesis
    proof (cases "resolve_profile cfg w")
      case (Some p)
      have "\<forall>c \<in> set (conditions d1). \<not> pending_condition (wf_task_id w) c"
        using released_task_has_no_pending_condition [of "wf_task_id w" "wf_task_version w" now d d1] e True by simp
      then show ?thesis
        by (intro Cons.prems(1) [of "Some (w, p)" d1]) (use e True Some p1 sl1 wd1 in auto)
    next
      case None
      have i1: "exec_inv ?M d1" using p1 by (simp add: prepares_def)
      obtain st n wake parked kind where fp: "failure_plan ?M w ''startup_failed'' now None None d1
        = (st, n, wake, parked, kind)" by (cases "failure_plan ?M w ''startup_failed'' now None None d1")
      have no: "is_timeout ''startup_failed'' None \<Longrightarrow> wf_failure_count w < int ?M" by (simp add: is_timeout_def)
      have st: "st \<in> {WfQueued, WfParked}"
        by (rule failure_plan_cases(1) [OF fp wf_checkD(3) [OF workflow_okD(1) [OF i1 wd1]] _ no]) simp_all
      obtain d2 where df: "defer_failure ?M w ''startup_failed'' now None None None d1
          = Inr ((wf_applied w (wf_version w + 1) st (wf_phase w))\<lparr>xr_next_attempt_at := wake\<rparr>, d2)"
        and a: "advances ?M (wf_task_id w) d1 d2 w (deferred_row st n wake parked ''startup_failed'' None None (wf_version w + 1) now w)"
        by (rule defer_failure_ok [OF i1 wd1 _ _ _ _ _ no fp, of None])
          (use wst in \<open>auto simp: FAILURE_REASONS_def exit_code_ok_def\<close>)
      note ad = advancesD [OF a]
      have p2: "prepares ?M d d2"
        by (rule prepares_trans [OF p1 prepares_only [OF ad(1) advances_runs_on [OF a] ad(3)]])
      have sl2: "slot_ids d2 \<subseteq> slot_ids d1"
      proof
        fix k assume "k \<in> slot_ids d2"
        then obtain x where x: "workflow_of k d2 = Some x" "wf_status x = WfRunning" "current_task d2 x"
          by (auto simp: slot_ids_def)
        have "k \<noteq> wf_task_id w" using x ad(2) st by auto
        then show "k \<in> slot_ids d1"
          using x ad(4) current_task_frame [OF only_workflows_frame(1) [OF ad(3)]] by (auto simp: slot_ids_def)
      qed
      show ?thesis
        by (rule rest [of d2]) (use e True None df p2 sl2 sl1 ad(4) of1 in auto)
    qed
  qed
qed

section \<open>The claim\<close>

lemma in_queue:
  assumes "w \<in> set (queue phases now d)"
  shows "w \<in> set (workflows d)" and "runnable now w" and "wf_phase w \<in> set phases" and "current_task d w"
  using in_set_takeD [OF assms [unfolded queue_def]] by simp_all

lemma queue_distinct:
  assumes "unique_key wf_task_id (workflows d)"
  shows "distinct (map wf_task_id (queue phases now d))"
proof -
  let ?ws = "filter (\<lambda>w. runnable now w \<and> wf_phase w \<in> set phases \<and> current_task d w) (workflows d)"
  have "distinct (map wf_task_id ?ws)" using assms by (simp add: unique_key_def distinct_map_filter)
  then have "distinct ?ws" and inj: "inj_on wf_task_id (set ?ws)" by (simp_all add: distinct_map)
  then show ?thesis
    unfolding queue_def take_map [symmetric]
    by (intro distinct_take) (simp add: distinct_map)
qed

definition phase_ok :: "registry \<Rightarrow> workflow_row \<Rightarrow> profile \<Rightarrow> bool" where
  "phase_ok rg w p \<longleftrightarrow> p \<in> set (rg_profiles rg @ rg_historical rg) \<and> wf_profile_id w = Some (pr_id p)
     \<and> wf_profile_revision w = Some (pr_revision p) \<and> wf_phase w \<in> set (pr_phases p)"

lemma resolve_profile_ok: "resolve_profile cfg w = Some p \<Longrightarrow> phase_ok (ec_registry cfg) w p"
  by (auto simp: resolve_profile_def registry_resolve_def phase_ok_def dest: find_SomeD split: option.splits if_splits)

text \<open>The granted claim and the row that holds it.\<close>

definition holds_claim :: "(string \<Rightarrow> string) \<Rightarrow> execution_claim \<Rightarrow> time \<Rightarrow> db \<Rightarrow> bool" where
  "holds_claim sha c now d \<longleftrightarrow> (\<exists>w t. live_at (ex_task_id c) d w t \<and> wf_status w = WfRunning
     \<and> wf_version w = ex_workflow_version c \<and> wf_task_version w = ex_task_version c
     \<and> wf_phase w = ex_phase c \<and> wf_claim_token_digest w = Some (sha (ex_token c))
     \<and> wf_claim_expires_at w = Some (ex_expires_at c) \<and> ex_expires_at c = now + ex_lease_seconds c
     \<and> ex_text c = tk_text t \<and> ex_due c = tk_due t)"

lemma take_claim_row [simp]:
  "wf_task_id (take_claim g now e x) = wf_task_id x" "wf_status (take_claim g now e x) = WfRunning"
  "wf_phase (take_claim g now e x) = wf_phase x" "wf_version (take_claim g now e x) = wf_version x + 1"
  "wf_task_version (take_claim g now e x) = wf_task_version x"
  "wf_claim_token_digest (take_claim g now e x) = Some g" "wf_claim_expires_at (take_claim g now e x) = Some e"
  by (simp_all add: take_claim_def)

lemma grant_claim_ok:
  assumes inv: "exec_inv M d" and M: "0 < M" and l: "live_at i d w t" and st: "wf_status w \<in> {WfQueued, WfParked}"
    and g: "length (sha token) = 64"
  obtains d' where "grant_claim sha token now w t p d0 d
      = Inr (Some (claim_of w t p token (now + pr_lease p)), d')"
    and "advances M i d d' w (take_claim (sha token) now (now + pr_lease p) w)"
proof -
  note w = liveD [OF l] note ok = workflow_okD [OF inv w(1)]
  let ?f = "take_claim (sha token) now (now + pr_lease p)"
  let ?hit = "\<lambda>x. at_version i (wf_version w) x \<and> wf_status x \<in> {WfQueued, WfParked}"
  have "wf_completed_at w = None" using ok(1) st by (auto simp: wf_check_def)
  then have chk: "wf_check (?f w)" using ok(1) g by (auto simp: wf_check_def take_claim_def)
  have att: "attempts_left M (?f w)" using ok(2) st M by (auto simp: attempts_left_def take_claim_def)
  have step: "workflow_step (view_of w) (view_of (?f w))"
    using st by (simp add: view_of_def workflow_step.claim)
  obtain d1 d2 where u: "update_workflows ?hit ?f d = Inr (1, d1)"
    and ev: "wf_event i ''claimed'' (wf_version w + 1) (wf_task_version w) (wf_phase w) WfRunning now d1 = Inr d2"
    and m: "moves M i d d2 w (?f w)" "only_workflows d d2"
    by (rule write_ok [where f = ?f and hit = ?hit and kind = "''claimed''" and now = now and ph = "wf_phase w"
          and st = WfRunning and tv = "wf_task_version w" and wv = "wf_version w + 1", OF inv w(1)])
      (use chk att st w(2) wf_checkD(2) [OF ok(1)] in \<open>simp_all add: at_version_def PHASE_OPENERS_def\<close>)
  have "grant_claim sha token now w t p d0 d = Inr (Some (claim_of w t p token (now + pr_lease p)), d2)"
    using u ev w(2) by (simp add: grant_claim_def Let_def)
  then show thesis using that m step by (simp add: advances_def)
qed

text \<open>Everything a claim guarantees of the row it takes.\<close>

definition claim_earned :: "exec_config \<Rightarrow> (string \<Rightarrow> string) \<Rightarrow> workflow_phase list \<Rightarrow> execution_claim \<Rightarrow> time
    \<Rightarrow> db \<Rightarrow> bool" where
  "claim_earned cfg sha phases c now d \<longleftrightarrow> holds_claim sha c now d
     \<and> (\<exists>w p. workflow_of (ex_task_id c) d = Some w \<and> wf_phase w \<in> set phases
         \<and> phase_ok (ec_registry cfg) w p \<and> pr_lease p = ex_lease_seconds c)
     \<and> \<not> source_withdrawn (ex_task_id c) d
     \<and> (\<forall>x \<in> set (conditions d). \<not> pending_condition (ex_task_id c) x)
     \<and> (case ec_slot_cap cfg of None \<Rightarrow> True | Some cap \<Rightarrow> int (running_slots d) \<le> cap)"

lemma source_withdrawn_frame:
  "bindings d' = bindings d \<Longrightarrow> lifecycles d' = lifecycles d \<Longrightarrow> source_withdrawn i d' = source_withdrawn i d"
  by (simp add: source_withdrawn_def)

text \<open>After the two passes the source of a task that can be claimed stands.\<close>

lemma claimed_source_stands:
  assumes "\<And>w. w \<in> set (workflows d1) \<Longrightarrow> \<not> workflow_stale d1 w" and "same_ids d1 d2"
    and "\<And>i w. workflow_of i d1 = Some w \<Longrightarrow> \<not> lease_ended now w \<Longrightarrow> workflow_of i d2 = Some w"
    and "workflow_of (wf_task_id w) d2 = Some w" and "wf_status w \<in> {WfQueued, WfParked}"
    and "task_of (wf_task_id w) d1 = Some t"
    and "source_withdrawn (wf_task_id w) d' = source_withdrawn (wf_task_id w) d1"
  shows "\<not> source_withdrawn (wf_task_id w) d'"
proof
  assume sw: "source_withdrawn (wf_task_id w) d'"
  obtain w1 where w1: "workflow_of (wf_task_id w) d1 = Some w1"
    using assms(2,4) by (metis same_ids_def not_None_eq)
  then have m: "w1 \<in> set (workflows d1)" "wf_task_id w1 = wf_task_id w" by (auto dest: find_SomeD)
  have "wf_status w1 \<notin> {WfCompleted, WfCancelled}"
  proof (cases "lease_ended now w1")
    case True
    then show ?thesis by (simp add: lease_ended_def)
  next
    case False
    then show ?thesis using assms(3) [OF w1] assms(4,5) by auto
  qed
  then have "workflow_stale d1 w1"
    using m(2) assms(6,7) sw task_of_mem [OF assms(6)] by (simp add: workflow_stale_def)
  then show False using assms(1) m(1) by blast
qed

lemma claim_tx_ok:
  assumes inv: "exec_inv (ec_max_attempts cfg) d" and M: "0 < ec_max_attempts cfg" and g: "length (sha token) = 64"
  obtains c d' where "claim_tx cfg sha phases token now d = Inr (c, d')" and "exec_inv (ec_max_attempts cfg) d'"
    and "runs_on d d'" and "tasks d' = tasks d"
    and "\<And>x. c = Some x \<Longrightarrow> claim_earned cfg sha phases x now d' \<and> ex_token x = token"
proof -
  let ?M = "ec_max_attempts cfg"
  obtain d1 where 1: "cancel_stale_workflows now d = Inr d1" "exec_inv ?M d1" "only_workflows d d1" "runs_on d d1"
      "\<And>w. w \<in> set (workflows d1) \<Longrightarrow> \<not> workflow_stale d1 w" by (rule cancel_stale_workflows_ok [OF inv]) blast
  obtain d2 where 2: "recover_expired ?M now d1 = Inr d2" "exec_inv ?M d2" "only_workflows d1 d2" "runs_on d1 d2" "same_ids d1 d2"
      "\<And>w. w \<in> set (workflows d2) \<Longrightarrow> \<not> lease_ended now w"
      "\<And>i w. workflow_of i d1 = Some w \<Longrightarrow> \<not> lease_ended now w \<Longrightarrow> workflow_of i d2 = Some w"
    by (rule recover_expired_ok [OF 1(2)]) blast
  have p12: "prepares ?M d d2"
    by (rule prepares_trans [OF prepares_only [OF 1(2,4,3)] prepares_only [OF 2(2,4,3)]])
  let ?full = "case ec_slot_cap cfg of None \<Rightarrow> False | Some cap \<Rightarrow> cap \<le> int (running_slots d2)"
  show thesis
  proof (cases ?full)
    case True
    have "claim_tx cfg sha phases token now d = Inr (None, d2)" using True by (simp add: claim_tx_def 1(1) 2(1))
    then show thesis using that p12 by (simp add: prepares_def)
  next
    case room: False
    have q: "workflow_of (wf_task_id w) d2 = Some w" "wf_status w \<in> {WfQueued, WfParked}"
      if "w \<in> set (queue phases now d2)" for w
      using in_queue [OF that] row_of_unique [OF exec_invD(1) [OF 2(2)], of "wf_task_id w" w]
      by (auto simp: runnable_def)
    obtain found d3 where s: "scan cfg now (queue phases now d2) d2 = Inr (found, d3)" "prepares ?M d2 d3"
      "slot_ids d3 \<subseteq> slot_ids d2"
      "\<And>w p. found = Some (w, p) \<Longrightarrow> w \<in> set (queue phases now d2) \<and> workflow_of (wf_task_id w) d3 = Some w
        \<and> resolve_profile cfg w = Some p \<and> (\<forall>c \<in> set (conditions d3). \<not> pending_condition (wf_task_id w) c)"
      by (rule scan_ok [OF 2(2) queue_distinct [OF exec_invD(1) [OF 2(2)]] q]) blast+
    have p3: "prepares ?M d d3" by (rule prepares_trans [OF p12 s(2)])
    show thesis
    proof (cases found)
      case None
      have "claim_tx cfg sha phases token now d = Inr (None, d3)" using room None by (simp add: claim_tx_def 1(1) 2(1) s(1))
      then show thesis using that p3 by (simp add: prepares_def)
    next
      case (Some x)
      obtain w p where x: "found = Some (w, p)" using Some by (cases x) simp
      note f = s(4) [OF x]
      let ?i = "wf_task_id w"
      have cur: "current_task d2 w" by (rule in_queue(4)) (use f in blast)
      then obtain t where t: "task_of ?i d2 = Some t" "tk_status t = TaskOpen" "tk_version t = wf_task_version w"
        by (auto simp: current_task_def split: option.splits)
      have ts: "tasks d3 = tasks d2" using s(2) by (simp add: prepares_def)
      have l: "live_at ?i d3 w t" using f t ts by (simp add: live_at_def)
      have wst: "wf_status w \<in> {WfQueued, WfParked}" using q(2) f by blast
      have i3: "exec_inv ?M d3" using p3 by (simp add: prepares_def)
      let ?c = "claim_of w t p token (now + pr_lease p)"
      let ?w' = "take_claim (sha token) now (now + pr_lease p) w"
      obtain d' where gr: "grant_claim sha token now w t p d d3 = Inr (Some ?c, d')" and a: "advances ?M ?i d3 d' w ?w'"
        by (rule grant_claim_ok [where sha = sha and token = token, OF i3 M l wst g])
      note ad = advancesD [OF a] note fr = only_workflows_frame [OF ad(3)]
      have res: "claim_tx cfg sha phases token now d = Inr (Some ?c, d')"
        using room x t(1) gr by (simp add: claim_tx_def 1(1) 2(1) s(1))
      have hold: "holds_claim sha ?c now d'"
        using ad(2) l fr(1) by (simp add: holds_claim_def claim_of_def live_at_def)
      have ph: "wf_phase w \<in> set phases" using f in_queue(3) by blast
      have prof: "phase_ok (ec_registry cfg) ?w' p"
        using resolve_profile_ok f by (auto simp: phase_ok_def take_claim_def)
      have sw: "\<not> source_withdrawn ?i d'"
        by (rule claimed_source_stands [where t = t and now = now, OF 1(5) 2(5) 2(7) _ wst])
          (use f q(1) t only_workflows_frame [OF 2(3)] fr s(2) source_withdrawn_frame [of d' d1 "wf_task_id w"] in
            \<open>simp_all add: prepares_def\<close>)
      have room: "int (running_slots d') \<le> cap" if cap: "ec_slot_cap cfg = Some cap" for cap
      proof -
        note c2 = running_slots_card [OF exec_invD(1) [OF 2(2)]]
        have "slot_ids d' \<subseteq> insert ?i (slot_ids d3)"
        proof
          fix k assume "k \<in> slot_ids d'"
          then show "k \<in> insert ?i (slot_ids d3)"
            using ad(4) [of k] current_task_frame [OF fr(1)] by (cases "k = ?i") (simp_all add: slot_ids_def)
        qed
        then have "card (slot_ids d') \<le> card (insert ?i (slot_ids d2))"
          using s(3) c2(2) by (intro card_mono) auto
        also have "\<dots> \<le> Suc (card (slot_ids d2))" using c2(2) by (simp add: card_insert_if)
        finally show ?thesis
          using room cap c2(1) running_slots_card(1) [OF exec_invD(1) [OF ad(1)]] by simp
      qed
      have earned: "claim_earned cfg sha phases ?c now d'"
        using hold ad(2) ph prof sw room f fr by (auto simp: claim_earned_def claim_of_def split: option.split)
      show thesis
      proof (rule that [OF res ad(1)])
        show "runs_on d d'" using runs_on_trans [OF _ advances_runs_on [OF a]] p3 by (simp add: prepares_def)
        show "tasks d' = tasks d" using fr(1) p3 by (simp add: prepares_def)
        show "claim_earned cfg sha phases x now d' \<and> ex_token x = token" if "Some ?c = Some x" for x
          using earned that by (auto simp: claim_of_def)
      qed
    qed
  qed
qed

end
