(* ===== verification/ExecSteps.thy ===== *)
theory ExecSteps
  imports ExecRuns
begin

text \<open>
  The operations of the service that are not one answer of the reader: scheduling a task, the
  worker's renewals, the priority of a queued workflow (which cancels stale workflows first) and
  the recorded result.  Each serves its request: it keeps the invariant, moves workflows only along
  the machine, and moves the one it applies to by one version.
\<close>

section \<open>Serving a request\<close>

definition fenced_move :: "rowid \<Rightarrow> int \<Rightarrow> db \<Rightarrow> db \<Rightarrow> bool" where
  "fenced_move i v d d' \<longleftrightarrow> map_option wf_version (workflow_of i d) = Some v
     \<and> map_option wf_version (workflow_of i d') = Some (v + 1)"

definition lawful :: "nat \<Rightarrow> db \<Rightarrow> db \<Rightarrow> bool" where
  "lawful M d d' \<longleftrightarrow> exec_inv M d' \<and> runs_on d d'"

definition serves :: "nat \<Rightarrow> rowid \<Rightarrow> int \<Rightarrow> db \<Rightarrow> exc + (workflow_result \<times> db) \<Rightarrow> bool" where
  "serves M i v d res \<longleftrightarrow> (\<exists>r d'. res = Inr (r, d') \<and> lawful M d d'
     \<and> (xr_disposition r = WdApplied \<longrightarrow> fenced_move i v d d'))"

lemma lawful_refl: "exec_inv M d \<Longrightarrow> lawful M d d"
  by (simp add: lawful_def)

lemma lawful_trans: "lawful M a b \<Longrightarrow> lawful M b c \<Longrightarrow> lawful M a c"
  using runs_on_trans [of a b c] by (simp add: lawful_def)

lemma lawful_frame:
  assumes "exec_inv M d" and "workflows d' = workflows d" and "workflow_events d' = workflow_events d"
  shows "lawful M d d'"
  using assms runs_on_same [of d' d] by (simp add: lawful_def exec_inv_def)

lemma lawful_moves:
  assumes "moves M i d d' w w'" and "workflow_step (view_of w) (view_of w')"
  shows "lawful M d d'"
  using moves_runs_on [OF assms(1) r_into_rtranclp [of workflow_step, OF assms(2)]] assms(1)
  by (simp add: lawful_def moves_def)

lemma fenced_moves:
  assumes "moves M i d d' w w'" and "workflow_step (view_of w) (view_of w')" and "wf_version w = v"
  shows "fenced_move i v d d'"
  using workflow_step_version [OF assms(2)] assms(1,3) by (simp add: fenced_move_def moves_def view_of_def)

lemma answers_once_serves:
  assumes "exec_inv M d" and "answers_once M i v d res"
  shows "serves M i v d res"
proof -
  obtain r d' where r: "res = Inr (r, d')" and c: "if xr_disposition r = WdApplied
      then xr_version r = Some (v + 1) \<and> (\<exists>w t w'. live_at i d w t \<and> wf_version w = v
        \<and> moves M i d d' w w' \<and> workflow_step (view_of w) (view_of w'))
      else d' = d" using assms(2) unfolding answers_once_def by blast
  show ?thesis
  proof (cases "xr_disposition r = WdApplied")
    case True
    then obtain w w' where "moves M i d d' w w'" "workflow_step (view_of w) (view_of w')" "wf_version w = v"
      using c by auto
    then have "lawful M d d'" "fenced_move i v d d'"
      using lawful_moves fenced_moves by blast+
    then show ?thesis using r by (auto simp: serves_def)
  next
    case False
    then show ?thesis using c r lawful_refl [OF assms(1)] by (auto simp: serves_def)
  qed
qed

lemma serves_refused: "exec_inv M d \<Longrightarrow> xr_disposition r \<noteq> WdApplied \<Longrightarrow> serves M i v d (Inr (r, d))"
  by (simp add: serves_def lawful_refl)

lemma applied_accepted: "xr_disposition r = WdApplied \<Longrightarrow> xr_accepted r"
  by (simp add: xr_accepted_def)

text \<open>The transaction frame around a served request.\<close>

lemma commit_serves:
  assumes "exec_inv M d" and "serves M i v d (h d)"
  obtains r d' where "commit_accepted h d = (Inr r, d')" and "lawful M d d'"
    and "xr_disposition r = WdApplied \<Longrightarrow> fenced_move i v d d'"
proof -
  obtain r d' where h: "h d = Inr (r, d')" "lawful M d d'" "xr_disposition r = WdApplied \<Longrightarrow> fenced_move i v d d'"
    using assms(2) by (auto simp: serves_def)
  show thesis
  proof (rule that [of r "if xr_accepted r then d' else d"])
    show "commit_accepted h d = (Inr r, if xr_accepted r then d' else d)" by (simp add: commit_accepted_def h(1))
  qed (use h lawful_refl [OF assms(1)] applied_accepted [of r] in simp_all)
qed

section \<open>Writes that stay at their version\<close>

definition stays :: "db \<Rightarrow> db \<Rightarrow> bool" where
  "stays d d' \<longleftrightarrow> (\<forall>k. map_option view_of (workflow_of k d') = map_option view_of (workflow_of k d))"

lemma stays_runs_on: "stays d d' \<Longrightarrow> runs_on d d'"
  unfolding runs_on_def
proof (intro allI impI)
  fix i w assume s: "stays d d'" and w: "workflow_of i d = Some w"
  from s have "map_option view_of (workflow_of i d') = map_option view_of (workflow_of i d)"
    unfolding stays_def by (rule spec)
  then obtain w' where "workflow_of i d' = Some w'" "view_of w' = view_of w" using w by auto
  then show "\<exists>w'. workflow_of i d' = Some w' \<and> workflow_step\<^sup>*\<^sup>* (view_of w) (view_of w')" by auto
qed

lemma moves_stays:
  assumes "moves M i d d' w w'" and "view_of w' = view_of w"
  shows "stays d d'"
  unfolding stays_def
proof
  fix k show "map_option view_of (workflow_of k d') = map_option view_of (workflow_of k d)"
    using assms by (cases "k = i") (simp_all add: moves_def)
qed

text \<open>The row under the guarded \<open>UPDATE\<close> of a worker.\<close>

definition claimed_row :: "rowid \<Rightarrow> int \<Rightarrow> string \<Rightarrow> workflow_row \<Rightarrow> bool" where
  "claimed_row i v g x \<longleftrightarrow> at_version i v x \<and> wf_status x = WfRunning \<and> wf_claim_token_digest x = Some g"

lemma renew_ok:
  assumes inv: "exec_inv M d"
  obtains r d' where "renew_tx sha i v token lease now d = Inr (r, d')" and "lawful M d d'" and "stays d d'"
    and "xr_disposition r \<noteq> WdApplied \<Longrightarrow> d' = d"
proof (cases "claim_guard sha i v token now d")
  case (Some ref)
  then have "renew_tx sha i v token lease now d
      = Inr (wf_refused_row i (map_option fst (workflow_with_task i d)) ref, d)" by (simp add: renew_tx_def Let_def)
  then show thesis by (rule that) (use lawful_refl [OF inv] in \<open>simp_all add: stays_def\<close>)
next
  case None
  then obtain w t e where row: "workflow_with_task i d = Some (w, t)" and l: "live_at i d w t"
    and w: "wf_version w = v" "wf_status w = WfRunning" "wf_claim_token_digest w = Some (sha token)"
    by (rule claim_guard_None)
  note ok = workflow_okD [OF inv liveD(1) [OF l]]
  let ?f = "\<lambda>x. x\<lparr>wf_claim_heartbeat_at := Some now, wf_claim_expires_at := Some (now + lease), wf_updated_at := now\<rparr>"
  have chk: "wf_check (?f w)" using ok(1) w(2) by (simp add: wf_check_def)
  have att: "attempts_left M (?f w)" using ok(2) by (simp add: attempts_left_def)
  obtain d1 d2 where u: "update_workflows (claimed_row i v (sha token)) ?f d = Inr (1, d1)"
    and ev: "wf_event i ''claim_renewed'' v (wf_task_version w) (wf_phase w) WfRunning now d1 = Inr d2"
    and m: "moves M i d d2 w (?f w)"
    by (rule write_ok [where f = ?f and hit = "claimed_row i v (sha token)" and kind = "''claim_renewed''"
          and now = now and ph = "wf_phase w" and st = WfRunning and tv = "wf_task_version w" and wv = v,
          OF inv liveD(1) [OF l]])
      (use chk att w liveD(2) [OF l] wf_checkD(2) [OF ok(1)] in \<open>simp_all add: claimed_row_def at_version_def PHASE_OPENERS_def\<close>)
  have "renew_tx sha i v token lease now d
      = Inr ((wf_applied w v WfRunning (wf_phase w))\<lparr>xr_wake_at := Some (now + lease)\<rparr>, d2)"
    using u ev by (simp add: renew_tx_def Let_def None row claimed_row_def [abs_def])
  moreover have "stays d d2" by (rule moves_stays [OF m]) (simp add: view_of_def)
  ultimately show thesis using that stays_runs_on m by (auto simp: lawful_def moves_def)
qed

lemma explained_same:
  assumes "wf_task_id w' = wf_task_id w" and "view_of w' = view_of w"
  shows "explained es w' = explained es w"
  using assms by (simp add: explained_def view_of_def cong: option.case_cong)

lemma attach_ok:
  assumes inv: "exec_inv M d" and run: "is_run_id run"
  obtains r d' where "attach_run_tx sha i v token run now d = Inr (r, d')" and "lawful M d d'" and "stays d d'"
    and "xr_disposition r \<noteq> WdApplied \<Longrightarrow> d' = d"
proof (cases "running_guard (map_option fst (workflow_with_task i d)) v (sha token) now")
  case (Some ref)
  then have "attach_run_tx sha i v token run now d
      = Inr (wf_refused_row i (map_option fst (workflow_with_task i d)) ref, d)" by (simp add: attach_run_tx_def Let_def)
  then show thesis by (rule that) (use lawful_refl [OF inv] in \<open>simp_all add: stays_def\<close>)
next
  case None
  then obtain w t where row: "workflow_with_task i d = Some (w, t)" and st: "wf_version w = v"
      "wf_status w = WfRunning" "wf_claim_token_digest w = Some (sha token)"
    by (auto simp: running_guard_None)
  have w: "workflow_of i d = Some w" "task_of i d = Some t" using row by (simp_all add: workflow_with_task_Some)
  note ok = workflow_okD [OF inv w(1)]
  let ?f = "\<lambda>x. x\<lparr>wf_current_run_id := Some run, wf_updated_at := now\<rparr>"
  let ?hit = "claimed_row i v (sha token)"
  let ?d1 = "d\<lparr>workflows := update_where ?hit ?f (workflows d)\<rparr>"
  have chk: "wf_check (?f w)" using ok(1) is_run_id_column [OF run] by (simp add: wf_check_def)
  have hit: "?hit w" "\<And>x. ?hit x \<Longrightarrow> wf_task_id x = i"
    using st row_of_key [OF w(1)] by (simp_all add: claimed_row_def at_version_def)
  have u: "update_workflows ?hit ?f d = Inr (1, ?d1)"
    using update_workflows_row [where hit = ?hit and f = ?f, OF exec_invD(1) [OF inv] w(1) hit(2,1)] chk by simp
  have att: "attempts_left M (?f w)" using ok(2) by (simp add: attempts_left_def)
  have ex: "explained (workflow_events d @ []) (?f w)"
    using ok(3) explained_same [of "?f w" w "workflow_events d"] by (simp add: view_of_def)
  have m: "moves M i d ?d1 w (?f w)"
    by (rule write_moves_all [where hit = ?hit and f = ?f and es = "[]", OF inv w(1) hit(2,1) _ chk att _ ex]) simp_all
  then have "workflow_of i ?d1 = Some (?f w)" unfolding moves_def by blast
  then have row1: "workflow_with_task i ?d1 = Some (?f w, t)" using w(2) by (simp add: workflow_with_task_Some)
  have eq: "attach_run_tx sha i v token run now d = Inr (wf_operation (?f w) WdApplied, ?d1)"
    using u None row row1 by (simp add: attach_run_tx_def Let_def claimed_row_def [abs_def])
  have st: "stays d ?d1" by (rule moves_stays [OF m]) (simp add: view_of_def)
  have "lawful M d ?d1" using stays_runs_on [OF st] m unfolding lawful_def moves_def by blast
  then show thesis by (rule that [OF eq _ st]) simp
qed

section \<open>The recorded result\<close>

lemma insert_result_frame:
  "insert_result r as d = Inr d' \<Longrightarrow> workflows d' = workflows d \<and> workflow_events d' = workflow_events d
    \<and> tasks d' = tasks d"
  by (auto simp: insert_result_def split: if_splits)

lemma settle_run_row [simp]:
  "wf_task_id (settle_run st ph v r now x) = wf_task_id x" "wf_status (settle_run st ph v r now x) = st"
  "wf_phase (settle_run st ph v r now x) = ph" "wf_version (settle_run st ph v r now x) = v"
  "wf_failure_count (settle_run st ph v r now x) = 0"
  "wf_last_result_id (settle_run st ph v r now x) = Some r"
  by (simp_all add: settle_run_def)

lemma granted_advance_phase:
  "granted_advance ph out kind ex act = Some ph' \<Longrightarrow>
    (ph = PhasePlan \<and> ph' = PhaseExecute \<and> out = OutAwaitingPlan \<and> declared kind ex)
    \<or> (ph = PhaseExecute \<and> ph' = PhaseExternalAction \<and> out = OutAwaitingExternal \<and> declared kind act)"
  by (auto simp: granted_advance_def split: if_splits)

text \<open>The row after a result: at rest for the reader, or queued in the phase a grant opened.\<close>

lemma settle_run_step:
  assumes "advance = granted_advance ph out kind ex act"
  shows "workflow_step (WfRunning, ph, v)
    (if advance = None then WfAwaitingReview else WfQueued, case advance of None \<Rightarrow> ph | Some p \<Rightarrow> p, v + 1)"
proof (cases advance)
  case None
  then show ?thesis by (simp add: workflow_step.record_answer)
next
  case (Some ph')
  then show ?thesis using granted_advance_phase [of ph out kind ex act ph'] assms
    by (auto intro: workflow_step.grant_execute workflow_step.grant_external)
qed

text \<open>The status and phase a result leaves.\<close>

definition granted :: "exec_config \<Rightarrow> envelope \<Rightarrow> db \<Rightarrow> workflow_phase option" where
  "granted cfg e d = granted_advance (en_phase e) (en_outcome e) (origin_kind (en_task_id e) d)
     (ec_execution_grants cfg) (ec_action_grants cfg)"

definition recorded_row :: "exec_config \<Rightarrow> envelope \<Rightarrow> time \<Rightarrow> db \<Rightarrow> workflow_row \<Rightarrow> workflow_row" where
  "recorded_row cfg e now d w = settle_run (if granted cfg e d = None then WfAwaitingReview else WfQueued)
     (case granted cfg e d of None \<Rightarrow> en_phase e | Some p \<Rightarrow> p) (wf_version w + 1) (en_result_id e) now w"

lemma record_fresh_go:
  assumes inv: "exec_inv M d" and M: "0 < M" and w: "workflow_of i d = Some w" and i: "i = en_task_id (vr_envelope v)"
    and st: "wf_status w = WfRunning" "wf_version w = en_workflow_version (vr_envelope v)"
      "wf_phase w = en_phase (vr_envelope v)"
    and go: "result_target (en_phase (vr_envelope v)) (en_outcome (vr_envelope v)) \<noteq> None"
      "insert_result (result_of v w now) (artifact_rows (vr_envelope v)) d = Inr d0"
  obtains r d4 where "record_fresh cfg v w now d = Inr (r, d4)" and "xr_disposition r = WdApplied"
    and "lawful M d d4" and "fenced_move i (wf_version w) d d4"
    and "workflow_of i d4 = Some (recorded_row cfg (vr_envelope v) now d w)" and "results d4 = results d0"
proof -
  let ?e = "vr_envelope v"
  define adv where "adv = granted_advance (en_phase ?e) (en_outcome ?e) (origin_kind i d)
    (ec_execution_grants cfg) (ec_action_grants cfg)"
  define st' where "st' = (if adv = None then WfAwaitingReview else WfQueued)"
  define ph' where "ph' = (case adv of None \<Rightarrow> en_phase ?e | Some p \<Rightarrow> p)"
  have target: "result_target (en_phase ?e) (en_outcome ?e) = Some WfAwaitingReview"
    using go(1) by (simp add: result_target_def split: if_splits)
  note fr = insert_result_frame [OF go(2)]
  have inv0: "exec_inv M d0" and law0: "lawful M d d0"
    using lawful_frame [OF inv] fr by (simp_all add: lawful_def)
  have w0: "workflow_of i d0 = Some w" using w fr by simp
  note ok = workflow_okD [OF inv w]
  let ?n = "wf_version w + 1"
  let ?f = "settle_run st' ph' ?n (en_result_id ?e) now"
  let ?hit = "\<lambda>x. at_version i (wf_version w) x \<and> wf_status x = WfRunning"
  let ?ev = "\<lambda>kind ph. \<lparr>we_task_id = i, we_kind = kind, we_workflow_version = ?n, we_task_version = en_task_version ?e,
         we_phase = ph, we_status = st', we_occurred_at = now, we_profile_id = wf_profile_id (?f w),
         we_profile_revision = wf_profile_revision (?f w)\<rparr>"
  let ?es = "?ev ''result_recorded'' (en_phase ?e) # (if adv = None then [] else [?ev ''phase_granted'' ph'])"
  have hit: "?hit w" "\<And>x. ?hit x \<Longrightarrow> wf_task_id x = i" using st(1) row_of_key [OF w] by (simp_all add: at_version_def)
  have stp: "workflow_step (view_of w) (view_of (?f w))"
    using settle_run_step [OF adv_def, of "wf_version w"] st by (simp add: view_of_def st'_def ph'_def)
  have chk: "wf_check (?f w)"
    using ok(1) by (simp add: wf_check_def settle_run_def clear_claim_def clear_failure_def st'_def)
  have ex: "explained (workflow_events d0 @ ?es) (?f w)"
    using ok(3) fr row_of_key [OF w] st(3) granted_advance_phase [of "en_phase ?e"]
    by (auto simp: explained_def last_event_def last_opener_def PHASE_OPENERS_def opens_def ph'_def adv_def
        split: option.splits)
  have ver: "1 \<le> ?n" "1 \<le> en_task_version ?e"
    using ok(1) go(2) by (auto simp: wf_check_def insert_result_def result_check_def result_of_def Let_def split: if_splits)
  note ev = write_eval [where hit = ?hit and f = ?f, OF inv0 w0 hit(2,1) _ chk _ ver]
  let ?ws = "update_where ?hit ?f (workflows d0)"
  let ?d4 = "d0\<lparr>workflows := ?ws, workflow_events := workflow_events d0 @ ?es\<rparr>"
  have row: "workflow_of i (d0\<lparr>workflows := ?ws, workflow_events := es\<rparr>) = Some (?f w)" for es
    using workflow_of_update [where hit = ?hit and f = ?f and k = i, OF hit(2) _ w0 hit(1)] by simp
  have m: "moves M i d0 ?d4 w (?f w)"
    by (rule write_moves_all [where hit = ?hit and f = ?f and es = ?es, OF inv0 w0 hit(2,1) _ chk _ _ ex])
      (use M in \<open>auto simp: attempts_left_0 split: if_splits\<close>)
  have eq: "record_fresh cfg v w now d = Inr (wf_applied w ?n st' ph', ?d4)"
    using go(2) ev(1) [of "''result_recorded''"] ev(2) [of "''result_recorded''" "en_phase ?e" st' now]
      wf_event_Inr [OF row chk _ ver] target st
    by (simp add: record_fresh_def Let_def i [symmetric] adv_def [symmetric] ph'_def st'_def)
  have law: "lawful M d ?d4" using lawful_trans [OF law0 lawful_moves [OF m stp]] .
  have move: "fenced_move i (wf_version w) d ?d4"
    using fenced_moves [OF m stp refl] fr by (simp add: fenced_move_def)
  have row': "workflow_of i ?d4 = Some (recorded_row cfg ?e now d w)"
    using m i by (simp add: moves_def recorded_row_def granted_def adv_def st'_def ph'_def)
  show thesis by (rule that [OF eq _ law move row']) simp_all
qed

lemma record_fresh_ok:
  assumes inv: "exec_inv M d" and M: "0 < M" and w: "workflow_of i d = Some w" and i: "i = en_task_id (vr_envelope v)"
    and st: "wf_status w = WfRunning" "wf_version w = en_workflow_version (vr_envelope v)"
      "wf_phase w = en_phase (vr_envelope v)"
  shows "serves M i (wf_version w) d (record_fresh cfg v w now d)
    \<or> (\<exists>s. record_fresh cfg v w now d = Inl (IntegrityError s))"
proof -
  let ?e = "vr_envelope v"
  consider (refused) "result_target (en_phase ?e) (en_outcome ?e) = None"
    | (check) s where "result_target (en_phase ?e) (en_outcome ?e) \<noteq> None"
        "insert_result (result_of v w now) (artifact_rows ?e) d = Inl s"
    | (go) d0 where "result_target (en_phase ?e) (en_outcome ?e) \<noteq> None"
        "insert_result (result_of v w now) (artifact_rows ?e) d = Inr d0"
    by (cases "insert_result (result_of v w now) (artifact_rows ?e) d") auto
  then show ?thesis
  proof cases
    case refused
    then show ?thesis by (simp add: record_fresh_def Let_def serves_refused [OF inv])
  next
    case check
    then have "\<exists>m. s = IntegrityError m" by (auto simp: insert_result_def split: if_splits)
    then show ?thesis using check by (auto simp: record_fresh_def Let_def)
  next
    case go
    show ?thesis by (rule record_fresh_go [OF inv M w i st go, of cfg]) (simp add: serves_def)
  qed
qed

lemma update_where_id [simp]: "update_where hit (\<lambda>x. x) rows = rows"
  by (induction rows) (simp_all add: update_where_def)

text \<open>An event that repeats the state of its row.\<close>

lemma note_ok:
  assumes inv: "exec_inv M d" and w: "workflow_of i d = Some w" and k: "kind \<notin> set PHASE_OPENERS"
    "kind \<in> set EXECUTION_EVENT_KINDS" "1 \<le> tv"
  obtains d' where "wf_event i kind (wf_version w) tv ph (wf_status w) now d = Inr d'" and "lawful M d d'"
proof -
  note ok = workflow_okD [OF inv w]
  let ?d' = "d\<lparr>workflow_events := workflow_events d @ [\<lparr>we_task_id = i, we_kind = kind,
      we_workflow_version = wf_version w, we_task_version = tv, we_phase = ph, we_status = wf_status w,
      we_occurred_at = now, we_profile_id = wf_profile_id w, we_profile_revision = wf_profile_revision w\<rparr>]\<rparr>"
  have "moves M i d ?d' w ((\<lambda>x. x) w)"
    by (rule write_moves [where hit = "\<lambda>x. x = w" and f = "\<lambda>x. x", OF inv w _ refl refl ok(1,2)])
      (use row_of_key [OF w] k in \<open>simp_all add: tells_def\<close>)
  then have m: "moves M i d ?d' w w" by simp
  have "lawful M d ?d'"
    using stays_runs_on [OF moves_stays [OF m refl]] m unfolding lawful_def moves_def by blast
  then show thesis by (rule that [OF wf_event_Inr [OF w ok(1) k(2) wf_checkD(1) [OF ok(1)] k(3)]])
qed

lemma record_guard_None:
  assumes "record_guard sha e now d = None"
  obtains w t x where "workflow_with_task (en_task_id e) d = Some (w, t)" and "wf_version w = en_workflow_version e"
    and "wf_status w = WfRunning" and "wf_claim_token_digest w = Some (sha (en_claim_token e))"
    and "wf_claim_expires_at w = Some x" and "now < x" and "wf_phase w = en_phase e"
    and "tk_version t = en_task_version e" and "tk_status t = TaskOpen"
proof -
  let ?row = "workflow_with_task (en_task_id e) d"
  have g: "running_guard (map_option fst ?row) (en_workflow_version e) (sha (en_claim_token e)) now = None"
    "task_guard (map_option snd ?row) (en_task_version e) = None"
    "map_option (wf_phase \<circ> fst) ?row = Some (en_phase e)"
    using assms by (auto simp: record_guard_def Let_def split: option.splits if_splits)
  then obtain w x where "map_option fst ?row = Some w" "wf_version w = en_workflow_version e"
    "wf_status w = WfRunning" "wf_claim_token_digest w = Some (sha (en_claim_token e))"
    "wf_claim_expires_at w = Some x" "now < x" unfolding running_guard_None by blast
  then show thesis using that g by (auto simp: task_guard_None)
qed

lemma record_ok:
  assumes inv: "exec_inv M d" and M: "0 < M"
  shows "serves M (en_task_id (vr_envelope v)) (en_workflow_version (vr_envelope v)) d (record_tx cfg sha v now d)
    \<or> (\<exists>s. record_tx cfg sha v now d = Inl (IntegrityError s))"
proof -
  let ?e = "vr_envelope v" let ?i = "en_task_id ?e"
  show ?thesis
  proof (cases "List.find (\<lambda>r. rs_result_id r = en_result_id ?e) (results d)")
    case (Some r)
    then show ?thesis
      using serves_refused [OF inv] by (auto simp: record_tx_def Let_def split: option.split)
  next
    case none: None
    show ?thesis
    proof (cases "record_guard sha ?e now d")
      case (Some ref)
      then show ?thesis using none serves_refused [OF inv] by (simp add: record_tx_def Let_def)
    next
      case None
      then obtain w t where row: "workflow_with_task ?i d = Some (w, t)" and w: "wf_version w = en_workflow_version ?e"
        "wf_status w = WfRunning" "wf_phase w = en_phase ?e" by (rule record_guard_None)
      have wo: "workflow_of ?i d = Some w" using row by (simp add: workflow_with_task_Some)
      show ?thesis
      proof (cases "repeats_an_earlier_answer v d")
        case True
        obtain d' where "wf_event ?i ''result_unchanged'' (wf_version w) (wf_task_version w) (wf_phase w)
            (wf_status w) now d = Inr d'" "lawful M d d'"
          by (rule note_ok [where kind = "''result_unchanged''", OF inv wo]) (use wf_checkD(2) [OF exec_invD(3) [OF inv wo]] in \<open>simp_all add: PHASE_OPENERS_def\<close>)
        then show ?thesis using True none None row by (auto simp: record_tx_def Let_def serves_def)
      next
        case False
        then have "record_tx cfg sha v now d = record_fresh cfg v w now d"
          using none None row by (simp add: record_tx_def Let_def)
        then show ?thesis using record_fresh_ok [OF inv M wo refl w(2,1,3), of cfg now] w(1) by simp
      qed
    qed
  qed
qed

section \<open>Scheduling\<close>

lemma profile_for_ok:
  assumes "config_ok cfg"
  obtains p where "profile_for cfg kind = Inr p" and "profile_ok p"
proof (cases "case kind of None \<Rightarrow> None | Some k \<Rightarrow> map_of (ec_routes cfg) k")
  case None
  have "registry_get (ec_registry cfg) (Some (pr_id (ec_default cfg))) = Some (ec_default cfg)"
    using assms by (simp add: config_ok_def)
  with None show thesis
    using that registry_profile_ok(1) [OF config_ok_profiles [OF assms]] by (simp add: profile_for_def)
next
  case (Some i)
  then obtain k where "map_of (ec_routes cfg) k = Some i" by (auto split: option.splits)
  then have "(k, i) \<in> set (ec_routes cfg)" by (rule map_of_SomeD)
  then obtain p where "registry_get (ec_registry cfg) (Some i) = Some p"
    using assms unfolding config_ok_def list_all_iff by (auto split: option.splits)
  then show thesis using that [of p] Some registry_profile_ok(1) [OF config_ok_profiles [OF assms]]
    by (simp add: profile_for_def)
qed

lemma initial_cases:
  "initial_status cfg kind ow \<in> {WfQueued, WfAwaitingStart}" "initial_phase cfg kind \<in> {PhasePlan, PhaseExecute}"
  by (auto simp: initial_status_def initial_phase_def)

lemma insert_workflow_ok:
  assumes inv: "exec_inv M d" and new: "workflow_of i d = None" and i: "wf_task_id w = i"
    and w: "wf_check w" "attempts_left M w" "wf_version w = wv" "wf_status w = st" "wf_phase w = ph"
    and k: "kind \<in> set PHASE_OPENERS" "ph \<noteq> PhaseExternalAction" "kind \<in> set EXECUTION_EVENT_KINDS" "1 \<le> tv"
  obtains d1 d2 where "insert_workflow w d = Inr d1" and "wf_event i kind wv tv ph st now d1 = Inr d2"
    and "lawful M d d2" and "workflow_of i d2 = Some w"
proof -
  let ?e = "\<lparr>we_task_id = i, we_kind = kind, we_workflow_version = wv, we_task_version = tv,
           we_phase = ph, we_status = st, we_occurred_at = now, we_profile_id = wf_profile_id w,
           we_profile_revision = wf_profile_revision w\<rparr>"
  let ?d1 = "d\<lparr>workflows := workflows d @ [w]\<rparr>"
  let ?d2 = "?d1\<lparr>workflow_events := workflow_events d @ [?e]\<rparr>"
  have of: "workflow_of k (d\<lparr>workflows := workflows d @ [w], workflow_events := es\<rparr>)
      = (if k = i then Some w else workflow_of k d)" for k es
    using new i by (simp add: find_append split: option.split)
  have "workflow_ok M (workflow_events d @ [?e]) x"
    if "workflow_of k ?d2 = Some x" for k x
  proof (cases "k = i")
    case True
    then have "x = w" using that of [of i] by simp
    then show ?thesis using w i k by (simp add: workflow_ok_def explained_def last_event_snoc last_opener_snoc opens_def)
  next
    case False
    then have x: "workflow_of k d = Some x" using that of [of k] by simp
    have "explained (workflow_events d @ [?e]) x = explained (workflow_events d) x"
      by (rule explained_other) (use False row_of_key [OF x] in simp)
    then show ?thesis using exec_invD(2) [OF inv x] by (simp add: workflow_ok_def)
  qed
  moreover have "unique_key wf_task_id (workflows ?d2)"
    using exec_invD(1) [OF inv] new i by (auto simp: unique_key_def find_None_iff)
  ultimately have "exec_inv M ?d2" unfolding exec_inv_def by simp
  moreover have "runs_on d ?d2" unfolding runs_on_def
  proof (intro allI impI)
    fix k x assume "workflow_of k d = Some x"
    then have "workflow_of k ?d2 = Some x" using of [of k] new by (cases "k = i") simp_all
    then show "\<exists>w'. workflow_of k ?d2 = Some w' \<and> workflow_step\<^sup>*\<^sup>* (view_of x) (view_of w')" by blast
  qed
  ultimately have law: "lawful M d ?d2" by (simp add: lawful_def)
  have ins: "insert_workflow w d = Inr ?d1" using w(1) new i by (simp add: insert_workflow_def)
  have ev: "wf_event i kind wv tv ph st now ?d1 = Inr ?d2"
    using wf_event_Inr [of i ?d1 w kind wv tv ph st now] wf_checkD(1) [OF w(1)] w(1,3) k(3,4) new i
    by (simp add: find_append)
  show thesis by (rule that [OF ins ev law]) (use of [of i] in simp)
qed

lemma fresh_workflow_row [simp]:
  "wf_task_id (fresh_workflow i tv st ph p steer now) = i" "wf_status (fresh_workflow i tv st ph p steer now) = st"
  "wf_phase (fresh_workflow i tv st ph p steer now) = ph" "wf_version (fresh_workflow i tv st ph p steer now) = 1"
  "wf_failure_count (fresh_workflow i tv st ph p steer now) = 0"
  by (simp_all add: fresh_workflow_def)

lemma fresh_workflow_check:
  "1 \<le> tv \<Longrightarrow> st \<in> {WfQueued, WfAwaitingStart} \<Longrightarrow> profile_ok p \<Longrightarrow>
    wf_check (fresh_workflow i tv st ph p steer now)"
  by (auto simp: wf_check_def fresh_workflow_def profile_ok_def)

lemma replan_workflow_row [simp]:
  "wf_task_id (replan_workflow tv st ph v p steer now x) = wf_task_id x"
  "wf_status (replan_workflow tv st ph v p steer now x) = st"
  "wf_phase (replan_workflow tv st ph v p steer now x) = ph"
  "wf_version (replan_workflow tv st ph v p steer now x) = v"
  "wf_failure_count (replan_workflow tv st ph v p steer now x) = 0"
  by (simp_all add: replan_workflow_def)

lemma replan_workflow_check:
  "1 \<le> tv \<Longrightarrow> 1 \<le> v \<Longrightarrow> st \<in> {WfQueued, WfAwaitingStart} \<Longrightarrow> profile_ok p \<Longrightarrow> wf_check w \<Longrightarrow>
    wf_check (replan_workflow tv st ph v p steer now w)"
  by (auto simp: wf_check_def replan_workflow_def profile_ok_def clear_claim_def clear_failure_def)

lemma place_workflow_ok:
  assumes inv: "exec_inv M d" and M: "0 < M" and cfg: "config_ok cfg" and t: "1 \<le> tk_version t"
  obtains d' w where "place_workflow cfg t (workflow_of (tk_id t) d) now d = Inr d'" and "lawful M d d'"
    and "workflow_of (tk_id t) d' = Some w"
proof -
  let ?i = "tk_id t" let ?kind = "origin_kind (tk_id t) d"
  let ?st = "initial_status cfg ?kind (tk_owner t)" let ?ph = "initial_phase cfg ?kind"
  let ?steer = "declared ?kind (ec_steer cfg)"
  obtain p where p: "profile_for cfg ?kind = Inr p" and pok: "profile_ok p" using cfg by (rule profile_for_ok)
  note ini = initial_cases(1) [of cfg ?kind "tk_owner t"] initial_cases(2) [of cfg ?kind]
  have opener: "''scheduled'' \<in> set PHASE_OPENERS" "?ph \<noteq> PhaseExternalAction"
    using ini(2) by (auto simp: PHASE_OPENERS_def)
  show thesis
  proof (cases "workflow_of ?i d")
    case None
    let ?w = "fresh_workflow ?i (tk_version t) ?st ?ph p ?steer now"
    obtain d1 d2 where 1: "insert_workflow ?w d = Inr d1"
      "wf_event ?i ''scheduled'' 1 (tk_version t) ?ph ?st now d1 = Inr d2" "lawful M d d2" "workflow_of ?i d2 = Some ?w"
      by (rule insert_workflow_ok [where w = ?w and wv = 1 and st = ?st and ph = ?ph and kind = "''scheduled''"
            and tv = "tk_version t" and now = now, OF inv None])
        (use fresh_workflow_check [OF t ini(1) pok] opener M t in \<open>simp_all add: attempts_left_0\<close>)
    show thesis by (rule that [OF _ 1(3,4)]) (simp add: place_workflow_def Let_def None p 1(1,2))
  next
    case (Some w)
    let ?f = "replan_workflow (tk_version t) ?st ?ph (wf_version w + 1) p ?steer now"
    let ?hit = "\<lambda>x. wf_task_id x = ?i"
    note wok = workflow_okD(1) [OF inv Some]
    have v: "1 \<le> wf_version w" using wok by (rule wf_checkD)
    obtain d1 d2 where 1: "update_workflows ?hit ?f d = Inr (1, d1)"
      "wf_event ?i ''scheduled'' (wf_version w + 1) (tk_version t) ?ph ?st now d1 = Inr d2" and m: "moves M ?i d d2 w (?f w)"
      by (rule write_ok [where f = ?f and hit = ?hit and kind = "''scheduled''" and now = now
            and ph = ?ph and st = ?st and tv = "tk_version t" and wv = "wf_version w + 1", OF inv Some])
        (use replan_workflow_check [OF t _ ini(1) pok wok] v t opener M row_of_key [OF Some] in \<open>simp_all add: attempts_left_0\<close>)
    have "workflow_step (view_of w) (view_of (?f w))"
      using ini by (simp add: view_of_def workflow_step.plan_anew)
    from lawful_moves [OF m this] have law: "lawful M d d2" .
    have "workflow_of ?i d2 = Some (?f w)" using m unfolding moves_def by blast
    from that [OF _ law this] show thesis by (simp add: place_workflow_def Let_def Some p 1)
  qed
qed

lemma schedule_ok:
  assumes inv: "exec_inv M d" and M: "0 < M" and cfg: "config_ok cfg" and v: "1 \<le> v"
  obtains r d' where "schedule_tx cfg i v now d = Inr (r, d')" and "lawful M d d'"
proof (cases "task_guard (task_of i d) v")
  case (Some ref)
  then show thesis using that lawful_refl [OF inv] by (simp add: schedule_tx_def)
next
  case None
  then obtain t where t: "task_of i d = Some t" "tk_version t = v" "tk_status t = TaskOpen"
    by (cases "task_of i d") (simp_all add: task_guard_def split: if_splits)
  have ti: "tk_id t = i" using t(1) by (rule row_of_key)
  obtain d1 w1 where p: "place_workflow cfg t (workflow_of i d) now d = Inr d1" "lawful M d d1" "workflow_of i d1 = Some w1"
    by (rule place_workflow_ok [OF inv M cfg, of t now]) (use t v ti in simp_all)
  consider (source) "source_withdrawn i d" | (placed) w where "\<not> source_withdrawn i d" "workflow_of i d = Some w"
      "already_placed w v now"
    | (go) "\<not> (source_withdrawn i d \<or> (\<exists>w. workflow_of i d = Some w \<and> already_placed w v now))" by blast
  then show thesis
  proof cases
    case source
    then have "schedule_tx cfg i v now d = Inr (wf_refused i WrInvalidState, d)" using None by (simp add: schedule_tx_def)
    then show thesis using that lawful_refl [OF inv] by blast
  next
    case placed
    then have "schedule_tx cfg i v now d = Inr (wf_operation w WdUnchanged, d)"
      using None by (simp add: schedule_tx_def Let_def)
    then show thesis using that lawful_refl [OF inv] by blast
  next
    case go
    then have "schedule_tx cfg i v now d = Inr (wf_operation w1 WdApplied, d1)"
      using None t(1) p(1,3) by (cases "workflow_of i d") (simp_all add: schedule_tx_def Let_def)
    then show thesis using that p(2) by blast
  qed
qed

section \<open>The priority of a queued workflow\<close>

text \<open>A queued row that the stale pass left is the row that was there before.\<close>

lemma queued_was_there:
  assumes inv: "exec_inv M d" and c: "cancel_stale_workflows now d = Inr d1"
    and w: "workflow_of i d1 = Some w" "wf_status w \<noteq> WfCancelled"
  shows "workflow_of i d = Some w"
proof -
  obtain d2 where 2: "cancel_stale_workflows now d = Inr d2"
    and keep: "\<And>i w. workflow_of i d = Some w \<Longrightarrow> \<not> workflow_stale d w \<Longrightarrow> workflow_of i d2 = Some w"
    and gone: "\<And>i w. workflow_of i d = Some w \<Longrightarrow> workflow_stale d w \<Longrightarrow>
      \<exists>w'. workflow_of i d2 = Some w' \<and> wf_status w' = WfCancelled"
    and same: "same_ids d d2" by (rule cancel_stale_workflows_ok [OF inv]) blast
  have eq: "d2 = d1" using 2 c by simp
  obtain x where x: "workflow_of i d = Some x" using same w(1) eq unfolding same_ids_def by (metis not_None_eq)
  show ?thesis
  proof (cases "workflow_stale d x")
    case True
    then show ?thesis using gone [OF x] w eq by auto
  next
    case False
    then show ?thesis using keep [OF x] w eq x by simp
  qed
qed

lemma priority_ok:
  assumes inv: "exec_inv M d"
  shows "serves M i v d (set_priority_tx i v action prio now d)"
proof -
  obtain d1 where 1: "cancel_stale_workflows now d = Inr d1" "exec_inv M d1" "only_workflows d d1" "runs_on d d1"
    by (rule cancel_stale_workflows_ok [OF inv]) blast
  let ?row = "workflow_with_task i d1"
  let ?g = "case both_guards ?row (workflow_guard (map_option fst ?row) v [WfQueued]) of
      Some ref \<Rightarrow> Some ref
    | None \<Rightarrow> (case wf_next_attempt_at (fst (the ?row)) of
        Some a \<Rightarrow> if now < a then Some WrInvalidState else None | None \<Rightarrow> None)"
  show ?thesis
  proof (cases ?g)
    case (Some ref)
    then show ?thesis using serves_refused [OF inv] 1(1) by (simp add: set_priority_tx_def Let_def)
  next
    case None
    then have bg: "both_guards ?row (workflow_guard (map_option fst ?row) v [WfQueued]) = None"
      by (cases "both_guards ?row (workflow_guard (map_option fst ?row) v [WfQueued])") simp_all
    then obtain w t where g: "workflow_guard (map_option fst ?row) v [WfQueued] = None"
      and row: "?row = Some (w, t)" and l: "live_at i d1 w t" by (rule both_guards_None)
    have w: "wf_version w = v" "wf_status w = WfQueued" using g row by (auto simp: workflow_guard_None)
    have due: "case wf_next_attempt_at w of None \<Rightarrow> True | Some a \<Rightarrow> a \<le> now"
      using None bg row by (simp split: option.splits if_splits)
    show ?thesis
    proof (cases "wf_priority w = prio \<and> wf_priority_source w = None")
      case True
      then show ?thesis using serves_refused [OF inv] 1(1) None row by (simp add: set_priority_tx_def Let_def)
    next
      case go: False
      note ok = workflow_okD [OF 1(2) liveD(1) [OF l]]
      let ?hit = "\<lambda>x. at_version i v x \<and> wf_status x = WfQueued
        \<and> (case wf_next_attempt_at x of None \<Rightarrow> True | Some a \<Rightarrow> a \<le> now)"
      let ?f = "\<lambda>x. x\<lparr>wf_priority := prio, wf_version := v + 1, wf_updated_at := now,
             wf_priority_source := (if action \<in> {''raise'', ''lower''} then Some ''reader'' else None)\<rparr>"
      have chk: "wf_check (?f w)" using ok(1) w by (simp add: wf_check_def)
      have att: "attempts_left M (?f w)" using ok(2) by (simp add: attempts_left_def)
      have k: "priority_event action \<notin> set PHASE_OPENERS" by (simp add: priority_event_def PHASE_OPENERS_def)
      have kk: "priority_event action \<in> set EXECUTION_EVENT_KINDS" by (simp add: priority_event_def)
      obtain d2 d3 where u: "update_workflows ?hit ?f d1 = Inr (1, d2)"
        and ev: "wf_event i (priority_event action) (v + 1) (wf_task_version w) (wf_phase w) WfQueued now d2 = Inr d3"
        and m: "moves M i d1 d3 w (?f w)"
        by (rule write_ok [where f = ?f and hit = ?hit and kind = "priority_event action" and now = now
              and ph = "wf_phase w" and st = WfQueued and tv = "wf_task_version w" and wv = "v + 1", OF 1(2) liveD(1) [OF l]])
          (use chk att k kk w due liveD(2) [OF l] wf_checkD(2) [OF ok(1)] in \<open>simp_all add: at_version_def\<close>)
      have stp: "workflow_step (view_of w) (view_of (?f w))" using w by (simp add: view_of_def workflow_step.adjust)
      have law: "lawful M d d3" using lawful_trans [OF _ lawful_moves [OF m stp]] 1(2,4) by (simp add: lawful_def)
      have "workflow_of i d = Some w" by (rule queued_was_there [OF inv 1(1) liveD(1) [OF l]]) (simp add: w)
      then have "fenced_move i v d d3"
        using fenced_moves [OF m stp w(1)] by (simp add: fenced_move_def w(1))
      moreover have "set_priority_tx i v action prio now d
          = Inr ((wf_applied w (v + 1) WfQueued (wf_phase w))\<lparr>xr_priority := Some prio\<rparr>, d3)"
        using None go row u ev
        by (cases "action \<in> {''raise'', ''lower''}") (auto simp: set_priority_tx_def Let_def 1(1))
      ultimately show ?thesis using law by (simp add: serves_def)
    qed
  qed
qed

end
