(* ===== verification/ExecService.thy ===== *)
theory ExecService
  imports ExecSteps
begin

text \<open>
  The whole execution service: every request of the reader, of the workers and of the task ledger,
  in any order.  The service is one \<open>fenced_op\<close>; its properties follow from what each request
  serves.
\<close>

section \<open>Requests\<close>

record exec_env =
  xe_config :: exec_config
  xe_sha :: "string \<Rightarrow> string"
  xe_local :: "time \<Rightarrow> int"
  xe_utc :: "int \<Rightarrow> time"

datatype exec_request =
    XqTask rowid int string
  | XqSchedule rowid int
  | XqStart rowid int string
  | XqSelect rowid int string string
  | XqReview rowid int string
  | XqAdopt rowid int
  | XqRetry rowid int
  | XqPriority rowid int string
  | XqClaim "workflow_phase list option" string
  | XqRenew rowid int string int
  | XqAttach rowid int string string
  | XqRelease rowid int string
  | XqFail rowid int string failure_report
  | XqRecord envelope

datatype exec_reply =
    XoRaised exc
  | XoTask transition_result
  | XoClaim "execution_claim option"
  | XoPlan workflow_result
  | XoLease workflow_result
  | XoMove workflow_result

definition reply :: "('a \<Rightarrow> exec_reply) \<Rightarrow> (exc + 'a) \<times> db \<Rightarrow> exec_reply \<times> db" where
  "reply f out = ((case fst out of Inl e \<Rightarrow> XoRaised e | Inr r \<Rightarrow> f r), snd out)"

definition exec_step :: "exec_env \<Rightarrow> time \<times> exec_request \<Rightarrow> db \<Rightarrow> exec_reply \<times> db" where
  "exec_step E rq d =
     (let cfg = xe_config E; M = ec_max_attempts cfg; sha = xe_sha E; now = fst rq in
      case snd rq of
        XqTask i v action \<Rightarrow> (let (r, d') = transition i v action now d in (XoTask r, d'))
      | XqSchedule i v \<Rightarrow> reply XoPlan (schedule_task cfg i v now d)
      | XqStart i v action \<Rightarrow> reply XoMove (start_action (xe_local E) (xe_utc E) i v action now d)
      | XqSelect i v p r \<Rightarrow> reply XoMove (select_agent cfg i v p r now d)
      | XqReview i v action \<Rightarrow> reply XoMove (review_action (xe_local E) (xe_utc E) i v action now d)
      | XqAdopt i v \<Rightarrow> reply XoMove (adopt_installed_revision cfg i v now d)
      | XqRetry i v \<Rightarrow> reply XoMove (retry i v now d)
      | XqPriority i v action \<Rightarrow> reply XoMove (set_priority i v action now d)
      | XqClaim phases token \<Rightarrow> reply XoClaim (claim_next_workflow cfg sha phases token now d)
      | XqRenew i v token lease \<Rightarrow> reply XoLease (renew sha i v token lease now d)
      | XqAttach i v token run \<Rightarrow> reply XoLease (attach_run_id sha i v token run now d)
      | XqRelease i v token \<Rightarrow> reply XoMove (release M sha i v token now d)
      | XqFail i v token rep \<Rightarrow> reply XoMove (fail_claim M sha i v token rep now d)
      | XqRecord e \<Rightarrow> reply XoMove (record_result cfg sha e now d))"

text \<open>What a request names, and when its reply says that it moved its workflow.\<close>

definition rq_task :: "exec_request \<Rightarrow> rowid" where
  "rq_task rq = (case rq of XqTask i v a \<Rightarrow> i | XqSchedule i v \<Rightarrow> i | XqStart i v a \<Rightarrow> i
     | XqSelect i v p r \<Rightarrow> i | XqReview i v a \<Rightarrow> i | XqAdopt i v \<Rightarrow> i | XqRetry i v \<Rightarrow> i
     | XqPriority i v a \<Rightarrow> i | XqClaim ps t \<Rightarrow> 0 | XqRenew i v t l \<Rightarrow> i | XqAttach i v t r \<Rightarrow> i
     | XqRelease i v t \<Rightarrow> i | XqFail i v t f \<Rightarrow> i | XqRecord e \<Rightarrow> en_task_id e)"

definition rq_version :: "exec_request \<Rightarrow> int" where
  "rq_version rq = (case rq of XqTask i v a \<Rightarrow> v | XqSchedule i v \<Rightarrow> v | XqStart i v a \<Rightarrow> v
     | XqSelect i v p r \<Rightarrow> v | XqReview i v a \<Rightarrow> v | XqAdopt i v \<Rightarrow> v | XqRetry i v \<Rightarrow> v
     | XqPriority i v a \<Rightarrow> v | XqClaim ps t \<Rightarrow> 0 | XqRenew i v t l \<Rightarrow> v | XqAttach i v t r \<Rightarrow> v
     | XqRelease i v t \<Rightarrow> v | XqFail i v t f \<Rightarrow> v | XqRecord e \<Rightarrow> en_workflow_version e)"

definition moved :: "exec_reply \<Rightarrow> bool" where
  "moved x = (case x of XoMove r \<Rightarrow> xr_disposition r = WdApplied | _ \<Rightarrow> False)"

text \<open>The deployments the service is proved for.\<close>

definition env_ok :: "exec_env \<Rightarrow> bool" where
  "env_ok E \<longleftrightarrow> config_ok (xe_config E) \<and> (\<forall>s. length (xe_sha E s) = 64)"

abbreviation attempts_of :: "exec_env \<Rightarrow> nat" where
  "attempts_of E \<equiv> ec_max_attempts (xe_config E)"

lemma env_okD:
  assumes "env_ok E"
  shows "config_ok (xe_config E)" and "0 < attempts_of E" and "length (xe_sha E s) = 64"
  using assms by (auto simp: env_ok_def config_ok_def)

section \<open>What one request does\<close>

definition step_ok :: "exec_env \<Rightarrow> time \<times> exec_request \<Rightarrow> db \<Rightarrow> exec_reply \<times> db \<Rightarrow> bool" where
  "step_ok E rq d out \<longleftrightarrow> lawful (attempts_of E) d (snd out)
     \<and> (moved (fst out) \<longrightarrow> fenced_move (rq_task (snd rq)) (rq_version (snd rq)) d (snd out))
     \<and> (\<forall>m. fst out = XoRaised (IntegrityError m) \<longrightarrow> (\<exists>e. snd rq = XqRecord e))"

lemma step_ok_refused:
  assumes "exec_inv (attempts_of E) d" and "xr_disposition r \<noteq> WdApplied"
  shows "step_ok E rq d (reply XoMove (Inr r, d))"
  using assms lawful_refl by (simp add: step_ok_def reply_def moved_def)

lemma step_ok_commit:
  assumes inv: "exec_inv (attempts_of E) d" and s: "serves (attempts_of E) (rq_task (snd rq)) (rq_version (snd rq)) d (h d)"
  shows "step_ok E rq d (reply XoMove (commit_accepted h d))"
proof -
  obtain r d' where "commit_accepted h d = (Inr r, d')" "lawful (attempts_of E) d d'"
    "xr_disposition r = WdApplied \<Longrightarrow> fenced_move (rq_task (snd rq)) (rq_version (snd rq)) d d'"
    by (rule commit_serves [where h = h, OF inv s]) blast
  then show ?thesis by (simp add: step_ok_def reply_def moved_def)
qed

lemma lease_step_ok:
  assumes "exec_inv (attempts_of E) d" and "h d = Inr (r, d')" and "lawful (attempts_of E) d d'"
    and f: "\<And>x. \<not> moved (f x)" "\<And>x m. f x \<noteq> XoRaised m"
  shows "step_ok E rq d (reply f (commit_accepted h d))"
  using assms lawful_refl by (simp add: step_ok_def reply_def commit_accepted_def)

lemma apply_keeps_execution [simp]:
  "workflows (snd (apply_task_transition i v a now d)) = workflows d"
  "workflow_events (snd (apply_task_transition i v a now d)) = workflow_events d"
  "results (snd (apply_task_transition i v a now d)) = results d"
  by (simp_all add: apply_task_transition_def Let_def insert_task_event_def set_work_state_def
      split: option.split prod.split)

lemma transition_keeps_execution:
  "workflows (snd (transition i v a now d)) = workflows d"
  "workflow_events (snd (transition i v a now d)) = workflow_events d"
  "results (snd (transition i v a now d)) = results d"
  by (simp_all add: transition_def split_beta Let_def)

lemma finish_step_ok:
  assumes inv: "exec_inv (attempts_of E) d" and rep: "\<And>rep. report = Some rep \<Longrightarrow> report_ok rep"
    and rq: "rq_task (snd rq) = i" "rq_version (snd rq) = v"
  shows "step_ok E rq d (reply XoMove (finish_run_claim (attempts_of E) sha i v token report now d))"
proof (cases "valid_identity i v \<and> valid_secret token")
  case True
  have "serves (attempts_of E) i v d (finish_run_tx (attempts_of E) sha i v token report now d)"
    by (rule answers_once_serves [OF inv finish_run_answers_once [OF inv rep]])
  then show ?thesis
    using True step_ok_commit [where h = "finish_run_tx (attempts_of E) sha i v token report now" and rq = rq, OF inv] rq
    by (simp add: finish_run_claim_def)
qed (use step_ok_refused [OF inv] in \<open>auto simp: finish_run_claim_def\<close>)

lemma record_step_ok:
  assumes inv: "exec_inv (attempts_of E) d" and E: "env_ok E"
  shows "step_ok E (now, XqRecord e) d (reply XoMove (record_result (xe_config E) sha e now d))"
proof (cases "validated_result sha e")
  case None
  then show ?thesis using step_ok_refused [OF inv] by (simp add: record_result_def)
next
  case (Some v)
  have e: "vr_envelope v = e"
    using Some by (auto simp: validated_result_def Let_def split: option.splits if_splits)
  have "serves (attempts_of E) (en_task_id e) (en_workflow_version e) d (record_tx (xe_config E) sha v now d)
    \<or> (\<exists>s. record_tx (xe_config E) sha v now d = Inl (IntegrityError s))"
    using record_ok [OF inv env_okD(2) [OF E]] e by blast
  then show ?thesis
  proof
    assume "serves (attempts_of E) (en_task_id e) (en_workflow_version e) d (record_tx (xe_config E) sha v now d)"
    then show ?thesis
      using Some by (auto simp: record_result_def run_tx_def serves_def step_ok_def reply_def moved_def rq_task_def rq_version_def)
  next
    assume "\<exists>s. record_tx (xe_config E) sha v now d = Inl (IntegrityError s)"
    then show ?thesis
      using Some lawful_refl [OF inv] by (auto simp: record_result_def run_tx_def step_ok_def reply_def moved_def)
  qed
qed

lemma claim_step_ok:
  assumes inv: "exec_inv (attempts_of E) d" and E: "env_ok E"
  shows "step_ok E (now, XqClaim ps token) d (reply XoClaim (claim_next_workflow (xe_config E) (xe_sha E) ps token now d))"
proof -
  note refl = lawful_refl [OF inv]
  obtain c d' where "claim_tx (xe_config E) (xe_sha E) (case phase_allowlist ps of Inl e \<Rightarrow> [] | Inr x \<Rightarrow> x) token now d = Inr (c, d')"
    "exec_inv (attempts_of E) d'" "runs_on d d'"
    by (rule claim_tx_ok [where sha = "xe_sha E", OF inv env_okD(2,3) [OF E]]) blast
  then show ?thesis
    using refl by (cases "phase_allowlist ps")
      (auto simp: claim_next_workflow_def phase_allowlist_def run_tx_def step_ok_def reply_def moved_def lawful_def split: option.splits if_splits)
qed

lemma schedule_step_ok:
  assumes inv: "exec_inv (attempts_of E) d" and E: "env_ok E"
  shows "step_ok E rq d (reply XoPlan (schedule_task (xe_config E) i v now d))"
proof (cases "valid_identity i v")
  case True
  then have v: "1 \<le> v" by (simp add: valid_identity_def)
  obtain r d' where "schedule_tx (xe_config E) i v now d = Inr (r, d')" "lawful (attempts_of E) d d'"
    by (rule schedule_ok [OF inv env_okD(2,1) [OF E] v])
  then show ?thesis using True lease_step_ok [where f = XoPlan and rq = rq, OF inv] by (simp add: schedule_task_def moved_def)
qed (use lawful_refl [OF inv] in \<open>simp add: schedule_task_def step_ok_def reply_def moved_def\<close>)

lemma renew_step_ok:
  assumes inv: "exec_inv (attempts_of E) d"
  shows "step_ok E rq d (reply XoLease (renew sha i v token lease now d))"
proof (cases "\<not> valid_identity i v \<or> \<not> valid_secret token \<or> \<not> (MIN_LEASE_SECONDS \<le> lease \<and> lease \<le> MAX_LEASE_SECONDS)")
  case False
  obtain r d' where "renew_tx sha i v token lease now d = Inr (r, d')" "lawful (attempts_of E) d d'"
    by (rule renew_ok [OF inv])
  then show ?thesis using False lease_step_ok [where f = XoLease and rq = rq, OF inv] by (simp add: renew_def moved_def)
qed (use lawful_refl [OF inv] in \<open>auto simp: renew_def step_ok_def reply_def moved_def\<close>)

lemma attach_step_ok:
  assumes inv: "exec_inv (attempts_of E) d"
  shows "step_ok E rq d (reply XoLease (attach_run_id sha i v token run now d))"
proof (cases "\<not> valid_identity i v \<or> \<not> valid_secret token \<or> \<not> is_run_id run")
  case False
  obtain r d' where "attach_run_tx sha i v token run now d = Inr (r, d')" "lawful (attempts_of E) d d'"
    by (rule attach_ok [where run = run, OF inv]) (use False in blast)+
  then show ?thesis using False lease_step_ok [where f = XoLease and rq = rq, OF inv] by (simp add: attach_run_id_def moved_def)
qed (use lawful_refl [OF inv] in \<open>auto simp: attach_run_id_def step_ok_def reply_def moved_def\<close>)

lemma gate_step_ok:
  assumes inv: "exec_inv (attempts_of E) d" and E: "env_ok E" and cfg: "config_ok cfg"
  shows "step_ok E (now, XqStart i v a) d (reply XoMove (start_action local utc i v a now d))"
    and "step_ok E (now, XqReview i v a) d (reply XoMove (review_action local utc i v a now d))"
    and "step_ok E (now, XqAdopt i v) d (reply XoMove (adopt_installed_revision cfg i v now d))"
    and "step_ok E (now, XqRetry i v) d (reply XoMove (retry i v now d))"
    and "step_ok E (now, XqSelect i v p q) d (reply XoMove (select_agent cfg i v p q now d))"
    and "step_ok E (now, XqPriority i v a) d (reply XoMove (set_priority i v a now d))"
proof -
  let ?M = "attempts_of E"
  note M = env_okD(2) [OF E] and once = answers_once_serves [OF inv] and ref = step_ok_refused [OF inv]
  have s: "serves ?M i v d (apply_start_action local utc i v a now d)"
    "serves ?M i v d (apply_review_action local utc i v a now d)" "serves ?M i v d (adopt_tx cfg i v now d)"
    "serves ?M i v d (retry_tx i v now d)"
    by (rule once, rule start_answers_once [OF inv M] review_answers_once [OF inv M] adopt_answers_once [OF inv cfg]
        retry_answers_once [OF inv M])+
  have sel: "serves ?M i v d (apply_agent_selection i v pr now d)"
    if "registry_resolve_current (ec_registry cfg) (Some p) (Some q) = Some pr" for pr
    by (rule once, rule agent_selection_answers_once [OF inv registry_profile_ok(2) [OF config_ok_profiles [OF cfg] that]])
  have r: "rq_task (snd (now, rq)) = i \<Longrightarrow> rq_version (snd (now, rq)) = v \<Longrightarrow> serves ?M i v d (h d) \<Longrightarrow>
    step_ok E (now, rq) d (reply XoMove (commit_accepted h d))" for rq h
    using step_ok_commit [where h = h and rq = "(now, rq)", OF inv] by simp
  note names = rq_task_def rq_version_def
  show "step_ok E (now, XqStart i v a) d (reply XoMove (start_action local utc i v a now d))"
    unfolding start_action_def using ref r [where h = "apply_start_action local utc i v a now", OF _ _ s(1)] by (simp add: names)
  show "step_ok E (now, XqReview i v a) d (reply XoMove (review_action local utc i v a now d))"
    unfolding review_action_def using ref r [where h = "apply_review_action local utc i v a now", OF _ _ s(2)] by (simp add: names)
  show "step_ok E (now, XqAdopt i v) d (reply XoMove (adopt_installed_revision cfg i v now d))"
    unfolding adopt_installed_revision_def using ref r [where h = "adopt_tx cfg i v now", OF _ _ s(3)] by (simp add: names)
  show "step_ok E (now, XqRetry i v) d (reply XoMove (retry i v now d))"
    unfolding retry_def using ref r [where h = "retry_tx i v now", OF _ _ s(4)] by (simp add: names)
  show "step_ok E (now, XqSelect i v p q) d (reply XoMove (select_agent cfg i v p q now d))"
    unfolding select_agent_def using ref r [where h = "apply_agent_selection i v pr now" for pr, OF _ _ sel] by (simp add: names split: option.split)
  show "step_ok E (now, XqPriority i v a) d (reply XoMove (set_priority i v a now d))"
    unfolding set_priority_def using ref r [where h = "set_priority_tx i v a pr now" for pr, OF _ _ priority_ok [OF inv]] by (simp add: names split: option.split)
qed

lemma exec_step_ok:
  assumes inv: "exec_inv (attempts_of E) d" and E: "env_ok E"
  shows "step_ok E rq d (exec_step E rq d)"
proof -
  obtain now q where rq: "rq = (now, q)" by (cases rq)
  show ?thesis
  proof (cases q)
    case (XqTask i v a)
    have "lawful (attempts_of E) d (snd (transition i v a now d))"
      by (rule lawful_frame [OF inv]) (simp_all add: transition_keeps_execution)
    then show ?thesis by (simp add: exec_step_def rq XqTask step_ok_def moved_def split_beta)
  next
    case (XqFail i v token rep)
    show ?thesis
    proof (cases "valid_report rep")
      case None
      then show ?thesis using step_ok_refused [OF inv] by (simp add: exec_step_def rq XqFail fail_claim_def Let_def)
    next
      case (Some rep')
      have "step_ok E rq d (reply XoMove (finish_run_claim (attempts_of E) (xe_sha E) i v token (Some rep') now d))"
        by (rule finish_step_ok [OF inv]) (use valid_report_ok [OF Some] in \<open>simp_all add: rq XqFail rq_task_def rq_version_def\<close>)
      then show ?thesis using Some by (simp add: exec_step_def rq XqFail fail_claim_def Let_def)
    qed
  next
    case (XqRelease i v token)
    have "step_ok E rq d (reply XoMove (finish_run_claim (attempts_of E) (xe_sha E) i v token None now d))"
      by (rule finish_step_ok [OF inv]) (simp_all add: rq XqRelease rq_task_def rq_version_def)
    then show ?thesis by (simp add: exec_step_def rq XqRelease release_def Let_def)
  qed (simp_all add: exec_step_def rq Let_def gate_step_ok [OF inv E env_okD(1) [OF E]] record_step_ok [OF inv E] claim_step_ok [OF inv E]
      schedule_step_ok [OF inv E] renew_step_ok [OF inv] attach_step_ok [OF inv])
qed

section \<open>The interface\<close>

definition workflow_version :: "rowid \<Rightarrow> db \<Rightarrow> int option" where
  "workflow_version i d = map_option wf_version (workflow_of i d)"

lemma runs_on_version:
  assumes "runs_on d d'" and "workflow_version k d = Some v"
  obtains v' where "v \<le> v'" and "workflow_version k d' = Some v'"
proof -
  obtain w where w: "workflow_of k d = Some w" "wf_version w = v" using assms(2) by (auto simp: workflow_version_def)
  then obtain w' where "workflow_of k d' = Some w'" "workflow_step\<^sup>*\<^sup>* (view_of w) (view_of w')"
    using assms(1) unfolding runs_on_def by blast
  then show thesis using that [of "wf_version w'"] workflow_steps_version [of "view_of w" "view_of w'"] w(2)
    by (simp add: view_of_def workflow_version_def)
qed

interpretation execution: fenced_op "exec_step E" moved "\<lambda>rq. rq_task (snd rq)" "\<lambda>rq. rq_version (snd rq)"
  workflow_version "\<lambda>d. env_ok E \<and> exec_inv (attempts_of E) d" for E
proof unfold_locales
  fix d :: db and r :: "time \<times> exec_request" and k v
  assume "env_ok E \<and> exec_inv (attempts_of E) d"
  then have E: "env_ok E" and ok: "step_ok E r d (exec_step E r d)" using exec_step_ok by blast+
  then have law: "lawful (attempts_of E) d (snd (exec_step E r d))" by (simp add: step_ok_def)
  show "env_ok E \<and> exec_inv (attempts_of E) (snd (exec_step E r d))" using E law by (simp add: lawful_def)
  show "moved (fst (exec_step E r d)) \<Longrightarrow> workflow_version (rq_task (snd r)) d = Some (rq_version (snd r))"
    "moved (fst (exec_step E r d)) \<Longrightarrow>
      workflow_version (rq_task (snd r)) (snd (exec_step E r d)) = Some (rq_version (snd r) + 1)"
    using ok by (simp_all add: step_ok_def fenced_move_def workflow_version_def)
  show "workflow_version k d = Some v \<Longrightarrow> \<exists>v' \<ge> v. workflow_version k (snd (exec_step E r d)) = Some v'"
    using law runs_on_version [of d "snd (exec_step E r d)" k v] by (auto simp: lawful_def)
qed

end
