(* ===== verification/ExecSamples.thy ===== *)
theory ExecSamples
  imports ExecService "HOL-Library.Code_Target_Nat"
begin

text \<open>A small deployment of the execution service, for the concrete runs of its properties.\<close>

section \<open>A sample deployment\<close>

definition sample_digest :: "string \<Rightarrow> string" where
  "sample_digest s = map (\<lambda>c. ''0123456789abcdef'' ! (code_of c mod 16)) (take 64 (s @ replicate 64 CHR ''0''))"

definition sample_profile :: profile where
  "sample_profile = \<lparr>pr_id = ''general'', pr_revision = replicate 64 CHR ''a'', pr_phases = all_phases, pr_lease = 600\<rparr>"

definition sample_config :: exec_config where
  "sample_config = \<lparr>ec_registry = \<lparr>rg_profiles = [sample_profile], rg_historical = []\<rparr>,
     ec_default = sample_profile, ec_routes = [], ec_planning_grants = [], ec_ask_other = [], ec_steer = [],
     ec_execution_grants = [], ec_action_grants = [], ec_skip_planning = [], ec_aliases = [],
     ec_max_attempts = 3, ec_slot_cap = Some 1\<rparr>"

definition sample_env :: exec_env where
  "sample_env = \<lparr>xe_config = sample_config, xe_sha = sample_digest, xe_local = (\<lambda>t. t), xe_utc = (\<lambda>t. t)\<rparr>"

lemma sample_env_ok: "env_ok sample_env"
proof -
  have "config_ok sample_config" by code_simp
  then show ?thesis by (simp add: env_ok_def sample_env_def sample_digest_def min_def)
qed

definition sample_token :: string where
  "sample_token = ''0123456789abcdef0123456789abcdef''"

definition sample_answer :: "int \<Rightarrow> envelope" where
  "sample_answer v = \<lparr>en_result_id = ''result-1'', en_task_id = 1, en_task_version = 1, en_workflow_version = v,
     en_phase = PhasePlan, en_claim_token = sample_token, en_outcome = OutAwaitingPlan, en_summary = ''The plan.'',
     en_work_markdown = ''Do it.'', en_work_digest = [], en_questions = [], en_external_actions = [],
     en_deliverables = [], en_references = [], en_repository_impact = False, en_work_directory = None,
     en_kb_file = None, en_artifacts = [], en_instruction = None\<rparr>"

text \<open>A task whose plan runs since 30, and the same one waiting to be started.\<close>

definition sample_workflow :: "workflow_status \<Rightarrow> workflow_row" where
  "sample_workflow st = (fresh_workflow 1 1 st PhasePlan sample_profile False 10)\<lparr>wf_version := 3\<rparr>"

definition sample_running :: workflow_row where
  "sample_running = take_claim (sample_digest sample_token) 30 630 ((sample_workflow WfQueued)\<lparr>wf_version := 2\<rparr>)"

definition sample_execution :: "workflow_row \<Rightarrow> db" where
  "sample_execution w = sample_ledger\<lparr>workflows := [w],
     workflow_events := [\<lparr>we_task_id = 1, we_kind = ''scheduled'', we_workflow_version = wf_version w,
       we_task_version = 1, we_phase = wf_phase w, we_status = wf_status w, we_occurred_at = 10,
       we_profile_id = wf_profile_id w,
       we_profile_revision = wf_profile_revision w\<rparr>]\<rparr>"

lemma sample_execution_inv:
  assumes "wf_task_id w = 1" and "wf_check w" and "attempts_left 3 w" and "wf_phase w \<noteq> PhaseExternalAction"
  shows "exec_inv 3 (sample_execution w)"
  using assms by (simp add: exec_inv_def sample_execution_def workflow_ok_def unique_key_def explained_def
      last_event_def last_opener_def PHASE_OPENERS_def opens_def)

lemma sample_running_ok:
  "exec_inv 3 (sample_execution sample_running)" "exec_inv 3 (sample_execution (sample_workflow WfAwaitingStart))"
  by (rule sample_execution_inv; code_simp)+

text \<open>Answers to one workflow, some of them late.\<close>

definition sample_requests :: "(time \<times> exec_request) list" where
  "sample_requests = [(20, XqStart 1 3 ''snooze''), (25, XqStart 1 3 ''cancel''), (30, XqRetry 1 4),
     (40, XqStart 1 4 ''cancel'')]"

end
