(* ===== verification/ExecProps.thy ===== *)
theory ExecProps
  imports ExecSamples
begin

text \<open>
  The properties of the execution service, over every sequence of requests: the log explains the
  rows, workflows follow their machine, versions fence every move, claims are earned, workers write
  only under their claim, and what failures and results may do.
\<close>

section \<open>Every sequence of requests\<close>

lemma run_step_ok:
  assumes "env_ok E" and "exec_inv (attempts_of E) d"
  shows "lawful (attempts_of E) d (snd (run_ops (exec_step E) rqs d))"
  using assms(2)
proof (induction rqs arbitrary: d)
  case (Cons rq rqs)
  let ?d1 = "snd (exec_step E rq d)"
  have 1: "lawful (attempts_of E) d ?d1" using exec_step_ok [OF Cons.prems assms(1)] by (simp add: step_ok_def)
  then have "lawful (attempts_of E) ?d1 (snd (run_ops (exec_step E) rqs ?d1))"
    by (intro Cons.IH) (simp add: lawful_def)
  then show ?case using lawful_trans [OF 1] by simp
qed (simp add: lawful_refl)

text \<open>C2: The log explains the rows.  Whatever requests the reader, the workers and the ledger send, every
  workflow satisfies the constraints of its table, has the version and status of its last event and
  the phase of the last event that opened one (an external action only after an approval or a
  grant), and has attempts left while it is queued or runs.\<close>

theorem workflow_log_explains_state:
  assumes "env_ok E" and "exec_inv (attempts_of E) d"
  shows "exec_inv (attempts_of E) (snd (run_ops (exec_step E) rqs d))"
  using run_step_ok [OF assms, of rqs] by (simp add: lawful_def)

theorem workflow_log_explains_state_witness:
  "exec_inv 3 (snd (run_ops (exec_step sample_env) sample_requests (sample_execution sample_running)))"
  using workflow_log_explains_state [OF sample_env_ok, of "sample_execution sample_running" sample_requests]
    sample_running_ok(1) by (simp add: sample_env_def sample_config_def)

text \<open>C4: The service refines the workflow machine.  Over any sequence of requests no workflow is lost and
  each moves from its state to its last one along the steps of the machine, one version per step: an
  approval, a grant, a revision or a new plan of the task changes the phase, a claim starts a run,
  and a run ends in a recorded result, a release, a park or a cancellation.\<close>

theorem service_refines_workflow_machine:
  assumes "env_ok E" and "exec_inv (attempts_of E) d"
  shows "runs_on d (snd (run_ops (exec_step E) rqs d))"
  using run_step_ok [OF assms, of rqs] by (simp add: lawful_def)

theorem service_refines_workflow_machine_witness:
  "runs_on (sample_execution sample_running)
     (snd (run_ops (exec_step sample_env) sample_requests (sample_execution sample_running)))"
  using service_refines_workflow_machine [OF sample_env_ok, of "sample_execution sample_running" sample_requests]
    sample_running_ok(1) by (simp add: sample_env_def sample_config_def)

text \<open>C7: Requests on workflows are fenced.  In any sequence of requests the ones that moved the same
  workflow carried strictly increasing versions, so that no decision is lost or made twice, whoever
  sends it.\<close>

theorem workflow_requests_are_fenced:
  assumes "env_ok E" and "exec_inv (attempts_of E) d" and "m < n" and "n < length rqs"
    and "moved (fst (run_ops (exec_step E) rqs d) ! m)" and "moved (fst (run_ops (exec_step E) rqs d) ! n)"
    and "rq_task (snd (rqs ! m)) = rq_task (snd (rqs ! n))"
  shows "rq_version (snd (rqs ! m)) < rq_version (snd (rqs ! n))"
  using execution.accepted_strictly_increasing [of E d m n rqs] assms by simp

lemma sample_requests_moved:
  "map moved (fst (run_ops (exec_step sample_env) sample_requests (sample_execution (sample_workflow WfAwaitingStart))))
    = [True, False, False, True]"
  by code_simp

theorem workflow_requests_are_fenced_witness:
  "rq_version (snd (sample_requests ! 0)) < rq_version (snd (sample_requests ! 3))"
proof (rule workflow_requests_are_fenced [where m = 0 and n = 3 and d = "sample_execution (sample_workflow WfAwaitingStart)", OF sample_env_ok])
  let ?r = "fst (run_ops (exec_step sample_env) sample_requests (sample_execution (sample_workflow WfAwaitingStart)))"
  have len: "length ?r = 4" by (simp add: length_run_ops sample_requests_def)
  have "map moved ?r ! 0" "map moved ?r ! 3" by (simp_all add: sample_requests_moved)
  then show "moved (?r ! 0)" "moved (?r ! 3)" using len by simp_all
  show "exec_inv (attempts_of sample_env) (sample_execution (sample_workflow WfAwaitingStart))"
    using sample_running_ok(2) by (simp add: sample_env_def sample_config_def)
qed (simp_all add: sample_requests_def rq_task_def)

lemma no_integrity_error:
  assumes "env_ok E" and "exec_inv (attempts_of E) d" and "n < length rqs" and "\<not> (\<exists>e. snd (rqs ! n) = XqRecord e)"
  shows "fst (run_ops (exec_step E) rqs d) ! n \<noteq> XoRaised (IntegrityError m)"
  using assms(2-)
proof (induction rqs arbitrary: d n)
  case (Cons rq rqs)
  have "step_ok E rq d (exec_step E rq d)" by (rule exec_step_ok [OF Cons.prems(1) assms(1)])
  then show ?case
    using Cons.IH [of "snd (exec_step E rq d)" "n - 1"] Cons.prems by (cases n) (auto simp: step_ok_def lawful_def)
qed simp

text \<open>C9: Claims are earned.  A granted claim runs under the digest of the worker's token for the lease of
  its profile; its task is open at the version the workflow was made for and has no condition left to
  wait for; its phase is one the worker asked for and its profile is installed for; its source is not
  withdrawn; and with it no more slots run than the cap allows.\<close>

theorem claims_are_earned:
  assumes "env_ok E" and "exec_inv (attempts_of E) d"
    and "exec_step E (now, XqClaim ps token) d = (XoClaim (Some c), d')"
  shows "\<exists>phases. phase_allowlist ps = Inr phases
    \<and> claim_earned (xe_config E) (xe_sha E) phases c now d' \<and> ex_token c = token"
proof -
  have out: "reply XoClaim (claim_next_workflow (xe_config E) (xe_sha E) ps token now d) = (XoClaim (Some c), d')"
    using assms(3) by (simp add: exec_step_def)
  then obtain phases where ph: "phase_allowlist ps = Inr phases" "valid_secret token"
    by (cases "phase_allowlist ps") (auto simp: claim_next_workflow_def reply_def split: if_splits)
  obtain x d1 where 1: "claim_tx (xe_config E) (xe_sha E) phases token now d = Inr (x, d1)"
    "\<And>y. x = Some y \<Longrightarrow> claim_earned (xe_config E) (xe_sha E) phases y now d1 \<and> ex_token y = token"
    by (rule claim_tx_ok [where sha = "xe_sha E" and phases = phases and token = token and now = now,
          OF assms(2) env_okD(2,3) [OF assms(1)]]) blast
  have "x = Some c" "d1 = d'" using out ph 1(1) by (simp_all add: claim_next_workflow_def reply_def run_tx_def)
  then show ?thesis using 1(2) ph(1) by blast
qed

definition sample_claimed :: "exec_reply \<times> db" where
  "sample_claimed = exec_step sample_env (30, XqClaim None sample_token) (sample_execution (sample_workflow WfQueued))"

lemma sample_workflow_claim_granted: "case fst sample_claimed of XoClaim (Some c) \<Rightarrow> ex_expires_at c = 630 | _ \<Rightarrow> False"
  by code_simp

theorem claims_are_earned_witness:
  "\<exists>c. fst sample_claimed = XoClaim (Some c) \<and> ex_expires_at c = 630
    \<and> claim_earned sample_config sample_digest all_phases c 30 (snd sample_claimed)"
proof -
  obtain c where c: "fst sample_claimed = XoClaim (Some c)" "ex_expires_at c = 630"
    using sample_workflow_claim_granted by (auto split: exec_reply.splits option.splits)
  have inv: "exec_inv (attempts_of sample_env) (sample_execution (sample_workflow WfQueued))"
    unfolding sample_env_def sample_config_def exec_env.simps exec_config.simps
    by (rule sample_execution_inv; code_simp)
  have "exec_step sample_env (30, XqClaim None sample_token) (sample_execution (sample_workflow WfQueued))
      = (XoClaim (Some c), snd sample_claimed)"
    using c(1) by (metis prod.collapse sample_claimed_def)
  from claims_are_earned [OF sample_env_ok inv this] show ?thesis
    using c by (auto simp: phase_allowlist_def sample_env_def)
qed

section \<open>Writing under a claim\<close>

definition worker_call :: "exec_request \<Rightarrow> (rowid \<times> int \<times> string) option" where
  "worker_call rq = (case rq of
       XqRenew i v token lease \<Rightarrow> Some (i, v, token) | XqAttach i v token run \<Rightarrow> Some (i, v, token)
     | XqRelease i v token \<Rightarrow> Some (i, v, token) | XqFail i v token rep \<Rightarrow> Some (i, v, token)
     | XqRecord e \<Rightarrow> Some (en_task_id e, en_workflow_version e, en_claim_token e) | _ \<Rightarrow> None)"

definition holds :: "(string \<Rightarrow> string) \<Rightarrow> rowid \<Rightarrow> int \<Rightarrow> string \<Rightarrow> time \<Rightarrow> db \<Rightarrow> bool" where
  "holds sha i v token now d \<longleftrightarrow> (\<exists>w e. workflow_of i d = Some w \<and> wf_status w = WfRunning \<and> wf_version w = v
     \<and> wf_claim_token_digest w = Some (sha token) \<and> wf_claim_expires_at w = Some e \<and> now < e)"

lemma running_guard_holds:
  assumes "running_guard (map_option fst (workflow_with_task i d)) v (sha token) now = None"
  shows "holds sha i v token now d"
proof -
  obtain w e where "map_option fst (workflow_with_task i d) = Some w" "wf_version w = v" "wf_status w = WfRunning"
    "wf_claim_token_digest w = Some (sha token)" "wf_claim_expires_at w = Some e" "now < e"
    using assms unfolding running_guard_None by blast
  then show ?thesis by (auto simp: holds_def workflow_with_task_Some)
qed

lemma claim_guard_holds: "claim_guard sha i v token now d = None \<Longrightarrow> holds sha i v token now d"
  unfolding claim_guard_def Let_def by (erule both_guards_None) (rule running_guard_holds)

lemma record_guard_holds:
  "record_guard sha e now d = None \<Longrightarrow> holds sha (en_task_id e) (en_workflow_version e) (en_claim_token e) now d"
  by (rule running_guard_holds) (auto simp: record_guard_def Let_def split: option.splits)

text \<open>Without the claim the transactions of a worker return the database they were given.\<close>

lemma commit_same: "(\<And>r d'. h d = Inr (r, d') \<Longrightarrow> d' = d) \<Longrightarrow> snd (commit_accepted h d) = d"
  by (auto simp: commit_accepted_def split: sum.split)

lemma guarded_txs_same:
  assumes "\<not> holds sha i v token now d"
  shows "renew_tx sha i v token lease now d = Inr (r, d') \<Longrightarrow> d' = d"
    and "attach_run_tx sha i v token run now d = Inr (r, d') \<Longrightarrow> d' = d"
    and "finish_run_tx M sha i v token rep now d = Inr (r, d') \<Longrightarrow> d' = d"
proof -
  obtain ref where g: "claim_guard sha i v token now d = Some ref"
    using assms claim_guard_holds by (cases "claim_guard sha i v token now d") blast+
  obtain ref' where g': "running_guard (map_option fst (workflow_with_task i d)) v (sha token) now = Some ref'"
    using assms running_guard_holds
    by (cases "running_guard (map_option fst (workflow_with_task i d)) v (sha token) now") blast+
  show "renew_tx sha i v token lease now d = Inr (r, d') \<Longrightarrow> d' = d" by (simp add: renew_tx_def Let_def g)
  show "attach_run_tx sha i v token run now d = Inr (r, d') \<Longrightarrow> d' = d" by (simp add: attach_run_tx_def Let_def g')
  show "finish_run_tx M sha i v token rep now d = Inr (r, d') \<Longrightarrow> d' = d" by (simp add: finish_run_tx_def Let_def g)
qed

lemma record_result_same:
  assumes "\<not> holds sha (en_task_id e) (en_workflow_version e) (en_claim_token e) now d"
  shows "snd (record_result cfg sha e now d) = d"
proof (cases "validated_result sha e")
  case (Some v)
  have e: "vr_envelope v = e" using Some by (auto simp: validated_result_def Let_def split: option.splits if_splits)
  obtain ref where "record_guard sha e now d = Some ref"
    using assms record_guard_holds by (cases "record_guard sha e now d") blast+
  then have "record_tx cfg sha v now d = Inr (r, d') \<Longrightarrow> d' = d" for r d'
    by (auto simp: record_tx_def Let_def e split: option.splits if_splits)
  then show ?thesis using Some by (auto simp: record_result_def run_tx_def split: sum.split)
qed (simp add: record_result_def)

text \<open>C8: Workers write only under their claim.  A call of a worker that changes anything at all names a
  workflow that runs, at its current version, under the digest of the token the worker presents and
  within its lease.\<close>

theorem worker_writes_hold_the_claim:
  assumes "worker_call rq = Some (i, v, token)" and "snd (exec_step E (now, rq) d) \<noteq> d"
  shows "holds (xe_sha E) i v token now d"
proof (rule ccontr)
  assume no: "\<not> holds (xe_sha E) i v token now d"
  have same: "snd (commit_accepted (renew_tx (xe_sha E) i v token lease now) d) = d"
    "snd (commit_accepted (attach_run_tx (xe_sha E) i v token run now) d) = d"
    "snd (commit_accepted (finish_run_tx M (xe_sha E) i v token rep now) d) = d" for lease run M rep
    by (rule commit_same, erule guarded_txs_same [OF no])+
  have "snd (exec_step E (now, rq) d) = d"
  proof (cases rq)
    case (XqRecord e)
    then show ?thesis using no assms(1) record_result_same [of "xe_sha E" e now d]
      by (simp add: exec_step_def reply_def worker_call_def)
  qed (use assms(1) same in \<open>simp_all add: exec_step_def reply_def worker_call_def renew_def attach_run_id_def
      release_def fail_claim_def finish_run_claim_def Let_def split: option.split\<close>)
  then show False using assms(2) by blast
qed

lemma sample_renewal:
  "workflow_events (snd (exec_step sample_env (40, XqRenew 1 3 sample_token 900) (sample_execution sample_running)))
    \<noteq> workflow_events (sample_execution sample_running)"
  by code_simp

theorem worker_writes_hold_the_claim_witness:
  "holds sample_digest 1 3 sample_token 40 (sample_execution sample_running)"
proof -
  have "snd (exec_step sample_env (40, XqRenew 1 3 sample_token 900) (sample_execution sample_running))
      \<noteq> sample_execution sample_running" using sample_renewal by metis
  from worker_writes_hold_the_claim [OF _ this, of 1 3 sample_token] show ?thesis
    by (simp add: worker_call_def sample_env_def)
qed

section \<open>Passes and conditions\<close>

text \<open>C13: No stale workflow remains.  The pass that cancels stale workflows always returns; after it no
  workflow that is still alive has a closed task, a task of another version or a withdrawn source;
  it cancelled exactly the stale ones and touched no other.\<close>

theorem no_stale_workflow_remains:
  assumes "exec_inv M d"
  shows "\<exists>d'. cancel_stale_workflows now d = Inr d' \<and> list_all (\<lambda>w. \<not> workflow_stale d' w) (workflows d')
    \<and> (\<forall>i w. workflow_of i d = Some w \<longrightarrow> (\<exists>w'. workflow_of i d' = Some w'
         \<and> (if workflow_stale d w then wf_status w' = WfCancelled else w' = w)))"
proof -
  obtain d' where d': "cancel_stale_workflows now d = Inr d'" "\<And>w. w \<in> set (workflows d') \<Longrightarrow> \<not> workflow_stale d' w"
    "\<And>i w. workflow_of i d = Some w \<Longrightarrow> \<not> workflow_stale d w \<Longrightarrow> workflow_of i d' = Some w"
    "\<And>i w. workflow_of i d = Some w \<Longrightarrow> workflow_stale d w \<Longrightarrow>
      \<exists>w'. workflow_of i d' = Some w' \<and> wf_status w' = WfCancelled"
    by (rule cancel_stale_workflows_ok [OF assms]) blast
  have "\<exists>w'. workflow_of i d' = Some w' \<and> (if workflow_stale d w then wf_status w' = WfCancelled else w' = w)"
    if "workflow_of i d = Some w" for i w
    using d'(3,4) [OF that] by (cases "workflow_stale d w") auto
  then show ?thesis using d'(1,2) unfolding list_all_iff by blast
qed

definition sample_stale :: db where
  "sample_stale = (sample_execution sample_running)\<lparr>tasks := [sample_task 1 TaskDone 2]\<rparr>"

theorem no_stale_workflow_remains_witness:
  "\<exists>d' w'. cancel_stale_workflows 40 sample_stale = Inr d' \<and> workflow_of 1 d' = Some w' \<and> wf_status w' = WfCancelled"
proof -
  have "exec_inv 3 sample_stale" using sample_running_ok(1) by (simp add: sample_stale_def exec_inv_def)
  moreover have "workflow_of 1 sample_stale = Some sample_running" "workflow_stale sample_stale sample_running"
    by code_simp+
  ultimately show ?thesis using no_stale_workflow_remains [of 3 sample_stale 40] by fastforce
qed

text \<open>C14: Conditions hold a task back until every one is met.  The evaluation lets a task run exactly when
  each of its pending conditions belongs to this version of the task and is due, or waits for a task
  that is done; and then no condition of the task is pending any more.\<close>

theorem conditions_release_exactly_when_met:
  assumes "evaluate_task_conditions i tv now d = (go, d')"
  shows "(go \<longleftrightarrow> list_all (\<lambda>c. pending_condition i c \<longrightarrow> met tv now d c) (conditions d))
    \<and> (go \<longrightarrow> list_all (\<lambda>c. \<not> pending_condition i c) (conditions d'))"
proof -
  have "go = fst (evaluate_task_conditions i tv now d)" using assms by simp
  also have "\<dots> = list_all (\<lambda>c. pending_condition i c \<longrightarrow> met tv now d c) (conditions d)"
    unfolding evaluate_task_conditions_def evaluate_conditions_met
    by (auto simp: list_all_iff pending_condition_def)
  finally show ?thesis using released_task_has_no_pending_condition [of i tv now d d'] assms
    by (auto simp: list_all_iff)
qed

definition sample_condition :: "rowid \<Rightarrow> condition_kind \<Rightarrow> condition_row" where
  "sample_condition k kind = \<lparr>sc_id = k, sc_task_id = 1, sc_task_version = 1, sc_kind = kind,
     sc_state = CondActive, sc_change_set_id = 1, sc_created_at = 0, sc_updated_at = 0\<rparr>"

definition sample_waiting :: db where
  "sample_waiting = sample_ledger\<lparr>tasks := [sample_task 1 TaskOpen 1, sample_task 2 TaskDone 2],
     conditions := [sample_condition 1 (NotBefore 50), sample_condition 2 (AfterTaskCompleted 2)]\<rparr>"

theorem conditions_release_exactly_when_met_witness:
  "fst (evaluate_task_conditions 1 1 50 sample_waiting) \<and> \<not> fst (evaluate_task_conditions 1 1 49 sample_waiting)"
proof -
  have "list_all (\<lambda>c. pending_condition 1 c \<longrightarrow> met 1 50 sample_waiting c) (conditions sample_waiting)"
    "\<not> list_all (\<lambda>c. pending_condition 1 c \<longrightarrow> met 1 49 sample_waiting c) (conditions sample_waiting)"
    by code_simp+
  then show ?thesis using conditions_release_exactly_when_met [OF prod.collapse [symmetric], of 1 1 50 sample_waiting]
    conditions_release_exactly_when_met [OF prod.collapse [symmetric], of 1 1 49 sample_waiting] by blast
qed

section \<open>Failures\<close>







definition sample_timeout :: failure_report where
  "sample_timeout = \<lparr>fp_reason = ''timeout'', fp_exit_code = None, fp_run_id = None, fp_evidence = None\<rparr>"




section \<open>Results\<close>

lemma validated_envelope: "validated_result sha e = Some v \<Longrightarrow> vr_envelope v = e"
  by (auto simp: validated_result_def Let_def split: option.splits if_splits)

text \<open>An applied result: the row was inserted and the workflow settled.\<close>

lemma record_applied:
  assumes inv: "exec_inv M d" and M: "0 < M" and out: "record_result cfg sha e now d = (Inr r, d')"
    and r: "xr_disposition r = WdApplied"
  obtains v w where "validated_result sha e = Some v" and "workflow_of (en_task_id e) d = Some w"
    and "workflow_of (en_task_id e) d' = Some (recorded_row cfg e now d w)"
    and "results d' = results d @ [result_of v w now]"
    and "\<forall>x \<in> set (results d). rs_result_id x \<noteq> en_result_id e"
proof -
  let ?i = "en_task_id e"
  obtain v where v: "validated_result sha e = Some v"
    using out r by (cases "validated_result sha e") (auto simp: record_result_def)
  note e = validated_envelope [OF v]
  have tx: "record_tx cfg sha v now d = Inr (r, d')"
    using out v by (auto simp: record_result_def run_tx_def split: sum.splits)
  have new: "List.find (\<lambda>x. rs_result_id x = en_result_id e) (results d) = None"
    using tx r by (auto simp: record_tx_def Let_def e split: option.splits if_splits)
  have g: "record_guard sha e now d = None"
    using tx r new by (cases "record_guard sha e now d") (auto simp: record_tx_def Let_def e)
  obtain w t where row: "workflow_with_task ?i d = Some (w, t)" and w: "wf_version w = en_workflow_version e"
    "wf_status w = WfRunning" "wf_phase w = en_phase e" using g by (rule record_guard_None)
  have wo: "workflow_of ?i d = Some w" using row by (simp add: workflow_with_task_Some)
  have "record_tx cfg sha v now d = (if repeats_an_earlier_answer v d
      then rbind (wf_event ?i ''result_unchanged'' (wf_version w) (wf_task_version w) (wf_phase w) (wf_status w) now d)
             (\<lambda>d1. Inr (wf_refused_row ?i (Some w) WrResultUnchanged, d1))
      else record_fresh cfg v w now d)"
    using new g row by (simp add: record_tx_def Let_def e)
  then have fresh: "record_fresh cfg v w now d = Inr (r, d')"
    using tx r by (auto simp: wf_event_def insert_workflow_events_def wo split: if_splits)
  have go1: "result_target (en_phase e) (en_outcome e) \<noteq> None"
    using fresh r by (auto simp: record_fresh_def Let_def e split: option.splits)
  then obtain d0 where go2: "insert_result (result_of v w now) (artifact_rows e) d = Inr d0"
    using fresh by (cases "insert_result (result_of v w now) (artifact_rows e) d")
      (auto simp: record_fresh_def Let_def e)
  obtain r1 d4 where 1: "record_fresh cfg v w now d = Inr (r1, d4)"
    "workflow_of ?i d4 = Some (recorded_row cfg e now d w)" "results d4 = results d0"
    by (rule record_fresh_go [OF inv M wo, of v now d0 cfg]) (use w e go1 go2 in simp_all)
  have "results d0 = results d @ [result_of v w now]" using go2 by (auto simp: insert_result_def split: if_splits)
  then show thesis using that [OF v wo] 1 fresh new by (auto simp: find_None_iff)
qed

text \<open>C11: A result opens only what was granted.  A recorded result is stored with the outcome it reports
  and leaves its workflow at the review gate in the same phase, unless it is a plan and the kind of
  the task's source has an execution grant, when execution is queued, or it asks for an external
  action and the kind has an action grant, when the action is queued.  No grant opens two gates at
  once and no other outcome opens any.\<close>

theorem results_open_only_granted_phases:
  assumes "exec_inv M d" and "0 < M" and "record_result cfg sha e now d = (Inr r, d')"
    and "xr_disposition r = WdApplied"
  shows "\<exists>w x. workflow_of (en_task_id e) d' = Some w \<and> results d' = results d @ [x]
    \<and> rs_result_id x = en_result_id e \<and> rs_outcome x = en_outcome e \<and> rs_phase x = en_phase e
    \<and> wf_last_result_id w = Some (en_result_id e)
    \<and> (let kind = origin_kind (en_task_id e) d in
       if en_phase e = PhasePlan \<and> en_outcome e = OutAwaitingPlan \<and> declared kind (ec_execution_grants cfg)
       then wf_status w = WfQueued \<and> wf_phase w = PhaseExecute
       else if en_phase e = PhaseExecute \<and> en_outcome e = OutAwaitingExternal \<and> declared kind (ec_action_grants cfg)
       then wf_status w = WfQueued \<and> wf_phase w = PhaseExternalAction
       else wf_status w = WfAwaitingReview \<and> wf_phase w = en_phase e)"
proof -
  obtain v w where 1: "validated_result sha e = Some v"
    "workflow_of (en_task_id e) d' = Some (recorded_row cfg e now d w)" "results d' = results d @ [result_of v w now]"
    by (rule record_applied [OF assms])
  show ?thesis
    by (rule exI [of _ "recorded_row cfg e now d w"], rule exI [of _ "result_of v w now"])
      (simp add: 1 validated_envelope [OF 1(1)] result_of_def recorded_row_def granted_def granted_advance_def Let_def)
qed

section \<open>Recording a result again\<close>

text \<open>The results, and whether every event of the log meets the constraints of its table.\<close>

definition held :: "db \<Rightarrow> result_row list \<times> bool" where
  "held d = (results d, list_all event_check (workflow_events d))"

definition keeps_results :: "db \<Rightarrow> db \<Rightarrow> bool" where
  "keeps_results d d' \<longleftrightarrow> (\<exists>xs. results d' = results d @ xs) \<and> snd (held d') = snd (held d)"

lemma keeps_results_eq: "held d' = held d \<Longrightarrow> keeps_results d d'"
  by (simp add: keeps_results_def held_def)

lemma keeps_results_trans: "keeps_results a b \<Longrightarrow> keeps_results b c \<Longrightarrow> keeps_results a c"
  by (auto simp: keeps_results_def)

lemma keeps_results_held: "keeps_results d z \<Longrightarrow> held d' = held z \<Longrightarrow> keeps_results d d'"
  by (rule keeps_results_trans [OF _ keeps_results_eq])

lemma held_frame [simp]:
  "held (d\<lparr>tasks := ts\<rparr>) = held d" "held (d\<lparr>conditions := cs, condition_events := es\<rparr>) = held d"
  by (simp_all add: held_def)

lemma rbind_Inr: "rbind x f = Inr y \<longleftrightarrow> (\<exists>z. x = Inr z \<and> f z = Inr y)"
  by (cases x) simp_all

text \<open>The writes of the workflow table leave the results alone, and log nothing the constraints refuse.\<close>

lemma write_results:
  "update_workflows hit f d = Inr (n, d') \<Longrightarrow> held d' = held d"
  "wf_event i kind wv tv ph st now d = Inr d' \<Longrightarrow> held d' = held d"
  "insert_workflow w d = Inr d' \<Longrightarrow> held d' = held d"
  "held (insert_failure_digest i v p run g now d) = held d"
  "held (snd (record_ownership_decision i tv os now d)) = held d"
  by (auto simp: held_def update_workflows_def wf_event_def insert_workflow_events_def insert_workflow_def insert_failure_digest_def
      record_ownership_decision_def Let_def split: if_splits option.splits)

lemma defer_results: "defer_failure M w reason now ek code run d = Inr (r, d') \<Longrightarrow> held d' = held d"
  by (auto simp: defer_failure_def Let_def rbind_Inr split_beta dest!: write_results(1,2) split: if_splits)

lemma each_results:
  assumes "each f rows d = Inr d'" and "\<And>w d d'. f w d = Inr d' \<Longrightarrow> held d' = held d"
  shows "held d' = held d"
  using assms(1)
proof (induction rows arbitrary: d)
  case (Cons w rows)
  then obtain d1 where "f w d = Inr d1" "each f rows d1 = Inr d'" by (auto simp: rbind_Inr)
  then show ?case using Cons.IH assms(2) by simp
qed simp

lemma cancel_stale_results: "cancel_stale_workflows now d = Inr d' \<Longrightarrow> held d' = held d"
  unfolding cancel_stale_workflows_def
  by (erule each_results) (auto simp: cancel_workflow_def Let_def rbind_Inr dest!: write_results(1,2))

lemma recover_results: "recover_expired M now d = Inr d' \<Longrightarrow> held d' = held d"
  unfolding recover_expired_def
  by (erule each_results) (auto simp: rbind_Inr dest!: defer_results)

lemma conditions_results: "held (snd (evaluate_conditions tv now cs d)) = held d"
proof (induction cs arbitrary: d)
  case (Cons c cs)
  have "held (set_condition_state c s now d) = held d" for s by (simp add: set_condition_state_def)
  then show ?case using Cons.IH by (simp add: Let_def split_beta split: option.split)
qed simp

lemma scan_results: "scan cfg now ws d = Inr (x, d') \<Longrightarrow> held d' = held d"
proof (induction ws arbitrary: d)
  case (Cons w ws)
  obtain go d1 where e: "evaluate_task_conditions (wf_task_id w) (wf_task_version w) now d = (go, d1)"
    by (cases "evaluate_task_conditions (wf_task_id w) (wf_task_version w) now d")
  have "held d1 = held d"
    using e conditions_results by (metis evaluate_task_conditions_def snd_conv)
  then show ?case using Cons e
    by (auto simp: Let_def rbind_Inr split: if_splits option.splits dest!: defer_results)
qed simp

lemma grant_results:
  assumes "grant_claim sha token now w t p d0 d = Inr (c, d')" and "held d0 = held d"
  shows "held d' = held d"
  using assms by (auto simp: grant_claim_def Let_def rbind_Inr dest!: write_results(1,2) split: if_splits)

lemma claim_results:
  assumes "claim_tx cfg sha phases token now d = Inr (c, d')"
  shows "held d' = held d"
proof -
  obtain d1 d2 where 1: "cancel_stale_workflows now d = Inr d1" "recover_expired (ec_max_attempts cfg) now d1 = Inr d2"
    using assms by (auto simp: claim_tx_def rbind_Inr)
  have r2: "held d2 = held d" using cancel_stale_results [OF 1(1)] recover_results [OF 1(2)] by simp
  show ?thesis
  proof (cases "case ec_slot_cap cfg of None \<Rightarrow> False | Some cap \<Rightarrow> cap \<le> int (running_slots d2)")
    case True
    then show ?thesis using assms r2 by (simp add: claim_tx_def 1)
  next
    case False
    then obtain found d3 where s: "scan cfg now (queue phases now d2) d2 = Inr (found, d3)"
      using assms by (cases "scan cfg now (queue phases now d2) d2") (auto simp: claim_tx_def 1)
    have r3: "held d3 = held d" using scan_results [OF s] r2 by simp
    have c: "(case found of None \<Rightarrow> Inr (None, d3)
        | Some (w, p) \<Rightarrow> (case task_of (wf_task_id w) d2 of None \<Rightarrow> Inr (None, d3)
            | Some t \<Rightarrow> grant_claim sha token now w t p d d3)) = Inr (c, d')"
      using assms False s by (simp add: claim_tx_def 1)
    show ?thesis
    proof (cases found)
      case (Some x)
      then show ?thesis
        using c r3 grant_results [of sha token now "fst x" _ "snd x" d d3 c d']
        by (cases x) (auto split: option.splits)
    qed (use c r3 in simp)
  qed
qed

lemma bind_results: "bind_profile i v extra p w ph now d = Inr (r, d') \<Longrightarrow> held d' = held d"
  by (auto simp: bind_profile_def rbind_Inr dest!: write_results(1,2) split: if_splits)

lemma settle_results:
  "rbind (update_workflows hit f d) (\<lambda>(n, d1). rbind (wf_event i kind wv tv ph st now d1) (\<lambda>d2. Inr (r, d2)))
    = Inr (r', d') \<Longrightarrow> held d' = held d"
  by (auto simp: rbind_Inr dest!: write_results(1,2))

lemma gate_results:
  "apply_start_action local utc i v a now d = Inr (r, d') \<Longrightarrow> held d' = held d"
  "apply_review_action local utc i v a now d = Inr (r, d') \<Longrightarrow> held d' = held d"
  "adopt_tx cfg i v now d = Inr (r, d') \<Longrightarrow> held d' = held d"
  "retry_tx i v now d = Inr (r, d') \<Longrightarrow> held d' = held d"
  "apply_agent_selection i v p now d = Inr (r, d') \<Longrightarrow> held d' = held d"
  subgoal
    by (auto simp: apply_start_action_def Let_def rbind_Inr write_results(5) split_beta dest!: write_results(1,2)
        split: if_splits option.splits)
  subgoal
    by (auto simp: apply_review_action_def Let_def rbind_Inr simp del: append_Cons dest!: write_results(1,2)
        split: if_splits option.splits)
  subgoal by (auto simp: adopt_tx_def Let_def dest!: bind_results split: if_splits option.splits)
  subgoal by (auto simp: retry_tx_def Let_def dest!: settle_results split: option.splits)
  subgoal
    by (auto simp: apply_agent_selection_def Let_def rbind_Inr dest!: bind_results split: if_splits option.splits)
  done

lemma priority_results: "set_priority_tx i v a p now d = Inr (r, d') \<Longrightarrow> held d' = held d"
  by (auto simp: set_priority_tx_def Let_def rbind_Inr dest!: cancel_stale_results write_results(1,2)
      split: if_splits option.splits)

lemma worker_results:
  "renew_tx sha i v token lease now d = Inr (r, d') \<Longrightarrow> held d' = held d"
  "attach_run_tx sha i v token run now d = Inr (r, d') \<Longrightarrow> held d' = held d"
  "finish_run_tx M sha i v token rep now d = Inr (r, d') \<Longrightarrow> held d' = held d"
  subgoal by (auto simp: renew_tx_def Let_def dest!: settle_results split: option.splits)
  subgoal
    by (auto simp: attach_run_tx_def Let_def rbind_Inr dest!: write_results(1,2) split: if_splits option.splits)
  subgoal
    by (auto simp: finish_run_tx_def Let_def rbind_Inr write_results(4) split_beta
        dest!: write_results(1,2) defer_results split: option.splits)
  done

lemma schedule_results:
  assumes "schedule_tx cfg i v now d = Inr (r, d')"
  shows "held d' = held d"
proof -
  have "place_workflow cfg t row now d = Inr d1 \<Longrightarrow> held d1 = held d" for t row d1
    by (auto simp: place_workflow_def Let_def rbind_Inr dest!: write_results(1-3) split: option.splits)
  then show ?thesis using assms by (auto simp: schedule_tx_def Let_def rbind_Inr split: if_splits option.splits)
qed

lemma commit_results:
  assumes "\<And>r d'. h d = Inr (r, d') \<Longrightarrow> held d' = held d"
  shows "held (snd (commit_accepted h d)) = held d"
  using assms by (auto simp: commit_accepted_def split: sum.split)

lemma insert_result_keeps: "insert_result x as d = Inr d1 \<Longrightarrow> keeps_results d d1"
  by (auto simp: insert_result_def keeps_results_def held_def split: if_splits)

lemma fresh_keeps_results: "record_fresh cfg v w now d = Inr (r, d') \<Longrightarrow> keeps_results d d'"
  by (auto simp: record_fresh_def Let_def rbind_Inr split: option.splits if_splits
      dest!: write_results(1,2) insert_result_keeps intro: keeps_results_held keeps_results_eq)

lemma record_keeps_results: "keeps_results d (snd (record_result cfg sha e now d))"
proof (cases "validated_result sha e")
  case (Some v)
  have "keeps_results d d'" if t: "record_tx cfg sha v now d = Inr (r, d')" for r d'
    using t by (auto simp: record_tx_def Let_def rbind_Inr dest: fresh_keeps_results dest!: write_results(2)
        split: option.splits if_splits intro: keeps_results_eq)
  then show ?thesis using Some by (auto simp: record_result_def run_tx_def keeps_results_eq split: sum.split)
qed (simp add: record_result_def keeps_results_eq)

lemma snd_reply [simp]: "snd (reply f out) = snd out"
  by (simp add: reply_def)

lemma request_results:
  "held (snd (schedule_task cfg i v now d)) = held d"
  "held (snd (start_action local utc i v a now d)) = held d"
  "held (snd (review_action local utc i v a now d)) = held d"
  "held (snd (select_agent cfg i v p q now d)) = held d"
  "held (snd (adopt_installed_revision cfg i v now d)) = held d"
  "held (snd (retry i v now d)) = held d" "held (snd (set_priority i v a now d)) = held d"
  "held (snd (renew sha i v token lease now d)) = held d"
  "held (snd (attach_run_id sha i v token run now d)) = held d"
  "held (snd (finish_run_claim M sha i v token rep now d)) = held d"
  "held (snd (claim_next_workflow cfg sha ps token now d)) = held d"
  "held (snd (transition i v a now d)) = held d"
  subgoal by (simp add: schedule_task_def commit_results [OF schedule_results])
  subgoal by (simp add: start_action_def commit_results [OF gate_results(1)])
  subgoal by (simp add: review_action_def commit_results [OF gate_results(2)])
  subgoal by (simp add: select_agent_def commit_results [OF gate_results(5)] split: option.split)
  subgoal by (simp add: adopt_installed_revision_def commit_results [OF gate_results(3)])
  subgoal by (simp add: retry_def commit_results [OF gate_results(4)])
  subgoal by (simp add: set_priority_def commit_results [OF priority_results] split: option.split)
  subgoal by (simp add: renew_def commit_results [OF worker_results(1)])
  subgoal by (simp add: attach_run_id_def commit_results [OF worker_results(2)])
  subgoal by (simp add: finish_run_claim_def commit_results [OF worker_results(3)])
  subgoal by (auto simp: claim_next_workflow_def run_tx_def dest: claim_results split: sum.split)
  subgoal by (simp add: held_def transition_keeps_execution)
  done

lemma step_results: "keeps_results d (snd (exec_step E rq d))"
proof (cases "\<exists>e. snd rq = XqRecord e")
  case True
  then show ?thesis using record_keeps_results by (auto simp: exec_step_def Let_def)
next
  case False
  then have "held (snd (exec_step E rq d)) = held d"
    by (cases "snd rq") (simp_all add: exec_step_def Let_def split_beta release_def fail_claim_def request_results
        split: option.split)
  then show ?thesis by (rule keeps_results_eq)
qed

lemma run_results: "keeps_results d (snd (run_ops (exec_step E) rqs d))"
proof (induction rqs arbitrary: d)
  case (Cons rq rqs)
  then show ?case using keeps_results_trans [OF step_results [of d E rq]] by simp
qed (simp add: keeps_results_eq)

text \<open>C15: The tables stay well typed.  After any sequence of requests every workflow row satisfies all
  \<open>CHECK\<close> constraints of its table (versions and counts, the failure reason, exit code and run ids, the
  profile's id and revision, the source of the priority, the claim columns of a running row, the
  wake-up, parked and completed times), and so does every row of its event log when the rows before
  did; and no request other than a recorded result ever ends in an \<open>IntegrityError\<close>.\<close>

theorem workflow_table_is_well_typed:
  assumes "env_ok E" and "exec_inv (attempts_of E) d" and "list_all event_check (workflow_events d)"
  shows "list_all wf_check (workflows (snd (run_ops (exec_step E) rqs d)))
    \<and> list_all event_check (workflow_events (snd (run_ops (exec_step E) rqs d)))
    \<and> (\<forall>n m. n < length rqs \<and> fst (run_ops (exec_step E) rqs d) ! n = XoRaised (IntegrityError m)
        \<longrightarrow> (\<exists>e. snd (rqs ! n) = XqRecord e))"
proof -
  let ?d = "snd (run_ops (exec_step E) rqs d)"
  have inv: "exec_inv (attempts_of E) ?d" using run_step_ok [OF assms(1,2), of rqs] by (simp add: lawful_def)
  have "list_all wf_check (workflows ?d)"
    unfolding list_all_iff using exec_invD(3) [OF inv] row_of_unique [OF exec_invD(1) [OF inv]] by blast
  moreover have "list_all event_check (workflow_events ?d)"
    using run_results [of d E rqs] assms(3) by (simp add: keeps_results_def held_def)
  ultimately show ?thesis using no_integrity_error [OF assms(1,2)] by blast
qed

theorem workflow_table_is_well_typed_witness:
  "list_all wf_check (workflows (snd (run_ops (exec_step sample_env) sample_requests (sample_execution sample_running))))
    \<and> list_all event_check (workflow_events
        (snd (run_ops (exec_step sample_env) sample_requests (sample_execution sample_running))))"
proof -
  have "list_all event_check (workflow_events (sample_execution sample_running))" by code_simp
  then show ?thesis
    using workflow_table_is_well_typed [OF sample_env_ok, of "sample_execution sample_running" sample_requests]
      sample_running_ok(1) by (simp add: sample_env_def sample_config_def)
qed

text \<open>C12: Recording a result twice is recording it once.  After a result was applied, whatever requests
  come between, sending the same envelope again changes nothing and is answered as unchanged, not as
  a conflict or a stale claim; so a worker whose reply was lost can repeat itself.\<close>

theorem recording_twice_is_once:
  assumes "env_ok E" and "exec_inv (attempts_of E) d" and "exec_step E (now, XqRecord e) d = (XoMove r, d1)"
    and "xr_disposition r = WdApplied"
  shows "\<exists>r'. exec_step E (later, XqRecord e) (snd (run_ops (exec_step E) rqs d1))
      = (XoMove r', snd (run_ops (exec_step E) rqs d1)) \<and> xr_disposition r' = WdUnchanged"
proof -
  let ?i = "en_task_id e" let ?d2 = "snd (run_ops (exec_step E) rqs d1)"
  have out: "record_result (xe_config E) (xe_sha E) e now d = (Inr r, d1)"
    using assms(3) by (cases "record_result (xe_config E) (xe_sha E) e now d")
      (auto simp: exec_step_def reply_def split: sum.splits)
  obtain v w where 1: "validated_result (xe_sha E) e = Some v" "workflow_of ?i d1 \<noteq> None"
    "results d1 = results d @ [result_of v w now]" "\<forall>x \<in> set (results d). rs_result_id x \<noteq> en_result_id e"
    by (rule record_applied [OF assms(2) env_okD(2) [OF assms(1)] out assms(4)]) simp
  note e = validated_envelope [OF 1(1)]
  have "exec_inv (attempts_of E) d1"
    using exec_step_ok [OF assms(2,1), of "(now, XqRecord e)"] assms(3) by (simp add: step_ok_def lawful_def)
  then have "runs_on d1 ?d2" using run_step_ok [OF assms(1)] by (simp add: lawful_def)
  then obtain w2 where w2: "workflow_of ?i ?d2 = Some w2" using 1(2) unfolding runs_on_def by blast
  obtain xs where "results ?d2 = (results d @ [result_of v w now]) @ xs"
    using run_results [of d1 E rqs] 1(3) by (auto simp: keeps_results_def)
  moreover have "List.find (\<lambda>x. rs_result_id x = en_result_id e) (results d) = None"
    using 1(4) by (simp add: find_None_iff)
  ultimately have f: "List.find (\<lambda>x. rs_result_id x = en_result_id e) (results ?d2) = Some (result_of v w now)"
    by (simp add: find_append result_of_def Let_def e)
  have "record_tx (xe_config E) (xe_sha E) v later ?d2
      = Inr ((wf_applied w2 (wf_version w2) (wf_status w2) (wf_phase w2))\<lparr>xr_disposition := WdUnchanged\<rparr>, ?d2)"
    using f w2 by (simp add: record_tx_def Let_def e result_of_def)
  then show ?thesis by (simp add: exec_step_def Let_def record_result_def 1(1) run_tx_def reply_def)
qed

section \<open>Witnesses for the recorded result\<close>

definition sample_recorded :: "(exc + workflow_result) \<times> db" where
  "sample_recorded = record_result sample_config sample_digest (sample_answer 3) 60 (sample_execution sample_running)"

lemma sample_recorded_applied: "case fst sample_recorded of Inr r \<Rightarrow> xr_disposition r = WdApplied | _ \<Rightarrow> False"
  by code_simp

lemma sample_recordedE:
  obtains r where "record_result sample_config sample_digest (sample_answer 3) 60 (sample_execution sample_running)
      = (Inr r, snd sample_recorded)" and "xr_disposition r = WdApplied"
proof -
  obtain r where "fst sample_recorded = Inr r" "xr_disposition r = WdApplied"
    using sample_recorded_applied by (cases "fst sample_recorded") auto
  then show thesis using that by (metis prod.collapse sample_recorded_def)
qed

theorem results_open_only_granted_phases_witness:
  "\<exists>w. workflow_of 1 (snd sample_recorded) = Some w \<and> wf_status w = WfAwaitingReview \<and> wf_phase w = PhasePlan"
proof -
  obtain r where r: "record_result sample_config sample_digest (sample_answer 3) 60 (sample_execution sample_running)
      = (Inr r, snd sample_recorded)" "xr_disposition r = WdApplied" by (rule sample_recordedE)
  from results_open_only_granted_phases [OF sample_running_ok(1) _ r] show ?thesis
    by (auto simp: sample_answer_def sample_config_def declared_def Let_def split: option.splits)
qed

theorem recording_twice_is_once_witness:
  "\<exists>r d1 r'. exec_step sample_env (60, XqRecord (sample_answer 3)) (sample_execution sample_running) = (XoMove r, d1)
    \<and> exec_step sample_env (90, XqRecord (sample_answer 3))
        (snd (run_ops (exec_step sample_env) [(70, XqReview 1 4 ''approve'')] d1))
      = (XoMove r', snd (run_ops (exec_step sample_env) [(70, XqReview 1 4 ''approve'')] d1))
    \<and> xr_disposition r' = WdUnchanged"
proof -
  obtain r where r: "record_result sample_config sample_digest (sample_answer 3) 60 (sample_execution sample_running)
      = (Inr r, snd sample_recorded)" "xr_disposition r = WdApplied" by (rule sample_recordedE)
  have s: "exec_step sample_env (60, XqRecord (sample_answer 3)) (sample_execution sample_running)
      = (XoMove r, snd sample_recorded)" by (simp add: exec_step_def sample_env_def Let_def r(1) reply_def)
  have inv: "exec_inv (attempts_of sample_env) (sample_execution sample_running)"
    using sample_running_ok(1) by (simp add: sample_env_def sample_config_def)
  from recording_twice_is_once [OF sample_env_ok inv s r(2)] show ?thesis using s by blast
qed

section \<open>Where the code does not do what it means to\<close>

definition long_answer :: "nat \<Rightarrow> envelope" where
  "long_answer n = (sample_answer 3)\<lparr>en_deliverables := replicate n (PlainItem (replicate 15000 CHR ''x''))\<rparr>"

lemma length_commas: "length (commas (replicate n t)) = n * length t + (n - 1)"
proof (induction n)
  case (Suc n)
  then show ?case by (cases n) simp_all
qed simp

lemma json_plain: "json_string (replicate k CHR ''x'') = CHR 0x22 # replicate k CHR ''x'' @ [CHR 0x22]"
  by (induction k) (simp_all add: json_string_def json_char_def code_of_def)

lemma all_some_replicate: "all_some (replicate n (Some x)) = Some (replicate n x)"
  by (induction n) simp_all

lemma strip_plain: "strip (replicate k CHR ''x'') = replicate k CHR ''x''"
proof -
  have "dropWhile is_space (replicate k CHR ''x'') = replicate k CHR ''x''"
    by (cases k) (simp_all add: is_space_def code_of_def Let_def)
  then show ?thesis by (simp add: strip_def)
qed

lemma plain_text: "0 < k \<Longrightarrow> k \<le> m \<Longrightarrow> result_text m False (replicate k CHR ''x'') = Some (replicate k CHR ''x'')"
  by (simp add: result_text_def strip_plain list_all_iff clean_char_def code_of_def Let_def)

definition long_list :: "nat \<Rightarrow> json" where
  "long_list n = JList (replicate n (JStr (replicate 15000 CHR ''x'')))"

lemma long_collection:
  assumes "n \<le> 20"
  shows "structured_collection (en_deliverables (long_answer n)) MAX_DELIVERABLE_CHARS ''body'' as os = Some (long_list n)"
proof -
  have "structured_item MAX_DELIVERABLE_CHARS ''body'' as os (PlainItem (replicate 15000 CHR ''x''))
      = Some (JStr (replicate 15000 CHR ''x''))"
    using plain_text [of 15000 MAX_DELIVERABLE_CHARS] by (simp add: structured_item_def MAX_DELIVERABLE_CHARS_def)
  then have m: "map (structured_item MAX_DELIVERABLE_CHARS ''body'' as os) (en_deliverables (long_answer n))
      = replicate n (Some (JStr (replicate 15000 CHR ''x'')))" by (simp add: long_answer_def)
  have "length (en_deliverables (long_answer n)) = n" by (simp add: long_answer_def)
  then show ?thesis
    unfolding structured_collection_def m using assms
    by (simp add: all_some_replicate long_list_def MAX_COLLECTION_ITEMS_def)
qed

lemma long_list_length: "0 < n \<Longrightarrow> length (canonical_json (long_list n)) = n * 15002 + n + 1"
  by (simp add: long_list_def json_plain length_commas)

text \<open>Everything in the document but the deliverables is short.\<close>

lemma long_document:
  "length (canonical_json (result_document (long_answer n) qs as ds rs afs))
     = length (canonical_json (result_document (sample_answer 3) qs as (JList []) rs afs))
       + length (canonical_json ds) - 2"
  by (simp add: result_document_def long_answer_def sample_answer_def)

lemma sample_digest_hex: "lower_hex 64 (sample_digest s)"
proof -
  have "''0123456789abcdef'' ! (code_of c mod 16) \<in> set ''0123456789abcdef''" for c
    by (rule nth_mem) simp
  then have "list_all (\<lambda>c. c \<in> set ''0123456789abcdef'') (sample_digest s)"
    unfolding sample_digest_def list_all_iff set_map by blast
  moreover have "length (sample_digest s) = 64" by (simp add: sample_digest_def min_def)
  ultimately show ?thesis unfolding lower_hex_def by blast
qed

lemma short_document:
  "length (canonical_json (result_document (sample_answer 3) (JList []) (JList []) (JList []) (JList []) (JList []))) \<le> 1000"
  by code_simp

lemma long_answer_valid:
  assumes "0 < n" and "n \<le> 17"
  obtains v where "validated_result sample_digest (long_answer n) = Some v" and "vr_deliverables v = canonical_json (long_list n)"
    and "vr_envelope v = long_answer n"
proof -
  have cols: "text_collection (en_questions (long_answer n)) MAX_QUESTION_CHARS = Some (JList [])"
    "structured_collection (en_external_actions (long_answer n)) MAX_ACTION_CHARS ''action'' as os = Some (JList [])"
    "repository_references (en_references (long_answer n)) = Some (JList [])"
    "artifact_records (en_artifacts (long_answer n)) = Some (JList [])"
    "work_digest_ok (en_work_digest (long_answer n)) = Some None" for as os
    by (simp_all add: long_answer_def sample_answer_def text_collection_def structured_collection_def
        repository_references_def artifact_records_def work_digest_ok_def)
  have "identity_ok (long_answer n) = identity_ok (sample_answer 3)" "paths_ok (long_answer n) = paths_ok (sample_answer 3)"
    "en_summary (long_answer n) = en_summary (sample_answer 3)" "en_work_markdown (long_answer n) = en_work_markdown (sample_answer 3)"
    by (simp_all add: identity_ok_def paths_ok_def long_answer_def)
  moreover have "identity_ok (sample_answer 3)" "paths_ok (sample_answer 3)"
    "result_text RESULT_MAX_SUMMARY_CHARS False (en_summary (sample_answer 3)) \<noteq> None"
    "result_text MAX_WORK_MARKDOWN_CHARS False (en_work_markdown (sample_answer 3)) \<noteq> None" by code_simp+
  ultimately have ok: "identity_ok (long_answer n)" "paths_ok (long_answer n)"
    "result_text RESULT_MAX_SUMMARY_CHARS False (en_summary (long_answer n)) \<noteq> None"
    "result_text MAX_WORK_MARKDOWN_CHARS False (en_work_markdown (long_answer n)) \<noteq> None" by simp_all
  let ?doc = "result_document (long_answer n) (JList []) (JList []) (long_list n) (JList []) (JList [])"
  have "length (canonical_json ?doc) \<le> MAX_RESULT_BYTES"
    using long_document [of n "JList []" "JList []" "long_list n"] short_document long_list_length [OF assms(1)] assms(2)
    by (simp add: MAX_RESULT_BYTES_def)
  then show thesis
    using that assms(2) ok by (simp add: validated_result_def cols long_collection Let_def sample_digest_hex)
qed

text \<open>C37: A valid result can raise.  An envelope that passes every check of the service, the bound on its
  size included, raises an integrity error when the JSON of its deliverables is longer than the
  65,536 characters of its column: five deliverables of 15,000 characters are enough, although the
  service accepts twenty of 16,000.\<close>

theorem valid_result_can_raise:
  assumes "5 \<le> n" and "n \<le> 17"
  shows "validated_result sample_digest (long_answer n) \<noteq> None
    \<and> record_result sample_config sample_digest (long_answer n) 60 (sample_execution sample_running)
      = (Inl (IntegrityError ''task_execution_results''), sample_execution sample_running)"
proof -
  let ?d = "sample_execution sample_running"
  obtain v where v: "validated_result sample_digest (long_answer n) = Some v"
    "vr_deliverables v = canonical_json (long_list n)" "vr_envelope v = long_answer n"
    by (rule long_answer_valid [of n]) (use assms in simp_all)
  have "record_guard sample_digest (long_answer n) 60 ?d = record_guard sample_digest (sample_answer 3) 60 ?d"
    by (simp add: record_guard_def long_answer_def Let_def cong: option.case_cong)
  moreover have "record_guard sample_digest (sample_answer 3) 60 ?d = None" "results ?d = []"
    "workflow_with_task 1 ?d \<noteq> None" by code_simp+
  ultimately have g: "record_guard sample_digest (long_answer n) 60 ?d = None" "results ?d = []" by simp_all
  have "\<not> result_check (result_of v w now)" for w now
    using assms long_list_length [of n] by (simp add: result_check_def result_of_def v JSON_COLUMN_def Let_def)
  then have "insert_result (result_of v w now) as ?d = Inl (IntegrityError ''task_execution_results'')" for w now as
    by (simp add: insert_result_def)
  moreover have "result_target (en_phase (long_answer n)) (en_outcome (long_answer n)) = Some WfAwaitingReview"
    by (simp add: long_answer_def sample_answer_def result_target_def phase_outcomes_def)
  ultimately have "record_tx sample_config sample_digest v 60 ?d = Inl (IntegrityError ''task_execution_results'')"
    by (simp add: record_tx_def Let_def v(3) g repeats_an_earlier_answer_def record_fresh_def)
  then show ?thesis by (simp add: record_result_def v(1) run_tx_def)
qed

theorem valid_result_can_raise_witness:
  "fst (record_result sample_config sample_digest (long_answer 5) 60 (sample_execution sample_running))
    = Inl (IntegrityError ''task_execution_results'')"
  using valid_result_can_raise [of 5] by simp

text \<open>C38: An approval can survive the revision that replaced it.  A parked workflow can be snoozed at the
  start gate, and a snoozed one answered at the review gate, which reads the last recorded result
  without comparing its phase: so after a revision was asked for, and its run failed before it
  recorded anything, approving the woken workflow queues the external action of the old result.\<close>

theorem approval_survives_a_revision:
  assumes inv: "exec_inv M d" and M: "0 < M" and l: "live_at i d w t" and v: "wf_version w = v" "valid_identity i v"
    and w: "wf_status w = WfSnoozed" "wf_phase w = PhasePlan" "woken w now"
    and old: "shown_outcome w d = Some OutAwaitingExternal"
  shows "\<exists>r d' w'. review_action local utc i v ''approve'' now d = (Inr r, d') \<and> xr_disposition r = WdApplied
    \<and> workflow_of i d' = Some w' \<and> wf_status w' = WfQueued \<and> wf_phase w' = PhaseExternalAction"
proof -
  let ?f = "settle_gate WfQueued PhaseExternalAction (v + 1) None None now"
  let ?r = "(wf_applied w (v + 1) WfQueued PhaseExternalAction)\<lparr>xr_wake_at := None\<rparr>"
  have chk: "wf_check (?f w)"
    by (rule settle_gate_check [OF workflow_okD(1) [OF inv liveD(1) [OF l]]]) (use v in \<open>simp_all add: valid_identity_def\<close>)
  obtain d1 d2 where u: "update_workflows (at_version i v) ?f d = Inr (1, d1)"
    and ev: "wf_event i ''phase_approved'' (v + 1) (wf_task_version w) PhaseExternalAction WfQueued now d1 = Inr d2"
    and m: "moves M i d d2 w (?f w)"
    by (rule write_ok [where f = ?f and hit = "at_version i v" and kind = "''phase_approved''" and now = now
          and ph = PhaseExternalAction and st = WfQueued and tv = "wf_task_version w" and wv = "v + 1",
          OF inv liveD(1) [OF l]])
      (use chk M v liveD(2) [OF l] wf_checkD(2) [OF exec_invD(3) [OF inv liveD(1) [OF l]]] in
        \<open>simp_all add: at_version_def attempts_left_0 PHASE_OPENERS_def\<close>)
  have g: "both_guards (Some (w, t)) (workflow_guard (Some w) v [WfAwaitingReview, WfSnoozed]) = None"
    using l v w by (simp add: both_guards_def workflow_guard_def task_guard_def live_at_def)
  have ns: "''approve'' \<notin> set SNOOZE_ACTIONS" by (simp add: SNOOZE_ACTIONS_def)
  have "apply_review_action local utc i v ''approve'' now d = Inr (?r, d2)"
    using v(2) w old ns g u ev by (simp add: apply_review_action_def Let_def liveD(3) [OF l] review_plan_def approval_opens_def)
  then have "review_action local utc i v ''approve'' now d = (Inr ?r, d2)"
    using v(2) by (simp add: review_action_def commit_accepted_def xr_accepted_def wf_applied_def)
  moreover have "workflow_of i d2 = Some (?f w)" using m unfolding moves_def by blast
  ultimately show ?thesis by auto
qed

text \<open>The revision that the reader asked for runs; the last result is the old one.\<close>

definition sample_asked :: workflow_row where
  "sample_asked = take_claim (sample_digest sample_token) 60 660
     ((sample_workflow WfQueued)\<lparr>wf_version := 6, wf_last_result_id := Some ''result-1''\<rparr>)"

definition sample_external :: result_row where
  "sample_external = result_of \<lparr>vr_envelope = (sample_answer 4)\<lparr>en_phase := PhaseExecute, en_outcome := OutAwaitingExternal\<rparr>,
     vr_questions = ''[]'', vr_external_actions = ''[]'', vr_deliverables = ''[]'', vr_references = ''[]'',
     vr_work_digest = None, vr_digest = sample_digest ''result-1''\<rparr> sample_asked 40"

text \<open>Its run exhausts its context; the reader snoozes the parked workflow.\<close>

definition sample_revised :: db where
  "sample_revised = snd (run_ops (exec_step sample_env) [
     (70, XqFail 1 7 sample_token (sample_timeout\<lparr>fp_reason := ''context_exhausted''\<rparr>)),
     (80, XqStart 1 8 ''snooze'')] ((sample_execution sample_asked)\<lparr>results := [sample_external]\<rparr>))"

lemma sample_revised_rows:
  "(map (\<lambda>w. (view_of w, wf_task_id w, wf_task_version w, wf_due_at w, wf_last_result_id w)) (workflows sample_revised),
     map (\<lambda>r. (rs_result_id r, rs_task_id r, rs_outcome r)) (results sample_revised),
     map (\<lambda>t. (tk_id t, tk_status t, tk_version t)) (take 1 (tasks sample_revised)))
    = ([((WfSnoozed, PhasePlan, 9), 1, 1, Some 118800, Some ''result-1'')],
       [(''result-1'', 1, OutAwaitingExternal)], [(1, TaskOpen, 1)])"
  by code_simp

lemma sample_revised_live:
  obtains w t where "live_at 1 sample_revised w t" and "wf_version w = 9" and "wf_status w = WfSnoozed"
    and "wf_phase w = PhasePlan" and "woken w 200000" and "shown_outcome w sample_revised = Some OutAwaitingExternal"
proof -
  obtain w where w: "workflows sample_revised = [w]" "view_of w = (WfSnoozed, PhasePlan, 9)" "wf_task_id w = 1"
    "wf_task_version w = 1" "wf_due_at w = Some 118800" "wf_last_result_id w = Some ''result-1''"
    using sample_revised_rows by (auto simp: map_eq_Cons_conv)
  obtain r where r: "results sample_revised = [r]" "rs_result_id r = ''result-1''" "rs_task_id r = 1"
    "rs_outcome r = OutAwaitingExternal"
    using sample_revised_rows by (auto simp: map_eq_Cons_conv)
  obtain t ts where t: "tasks sample_revised = t # ts" "tk_id t = 1" "tk_status t = TaskOpen" "tk_version t = 1"
    using sample_revised_rows by (cases "tasks sample_revised") auto
  show thesis
    by (rule that [of w t]) (use w r t in \<open>simp_all add: live_at_def view_of_def woken_def shown_outcome_def\<close>)
qed

theorem approval_survives_a_revision_witness:
  "\<exists>r d' w'. review_action (\<lambda>t. t) (\<lambda>t. t) 1 9 ''approve'' 200000 sample_revised = (Inr r, d')
    \<and> xr_disposition r = WdApplied \<and> workflow_of 1 d' = Some w' \<and> wf_status w' = WfQueued
    \<and> wf_phase w' = PhaseExternalAction"
proof -
  have start: "exec_inv 3 (sample_execution sample_asked)" by (rule sample_execution_inv; code_simp)
  have M: "attempts_of sample_env = 3" by (simp add: sample_env_def sample_config_def)
  have "exec_inv (attempts_of sample_env) ((sample_execution sample_asked)\<lparr>results := [sample_external]\<rparr>)"
    using start by (simp add: M exec_inv_def)
  from run_step_ok [OF sample_env_ok this] have inv: "exec_inv 3 sample_revised"
    unfolding sample_revised_def lawful_def M by blast
  obtain w t where l: "live_at 1 sample_revised w t" "wf_version w = 9" "wf_status w = WfSnoozed"
    "wf_phase w = PhasePlan" "woken w 200000" "shown_outcome w sample_revised = Some OutAwaitingExternal"
    by (rule sample_revised_live)
  show ?thesis by (rule approval_survives_a_revision [OF inv _ l(1,2) _ l(3-6)]) (simp_all add: valid_identity_def)
qed

text \<open>The tokens of a display are removed in one pass, so a second id can be left.\<close>

lemma display_can_keep_a_speaker_id:
  "canonical_owner_display (Some ''SPK_1SPK_2'') (Some ''person'') = Some ''SPK_2''"
  by code_simp

end
