(* ===== verification/Dependencies.thy ===== *)
theory Dependencies
  imports Prelude
begin

text \<open>
  The dependency graph of \<open>_dependency_refusal\<close> (\<open>task_scheduling.py\<close>): its edges are the pairs of a
  waiting task and the task it waits for.  \<open>visit\<close> is the recursive search of the code, with
  \<open>None\<close> for the \<open>ValueError\<close> it raises on a node of its own path; \<open>dependency_depth\<close> is the depth over
  all nodes.  The search decides acyclicity and computes the length of the longest chain.
\<close>

type_synonym edges = "(rowid \<times> rowid) list"

section \<open>The search\<close>

text \<open>\<open>graph.get(node, set())\<close>; the order of a Python set does not matter below.\<close>

definition prerequisites :: "edges \<Rightarrow> rowid \<Rightarrow> rowid list" where
  "prerequisites g n = remdups (map snd (filter (\<lambda>e. fst e = n) g))"

definition largest :: "nat list \<Rightarrow> nat" where
  "largest ns = fold max ns 0"

lemma set_prerequisites: "m \<in> set (prerequisites g n) \<longleftrightarrow> (n, m) \<in> set g"
  by (force simp: prerequisites_def)

lemma prerequisites_key: "prerequisites g n \<noteq> [] \<Longrightarrow> n \<in> fst ` set g"
  using set_prerequisites [of "hd (prerequisites g n)" g n] by force

lemma open_nodes_shrink:
  assumes "n \<notin> set path" and "prerequisites g n \<noteq> []"
  shows "card (fst ` set g - set (n # path)) < card (fst ` set g - set path)"
  using prerequisites_key [OF assms(2)] assms(1) by (intro psubset_card_mono) auto

function visit :: "edges \<Rightarrow> rowid list \<Rightarrow> rowid \<Rightarrow> nat option" where
  "visit g path n =
     (if n \<in> set path then None
      else if prerequisites g n = [] then Some 0
      else map_option (\<lambda>ds. 1 + largest ds) (all_some (map (visit g (n # path)) (prerequisites g n))))"
  by pat_completeness auto
termination
  by (relation "measure (\<lambda>(g, path, n). card (fst ` set g - set path))") (use open_nodes_shrink in auto)

declare visit.simps [simp del]

definition dependency_depth :: "edges \<Rightarrow> nat option" where
  "dependency_depth g = map_option largest (all_some (map (visit g []) (remdups (map fst g))))"

section \<open>What the search computes\<close>

lemma fold_max_upper: "(fold max ns m :: nat) \<le> b \<longleftrightarrow> m \<le> b \<and> (\<forall>n \<in> set ns. n \<le> b)"
  by (induction ns arbitrary: m) auto

lemma fold_max_member: "fold max ns m = (m :: nat) \<or> fold max ns m \<in> set ns"
proof (induction ns arbitrary: m)
  case (Cons n ns)
  then show ?case using Cons [of "max n m"] by (auto simp: max_def split: if_splits)
qed simp

lemma largest_upper: "largest ns \<le> b \<longleftrightarrow> (\<forall>n \<in> set ns. n \<le> b)"
  by (simp add: largest_def fold_max_upper)

lemma largest_ge: "n \<in> set ns \<Longrightarrow> n \<le> largest ns"
  using largest_upper [of ns "largest ns"] by simp

lemma largest_member: "ns \<noteq> [] \<Longrightarrow> largest ns \<in> set ns"
proof -
  assume ns: "ns \<noteq> []"
  show ?thesis
  proof (cases "largest ns = 0")
    case True
    then show ?thesis using ns largest_ge [of "hd ns" ns] by (cases ns) auto
  next
    case False
    then show ?thesis using fold_max_member [of ns 0] by (auto simp: largest_def)
  qed
qed

lemma chain_step:
  assumes "(n, m) \<in> E ^^ Suc k"
  obtains c where "(n, c) \<in> E" and "(c, m) \<in> E ^^ k"
  using relpow_Suc_D2 [OF assms] by blast

text \<open>A raise is a cycle: every node of the path leads to the one that is visited.\<close>

lemma visit_None_cycle:
  assumes "visit g path n = None" and "\<And>p. p \<in> set path \<Longrightarrow> (p, n) \<in> (set g)\<^sup>+"
  shows "\<not> acyclic (set g)"
  using assms
proof (induction g path n rule: visit.induct)
  case (1 g path n)
  show ?case
  proof (cases "n \<in> set path")
    case True
    then show ?thesis using "1.prems"(2) by (auto simp: acyclic_def)
  next
    case False
    then have ne: "prerequisites g n \<noteq> []" using "1.prems"(1) by (auto simp: visit.simps [of g path n])
    then obtain m where m: "m \<in> set (prerequisites g n)" "visit g (n # path) m = None"
      using "1.prems"(1) False by (auto simp: visit.simps [of g path n] all_some_None)
    have e: "(n, m) \<in> set g" using m(1) by (simp add: set_prerequisites)
    show ?thesis
    proof (rule "1.IH" [OF False ne m])
      fix p assume "p \<in> set (n # path)"
      then show "(p, m) \<in> (set g)\<^sup>+" using e "1.prems"(2) [of p] by (auto intro: trancl.intros)
    qed
  qed
qed

text \<open>A result is the length of the longest chain from the node.\<close>

lemma visit_Some_depth:
  assumes "visit g path n = Some k"
  shows "(\<forall>j m. (n, m) \<in> set g ^^ j \<longrightarrow> j \<le> k) \<and> (\<exists>m. (n, m) \<in> set g ^^ k)"
  using assms
proof (induction g path n arbitrary: k rule: visit.induct)
  case (1 g path n)
  have out: "n \<notin> set path" using "1.prems" by (auto simp: visit.simps [of g path n])
  show ?case
  proof (cases "prerequisites g n = []")
    case True
    then have none: "(n, c) \<notin> set g" for c using set_prerequisites [of c g n] by simp
    have "j = 0" if "(n, m) \<in> set g ^^ j" for j m
    proof (cases j)
      case (Suc k)
      then show ?thesis using that none chain_step [where n = n and m = m and E = "set g" and k = k] by blast
    qed
    moreover have "k = 0" using "1.prems" True out by (simp add: visit.simps [of g path n])
    ultimately show ?thesis by auto
  next
    case False
    then obtain ks where ks: "map (visit g (n # path)) (prerequisites g n) = map Some ks" "k = 1 + largest ks"
      using "1.prems" out by (auto simp: visit.simps [of g path n] all_some_Some)
    have len: "length ks = length (prerequisites g n)" using arg_cong [OF ks(1), of length] by simp
    have at: "visit g (n # path) (prerequisites g n ! i) = Some (ks ! i)" if "i < length ks" for i
      using arg_cong [OF ks(1), of "\<lambda>xs. xs ! i"] that len by simp
    have up: "j \<le> k" if walk: "(n, m) \<in> set g ^^ j" for j m
    proof (cases j)
      case (Suc j')
      then obtain c where c: "(n, c) \<in> set g" "(c, m) \<in> set g ^^ j'"
        using walk chain_step [where n = n and m = m and E = "set g" and k = j'] by blast
      then obtain i where i: "i < length ks" "prerequisites g n ! i = c"
        using set_prerequisites [of c g n] len by (auto simp: in_set_conv_nth)
      have "j' \<le> ks ! i"
        using "1.IH" [OF out False, of c "ks ! i"] at [OF i(1)] i(2) c by (auto simp: set_prerequisites)
      also have "\<dots> \<le> largest ks" using i(1) by (simp add: largest_ge)
      finally show ?thesis by (simp add: Suc ks(2))
    qed simp
    have "ks \<noteq> []" using False len by auto
    then obtain i where i: "i < length ks" "ks ! i = largest ks"
      using largest_member [of ks] by (auto simp: in_set_conv_nth)
    let ?c = "prerequisites g n ! i"
    have c: "?c \<in> set (prerequisites g n)" using i(1) len by simp
    then have e: "(n, ?c) \<in> set g" by (simp add: set_prerequisites)
    obtain m where "(?c, m) \<in> set g ^^ largest ks"
      using "1.IH" [OF out False c at [OF i(1)]] i(2) by auto
    then have "(n, m) \<in> set g ^^ k" using relpow_Suc_I2 [OF e] by (simp add: ks(2))
    then show ?thesis using up by blast
  qed
qed

lemma chain_start: "(n, m) \<in> set (g :: edges) ^^ Suc k \<Longrightarrow> n \<in> set (map fst g)"
  using relpow_Suc_D2 [of n m k "set g"] by force

lemma cycle_is_unbounded: "(n, n) \<in> set (g :: edges) ^^ j \<Longrightarrow> (n, n) \<in> set g ^^ (j * i)"
  by (induction i) (auto simp: relpow_add)

text \<open>The search refuses exactly the cyclic graphs, and otherwise returns the longest chain.\<close>

lemma dependency_depth_None: "dependency_depth g = None \<longleftrightarrow> \<not> acyclic (set g)"
proof
  assume "dependency_depth g = None"
  then obtain n where "visit g [] n = None"
    by (auto simp: dependency_depth_def all_some_None dest: sym)
  then show "\<not> acyclic (set g)" by (rule visit_None_cycle) simp
next
  assume "\<not> acyclic (set g)"
  then obtain n j where j: "(n, n) \<in> set g ^^ j" "0 < j" by (auto simp: acyclic_def trancl_power)
  then have n: "n \<in> set (map fst g)" using chain_start [of n n "j - 1" g] by simp
  have "visit g [] n = None"
  proof (rule ccontr)
    assume "visit g [] n \<noteq> None"
    then obtain k where k: "visit g [] n = Some k" by auto
    have "j * Suc k \<le> k" using visit_Some_depth [OF k] cycle_is_unbounded [OF j(1)] by blast
    moreover have "Suc k \<le> j * Suc k" using j(2) by (cases j) auto
    ultimately show False by simp
  qed
  then show "dependency_depth g = None" using n by (force simp: dependency_depth_def all_some_None)
qed

lemma dependency_depth_Some:
  assumes "dependency_depth g = Some k"
  shows "(n, m) \<in> set g ^^ j \<Longrightarrow> j \<le> k" and "\<exists>n m. (n, m) \<in> set g ^^ k"
proof -
  obtain ks where ks: "map (visit g []) (remdups (map fst g)) = map Some ks" "k = largest ks"
    using assms by (auto simp: dependency_depth_def all_some_Some)
  let ?ns = "remdups (map fst g)"
  have len: "length ks = length ?ns" using arg_cong [OF ks(1), of length] by simp
  have at: "visit g [] (?ns ! i) = Some (ks ! i)" if "i < length ks" for i
    using arg_cong [OF ks(1), of "\<lambda>xs. xs ! i"] that len by simp
  show "j \<le> k" if walk: "(n, m) \<in> set g ^^ j" for n m j
  proof (cases j)
    case (Suc j')
    then have "n \<in> set ?ns" using chain_start walk by fastforce
    then obtain i where i: "i < length ks" "?ns ! i = n" using len by (metis in_set_conv_nth)
    have "j \<le> ks ! i" using visit_Some_depth [OF at [OF i(1)]] walk i(2) by blast
    also have "\<dots> \<le> k" using i(1) by (simp add: ks(2) largest_ge)
    finally show ?thesis .
  qed simp
  show "\<exists>n m. (n, m) \<in> set g ^^ k"
  proof (cases "ks = []")
    case True
    then show ?thesis by (simp add: ks(2) largest_def)
  next
    case False
    then obtain i where i: "i < length ks" "ks ! i = k"
      using largest_member [of ks] ks(2) by (auto simp: in_set_conv_nth)
    then show ?thesis using visit_Some_depth [OF at [OF i(1)]] by auto
  qed
qed

text \<open>The bound the service enforces.\<close>

definition chains_within :: "nat \<Rightarrow> (rowid \<times> rowid) set \<Rightarrow> bool" where
  "chains_within b E \<longleftrightarrow> acyclic E \<and> (\<forall>j n m. (n, m) \<in> E ^^ j \<longrightarrow> j \<le> b)"

lemma chains_within_depth:
  "chains_within b (set g) \<longleftrightarrow> (case dependency_depth g of None \<Rightarrow> False | Some k \<Rightarrow> k \<le> b)"
proof (cases "dependency_depth g")
  case None
  then show ?thesis using dependency_depth_None [of g] by (simp add: chains_within_def)
next
  case (Some k)
  then have "acyclic (set g)" using dependency_depth_None [of g] by simp
  moreover have "(\<forall>j n m. (n, m) \<in> set g ^^ j \<longrightarrow> j \<le> b) \<longleftrightarrow> k \<le> b"
    using dependency_depth_Some [OF Some] by (meson order_trans)
  ultimately show ?thesis by (simp add: chains_within_def Some)
qed

lemma chains_within_mono:
  assumes "chains_within b E" and "F \<subseteq> E"
  shows "chains_within b F"
proof -
  have "F ^^ j \<subseteq> E ^^ j" for j using assms(2) by (induction j) auto
  then show ?thesis using assms acyclic_subset [of E F] unfolding chains_within_def by blast
qed

end
