(* ===== verification/GateTables.thy ===== *)
theory GateTables
  imports Workflows
begin

text \<open>
  The tables of \<open>execution_cards.py\<close> as SQLite keeps them: the CHECK constraints of
  \<open>execution_review_cards\<close>, its index of one active card per task, the event log and the list of
  presentations to retract.  The card service and the scheduling service both write them.
\<close>

section \<open>Constraints\<close>

definition gate_active :: "exec_card_status \<Rightarrow> bool" where
  "gate_active st \<longleftrightarrow> st \<in> {EsPending, EsDelivering, EsDelivered}"

definition gate_shape :: "exec_card_row \<Rightarrow> bool" where
  "gate_shape c \<longleftrightarrow>
     (case xc_kind c of
        EkStart \<Rightarrow> xc_result_id c = None
      | EkPlanReview \<Rightarrow> xc_phase c = PhasePlan \<and> xc_result_id c \<noteq> None
      | EkExternalReview \<Rightarrow> xc_phase c = PhaseExecute \<and> xc_result_id c \<noteq> None
      | EkResultReview \<Rightarrow> xc_result_id c \<noteq> None
      | EkSteer \<Rightarrow> xc_result_id c = None)"

definition RESOLUTIONS :: "string list" where
  "RESOLUTIONS = [''start'', ''snooze'', ''cancel'', ''approve'', ''revise'', ''discuss'', ''done'',
     ''reassign'', ''drop'']"

definition gate_check :: "exec_card_row \<Rightarrow> bool" where
  "gate_check c \<longleftrightarrow> 1 \<le> xc_task_version c \<and> 1 \<le> xc_workflow_version c \<and> 1 \<le> xc_version c
     \<and> gate_shape c
     \<and> (if xc_status c = EsDelivering
        then (case xc_claim_token_digest c of None \<Rightarrow> False | Some s \<Rightarrow> length s = 64)
          \<and> xc_claim_expires_at c \<noteq> None
        else xc_claim_token_digest c = None \<and> xc_claim_expires_at c = None)
     \<and> (xc_status c = EsResolved \<longleftrightarrow> xc_resolution c \<noteq> None)
     \<and> (case xc_resolution c of None \<Rightarrow> True | Some a \<Rightarrow> a \<in> set RESOLUTIONS)
     \<and> (gate_active (xc_status c) \<longleftrightarrow> xc_resolved_at c = None)
     \<and> (case xc_consumer_digest c of None \<Rightarrow> True | Some s \<Rightarrow> length s = 64)
     \<and> (case xc_steer_digest c of None \<Rightarrow> True | Some s \<Rightarrow> length s \<le> 800)"

text \<open>\<open>execution_review_cards_one_active\<close>.\<close>

definition one_active :: "exec_card_row list \<Rightarrow> bool" where
  "one_active cs \<longleftrightarrow> distinct (map xc_task_id (filter (\<lambda>c. gate_active (xc_status c)) cs))"

section \<open>Statements\<close>

abbreviation gate_cards :: "db \<Rightarrow> exec_card_row list" where
  "gate_cards d \<equiv> exec_cards (gates d)"

abbreviation gate_of :: "rowid \<Rightarrow> db \<Rightarrow> exec_card_row option" where
  "gate_of k d \<equiv> row_of xc_id k (gate_cards d)"

definition set_gate_cards :: "exec_card_row list \<Rightarrow> db \<Rightarrow> db" where
  "set_gate_cards cs d = d\<lparr>gates := (gates d)\<lparr>exec_cards := cs\<rparr>\<rparr>"

definition update_gates :: "(exec_card_row \<Rightarrow> bool) \<Rightarrow> (exec_card_row \<Rightarrow> exec_card_row) \<Rightarrow> db
    \<Rightarrow> exc + (nat \<times> db)" where
  "update_gates hit f d =
     (let cs = update_where hit f (gate_cards d) in
      if list_all (\<lambda>c. gate_check (f c)) (filter hit (gate_cards d)) \<and> one_active cs
      then Inr (rowcount hit (gate_cards d), set_gate_cards cs d)
      else Inl (IntegrityError ''execution_review_cards''))"

definition insert_gate :: "exec_card_row \<Rightarrow> db \<Rightarrow> exc + db" where
  "insert_gate c d =
     (if gate_check c \<and> one_active (gate_cards d @ [c]) then Inr (set_gate_cards (gate_cards d @ [c]) d)
      else Inl (IntegrityError ''execution_review_cards''))"

definition add_gate_event :: "exec_card_event \<Rightarrow> db \<Rightarrow> db" where
  "add_gate_event e d = d\<lparr>gates := (gates d)\<lparr>exec_card_events := exec_card_events (gates d) @ [e]\<rparr>\<rparr>"

definition gate_event :: "exec_card_row \<Rightarrow> exec_card_event_kind \<Rightarrow> int \<Rightarrow> int \<Rightarrow> string option \<Rightarrow> string option
    \<Rightarrow> time \<Rightarrow> exec_card_event" where
  "gate_event c kind version wv action consumer now =
     \<lparr>xv_card_id = xc_id c, xv_task_id = xc_task_id c, xv_kind = kind, xv_card_version = version,
      xv_workflow_version = wv, xv_action = action, xv_consumer_digest = consumer, xv_occurred_at = now\<rparr>"

text \<open>
  \<open>INSERT OR IGNORE\<close> into \<open>execution_card_retractions\<close>: a card that already has a row, or a handle
  the constraints refuse, inserts nothing.
\<close>

definition insert_retraction :: "rowid \<Rightarrow> string \<Rightarrow> string \<Rightarrow> time \<Rightarrow> db \<Rightarrow> db" where
  "insert_retraction k transport ref now d =
     (if row_of rt_card_id k (retractions (gates d)) \<noteq> None
        \<or> \<not> (1 \<le> length transport \<and> length transport \<le> 200) \<or> \<not> (1 \<le> length ref \<and> length ref \<le> 2000)
      then d
      else d\<lparr>gates := (gates d)\<lparr>retractions := retractions (gates d) @ [
        \<lparr>rt_card_id = k, rt_transport = transport, rt_delivery_ref = ref, rt_state = RtPending,
         rt_attempts = 0, rt_claim_token_digest = None, rt_claim_expires_at = None,
         rt_created_at = now, rt_updated_at = now\<rparr>]\<rparr>\<rparr>)"

section \<open>Cancelling a card\<close>

text \<open>
  The three statements that \<open>_cancel_stale\<close> and \<open>_cancel_prerequisite_cards\<close> share: the card is
  cancelled, its delivery becomes a retraction, the log names the workflow version it is given.
\<close>

definition gate_cancelled :: "time \<Rightarrow> exec_card_row \<Rightarrow> exec_card_row" where
  "gate_cancelled now c = c\<lparr>xc_status := EsCancelled, xc_version := xc_version c + 1,
     xc_claim_token_digest := None, xc_claim_expires_at := None,
     xc_superseded_ref := xc_delivery_ref c, xc_superseded_transport := xc_transport c,
     xc_transport := None, xc_delivery_ref := None, xc_resolved_at := Some now, xc_updated_at := now\<rparr>"

definition retract_presentation :: "exec_card_row \<Rightarrow> time \<Rightarrow> db \<Rightarrow> db" where
  "retract_presentation c now d =
     (case (xc_transport c, xc_delivery_ref c) of
        (Some transport, Some ref) \<Rightarrow> insert_retraction (xc_id c) transport ref now d
      | _ \<Rightarrow> d)"

definition cancel_gate :: "int \<Rightarrow> time \<Rightarrow> exec_card_row \<Rightarrow> db \<Rightarrow> exc + db" where
  "cancel_gate wv now c d =
     rbind (update_gates (\<lambda>x. xc_id x = xc_id c \<and> xc_version x = xc_version c) (gate_cancelled now) d)
       (\<lambda>(n, d1). Inr (add_gate_event (gate_event c XevCancelled (xc_version c + 1) wv None None now)
          (retract_presentation c now d1)))"

section \<open>What the statements leave alone\<close>

lemma set_gate_cards_frame [simp]:
  "gate_cards (set_gate_cards cs d) = cs" "exec_card_events (gates (set_gate_cards cs d)) = exec_card_events (gates d)"
  "retractions (gates (set_gate_cards cs d)) = retractions (gates d)"
  "workflows (set_gate_cards cs d) = workflows d" "workflow_events (set_gate_cards cs d) = workflow_events d"
  "tasks (set_gate_cards cs d) = tasks d" "conditions (set_gate_cards cs d) = conditions d"
  "sched (set_gate_cards cs d) = sched d" "task_events (set_gate_cards cs d) = task_events d"
  "results (set_gate_cards cs d) = results d" "work_items (set_gate_cards cs d) = work_items d"
  by (simp_all add: set_gate_cards_def)

lemma add_gate_event_frame [simp]:
  "gate_cards (add_gate_event e d) = gate_cards d"
  "exec_card_events (gates (add_gate_event e d)) = exec_card_events (gates d) @ [e]"
  "retractions (gates (add_gate_event e d)) = retractions (gates d)"
  "workflows (add_gate_event e d) = workflows d" "workflow_events (add_gate_event e d) = workflow_events d"
  "tasks (add_gate_event e d) = tasks d" "conditions (add_gate_event e d) = conditions d"
  "sched (add_gate_event e d) = sched d" "task_events (add_gate_event e d) = task_events d"
  "results (add_gate_event e d) = results d" "work_items (add_gate_event e d) = work_items d"
  by (simp_all add: add_gate_event_def)

lemma retract_presentation_frame [simp]:
  "gate_cards (retract_presentation c now d) = gate_cards d"
  "exec_card_events (gates (retract_presentation c now d)) = exec_card_events (gates d)"
  "workflows (retract_presentation c now d) = workflows d"
  "workflow_events (retract_presentation c now d) = workflow_events d"
  "tasks (retract_presentation c now d) = tasks d" "conditions (retract_presentation c now d) = conditions d"
  "sched (retract_presentation c now d) = sched d" "task_events (retract_presentation c now d) = task_events d"
  "results (retract_presentation c now d) = results d" "work_items (retract_presentation c now d) = work_items d"
  by (simp_all add: retract_presentation_def insert_retraction_def split: option.split)

lemma update_gates_Inr:
  "update_gates hit f d = Inr (n, d') \<longleftrightarrow> list_all (\<lambda>c. gate_check (f c)) (filter hit (gate_cards d))
     \<and> one_active (update_where hit f (gate_cards d)) \<and> n = rowcount hit (gate_cards d)
     \<and> d' = set_gate_cards (update_where hit f (gate_cards d)) d"
  by (auto simp: update_gates_def Let_def)

lemma cancel_gate_frame:
  assumes "cancel_gate wv now c d = Inr d'"
  shows "workflows d' = workflows d" "workflow_events d' = workflow_events d" "tasks d' = tasks d"
    "conditions d' = conditions d" "sched d' = sched d" "task_events d' = task_events d"
    "results d' = results d" "work_items d' = work_items d"
  using assms by (auto simp: cancel_gate_def rbind_Inr_iff update_gates_Inr split: prod.splits)

end
