(* ===== verification/Scheduling.thy ===== *)
theory Scheduling
  imports ExecClaim Dependencies ChangeReviews GateTables
begin

text \<open>
  \<open>task_scheduling.py\<close>: a validated recommendation of the researcher becomes a change of the queue (a
  condition, a raised priority, or a prerequisite task), recorded as a change set with a review card.
  The card is leased to a consumer, delivered and answered once; undo is refused once the task or its
  workflow has moved.
\<close>

section \<open>Bounds\<close>

definition MAX_ACTIVE_CONDITIONS :: nat where "MAX_ACTIVE_CONDITIONS = 3"
definition MAX_PREREQUISITE_EDGES :: nat where "MAX_PREREQUISITE_EDGES = 2"
definition MAX_DEPENDENCY_DEPTH :: nat where "MAX_DEPENDENCY_DEPTH = 8"
definition MAX_RATIONALE_CHARS :: nat where "MAX_RATIONALE_CHARS = 2000"
definition MAX_PREREQUISITE_TEXT_CHARS :: nat where "MAX_PREREQUISITE_TEXT_CHARS = 4000"
definition MAX_SOURCE_REFS :: nat where "MAX_SOURCE_REFS = 16"
definition MAX_NOT_BEFORE_DAYS :: int where "MAX_NOT_BEFORE_DAYS = 365"

section \<open>Recommendations\<close>

text \<open>
  \<open>ValidatedSchedulingRecommendation\<close>.  A \<open>not_before\<close> text is the instant that \<open>_timestamp\<close> reads,
  or \<open>Some None\<close> for a text it refuses.
\<close>

record recommendation =
  rm_kind :: sched_kind
  rm_target_task_id :: rowid
  rm_target_task_version :: int
  rm_expected_workflow_version :: int
  rm_rationale :: string
  rm_source_refs :: "string list"
  rm_research_receipt_id :: string
  rm_research_document_digest :: string
  rm_related_task_id :: "rowid option"
  rm_not_before :: "time option option"
  rm_prerequisite_text :: "string option"

definition is_source_ref :: "string \<Rightarrow> bool" where
  "is_source_ref s \<longleftrightarrow> length s = 7 \<and> take 4 s = ''src-'' \<and> list_all dec_digit (drop 4 s)"

definition length_within :: "nat \<Rightarrow> nat \<Rightarrow> 'a list \<Rightarrow> bool" where
  "length_within low high xs \<longleftrightarrow> low \<le> length xs \<and> length xs \<le> high"

definition recommendation_shape :: "recommendation \<Rightarrow> bool" where
  "recommendation_shape r \<longleftrightarrow>
     1 \<le> rm_target_task_id r \<and> 1 \<le> rm_target_task_version r \<and> 1 \<le> rm_expected_workflow_version r
     \<and> length_within 1 MAX_RATIONALE_CHARS (strip (rm_rationale r))
     \<and> length_within 1 MAX_SOURCE_REFS (rm_source_refs r)
     \<and> list_all (length_within 1 128) (rm_source_refs r) \<and> distinct (rm_source_refs r)
     \<and> list_all is_source_ref (rm_source_refs r)
     \<and> length_within 1 128 (rm_research_receipt_id r) \<and> lower_hex 64 (rm_research_document_digest r)"

definition recommendation_fields :: "recommendation \<Rightarrow> bool" where
  "recommendation_fields r \<longleftrightarrow>
     (case rm_kind r of
        SkAfterTaskCompleted \<Rightarrow> (case rm_related_task_id r of None \<Rightarrow> False | Some k \<Rightarrow> 1 \<le> k)
          \<and> rm_not_before r = None \<and> rm_prerequisite_text r = None
      | SkNotBefore \<Rightarrow> rm_related_task_id r = None \<and> rm_prerequisite_text r = None
          \<and> (case rm_not_before r of Some (Some t) \<Rightarrow> True | _ \<Rightarrow> False)
      | SkRaisePriority \<Rightarrow> rm_related_task_id r = None \<and> rm_not_before r = None
          \<and> rm_prerequisite_text r = None
      | SkCreatePrerequisite \<Rightarrow> rm_related_task_id r = None \<and> rm_not_before r = None
          \<and> (case rm_prerequisite_text r of None \<Rightarrow> False
             | Some s \<Rightarrow> length_within 1 MAX_PREREQUISITE_TEXT_CHARS (strip s)))"

definition recommendation_document :: "recommendation \<Rightarrow> sched_document option" where
  "recommendation_document r =
     (if \<not> recommendation_shape r \<or> \<not> recommendation_fields r then None
      else Some \<lparr>rd_kind = rm_kind r, rd_target_task_id = rm_target_task_id r,
        rd_target_task_version = rm_target_task_version r,
        rd_expected_workflow_version = rm_expected_workflow_version r,
        rd_rationale = strip (rm_rationale r), rd_source_refs = rm_source_refs r,
        rd_research_receipt_id = rm_research_receipt_id r,
        rd_research_document_digest = rm_research_document_digest r,
        rd_related_task_id = rm_related_task_id r,
        rd_not_before = (case rm_not_before r of Some t \<Rightarrow> t | None \<Rightarrow> None),
        rd_prerequisite_text = rm_prerequisite_text r\<rparr>)"

text \<open>\<open>datetime.isoformat(timespec="seconds")\<close> of an instant in UTC, counted from 1970.\<close>

definition civil_date :: "int \<Rightarrow> int \<times> int \<times> int" where
  "civil_date day =
     (let z = day + 719468; era = z div 146097; doe = z mod 146097;
          yoe = (doe - doe div 1460 + doe div 36524 - doe div 146096) div 365;
          doy = doe - (365 * yoe + yoe div 4 - yoe div 100);
          mp = (5 * doy + 2) div 153;
          month = (if mp < 10 then mp + 3 else mp - 9);
          year = yoe + 400 * era + (if month \<le> 2 then 1 else 0) in
      (year, month, doy - (153 * mp + 2) div 5 + 1))"

definition padded :: "nat \<Rightarrow> int \<Rightarrow> string" where
  "padded n i = (let s = digits (nat i) in replicate (n - length s) CHR ''0'' @ s)"

definition iso_utc :: "time \<Rightarrow> string" where
  "iso_utc t =
     (let (y, m, a) = civil_date (t div 86400); s = t mod 86400 in
      padded 4 y @ ''-'' @ padded 2 m @ ''-'' @ padded 2 a @ ''T'' @ padded 2 (s div 3600) @ '':''
      @ padded 2 (s div 60 mod 60) @ '':'' @ padded 2 (s mod 60) @ ''+00:00'')"

definition kind_text :: "sched_kind \<Rightarrow> string" where
  "kind_text k = (case k of SkAfterTaskCompleted \<Rightarrow> ''after_task_completed'' | SkNotBefore \<Rightarrow> ''not_before''
     | SkRaisePriority \<Rightarrow> ''raise_priority'' | SkCreatePrerequisite \<Rightarrow> ''create_prerequisite'')"

definition json_option :: "('a \<Rightarrow> json) \<Rightarrow> 'a option \<Rightarrow> json" where
  "json_option f x = (case x of None \<Rightarrow> JNull | Some v \<Rightarrow> f v)"

text \<open>The payload, with its keys sorted.\<close>

definition document_text :: "sched_document \<Rightarrow> string" where
  "document_text r = canonical_json (JObj
     [(''expected_workflow_version'', JInt (rd_expected_workflow_version r)),
      (''kind'', JStr (kind_text (rd_kind r))),
      (''not_before'', json_option (\<lambda>t. JStr (iso_utc t)) (rd_not_before r)),
      (''prerequisite_text'', json_option JStr (rd_prerequisite_text r)),
      (''rationale'', JStr (rd_rationale r)),
      (''related_task_id'', json_option JInt (rd_related_task_id r)),
      (''research_document_digest'', JStr (rd_research_document_digest r)),
      (''research_receipt_id'', JStr (rd_research_receipt_id r)),
      (''source_refs'', JList (map JStr (rd_source_refs r))),
      (''target_task_id'', JInt (rd_target_task_id r)),
      (''target_task_version'', JInt (rd_target_task_version r))])"

section \<open>Results\<close>

record sched_apply_result =
  pa_disposition :: sched_disposition
  pa_refusal :: "sched_refusal option"
  pa_change_set_id :: "rowid option"
  pa_card_id :: "rowid option"
  pa_created_task_id :: "rowid option"
  pa_resulting_version :: "int option"

definition pa_refused :: "sched_refusal \<Rightarrow> sched_apply_result" where
  "pa_refused ref = \<lparr>pa_disposition = SdRefused, pa_refusal = Some ref, pa_change_set_id = None,
     pa_card_id = None, pa_created_task_id = None, pa_resulting_version = None\<rparr>"

record sched_action_result =
  sa_disposition :: sched_disposition
  sa_refusal :: "sched_refusal option"
  sa_card_id :: "rowid option"
  sa_card_version :: "int option"

definition sa_refused :: "rowid \<Rightarrow> sched_refusal \<Rightarrow> sched_action_result" where
  "sa_refused k ref = \<lparr>sa_disposition = SdRefused, sa_refusal = Some ref,
     sa_card_id = (if 1 \<le> k then Some k else None), sa_card_version = None\<rparr>"

definition sa_done :: "sched_disposition \<Rightarrow> rowid \<Rightarrow> int \<Rightarrow> sched_action_result" where
  "sa_done disp k v = \<lparr>sa_disposition = disp, sa_refusal = None, sa_card_id = Some k, sa_card_version = Some v\<rparr>"

record sched_review_card =
  vc_card_id :: rowid
  vc_change_set_id :: rowid
  vc_task_id :: rowid
  vc_version :: int
  vc_kind :: sched_kind
  vc_rationale :: string
  vc_related_task_id :: "rowid option"
  vc_not_before :: "time option"
  vc_prerequisite_text :: "string option"

record sched_delivery_claim =
  vd_card :: sched_review_card
  vd_token :: string
  vd_expires_at :: time

record sched_env =
  sn_sha :: "string \<Rightarrow> string"
  sn_provenance :: "(db \<Rightarrow> recommendation \<Rightarrow> bool) option"

section \<open>The tables\<close>

definition set_sched :: "(sched_tables \<Rightarrow> sched_tables) \<Rightarrow> db \<Rightarrow> db" where
  "set_sched f d = d\<lparr>sched := f (sched d)\<rparr>"

text \<open>The constraints a payload can break: the lengths of the texts that are stored.\<close>

definition change_set_check :: "string \<Rightarrow> change_set_row \<Rightarrow> bool" where
  "change_set_check payload s \<longleftrightarrow> 1 \<le> ss_target_task_version s \<and> 1 \<le> ss_expected_workflow_version s
     \<and> length_within 1 128 (ss_research_receipt_id s) \<and> length (ss_research_document_digest s) = 64
     \<and> length (ss_recommendation_digest s) = 64 \<and> length payload \<le> 16384
     \<and> 1 \<le> ss_resulting_workflow_version s"

definition insert_change_set :: "string \<Rightarrow> change_set_row \<Rightarrow> db \<Rightarrow> exc + db" where
  "insert_change_set payload s d =
     (if change_set_check payload s
      then Inr (set_sched (\<lambda>x. x\<lparr>change_sets := change_sets x @ [s]\<rparr>) d)
      else Inl (IntegrityError ''task_scheduling_change_sets''))"

definition update_change_set :: "(change_set_row \<Rightarrow> bool) \<Rightarrow> (change_set_row \<Rightarrow> change_set_row) \<Rightarrow> db \<Rightarrow> db" where
  "update_change_set hit f = set_sched (\<lambda>x. x\<lparr>change_sets := update_where hit f (change_sets x)\<rparr>)"

definition add_change_event :: "rowid \<Rightarrow> rowid \<Rightarrow> change_set_event_kind \<Rightarrow> time \<Rightarrow> db \<Rightarrow> db" where
  "add_change_event k i kind now = set_sched (\<lambda>x. x\<lparr>change_set_events := change_set_events x @
     [\<lparr>sv_change_set_id = k, sv_task_id = i, sv_kind = kind, sv_occurred_at = now\<rparr>]\<rparr>)"

definition sched_card_check :: "sched_card_row \<Rightarrow> bool" where
  "sched_card_check c \<longleftrightarrow> 1 \<le> rc_version c
     \<and> (case rc_claim_token_digest c of None \<Rightarrow> True | Some s \<Rightarrow> length s = 64)
     \<and> (case rc_consumer_digest c of None \<Rightarrow> True | Some s \<Rightarrow> length s = 64)
     \<and> (rc_resolution c \<noteq> None \<longleftrightarrow> rc_status c = ScResolved)
     \<and> (rc_resolved_at c \<noteq> None \<longleftrightarrow> rc_status c = ScResolved)
     \<and> (rc_claim_token_digest c \<noteq> None \<longleftrightarrow> rc_status c = ScDelivering)
     \<and> (rc_claim_expires_at c \<noteq> None \<longleftrightarrow> rc_status c = ScDelivering)
     \<and> (rc_consumer_digest c \<noteq> None \<longleftrightarrow> rc_status c \<noteq> ScPending)
     \<and> (rc_transport c \<noteq> None \<longleftrightarrow> rc_status c \<in> {ScDelivered, ScResolved})
     \<and> (rc_delivery_ref c \<noteq> None \<longleftrightarrow> rc_status c \<in> {ScDelivered, ScResolved})
     \<and> (rc_delivered_at c \<noteq> None \<longleftrightarrow> rc_status c \<in> {ScDelivered, ScResolved})"

abbreviation sched_card_of :: "rowid \<Rightarrow> db \<Rightarrow> sched_card_row option" where
  "sched_card_of k d \<equiv> row_of rc_id k (sched_cards (sched d))"

abbreviation change_set_of :: "rowid \<Rightarrow> db \<Rightarrow> change_set_row option" where
  "change_set_of k d \<equiv> row_of ss_id k (change_sets (sched d))"

definition update_sched_cards :: "(sched_card_row \<Rightarrow> bool) \<Rightarrow> (sched_card_row \<Rightarrow> sched_card_row) \<Rightarrow> db
    \<Rightarrow> exc + (nat \<times> db)" where
  "update_sched_cards hit f d =
     (if list_all (\<lambda>c. sched_card_check (f c)) (filter hit (sched_cards (sched d)))
      then Inr (rowcount hit (sched_cards (sched d)),
        set_sched (\<lambda>x. x\<lparr>sched_cards := update_where hit f (sched_cards x)\<rparr>) d)
      else Inl (IntegrityError ''task_scheduling_review_cards''))"

definition add_sched_card_event :: "sched_card_row \<Rightarrow> sched_card_event_kind \<Rightarrow> int \<Rightarrow> string option \<Rightarrow> time
    \<Rightarrow> db \<Rightarrow> db" where
  "add_sched_card_event c kind version action now = set_sched (\<lambda>x. x\<lparr>sched_card_events := sched_card_events x @
     [\<lparr>rv_card_id = rc_id c, rv_change_set_id = rc_change_set_id c, rv_task_id = rc_task_id c,
       rv_kind = kind, rv_card_version = version, rv_action = action, rv_occurred_at = now\<rparr>]\<rparr>)"

section \<open>Conditions and their graph\<close>

definition live_condition :: "condition_row \<Rightarrow> bool" where
  "live_condition c \<longleftrightarrow> sc_state c \<in> {CondActive, CondNeedsReview}"

definition live_conditions :: "rowid \<Rightarrow> db \<Rightarrow> condition_row list" where
  "live_conditions i d = filter (\<lambda>c. sc_task_id c = i \<and> live_condition c) (conditions d)"

definition is_dependency :: "condition_row \<Rightarrow> bool" where
  "is_dependency c \<longleftrightarrow> (case sc_kind c of AfterTaskCompleted k \<Rightarrow> True | NotBefore t \<Rightarrow> False)"

definition edge_of :: "condition_row \<Rightarrow> edges" where
  "edge_of c = (case sc_kind c of
     AfterTaskCompleted k \<Rightarrow> if live_condition c then [(sc_task_id c, k)] else []
   | NotBefore t \<Rightarrow> [])"

definition waiting_edges :: "db \<Rightarrow> edges" where
  "waiting_edges d = concat (map edge_of (conditions d))"

definition dependency_refusal :: "rowid \<Rightarrow> rowid option \<Rightarrow> db \<Rightarrow> sched_refusal option" where
  "dependency_refusal target dependency d =
     (case dependency of
        None \<Rightarrow> Some SrInvalidRecommendation
      | Some k \<Rightarrow>
          if k < 1 \<or> k = target then Some SrInvalidRecommendation
          else if map_option tk_status (task_of k d) \<noteq> Some TaskOpen then Some SrInvalidState
          else if MAX_PREREQUISITE_EDGES \<le> length (filter is_dependency (live_conditions target d))
          then Some SrLimitExceeded
          else (case dependency_depth ((target, k) # waiting_edges d) of
                  None \<Rightarrow> Some SrCycle
                | Some depth \<Rightarrow> if MAX_DEPENDENCY_DEPTH < depth then Some SrDepthExceeded else None))"

definition target_refusal :: "task_row option \<Rightarrow> workflow_row option \<Rightarrow> recommendation \<Rightarrow> sched_refusal option" where
  "target_refusal task workflow r =
     (case (task, workflow) of
        (Some t, Some w) \<Rightarrow>
          if tk_status t \<noteq> TaskOpen then Some SrInvalidState
          else if tk_version t \<noteq> rm_target_task_version r then Some SrStaleTask
          else if wf_version w \<noteq> rm_expected_workflow_version r then Some SrStaleWorkflow
          else if wf_status w \<in> {WfRunning, WfCompleted, WfCancelled, WfAwaitingReview}
          then Some SrInvalidState else None
      | _ \<Rightarrow> Some SrNotFound)"

text \<open>\<open>INSERT INTO task_scheduling_conditions\<close> and its event.\<close>

definition insert_condition :: "rowid \<Rightarrow> int \<Rightarrow> condition_kind \<Rightarrow> rowid \<Rightarrow> time \<Rightarrow> db \<Rightarrow> exc + db" where
  "insert_condition i tv kind change_set now d =
     (if tv < 1 \<or> kind = AfterTaskCompleted i then Inl (IntegrityError ''task_scheduling_conditions'')
      else
        let k = next_id sc_id (conditions d) in
        Inr (d\<lparr>conditions := conditions d @ [\<lparr>sc_id = k, sc_task_id = i, sc_task_version = tv,
              sc_kind = kind, sc_state = CondActive, sc_change_set_id = change_set,
              sc_created_at = now, sc_updated_at = now\<rparr>],
            condition_events := condition_events d @ [\<lparr>se_condition_id = k, se_task_id = i,
              se_state = CondActive, se_occurred_at = now\<rparr>]\<rparr>))"

section \<open>What a recommendation changes\<close>

text \<open>\<open>_execution_priority_event\<close>: \<open>INSERT ... SELECT\<close> from the workflow as it is now.\<close>

definition execution_priority_event :: "rowid \<Rightarrow> int \<Rightarrow> string \<Rightarrow> time \<Rightarrow> db
    \<Rightarrow> exc + db" where
  "execution_priority_event i version kind now d = insert_workflow_events
     (map (\<lambda>w. \<lparr>we_task_id = i, we_kind = kind, we_workflow_version = version,
         we_task_version = wf_task_version w, we_phase = wf_phase w, we_status = wf_status w,
         we_occurred_at = now, we_profile_id = wf_profile_id w, we_profile_revision = wf_profile_revision w\<rparr>)
       (filter (\<lambda>w. wf_task_id w = i) (workflows d))) d"

definition unowned :: owner_state where
  "unowned = \<lparr>ow_display = None, ow_ref_version = 0, ow_kind = None, ow_speaker_id = None,
     ow_canonical_speaker_id = None, ow_speaker_registry_id = None, ow_pinned = False,
     ow_provisional = True, ow_person_id = None\<rparr>"

definition prerequisite_task :: "rowid \<Rightarrow> string \<Rightarrow> time \<Rightarrow> task_row" where
  "prerequisite_task i body now = \<lparr>tk_id = i, tk_status = TaskOpen, tk_text = strip body, tk_owner = unowned,
     tk_due = None, tk_structure = \<lparr>st_object = None, st_action = None, st_confidence = None\<rparr>,
     tk_version = 1, tk_created_at = now, tk_updated_at = now, tk_closed_at = None,
     tk_working_group = None\<rparr>"

definition prerequisite_workflow :: "rowid \<Rightarrow> workflow_row \<Rightarrow> time \<Rightarrow> workflow_row" where
  "prerequisite_workflow i template now =
     \<lparr>wf_task_id = i, wf_task_version = 1, wf_status = WfQueued, wf_phase = PhasePlan, wf_version = 1,
      wf_due_at = None, wf_claim_token_digest = None, wf_claimed_at = None, wf_claim_heartbeat_at = None,
      wf_claim_expires_at = None, wf_failure_count = 0, wf_current_run_id = None,
      wf_last_failure_reason = None, wf_last_failure_exit_code = None, wf_last_failure_run_id = None,
      wf_last_failure_at = None, wf_next_attempt_at = None, wf_parked_at = None, wf_updated_at = now,
      wf_completed_at = None, wf_profile_id = wf_profile_id template,
      wf_profile_revision = wf_profile_revision template, wf_last_result_id = None, wf_created_at = now,
      wf_steer = False, wf_priority = PrioNormal, wf_priority_source = None\<rparr>"

definition create_prerequisite :: "string \<Rightarrow> time \<Rightarrow> workflow_row \<Rightarrow> db \<Rightarrow> exc + (rowid \<times> db)" where
  "create_prerequisite body now template d =
     (let i = next_id tk_id (tasks d);
          d1 = insert_task_event \<lparr>te_task_id = i, te_kind = EvCreated, te_task_version = 1,
              te_candidate_id = None, te_source_revision = None, te_from_status = None,
              te_to_status = Some TaskOpen, te_occurred_at = now\<rparr>
            (d\<lparr>tasks := tasks d @ [prerequisite_task i body now]\<rparr>) in
      rbind (insert_workflow (prerequisite_workflow i template now) d1) (\<lambda>d2. Inr (i, d2)))"

text \<open>The values the change set records of what was done.\<close>

record sched_effect =
  ef_prior_priority :: "workflow_priority option"
  ef_version :: int
  ef_created :: "rowid option"
  ef_related :: "rowid option"

definition no_effect :: "recommendation \<Rightarrow> sched_effect" where
  "no_effect r = \<lparr>ef_prior_priority = None, ef_version = rm_expected_workflow_version r, ef_created = None,
     ef_related = rm_related_task_id r\<rparr>"

definition raise_target :: "recommendation \<Rightarrow> workflow_row \<Rightarrow> time \<Rightarrow> db
    \<Rightarrow> exc + (sched_refusal + (sched_effect \<times> db))" where
  "raise_target r w now d =
     (let i = rm_target_task_id r; v = rm_expected_workflow_version r in
      if wf_priority w \<noteq> PrioNormal \<or> wf_priority_source w \<noteq> None then Inr (Inl SrManualPriority)
      else
        rbind (update_workflows (\<lambda>x. at_version i v x \<and> wf_status x = WfQueued \<and> wf_priority x = PrioNormal
              \<and> (case wf_next_attempt_at x of None \<Rightarrow> True | Some a \<Rightarrow> a \<le> now))
            (\<lambda>x. x\<lparr>wf_priority := PrioRaised, wf_priority_source := Some ''automation'',
               wf_version := v + 1, wf_updated_at := now\<rparr>) d)
          (\<lambda>(n, d1).
            if n \<noteq> 1 then Inr (Inl SrInvalidState)
            else rbind (execution_priority_event i (v + 1) ''priority_raised'' now d1) (\<lambda>d2.
              Inr (Inr ((no_effect r)\<lparr>ef_prior_priority := Some PrioNormal, ef_version := v + 1\<rparr>, d2)))))"

definition make_prerequisite :: "recommendation \<Rightarrow> workflow_row \<Rightarrow> time \<Rightarrow> db
    \<Rightarrow> exc + (sched_refusal + (sched_effect \<times> db))" where
  "make_prerequisite r w now d =
     rbind (create_prerequisite (case rm_prerequisite_text r of None \<Rightarrow> '''' | Some s \<Rightarrow> s) now w d)
       (\<lambda>(k, d1).
         case dependency_refusal (rm_target_task_id r) (Some k) d1 of
           Some ref \<Rightarrow> Inr (Inl ref)
         | None \<Rightarrow> Inr (Inr ((no_effect r)\<lparr>ef_created := Some k, ef_related := Some k\<rparr>, d1)))"

text \<open>The branches of \<open>apply\<close>, one per kind of recommendation.\<close>

definition sched_change :: "recommendation \<Rightarrow> workflow_row \<Rightarrow> time \<Rightarrow> db
    \<Rightarrow> exc + (sched_refusal + (sched_effect \<times> db))" where
  "sched_change r w now d =
     (case rm_kind r of
        SkNotBefore \<Rightarrow>
          if list_ex (\<lambda>c. \<not> is_dependency c) (live_conditions (rm_target_task_id r) d)
          then Inr (Inl SrLimitExceeded) else Inr (Inr (no_effect r, d))
      | SkAfterTaskCompleted \<Rightarrow>
          (case dependency_refusal (rm_target_task_id r) (rm_related_task_id r) d of
             Some ref \<Rightarrow> Inr (Inl ref) | None \<Rightarrow> Inr (Inr (no_effect r, d)))
      | SkRaisePriority \<Rightarrow> raise_target r w now d
      | SkCreatePrerequisite \<Rightarrow> make_prerequisite r w now d)"

definition adds_condition :: "sched_kind \<Rightarrow> bool" where
  "adds_condition k \<longleftrightarrow> k \<in> {SkAfterTaskCompleted, SkNotBefore, SkCreatePrerequisite}"

section \<open>Applying a recommendation\<close>

definition change_set_row_of :: "recommendation \<Rightarrow> sched_document \<Rightarrow> string \<Rightarrow> workflow_row \<Rightarrow> sched_effect
    \<Rightarrow> time \<Rightarrow> rowid \<Rightarrow> change_set_row" where
  "change_set_row_of r doc digest w ef now k =
     \<lparr>ss_id = k, ss_target_task_id = rm_target_task_id r,
      ss_target_task_version = rm_target_task_version r,
      ss_expected_workflow_version = rm_expected_workflow_version r, ss_kind = rm_kind r,
      ss_state = SetActive, ss_research_receipt_id = rm_research_receipt_id r,
      ss_research_document_digest = rm_research_document_digest r, ss_recommendation_digest = digest,
      ss_recommendation = Some doc, ss_prior_priority = ef_prior_priority ef,
      ss_prior_priority_source = wf_priority_source w, ss_resulting_workflow_version = ef_version ef,
      ss_created_task_id = ef_created ef, ss_created_at = now, ss_updated_at = now\<rparr>"

definition sched_card_for :: "rowid \<Rightarrow> rowid \<Rightarrow> rowid \<Rightarrow> time \<Rightarrow> sched_card_row" where
  "sched_card_for k change_set i now =
     \<lparr>rc_id = k, rc_change_set_id = change_set, rc_task_id = i, rc_status = ScPending, rc_version = 1,
      rc_resolution = None, rc_claim_token_digest = None, rc_claim_expires_at = None,
      rc_consumer_digest = None, rc_transport = None, rc_delivery_ref = None, rc_delivered_at = None,
      rc_created_at = now, rc_updated_at = now, rc_resolved_at = None\<rparr>"

text \<open>The condition of a change that adds one; \<open>related\<close> and \<open>not_before\<close> were checked before.\<close>

definition condition_for :: "recommendation \<Rightarrow> sched_document \<Rightarrow> sched_effect \<Rightarrow> condition_kind option" where
  "condition_for r doc ef =
     (if \<not> adds_condition (rm_kind r) then None
      else if rm_kind r = SkNotBefore then map_option NotBefore (rd_not_before doc)
      else map_option AfterTaskCompleted (ef_related ef))"

definition open_review :: "rowid \<Rightarrow> rowid \<Rightarrow> time \<Rightarrow> db \<Rightarrow> rowid \<times> db" where
  "open_review change_set i now d =
     (let k = next_id rc_id (sched_cards (sched d)); c = sched_card_for k change_set i now in
      (k, add_sched_card_event c RevScheduled 1 None now
        (set_sched (\<lambda>x. x\<lparr>sched_cards := sched_cards x @ [c]\<rparr>) d)))"

definition store_change :: "sched_env \<Rightarrow> recommendation \<Rightarrow> sched_document \<Rightarrow> workflow_row \<Rightarrow> sched_effect \<Rightarrow> time
    \<Rightarrow> db \<Rightarrow> exc + (sched_apply_result \<times> db)" where
  "store_change E r doc w ef now d =
     (let i = rm_target_task_id r; payload = document_text doc;
          k = next_id ss_id (change_sets (sched d)) in
      rbind (insert_change_set payload (change_set_row_of r doc (sn_sha E payload) w ef now k) d) (\<lambda>d1.
      rbind (case condition_for r doc ef of
               None \<Rightarrow> Inr d1
             | Some kind \<Rightarrow> insert_condition i (rm_target_task_version r) kind k now d1) (\<lambda>d2.
        let (card, d3) = open_review k i now (add_change_event k i SetEvApplied now d2) in
        Inr (\<lparr>pa_disposition = SdApplied, pa_refusal = None, pa_change_set_id = Some k,
            pa_card_id = Some card, pa_created_task_id = ef_created ef,
            pa_resulting_version = Some (ef_version ef)\<rparr>, d3))))"

definition known_change :: "string \<Rightarrow> string \<Rightarrow> db \<Rightarrow> change_set_row option" where
  "known_change receipt digest d = List.find (\<lambda>s. ss_research_receipt_id s = receipt
     \<and> ss_recommendation_digest s = digest) (sort_key ss_id (change_sets (sched d)))"

definition apply_tx :: "sched_env \<Rightarrow> recommendation \<Rightarrow> sched_document \<Rightarrow> time \<Rightarrow> db
    \<Rightarrow> exc + (sched_apply_result \<times> db)" where
  "apply_tx E r doc now d =
     (let i = rm_target_task_id r; refuse = (\<lambda>ref. Inr (pa_refused ref, d)) in
      if (case sn_provenance E of None \<Rightarrow> True | Some ok \<Rightarrow> \<not> ok d r) then refuse SrInvalidRecommendation
      else case known_change (rm_research_receipt_id r) (sn_sha E (document_text doc)) d of
        Some s \<Rightarrow> Inr (\<lparr>pa_disposition = SdUnchanged, pa_refusal = None, pa_change_set_id = Some (ss_id s),
          pa_card_id = map_option rc_id (List.find (\<lambda>c. rc_change_set_id c = ss_id s) (sched_cards (sched d))),
          pa_created_task_id = None, pa_resulting_version = Some (ss_resulting_workflow_version s)\<rparr>, d)
      | None \<Rightarrow>
          (case (target_refusal (task_of i d) (workflow_of i d) r, workflow_of i d) of
             (None, Some w) \<Rightarrow>
               if adds_condition (rm_kind r) \<and> MAX_ACTIVE_CONDITIONS \<le> length (live_conditions i d)
               then refuse SrLimitExceeded
               else rbind (sched_change r w now d) (\<lambda>out.
                 case out of
                   Inl ref \<Rightarrow> refuse ref
                 | Inr (ef, d1) \<Rightarrow> store_change E r doc w ef now d1)
           | (Some ref, _) \<Rightarrow> refuse ref
           | (None, None) \<Rightarrow> refuse SrNotFound))"

definition sched_apply :: "sched_env \<Rightarrow> recommendation \<Rightarrow> time \<Rightarrow> db \<Rightarrow> (exc + sched_apply_result) \<times> db" where
  "sched_apply E r now d =
     (case recommendation_document r of
        None \<Rightarrow> (Inr (pa_refused SrInvalidRecommendation), d)
      | Some doc \<Rightarrow>
          if rm_kind r = SkNotBefore
            \<and> (case rd_not_before doc of None \<Rightarrow> True | Some t \<Rightarrow> t \<le> now \<or> now + days MAX_NOT_BEFORE_DAYS < t)
          then (Inr (pa_refused SrInvalidRecommendation), d)
          else run_tx (apply_tx E r doc now) d)"

section \<open>Delivery\<close>

definition sched_valid_secret :: "string \<Rightarrow> bool" where
  "sched_valid_secret s \<longleftrightarrow> length_within 32 512 s \<and> list_all (\<lambda>c. code_of c \<noteq> 0) s"

definition sched_valid_opaque :: "string \<Rightarrow> nat \<Rightarrow> bool" where
  "sched_valid_opaque s maximum \<longleftrightarrow> length_within 1 maximum s \<and> list_all (\<lambda>c. code_of c \<notin> {0, 10, 13}) s"

definition card_at :: "rowid \<Rightarrow> int \<Rightarrow> sched_card_status \<Rightarrow> sched_card_row \<Rightarrow> bool" where
  "card_at k v st c \<longleftrightarrow> rc_id c = k \<and> rc_version c = v \<and> rc_status c = st"

text \<open>A lease given back: by its expiry or by the consumer.\<close>

definition sched_returned :: "time \<Rightarrow> sched_card_row \<Rightarrow> sched_card_row" where
  "sched_returned now c = c\<lparr>rc_status := ScPending, rc_version := rc_version c + 1,
     rc_claim_token_digest := None, rc_claim_expires_at := None, rc_consumer_digest := None,
     rc_updated_at := now\<rparr>"

definition expire_sched_card :: "time \<Rightarrow> sched_card_row \<Rightarrow> db \<Rightarrow> exc + db" where
  "expire_sched_card now c d =
     rbind (update_sched_cards (card_at (rc_id c) (rc_version c) ScDelivering) (sched_returned now) d)
       (\<lambda>(n, d1). Inr (if n = 1 then add_sched_card_event c RevExpired (rc_version c + 1) None now d1 else d1))"

definition expired_sched_cards :: "time \<Rightarrow> db \<Rightarrow> sched_card_row list" where
  "expired_sched_cards now d = sort_key rc_id (filter (\<lambda>c. rc_status c = ScDelivering
     \<and> (case rc_claim_expires_at c of None \<Rightarrow> False | Some e \<Rightarrow> e \<le> now)) (sched_cards (sched d)))"

definition next_sched_card :: "db \<Rightarrow> (sched_card_row \<times> change_set_row) option" where
  "next_sched_card d =
     (case [(c, s). c \<leftarrow> sort_key rc_created_at (sort_key rc_id (sched_cards (sched d))),
                    rc_status c = ScPending, s \<leftarrow> change_sets (sched d), ss_id s = rc_change_set_id c] of
        [] \<Rightarrow> None | x # _ \<Rightarrow> Some x)"

definition sched_leased :: "string \<Rightarrow> string \<Rightarrow> time \<Rightarrow> time \<Rightarrow> sched_card_row \<Rightarrow> sched_card_row" where
  "sched_leased digest consumer expires now c = c\<lparr>rc_status := ScDelivering, rc_version := rc_version c + 1,
     rc_claim_token_digest := Some digest, rc_claim_expires_at := Some expires,
     rc_consumer_digest := Some consumer, rc_updated_at := now\<rparr>"

definition sched_claim_tx :: "sched_env \<Rightarrow> string \<Rightarrow> int \<Rightarrow> string \<Rightarrow> time \<Rightarrow> db
    \<Rightarrow> exc + ((sched_card_row \<times> change_set_row) option \<times> db)" where
  "sched_claim_tx E consumer lease token now d =
     rbind (each (expire_sched_card now) (expired_sched_cards now d) d) (\<lambda>d1.
       case next_sched_card d1 of
         None \<Rightarrow> Inr (None, d1)
       | Some (c, s) \<Rightarrow>
           rbind (update_sched_cards (card_at (rc_id c) (rc_version c) ScPending)
               (sched_leased (sn_sha E token) consumer (now + lease) now) d1)
             (\<lambda>(n, d2).
               if n \<noteq> 1 then Inr (None, d)
               else Inr (Some (c, s), add_sched_card_event c RevClaimed (rc_version c + 1) None now d2)))"

text \<open>\<open>_review_card\<close>: the stored payload is read back; it is parsed after the lease is committed.\<close>

definition sched_review_card_of :: "sched_card_row \<Rightarrow> change_set_row \<Rightarrow> int \<Rightarrow> exc + sched_review_card" where
  "sched_review_card_of c s version =
     (case ss_recommendation s of
        None \<Rightarrow> Inl (TaskLedgerError ''scheduling card payload is invalid'')
      | Some doc \<Rightarrow> Inr \<lparr>vc_card_id = rc_id c, vc_change_set_id = rc_change_set_id c, vc_task_id = rc_task_id c,
          vc_version = version, vc_kind = ss_kind s, vc_rationale = rd_rationale doc,
          vc_related_task_id = rd_related_task_id doc, vc_not_before = rd_not_before doc,
          vc_prerequisite_text = rd_prerequisite_text doc\<rparr>)"

definition sched_claim_next :: "sched_env \<Rightarrow> string \<Rightarrow> int \<Rightarrow> string \<Rightarrow> time \<Rightarrow> db
    \<Rightarrow> (exc + sched_delivery_claim option) \<times> db" where
  "sched_claim_next E consumer lease token now d =
     (if \<not> (5 \<le> lease \<and> lease \<le> 300)
      then (Inl (TaskLedgerError ''scheduling card delivery lease is invalid''), d)
      else if \<not> lower_hex 64 consumer
      then (Inl (TaskLedgerError ''scheduling card consumer digest is invalid''), d)
      else if \<not> sched_valid_secret token
      then (Inl (TaskLedgerError ''scheduling card token factory returned invalid state''), d)
      else case run_tx (sched_claim_tx E consumer lease token now) d of
        (Inl e, d1) \<Rightarrow> (Inl e, d1)
      | (Inr None, d1) \<Rightarrow> (Inr None, d1)
      | (Inr (Some (c, s)), d1) \<Rightarrow>
          (rbind (sched_review_card_of c s (rc_version c + 1)) (\<lambda>card.
             Inr (Some \<lparr>vd_card = card, vd_token = token, vd_expires_at = now + lease\<rparr>)), d1))"

definition delivery_guard :: "sched_card_row option \<Rightarrow> int \<Rightarrow> string \<Rightarrow> time \<Rightarrow> exc + sched_refusal option" where
  "delivery_guard row expected digest now =
     (case row of
        None \<Rightarrow> Inr (Some SrNotFound)
      | Some c \<Rightarrow>
          if rc_version c \<noteq> expected then Inr (Some SrStaleCard)
          else if rc_status c \<noteq> ScDelivering then Inr (Some SrInvalidState)
          else if rc_claim_token_digest c \<noteq> Some digest then Inr (Some SrClaimMismatch)
          else (case rc_claim_expires_at c of
                  None \<Rightarrow> Inl (TaskLedgerError ''task scheduling timestamp is invalid'')
                | Some e \<Rightarrow> Inr (if e \<le> now then Some SrInvalidState else None)))"

definition sched_acknowledged :: "string \<Rightarrow> string \<Rightarrow> time \<Rightarrow> sched_card_row \<Rightarrow> sched_card_row" where
  "sched_acknowledged transport ref now c = c\<lparr>rc_status := ScDelivered, rc_claim_token_digest := None,
     rc_claim_expires_at := None, rc_transport := Some transport, rc_delivery_ref := Some ref,
     rc_delivered_at := Some now, rc_updated_at := now\<rparr>"

text \<open>The end of both deliveries: the guarded \<open>UPDATE\<close>, its event and the answer.\<close>

definition finish_delivery :: "sched_card_row option \<Rightarrow> rowid \<Rightarrow> int \<Rightarrow> string \<Rightarrow> (sched_card_row \<Rightarrow> sched_card_row)
    \<Rightarrow> sched_card_event_kind \<Rightarrow> int \<Rightarrow> time \<Rightarrow> db \<Rightarrow> exc + (sched_action_result \<times> db)" where
  "finish_delivery row k expected digest f kind version now d =
     rbind (delivery_guard row expected digest now) (\<lambda>refusal.
       case (refusal, row) of
         (None, Some c) \<Rightarrow>
           rbind (update_sched_cards (card_at k expected ScDelivering) f d) (\<lambda>(n, d1).
             if n \<noteq> 1 then Inr (sa_refused k SrStaleCard, d)
             else Inr (sa_done SdApplied k version, add_sched_card_event c kind version None now d1))
       | (Some ref, _) \<Rightarrow> Inr (sa_refused k ref, d)
       | (None, None) \<Rightarrow> Inr (sa_refused k SrNotFound, d))"

definition complete_delivery_tx :: "sched_env \<Rightarrow> rowid \<Rightarrow> int \<Rightarrow> string \<Rightarrow> string \<Rightarrow> string \<Rightarrow> time \<Rightarrow> db
    \<Rightarrow> exc + (sched_action_result \<times> db)" where
  "complete_delivery_tx E k expected token transport ref now d =
     (case sched_card_of k d of
        None \<Rightarrow> Inr (sa_refused k SrNotFound, d)
      | Some c \<Rightarrow>
          if rc_version c \<noteq> expected then Inr (sa_refused k SrStaleCard, d)
          else if rc_status c = ScDelivered
          then Inr (if rc_transport c = Some transport \<and> rc_delivery_ref c = Some ref
                    then sa_done SdUnchanged k expected else sa_refused k SrInvalidState, d)
          else finish_delivery (Some c) k expected (sn_sha E token) (sched_acknowledged transport ref now)
                 RevDelivered expected now d)"

definition sched_complete_delivery :: "sched_env \<Rightarrow> rowid \<Rightarrow> int \<Rightarrow> string \<Rightarrow> string \<Rightarrow> string \<Rightarrow> time \<Rightarrow> db
    \<Rightarrow> (exc + sched_action_result) \<times> db" where
  "sched_complete_delivery E k expected token transport ref now d =
     (if k < 1 \<or> expected < 1 \<or> \<not> sched_valid_secret token \<or> \<not> sched_valid_opaque transport 64
        \<or> \<not> sched_valid_opaque ref 200
      then (Inr (sa_refused k SrInvalidArgument), d)
      else run_tx (complete_delivery_tx E k expected token transport ref now) d)"

definition sched_fail_delivery :: "sched_env \<Rightarrow> rowid \<Rightarrow> int \<Rightarrow> string \<Rightarrow> time \<Rightarrow> db
    \<Rightarrow> (exc + sched_action_result) \<times> db" where
  "sched_fail_delivery E k expected token now d =
     (if k < 1 \<or> expected < 1 \<or> \<not> sched_valid_secret token
      then (Inr (sa_refused k SrInvalidArgument), d)
      else run_tx (\<lambda>d. finish_delivery (sched_card_of k d) k expected (sn_sha E token) (sched_returned now)
             RevFailed (expected + 1) now d) d)"

section \<open>The answer\<close>

definition pristine_prerequisite :: "task_row option \<Rightarrow> workflow_row option \<Rightarrow> bool" where
  "pristine_prerequisite task workflow \<longleftrightarrow>
     (case task of None \<Rightarrow> False | Some t \<Rightarrow> tk_status t = TaskOpen \<and> tk_version t = 1)
     \<and> (case workflow of None \<Rightarrow> True
        | Some w \<Rightarrow> wf_status w \<in> {WfAwaitingStart, WfQueued} \<and> wf_version w = 1 \<and> wf_failure_count w = 0
            \<and> wf_last_result_id w = None \<and> wf_claim_token_digest w = None)"

definition undo_conflict :: "sched_card_row \<Rightarrow> change_set_row \<Rightarrow> db \<Rightarrow> bool" where
  "undo_conflict c s d \<longleftrightarrow>
     (case (task_of (rc_task_id c) d, workflow_of (rc_task_id c) d) of
        (Some t, Some w) \<Rightarrow>
          ss_state s \<noteq> SetActive \<or> tk_status t \<noteq> TaskOpen \<or> tk_version t \<noteq> ss_target_task_version s
          \<or> wf_version w \<noteq> ss_resulting_workflow_version s
          \<or> wf_status w \<in> {WfRunning, WfCompleted, WfCancelled, WfAwaitingReview}
          \<or> (ss_kind s = SkRaisePriority
             \<and> (wf_priority w \<noteq> PrioRaised \<or> wf_priority_source w \<noteq> Some ''automation''))
          \<or> (case ss_created_task_id s of None \<Rightarrow> False
             | Some k \<Rightarrow> \<not> pristine_prerequisite (task_of k d) (workflow_of k d))
      | _ \<Rightarrow> True)"

definition in_change_set :: "rowid \<Rightarrow> condition_row \<Rightarrow> bool" where
  "in_change_set k c \<longleftrightarrow> sc_change_set_id c = k"

definition cancel_conditions :: "rowid \<Rightarrow> time \<Rightarrow> db \<Rightarrow> db" where
  "cancel_conditions k now d =
     (let cs = update_where (\<lambda>c. in_change_set k c \<and> sc_state c \<in> {CondActive, CondSatisfied, CondNeedsReview})
                 (\<lambda>c. c\<lparr>sc_state := CondCanceled, sc_updated_at := now\<rparr>) (conditions d) in
      d\<lparr>conditions := cs,
        condition_events := condition_events d @
          map (\<lambda>c. \<lparr>se_condition_id = sc_id c, se_task_id = sc_task_id c, se_state = CondCanceled,
              se_occurred_at = now\<rparr>)
            (filter (\<lambda>c. in_change_set k c \<and> sc_state c = CondCanceled) cs)\<rparr>)"

definition restore_priority :: "sched_card_row \<Rightarrow> change_set_row \<Rightarrow> time \<Rightarrow> db \<Rightarrow> exc + db" where
  "restore_priority c s now d =
     (if ss_kind s \<noteq> SkRaisePriority then Inr d
      else
        let i = rc_task_id c; v = ss_resulting_workflow_version s in
        case ss_prior_priority s of
          None \<Rightarrow> Inl (IntegrityError ''task_execution_workflows'')
        | Some p \<Rightarrow>
            rbind (update_workflows (at_version i v)
                (\<lambda>x. x\<lparr>wf_priority := p, wf_priority_source := ss_prior_priority_source s,
                   wf_version := v + 1, wf_updated_at := now\<rparr>) d)
              (\<lambda>(n, d1). execution_priority_event i (v + 1) ''priority_cleared'' now d1))"

definition cancel_prerequisite_cards :: "rowid \<Rightarrow> int \<Rightarrow> time \<Rightarrow> db \<Rightarrow> exc + db" where
  "cancel_prerequisite_cards i wv now d = each (cancel_gate wv now)
     (filter (\<lambda>c. xc_task_id c = i \<and> gate_active (xc_status c)) (gate_cards d)) d"

definition cancel_prerequisite_workflow :: "rowid \<Rightarrow> workflow_row \<Rightarrow> time \<Rightarrow> db \<Rightarrow> exc + db" where
  "cancel_prerequisite_workflow i w now d =
     rbind (cancel_prerequisite_cards i (wf_version w) now d) (\<lambda>d1.
     rbind (update_workflows (at_version i (wf_version w))
         (\<lambda>x. x\<lparr>wf_status := WfCancelled, wf_version := wf_version w + 1, wf_updated_at := now,
            wf_completed_at := Some now\<rparr>) d1)
       (\<lambda>(n, d2). insert_workflow_events
         [\<lparr>we_task_id = i, we_kind = ''cancelled'', we_workflow_version = wf_version w + 1,
           we_task_version = 1, we_phase = wf_phase w, we_status = WfCancelled, we_occurred_at = now,
           we_profile_id = wf_profile_id w, we_profile_revision = wf_profile_revision w\<rparr>] d2))"

definition drop_prerequisite_task :: "rowid \<Rightarrow> time \<Rightarrow> db \<Rightarrow> db" where
  "drop_prerequisite_task i now d = insert_task_event
     \<lparr>te_task_id = i, te_kind = EvStatusChanged, te_task_version = 2, te_candidate_id = None,
      te_source_revision = None, te_from_status = Some TaskOpen, te_to_status = Some TaskDropped,
      te_occurred_at = now\<rparr>
     (d\<lparr>tasks := update_where (\<lambda>t. tk_id t = i \<and> tk_status t = TaskOpen \<and> tk_version t = 1)
        (\<lambda>t. t\<lparr>tk_status := TaskDropped, tk_version := 2, tk_updated_at := now, tk_closed_at := Some now\<rparr>)
        (tasks d)\<rparr>)"

definition drop_prerequisite :: "change_set_row \<Rightarrow> time \<Rightarrow> db \<Rightarrow> exc + db" where
  "drop_prerequisite s now d =
     (case ss_created_task_id s of
        None \<Rightarrow> Inr d
      | Some i \<Rightarrow>
          rbind (case workflow_of i d of
                   None \<Rightarrow> Inr d
                 | Some w \<Rightarrow> cancel_prerequisite_workflow i w now d)
            (\<lambda>d1. Inr (drop_prerequisite_task i now d1)))"

definition resolve_sched_card :: "sched_card_row \<Rightarrow> int \<Rightarrow> string \<Rightarrow> time \<Rightarrow> db \<Rightarrow> exc + db" where
  "resolve_sched_card c version action now d =
     rbind (update_sched_cards (card_at (rc_id c) (rc_version c) ScDelivered)
         (\<lambda>x. x\<lparr>rc_status := ScResolved, rc_version := version, rc_resolution := Some action,
            rc_updated_at := now, rc_resolved_at := Some now\<rparr>) d)
       (\<lambda>(n, d1). Inr (add_sched_card_event c RevResolved version (Some action) now d1))"

definition set_state_from_active :: "rowid \<Rightarrow> change_set_state \<Rightarrow> time \<Rightarrow> db \<Rightarrow> db" where
  "set_state_from_active k st now = update_change_set (\<lambda>s. ss_id s = k \<and> ss_state s = SetActive)
     (\<lambda>s. s\<lparr>ss_state := st, ss_updated_at := now\<rparr>)"

definition record_conflict :: "sched_card_row \<Rightarrow> time \<Rightarrow> db \<Rightarrow> db" where
  "record_conflict c now d =
     add_sched_card_event c RevUndoConflict (rc_version c) (Some ''undo'') now
       (add_change_event (rc_change_set_id c) (rc_task_id c) SetEvUndoConflict now
         (set_state_from_active (rc_change_set_id c) SetUndoConflict now d))"

definition undo_set :: "sched_card_row \<Rightarrow> change_set_row \<Rightarrow> time \<Rightarrow> db \<Rightarrow> exc + db" where
  "undo_set c s now d =
     rbind (restore_priority c s now (cancel_conditions (rc_change_set_id c) now d)) (\<lambda>d1.
     rbind (drop_prerequisite s now d1) (\<lambda>d2.
       Inr (add_change_event (rc_change_set_id c) (rc_task_id c) SetEvUndone now
         (set_state_from_active (rc_change_set_id c) SetUndone now d2))))"

definition act_tx :: "rowid \<Rightarrow> int \<Rightarrow> string \<Rightarrow> time \<Rightarrow> db \<Rightarrow> exc + (sched_action_result \<times> db)" where
  "act_tx k expected action now d =
     (case sched_card_of k d of
        None \<Rightarrow> Inr (sa_refused k SrNotFound, d)
      | Some c \<Rightarrow>
          (case change_set_of (rc_change_set_id c) d of
             None \<Rightarrow> Inr (sa_refused k SrNotFound, d)
           | Some s \<Rightarrow>
               if rc_status c \<noteq> ScDelivered then Inr (sa_refused k SrInvalidState, d)
               else if rc_version c \<noteq> expected then Inr (sa_refused k SrStaleCard, d)
               else if action = ''keep''
               then rbind (resolve_sched_card c (expected + 1) ''keep'' now d)
                      (\<lambda>d1. Inr (sa_done SdApplied k (expected + 1), d1))
               else if undo_conflict c s d then Inr (sa_refused k SrUndoConflict, record_conflict c now d)
               else rbind (undo_set c s now d) (\<lambda>d1.
                    rbind (resolve_sched_card c (expected + 1) ''undo'' now d1)
                      (\<lambda>d2. Inr (sa_done SdApplied k (expected + 1), d2)))))"

definition sched_act :: "rowid \<Rightarrow> int \<Rightarrow> string \<Rightarrow> time \<Rightarrow> db \<Rightarrow> (exc + sched_action_result) \<times> db" where
  "sched_act k expected action now d =
     (if k < 1 \<or> expected < 1 \<or> action \<notin> {''undo'', ''keep''}
      then (Inr (sa_refused k SrInvalidRecommendation), d)
      else run_tx (act_tx k expected action now) d)"

end
