(* ===== verification/SchedCards.thy ===== *)
theory SchedCards
  imports Scheduling Callback
begin

text \<open>
  The wire form of a scheduling review card (\<open>task_scheduling.py\<close>): the HTML body, the two buttons and
  the parser of what a button sends back.  The compass of the heading is written as its UTF-8 bytes.
\<close>

definition SCHED_CALLBACK_PREFIX :: string where
  "SCHED_CALLBACK_PREFIX = ''fhs''"

definition SCHED_CALLBACK_DATA_LIMIT :: nat where
  "SCHED_CALLBACK_DATA_LIMIT = 64"

text \<open>\<open>html.escape(text, quote=False)\<close>.\<close>

definition html_char :: "char \<Rightarrow> string" where
  "html_char c = (if c = CHR ''&'' then ''&amp;'' else if c = CHR ''<'' then ''&lt;''
     else if c = CHR ''>'' then ''&gt;'' else [c])"

definition html_escape :: "string \<Rightarrow> string" where
  "html_escape s = concat (map html_char s)"

text \<open>An f-string prints a missing value as \<open>None\<close>.\<close>

definition shown :: "('a \<Rightarrow> string) \<Rightarrow> 'a option \<Rightarrow> string" where
  "shown f x = (case x of None \<Rightarrow> ''None'' | Some v \<Rightarrow> f v)"

definition change_line :: "sched_review_card \<Rightarrow> string" where
  "change_line c =
     (let target = CHR ''T'' # str_int (vc_task_id c) in
      case vc_kind c of
        SkAfterTaskCompleted \<Rightarrow> ''Keep '' @ target @ '' behind T'' @ shown str_int (vc_related_task_id c) @ ''.''
      | SkNotBefore \<Rightarrow> ''Park '' @ target @ '' until '' @ shown iso_utc (vc_not_before c) @ ''.''
      | SkRaisePriority \<Rightarrow> ''Move '' @ target @ '' to the raised-priority queue.''
      | SkCreatePrerequisite \<Rightarrow> ''Create a prerequisite ahead of '' @ target @ '': ''
          @ html_escape (take 1000 (case vc_prerequisite_text c of None \<Rightarrow> '''' | Some s \<Rightarrow> s)))"

definition blank_line :: string where
  "blank_line = [CHR 0x0A, CHR 0x0A]"

definition sched_callback :: "sched_review_card \<Rightarrow> string \<Rightarrow> exc + string" where
  "sched_callback c action =
     (let value = SCHED_CALLBACK_PREFIX @ ''|'' @ str_int (vc_card_id c) @ ''|'' @ str_int (vc_version c)
            @ ''|'' @ action in
      if SCHED_CALLBACK_DATA_LIMIT < length value
      then Inl (TaskLedgerError ''scheduling callback exceeds transport limit'') else Inr value)"

definition render_scheduling_review_card :: "sched_review_card \<Rightarrow> exc + (string \<times> (string \<times> string) list)" where
  "render_scheduling_review_card c =
     (let body = [CHR 0xF0, CHR 0x9F, CHR 0xA7, CHR 0xAD] @ '' <b>Queue updated</b>'' @ blank_line
            @ change_line c @ blank_line @ ''<b>Why:</b> '' @ html_escape (take 2000 (vc_rationale c))
            @ blank_line @ ''The change is already active. Use Undo to reverse it.'' in
      rbind (sched_callback c ''keep'') (\<lambda>keep.
      rbind (sched_callback c ''undo'') (\<lambda>undo.
        Inr (body, [(''Keep'', keep), (''Undo'', undo)]))))"

definition parse_scheduling_review_callback :: "string \<Rightarrow> (rowid \<times> int \<times> string) option" where
  "parse_scheduling_review_callback value =
     (if \<not> length_within 1 SCHED_CALLBACK_DATA_LIMIT value then None
      else (case split_on CHR ''|'' value of
        [prefix, p1, p2, action] \<Rightarrow>
          if prefix \<noteq> SCHED_CALLBACK_PREFIX then None
          else (case (py_int p1, py_int p2) of
            (Some k, Some v) \<Rightarrow>
              if k < 1 \<or> v < 1 \<or> action \<notin> {''keep'', ''undo''} then None else Some (k, v, action)
          | _ \<Rightarrow> None)
      | _ \<Rightarrow> None))"

section \<open>Escaped text opens no tag\<close>

lemma html_escape_inert:
  "CHR ''<'' \<notin> set (html_escape s)" "CHR ''>'' \<notin> set (html_escape s)"
  by (auto simp: html_escape_def html_char_def split: if_splits)

text \<open>What the reader of the scheduling card may send back is exactly what the card was rendered from.\<close>

lemma parse_rendered_callback:
  assumes "1 \<le> vc_card_id c" and "1 \<le> vc_version c" and "action \<in> {''keep'', ''undo''}"
    and "sched_callback c action = Inr s"
  shows "parse_scheduling_review_callback s = Some (vc_card_id c, vc_version c, action)"
proof -
  let ?k = "vc_card_id c" and ?v = "vc_version c"
  have s: "s = ''fhs'' @ CHR ''|'' # digits (nat ?k) @ CHR ''|'' # digits (nat ?v) @ CHR ''|'' # action"
    and len: "length s \<le> SCHED_CALLBACK_DATA_LIMIT"
    using assms by (auto simp: sched_callback_def SCHED_CALLBACK_PREFIX_def str_int_def Let_def split: if_splits)
  have "CHR ''|'' \<notin> set action" using assms(3) by auto
  then have "split_on CHR ''|'' s = [''fhs'', digits (nat ?k), digits (nat ?v), action]"
    unfolding s
    by (simp add: split_on_field [of "CHR ''|''" "''fhs''", simplified] split_on_field digits_no_bar split_on_last)
  moreover have "1 \<le> length s" unfolding s by simp
  ultimately show ?thesis
    using len assms(1-3)
    by (simp add: parse_scheduling_review_callback_def length_within_def SCHED_CALLBACK_PREFIX_def py_int_digits)
qed

end
