(* ===== verification/LoggedTable.thy ===== *)
theory LoggedTable
  imports Prelude
begin

text \<open>
  A table whose rows have unique ids and pass their constraints, with an append-only log whose last
  entry for a row says what the row is.  The review cards of \<open>task_scheduling.py\<close> and of
  \<open>execution_cards.py\<close> are such tables.
\<close>

definition last_said :: "('e \<Rightarrow> int) \<Rightarrow> ('e \<Rightarrow> 's) \<Rightarrow> int \<Rightarrow> 'e list \<Rightarrow> 's option" where
  "last_said who says k es = map_option says (List.find (\<lambda>e. who e = k) (rev es))"

lemma last_said_snoc [simp]:
  "last_said who says k (es @ [e]) = (if who e = k then Some (says e) else last_said who says k es)"
  by (simp add: last_said_def)

definition table_ok :: "('r \<Rightarrow> int) \<Rightarrow> ('r \<Rightarrow> bool) \<Rightarrow> ('r \<Rightarrow> 's) \<Rightarrow> ('e \<Rightarrow> int) \<Rightarrow> ('e \<Rightarrow> 's)
    \<Rightarrow> 'r list \<Rightarrow> 'e list \<Rightarrow> bool" where
  "table_ok key check view who says rows es \<longleftrightarrow> unique_key key rows
     \<and> list_all (\<lambda>r. check r \<and> last_said who says (key r) es = Some (view r)) rows"

lemma table_okD:
  assumes "table_ok key check view who says rows es"
  shows "unique_key key rows" and "r \<in> set rows \<Longrightarrow> check r"
    and "r \<in> set rows \<Longrightarrow> last_said who says (key r) es = Some (view r)"
  using assms by (auto simp: table_ok_def list_all_iff)

text \<open>The row of an id, among unique ids.\<close>

lemma row_of_mem: "unique_key key rows \<Longrightarrow> r \<in> set rows \<Longrightarrow> row_of key (key r) rows = Some r"
  using row_of_unique [of key rows "key r" r] by simp

lemma same_row: "unique_key key rows \<Longrightarrow> r \<in> set rows \<Longrightarrow> x \<in> set rows \<Longrightarrow> key x = key r \<Longrightarrow> x = r"
  using row_of_mem [of key rows r] row_of_mem [of key rows x] by simp

lemma row_written:
  assumes "key r' = key r" and "r \<in> set rows"
  shows "row_of key k (update_where (\<lambda>x. key x = key r) (\<lambda>_. r') rows)
    = (if k = key r then Some r' else row_of key k rows)"
proof (cases "k = key r")
  case True
  then show ?thesis using assms by (induction rows) (auto simp: update_where_def)
next
  case False
  then have "row_of key k (update_where (\<lambda>x. key x = key r) (\<lambda>_. r') xs) = row_of key k xs" for xs
    using assms(1) by (induction xs) (auto simp: update_where_def)
  then show ?thesis using False by simp
qed

lemma set_row_written:
  "x \<in> set (update_where (\<lambda>x. key x = k) (\<lambda>_. r') rows) \<Longrightarrow> x = r' \<or> (x \<in> set rows \<and> key x \<noteq> k)"
  by (auto simp: set_update_where)

lemma table_ok_write:
  assumes ok: "table_ok key check view who says rows es" and r: "r \<in> set rows"
    and r': "key r' = key r" "check r'" and e: "who e = key r" "says e = view r'"
  shows "table_ok key check view who says (update_where (\<lambda>x. key x = key r) (\<lambda>_. r') rows) (es @ [e])"
proof -
  have "map key (update_where (\<lambda>x. key x = key r) (\<lambda>_. r') rows) = map key rows"
    using r'(1) by (simp add: update_where_def)
  then have "unique_key key (update_where (\<lambda>x. key x = key r) (\<lambda>_. r') rows)"
    using table_okD(1) [OF ok] by (simp add: unique_key_def)
  moreover have "check x \<and> last_said who says (key x) (es @ [e]) = Some (view x)"
    if "x \<in> set (update_where (\<lambda>x. key x = key r) (\<lambda>_. r') rows)" for x
    using set_row_written [OF that] table_okD(2,3) [OF ok] r' e by auto
  ultimately show ?thesis by (simp add: table_ok_def list_all_iff)
qed

lemma table_ok_insert:
  assumes ok: "table_ok key check view who says rows es" and r: "key r = next_id key rows" "check r"
    and e: "who e = key r" "says e = view r"
  shows "table_ok key check view who says (rows @ [r]) (es @ [e])"
proof -
  have "check x \<and> last_said who says (key x) (es @ [e]) = Some (view x)" if x: "x \<in> set rows" for x
    using next_id_fresh [OF x, of key] table_okD(2,3) [OF ok x] r(1) e by simp
  then show ?thesis
    using unique_key_insert [OF table_okD(1) [OF ok] r(1)] r(2) e by (simp add: table_ok_def list_all_iff)
qed

text \<open>A further entry that says what the row already is.\<close>

lemma table_ok_note:
  assumes ok: "table_ok key check view who says rows es" and r: "r \<in> set rows"
    and e: "who e = key r" "says e = view r"
  shows "table_ok key check view who says rows (es @ [e])"
proof -
  have "x = r" if "x \<in> set rows" "key x = key r" for x
    using same_row [OF table_okD(1) [OF ok] r that] .
  then show ?thesis using ok e by (auto simp: table_ok_def list_all_iff)
qed

text \<open>An \<open>UPDATE\<close> guarded by more than the id writes its row, when the row meets the guard.\<close>

lemma update_is_write:
  assumes "unique_key key rows" and "r \<in> set rows" and "hit r" and "\<And>x. hit x \<Longrightarrow> key x = key r"
  shows "update_where hit f rows = update_where (\<lambda>x. key x = key r) (\<lambda>_. f r) rows"
    and "rowcount hit rows = 1" and "filter hit rows = [r]"
proof -
  have same: "x = r" if "x \<in> set rows" "key x = key r" for x
    using same_row [OF assms(1,2) that] .
  show "update_where hit f rows = update_where (\<lambda>x. key x = key r) (\<lambda>_. f r) rows"
    unfolding update_where_def
  proof (rule map_cong [OF refl])
    fix x assume x: "x \<in> set rows"
    show "(if hit x then f x else x) = (if key x = key r then f r else x)"
    proof (cases "key x = key r")
      case True
      then show ?thesis using same [OF x True] assms(3) by simp
    next
      case False
      then show ?thesis using assms(4) [of x] by auto
    qed
  qed
  have one: "filter (\<lambda>x. x = r) xs = [r]" if "distinct xs" "r \<in> set xs" for xs
    using that by (induction xs) (auto simp: filter_empty_conv)
  have "hit x = (x = r)" if "x \<in> set rows" for x using same [OF that] assms(3,4) by blast
  then have "filter hit rows = filter (\<lambda>x. x = r) rows" by (rule filter_cong [OF refl])
  then show "filter hit rows = [r]" using one assms(1,2) by (simp add: unique_key_def distinct_map)
  then show "rowcount hit rows = 1" by (simp add: rowcount_def)
qed

text \<open>
  A loop over rows that were read before it: every body finds its row as it was read, because the
  bodies before it wrote other rows only.
\<close>

lemma each_snapshot:
  assumes step: "\<And>r d d'. good d \<Longrightarrow> mem r d \<Longrightarrow> f r d = Inr d' \<Longrightarrow>
      good d' \<and> R d d' \<and> (\<forall>x. key x \<noteq> key r \<longrightarrow> mem x d \<longrightarrow> mem x d')"
    and refl: "\<And>d. R d d" and trans: "\<And>d d1 d2. R d d1 \<Longrightarrow> R d1 d2 \<Longrightarrow> R d d2"
    and "good d" and "distinct (map key rs)" and "\<forall>r \<in> set rs. mem r d" and "each f rs d = Inr d'"
  shows "good d' \<and> R d d'"
  using assms(4-7)
proof (induction rs arbitrary: d)
  case Nil
  then show ?case using refl by simp
next
  case (Cons r rs)
  then obtain d1 where d1: "f r d = Inr d1" "each f rs d1 = Inr d'" by (auto simp: rbind_Inr_iff)
  have "mem r d" using Cons.prems(3) by simp
  note s = step [OF Cons.prems(1) this d1(1)]
  have "mem x d1" if x: "x \<in> set rs" for x
  proof -
    have "key x \<in> key ` set rs" using x by (rule imageI)
    then have "key x \<noteq> key r" using Cons.prems(2) by auto
    then show ?thesis using s Cons.prems(3) x by simp
  qed
  then have "good d' \<and> R d1 d'" using Cons.IH [of d1] s Cons.prems(2) d1(2) by simp
  then show ?case using s trans by blast
qed

end
