(* ===== verification/SchedInv.thy ===== *)
theory SchedInv
  imports Scheduling LoggedTable
begin

text \<open>
  The invariant of the scheduling tables: the waiting tasks form an acyclic graph of bounded depth,
  within the limits per task; every review card passes its constraints, is explained by its log and
  belongs to a change set.  What one write does to the three.
\<close>

section \<open>The queue\<close>

definition within_limits :: "rowid \<Rightarrow> db \<Rightarrow> bool" where
  "within_limits i d \<longleftrightarrow> length (live_conditions i d) \<le> MAX_ACTIVE_CONDITIONS
     \<and> length (filter is_dependency (live_conditions i d)) \<le> MAX_PREREQUISITE_EDGES
     \<and> length (filter (\<lambda>c. \<not> is_dependency c) (live_conditions i d)) \<le> 1"

definition queue_ok :: "db \<Rightarrow> bool" where
  "queue_ok d \<longleftrightarrow> unique_key sc_id (conditions d)
     \<and> list_all (\<lambda>c. 1 \<le> sc_task_version c \<and> within_limits (sc_task_id c) d) (conditions d)
     \<and> (case dependency_depth (waiting_edges d) of None \<Rightarrow> False | Some k \<Rightarrow> k \<le> MAX_DEPENDENCY_DEPTH)"

abbreviation waits_for :: "db \<Rightarrow> (rowid \<times> rowid) set" where
  "waits_for d \<equiv> set (waiting_edges d)"

lemma waits_for_iff:
  "(i, k) \<in> waits_for d \<longleftrightarrow> (\<exists>c \<in> set (conditions d). sc_task_id c = i
     \<and> sc_kind c = AfterTaskCompleted k \<and> live_condition c)"
proof -
  have "(i, k) \<in> set (edge_of c) \<longleftrightarrow> sc_task_id c = i \<and> sc_kind c = AfterTaskCompleted k \<and> live_condition c" for c
    by (auto simp: edge_of_def split: condition_kind.split)
  then show ?thesis by (simp add: waiting_edges_def)
qed

lemma no_conditions_within: "live_conditions i d = [] \<Longrightarrow> within_limits i d"
  by (simp add: within_limits_def)

lemma queue_ok_iff:
  "queue_ok d \<longleftrightarrow> unique_key sc_id (conditions d) \<and> (\<forall>c \<in> set (conditions d). 1 \<le> sc_task_version c)
     \<and> (\<forall>i. within_limits i d) \<and> chains_within MAX_DEPENDENCY_DEPTH (waits_for d)"
proof -
  have "within_limits i d" if "\<forall>c \<in> set (conditions d). within_limits (sc_task_id c) d" for i
  proof (cases "live_conditions i d")
    case Nil
    then show ?thesis by (rule no_conditions_within)
  next
    case (Cons c cs)
    then have "c \<in> set (live_conditions i d)" by simp
    then show ?thesis using that by (auto simp: live_conditions_def)
  qed
  then show ?thesis by (auto simp: queue_ok_def chains_within_depth list_all_iff)
qed

lemmas queue_okI = queue_ok_iff [THEN iffD2]

lemma queue_okD:
  assumes "queue_ok d"
  shows "unique_key sc_id (conditions d)" and "within_limits i d"
    and "chains_within MAX_DEPENDENCY_DEPTH (waits_for d)"
    and "c \<in> set (conditions d) \<Longrightarrow> 1 \<le> sc_task_version c"
  using assms by (auto simp: queue_ok_iff)

text \<open>A condition may change its state, but what no longer counts does not count again.\<close>

definition condition_eases :: "condition_row \<Rightarrow> condition_row \<Rightarrow> bool" where
  "condition_eases c c' \<longleftrightarrow> sc_id c' = sc_id c \<and> sc_task_id c' = sc_task_id c
     \<and> sc_task_version c' = sc_task_version c \<and> sc_kind c' = sc_kind c
     \<and> sc_change_set_id c' = sc_change_set_id c \<and> (live_condition c' \<longrightarrow> live_condition c)"

definition queue_eases :: "db \<Rightarrow> db \<Rightarrow> bool" where
  "queue_eases d d' \<longleftrightarrow> list_all2 condition_eases (conditions d) (conditions d')"

lemma condition_eases_refl [simp]: "condition_eases c c"
  by (simp add: condition_eases_def)

lemma queue_eases_same: "conditions d' = conditions d \<Longrightarrow> queue_eases d d'"
  by (simp add: queue_eases_def list_all2_refl)

lemma queue_eases_trans: "queue_eases a b \<Longrightarrow> queue_eases b c \<Longrightarrow> queue_eases a c"
  unfolding queue_eases_def
  by (rule list_all2_trans [of condition_eases condition_eases condition_eases])
    (auto simp: condition_eases_def)

lemma live_filter_le:
  assumes "queue_eases d d'" and "\<And>c c'. condition_eases c c' \<Longrightarrow> P c' = P c"
  shows "length (filter P (live_conditions i d')) \<le> length (filter P (live_conditions i d))"
proof -
  have "length (filter P (live_conditions i x))
    = rowcount (\<lambda>c. (sc_task_id c = i \<and> live_condition c) \<and> P c) (conditions x)" for x
    by (simp add: live_conditions_def rowcount_def conj_commute)
  moreover have "rowcount (\<lambda>c. (sc_task_id c = i \<and> live_condition c) \<and> P c) (conditions d')
    \<le> rowcount (\<lambda>c. (sc_task_id c = i \<and> live_condition c) \<and> P c) (conditions d)"
    by (rule list_all2_rowcount_le [OF assms(1) [unfolded queue_eases_def]])
      (use assms(2) in \<open>auto simp: condition_eases_def\<close>)
  ultimately show ?thesis by simp
qed

lemma queue_ok_eases:
  assumes ok: "queue_ok d" and e: "queue_eases d d'"
  shows "queue_ok d'"
proof (rule queue_okI, intro conjI allI ballI)
  note rows = e [unfolded queue_eases_def]
  show "unique_key sc_id (conditions d')"
    using list_all2_map_eq [OF rows, of sc_id] queue_okD(1) [OF ok]
    by (simp add: unique_key_def condition_eases_def)
  show "1 \<le> sc_task_version c" if "c \<in> set (conditions d')" for c
    using list_all2_set_right [OF rows that] queue_okD(4) [OF ok] by (auto simp: condition_eases_def)
  show "within_limits i d'" for i
    using queue_okD(2) [OF ok, of i] live_filter_le [OF e, of "\<lambda>c. True" i]
      live_filter_le [OF e, of is_dependency i] live_filter_le [OF e, of "\<lambda>c. \<not> is_dependency c" i]
    by (simp add: within_limits_def condition_eases_def is_dependency_def)
  have "waits_for d' \<subseteq> waits_for d"
  proof (intro subrelI)
    fix i k assume "(i, k) \<in> waits_for d'"
    then obtain c' where c': "c' \<in> set (conditions d')" "sc_task_id c' = i"
        "sc_kind c' = AfterTaskCompleted k" "live_condition c'" by (auto simp: waits_for_iff)
    then show "(i, k) \<in> waits_for d"
      using list_all2_set_right [OF rows c'(1)] unfolding waits_for_iff by (auto simp: condition_eases_def)
  qed
  then show "chains_within MAX_DEPENDENCY_DEPTH (waits_for d')"
    by (rule chains_within_mono [OF queue_okD(3) [OF ok]])
qed

lemma queue_eases_update:
  assumes "\<And>c. c \<in> set (conditions d) \<Longrightarrow> hit c \<Longrightarrow> condition_eases c (f c)"
    and "conditions d' = update_where hit f (conditions d)"
  shows "queue_eases d d'"
  using assms by (simp add: queue_eases_def update_where_def list_all2_map2 list_all2_same)

text \<open>The evaluation before a claim: it writes only rows that it read as live.\<close>

lemma queue_eases_set_state:
  assumes e: "queue_eases d0 d" and uniq: "unique_key sc_id (conditions d0)"
    and c: "c \<in> set (conditions d0)" "live_condition c"
  shows "queue_eases d0 (set_condition_state c st now d)"
proof -
  let ?g = "\<lambda>y. if sc_id y = sc_id c then y\<lparr>sc_state := st, sc_updated_at := now\<rparr> else y"
  have g: "condition_eases x (?g y)" if "condition_eases x y" "x \<in> set (conditions d0)" for x y
  proof (cases "sc_id y = sc_id c")
    case True
    then have "sc_id x = sc_id c" using that(1) by (simp add: condition_eases_def)
    then have xc: "x = c" by (rule same_row [OF uniq c(1) that(2)])
    show ?thesis using that(1) c(2) unfolding xc condition_eases_def by simp
  qed (use that in simp)
  have "list_all2 condition_eases xs (map ?g ys)"
    if "list_all2 condition_eases xs ys" "set xs \<subseteq> set (conditions d0)" for xs ys
    using that by (induction rule: list_all2_induct) (simp_all add: g)
  then show ?thesis
    using e by (simp add: queue_eases_def set_condition_state_def update_where_def)
qed

lemma queue_eases_evaluate:
  assumes "queue_eases d0 d" and uniq: "unique_key sc_id (conditions d0)"
    and "\<And>c. c \<in> set cs \<Longrightarrow> c \<in> set (conditions d0) \<and> live_condition c"
  shows "queue_eases d0 (snd (evaluate_conditions tv now cs d))"
  using assms(1,3)
proof (induction cs arbitrary: d)
  case (Cons c cs)
  have "queue_eases d0 (set_condition_state c st now d)" for st
    using queue_eases_set_state [OF Cons.prems(1) uniq] Cons.prems(2) [of c] by simp
  then show ?case
    using Cons.IH Cons.prems by (auto simp: Let_def split_beta split: option.split)
qed simp

lemma queue_eases_evaluate_task:
  assumes "queue_ok d"
  shows "queue_eases d (snd (evaluate_task_conditions i tv now d))"
  unfolding evaluate_task_conditions_def
  by (rule queue_eases_evaluate [OF queue_eases_same [OF refl] queue_okD(1) [OF assms]])
    (auto simp: live_condition_def)

text \<open>A new condition, after the checks of \<open>apply\<close>.\<close>

lemma queue_ok_insert:
  assumes ok: "queue_ok d" and rows: "conditions d' = conditions d @ [c]"
    and c: "sc_id c = next_id sc_id (conditions d)" "sc_task_id c = i" "live_condition c" "1 \<le> sc_task_version c"
    and limit: "length (live_conditions i d) < MAX_ACTIVE_CONDITIONS"
    and kind: "if is_dependency c then length (filter is_dependency (live_conditions i d)) < MAX_PREREQUISITE_EDGES
         \<and> (case dependency_depth (edge_of c @ waiting_edges d) of None \<Rightarrow> False
              | Some k \<Rightarrow> k \<le> MAX_DEPENDENCY_DEPTH)
       else filter (\<lambda>c. \<not> is_dependency c) (live_conditions i d) = []"
  shows "queue_ok d'"
proof (rule queue_okI, intro conjI allI ballI)
  show "unique_key sc_id (conditions d')"
    unfolding rows by (rule unique_key_insert [OF queue_okD(1) [OF ok] c(1)])
  show "1 \<le> sc_task_version x" if "x \<in> set (conditions d')" for x
    using that c(4) queue_okD(4) [OF ok] by (auto simp: rows)
  have live: "live_conditions k d' = live_conditions k d @ (if k = i then [c] else [])" for k
    using c(2,3) by (simp add: live_conditions_def rows)
  show "within_limits k d'" for k
    using queue_okD(2) [OF ok, of k] limit kind by (auto simp: within_limits_def live split: if_splits)
  have edges: "waits_for d' = set (edge_of c @ waiting_edges d)"
    by (auto simp: waiting_edges_def rows)
  show "chains_within MAX_DEPENDENCY_DEPTH (waits_for d')"
  proof (cases "is_dependency c")
    case True
    then show ?thesis using kind unfolding edges chains_within_depth by simp
  next
    case False
    then have "edge_of c = []" by (simp add: edge_of_def is_dependency_def split: condition_kind.splits)
    then show ?thesis using queue_okD(3) [OF ok] by (simp add: edges)
  qed
qed

end
