(* ===== verification/SchedOps.thy ===== *)
theory SchedOps
  imports SchedInv
begin

text \<open>
  The review cards of the scheduling service as a machine with a log, and what every operation of the
  service does: it keeps the invariant, moves cards along the machine and leaves the rest of the
  database to the effects it names.
\<close>

section \<open>The machine of a review card\<close>

type_synonym sched_card_view = "sched_card_status \<times> int"

definition sched_view :: "sched_card_row \<Rightarrow> sched_card_view" where
  "sched_view c = (rc_status c, rc_version c)"

inductive sched_card_step :: "sched_card_view \<Rightarrow> sched_card_view \<Rightarrow> bool" where
  claim: "sched_card_step (ScPending, v) (ScDelivering, v + 1)"
| put_back: "sched_card_step (ScDelivering, v) (ScPending, v + 1)"
| deliver: "sched_card_step (ScDelivering, v) (ScDelivered, v)"
| answer: "sched_card_step (ScDelivered, v) (ScResolved, v + 1)"

inductive_simps sched_card_step_simps: "sched_card_step (st, v) (st', v')"

lemma sched_card_step_version: "sched_card_step x y \<Longrightarrow> snd x \<le> snd y"
  by (induction rule: sched_card_step.induct) simp_all

lemma sched_card_steps_version: "sched_card_step\<^sup>*\<^sup>* x y \<Longrightarrow> snd x \<le> snd y"
  by (induction rule: rtranclp_induct) (auto dest: sched_card_step_version)

text \<open>What an event says its card is.\<close>

definition card_said :: "sched_card_event \<Rightarrow> sched_card_view" where
  "card_said e = (case rv_kind e of RevScheduled \<Rightarrow> ScPending | RevClaimed \<Rightarrow> ScDelivering
     | RevExpired \<Rightarrow> ScPending | RevDelivered \<Rightarrow> ScDelivered | RevFailed \<Rightarrow> ScPending
     | RevResolved \<Rightarrow> ScResolved | RevUndoConflict \<Rightarrow> ScDelivered, rv_card_version e)"

definition sched_card_about :: "sched_card_row \<Rightarrow> rowid \<times> rowid \<times> rowid \<times> time" where
  "sched_card_about c = (rc_id c, rc_change_set_id c, rc_task_id c, rc_created_at c)"

definition card_follows :: "sched_card_row \<Rightarrow> sched_card_row \<Rightarrow> bool" where
  "card_follows c c' \<longleftrightarrow> sched_card_about c' = sched_card_about c
     \<and> sched_card_step\<^sup>*\<^sup>* (sched_view c) (sched_view c') \<and> (rc_status c = ScResolved \<longrightarrow> c' = c)"

definition cards_follow :: "db \<Rightarrow> db \<Rightarrow> bool" where
  "cards_follow d d' \<longleftrightarrow> (\<forall>k c. sched_card_of k d = Some c \<longrightarrow>
     (\<exists>c'. sched_card_of k d' = Some c' \<and> card_follows c c'))"

lemma card_follows_refl [simp]: "card_follows c c"
  by (simp add: card_follows_def)

lemma card_follows_trans: "card_follows a b \<Longrightarrow> card_follows b c \<Longrightarrow> card_follows a c"
  by (cases "rc_status a = ScResolved") (auto simp: card_follows_def)

lemma cards_follow_refl [simp]: "cards_follow d d"
  by (simp add: cards_follow_def)

lemma cards_follow_trans: "cards_follow a b \<Longrightarrow> cards_follow b c \<Longrightarrow> cards_follow a c"
  unfolding cards_follow_def by (meson card_follows_trans)

lemma cards_follow_same: "sched_cards (sched d') = sched_cards (sched d) \<Longrightarrow> cards_follow d d'"
  by (simp add: cards_follow_def)

section \<open>The invariant\<close>

abbreviation review_log_ok :: "db \<Rightarrow> bool" where
  "review_log_ok d \<equiv> table_ok rc_id sched_card_check sched_view rv_card_id card_said
     (sched_cards (sched d)) (sched_card_events (sched d))"

definition change_set_ok :: "change_set_row \<Rightarrow> bool" where
  "change_set_ok s \<longleftrightarrow> ss_recommendation s \<noteq> None
     \<and> (ss_kind s = SkRaisePriority \<longrightarrow> ss_prior_priority s = Some PrioNormal
          \<and> ss_prior_priority_source s = None)"

definition review_of_set :: "db \<Rightarrow> sched_card_row \<Rightarrow> bool" where
  "review_of_set d c \<longleftrightarrow> (case change_set_of (rc_change_set_id c) d of
     None \<Rightarrow> False | Some s \<Rightarrow> ss_target_task_id s = rc_task_id c)"

definition change_sets_ok :: "db \<Rightarrow> bool" where
  "change_sets_ok d \<longleftrightarrow> unique_key ss_id (change_sets (sched d))
     \<and> list_all change_set_ok (change_sets (sched d)) \<and> list_all (review_of_set d) (sched_cards (sched d))"

definition sched_inv :: "db \<Rightarrow> bool" where
  "sched_inv d \<longleftrightarrow> queue_ok d \<and> review_log_ok d \<and> change_sets_ok d"

lemma sched_invD:
  assumes "sched_inv d"
  shows "queue_ok d" and "review_log_ok d" and "change_sets_ok d"
    and "unique_key rc_id (sched_cards (sched d))" and "unique_key ss_id (change_sets (sched d))"
  using assms by (auto simp: sched_inv_def change_sets_ok_def table_ok_def)

lemma sched_inv_frame:
  assumes "sched_inv d" and "conditions d' = conditions d" and "sched d' = sched d"
  shows "sched_inv d'"
  using assms by (simp add: sched_inv_def queue_ok_def change_sets_ok_def review_of_set_def [abs_def]
      within_limits_def live_conditions_def waiting_edges_def)

lemma sched_cards_mem:
  assumes "sched_inv d" and "sched_card_of k d = Some c"
  shows "c \<in> set (sched_cards (sched d))" and "rc_id c = k" and "sched_card_check c"
    and "\<exists>s. change_set_of (rc_change_set_id c) d = Some s \<and> ss_target_task_id s = rc_task_id c \<and> change_set_ok s"
proof -
  show c: "c \<in> set (sched_cards (sched d))" "rc_id c = k" using assms(2) by (auto dest: find_SomeD)
  show "sched_card_check c" by (rule table_okD(2) [OF sched_invD(2) [OF assms(1)] c(1)])
  have "review_of_set d c" using sched_invD(3) [OF assms(1)] c(1) by (auto simp: change_sets_ok_def list_all_iff)
  then obtain s where s: "change_set_of (rc_change_set_id c) d = Some s" "ss_target_task_id s = rc_task_id c"
    by (auto simp: review_of_set_def split: option.splits)
  moreover have "change_set_ok s"
    using sched_invD(3) [OF assms(1)] find_SomeD [OF s(1)] by (auto simp: change_sets_ok_def list_all_iff)
  ultimately show "\<exists>s. change_set_of (rc_change_set_id c) d = Some s \<and> ss_target_task_id s = rc_task_id c \<and> change_set_ok s"
    by blast
qed

section \<open>One write of a card\<close>

text \<open>Row \<open>c\<close> becomes \<open>c'\<close> with its event, and nothing else changes.\<close>

definition written_card :: "sched_card_row \<Rightarrow> sched_card_row \<Rightarrow> sched_card_event \<Rightarrow> db \<Rightarrow> db" where
  "written_card c c' e = set_sched (\<lambda>x. x\<lparr>sched_cards := update_where (\<lambda>y. rc_id y = rc_id c) (\<lambda>_. c') (sched_cards x),
     sched_card_events := sched_card_events x @ [e]\<rparr>)"

definition sched_card_event_of :: "sched_card_row \<Rightarrow> sched_card_event_kind \<Rightarrow> int \<Rightarrow> string option \<Rightarrow> time
    \<Rightarrow> sched_card_event" where
  "sched_card_event_of c kind version action now =
     \<lparr>rv_card_id = rc_id c, rv_change_set_id = rc_change_set_id c, rv_task_id = rc_task_id c,
      rv_kind = kind, rv_card_version = version, rv_action = action, rv_occurred_at = now\<rparr>"

lemma set_sched_frame [simp]:
  "conditions (set_sched f d) = conditions d" "condition_events (set_sched f d) = condition_events d"
  "sched (set_sched f d) = f (sched d)" "tasks (set_sched f d) = tasks d"
  "task_events (set_sched f d) = task_events d" "work_items (set_sched f d) = work_items d"
  "workflows (set_sched f d) = workflows d" "workflow_events (set_sched f d) = workflow_events d"
  "gates (set_sched f d) = gates d" "results (set_sched f d) = results d"
  by (simp_all add: set_sched_def)

lemma card_write_eval:
  assumes inv: "unique_key rc_id (sched_cards (sched d))" and c: "c \<in> set (sched_cards (sched d))"
    and hit: "hit c" "\<And>x. hit x \<Longrightarrow> rc_id x = rc_id c" and f: "sched_card_check (f c)"
  obtains d1 where "update_sched_cards hit f d = Inr (1, d1)"
    and "add_sched_card_event c kind version action now d1
      = written_card c (f c) (sched_card_event_of c kind version action now) d"
proof -
  note w = update_is_write [where hit = hit and key = rc_id and r = c, OF inv c hit]
  show thesis
  proof (rule that)
    show "update_sched_cards hit f d
        = Inr (1, set_sched (\<lambda>x. x\<lparr>sched_cards := update_where hit f (sched_cards x)\<rparr>) d)"
      using w(2,3) f by (simp add: update_sched_cards_def)
    show "add_sched_card_event c kind version action now
        (set_sched (\<lambda>x. x\<lparr>sched_cards := update_where hit f (sched_cards x)\<rparr>) d)
      = written_card c (f c) (sched_card_event_of c kind version action now) d"
      using w(1) [of f]
      by (simp add: add_sched_card_event_def written_card_def set_sched_def sched_card_event_of_def)
  qed
qed

lemma written_card_frame [simp]:
  "conditions (written_card c c' e d) = conditions d"
  "condition_events (written_card c c' e d) = condition_events d"
  "tasks (written_card c c' e d) = tasks d" "task_events (written_card c c' e d) = task_events d"
  "work_items (written_card c c' e d) = work_items d" "workflows (written_card c c' e d) = workflows d"
  "workflow_events (written_card c c' e d) = workflow_events d" "gates (written_card c c' e d) = gates d"
  "results (written_card c c' e d) = results d"
  "change_sets (sched (written_card c c' e d)) = change_sets (sched d)"
  "change_set_events (sched (written_card c c' e d)) = change_set_events (sched d)"
  by (simp_all add: written_card_def)

lemma queue_ok_same: "conditions d' = conditions d \<Longrightarrow> queue_ok d' = queue_ok d"
  by (simp add: queue_ok_def within_limits_def live_conditions_def waiting_edges_def)

lemma sched_card_of_written:
  assumes "rc_id c' = rc_id c" and "c \<in> set (sched_cards (sched d))"
  shows "sched_card_of k (written_card c c' e d) = (if k = rc_id c then Some c' else sched_card_of k d)"
  using row_written [where key = rc_id, OF assms] by (simp add: written_card_def)

lemma written_card_ok:
  assumes inv: "sched_inv d" and c: "c \<in> set (sched_cards (sched d))"
    and c': "sched_card_about c' = sched_card_about c" "sched_card_check c'"
    and step: "sched_card_step (sched_view c) (sched_view c')"
    and e: "rv_card_id e = rc_id c" "card_said e = sched_view c'"
  shows "sched_inv (written_card c c' e d)" and "cards_follow d (written_card c c' e d)"
proof -
  have id: "rc_id c' = rc_id c" "rc_change_set_id c' = rc_change_set_id c" "rc_task_id c' = rc_task_id c"
    using c'(1) by (simp_all add: sched_card_about_def)
  have open1: "rc_status c \<noteq> ScResolved" using step by (auto simp: sched_view_def elim: sched_card_step.cases)
  have "review_log_ok (written_card c c' e d)"
    using table_ok_write [OF sched_invD(2) [OF inv] c id(1) c'(2) e] by (simp add: written_card_def)
  moreover have "review_of_set (written_card c c' e d) x" if "x \<in> set (sched_cards (sched (written_card c c' e d)))" for x
  proof -
    have "x = c' \<or> x \<in> set (sched_cards (sched d))"
      using that set_row_written [of x rc_id "rc_id c" c'] by (auto simp: written_card_def)
    then show ?thesis using sched_invD(3) [OF inv] c id
      by (auto simp: change_sets_ok_def list_all_iff review_of_set_def cong: option.case_cong)
  qed
  then have "change_sets_ok (written_card c c' e d)"
    using sched_invD(3) [OF inv] by (simp add: change_sets_ok_def list_all_iff)
  ultimately show "sched_inv (written_card c c' e d)"
    using sched_invD(1) [OF inv] queue_ok_same [of "written_card c c' e d" d] by (simp add: sched_inv_def)
  show "cards_follow d (written_card c c' e d)"
    unfolding cards_follow_def
  proof (intro allI impI)
    fix k x assume x: "sched_card_of k d = Some x"
    have "x = c" if "k = rc_id c" using x that row_of_mem [OF sched_invD(4) [OF inv] c] by simp
    then show "\<exists>y. sched_card_of k (written_card c c' e d) = Some y \<and> card_follows x y"
      using x c'(1) r_into_rtranclp [of sched_card_step, OF step] open1 by (simp add: sched_card_of_written [OF id(1) c] card_follows_def)
  qed
qed

section \<open>Delivery\<close>

lemma card_kinds [simp]:
  "sched_card_about (sched_returned now c) = sched_card_about c"
  "sched_card_about (sched_leased g u x now c) = sched_card_about c"
  "sched_card_about (sched_acknowledged t r now c) = sched_card_about c"
  "sched_view (sched_returned now c) = (ScPending, rc_version c + 1)"
  "sched_view (sched_leased g u x now c) = (ScDelivering, rc_version c + 1)"
  "sched_view (sched_acknowledged t r now c) = (ScDelivered, rc_version c)"
  by (simp_all add: sched_returned_def sched_leased_def sched_acknowledged_def sched_card_about_def sched_view_def)

lemma card_checks:
  assumes "sched_card_check c"
  shows "rc_status c = ScDelivering \<Longrightarrow> sched_card_check (sched_returned now c)"
    and "rc_status c = ScPending \<Longrightarrow> length g = 64 \<Longrightarrow> length u = 64 \<Longrightarrow> sched_card_check (sched_leased g u x now c)"
    and "rc_status c = ScDelivering \<Longrightarrow> sched_card_check (sched_acknowledged t r now c)"
  using assms by (auto simp: sched_card_check_def sched_returned_def sched_leased_def sched_acknowledged_def
      split: option.splits)

lemma card_said_of [simp]:
  "rv_card_id (sched_card_event_of c kind v action now) = rc_id c"
  "card_said (sched_card_event_of c RevExpired v action now) = (ScPending, v)"
  "card_said (sched_card_event_of c RevFailed v action now) = (ScPending, v)"
  "card_said (sched_card_event_of c RevClaimed v action now) = (ScDelivering, v)"
  "card_said (sched_card_event_of c RevDelivered v action now) = (ScDelivered, v)"
  "card_said (sched_card_event_of c RevResolved v action now) = (ScResolved, v)"
  "card_said (sched_card_event_of c RevUndoConflict v action now) = (ScDelivered, v)"
  by (simp_all add: card_said_def sched_card_event_of_def)

text \<open>One guarded write of a card, with its event: evaluated, and what it keeps.\<close>

lemma card_move:
  assumes inv: "sched_inv d" and c: "c \<in> set (sched_cards (sched d))"
    and hit: "hit c" "\<And>x. hit x \<Longrightarrow> rc_id x = rc_id c"
    and f: "sched_card_check (f c)" "sched_card_about (f c) = sched_card_about c"
    and step: "sched_card_step (sched_view c) (sched_view (f c))"
    and said: "card_said (sched_card_event_of c kind version action now) = sched_view (f c)"
  obtains d1 d2 where "update_sched_cards hit f d = Inr (1, d1)"
    and "add_sched_card_event c kind version action now d1 = d2"
    and "d2 = written_card c (f c) (sched_card_event_of c kind version action now) d"
    and "sched_inv d2" and "cards_follow d d2"
proof (rule card_write_eval [where hit = hit and f = f, OF sched_invD(4) [OF inv] c hit(1) _ f(1)])
  fix x assume "hit x" then show "rc_id x = rc_id c" by (rule hit(2))
next
  fix d1 assume u: "update_sched_cards hit f d = Inr (1, d1)"
    and e: "add_sched_card_event c kind version action now d1
      = written_card c (f c) (sched_card_event_of c kind version action now) d"
  note ok = written_card_ok [OF inv c f(2,1) step card_said_of(1) said]
  show thesis by (rule that [OF u e refl]) (use ok in simp_all)
qed

text \<open>What the scheduling tables' own operations leave alone.\<close>

definition only_reviews :: "db \<Rightarrow> db \<Rightarrow> bool" where
  "only_reviews d d' \<longleftrightarrow> (\<exists>cs es. d' = set_sched (\<lambda>x. x\<lparr>sched_cards := cs, sched_card_events := es\<rparr>) d)"

lemma only_reviews_refl [simp]: "only_reviews d d"
  unfolding only_reviews_def
  by (rule exI [of _ "sched_cards (sched d)"], rule exI [of _ "sched_card_events (sched d)"])
    (simp add: set_sched_def)

lemma only_reviews_trans:
  assumes "only_reviews a b" and "only_reviews b c"
  shows "only_reviews a c"
  using assms unfolding only_reviews_def set_sched_def by fastforce

lemma only_reviews_written: "only_reviews d (written_card c c' e d)"
  unfolding only_reviews_def written_card_def set_sched_def by blast

lemma only_reviewsD:
  assumes "only_reviews d d'"
  shows "conditions d' = conditions d" "condition_events d' = condition_events d" "tasks d' = tasks d"
    "workflows d' = workflows d" "workflow_events d' = workflow_events d" "gates d' = gates d"
    "task_events d' = task_events d" "work_items d' = work_items d"
    "change_sets (sched d') = change_sets (sched d)"
    "change_set_events (sched d') = change_set_events (sched d)"
  using assms by (auto simp: only_reviews_def)

text \<open>A delivery step: the invariant, the machine, and nothing but the cards and their log.\<close>

definition delivers :: "db \<Rightarrow> db \<Rightarrow> bool" where
  "delivers d d' \<longleftrightarrow> sched_inv d' \<and> cards_follow d d' \<and> only_reviews d d'"

lemma delivers_refl: "sched_inv d \<Longrightarrow> delivers d d"
  by (simp add: delivers_def)

lemma delivers_trans: "delivers a b \<Longrightarrow> delivers b c \<Longrightarrow> delivers a c"
  using cards_follow_trans only_reviews_trans by (auto simp: delivers_def)

lemma card_at_id: "card_at k v st x \<Longrightarrow> rc_id x = k"
  by (simp add: card_at_def)

lemma card_at_self: "rc_version c = v \<Longrightarrow> rc_status c = st \<Longrightarrow> card_at (rc_id c) v st c"
  by (simp add: card_at_def)

lemma expire_step:
  assumes inv: "sched_inv d" and c: "c \<in> set (sched_cards (sched d))" "rc_status c = ScDelivering"
  obtains d' where "expire_sched_card now c d = Inr d'" and "delivers d d'"
    and "\<And>x. x \<in> set (sched_cards (sched d)) \<Longrightarrow> rc_id x \<noteq> rc_id c \<Longrightarrow> x \<in> set (sched_cards (sched d'))"
proof -
  have chk: "sched_card_check (sched_returned now c)"
    by (rule card_checks(1) [OF table_okD(2) [OF sched_invD(2) [OF inv] c(1)] c(2)])
  show thesis
  proof (rule card_move [where hit = "card_at (rc_id c) (rc_version c) ScDelivering" and f = "sched_returned now"
        and kind = RevExpired and version = "rc_version c + 1" and action = None and now = now, OF inv c(1)])
    fix d1 d2
    assume u: "update_sched_cards (card_at (rc_id c) (rc_version c) ScDelivering) (sched_returned now) d = Inr (1, d1)"
      and e: "add_sched_card_event c RevExpired (rc_version c + 1) None now d1 = d2"
      and w: "d2 = written_card c (sched_returned now c) (sched_card_event_of c RevExpired (rc_version c + 1) None now) d"
      and ok: "sched_inv d2" "cards_follow d d2"
    show thesis
    proof (rule that)
      show "expire_sched_card now c d = Inr d2" using u e by (simp add: expire_sched_card_def)
      show "delivers d d2" using ok only_reviews_written w by (simp add: delivers_def)
    qed (simp add: w written_card_def set_update_where)
  qed (use chk c(2) in \<open>simp_all add: card_at_def sched_view_def [of c] sched_card_step.put_back\<close>)
qed

lemma expire_loop_ok:
  assumes "sched_inv d" and "distinct (map rc_id rows)"
    and "\<And>c. c \<in> set rows \<Longrightarrow> c \<in> set (sched_cards (sched d)) \<and> rc_status c = ScDelivering"
  obtains d' where "each (expire_sched_card now) rows d = Inr d'" and "delivers d d'"
  using assms
proof (induction rows arbitrary: d thesis)
  case Nil
  then show ?case using delivers_refl by simp
next
  case (Cons c rows)
  obtain d1 where d1: "expire_sched_card now c d = Inr d1" "delivers d d1"
    "\<And>x. x \<in> set (sched_cards (sched d)) \<Longrightarrow> rc_id x \<noteq> rc_id c \<Longrightarrow> x \<in> set (sched_cards (sched d1))"
    using expire_step [OF Cons.prems(2), of c now] Cons.prems(4) [of c] by auto
  have keep: "x \<in> set (sched_cards (sched d1)) \<and> rc_status x = ScDelivering" if x: "x \<in> set rows" for x
  proof -
    have "rc_id x \<in> set (map rc_id rows)" using x by simp
    then have "rc_id x \<noteq> rc_id c" using Cons.prems(3) by auto
    then show ?thesis using Cons.prems(4) [of x] d1(3) [of x] x by simp
  qed
  show ?case
  proof (rule Cons.IH)
    show "sched_inv d1" using d1(2) by (simp add: delivers_def)
    show "distinct (map rc_id rows)" using Cons.prems(3) by simp
    show "x \<in> set rows \<Longrightarrow> x \<in> set (sched_cards (sched d1)) \<and> rc_status x = ScDelivering" for x by (rule keep)
    fix d' assume "each (expire_sched_card now) rows d1 = Inr d'" "delivers d1 d'"
    then show thesis using Cons.prems(1) d1(1) delivers_trans [OF d1(2)] by simp
  qed
qed

lemma expired_rows:
  assumes "sched_inv d"
  shows "distinct (map rc_id (expired_sched_cards now d))"
    and "c \<in> set (expired_sched_cards now d) \<Longrightarrow> c \<in> set (sched_cards (sched d)) \<and> rc_status c = ScDelivering"
proof -
  have "distinct (map rc_id (filter P (sched_cards (sched d))))" for P
    using sched_invD(4) [OF assms] by (simp add: unique_key_def distinct_map_filter)
  then show "distinct (map rc_id (expired_sched_cards now d))"
    by (simp add: expired_sched_cards_def distinct_map)
qed (auto simp: expired_sched_cards_def)

lemma next_sched_card_mem:
  "next_sched_card d = Some (c, s) \<Longrightarrow> c \<in> set (sched_cards (sched d)) \<and> rc_status c = ScPending
    \<and> s \<in> set (change_sets (sched d)) \<and> ss_id s = rc_change_set_id c"
  by (auto simp: next_sched_card_def dest!: hd_row_mem split: if_splits)

lemma sched_claim_ok:
  assumes inv: "sched_inv d" and sha: "\<And>s. length (sn_sha E s) = 64" and u: "length consumer = 64"
  obtains found d' where "sched_claim_tx E consumer lease token now d = Inr (found, d')" and "delivers d d'"
    and "\<And>c s. found = Some (c, s) \<Longrightarrow> s \<in> set (change_sets (sched d)) \<and> ss_id s = rc_change_set_id c
      \<and> 1 \<le> rc_version c
      \<and> sched_card_of (rc_id c) d' = Some (sched_leased (sn_sha E token) consumer (now + lease) now c)"
proof -
  obtain d1 where d1: "each (expire_sched_card now) (expired_sched_cards now d) d = Inr d1" "delivers d d1"
    by (rule expire_loop_ok [OF inv expired_rows [OF inv]])
  have inv1: "sched_inv d1" using d1(2) by (simp add: delivers_def)
  show thesis
  proof (cases "next_sched_card d1")
    case None
    then show thesis using d1 that [of None d1] by (simp add: sched_claim_tx_def)
  next
    case (Some cs)
    then obtain c s where next1: "next_sched_card d1 = Some (c, s)" by (cases cs) auto
    note mem = next_sched_card_mem [OF next1]
    then have c: "c \<in> set (sched_cards (sched d1))" "rc_status c = ScPending" by simp_all
    let ?f = "sched_leased (sn_sha E token) consumer (now + lease) now"
    have chk0: "sched_card_check c" by (rule table_okD(2) [OF sched_invD(2) [OF inv1] c(1)])
    have chk: "sched_card_check (?f c)" by (rule card_checks(2) [OF chk0 c(2) sha u])
    show thesis
    proof (rule card_move [where hit = "card_at (rc_id c) (rc_version c) ScPending" and f = ?f
          and kind = RevClaimed and version = "rc_version c + 1" and action = None and now = now, OF inv1 c(1)])
      fix d2 d3
      assume up: "update_sched_cards (card_at (rc_id c) (rc_version c) ScPending) ?f d1 = Inr (1, d2)"
        and e: "add_sched_card_event c RevClaimed (rc_version c + 1) None now d2 = d3"
        and w: "d3 = written_card c (?f c) (sched_card_event_of c RevClaimed (rc_version c + 1) None now) d1"
        and ok: "sched_inv d3" "cards_follow d1 d3"
      have "delivers d1 d3" using ok only_reviews_written w by (simp add: delivers_def)
      moreover have "sched_claim_tx E consumer lease token now d = Inr (Some (c, s), d3)"
        using d1(1) next1 up e by (simp add: sched_claim_tx_def)
      moreover have "rc_id (?f c) = rc_id c" by (simp add: sched_leased_def)
      then have "sched_card_of (rc_id c) d3 = Some (?f c)" using sched_card_of_written [OF _ c(1)] w by simp
      moreover have "s \<in> set (change_sets (sched d))"
        using mem only_reviewsD(9) [of d d1] d1(2) by (simp add: delivers_def)
      ultimately show thesis
        using that [of "Some (c, s)" d3] delivers_trans [OF d1(2), of d3] mem chk0
        by (simp add: sched_card_check_def)
    qed (use chk c(2) in \<open>simp_all add: card_at_def sched_view_def [of c] sched_card_step.claim\<close>)
  qed
qed

lemma view_at: "rc_status c = st \<Longrightarrow> rc_version c = v \<Longrightarrow> sched_view c = (st, v)"
  by (simp add: sched_view_def)

text \<open>The end of a delivery: refused with nothing written, or one step of its card.\<close>

lemma delivery_guard_row:
  assumes "sched_card_check c"
  shows "(\<exists>ref. delivery_guard (Some c) v g now = Inr (Some ref))
    \<or> (delivery_guard (Some c) v g now = Inr None \<and> rc_version c = v \<and> rc_status c = ScDelivering)"
  using assms by (auto simp: delivery_guard_def sched_card_check_def split: option.split)

lemma finish_delivery_ok:
  assumes inv: "sched_inv d"
    and f: "\<And>c. sched_card_check c \<Longrightarrow> rc_status c = ScDelivering \<Longrightarrow> rc_version c = v \<Longrightarrow> sched_card_check (f c)"
      "\<And>c. sched_card_about (f c) = sched_card_about c"
      "\<And>c. rc_status c = ScDelivering \<Longrightarrow> rc_version c = v \<Longrightarrow> sched_card_step (sched_view c) (sched_view (f c))"
      "\<And>c. rc_status c = ScDelivering \<Longrightarrow> rc_version c = v \<Longrightarrow>
        card_said (sched_card_event_of c kind version None now) = sched_view (f c)"
  obtains r d' where "finish_delivery (sched_card_of k d) k v g f kind version now d = Inr (r, d')"
    and "delivers d d'" and "sa_disposition r \<noteq> SdApplied \<Longrightarrow> d' = d"
    and "sa_disposition r = SdApplied \<Longrightarrow> sched_card_of k d' = map_option f (sched_card_of k d)"
proof (cases "sched_card_of k d")
  case None
  then show thesis using that [of "sa_refused k SrNotFound" d] delivers_refl [OF inv]
    by (simp add: finish_delivery_def delivery_guard_def sa_refused_def)
next
  case (Some c)
  note mem = sched_cards_mem [OF inv Some]
  consider (no) ref where "delivery_guard (Some c) v g now = Inr (Some ref)"
    | (go) "delivery_guard (Some c) v g now = Inr None" "rc_version c = v" "rc_status c = ScDelivering"
    using delivery_guard_row [OF mem(3)] by blast
  then show thesis
  proof cases
    case no
    then show thesis using that [of "sa_refused k ref" d] delivers_refl [OF inv] Some
      by (simp add: finish_delivery_def sa_refused_def)
  next
    case go
    show thesis
    proof (rule card_move [where hit = "card_at k v ScDelivering" and f = f and kind = kind
          and version = version and action = None and now = now, OF inv mem(1)])
      fix d1 d2
      assume u: "update_sched_cards (card_at k v ScDelivering) f d = Inr (1, d1)"
        and e: "add_sched_card_event c kind version None now d1 = d2"
        and w: "d2 = written_card c (f c) (sched_card_event_of c kind version None now) d"
        and ok: "sched_inv d2" "cards_follow d d2"
      have "finish_delivery (sched_card_of k d) k v g f kind version now d = Inr (sa_done SdApplied k version, d2)"
        using go u e Some by (simp add: finish_delivery_def)
      moreover have "delivers d d2" using ok only_reviews_written w by (simp add: delivers_def)
      moreover have "rc_id (f c) = rc_id c" using f(2) [of c] by (simp add: sched_card_about_def)
      then have "sched_card_of k d2 = Some (f c)" using sched_card_of_written [OF _ mem(1)] w mem(2) by simp
      ultimately show thesis using that Some by (simp add: sa_done_def)
    qed (use f go(2,3) mem in \<open>simp_all add: card_at_def\<close>)
  qed
qed

lemma complete_delivery_ok:
  assumes inv: "sched_inv d"
  obtains r d' where "complete_delivery_tx E k v token transport ref now d = Inr (r, d')"
    and "delivers d d'" and "sa_disposition r \<noteq> SdApplied \<Longrightarrow> d' = d"
    and "sa_disposition r = SdApplied \<Longrightarrow>
      sched_card_of k d' = map_option (sched_acknowledged transport ref now) (sched_card_of k d)"
proof -
  obtain r d' where r: "finish_delivery (sched_card_of k d) k v (sn_sha E token) (sched_acknowledged transport ref now)
        RevDelivered v now d = Inr (r, d')"
    "delivers d d'" "sa_disposition r \<noteq> SdApplied \<Longrightarrow> d' = d"
    "sa_disposition r = SdApplied \<Longrightarrow>
      sched_card_of k d' = map_option (sched_acknowledged transport ref now) (sched_card_of k d)"
    by (rule finish_delivery_ok [where f = "sched_acknowledged transport ref now" and kind = RevDelivered
          and k = k and v = v and g = "sn_sha E token" and version = v and now = now, OF inv])
      (simp_all add: card_checks(3) view_at sched_card_step.deliver)
  show thesis
  proof (cases "\<exists>c. sched_card_of k d = Some c \<and> rc_version c = v \<and> rc_status c \<noteq> ScDelivered")
    case True
    then show thesis using r by (intro that [OF _ r(2-4)]) (auto simp: complete_delivery_tx_def)
  next
    case False
    then have "\<exists>x. complete_delivery_tx E k v token transport ref now d = Inr (x, d)
        \<and> sa_disposition x \<noteq> SdApplied"
      by (cases "sched_card_of k d") (auto simp: complete_delivery_tx_def sa_refused_def sa_done_def)
    then obtain x where "complete_delivery_tx E k v token transport ref now d = Inr (x, d)"
      "sa_disposition x \<noteq> SdApplied" by blast
    then show thesis using that [of x d] delivers_refl [OF inv] by simp
  qed
qed

lemma fail_delivery_ok:
  assumes inv: "sched_inv d"
  obtains r d' where "finish_delivery (sched_card_of k d) k v g (sched_returned now) RevFailed (v + 1) now d = Inr (r, d')"
    and "delivers d d'" and "sa_disposition r \<noteq> SdApplied \<Longrightarrow> d' = d"
  by (rule finish_delivery_ok [where f = "sched_returned now" and kind = RevFailed and version = "v + 1"
        and k = k and v = v and g = g and now = now, OF inv])
    (simp_all add: card_checks(1) view_at sched_card_step.put_back)

section \<open>The answer\<close>

definition set_state :: "rowid \<Rightarrow> change_set_state \<Rightarrow> time \<Rightarrow> change_set_row list \<Rightarrow> change_set_row list" where
  "set_state k st now = update_where (\<lambda>s. ss_id s = k \<and> ss_state s = SetActive)
     (\<lambda>s. s\<lparr>ss_state := st, ss_updated_at := now\<rparr>)"

lemma state_events_frame [simp]:
  "sched_cards (sched (set_state_from_active k st now d)) = sched_cards (sched d)"
  "sched_card_events (sched (set_state_from_active k st now d)) = sched_card_events (sched d)"
  "change_sets (sched (set_state_from_active k st now d)) = set_state k st now (change_sets (sched d))"
  "sched_cards (sched (add_change_event k i ek now d)) = sched_cards (sched d)"
  "sched_card_events (sched (add_change_event k i ek now d)) = sched_card_events (sched d)"
  "change_sets (sched (add_change_event k i ek now d)) = change_sets (sched d)"
  by (simp_all add: set_state_from_active_def update_change_set_def add_change_event_def set_state_def)

lemma state_events_rest [simp]:
  "conditions (set_state_from_active k st now d) = conditions d" "tasks (set_state_from_active k st now d) = tasks d"
  "workflows (set_state_from_active k st now d) = workflows d"
  "workflow_events (set_state_from_active k st now d) = workflow_events d"
  "task_events (set_state_from_active k st now d) = task_events d"
  "conditions (add_change_event k i ek now d) = conditions d" "tasks (add_change_event k i ek now d) = tasks d"
  "workflows (add_change_event k i ek now d) = workflows d"
  "workflow_events (add_change_event k i ek now d) = workflow_events d"
  "task_events (add_change_event k i ek now d) = task_events d"
  "conditions (add_sched_card_event c kind v action now d) = conditions d"
  "tasks (add_sched_card_event c kind v action now d) = tasks d"
  "workflows (add_sched_card_event c kind v action now d) = workflows d"
  "workflow_events (add_sched_card_event c kind v action now d) = workflow_events d"
  "task_events (add_sched_card_event c kind v action now d) = task_events d"
  "sched_cards (sched (add_sched_card_event c kind v action now d)) = sched_cards (sched d)"
  "change_sets (sched (add_sched_card_event c kind v action now d)) = change_sets (sched d)"
  "sched_card_events (sched (add_sched_card_event c kind v action now d))
    = sched_card_events (sched d) @ [sched_card_event_of c kind v action now]"
  by (simp_all add: set_state_from_active_def update_change_set_def add_change_event_def
      add_sched_card_event_def sched_card_event_of_def)

lemma change_set_of_state:
  "row_of ss_id j (set_state k st now ss)
    = map_option (\<lambda>s. if ss_id s = k \<and> ss_state s = SetActive then s\<lparr>ss_state := st, ss_updated_at := now\<rparr> else s)
        (row_of ss_id j ss)"
  by (simp add: set_state_def find_update_where)

lemma change_sets_ok_state:
  assumes "change_sets_ok d" and "change_sets (sched d') = set_state k st now (change_sets (sched d))"
    and "sched_cards (sched d') = sched_cards (sched d)"
  shows "change_sets_ok d'"
proof -
  have "review_of_set d' c = review_of_set d c" for c
    unfolding review_of_set_def assms(2) change_set_of_state
    by (cases "change_set_of (rc_change_set_id c) d") simp_all
  moreover have "list_all change_set_ok (set_state k st now ss) = list_all change_set_ok ss" for ss
    by (induction ss) (simp_all add: set_state_def update_where_def change_set_ok_def)
  moreover have "unique_key ss_id (set_state k st now ss) = unique_key ss_id ss" for ss
    by (simp add: set_state_def unique_key_update)
  ultimately show ?thesis using assms by (simp add: change_sets_ok_def list_all_iff)
qed

lemma record_conflict_ok:
  assumes inv: "sched_inv d" and c: "c \<in> set (sched_cards (sched d))" "rc_status c = ScDelivered"
  shows "sched_inv (record_conflict c now d)" and "cards_follow d (record_conflict c now d)"
proof -
  have "review_log_ok (record_conflict c now d)"
    using table_ok_note [OF sched_invD(2) [OF inv] c(1), of "sched_card_event_of c RevUndoConflict (rc_version c) (Some ''undo'') now"]
      c(2) by (simp add: record_conflict_def view_at)
  moreover have "change_sets_ok (record_conflict c now d)"
    by (rule change_sets_ok_state [OF sched_invD(3) [OF inv], of _ "rc_change_set_id c" SetUndoConflict now])
      (simp_all add: record_conflict_def)
  ultimately show "sched_inv (record_conflict c now d)"
    using sched_invD(1) [OF inv] queue_ok_same [of "record_conflict c now d" d]
    by (simp add: sched_inv_def record_conflict_def)
  show "cards_follow d (record_conflict c now d)"
    by (rule cards_follow_same) (simp add: record_conflict_def)
qed

lemma cancel_conditions_eases: "queue_eases d (cancel_conditions k now d)"
  by (rule queue_eases_update [where hit = "\<lambda>c. in_change_set k c \<and> sc_state c \<in> {CondActive, CondSatisfied, CondNeedsReview}"
        and f = "\<lambda>c. c\<lparr>sc_state := CondCanceled, sc_updated_at := now\<rparr>"])
    (simp_all add: condition_eases_def live_condition_def cancel_conditions_def Let_def)

lemma cancel_conditions_frame [simp]:
  "sched (cancel_conditions k now d) = sched d" "tasks (cancel_conditions k now d) = tasks d"
  "workflows (cancel_conditions k now d) = workflows d" "gates (cancel_conditions k now d) = gates d"
  "workflow_events (cancel_conditions k now d) = workflow_events d"
  "task_events (cancel_conditions k now d) = task_events d"
  by (simp_all add: cancel_conditions_def Let_def)

lemma update_workflows_frame:
  "update_workflows hit f d = Inr (n, d') \<Longrightarrow> conditions d' = conditions d \<and> sched d' = sched d
    \<and> tasks d' = tasks d \<and> gates d' = gates d \<and> workflow_events d' = workflow_events d
    \<and> task_events d' = task_events d"
  by (auto simp: update_workflows_def split: if_splits)

lemma insert_events_frame:
  "insert_workflow_events es d = Inr d' \<Longrightarrow> conditions d' = conditions d \<and> sched d' = sched d
    \<and> tasks d' = tasks d \<and> gates d' = gates d \<and> workflows d' = workflows d \<and> task_events d' = task_events d"
  by (drule insert_workflow_eventsD(1)) simp

lemma priority_event_frame:
  "execution_priority_event i v kind now d = Inr d' \<Longrightarrow> conditions d' = conditions d \<and> sched d' = sched d
    \<and> tasks d' = tasks d \<and> gates d' = gates d \<and> workflows d' = workflows d \<and> task_events d' = task_events d"
  unfolding execution_priority_event_def by (rule insert_events_frame)

lemma restore_priority_frame:
  "restore_priority c s now d = Inr d' \<Longrightarrow> conditions d' = conditions d \<and> sched d' = sched d
    \<and> tasks d' = tasks d \<and> gates d' = gates d \<and> task_events d' = task_events d"
  by (auto simp: restore_priority_def Let_def rbind_Inr_iff split: if_splits option.splits
      dest!: update_workflows_frame priority_event_frame)

lemma cancel_cards_frame:
  assumes "cancel_prerequisite_cards i wv now d = Inr d'"
  shows "conditions d' = conditions d \<and> sched d' = sched d \<and> tasks d' = tasks d \<and> workflows d' = workflows d
    \<and> workflow_events d' = workflow_events d \<and> task_events d' = task_events d"
  by (rule each_keeps [OF _ _ _ assms [unfolded cancel_prerequisite_cards_def]])
    (auto dest: cancel_gate_frame)

lemma drop_prerequisite_frame:
  assumes "drop_prerequisite s now d = Inr d'"
  shows "conditions d' = conditions d \<and> sched d' = sched d"
  using assms
  by (auto simp: drop_prerequisite_def drop_prerequisite_task_def insert_task_event_def rbind_Inr_iff
      cancel_prerequisite_workflow_def split: option.splits
      dest!: update_workflows_frame cancel_cards_frame insert_events_frame)

lemma undo_set_effect:
  assumes "undo_set c s now d = Inr d'"
  shows "queue_eases d d'" and "sched_cards (sched d') = sched_cards (sched d)"
    and "sched_card_events (sched d') = sched_card_events (sched d)"
    and "change_sets (sched d') = set_state (rc_change_set_id c) SetUndone now (change_sets (sched d))"
proof -
  obtain d1 d2 where d: "restore_priority c s now (cancel_conditions (rc_change_set_id c) now d) = Inr d1"
    "drop_prerequisite s now d1 = Inr d2"
    "d' = add_change_event (rc_change_set_id c) (rc_task_id c) SetEvUndone now
      (set_state_from_active (rc_change_set_id c) SetUndone now d2)"
    using assms by (auto simp: undo_set_def rbind_Inr_iff)
  note fr = restore_priority_frame [OF d(1)] drop_prerequisite_frame [OF d(2)]
  have "conditions d' = conditions (cancel_conditions (rc_change_set_id c) now d)" using fr by (simp add: d(3))
  then show "queue_eases d d'"
    using queue_eases_trans [OF cancel_conditions_eases queue_eases_same] by blast
  show "sched_cards (sched d') = sched_cards (sched d)" "sched_card_events (sched d') = sched_card_events (sched d)"
    "change_sets (sched d') = set_state (rc_change_set_id c) SetUndone now (change_sets (sched d))"
    using fr by (simp_all add: d(3))
qed

lemma undo_set_ok:
  assumes inv: "sched_inv d" and u: "undo_set c s now d = Inr d'"
  shows "sched_inv d'" and "cards_follow d d'"
proof -
  note ef = undo_set_effect [OF u]
  show "sched_inv d'"
    using sched_invD(1,2) [OF inv] queue_ok_eases [OF _ ef(1)] ef(2,3)
      change_sets_ok_state [OF sched_invD(3) [OF inv] ef(4,2)] by (simp add: sched_inv_def)
  show "cards_follow d d'" by (rule cards_follow_same [OF ef(2)])
qed

definition answered :: "int \<Rightarrow> string \<Rightarrow> time \<Rightarrow> sched_card_row \<Rightarrow> sched_card_row" where
  "answered version action now c = c\<lparr>rc_status := ScResolved, rc_version := version, rc_resolution := Some action,
     rc_updated_at := now, rc_resolved_at := Some now\<rparr>"

lemma resolve_ok:
  assumes inv: "sched_inv d" and c: "c \<in> set (sched_cards (sched d))" "rc_status c = ScDelivered"
  obtains d' where "resolve_sched_card c (rc_version c + 1) action now d = Inr d'" and "delivers d d'"
    and "sched_card_of (rc_id c) d' = Some (answered (rc_version c + 1) action now c)"
proof -
  let ?f = "answered (rc_version c + 1) action now"
  have chk: "sched_card_check (?f c)"
    using table_okD(2) [OF sched_invD(2) [OF inv] c(1)] c(2) by (simp add: sched_card_check_def answered_def)
  show thesis
  proof (rule card_move [where hit = "card_at (rc_id c) (rc_version c) ScDelivered" and f = ?f and kind = RevResolved
        and version = "rc_version c + 1" and action = "Some action" and now = now, OF inv c(1)])
    fix d1 d2
    assume u: "update_sched_cards (card_at (rc_id c) (rc_version c) ScDelivered) ?f d = Inr (1, d1)"
      and e: "add_sched_card_event c RevResolved (rc_version c + 1) (Some action) now d1 = d2"
      and w: "d2 = written_card c (?f c) (sched_card_event_of c RevResolved (rc_version c + 1) (Some action) now) d"
      and ok: "sched_inv d2" "cards_follow d d2"
    have "resolve_sched_card c (rc_version c + 1) action now d = Inr d2"
      using u e by (simp add: resolve_sched_card_def answered_def [abs_def])
    moreover have "delivers d d2" using ok only_reviews_written w by (simp add: delivers_def)
    moreover have "rc_id (?f c) = rc_id c" by (simp add: answered_def)
    then have "sched_card_of (rc_id c) d2 = Some (?f c)" using sched_card_of_written [OF _ c(1)] w by simp
    ultimately show thesis by (rule that)
  next
    show "sched_card_step (sched_view c) (sched_view (?f c))"
      using c(2) by (simp add: sched_view_def answered_def sched_card_step.answer)
  qed (use chk c(2) in \<open>simp_all add: card_at_def sched_card_about_def answered_def sched_view_def\<close>)
qed

text \<open>The four ways an answer ends.\<close>

lemma sched_act_cases:
  assumes inv: "sched_inv d" and act: "sched_act k v action now d = (out, d')"
  obtains (same) "d' = d" and "\<And>r. out = Inr r \<Longrightarrow> sa_disposition r \<noteq> SdApplied"
  | (conflict) c s where "sched_card_of k d = Some c" and "change_set_of (rc_change_set_id c) d = Some s"
      and "rc_status c = ScDelivered" and "rc_version c = v" and "action = ''undo''" and "undo_conflict c s d"
      and "out = Inr (sa_refused k SrUndoConflict)" and "d' = record_conflict c now d"
  | (keep) c where "sched_card_of k d = Some c" and "rc_status c = ScDelivered" and "rc_version c = v"
      and "action = ''keep''" and "out = Inr (sa_done SdApplied k (v + 1))"
      and "resolve_sched_card c (v + 1) ''keep'' now d = Inr d'"
  | (undo) c s d1 where "sched_card_of k d = Some c" and "change_set_of (rc_change_set_id c) d = Some s"
      and "rc_status c = ScDelivered" and "rc_version c = v" and "action = ''undo''" and "\<not> undo_conflict c s d"
      and "undo_set c s now d = Inr d1" and "resolve_sched_card c (v + 1) ''undo'' now d1 = Inr d'"
      and "out = Inr (sa_done SdApplied k (v + 1))"
proof (cases "k < 1 \<or> v < 1 \<or> action \<notin> {''undo'', ''keep''}")
  case True
  then show thesis using act by (intro same) (auto simp: sched_act_def sa_refused_def)
next
  case False
  then have tx: "run_tx (act_tx k v action now) d = (out, d')" and a: "action = ''undo'' \<or> action = ''keep''"
    using act by (auto simp: sched_act_def)
  show thesis
  proof (cases "sched_card_of k d")
    case None
    then show thesis using tx by (intro same) (auto simp: act_tx_def run_tx_def sa_refused_def)
  next
    case (Some c)
    obtain s where s: "change_set_of (rc_change_set_id c) d = Some s"
      using sched_cards_mem(4) [OF inv Some] by blast
    show thesis
    proof (cases "rc_status c = ScDelivered \<and> rc_version c = v")
      case False
      then show thesis using tx Some s
        by (intro same) (auto simp: act_tx_def run_tx_def sa_refused_def split: if_splits)
    next
      case True
      consider (k) d1 where "action = ''keep''" "resolve_sched_card c (v + 1) ''keep'' now d = Inr d1"
        | (u) d1 d2 where "action = ''undo''" "\<not> undo_conflict c s d" "undo_set c s now d = Inr d1"
            "resolve_sched_card c (v + 1) ''undo'' now d1 = Inr d2"
        | (x) "action = ''undo''" "undo_conflict c s d"
        | (e) e where "act_tx k v action now d = Inl e"
      proof (cases "action = ''keep''")
        case True
        then show thesis using k e Some s \<open>rc_status c = ScDelivered \<and> rc_version c = v\<close>
          by (cases "resolve_sched_card c (v + 1) ''keep'' now d") (auto simp: act_tx_def)
      next
        case False
        then have a: "action = ''undo''" using a by simp
        show thesis
        proof (cases "undo_conflict c s d")
          case False
          then show thesis using u e Some s a \<open>rc_status c = ScDelivered \<and> rc_version c = v\<close>
            by (cases "undo_set c s now d"; cases "resolve_sched_card c (v + 1) ''undo'' now (projr (undo_set c s now d))")
              (auto simp: act_tx_def)
        qed (use x a in blast)
      qed
      then show thesis
      proof cases
        case (k d1)
        then show thesis using tx Some s True by (intro keep) (auto simp: act_tx_def run_tx_def)
      next
        case (u d1 d2)
        then show thesis using tx Some s True by (intro undo [OF Some s]) (auto simp: act_tx_def run_tx_def)
      next
        case x
        then show thesis using tx Some s True by (intro conflict [OF Some s]) (auto simp: act_tx_def run_tx_def)
      next
        case (e e)
        then show thesis using tx by (intro same) (auto simp: run_tx_def)
      qed
    qed
  qed
qed

lemma act_ok:
  assumes inv: "sched_inv d" and act: "sched_act k v action now d = (out, d')"
  shows "sched_inv d'" and "cards_follow d d'"
    and "(\<exists>r. out = Inr r \<and> sa_disposition r = SdApplied) \<Longrightarrow>
      map_option rc_version (sched_card_of k d) = Some v \<and> map_option rc_version (sched_card_of k d') = Some (v + 1)"
proof -
  have "sched_inv d' \<and> cards_follow d d' \<and> ((\<exists>r. out = Inr r \<and> sa_disposition r = SdApplied) \<longrightarrow>
      map_option rc_version (sched_card_of k d) = Some v \<and> map_option rc_version (sched_card_of k d') = Some (v + 1))"
    using inv act
  proof (cases rule: sched_act_cases)
    case same
    then show ?thesis using inv by auto
  next
    case (conflict c s)
    then show ?thesis using record_conflict_ok [OF inv] sched_cards_mem(1) [OF inv conflict(1)] by (simp add: sa_refused_def)
  next
    case (keep c)
    note mem = sched_cards_mem [OF inv keep(1)]
    obtain d1 where "resolve_sched_card c (rc_version c + 1) ''keep'' now d = Inr d1" "delivers d d1"
      "sched_card_of (rc_id c) d1 = Some (answered (rc_version c + 1) ''keep'' now c)"
      by (rule resolve_ok [OF inv mem(1) keep(2)])
    then show ?thesis using keep mem(2) by (auto simp: delivers_def answered_def)
  next
    case (undo c s d1)
    note mem = sched_cards_mem [OF inv undo(1)] and u = undo_set_ok [OF inv undo(7)] and ef = undo_set_effect [OF undo(7)]
    have "c \<in> set (sched_cards (sched d1))" using mem(1) ef(2) by simp
    then obtain d2 where "resolve_sched_card c (rc_version c + 1) ''undo'' now d1 = Inr d2" "delivers d1 d2"
      "sched_card_of (rc_id c) d2 = Some (answered (rc_version c + 1) ''undo'' now c)"
      by (rule resolve_ok [OF u(1) _ undo(3)])
    then show ?thesis using undo mem(2) cards_follow_trans [OF u(2)] by (auto simp: delivers_def answered_def)
  qed
  then show "sched_inv d'" and "cards_follow d d'"
    and "(\<exists>r. out = Inr r \<and> sa_disposition r = SdApplied) \<Longrightarrow>
      map_option rc_version (sched_card_of k d) = Some v \<and> map_option rc_version (sched_card_of k d') = Some (v + 1)"
    by blast+
qed

section \<open>Applying a recommendation\<close>

lemma create_prerequisite_effect:
  assumes "create_prerequisite body now w d = Inr (k, d')"
  shows "k = next_id tk_id (tasks d)" and "conditions d' = conditions d" and "sched d' = sched d"
    and "tasks d' = tasks d @ [prerequisite_task k body now]"
    and "workflows d' = workflows d @ [prerequisite_workflow k w now]" and "workflow_of k d = None"
    and "workflow_events d' = workflow_events d" and "gates d' = gates d"
  using assms
  by (auto simp: create_prerequisite_def Let_def rbind_Inr_iff insert_workflow_def insert_task_event_def
      prerequisite_workflow_def split: if_splits)

text \<open>What is known of a change before it is stored.\<close>

lemma sched_change_cases:
  assumes "sched_change r w now d = Inr (Inr (ef, d'))"
  obtains (later) "rm_kind r = SkNotBefore" and "ef = no_effect r" and "d' = d"
      and "filter (\<lambda>c. \<not> is_dependency c) (live_conditions (rm_target_task_id r) d) = []"
  | (after) k where "rm_kind r = SkAfterTaskCompleted" and "ef = no_effect r" and "d' = d"
      and "rm_related_task_id r = Some k" and "dependency_refusal (rm_target_task_id r) (Some k) d = None"
  | (raised) d1 where "rm_kind r = SkRaisePriority" and "wf_priority w = PrioNormal"
      and "wf_priority_source w = None"
      and "ef = (no_effect r)\<lparr>ef_prior_priority := Some PrioNormal, ef_version := rm_expected_workflow_version r + 1\<rparr>"
      and "update_workflows (\<lambda>x. at_version (rm_target_task_id r) (rm_expected_workflow_version r) x
            \<and> wf_status x = WfQueued \<and> wf_priority x = PrioNormal
            \<and> (case wf_next_attempt_at x of None \<Rightarrow> True | Some a \<Rightarrow> a \<le> now))
          (\<lambda>x. x\<lparr>wf_priority := PrioRaised, wf_priority_source := Some ''automation'',
             wf_version := rm_expected_workflow_version r + 1, wf_updated_at := now\<rparr>) d = Inr (1, d1)"
      and "execution_priority_event (rm_target_task_id r) (rm_expected_workflow_version r + 1)
          ''priority_raised'' now d1 = Inr d'"
  | (created) k body where "rm_kind r = SkCreatePrerequisite"
      and "ef = (no_effect r)\<lparr>ef_created := Some k, ef_related := Some k\<rparr>"
      and "create_prerequisite body now w d = Inr (k, d')" and "body = (case rm_prerequisite_text r of None \<Rightarrow> '''' | Some s \<Rightarrow> s)"
      and "dependency_refusal (rm_target_task_id r) (Some k) d' = None"
proof (cases "rm_kind r")
  case SkAfterTaskCompleted
  then show thesis using assms after
    by (cases "rm_related_task_id r") (auto simp: sched_change_def dependency_refusal_def split: option.splits)
next
  case SkNotBefore
  then show thesis using assms later
    by (auto simp: sched_change_def list_ex_iff filter_empty_conv split: if_splits)
next
  case SkRaisePriority
  then show thesis using assms raised
    by (auto simp: sched_change_def raise_target_def Let_def rbind_Inr_iff split: if_splits)
next
  case SkCreatePrerequisite
  then obtain k where "create_prerequisite (case rm_prerequisite_text r of None \<Rightarrow> '''' | Some s \<Rightarrow> s) now w d = Inr (k, d')"
    "ef = (no_effect r)\<lparr>ef_created := Some k, ef_related := Some k\<rparr>"
    "dependency_refusal (rm_target_task_id r) (Some k) d' = None"
    using assms by (auto simp: sched_change_def make_prerequisite_def rbind_Inr_iff split: option.splits)
  then show thesis using created SkCreatePrerequisite by blast
qed

lemma sched_change_frame:
  assumes "sched_change r w now d = Inr (Inr (ef, d'))"
  shows "conditions d' = conditions d" and "sched d' = sched d"
proof -
  have "conditions d' = conditions d \<and> sched d' = sched d"
    using assms
  proof (cases rule: sched_change_cases)
    case (raised d1)
    then show ?thesis using update_workflows_frame [OF raised(5)] priority_event_frame [OF raised(6)] by simp
  next
    case (created k body)
    then show ?thesis using create_prerequisite_effect(2,3) by blast
  qed simp_all
  then show "conditions d' = conditions d" "sched d' = sched d" by simp_all
qed

definition new_condition :: "recommendation \<Rightarrow> condition_kind \<Rightarrow> rowid \<Rightarrow> time \<Rightarrow> db \<Rightarrow> condition_row" where
  "new_condition r kind change_set now d = \<lparr>sc_id = next_id sc_id (conditions d), sc_task_id = rm_target_task_id r,
     sc_task_version = rm_target_task_version r, sc_kind = kind, sc_state = CondActive,
     sc_change_set_id = change_set, sc_created_at = now, sc_updated_at = now\<rparr>"

lemma store_change_effect:
  assumes "store_change E r doc w ef now d = Inr (res, d')"
  shows "conditions d' = conditions d @ (case condition_for r doc ef of None \<Rightarrow> []
      | Some kind \<Rightarrow> [new_condition r kind (next_id ss_id (change_sets (sched d))) now d])"
    and "case condition_for r doc ef of None \<Rightarrow> True | Some kind \<Rightarrow> 1 \<le> rm_target_task_version r
      \<and> kind \<noteq> AfterTaskCompleted (rm_target_task_id r)"
    and "change_sets (sched d') = change_sets (sched d)
      @ [change_set_row_of r doc (sn_sha E (document_text doc)) w ef now (next_id ss_id (change_sets (sched d)))]"
    and "sched_cards (sched d') = sched_cards (sched d) @ [sched_card_for (next_id rc_id (sched_cards (sched d)))
      (next_id ss_id (change_sets (sched d))) (rm_target_task_id r) now]"
    and "sched_card_events (sched d') = sched_card_events (sched d) @ [sched_card_event_of
      (sched_card_for (next_id rc_id (sched_cards (sched d))) (next_id ss_id (change_sets (sched d)))
        (rm_target_task_id r) now) RevScheduled 1 None now]"
    and "tasks d' = tasks d" "workflows d' = workflows d" "workflow_events d' = workflow_events d"
    and "task_events d' = task_events d" "gates d' = gates d"
    and "res = \<lparr>pa_disposition = SdApplied, pa_refusal = None,
      pa_change_set_id = Some (next_id ss_id (change_sets (sched d))),
      pa_card_id = Some (next_id rc_id (sched_cards (sched d))), pa_created_task_id = ef_created ef,
      pa_resulting_version = Some (ef_version ef)\<rparr>"
  using assms
  by (auto simp: store_change_def Let_def rbind_Inr_iff insert_change_set_def insert_condition_def open_review_def
      new_condition_def add_sched_card_event_def sched_card_event_of_def add_change_event_def
      split: if_splits option.splits)

text \<open>A recommendation that was applied, and one that was not.\<close>

definition applied_change :: "sched_env \<Rightarrow> recommendation \<Rightarrow> time \<Rightarrow> db \<Rightarrow> sched_document \<Rightarrow> task_row \<Rightarrow> workflow_row
    \<Rightarrow> sched_effect \<Rightarrow> db \<Rightarrow> sched_apply_result \<Rightarrow> db \<Rightarrow> bool" where
  "applied_change E r now d doc t w ef d1 res d' \<longleftrightarrow> recommendation_document r = Some doc
     \<and> (\<exists>ok. sn_provenance E = Some ok \<and> ok d r)
     \<and> known_change (rm_research_receipt_id r) (sn_sha E (document_text doc)) d = None
     \<and> task_of (rm_target_task_id r) d = Some t \<and> workflow_of (rm_target_task_id r) d = Some w
     \<and> target_refusal (Some t) (Some w) r = None
     \<and> (adds_condition (rm_kind r) \<longrightarrow> length (live_conditions (rm_target_task_id r) d) < MAX_ACTIVE_CONDITIONS)
     \<and> sched_change r w now d = Inr (Inr (ef, d1)) \<and> store_change E r doc w ef now d1 = Inr (res, d')"

lemma sched_apply_cases:
  assumes "sched_apply E r now d = (out, d')"
  obtains (same) "d' = d" and "\<And>res. out = Inr res \<Longrightarrow> pa_disposition res \<noteq> SdApplied"
  | (applied) doc t w ef d1 res where "out = Inr res" and "applied_change E r now d doc t w ef d1 res d'"
proof (cases "recommendation_document r")
  case None
  then show thesis using assms by (intro same) (auto simp: sched_apply_def pa_refused_def)
next
  case (Some doc)
  show thesis
  proof (cases "run_tx (apply_tx E r doc now) d = (out, d')")
    case False
    then show thesis using assms Some
      by (intro same) (auto simp: sched_apply_def pa_refused_def split: if_splits)
  next
    case tx: True
    let ?i = "rm_target_task_id r"
    show thesis
    proof (cases "(\<exists>ok. sn_provenance E = Some ok \<and> ok d r)
        \<and> known_change (rm_research_receipt_id r) (sn_sha E (document_text doc)) d = None
        \<and> target_refusal (task_of ?i d) (workflow_of ?i d) r = None
        \<and> (adds_condition (rm_kind r) \<longrightarrow> length (live_conditions ?i d) < MAX_ACTIVE_CONDITIONS)")
      case False
      then show thesis using tx
        by (intro same) (auto simp: apply_tx_def Let_def run_tx_def pa_refused_def split: option.splits if_splits)
    next
      case True
      then obtain t w where tw: "task_of ?i d = Some t" "workflow_of ?i d = Some w"
        by (auto simp: target_refusal_def split: option.splits)
      have eq: "apply_tx E r doc now d = rbind (sched_change r w now d) (\<lambda>out. case out of
          Inl ref \<Rightarrow> Inr (pa_refused ref, d) | Inr (ef, d1) \<Rightarrow> store_change E r doc w ef now d1)"
        using True tw by (auto simp: apply_tx_def Let_def)
      consider (raises) e where "apply_tx E r doc now d = Inl e"
        | (refuses) ref where "apply_tx E r doc now d = Inr (pa_refused ref, d)"
        | (stores) ef d1 res d2 where "sched_change r w now d = Inr (Inr (ef, d1))"
            "store_change E r doc w ef now d1 = Inr (res, d2)" "apply_tx E r doc now d = Inr (res, d2)"
      proof (cases "sched_change r w now d")
        case (Inr x)
        show thesis
        proof (cases x)
          case change: (Inr y)
          then obtain ef d1 where "y = (ef, d1)" by (cases y)
          then show thesis using raises stores eq Inr change
            by (cases "store_change E r doc w ef now d1") auto
        qed (use refuses eq Inr in simp)
      qed (use raises eq in simp)
      then show thesis
      proof cases
        case (stores ef d1 res d2)
        then have "out = Inr res" "d2 = d'" using tx by (simp_all add: run_tx_def)
        then show thesis using applied [of res doc t w ef d1] stores True tw Some by (simp add: applied_change_def)
      qed (use tx in \<open>auto simp: run_tx_def pa_refused_def intro: same\<close>)
    qed
  qed
qed

lemma sched_card_for_ok [simp]:
  "sched_card_check (sched_card_for k s i now)" "sched_view (sched_card_for k s i now) = (ScPending, 1)"
  "rc_id (sched_card_for k s i now) = k" "rc_change_set_id (sched_card_for k s i now) = s"
  "rc_task_id (sched_card_for k s i now) = i" "rc_status (sched_card_for k s i now) = ScPending"
  by (simp_all add: sched_card_check_def sched_card_for_def sched_view_def)

lemma dependency_refusal_None:
  assumes "dependency_refusal i (Some k) d = None"
  shows "1 \<le> k" and "k \<noteq> i" and "map_option tk_status (task_of k d) = Some TaskOpen"
    and "length (filter is_dependency (live_conditions i d)) < MAX_PREREQUISITE_EDGES"
    and "case dependency_depth ((i, k) # waiting_edges d) of None \<Rightarrow> False | Some n \<Rightarrow> n \<le> MAX_DEPENDENCY_DEPTH"
  using assms by (auto simp: dependency_refusal_def split: if_splits option.splits)

lemma frame_of_conditions:
  "conditions d' = conditions d \<Longrightarrow> live_conditions i d' = live_conditions i d \<and> waiting_edges d' = waiting_edges d"
  by (simp add: live_conditions_def waiting_edges_def)

text \<open>The queue after a change that adds a condition: what the code checked is what is needed.\<close>

lemma applied_queue_ok:
  assumes ok: "queue_ok d" and a: "applied_change E r now d doc t w ef d1 res d'"
  shows "queue_ok d'"
proof -
  have change: "sched_change r w now d = Inr (Inr (ef, d1))" and store: "store_change E r doc w ef now d1 = Inr (res, d')"
    and limit: "adds_condition (rm_kind r) \<Longrightarrow> length (live_conditions (rm_target_task_id r) d) < MAX_ACTIVE_CONDITIONS"
    using a by (simp_all add: applied_change_def)
  note st = store_change_effect [OF store] and fr = sched_change_frame(1) [OF change]
  note lv = frame_of_conditions [OF fr]
  show ?thesis
  proof (cases "condition_for r doc ef")
    case None
    then show ?thesis using ok st(1) fr queue_ok_same [of d' d] by simp
  next
    case (Some kind)
    let ?c = "new_condition r kind (next_id ss_id (change_sets (sched d1))) now d1"
    have rows: "conditions d' = conditions d @ [?c]" using st(1) fr Some by simp
    have tv: "1 \<le> rm_target_task_version r" using st(2) Some by simp
    have adds: "adds_condition (rm_kind r)" using Some by (auto simp: condition_for_def split: if_splits)
    have c: "sc_id ?c = next_id sc_id (conditions d)" "sc_task_id ?c = rm_target_task_id r" "live_condition ?c"
      "1 \<le> sc_task_version ?c" "sc_kind ?c = kind" using tv fr by (simp_all add: new_condition_def live_condition_def)
    have kinds: "if is_dependency ?c
        then length (filter is_dependency (live_conditions (rm_target_task_id r) d)) < MAX_PREREQUISITE_EDGES
          \<and> (case dependency_depth (edge_of ?c @ waiting_edges d) of None \<Rightarrow> False | Some k \<Rightarrow> k \<le> MAX_DEPENDENCY_DEPTH)
        else filter (\<lambda>c. \<not> is_dependency c) (live_conditions (rm_target_task_id r) d) = []"
      using change
    proof (cases rule: sched_change_cases)
      case later
      then have "kind = NotBefore x" if "rd_not_before doc = Some x" for x
        using Some that by (simp add: condition_for_def adds_condition_def)
      then have "\<not> is_dependency ?c"
        using Some later(1) c(5) by (auto simp: condition_for_def adds_condition_def is_dependency_def)
      then show ?thesis using later(4) by simp
    next
      case (after k)
      then have "kind = AfterTaskCompleted k"
        using Some by (simp add: condition_for_def adds_condition_def no_effect_def)
      then show ?thesis
        using c dependency_refusal_None(4,5) [OF after(5)] by (simp add: is_dependency_def edge_of_def)
    next
      case (raised d2)
      then show ?thesis using adds by (simp add: adds_condition_def)
    next
      case (created k body)
      then have "kind = AfterTaskCompleted k"
        using Some by (simp add: condition_for_def adds_condition_def)
      then show ?thesis
        using c dependency_refusal_None(4,5) [OF created(5)] lv by (simp add: is_dependency_def edge_of_def)
    qed
    show ?thesis by (rule queue_ok_insert [OF ok rows c(1-4) limit [OF adds] kinds])
  qed
qed

lemma find_keeps: "row_of key k rows = Some r \<Longrightarrow> row_of key k (rows @ rest) = Some r"
  by (simp add: find_append)

lemma applied_ok:
  assumes inv: "sched_inv d" and a: "applied_change E r now d doc t w ef d1 res d'"
  shows "sched_inv d'" and "cards_follow d d'"
proof -
  have change: "sched_change r w now d = Inr (Inr (ef, d1))" and store: "store_change E r doc w ef now d1 = Inr (res, d')"
    using a by (simp_all add: applied_change_def)
  note fr = sched_change_frame(2) [OF change]
  note st = store_change_effect(3-5) [OF store, unfolded fr]
  let ?s = "change_set_row_of r doc (sn_sha E (document_text doc)) w ef now (next_id ss_id (change_sets (sched d)))"
  let ?c = "sched_card_for (next_id rc_id (sched_cards (sched d))) (next_id ss_id (change_sets (sched d))) (rm_target_task_id r) now"
  have log: "review_log_ok d'"
    unfolding st by (rule table_ok_insert [OF sched_invD(2) [OF inv]]) (simp_all add: card_said_def sched_card_event_of_def)
  have s: "change_set_ok ?s"
    using change
    by (cases rule: sched_change_cases) (simp_all add: change_set_ok_def change_set_row_of_def no_effect_def)
  have uniq: "unique_key ss_id (change_sets (sched d'))"
    unfolding st by (rule unique_key_insert [OF sched_invD(5) [OF inv]]) (simp add: change_set_row_of_def)
  have new: "change_set_of (next_id ss_id (change_sets (sched d))) d' = Some ?s"
    using row_of_unique [OF uniq, of _ ?s] by (simp add: st change_set_row_of_def)
  have "review_of_set d' c" if "c \<in> set (sched_cards (sched d'))" for c
  proof (cases "c = ?c")
    case True
    then show ?thesis using new by (simp add: review_of_set_def change_set_row_of_def)
  next
    case False
    then have "review_of_set d c" using that sched_invD(3) [OF inv] by (simp add: st change_sets_ok_def list_all_iff)
    then show ?thesis using find_keeps [of ss_id "rc_change_set_id c" "change_sets (sched d)"]
      by (auto simp: review_of_set_def st split: option.splits)
  qed
  then have "change_sets_ok d'"
    using uniq s sched_invD(3) [OF inv] by (simp add: change_sets_ok_def st list_all_iff)
  then show "sched_inv d'" using log applied_queue_ok [OF sched_invD(1) [OF inv] a] by (simp add: sched_inv_def)
  show "cards_follow d d'"
    unfolding cards_follow_def st using find_keeps [of rc_id _ "sched_cards (sched d)"] card_follows_refl by blast
qed

lemma apply_ok:
  assumes inv: "sched_inv d" and app: "sched_apply E r now d = (out, d')"
  shows "sched_inv d'" and "cards_follow d d'"
proof -
  have "sched_inv d' \<and> cards_follow d d'"
    using app by (cases rule: sched_apply_cases) (use inv applied_ok [OF inv] in simp_all)
  then show "sched_inv d'" "cards_follow d d'" by simp_all
qed

end
