(* ===== verification/SchedService.thy ===== *)
theory SchedService
  imports SchedOps ExecService
begin

text \<open>
  The scheduling service and the execution service on one database: every request of the scheduling
  service and of \<open>ExecService\<close>, in any order.  The workers evaluate the conditions that the
  scheduling service inserts; nothing of the execution service touches its other tables.
\<close>

section \<open>What the execution service leaves of the queue and of the cards\<close>

definition same_queue :: "db \<Rightarrow> db \<Rightarrow> bool" where
  "same_queue d d' \<longleftrightarrow> conditions d' = conditions d \<and> sched d' = sched d \<and> gates d' = gates d"

definition keeps_queue :: "db \<Rightarrow> db \<Rightarrow> bool" where
  "keeps_queue d d' \<longleftrightarrow> sched d' = sched d \<and> gates d' = gates d \<and> (queue_ok d \<longrightarrow> queue_eases d d')"

lemma same_queue_refl [simp]: "same_queue d d"
  by (simp add: same_queue_def)

lemma same_queue_trans: "same_queue a b \<Longrightarrow> same_queue b c \<Longrightarrow> same_queue a c"
  by (simp add: same_queue_def)

lemma same_queue_keeps: "same_queue d d' \<Longrightarrow> keeps_queue d d'"
  by (simp add: same_queue_def keeps_queue_def queue_eases_same)

lemma keeps_queue_refl [simp]: "keeps_queue d d"
  by (simp add: same_queue_keeps)

lemma keeps_queue_trans: "keeps_queue a b \<Longrightarrow> keeps_queue b c \<Longrightarrow> keeps_queue a c"
  unfolding keeps_queue_def using queue_ok_eases queue_eases_trans by metis

lemma keeps_queue_inv:
  assumes "sched_inv d" and "keeps_queue d d'"
  shows "sched_inv d'"
proof -
  have s: "sched d' = sched d" and e: "queue_eases d d'"
    using assms sched_invD(1) by (simp_all add: keeps_queue_def)
  have "queue_ok d'" by (rule queue_ok_eases [OF sched_invD(1) [OF assms(1)] e])
  then show ?thesis
    using assms(1) s by (simp add: sched_inv_def change_sets_ok_def review_of_set_def [abs_def])
qed

lemma write_queue:
  "update_workflows hit f d = Inr (n, d') \<Longrightarrow> same_queue d d'"
  "wf_event i kind wv tv ph st now d = Inr d' \<Longrightarrow> same_queue d d'"
  "insert_workflow w d = Inr d' \<Longrightarrow> same_queue d d'"
  "insert_result x as d = Inr d' \<Longrightarrow> same_queue d d'"
  "same_queue d (insert_failure_digest i v p run g now d)"
  "same_queue d (snd (record_ownership_decision i tv os now d))"
  by (auto simp: same_queue_def update_workflows_def wf_event_def insert_workflow_events_def insert_workflow_def insert_failure_digest_def
      insert_result_def record_ownership_decision_def Let_def split: if_splits option.splits)

lemmas write_queueD = write_queue [unfolded same_queue_def]

lemma rbind_ok: "rbind x f = Inr y \<longleftrightarrow> (\<exists>z. x = Inr z \<and> f z = Inr y)"
  by (cases x) simp_all

lemma defer_queue: "defer_failure M w reason now ek code run d = Inr (r, d') \<Longrightarrow> same_queue d d'"
  by (auto simp: same_queue_def defer_failure_def Let_def rbind_ok split_beta dest!: write_queueD(1,2) split: if_splits)

lemma each_queue:
  assumes "each f rows d = Inr d'" and "\<And>w d d'. f w d = Inr d' \<Longrightarrow> same_queue d d'"
  shows "same_queue d d'"
  using assms(1)
proof (induction rows arbitrary: d)
  case (Cons w rows)
  then obtain d1 where "f w d = Inr d1" "each f rows d1 = Inr d'" by (auto simp: rbind_ok)
  then show ?case using Cons.IH assms(2) same_queue_trans by blast
qed simp

lemma cancel_stale_queue: "cancel_stale_workflows now d = Inr d' \<Longrightarrow> same_queue d d'"
  unfolding cancel_stale_workflows_def
  by (erule each_queue) (auto simp: same_queue_def cancel_workflow_def Let_def rbind_ok dest!: write_queueD(1,2))

lemma recover_queue: "recover_expired M now d = Inr d' \<Longrightarrow> same_queue d d'"
  unfolding recover_expired_def
  by (erule each_queue) (auto simp: rbind_ok dest!: defer_queue)

lemma evaluate_sched: "sched (snd (evaluate_conditions tv now cs d)) = sched d
    \<and> gates (snd (evaluate_conditions tv now cs d)) = gates d"
proof (induction cs arbitrary: d)
  case (Cons c cs)
  have "sched (set_condition_state c s now d) = sched d \<and> gates (set_condition_state c s now d) = gates d" for s by (simp add: set_condition_state_def)
  then show ?case using Cons.IH by (simp add: Let_def split_beta split: option.split)
qed simp

lemma evaluate_keeps_queue: "keeps_queue d (snd (evaluate_task_conditions i tv now d))"
  using queue_eases_evaluate_task evaluate_sched by (auto simp: keeps_queue_def evaluate_task_conditions_def)

lemma scan_queue: "scan cfg now ws d = Inr (x, d') \<Longrightarrow> keeps_queue d d'"
proof (induction ws arbitrary: d)
  case (Cons w ws)
  obtain go d1 where e: "evaluate_task_conditions (wf_task_id w) (wf_task_version w) now d = (go, d1)"
    by (cases "evaluate_task_conditions (wf_task_id w) (wf_task_version w) now d")
  have k: "keeps_queue d d1" using e evaluate_keeps_queue by (metis snd_conv)
  have "keeps_queue d1 d'"
    using Cons.prems Cons.IH e
    by (auto simp: Let_def rbind_ok split: if_splits option.splits dest!: defer_queue
        intro: keeps_queue_trans [OF same_queue_keeps])
  then show ?case by (rule keeps_queue_trans [OF k])
qed simp

lemma grant_queue:
  "grant_claim sha token now w t p d0 d = Inr (c, d') \<Longrightarrow> d' = d0 \<or> same_queue d d'"
  by (auto simp: same_queue_def grant_claim_def Let_def rbind_ok dest!: write_queueD(1,2) split: if_splits)

lemma claim_queue:
  assumes "claim_tx cfg sha phases token now d = Inr (c, d')"
  shows "keeps_queue d d'"
proof -
  obtain d1 d2 where 1: "cancel_stale_workflows now d = Inr d1" "recover_expired (ec_max_attempts cfg) now d1 = Inr d2"
    using assms by (auto simp: claim_tx_def rbind_ok)
  have k2: "keeps_queue d d2"
    by (rule same_queue_keeps [OF same_queue_trans [OF cancel_stale_queue [OF 1(1)] recover_queue [OF 1(2)]]])
  consider "d' = d2" | found d3 where "scan cfg now (queue phases now d2) d2 = Inr (found, d3)"
      "d' = d3 \<or> d' = d \<or> same_queue d3 d'"
    using assms 1 by (auto simp: claim_tx_def rbind_ok split: if_splits option.splits dest!: grant_queue)
  then show ?thesis
  proof cases
    case 2
    have k3: "keeps_queue d d3" by (rule keeps_queue_trans [OF k2 scan_queue [OF 2(1)]])
    show ?thesis using 2(2) k3 keeps_queue_trans [OF k3 same_queue_keeps] by auto
  qed (use k2 in simp)
qed

lemma gate_queue:
  "apply_start_action local utc i v a now d = Inr (r, d') \<Longrightarrow> same_queue d d'"
  "apply_review_action local utc i v a now d = Inr (r, d') \<Longrightarrow> same_queue d d'"
  "bind_profile i v extra p w ph now d = Inr (r, d') \<Longrightarrow> same_queue d d'"
  "retry_tx i v now d = Inr (r, d') \<Longrightarrow> same_queue d d'"
  subgoal
    by (auto simp: same_queue_def apply_start_action_def Let_def rbind_ok write_queueD(6) split_beta dest!: write_queueD(1,2)
        split: if_splits option.splits)
  subgoal
    by (auto simp: same_queue_def apply_review_action_def Let_def rbind_ok simp del: append_Cons dest!: write_queueD(1,2)
        split: if_splits option.splits)
  subgoal by (auto simp: same_queue_def bind_profile_def rbind_ok dest!: write_queueD(1,2) split: if_splits)
  subgoal by (auto simp: same_queue_def retry_tx_def Let_def rbind_ok dest!: write_queueD(1,2) split: option.splits)
  done

lemma profile_queue:
  "adopt_tx cfg i v now d = Inr (r, d') \<Longrightarrow> same_queue d d'"
  "apply_agent_selection i v p now d = Inr (r, d') \<Longrightarrow> same_queue d d'"
  subgoal by (auto simp: adopt_tx_def Let_def dest!: gate_queue(3) split: if_splits option.splits)
  subgoal
    by (auto simp: apply_agent_selection_def Let_def rbind_ok dest!: gate_queue(3) split: if_splits option.splits)
  done

lemma priority_queue: "set_priority_tx i v a p now d = Inr (r, d') \<Longrightarrow> same_queue d d'"
  by (auto simp: same_queue_def set_priority_tx_def Let_def rbind_ok
      dest!: cancel_stale_queue [unfolded same_queue_def] write_queueD(1,2) split: if_splits option.splits)

lemma worker_queue:
  "renew_tx sha i v token lease now d = Inr (r, d') \<Longrightarrow> same_queue d d'"
  "attach_run_tx sha i v token run now d = Inr (r, d') \<Longrightarrow> same_queue d d'"
  "finish_run_tx M sha i v token rep now d = Inr (r, d') \<Longrightarrow> same_queue d d'"
  subgoal by (auto simp: same_queue_def renew_tx_def Let_def rbind_ok dest!: write_queueD(1,2) split: option.splits)
  subgoal
    by (auto simp: same_queue_def attach_run_tx_def Let_def rbind_ok dest!: write_queueD(1,2) split: if_splits option.splits)
  subgoal
    by (auto simp: same_queue_def finish_run_tx_def Let_def rbind_ok write_queueD(5) split_beta
        dest!: write_queueD(1,2) defer_queue [unfolded same_queue_def] split: option.splits)
  done

lemma place_queue: "place_workflow cfg t row now d = Inr d' \<Longrightarrow> same_queue d d'"
  by (auto simp: same_queue_def place_workflow_def Let_def rbind_ok dest!: write_queueD(1-3) split: option.splits)

lemma schedule_queue: "schedule_tx cfg i v now d = Inr (r, d') \<Longrightarrow> same_queue d d'"
  by (auto simp: schedule_tx_def Let_def rbind_ok dest!: place_queue split: if_splits option.splits)

lemma fresh_queue: "record_fresh cfg v w now d = Inr (r, d') \<Longrightarrow> same_queue d d'"
  by (auto simp: same_queue_def record_fresh_def Let_def rbind_ok split: option.splits if_splits
      dest!: write_queueD(1,2,4))

lemma record_queue: "record_tx cfg sha v now d = Inr (r, d') \<Longrightarrow> same_queue d d'"
  by (auto simp: record_tx_def Let_def rbind_ok dest: fresh_queue dest!: write_queue(2)
      split: option.splits if_splits)

lemma run_tx_queue: "(\<And>r d'. h d = Inr (r, d') \<Longrightarrow> keeps_queue d d') \<Longrightarrow> keeps_queue d (snd (run_tx h d))"
  by (auto simp: run_tx_def split: sum.split)

lemma commit_queue: "(\<And>r d'. h d = Inr (r, d') \<Longrightarrow> same_queue d d') \<Longrightarrow> same_queue d (snd (commit_accepted h d))"
  by (auto simp: commit_accepted_def split: sum.split)

lemma apply_keeps_queue:
  "conditions (snd (apply_task_transition i v a now d)) = conditions d"
  "sched (snd (apply_task_transition i v a now d)) = sched d"
  "gates (snd (apply_task_transition i v a now d)) = gates d"
  by (simp_all add: apply_task_transition_def Let_def insert_task_event_def set_work_state_def
      split: option.split prod.split)

lemma transition_queue: "same_queue d (snd (transition i v a now d))"
  by (simp add: same_queue_def transition_def split_beta Let_def apply_keeps_queue)

lemma request_queue:
  "same_queue d (snd (schedule_task cfg i v now d))"
  "same_queue d (snd (start_action local utc i v a now d))"
  "same_queue d (snd (review_action local utc i v a now d))"
  "same_queue d (snd (select_agent cfg i v p q now d))"
  "same_queue d (snd (adopt_installed_revision cfg i v now d))"
  "same_queue d (snd (retry i v now d))" "same_queue d (snd (set_priority i v a now d))"
  "same_queue d (snd (renew sha i v token lease now d))"
  "same_queue d (snd (attach_run_id sha i v token run now d))"
  "same_queue d (snd (finish_run_claim M sha i v token rep now d))"
  "keeps_queue d (snd (claim_next_workflow cfg sha ps token now d))"
  "keeps_queue d (snd (record_result cfg sha e now d))"
  subgoal by (simp add: schedule_task_def commit_queue [OF schedule_queue])
  subgoal by (simp add: start_action_def commit_queue [OF gate_queue(1)])
  subgoal by (simp add: review_action_def commit_queue [OF gate_queue(2)])
  subgoal by (simp add: select_agent_def commit_queue [OF profile_queue(2)] split: option.split)
  subgoal by (simp add: adopt_installed_revision_def commit_queue [OF profile_queue(1)])
  subgoal by (simp add: retry_def commit_queue [OF gate_queue(4)])
  subgoal by (simp add: set_priority_def commit_queue [OF priority_queue] split: option.split)
  subgoal by (simp add: renew_def commit_queue [OF worker_queue(1)])
  subgoal by (simp add: attach_run_id_def commit_queue [OF worker_queue(2)])
  subgoal by (simp add: finish_run_claim_def commit_queue [OF worker_queue(3)])
  subgoal by (simp add: claim_next_workflow_def run_tx_queue [OF claim_queue] split: sum.split)
  subgoal
    by (simp add: record_result_def run_tx_queue [OF same_queue_keeps [OF record_queue]] split: option.split)
  done

lemma step_queue: "keeps_queue d (snd (exec_step E rq d))"
  by (cases "snd rq") (simp_all add: exec_step_def Let_def split_beta release_def fail_claim_def reply_def
      same_queue_keeps request_queue transition_queue split: option.split)

section \<open>The two services\<close>

datatype sched_request =
    SqApply recommendation
  | SqClaim string int string
  | SqComplete rowid int string string string
  | SqFail rowid int string
  | SqAct rowid int string
  | SqWork exec_request

datatype sched_reply =
    SoApply "exc + sched_apply_result"
  | SoClaim "exc + sched_delivery_claim option"
  | SoAct "exc + sched_action_result"
  | SoDelivery "exc + sched_action_result"
  | SoWork exec_reply

definition sched_step :: "sched_env \<Rightarrow> exec_env \<Rightarrow> time \<times> sched_request \<Rightarrow> db \<Rightarrow> sched_reply \<times> db" where
  "sched_step E X rq d =
     (let now = fst rq in
      case snd rq of
        SqApply r \<Rightarrow> (let (out, d') = sched_apply E r now d in (SoApply out, d'))
      | SqClaim consumer lease token \<Rightarrow>
          (let (out, d') = sched_claim_next E consumer lease token now d in (SoClaim out, d'))
      | SqComplete k v token transport ref \<Rightarrow>
          (let (out, d') = sched_complete_delivery E k v token transport ref now d in (SoDelivery out, d'))
      | SqFail k v token \<Rightarrow> (let (out, d') = sched_fail_delivery E k v token now d in (SoDelivery out, d'))
      | SqAct k v action \<Rightarrow> (let (out, d') = sched_act k v action now d in (SoAct out, d'))
      | SqWork q \<Rightarrow> (let (out, d') = exec_step X (now, q) d in (SoWork out, d')))"

definition sched_env_ok :: "sched_env \<Rightarrow> bool" where
  "sched_env_ok E \<longleftrightarrow> (\<forall>s. length (sn_sha E s) = 64)"

text \<open>A change set is never rewritten but for its state, and none is lost.\<close>

definition set_identity :: "change_set_row \<Rightarrow> rowid \<times> rowid \<times> string \<times> string" where
  "set_identity s = (ss_id s, ss_target_task_id s, ss_research_receipt_id s, ss_recommendation_digest s)"

definition keeps_sets :: "db \<Rightarrow> db \<Rightarrow> bool" where
  "keeps_sets d d' \<longleftrightarrow> (\<exists>xs. map set_identity (change_sets (sched d')) = map set_identity (change_sets (sched d)) @ xs)"

lemma keeps_sets_same: "change_sets (sched d') = change_sets (sched d) \<Longrightarrow> keeps_sets d d'"
  by (simp add: keeps_sets_def)

lemma keeps_sets_trans: "keeps_sets a b \<Longrightarrow> keeps_sets b c \<Longrightarrow> keeps_sets a c"
  by (auto simp: keeps_sets_def)

lemma keeps_sets_state: "change_sets (sched d') = set_state k st now (change_sets (sched d)) \<Longrightarrow> keeps_sets d d'"
  by (auto simp: keeps_sets_def set_state_def update_where_def set_identity_def intro!: exI [of _ "[]"])

text \<open>What every request does: the invariant, cards that move along their machine, change sets that stay.\<close>

definition serves_queue :: "db \<Rightarrow> db \<Rightarrow> bool" where
  "serves_queue d d' \<longleftrightarrow> sched_inv d' \<and> cards_follow d d' \<and> keeps_sets d d'"

lemma serves_queue_refl: "sched_inv d \<Longrightarrow> serves_queue d d"
  by (simp add: serves_queue_def keeps_sets_same)

lemma serves_queue_trans: "serves_queue a b \<Longrightarrow> serves_queue b c \<Longrightarrow> serves_queue a c"
  unfolding serves_queue_def using cards_follow_trans keeps_sets_trans by blast

lemma delivers_serves: "delivers d d' \<Longrightarrow> serves_queue d d'"
  by (auto simp: delivers_def serves_queue_def dest: only_reviewsD intro: keeps_sets_same)

lemma apply_serves:
  assumes inv: "sched_inv d" and app: "sched_apply E r now d = (out, d')"
  shows "serves_queue d d'"
proof -
  have "keeps_sets d d'"
    using app
  proof (cases rule: sched_apply_cases)
    case (applied doc t w ef d1 res)
    then have "sched_change r w now d = Inr (Inr (ef, d1))" "store_change E r doc w ef now d1 = Inr (res, d')"
      by (simp_all add: applied_change_def)
    then show ?thesis using store_change_effect(3) sched_change_frame(2) by (simp add: keeps_sets_def)
  qed (simp add: keeps_sets_same)
  then show ?thesis using apply_ok [OF inv app] by (simp add: serves_queue_def)
qed

lemma act_serves:
  assumes inv: "sched_inv d" and act: "sched_act k v action now d = (out, d')"
  shows "serves_queue d d'"
proof -
  have "keeps_sets d d'"
    using inv act
  proof (cases rule: sched_act_cases)
    case (conflict c s)
    then show ?thesis by (intro keeps_sets_state) (simp add: record_conflict_def)
  next
    case (keep c)
    then have c: "c \<in> set (sched_cards (sched d))" "rc_id c = k" using sched_cards_mem [OF inv] by blast+
    obtain d2 where "resolve_sched_card c (rc_version c + 1) ''keep'' now d = Inr d2" "delivers d d2"
      by (rule resolve_ok [OF inv c(1) keep(2)])
    then show ?thesis using keep delivers_serves by (auto simp: serves_queue_def)
  next
    case (undo c s d1)
    note inv1 = undo_set_ok(1) [OF inv undo(7)] and ef = undo_set_effect [OF undo(7)]
    have c: "c \<in> set (sched_cards (sched d1))" using sched_cards_mem(1) [OF inv undo(1)] ef(2) by simp
    obtain d2 where "resolve_sched_card c (rc_version c + 1) ''undo'' now d1 = Inr d2" "delivers d1 d2"
      by (rule resolve_ok [OF inv1 c undo(3)])
    then have "keeps_sets d1 d'" using undo delivers_serves by (auto simp: serves_queue_def)
    then show ?thesis using keeps_sets_trans [OF keeps_sets_state [OF ef(4)]] by blast
  qed (simp add: keeps_sets_same)
  then show ?thesis using act_ok [OF inv act] by (simp add: serves_queue_def)
qed

lemma claim_delivers:
  assumes inv: "sched_inv d" and E: "sched_env_ok E"
  shows "delivers d (snd (sched_claim_next E consumer lease token now d))"
proof (cases "lower_hex 64 consumer")
  case True
  then have u: "length consumer = 64" by (simp add: lower_hex_def)
  obtain found d' where tx: "sched_claim_tx E consumer lease token now d = Inr (found, d')" "delivers d d'"
    by (rule sched_claim_ok [OF inv _ u]) (use E in \<open>auto simp: sched_env_ok_def\<close>)
  then show ?thesis using delivers_refl [OF inv] tx(2)
    by (cases found) (auto simp: sched_claim_next_def run_tx_def)
qed (use delivers_refl [OF inv] in \<open>simp add: sched_claim_next_def\<close>)

lemma complete_delivers:
  assumes inv: "sched_inv d"
  shows "delivers d (snd (sched_complete_delivery E k v token transport ref now d))"
proof -
  obtain r d' where "complete_delivery_tx E k v token transport ref now d = Inr (r, d')" "delivers d d'"
    by (rule complete_delivery_ok [OF inv])
  then show ?thesis using delivers_refl [OF inv]
    by (simp add: sched_complete_delivery_def run_tx_def)
qed

lemma fail_delivers:
  assumes inv: "sched_inv d"
  shows "delivers d (snd (sched_fail_delivery E k v token now d))"
proof -
  obtain r d' where "finish_delivery (sched_card_of k d) k v (sn_sha E token) (sched_returned now) RevFailed (v + 1) now d
      = Inr (r, d')" "delivers d d'"
    by (rule fail_delivery_ok [OF inv])
  then show ?thesis using delivers_refl [OF inv]
    by (simp add: sched_fail_delivery_def run_tx_def)
qed

lemma keeps_queue_serves: "sched_inv d \<Longrightarrow> keeps_queue d d' \<Longrightarrow> serves_queue d d'"
  by (auto simp: serves_queue_def keeps_queue_def intro: keeps_queue_inv cards_follow_same keeps_sets_same)

lemma sched_step_serves:
  assumes inv: "sched_inv d" and E: "sched_env_ok E"
  shows "serves_queue d (snd (sched_step E X rq d))"
proof (cases "snd rq")
  case (SqApply r)
  then show ?thesis using apply_serves [OF inv prod.collapse [symmetric], of E r "fst rq"]
    by (simp add: sched_step_def Let_def split_beta)
next
  case (SqAct k v action)
  then show ?thesis using act_serves [OF inv prod.collapse [symmetric], of k v action "fst rq"]
    by (simp add: sched_step_def Let_def split_beta)
next
  case (SqWork q)
  then show ?thesis using keeps_queue_serves [OF inv step_queue] by (simp add: sched_step_def Let_def split_beta)
qed (simp_all add: sched_step_def Let_def split_beta delivers_serves claim_delivers [OF inv E]
  complete_delivers [OF inv] fail_delivers [OF inv])

lemma sched_run_serves:
  assumes "sched_inv d" and E: "sched_env_ok E"
  shows "serves_queue d (snd (run_ops (sched_step E X) rqs d))"
  using assms(1)
proof (induction rqs arbitrary: d)
  case (Cons rq rqs)
  have s: "serves_queue d (snd (sched_step E X rq d))" by (rule sched_step_serves [OF Cons.prems E])
  then have "sched_inv (snd (sched_step E X rq d))" by (simp add: serves_queue_def)
  then show ?case using serves_queue_trans [OF s Cons.IH] by simp
qed (simp add: serves_queue_refl)

text \<open>The requests of the consumer that shows the cards.\<close>

definition is_delivery :: "sched_request \<Rightarrow> bool" where
  "is_delivery rq \<longleftrightarrow> (case rq of SqClaim u l t \<Rightarrow> True | SqComplete k v t x r \<Rightarrow> True | SqFail k v t \<Rightarrow> True | _ \<Rightarrow> False)"

lemma delivery_run_delivers:
  assumes "sched_inv d" and E: "sched_env_ok E" and "list_all (\<lambda>rq. is_delivery (snd rq)) rqs"
  shows "delivers d (snd (run_ops (sched_step E X) rqs d))"
  using assms(1,3)
proof (induction rqs arbitrary: d)
  case (Cons rq rqs)
  have s: "delivers d (snd (sched_step E X rq d))"
    using Cons.prems claim_delivers [OF _ E] complete_delivers fail_delivers
    by (cases "snd rq") (simp_all add: is_delivery_def sched_step_def Let_def split_beta)
  then have "sched_inv (snd (sched_step E X rq d))" by (simp add: delivers_def)
  then show ?case using delivers_trans [OF s Cons.IH] Cons.prems(2) by simp
qed (simp add: delivers_refl)

section \<open>The interface\<close>

definition reviews :: "time \<times> sched_request \<Rightarrow> rowid option" where
  "reviews rq = (case snd rq of SqAct k v action \<Rightarrow> Some k | _ \<Rightarrow> None)"

definition review_taken :: "sched_reply \<Rightarrow> bool" where
  "review_taken out = (case out of SoAct (Inr r) \<Rightarrow> sa_disposition r = SdApplied | _ \<Rightarrow> False)"

definition review_closed :: "rowid \<Rightarrow> db \<Rightarrow> bool" where
  "review_closed k d \<longleftrightarrow> map_option rc_status (sched_card_of k d) = Some ScResolved"

lemma act_closes:
  assumes inv: "sched_inv d" and act: "sched_act k v action now d = (Inr r, d')" and r: "sa_disposition r = SdApplied"
  shows "review_closed k d'" and "map_option rc_status (sched_card_of k d) = Some ScDelivered"
proof -
  have "review_closed k d' \<and> map_option rc_status (sched_card_of k d) = Some ScDelivered"
    using inv act
  proof (cases rule: sched_act_cases)
    case (keep c)
    then have c: "c \<in> set (sched_cards (sched d))" "rc_id c = k" using sched_cards_mem [OF inv] by blast+
    obtain d2 where "resolve_sched_card c (rc_version c + 1) ''keep'' now d = Inr d2"
      "sched_card_of (rc_id c) d2 = Some (answered (rc_version c + 1) ''keep'' now c)"
      by (rule resolve_ok [OF inv c(1) keep(2)])
    then show ?thesis using keep c(2) by (simp add: review_closed_def answered_def)
  next
    case (undo c s d1)
    note inv1 = undo_set_ok(1) [OF inv undo(7)] and ef = undo_set_effect [OF undo(7)]
    have c: "c \<in> set (sched_cards (sched d1))" "rc_id c = k" using sched_cards_mem(1,2) [OF inv undo(1)] ef(2) by simp_all
    obtain d2 where "resolve_sched_card c (rc_version c + 1) ''undo'' now d1 = Inr d2"
      "sched_card_of (rc_id c) d2 = Some (answered (rc_version c + 1) ''undo'' now c)"
      by (rule resolve_ok [OF inv1 c(1) undo(3)])
    then show ?thesis using undo c(2) by (simp add: review_closed_def answered_def)
  qed (use r in \<open>auto simp: sa_refused_def\<close>)
  then show "review_closed k d'" "map_option rc_status (sched_card_of k d) = Some ScDelivered" by simp_all
qed

interpretation schedule_reviews: once_op "sched_step E X" review_taken reviews review_closed
  "\<lambda>d. sched_env_ok E \<and> sched_inv d" for E X
proof unfold_locales
  fix d :: db and r :: "time \<times> sched_request" and k assume ok: "sched_env_ok E \<and> sched_inv d"
  then have s: "serves_queue d (snd (sched_step E X r d))" using sched_step_serves by blast
  then show "sched_env_ok E \<and> sched_inv (snd (sched_step E X r d))" using ok by (simp add: serves_queue_def)
  have taken: "reviews r = Some k \<Longrightarrow> review_taken (fst (sched_step E X r d)) \<Longrightarrow>
      \<exists>v a x. sched_act k v a (fst r) d = (Inr x, snd (sched_step E X r d)) \<and> sa_disposition x = SdApplied"
    by (cases "snd r") (auto 0 4 simp: sched_step_def Let_def split_beta reviews_def review_taken_def prod_eq_iff split: sum.splits)
  show "reviews r = Some k \<Longrightarrow> review_taken (fst (sched_step E X r d)) \<Longrightarrow> review_closed k (snd (sched_step E X r d))"
    using taken act_closes(1) ok by blast
  show "reviews r = Some k \<Longrightarrow> review_closed k d \<Longrightarrow> \<not> review_taken (fst (sched_step E X r d))"
    using taken act_closes(2) ok by (fastforce simp: review_closed_def)
  show "review_closed k d \<Longrightarrow> review_closed k (snd (sched_step E X r d))"
    using s by (fastforce simp: review_closed_def serves_queue_def cards_follow_def card_follows_def)
qed

text \<open>A recommendation is known by its receipt and the digest of its document.\<close>

definition applies :: "sched_env \<Rightarrow> time \<times> sched_request \<Rightarrow> (string \<times> string) option" where
  "applies E rq = (case snd rq of
     SqApply r \<Rightarrow> map_option (\<lambda>doc. (rm_research_receipt_id r, sn_sha E (document_text doc))) (recommendation_document r)
   | _ \<Rightarrow> None)"

definition newly_applied :: "sched_reply \<Rightarrow> bool" where
  "newly_applied out = (case out of SoApply (Inr r) \<Rightarrow> pa_disposition r = SdApplied | _ \<Rightarrow> False)"

definition change_known :: "string \<times> string \<Rightarrow> db \<Rightarrow> bool" where
  "change_known key d \<longleftrightarrow> known_change (fst key) (snd key) d \<noteq> None"

lemma change_known_iff:
  "change_known key d \<longleftrightarrow> key \<in> (\<lambda>(k, i, receipt, digest). (receipt, digest)) ` set (map set_identity (change_sets (sched d)))"
  by (force simp: change_known_def known_change_def find_None_iff set_identity_def image_iff)

lemma sets_stay_known: "keeps_sets d d' \<Longrightarrow> change_known key d \<Longrightarrow> change_known key d'"
  unfolding change_known_iff keeps_sets_def by (elim exE) (simp only: set_append image_Un Un_iff simp_thms)

lemma applied_is_known:
  assumes "applied_change E r now d doc t w ef d1 res d'"
  shows "change_known (rm_research_receipt_id r, sn_sha E (document_text doc)) d'"
proof -
  have "store_change E r doc w ef now d1 = Inr (res, d')" using assms by (simp add: applied_change_def)
  then show ?thesis using store_change_effect(3)
    by (auto simp: change_known_iff set_identity_def change_set_row_of_def)
qed

lemma applied_document: "applied_change E r now d doc t w ef d1 res d' \<Longrightarrow> recommendation_document r = Some doc"
  by (simp add: applied_change_def)

interpretation recommendations: once_op "sched_step E X" newly_applied "applies E" change_known
  "\<lambda>d. sched_env_ok E \<and> sched_inv d" for E X
proof unfold_locales
  fix d :: db and r :: "time \<times> sched_request" and k assume ok: "sched_env_ok E \<and> sched_inv d"
  then have s: "serves_queue d (snd (sched_step E X r d))" using sched_step_serves by blast
  then show "sched_env_ok E \<and> sched_inv (snd (sched_step E X r d))" using ok by (simp add: serves_queue_def)
  have new: "\<exists>doc t w ef d1 res. applied_change E q (fst r) d doc t w ef d1 res (snd (sched_step E X r d))"
    if "snd r = SqApply q" "newly_applied (fst (sched_step E X r d))" for q
  proof -
    obtain out d' where o: "sched_apply E q (fst r) d = (out, d')" by (cases "sched_apply E q (fst r) d")
    then have "sched_step E X r d = (SoApply out, d')" using that by (simp add: sched_step_def Let_def)
    then have out: "snd (sched_step E X r d) = d'" "out = Inr res \<Longrightarrow> pa_disposition res = SdApplied" for res
      using that(2) by (auto simp: newly_applied_def split: sum.splits)
    have some: "\<exists>res. out = Inr res" using that(2) \<open>sched_step E X r d = (SoApply out, d')\<close>
      by (auto simp: newly_applied_def split: sum.splits)
    show ?thesis using o
    proof (cases rule: sched_apply_cases)
      case (applied doc t w ef d1 res)
      then show ?thesis using out(1) by blast
    qed (use out some in auto)
  qed
  show "applies E r = Some k \<Longrightarrow> newly_applied (fst (sched_step E X r d)) \<Longrightarrow> change_known k (snd (sched_step E X r d))"
    using new applied_is_known applied_document by (fastforce simp: applies_def split: sched_request.splits)
  show "applies E r = Some k \<Longrightarrow> change_known k d \<Longrightarrow> \<not> newly_applied (fst (sched_step E X r d))"
    using new by (auto simp: applies_def applied_change_def change_known_def split: sched_request.splits)
  show "change_known k d \<Longrightarrow> change_known k (snd (sched_step E X r d))"
    using s sets_stay_known [of d "snd (sched_step E X r d)" k] by (simp add: serves_queue_def)
qed

end
