(* ===== verification/SchedProps.thy ===== *)
theory SchedProps
  imports SchedService ExecSamples
begin

text \<open>
  The properties of the scheduling service, alone and with the workers of the execution service
  running on the same tables.
\<close>

section \<open>The graph\<close>

definition longest_chain :: "edges \<Rightarrow> nat" where
  "longest_chain g = Max {j. \<exists>n m. (n, m) \<in> set g ^^ j}"

lemma longest_chain_depth:
  assumes "dependency_depth g = Some k"
  shows "longest_chain g = k"
  unfolding longest_chain_def
proof (rule Max_eqI)
  have "{j. \<exists>n m. (n, m) \<in> set g ^^ j} \<subseteq> {..k}" using dependency_depth_Some(1) [OF assms] by blast
  then show "finite {j. \<exists>n m. (n, m) \<in> set g ^^ j}" by (rule finite_subset) simp
qed (use dependency_depth_Some [OF assms] in auto)

text \<open>C21: The search of the code is exact.  It reports a cycle exactly when the tasks wait for each other
  in a circle, and otherwise it returns the length of the longest chain of waiting tasks, however
  the graph branches and in whatever order its nodes are visited.\<close>

theorem dependency_search_is_exact:
  "dependency_depth g = (if acyclic (set g) then Some (longest_chain g) else None)"
  using dependency_depth_None [of g] longest_chain_depth [of g] by (cases "dependency_depth g") auto

section \<open>The queue stays bounded\<close>

text \<open>C16: The queue can always be served.  Whatever recommendations, answers, deliveries and worker
  requests come, in any order, no task ever waits for itself, even through others; no chain of
  waiting tasks is longer than eight; and no task has more than three conditions that count, two of
  them on other tasks and one on time.\<close>

theorem queue_stays_bounded:
  assumes "sched_inv d" and "sched_env_ok E" and "d' = snd (run_ops (sched_step E X) rqs d)"
  shows "acyclic (waits_for d') \<and> ((n, m) \<in> waits_for d' ^^ j \<longrightarrow> j \<le> MAX_DEPENDENCY_DEPTH)
    \<and> length (live_conditions i d') \<le> MAX_ACTIVE_CONDITIONS
    \<and> length (filter is_dependency (live_conditions i d')) \<le> MAX_PREREQUISITE_EDGES
    \<and> length (filter (\<lambda>c. \<not> is_dependency c) (live_conditions i d')) \<le> 1"
proof -
  have "sched_inv d'" using sched_run_serves [OF assms(1,2)] by (simp add: assms(3) serves_queue_def)
  then have q: "queue_ok d'" by (rule sched_invD(1))
  show ?thesis using queue_okD(2,3) [OF q] by (auto simp: within_limits_def chains_within_def)
qed

section \<open>Answers and recommendations\<close>

text \<open>C19: A review card of the scheduling service is answered once.  Of all the answers that are sent for a
  card, in any sequence of requests to both services, at most one is applied.\<close>

theorem schedule_review_answered_once:
  assumes "sched_env_ok E" and "sched_inv d" and "m < n" and "n < length rqs"
    and "reviews (rqs ! m) = Some k" and "reviews (rqs ! n) = Some k"
    and "review_taken (fst (run_ops (sched_step E X) rqs d) ! m)"
  shows "\<not> review_taken (fst (run_ops (sched_step E X) rqs d) ! n)"
  by (rule schedule_reviews.accepted_at_most_once) (use assms in auto)

text \<open>C18: A recommendation changes the queue once.  Of all the recommendations with the same research
  receipt and the same document, at most one is applied, whatever happens between them; undoing the
  change does not let the recommendation in again.\<close>

theorem recommendation_applied_once:
  assumes "sched_env_ok E" and "sched_inv d" and "m < n" and "n < length rqs"
    and "applies E (rqs ! m) = Some key" and "applies E (rqs ! n) = Some key"
    and "newly_applied (fst (run_ops (sched_step E X) rqs d) ! m)"
  shows "\<not> newly_applied (fst (run_ops (sched_step E X) rqs d) ! n)"
  by (rule recommendations.accepted_at_most_once) (use assms in auto)

section \<open>Priorities\<close>

definition priority_state :: "rowid \<Rightarrow> db \<Rightarrow> (workflow_priority \<times> string option) option" where
  "priority_state i d = map_option (\<lambda>w. (wf_priority w, wf_priority_source w)) (workflow_of i d)"

lemma priority_state_append: "priority_state i d = Some p \<Longrightarrow> workflows d' = workflows d @ ws \<Longrightarrow> priority_state i d' = Some p"
  by (auto simp: priority_state_def find_append)

lemma priority_state_update:
  assumes "update_workflows hit f d = Inr (n, d')" and "\<And>w. wf_task_id (f w) = wf_task_id w"
    and "\<And>w. workflow_of i d = Some w \<Longrightarrow> hit w \<Longrightarrow>
      wf_priority (f w) = wf_priority w \<and> wf_priority_source (f w) = wf_priority_source w"
  shows "priority_state i d' = priority_state i d"
proof -
  have "workflows d' = update_where hit f (workflows d)" using assms(1) by (auto simp: update_workflows_def split: if_splits)
  then have "workflow_of i d' = map_option (\<lambda>r. if hit r then f r else r) (workflow_of i d)"
    using find_update_where [of wf_task_id f] assms(2) by simp
  then show ?thesis using assms(3) by (cases "workflow_of i d") (simp_all add: priority_state_def)
qed

lemma workflow_of_id: "workflow_of i d = Some w \<Longrightarrow> wf_task_id w = i"
  by (rule row_of_key)

lemma priority_state_same: "workflows d' = workflows d \<Longrightarrow> priority_state i d' = priority_state i d"
  by (simp add: priority_state_def)

definition by_reader :: "workflow_priority \<times> string option \<Rightarrow> bool" where
  "by_reader p \<longleftrightarrow> p \<noteq> (PrioNormal, None) \<and> snd p \<noteq> Some ''automation''"

lemma applied_priority:
  assumes a: "applied_change E r now d doc t w ef d1 res d'" and p: "priority_state i d = Some p"
  shows "if rm_kind r = SkRaisePriority \<and> i = rm_target_task_id r
    then p = (PrioNormal, None) \<and> ef_prior_priority ef = Some PrioNormal \<and> wf_priority_source w = None
    else priority_state i d' = Some p"
proof -
  have w: "workflow_of (rm_target_task_id r) d = Some w" and change: "sched_change r w now d = Inr (Inr (ef, d1))"
    and store: "store_change E r doc w ef now d1 = Inr (res, d')" using a by (simp_all add: applied_change_def)
  have last: "priority_state i d' = priority_state i d1"
    using store_change_effect(7) [OF store] by (simp add: priority_state_def)
  show ?thesis
    using change
  proof (cases rule: sched_change_cases)
    case (raised d2)
    have "priority_state i d2 = priority_state i d" if "i \<noteq> rm_target_task_id r"
    proof -
      have "wf_task_id x \<noteq> rm_target_task_id r" if "workflow_of i d = Some x" for x
        using workflow_of_id [OF that] \<open>i \<noteq> rm_target_task_id r\<close> by simp
      then show ?thesis by (intro priority_state_update [OF raised(5)]) (simp_all add: at_version_def)
    qed
    then show ?thesis using raised(1-4) priority_event_frame [OF raised(6)] w p last by (auto simp: priority_state_def)
  next
    case (created k body)
    then show ?thesis using create_prerequisite_effect(5) priority_state_append [OF p] last by simp
  qed (use p last in simp_all)
qed

lemma apply_keeps_priority:
  assumes app: "sched_apply E r now d = (out, d')" and p: "priority_state i d = Some p" "by_reader p"
  shows "priority_state i d' = Some p"
  using app
proof (cases rule: sched_apply_cases)
  case (applied doc t w ef d1 res)
  then show ?thesis using applied_priority [OF applied(2) p(1)] p(2) by (auto simp: by_reader_def split: if_splits)
qed (use p in simp)

lemma cancel_workflow_priority:
  assumes "cancel_prerequisite_workflow k w now d = Inr d'"
  shows "priority_state i d' = priority_state i d"
proof -
  obtain d1 n d2 where d: "cancel_prerequisite_cards k (wf_version w) now d = Inr d1"
    "update_workflows (at_version k (wf_version w)) (\<lambda>x. x\<lparr>wf_status := WfCancelled, wf_version := wf_version w + 1,
       wf_updated_at := now, wf_completed_at := Some now\<rparr>) d1 = Inr (n, d2)" "workflows d' = workflows d2"
    using assms by (auto simp: cancel_prerequisite_workflow_def rbind_Inr_iff dest!: insert_events_frame)
  have "priority_state i d2 = priority_state i d1" by (rule priority_state_update [OF d(2)]) simp_all
  then show ?thesis using cancel_cards_frame [OF d(1)] d(3) priority_state_same by metis
qed

lemma drop_task_workflows [simp]: "priority_state i (drop_prerequisite_task k now d) = priority_state i d"
  by (simp add: priority_state_def drop_prerequisite_task_def insert_task_event_def)

lemma drop_priority:
  assumes "drop_prerequisite s now d = Inr d'"
  shows "priority_state i d' = priority_state i d"
proof (cases "ss_created_task_id s")
  case None
  then show ?thesis using assms by (simp add: drop_prerequisite_def)
next
  case (Some k)
  then obtain d1 where d1: "(case workflow_of k d of None \<Rightarrow> Inr d | Some w \<Rightarrow> cancel_prerequisite_workflow k w now d) = Inr d1"
    "d' = drop_prerequisite_task k now d1"
    using assms by (auto simp: drop_prerequisite_def rbind_Inr_iff)
  show ?thesis
  proof (cases "workflow_of k d")
    case None
    then show ?thesis using d1 by simp
  next
    case (Some w)
    then have "cancel_prerequisite_workflow k w now d = Inr d1" using d1(1) by simp
    then show ?thesis using cancel_workflow_priority d1(2) by simp
  qed
qed

lemma undo_priority:
  assumes u: "undo_set c s now d = Inr d'" and ok: "\<not> undo_conflict c s d"
  shows "if ss_kind s = SkRaisePriority \<and> i = rc_task_id c
    then priority_state i d = Some (PrioRaised, Some ''automation'')
      \<and> (\<exists>q. ss_prior_priority s = Some q \<and> priority_state i d' = Some (q, ss_prior_priority_source s))
    else priority_state i d' = priority_state i d"
proof -
  let ?d0 = "cancel_conditions (rc_change_set_id c) now d" and ?i = "rc_task_id c" and ?v = "ss_resulting_workflow_version s"
  obtain d1 d2 where d: "restore_priority c s now ?d0 = Inr d1" "drop_prerequisite s now d1 = Inr d2"
    "workflows d' = workflows d2"
    using u by (auto simp: undo_set_def rbind_Inr_iff)
  have last: "priority_state i d' = priority_state i d1"
    using drop_priority [OF d(2)] d(3) by (simp add: priority_state_def)
  show ?thesis
  proof (cases "ss_kind s = SkRaisePriority")
    case True
    obtain q n d3 where 1: "ss_prior_priority s = Some q" "update_workflows (at_version ?i ?v)
        (\<lambda>x. x\<lparr>wf_priority := q, wf_priority_source := ss_prior_priority_source s, wf_version := ?v + 1,
           wf_updated_at := now\<rparr>) ?d0 = Inr (n, d3)"
      "execution_priority_event ?i (?v + 1) ''priority_cleared'' now d3 = Inr d1"
      using d(1) True by (auto simp: restore_priority_def Let_def rbind_Inr_iff split: option.splits)
    obtain x where x: "workflow_of ?i d = Some x" "wf_version x = ?v" "wf_priority x = PrioRaised"
      "wf_priority_source x = Some ''automation''"
      using ok True by (auto simp: undo_conflict_def split: option.splits)
    have rows: "workflows d3 = update_where (at_version ?i ?v) (\<lambda>x. x\<lparr>wf_priority := q,
        wf_priority_source := ss_prior_priority_source s, wf_version := ?v + 1, wf_updated_at := now\<rparr>) (workflows d)"
      using 1(2) by (auto simp: update_workflows_def split: if_splits)
    have "priority_state i d3 = (if i = ?i then Some (q, ss_prior_priority_source s) else priority_state i d)"
    proof (cases "workflow_of i d")
      case (Some y)
      then have "at_version ?i ?v y \<longleftrightarrow> i = ?i"
        using x(1,2) workflow_of_id [OF Some] by (auto simp: at_version_def)
      then show ?thesis using Some rows by (simp add: priority_state_def find_update_where)
    next
      case None
      then show ?thesis using x(1) rows by (auto simp: priority_state_def find_update_where)
    qed
    then show ?thesis using True x 1(1) priority_event_frame [OF 1(3)] last by (auto simp: priority_state_def)
  qed (use d(1) last in \<open>auto simp: restore_priority_def priority_state_def\<close>)
qed

lemma undo_keeps_priority:
  assumes u: "undo_set c s now d = Inr d'" and ok: "\<not> undo_conflict c s d"
    and p: "priority_state i d = Some p" "by_reader p"
  shows "priority_state i d' = Some p"
  using undo_priority [OF u ok, of i] p by (auto simp: by_reader_def split: if_splits)

lemma act_keeps_priority:
  assumes inv: "sched_inv d" and act: "sched_act k v action now d = (out, d')"
    and p: "priority_state i d = Some p" "by_reader p"
  shows "priority_state i d' = Some p"
  using inv act
proof (cases rule: sched_act_cases)
  case (conflict c s)
  then show ?thesis using p by (simp add: priority_state_def record_conflict_def)
next
  case (keep c)
  then have "workflows d' = workflows d" by (auto simp: resolve_sched_card_def rbind_Inr_iff update_sched_cards_def split: if_splits)
  then show ?thesis using p priority_state_same by metis
next
  case (undo c s d1)
  then have "workflows d' = workflows d1" by (auto simp: resolve_sched_card_def rbind_Inr_iff update_sched_cards_def split: if_splits)
  then show ?thesis using undo_keeps_priority [OF undo(7,6) p] priority_state_same by metis
qed (use p in simp)

text \<open>C20: Automation never overrides the reader.  No recommendation, no answer to one and no delivery
  touches a priority that the reader has set or that anything but the automation has raised; undo
  takes back only what the automation raised itself.\<close>

theorem reader_priority_stands:
  assumes "sched_inv d" and "sched_env_ok E" and "priority_state i d = Some p" and "by_reader p"
    and "\<And>q. snd rq \<noteq> SqWork q"
  shows "priority_state i (snd (sched_step E X rq d)) = Some p"
proof (cases "is_delivery (snd rq)")
  case True
  then have "delivers d (snd (run_ops (sched_step E X) [rq] d))"
    using delivery_run_delivers [OF assms(1,2), of "[rq]" X] by simp
  then have "only_reviews d (snd (sched_step E X rq d))" by (simp add: delivers_def)
  then show ?thesis using assms(3) only_reviewsD(4) priority_state_same by metis
next
  case False
  then show ?thesis
    using apply_keeps_priority [OF prod.collapse [symmetric] assms(3,4)]
      act_keeps_priority [OF assms(1) prod.collapse [symmetric] assms(3,4)] assms(5)
    by (cases "snd rq") (fastforce simp: is_delivery_def sched_step_def Let_def split_beta)+
qed

section \<open>Undo\<close>

definition known_sets :: "db \<Rightarrow> bool" where
  "known_sets d \<longleftrightarrow> list_all (\<lambda>c. sc_change_set_id c \<in> ss_id ` set (change_sets (sched d))) (conditions d)"

lemma known_sets_fresh:
  assumes "known_sets d" and "c \<in> set (conditions d)"
  shows "sc_change_set_id c \<noteq> next_id ss_id (change_sets (sched d))"
proof -
  obtain s where "s \<in> set (change_sets (sched d))" "ss_id s = sc_change_set_id c"
    using assms by (auto simp: known_sets_def list_all_iff)
  then show ?thesis using next_id_fresh [of s "change_sets (sched d)" ss_id] by simp
qed

text \<open>The change set and the card of a change that was applied, as long as only its card is delivered.\<close>

lemma applied_rows:
  assumes inv: "sched_inv d" and a: "applied_change E r now d doc t w ef d0 res d1"
  shows "pa_card_id res = Some (next_id rc_id (sched_cards (sched d)))" and "pa_created_task_id res = ef_created ef"
    and "sched_card_of (next_id rc_id (sched_cards (sched d))) d1 = Some (sched_card_for
      (next_id rc_id (sched_cards (sched d))) (next_id ss_id (change_sets (sched d))) (rm_target_task_id r) now)"
    and "change_set_of (next_id ss_id (change_sets (sched d))) d1 = Some (change_set_row_of r doc
      (sn_sha E (document_text doc)) w ef now (next_id ss_id (change_sets (sched d))))"
proof -
  have change: "sched_change r w now d = Inr (Inr (ef, d0))" and store: "store_change E r doc w ef now d0 = Inr (res, d1)"
    using a by (simp_all add: applied_change_def)
  note fr = sched_change_frame(2) [OF change]
  note st = store_change_effect [OF store, unfolded fr]
  show "pa_card_id res = Some (next_id rc_id (sched_cards (sched d)))" "pa_created_task_id res = ef_created ef"
    using st(11) by simp_all
  have inv1: "sched_inv d1" by (rule applied_ok(1) [OF inv a])
  show "sched_card_of (next_id rc_id (sched_cards (sched d))) d1 = Some (sched_card_for
      (next_id rc_id (sched_cards (sched d))) (next_id ss_id (change_sets (sched d))) (rm_target_task_id r) now)"
    using row_of_unique [OF sched_invD(4) [OF inv1]] by (simp add: st(4))
  show "change_set_of (next_id ss_id (change_sets (sched d))) d1 = Some (change_set_row_of r doc
      (sn_sha E (document_text doc)) w ef now (next_id ss_id (change_sets (sched d))))"
    using row_of_unique [OF sched_invD(5) [OF inv1]] by (simp add: st(3) change_set_row_of_def)
qed

lemma undo_conditions:
  assumes "undo_set c s now d = Inr d'"
  shows "conditions d' = update_where (\<lambda>x. in_change_set (rc_change_set_id c) x \<and> sc_state x \<in> {CondActive, CondSatisfied, CondNeedsReview})
    (\<lambda>x. x\<lparr>sc_state := CondCanceled, sc_updated_at := now\<rparr>) (conditions d)"
proof -
  obtain d1 d2 where d: "restore_priority c s now (cancel_conditions (rc_change_set_id c) now d) = Inr d1"
    "drop_prerequisite s now d1 = Inr d2" "conditions d' = conditions d2"
    using assms by (auto simp: undo_set_def rbind_Inr_iff)
  have "conditions d2 = conditions (cancel_conditions (rc_change_set_id c) now d)"
    using restore_priority_frame [OF d(1)] drop_prerequisite_frame [OF d(2)] by simp
  then show ?thesis by (simp add: d(3) cancel_conditions_def Let_def)
qed

text \<open>Cancelling the conditions of a new change set leaves those that count as they were.\<close>

lemma cancelled_live:
  assumes old: "conditions d1 = conditions d @ new" and K: "\<And>c. c \<in> set (conditions d) \<Longrightarrow> sc_change_set_id c \<noteq> K"
    and new: "\<And>c. c \<in> set new \<Longrightarrow> sc_change_set_id c = K"
    and d': "conditions d' = update_where (\<lambda>x. in_change_set K x \<and> sc_state x \<in> {CondActive, CondSatisfied, CondNeedsReview})
      (\<lambda>x. x\<lparr>sc_state := CondCanceled, sc_updated_at := now\<rparr>) (conditions d1)"
  shows "live_conditions j d' = live_conditions j d"
proof -
  let ?u = "update_where (\<lambda>x. in_change_set K x \<and> sc_state x \<in> {CondActive, CondSatisfied, CondNeedsReview})
    (\<lambda>x. x\<lparr>sc_state := CondCanceled, sc_updated_at := now\<rparr>)"
  have "?u (conditions d) = conditions d" by (rule update_where_none) (use K in \<open>auto simp: in_change_set_def\<close>)
  then have "conditions d' = conditions d @ ?u new" by (simp add: d' old update_where_append)
  moreover have "\<not> live_condition c" if c: "c \<in> set (?u new)" for c
    using c by (rule update_whereE) (auto dest: new simp: live_condition_def in_change_set_def split: if_splits)
  then have "filter (\<lambda>c. sc_task_id c = j \<and> live_condition c) (?u new) = []" by (auto simp: filter_empty_conv)
  ultimately show ?thesis by (simp add: live_conditions_def)
qed

lemma applied_conditions:
  assumes a: "applied_change E r now d doc t w ef d0 res d1"
  obtains new where "conditions d1 = conditions d @ new"
    and "\<And>c. c \<in> set new \<Longrightarrow> sc_change_set_id c = next_id ss_id (change_sets (sched d))"
proof -
  have change: "sched_change r w now d = Inr (Inr (ef, d0))" and store: "store_change E r doc w ef now d0 = Inr (res, d1)"
    using a by (simp_all add: applied_change_def)
  show thesis
    by (rule that [OF store_change_effect(1) [OF store, unfolded sched_change_frame [OF change]]])
      (auto simp: new_condition_def sched_change_frame [OF change] split: option.splits)
qed

lemma applied_tasks:
  assumes a: "applied_change E r now d doc t w ef d0 res d1"
  shows "case ef_created ef of None \<Rightarrow> tasks d1 = tasks d
    | Some k \<Rightarrow> k = next_id tk_id (tasks d) \<and> (\<exists>body. tasks d1 = tasks d @ [prerequisite_task k body now])"
proof -
  have change: "sched_change r w now d = Inr (Inr (ef, d0))" and store: "store_change E r doc w ef now d0 = Inr (res, d1)"
    using a by (simp_all add: applied_change_def)
  have "case ef_created ef of None \<Rightarrow> tasks d0 = tasks d
    | Some k \<Rightarrow> k = next_id tk_id (tasks d) \<and> (\<exists>body. tasks d0 = tasks d @ [prerequisite_task k body now])"
    using change
  proof (cases rule: sched_change_cases)
    case (raised d2)
    then show ?thesis using update_workflows_frame [OF raised(5)] priority_event_frame [OF raised(6)] by (simp add: no_effect_def)
  next
    case (created k body)
    then show ?thesis using create_prerequisite_effect(1,4) [OF created(3)] by (auto simp: no_effect_def)
  qed (simp_all add: no_effect_def)
  then show ?thesis using store_change_effect(6) [OF store] by (cases "ef_created ef") simp_all
qed

lemma undo_tasks:
  assumes "undo_set c s now d = Inr d'"
  shows "tasks d' = (case ss_created_task_id s of None \<Rightarrow> tasks d
    | Some k \<Rightarrow> update_where (\<lambda>t. tk_id t = k \<and> tk_status t = TaskOpen \<and> tk_version t = 1)
        (\<lambda>t. t\<lparr>tk_status := TaskDropped, tk_version := 2, tk_updated_at := now, tk_closed_at := Some now\<rparr>) (tasks d))"
proof -
  obtain d1 d2 where d: "restore_priority c s now (cancel_conditions (rc_change_set_id c) now d) = Inr d1"
    "drop_prerequisite s now d1 = Inr d2" "tasks d' = tasks d2"
    using assms by (auto simp: undo_set_def rbind_Inr_iff)
  have "tasks d1 = tasks d" using restore_priority_frame [OF d(1)] by simp
  then show ?thesis
    using d(2,3) by (auto simp: drop_prerequisite_def drop_prerequisite_task_def insert_task_event_def rbind_Inr_iff
      cancel_prerequisite_workflow_def split: option.splits 
      dest!: update_workflows_frame cancel_cards_frame insert_events_frame)
qed

lemma undone_tasks:
  assumes inv: "sched_inv d" and a: "applied_change E r now d doc t w ef d0 res d1"
    and u: "undo_set c s later d2 = Inr d3" and s: "s = change_set_row_of r doc g w ef now k" and same: "tasks d2 = tasks d1"
  shows "(\<forall>y. task_of i d = Some y \<longrightarrow> task_of i d3 = Some y)
    \<and> (pa_created_task_id res = Some i \<longrightarrow> map_option tk_status (task_of i d3) = Some TaskDropped)"
proof (cases "ef_created ef")
  case None
  then have "tasks d3 = tasks d"
    using applied_tasks [OF a] undo_tasks [OF u] same by (simp add: s change_set_row_of_def)
  then show ?thesis using None applied_rows(2) [OF inv a] by simp
next
  case (Some q)
  then obtain body where q: "q = next_id tk_id (tasks d)" "tasks d1 = tasks d @ [prerequisite_task q body now]"
    using applied_tasks [OF a] by auto
  have old: "tk_id y \<noteq> q" if "y \<in> set (tasks d)" for y using next_id_fresh [OF that, of tk_id] q(1) by simp
  have "update_where (\<lambda>t. tk_id t = q \<and> tk_status t = TaskOpen \<and> tk_version t = 1)
      (\<lambda>t. t\<lparr>tk_status := TaskDropped, tk_version := 2, tk_updated_at := later, tk_closed_at := Some later\<rparr>) (tasks d) = tasks d"
    by (rule update_where_none) (use old in simp)
  then have "tasks d3 = tasks d @ [(prerequisite_task q body now)\<lparr>tk_status := TaskDropped, tk_version := 2,
      tk_updated_at := later, tk_closed_at := Some later\<rparr>]"
    using undo_tasks [OF u] same q(2) Some
    by (simp add: s change_set_row_of_def update_where_append update_where_Cons prerequisite_task_def)
  moreover have "task_of q d = None" using old by (auto simp: find_None_iff)
  ultimately show ?thesis using Some applied_rows(2) [OF inv a] by (auto simp: find_append prerequisite_task_def)
qed

lemma resolve_only_reviews: "resolve_sched_card c version action now d = Inr d' \<Longrightarrow> only_reviews d d'"
  by (auto simp: resolve_sched_card_def rbind_Inr_iff update_sched_cards_def add_sched_card_event_def only_reviews_def
      set_sched_def split: if_splits)

text \<open>C17: Undo gives the queue back.  When a recommendation was applied, its card was delivered, failed
  or leased any number of times, and undo is then applied, every task counts the conditions it
  counted before, every workflow has the priority and the priority source it had, every task that
  was there is as it was, and a prerequisite task that was made for the change is dropped.\<close>

theorem undo_gives_the_queue_back:
  assumes "sched_inv d" and "sched_env_ok E" and "known_sets d"
    and "sched_step E X (now, SqApply r) d = (SoApply (Inr res), d1)" and "pa_disposition res = SdApplied"
    and "pa_card_id res = Some k"
    and "list_all (\<lambda>rq. is_delivery (snd rq)) rqs" and "d2 = snd (run_ops (sched_step E X) rqs d1)"
    and "sched_step E X (later, SqAct k v ''undo'') d2 = (SoAct (Inr x), d3)" and "sa_disposition x = SdApplied"
  shows "live_conditions i d3 = live_conditions i d
    \<and> (\<forall>p. priority_state i d = Some p \<longrightarrow> priority_state i d3 = Some p)
    \<and> (\<forall>t. task_of i d = Some t \<longrightarrow> task_of i d3 = Some t)
    \<and> (pa_created_task_id res = Some i \<longrightarrow> map_option tk_status (task_of i d3) = Some TaskDropped)"
proof -
  have app: "sched_apply E r now d = (Inr res, d1)" and act: "sched_act k v ''undo'' later d2 = (Inr x, d3)"
    using assms(4,9) by (auto simp: sched_step_def split_beta prod_eq_iff)
  obtain doc t w ef d0 where a: "applied_change E r now d doc t w ef d0 res d1"
    using app assms(5) by (cases rule: sched_apply_cases) auto
  note rows = applied_rows [OF assms(1) a]
  let ?K = "next_id ss_id (change_sets (sched d))" and ?i = "rm_target_task_id r"
  have d12: "delivers d1 d2"
    using delivery_run_delivers [OF applied_ok(1) [OF assms(1) a] assms(2,7)] assms(8) by simp
  then have inv2: "sched_inv d2" and fr: "only_reviews d1 d2" by (simp_all add: delivers_def)
  obtain c where c: "sched_card_of k d2 = Some c" "rc_change_set_id c = ?K" "rc_task_id c = ?i"
    using d12 rows(1,3) assms(6) unfolding delivers_def cards_follow_def
    by (fastforce simp: card_follows_def sched_card_about_def)
  have s: "change_set_of ?K d2 = Some (change_set_row_of r doc (sn_sha E (document_text doc)) w ef now ?K)"
    using rows(4) only_reviewsD(9) [OF fr] by simp
  obtain s' d2' where u: "s' = change_set_row_of r doc (sn_sha E (document_text doc)) w ef now ?K"
    "\<not> undo_conflict c s' d2" "undo_set c s' later d2 = Inr d2'" "only_reviews d2' d3"
    using inv2 act by (cases rule: sched_act_cases) (use c s assms(10) in \<open>auto simp: sa_refused_def dest: resolve_only_reviews\<close>)
  note same = only_reviewsD [OF fr] only_reviewsD [OF u(4)]
  obtain new where new: "conditions d1 = conditions d @ new" "\<And>y. y \<in> set new \<Longrightarrow> sc_change_set_id y = ?K"
    using applied_conditions [OF a] by blast
  have "live_conditions i d2' = live_conditions i d"
    by (rule cancelled_live [OF _ _ new(2) undo_conditions [OF u(3), unfolded c(2)]])
      (use new(1) same(1) known_sets_fresh [OF assms(3)] in simp_all)
  then have 1: "live_conditions i d3 = live_conditions i d" using same by (simp add: live_conditions_def)
  have 2: "priority_state i d3 = Some p" if p: "priority_state i d = Some p" for p
    using applied_priority [OF a p] undo_priority [OF u(3,2), of i] same c(3)
    by (auto simp: priority_state_def u(1) change_set_row_of_def split: if_splits)
  have 3: "(\<forall>y. task_of i d = Some y \<longrightarrow> task_of i d3 = Some y)
    \<and> (pa_created_task_id res = Some i \<longrightarrow> map_option tk_status (task_of i d3) = Some TaskDropped)"
    using undone_tasks [OF assms(1) a u(3) u(1)] same by simp
  show ?thesis using 1 2 3 by blast
qed

section \<open>A sample\<close>

text \<open>A queued task of version 1 with a workflow of version 3, beside another open task.\<close>

definition sample_sched :: sched_env where
  "sample_sched = \<lparr>sn_sha = sample_digest, sn_provenance = Some (\<lambda>_ _. True)\<rparr>"

definition sample_recommendation :: "sched_kind \<Rightarrow> recommendation" where
  "sample_recommendation kind = \<lparr>rm_kind = kind, rm_target_task_id = 1, rm_target_task_version = 1,
     rm_expected_workflow_version = 3, rm_rationale = ''Ask first.'', rm_source_refs = [''src-001''],
     rm_research_receipt_id = ''r-1'', rm_research_document_digest = sample_digest ''doc'',
     rm_related_task_id = (if kind = SkAfterTaskCompleted then Some 2 else None), rm_not_before = None,
     rm_prerequisite_text = (if kind = SkCreatePrerequisite then Some ''Ask them.'' else None)\<rparr>"

definition sample_queue :: db where
  "sample_queue = sample_execution (sample_workflow WfQueued)"

definition sample_deliveries :: "(time \<times> sched_request) list" where
  "sample_deliveries = [(110, SqClaim (sample_digest ''reader'') 60 sample_token),
     (120, SqComplete 1 2 sample_token ''mail'' ''m1'')]"

lemma sample_sched_ok: "sched_env_ok sample_sched" "sched_inv sample_queue" "known_sets sample_queue"
proof -
  show "sched_env_ok sample_sched" by (simp add: sched_env_ok_def sample_sched_def sample_digest_def min_def)
qed code_simp+

definition sample_change_made :: "sched_reply \<times> db" where
  "sample_change_made = sched_step sample_sched sample_env (100, SqApply (sample_recommendation SkCreatePrerequisite)) sample_queue"

definition sample_shown :: db where
  "sample_shown = snd (run_ops (sched_step sample_sched sample_env) sample_deliveries (snd sample_change_made))"

definition sample_undone :: "sched_reply \<times> db" where
  "sample_undone = sched_step sample_sched sample_env (130, SqAct 1 2 ''undo'') sample_shown"

text \<open>The change is made, its card is shown, and undo is accepted.\<close>

lemma sample_undone_taken: "review_taken (fst sample_undone) \<and> (case fst sample_change_made of
    SoApply (Inr res) \<Rightarrow> pa_disposition res = SdApplied \<and> pa_card_id res = Some 1 | _ \<Rightarrow> False)"
  by code_simp

lemma sample_shown_inv: "sched_inv sample_shown" "sched_inv (snd sample_change_made)"
proof -
  have "serves_queue sample_queue (snd sample_change_made)"
    unfolding sample_change_made_def by (rule sched_step_serves [OF sample_sched_ok(2,1)])
  then show 1: "sched_inv (snd sample_change_made)" by (simp add: serves_queue_def)
  show "sched_inv sample_shown"
    using sched_run_serves [OF 1 sample_sched_ok(1)] by (simp add: sample_shown_def serves_queue_def)
qed

theorem queue_stays_bounded_witness:
  "acyclic (waits_for sample_shown) \<and> length (live_conditions 1 sample_shown) \<le> 3"
  using queue_stays_bounded [OF sample_shown_inv(2) sample_sched_ok(1) sample_shown_def, of _ _ _ 1]
  by (simp add: MAX_ACTIVE_CONDITIONS_def)

theorem schedule_review_answered_once_witness:
  "\<not> review_taken (fst (run_ops (sched_step sample_sched sample_env)
     [(130, SqAct 1 2 ''undo''), (140, SqAct 1 3 ''keep'')] sample_shown) ! 1)"
  by (rule schedule_review_answered_once [OF sample_sched_ok(1) sample_shown_inv(1), of 0 1 _ 1])
    (use sample_undone_taken in \<open>simp_all add: reviews_def sample_undone_def\<close>)

theorem recommendation_applied_once_witness:
  "\<not> newly_applied (fst (run_ops (sched_step sample_sched sample_env)
     ((100, SqApply (sample_recommendation SkCreatePrerequisite)) # sample_deliveries
       @ [(150, SqApply (sample_recommendation SkCreatePrerequisite))]) sample_queue) ! 3)"
proof -
  have "recommendation_document (sample_recommendation SkCreatePrerequisite) \<noteq> None" by code_simp
  then obtain key where "\<And>t. applies sample_sched (t, SqApply (sample_recommendation SkCreatePrerequisite)) = Some key"
    by (auto simp: applies_def)
  moreover have "newly_applied (fst sample_change_made)"
    using sample_undone_taken by (auto simp: newly_applied_def split: sched_reply.splits sum.splits)
  ultimately show ?thesis
    by (intro recommendation_applied_once [OF sample_sched_ok(1,2), of 0 3])
      (simp_all add: sample_deliveries_def sample_change_made_def)
qed

definition sample_lowered :: db where
  "sample_lowered = sample_execution ((sample_workflow WfQueued)\<lparr>wf_priority := PrioLowered,
     wf_priority_source := Some ''reader''\<rparr>)"

theorem reader_priority_stands_witness:
  "priority_state 1 (snd (sched_step sample_sched sample_env (100, SqApply (sample_recommendation SkRaisePriority)) sample_lowered))
    = Some (PrioLowered, Some ''reader'')"
proof -
  have "sched_inv sample_lowered" "priority_state 1 sample_lowered = Some (PrioLowered, Some ''reader'')" by code_simp+
  then show ?thesis by (rule reader_priority_stands [OF _ sample_sched_ok(1)]) (simp_all add: by_reader_def)
qed

theorem undo_gives_the_queue_back_witness:
  "live_conditions 1 (snd sample_undone) = [] \<and> live_conditions 1 (snd sample_change_made) \<noteq> []
    \<and> priority_state 1 (snd sample_undone) = Some (PrioNormal, None)"
proof -
  obtain res x where r: "fst sample_change_made = SoApply (Inr res)" "pa_disposition res = SdApplied" "pa_card_id res = Some 1"
    "fst sample_undone = SoAct (Inr x)" "sa_disposition x = SdApplied"
    using sample_undone_taken by (auto simp: review_taken_def split: sched_reply.splits sum.splits)
  have "list_all (\<lambda>rq. is_delivery (snd rq)) sample_deliveries" "live_conditions 1 (snd sample_change_made) \<noteq> []"
    "live_conditions 1 sample_queue = []" "priority_state 1 sample_queue = Some (PrioNormal, None)" by code_simp+
  moreover have "live_conditions 1 (snd sample_undone) = live_conditions 1 sample_queue
    \<and> (\<forall>p. priority_state 1 sample_queue = Some p \<longrightarrow> priority_state 1 (snd sample_undone) = Some p)"
    using undo_gives_the_queue_back [OF sample_sched_ok(2,1,3), of sample_env 100
        "sample_recommendation SkCreatePrerequisite" res "snd sample_change_made" 1 sample_deliveries _ 130 2 x
        "snd sample_undone" 1] r calculation(1) sample_change_made_def sample_undone_def sample_shown_def
    by (metis prod.collapse)
  ultimately show ?thesis by simp
qed

end
