(* ===== verification/Gates.thy ===== *)
theory Gates
  imports GateTables ExecGates ExecClaim Results LoggedTable
begin

text \<open>
  What every operation of \<open>ExecutionCardService\<close> (\<open>execution_cards.py\<close>) reads: the joined row of a card
  (\<open>_card_select\<close>), whether the card still asks the question its workflow is at (\<open>_current_card\<close>), the
  kind of card a workflow needs, the actions a kind offers, and the guards in front of an answer.
  The HTML of a card is not modelled; whether it fits the transport is the parameter \<open>ge_fits\<close>.
\<close>

section \<open>What a deployment gives the service\<close>

record owner_meeting =
  om_match :: bool
  om_checked_at :: string
  om_evidence_revision :: string

section \<open>The joined row\<close>

record gate_join =
  gj_card :: exec_card_row
  gj_task :: task_row
  gj_workflow :: workflow_row
  gj_result :: "result_row option"

text \<open>
  \<open>ge_meeting\<close> is the owner condition of the knowledge client, which may be missing; an answer of
  \<open>None\<close> is a client error.  \<open>ge_local\<close> and \<open>ge_utc\<close> are the host's calendar, \<open>ge_sha\<close> is SHA-256.
\<close>

record gate_env =
  ge_sha :: "string \<Rightarrow> string"
  ge_registry :: registry
  ge_fits :: "gate_join \<Rightarrow> db \<Rightarrow> bool"
  ge_plan_threshold :: int
  ge_execute_threshold :: int
  ge_meeting :: "(string \<Rightarrow> owner_state \<Rightarrow> owner_meeting option) option"
  ge_aliases :: "string list"
  ge_local :: "time \<Rightarrow> int"
  ge_utc :: "int \<Rightarrow> time"

text \<open>Only cards that ask something; the joins keep a card only with its task and its workflow.\<close>

definition joined :: "db \<Rightarrow> exec_card_row \<Rightarrow> gate_join option" where
  "joined d c =
     (if xc_summary_only c then None
      else case (task_of (xc_task_id c) d, workflow_of (xc_task_id c) d) of
             (Some t, Some w) \<Rightarrow> Some \<lparr>gj_card = c, gj_task = t, gj_workflow = w,
               gj_result = (case xc_result_id c of None \<Rightarrow> None
                 | Some r \<Rightarrow> row_of rs_result_id r (results d))\<rparr>
           | _ \<Rightarrow> None)"

definition card_select :: "(exec_card_row \<Rightarrow> bool) \<Rightarrow> db \<Rightarrow> gate_join list" where
  "card_select hit d = List.map_filter (joined d) (filter hit (gate_cards d))"

definition joined_gate :: "rowid \<Rightarrow> db \<Rightarrow> gate_join option" where
  "joined_gate k d = (case gate_of k d of None \<Rightarrow> None | Some c \<Rightarrow> joined d c)"

section \<open>Which question a workflow is at\<close>

text \<open>\<open>review_kind_for_result\<close> of \<open>task_execution.py\<close>.\<close>

definition review_kind_for_result :: "workflow_phase \<Rightarrow> execution_outcome option \<Rightarrow> exec_card_kind option" where
  "review_kind_for_result phase outcome =
     (if phase = PhasePlan \<and> outcome = Some OutAwaitingPlan then Some EkPlanReview
      else if phase = PhaseExecute \<and> outcome = Some OutAwaitingExternal then Some EkExternalReview
      else if outcome \<in> {Some OutCompleted, Some OutDeclined, Some OutIneligible} then Some EkResultReview
      else None)"

text \<open>\<open>None\<close> is the \<open>TaskLedgerError\<close> of a workflow that no card describes.\<close>

definition kind_for_workflow :: "workflow_row \<Rightarrow> execution_outcome option \<Rightarrow> exec_card_kind option" where
  "kind_for_workflow w outcome =
     (let st = wf_status w; review = review_kind_for_result (wf_phase w) outcome in
      if st = WfRunning \<and> wf_steer w then Some EkSteer
      else if st \<in> {WfAwaitingStart, WfSnoozed, WfParked}
        \<and> (wf_last_result_id w = None \<or> st = WfParked \<or> st = WfAwaitingStart) then Some EkStart
      else if review \<in> {Some EkPlanReview, Some EkExternalReview} \<and> st \<in> {WfAwaitingReview, WfSnoozed}
      then review
      else if review = Some EkResultReview \<and> st \<in> {WfAwaitingReview, WfCompleted, WfSnoozed}
      then Some EkResultReview
      else if st \<in> {WfSnoozed, WfParked} then Some EkStart
      else None)"

definition expected_outcomes :: "exec_card_kind \<Rightarrow> execution_outcome list" where
  "expected_outcomes k =
     (case k of EkPlanReview \<Rightarrow> [OutAwaitingPlan] | EkExternalReview \<Rightarrow> [OutAwaitingExternal]
      | EkResultReview \<Rightarrow> [OutCompleted, OutDeclined, OutIneligible] | _ \<Rightarrow> [])"

definition review_current :: "exec_card_row \<Rightarrow> workflow_row \<Rightarrow> result_row option \<Rightarrow> bool" where
  "review_current c w res \<longleftrightarrow>
     wf_status w \<in> set ([WfAwaitingReview, WfSnoozed] @ (if xc_kind c = EkResultReview then [WfCompleted] else []))
     \<and> wf_last_result_id w = xc_result_id c
     \<and> (case res of None \<Rightarrow> False
        | Some r \<Rightarrow> rs_task_id r = xc_task_id c \<and> rs_task_version r = xc_task_version c
            \<and> rs_workflow_version r < xc_workflow_version c \<and> rs_phase r = xc_phase c
            \<and> rs_outcome r \<in> set (expected_outcomes (xc_kind c)))"

text \<open>\<open>_current_card\<close>.\<close>

definition current_gate :: "gate_join \<Rightarrow> bool" where
  "current_gate j \<longleftrightarrow>
     (let c = gj_card j; t = gj_task j; w = gj_workflow j in
      tk_status t = TaskOpen \<and> tk_version t = xc_task_version c \<and> wf_task_version w = xc_task_version c
      \<and> wf_version w = xc_workflow_version c \<and> wf_phase w = xc_phase c
      \<and> (case xc_kind c of
           EkStart \<Rightarrow> xc_result_id c = None \<and> wf_status w \<in> {WfAwaitingStart, WfSnoozed, WfParked}
         | EkSteer \<Rightarrow> xc_result_id c = None \<and> wf_status w = WfRunning
         | _ \<Rightarrow> review_current c w (gj_result j)))"

section \<open>What a card offers\<close>

definition OWNER_HOLD_ACTION :: string where "OWNER_HOLD_ACTION = ''until_meeting''"

definition REVIEW_SNOOZE_ACTIONS :: "string list" where
  "REVIEW_SNOOZE_ACTIONS = [''snooze_1d'', ''snooze_7d'', ''snooze_14d'', ''snooze_30d'']"

definition REVIEW_DIRECT_ACTIONS :: "string list" where
  "REVIEW_DIRECT_ACTIONS = [''approve'', ''revise'', ''cancel'', ''done'', ''drop'', ''snooze'']
     @ REVIEW_SNOOZE_ACTIONS"

definition direct_actions :: "exec_card_kind \<Rightarrow> string list" where
  "direct_actions k =
     (case k of
        EkStart \<Rightarrow> [''start'', ''snooze'', ''cancel'', ''done'', ''drop'', OWNER_HOLD_ACTION] @ REVIEW_SNOOZE_ACTIONS
      | EkResultReview \<Rightarrow> [''done'', ''drop'', ''snooze''] @ REVIEW_SNOOZE_ACTIONS
      | EkSteer \<Rightarrow> [''done'', ''drop'']
      | _ \<Rightarrow> [''approve'', ''revise'', ''cancel'', ''done'', ''drop'', ''snooze''] @ REVIEW_SNOOZE_ACTIONS)"

definition stored_action :: "string \<Rightarrow> string" where
  "stored_action action = (if action \<in> set (OWNER_HOLD_ACTION # REVIEW_SNOOZE_ACTIONS) then ''snooze'' else action)"

text \<open>\<open>_owner_hold_reason\<close>: the empty text when the owner's next meeting may be waited for.\<close>

definition owner_hold_reason :: "gate_env \<Rightarrow> owner_state \<Rightarrow> string" where
  "owner_hold_reason env ow =
     (let display = canonical_owner_display (ow_display ow) (ow_kind ow);
          scoped = [ow_speaker_id ow, ow_canonical_speaker_id ow, ow_speaker_registry_id ow] in
      if ge_meeting env = None \<or> ge_aliases env = []
      then ''Meeting-aware hold is unavailable on this card service.''
      else if display \<in> {None, Some UNRESOLVED_DISPLAY}
      then ''Owner needs confirmation before it can be held to a meeting.''
      else if normalized_owner (the display) \<in> set (ge_aliases env)
      then ''Until next meeting applies only to another owner.''
      else if ow_kind ow \<notin> {Some ''person'', Some ''external''}
      then ''Until next meeting applies only to an individual owner.''
      else if ow_ref_version ow \<noteq> 1 \<or> ow_provisional ow
      then ''Owner identity needs confirmation before it can be held to a meeting.''
      else if list_all (\<lambda>v. v = None) scoped
        \<or> list_all (\<lambda>v. case v of None \<Rightarrow> False | Some s \<Rightarrow> s \<noteq> []) scoped then ''''
      else ''Owner identity needs confirmation before it can be held to a meeting.'')"

text \<open>
  \<open>_render_card\<close>, as far as it can fail: a Start card must name an installed or a retired revision of
  a profile, any other card shows the bare profile id instead.
\<close>

definition render_gate :: "gate_env \<Rightarrow> gate_join \<Rightarrow> exc + unit" where
  "render_gate env j =
     (if xc_kind (gj_card j) = EkStart
        \<and> registry_resolve (ge_registry env) (wf_profile_id (gj_workflow j)) (wf_profile_revision (gj_workflow j)) = None
      then Inl (TaskLedgerError ''execution review card state is invalid'') else Inr ())"

section \<open>Guards and results\<close>

datatype gate_disposition = GdApplied | GdUnchanged | GdRefused
datatype gate_refusal = GrInvalidArgument | GrInvalidAction | GrNotFound | GrStaleVersion | GrInvalidState
  | GrClaimMismatch | GrArtifactsUnavailable

record gate_result =
  gr_disposition :: gate_disposition
  gr_card_id :: rowid
  gr_version :: "int option"
  gr_status :: "exec_card_status option"
  gr_workflow_version :: "int option"
  gr_workflow_status :: "workflow_status option"
  gr_workflow_phase :: "workflow_phase option"
  gr_wake_at :: "time option"
  gr_refusal :: "gate_refusal option"

definition gr_accepted :: "gate_result \<Rightarrow> bool" where
  "gr_accepted r \<longleftrightarrow> gr_disposition r \<noteq> GdRefused"

definition gate_operation :: "exec_card_row \<Rightarrow> gate_disposition \<Rightarrow> gate_result" where
  "gate_operation c disposition =
     \<lparr>gr_disposition = disposition, gr_card_id = xc_id c, gr_version = Some (xc_version c),
      gr_status = Some (xc_status c), gr_workflow_version = Some (xc_workflow_version c),
      gr_workflow_status = None, gr_workflow_phase = None, gr_wake_at = None, gr_refusal = None\<rparr>"

definition gate_refused :: "rowid \<Rightarrow> gate_refusal \<Rightarrow> gate_result" where
  "gate_refused k ref =
     \<lparr>gr_disposition = GdRefused, gr_card_id = k, gr_version = None, gr_status = None,
      gr_workflow_version = None, gr_workflow_status = None, gr_workflow_phase = None, gr_wake_at = None,
      gr_refusal = Some ref\<rparr>"

definition gate_refused_row :: "rowid \<Rightarrow> exec_card_row option \<Rightarrow> gate_refusal \<Rightarrow> gate_result" where
  "gate_refused_row k row ref =
     (case row of None \<Rightarrow> gate_refused k ref
      | Some c \<Rightarrow> (gate_refused k ref)\<lparr>gr_version := Some (xc_version c), gr_status := Some (xc_status c),
          gr_workflow_version := Some (xc_workflow_version c)\<rparr>)"

definition gate_guard :: "exec_card_row option \<Rightarrow> int \<Rightarrow> gate_refusal option" where
  "gate_guard row expected =
     (case row of None \<Rightarrow> Some GrNotFound
      | Some c \<Rightarrow> if xc_version c \<noteq> expected then Some GrStaleVersion else None)"

definition workflow_refusal_of :: "workflow_refusal option \<Rightarrow> gate_refusal" where
  "workflow_refusal_of ref = (if ref \<in> {Some WrStaleTask, Some WrStaleWorkflow} then GrStaleVersion else GrInvalidState)"

text \<open>The fence in front of every answer to a delivered card.\<close>

definition delivered_fence :: "gate_join option \<Rightarrow> int \<Rightarrow> gate_refusal option" where
  "delivered_fence row expected =
     (case gate_guard (map_option gj_card row) expected of
        Some ref \<Rightarrow> Some ref
      | None \<Rightarrow> if xc_status (gj_card (the row)) \<noteq> EsDelivered then Some GrInvalidState
                else if \<not> current_gate (the row) then Some GrStaleVersion else None)"

definition agent_card_refusal :: "gate_join option \<Rightarrow> int \<Rightarrow> gate_refusal option" where
  "agent_card_refusal row expected =
     (case delivered_fence row expected of
        Some ref \<Rightarrow> Some ref
      | None \<Rightarrow>
          let k = xc_kind (gj_card (the row)); w = gj_workflow (the row) in
          if k = EkStart then (if wf_status w \<noteq> WfAwaitingStart then Some GrInvalidState else None)
          else if k \<noteq> EkPlanReview then Some GrInvalidAction
          else if wf_status w \<noteq> WfAwaitingReview \<or> wf_phase w \<noteq> PhasePlan then Some GrInvalidState
          else None)"

definition gate_limit_ok :: "int \<Rightarrow> bool" where
  "gate_limit_ok v \<longleftrightarrow> 1 \<le> v \<and> v \<le> 1000"

definition gate_lease_ok :: "int \<Rightarrow> bool" where
  "gate_lease_ok v \<longleftrightarrow> 5 \<le> v \<and> v \<le> 300"

definition gate_opaque_ok :: "string \<Rightarrow> nat \<Rightarrow> bool" where
  "gate_opaque_ok v maximum \<longleftrightarrow> 1 \<le> length v \<and> length v \<le> maximum \<and> v = strip v \<and> \<not> has_control v"

definition MAX_DISCUSSION_CHARS :: nat where "MAX_DISCUSSION_CHARS = 16000"
definition MAX_OWNER_CHARS :: nat where "MAX_OWNER_CHARS = 200"

definition valid_reader_input :: "string \<Rightarrow> string \<Rightarrow> bool" where
  "valid_reader_input kind value \<longleftrightarrow>
     value = strip value \<and> 1 \<le> length value
     \<and> length value \<le> (if kind = ''discussion'' then MAX_DISCUSSION_CHARS else MAX_OWNER_CHARS)
     \<and> \<not> list_ex (\<lambda>c. code_of c = 0) value \<and> (kind = ''reassignment'' \<longrightarrow> CHR 0x0A \<notin> set value)"

end
