(* ===== verification/GateQueue.thy ===== *)
theory GateQueue
  imports Gates
begin

text \<open>
  The queue of \<open>ExecutionCardService\<close>: cancelling the cards whose question has passed, creating the
  card every waiting workflow needs, lending the next card to a consumer below its ceiling, and what a
  consumer reports of the delivery.
\<close>

section \<open>Cancelling stale cards\<close>

definition cancel_if_stale :: "time \<Rightarrow> gate_join \<Rightarrow> db \<Rightarrow> exc + db" where
  "cancel_if_stale now j d =
     (if current_gate j then Inr d else cancel_gate (xc_workflow_version (gj_card j)) now (gj_card j) d)"

definition active_gates :: "db \<Rightarrow> gate_join list" where
  "active_gates d = card_select (\<lambda>c. gate_active (xc_status c)) d"

definition cancel_stale_gates :: "time \<Rightarrow> db \<Rightarrow> exc + (nat \<times> db)" where
  "cancel_stale_gates now d =
     rbind (each (cancel_if_stale now) (active_gates d) d)
       (\<lambda>d1. Inr (length (filter (\<lambda>j. \<not> current_gate j) (active_gates d)), d1))"

section \<open>Creating cards\<close>

definition outcome_of :: "db \<Rightarrow> workflow_row \<Rightarrow> execution_outcome option" where
  "outcome_of d w = map_option rs_outcome
     (List.find (\<lambda>r. Some (rs_result_id r) = wf_last_result_id w \<and> rs_task_id r = wf_task_id w) (results d))"

definition steer_threshold :: "gate_env \<Rightarrow> workflow_phase \<Rightarrow> int" where
  "steer_threshold env phase = (if phase = PhasePlan then ge_plan_threshold env else ge_execute_threshold env)"

definition reached :: "time option \<Rightarrow> time \<Rightarrow> bool" where
  "reached at limit = (case at of None \<Rightarrow> False | Some x \<Rightarrow> x \<le> limit)"

definition finished_outcomes :: "execution_outcome option set" where
  "finished_outcomes = {Some OutCompleted, Some OutDeclined, Some OutIneligible}"

text \<open>
  The \<open>WHERE\<close> clause of \<open>schedule\<close>.  A snoozed workflow is due with or without a result; a running one
  is announced once per version, when its profile asks for it and its claim is old enough.
\<close>

definition wants_card :: "gate_env \<Rightarrow> time \<Rightarrow> db \<Rightarrow> workflow_row \<Rightarrow> bool" where
  "wants_card env now d w \<longleftrightarrow>
     (let outcome = outcome_of d w in
      wf_status w = WfAwaitingStart \<or> wf_status w = WfParked
      \<or> (wf_status w = WfSnoozed \<and> reached (wf_due_at w) now)
      \<or> (wf_status w = WfAwaitingReview \<and> wf_phase w = PhasePlan \<and> outcome = Some OutAwaitingPlan)
      \<or> (wf_status w = WfAwaitingReview \<and> wf_phase w = PhaseExecute \<and> outcome = Some OutAwaitingExternal)
      \<or> (wf_status w \<in> {WfAwaitingReview, WfCompleted} \<and> outcome \<in> finished_outcomes)
      \<or> (wf_status w = WfRunning \<and> wf_steer w
         \<and> reached (wf_claimed_at w) (now - steer_threshold env (wf_phase w))
         \<and> \<not> list_ex (\<lambda>c. xc_task_id c = wf_task_id w \<and> xc_workflow_version c = wf_version w
              \<and> xc_kind c = EkSteer) (gate_cards d)))"

definition eligible_gate :: "gate_env \<Rightarrow> time \<Rightarrow> db \<Rightarrow> workflow_row \<Rightarrow> bool" where
  "eligible_gate env now d w \<longleftrightarrow> current_task d w
     \<and> \<not> list_ex (\<lambda>c. xc_task_id c = wf_task_id w \<and> gate_active (xc_status c)) (gate_cards d)
     \<and> wants_card env now d w"

definition gate_rank :: "db \<Rightarrow> workflow_row \<Rightarrow> nat" where
  "gate_rank d w =
     (let outcome = outcome_of d w in
      if outcome \<in> finished_outcomes then 0
      else if wf_status w \<in> {WfAwaitingReview, WfSnoozed}
        \<and> ((wf_phase w = PhasePlan \<and> outcome = Some OutAwaitingPlan)
           \<or> (wf_phase w = PhaseExecute \<and> outcome = Some OutAwaitingExternal)) then 1
      else if wf_status w = WfRunning then 3 else 2)"

definition eligible_gates :: "gate_env \<Rightarrow> int \<Rightarrow> time \<Rightarrow> db \<Rightarrow> workflow_row list" where
  "eligible_gates env limit now d = take (nat limit)
     (sort_key (gate_rank d) (sort_key wf_updated_at (sort_key wf_task_id
       (filter (eligible_gate env now d) (workflows d)))))"

text \<open>The newest revision of the work behind a task, as the insert's subquery reads it.\<close>

definition latest_work_revision :: "rowid \<Rightarrow> db \<Rightarrow> rowid option" where
  "latest_work_revision i d =
     (let items = [wi_id x. x \<leftarrow> work_items d, wi_task_id x = i];
          ids = [wr_id r. r \<leftarrow> work_revisions d, wr_work_item_id r \<in> set items] in
      if ids = [] then None else Some (fold max ids (hd ids)))"

definition new_gate :: "rowid \<Rightarrow> workflow_row \<Rightarrow> exec_card_kind \<Rightarrow> time \<Rightarrow> db \<Rightarrow> exec_card_row" where
  "new_gate k w kind now d =
     \<lparr>xc_id = k, xc_task_id = wf_task_id w, xc_task_version = wf_task_version w,
      xc_workflow_version = wf_version w, xc_kind = kind, xc_phase = wf_phase w,
      xc_result_id = (if kind \<in> {EkStart, EkSteer} then None else wf_last_result_id w),
      xc_status = EsPending, xc_version = 1, xc_claim_token_digest = None, xc_claim_expires_at = None,
      xc_transport = None, xc_delivery_ref = None, xc_delivered_at = None, xc_resolution = None,
      xc_created_at = now, xc_updated_at = now, xc_resolved_at = None, xc_consumer_digest = None,
      xc_superseded_ref = None, xc_superseded_transport = None,
      xc_work_revision_id = latest_work_revision (wf_task_id w) d, xc_steer_digest = None,
      xc_summary_only = False\<rparr>"

definition create_gate :: "time \<Rightarrow> workflow_row \<Rightarrow> db \<Rightarrow> exc + db" where
  "create_gate now w d =
     (case kind_for_workflow w (outcome_of d w) of
        None \<Rightarrow> Inr d
      | Some kind \<Rightarrow>
          let c = new_gate (next_id xc_id (gate_cards d)) w kind now d in
          rbind (insert_gate c d)
            (\<lambda>d1. Inr (add_gate_event (gate_event c XevScheduled 1 (wf_version w) None None now) d1)))"

record gate_schedule_result =
  gs_disposition :: gate_disposition
  gs_created :: nat
  gs_cancelled :: nat
  gs_refusal :: "gate_refusal option"

text \<open>The transaction of \<open>schedule\<close>, after the owner holds were polled; it counts every eligible row.\<close>

definition schedule_gates_tx :: "gate_env \<Rightarrow> int \<Rightarrow> time \<Rightarrow> db \<Rightarrow> exc + (gate_schedule_result \<times> db)" where
  "schedule_gates_tx env limit now d =
     rbind (cancel_stale_gates now d) (\<lambda>(cancelled, d1).
       let ws = eligible_gates env limit now d1; created = length ws in
       rbind (each (create_gate now) ws d1) (\<lambda>d2.
         Inr (\<lparr>gs_disposition = (if created = 0 \<and> cancelled = 0 then GdUnchanged else GdApplied),
               gs_created = created, gs_cancelled = cancelled, gs_refusal = None\<rparr>, d2)))"

section \<open>What is waiting\<close>

definition waiting_gates :: "db \<Rightarrow> gate_join list" where
  "waiting_gates d = card_select (\<lambda>c. xc_status c = EsPending) d"

fun render_all :: "gate_env \<Rightarrow> gate_join list \<Rightarrow> exc + gate_join list" where
  "render_all env [] = Inr []"
| "render_all env (j # js) = rbind (render_gate env j) (\<lambda>_. rbind (render_all env js) (\<lambda>rest. Inr (j # rest)))"

definition due_gates :: "gate_env \<Rightarrow> int \<Rightarrow> time \<Rightarrow> db \<Rightarrow> exc + gate_join list" where
  "due_gates env limit now d =
     (if \<not> gate_limit_ok limit then Inl (TaskLedgerError ''execution card due limit is invalid'')
      else render_all env (filter current_gate (take (nat limit)
        (filter (\<lambda>j. wf_status (gj_workflow j) \<noteq> WfSnoozed \<or> reached (wf_due_at (gj_workflow j)) now)
          (waiting_gates d)))))"

text \<open>\<open>execution_board_status\<close>, by its position in \<open>EXECUTION_BOARD_STATUSES\<close>.\<close>

datatype board_status = BdReadyToStart | BdQueued | BdRunning | BdPlanReview | BdExternalReview
  | BdResultReview | BdSnoozed | BdParked | BdCompleted | BdCancelled

definition execution_board_status :: "gate_join \<Rightarrow> board_status" where
  "execution_board_status j =
     (case wf_status (gj_workflow j) of
        WfAwaitingReview \<Rightarrow> (case xc_kind (gj_card j) of EkPlanReview \<Rightarrow> BdPlanReview
          | EkExternalReview \<Rightarrow> BdExternalReview | EkResultReview \<Rightarrow> BdResultReview | _ \<Rightarrow> BdReadyToStart)
      | WfAwaitingStart \<Rightarrow> BdReadyToStart | WfQueued \<Rightarrow> BdQueued | WfRunning \<Rightarrow> BdRunning
      | WfSnoozed \<Rightarrow> BdSnoozed | WfParked \<Rightarrow> BdParked | WfCompleted \<Rightarrow> BdCompleted
      | WfCancelled \<Rightarrow> BdCancelled)"

definition BOARD_CARD_LIMIT :: int where "BOARD_CARD_LIMIT = 100"

definition gate_board :: "gate_env \<Rightarrow> int \<Rightarrow> db \<Rightarrow> exc + (gate_join list \<times> (board_status \<Rightarrow> nat))" where
  "gate_board env limit d =
     (if \<not> (1 \<le> limit \<and> limit \<le> BOARD_CARD_LIMIT) then Inl (TaskLedgerError ''execution board limit is invalid'')
      else rbind (render_all env (filter current_gate (waiting_gates d))) (\<lambda>cards.
        Inr (take (nat limit) cards, \<lambda>st. length (filter (\<lambda>j. execution_board_status j = st) cards))))"

end
