(* ===== verification/GateDelivery.thy ===== *)
theory GateDelivery
  imports GateQueue
begin

text \<open>
  Lending the next card to a consumer (\<open>claim_next\<close>), what a consumer or an operator reports of a
  delivery, and the hourly requeue of unanswered cards.
\<close>

section \<open>Frames\<close>

text \<open>The transaction of a card operation: only an applied result is committed.\<close>

definition commit_applied :: "(db \<Rightarrow> exc + (gate_result \<times> db)) \<Rightarrow> db \<Rightarrow> (exc + gate_result) \<times> db" where
  "commit_applied h d =
     (case h d of Inl e \<Rightarrow> (Inl e, d)
      | Inr (r, d') \<Rightarrow> (Inr r, if gr_disposition r = GdApplied then d' else d))"

text \<open>A guarded \<open>UPDATE\<close> of one card and its event.\<close>

definition at_gate :: "rowid \<Rightarrow> int \<Rightarrow> exec_card_row \<Rightarrow> bool" where
  "at_gate k v c \<longleftrightarrow> xc_id c = k \<and> xc_version c = v"

definition write_gate :: "(exec_card_row \<Rightarrow> bool) \<Rightarrow> (exec_card_row \<Rightarrow> exec_card_row) \<Rightarrow> exec_card_event \<Rightarrow> db
    \<Rightarrow> exc + (nat \<times> db)" where
  "write_gate hit f e d = rbind (update_gates hit f d) (\<lambda>(n, d1). Inr (n, add_gate_event e d1))"

definition unclaim :: "exec_card_row \<Rightarrow> exec_card_row" where
  "unclaim c = c\<lparr>xc_claim_token_digest := None, xc_claim_expires_at := None\<rparr>"

section \<open>Claiming\<close>

definition EXECUTION_CARD_CLAIM_CEILINGS :: "(string \<times> nat) list" where
  "EXECUTION_CARD_CLAIM_CEILINGS =
     [(''queue_view'', 2), (''drip'', 20), (''queue_view_steer'', 3), (''drip_steer'', 5)]"

text \<open>The capacity band of a card and how much of it a consumer holds (\<open>_band\<close>).\<close>

definition in_band :: "exec_card_kind \<Rightarrow> exec_card_row \<Rightarrow> bool" where
  "in_band kind c \<longleftrightarrow> \<not> xc_summary_only c \<and> (xc_kind c = EkSteer \<longleftrightarrow> kind = EkSteer)"

definition holds_gate :: "string \<Rightarrow> exec_card_kind \<Rightarrow> exec_card_row \<Rightarrow> bool" where
  "holds_gate consumer kind c \<longleftrightarrow> xc_status c \<in> {EsDelivering, EsDelivered}
     \<and> xc_consumer_digest c = Some consumer \<and> in_band kind c"

definition band_of :: "exec_card_kind \<Rightarrow> string \<Rightarrow> string" where
  "band_of kind role = role @ (if kind = EkSteer then ''_steer'' else '''')"

definition held_gates :: "string \<Rightarrow> exec_card_kind \<Rightarrow> db \<Rightarrow> nat" where
  "held_gates consumer kind d = rowcount (holds_gate consumer kind) (gate_cards d)"

definition lease_over :: "time \<Rightarrow> exec_card_row \<Rightarrow> bool" where
  "lease_over now c \<longleftrightarrow> xc_status c = EsDelivering \<and> reached (xc_claim_expires_at c) now"

definition expired_gate :: "int \<Rightarrow> time \<Rightarrow> exec_card_row \<Rightarrow> exec_card_row" where
  "expired_gate version now c =
     (unclaim c)\<lparr>xc_status := EsPending, xc_version := version, xc_consumer_digest := None, xc_updated_at := now\<rparr>"

definition expire_gate :: "time \<Rightarrow> exec_card_row \<Rightarrow> db \<Rightarrow> exc + db" where
  "expire_gate now c d =
     rbind (write_gate (\<lambda>x. at_gate (xc_id c) (xc_version c) x \<and> xc_status x = EsDelivering)
         (expired_gate (xc_version c + 1) now)
         (gate_event c XevExpired (xc_version c + 1) (xc_workflow_version c) None None now) d)
       (\<lambda>(n, d1). Inr d1)"

definition expire_gates :: "time \<Rightarrow> db \<Rightarrow> exc + db" where
  "expire_gates now d = each (expire_gate now) (filter (lease_over now) (gate_cards d)) d"

definition gate_kind_rank :: "exec_card_kind \<Rightarrow> nat" where
  "gate_kind_rank k = (case k of EkResultReview \<Rightarrow> 0 | EkPlanReview \<Rightarrow> 1 | EkExternalReview \<Rightarrow> 1
     | EkStart \<Rightarrow> 2 | EkSteer \<Rightarrow> 3)"

definition next_gate :: "db \<Rightarrow> gate_join option" where
  "next_gate d =
     (case sort_key (\<lambda>j. gate_kind_rank (xc_kind (gj_card j))) (sort_key (\<lambda>j. xc_created_at (gj_card j))
         (sort_key (\<lambda>j. xc_id (gj_card j)) (waiting_gates d))) of
        [] \<Rightarrow> None | j # _ \<Rightarrow> Some j)"

definition claimed_gate :: "string \<Rightarrow> time \<Rightarrow> string \<Rightarrow> int \<Rightarrow> time \<Rightarrow> exec_card_row \<Rightarrow> exec_card_row" where
  "claimed_gate digest expires consumer version now c =
     c\<lparr>xc_status := EsDelivering, xc_version := version, xc_claim_token_digest := Some digest,
       xc_claim_expires_at := Some expires, xc_consumer_digest := Some consumer, xc_transport := None,
       xc_delivery_ref := None, xc_delivered_at := None, xc_updated_at := now\<rparr>"

text \<open>The card as it was lent, with the presentation it replaces.\<close>

record gate_claim =
  gc_card :: exec_card_row
  gc_token :: string
  gc_expires_at :: time
  gc_superseded_ref :: "string option"
  gc_superseded_transport :: "string option"

datatype claim_answer = NoCard | AtCeiling nat nat | Lent gate_claim

definition lend_gate :: "gate_env \<Rightarrow> int \<Rightarrow> string \<Rightarrow> string \<Rightarrow> string \<Rightarrow> time \<Rightarrow> gate_join \<Rightarrow> db \<Rightarrow> db
    \<Rightarrow> exc + (claim_answer \<times> db)" where
  "lend_gate env lease token role consumer now j d0 d =
     (let c = gj_card j; version = xc_version c + 1; digest = ge_sha env token; expires = now + lease in
      if \<not> current_gate j then Inl (TaskLedgerError ''execution card state is invalid'')
      else case map_of EXECUTION_CARD_CLAIM_CEILINGS (band_of (xc_kind c) role) of
        None \<Rightarrow> Inl (KeyError (band_of (xc_kind c) role))
      | Some ceiling \<Rightarrow>
          if ceiling \<le> held_gates consumer (xc_kind c) d
          then Inr (AtCeiling (held_gates consumer (xc_kind c) d) ceiling, d)
          else
            rbind (render_gate env j) (\<lambda>_.
            rbind (write_gate (\<lambda>x. at_gate (xc_id c) (xc_version c) x \<and> xc_status x = EsPending)
                (claimed_gate digest expires consumer version now)
                (gate_event c XevClaimed version (xc_workflow_version c) None (Some consumer) now) d)
              (\<lambda>(n, d1).
                if n \<noteq> 1 then Inr (NoCard, d0)
                else Inr (Lent \<lparr>gc_card = c\<lparr>xc_status := EsDelivering, xc_version := version\<rparr>, gc_token = token,
                       gc_expires_at = expires, gc_superseded_ref = xc_superseded_ref c,
                       gc_superseded_transport = xc_superseded_transport c\<rparr>, d1))))"

definition claim_gate_tx :: "gate_env \<Rightarrow> int \<Rightarrow> string \<Rightarrow> string \<Rightarrow> string \<Rightarrow> time \<Rightarrow> db
    \<Rightarrow> exc + (claim_answer \<times> db)" where
  "claim_gate_tx env lease token role consumer now d =
     rbind (cancel_stale_gates now d) (\<lambda>(cancelled, d1).
     rbind (expire_gates now d1) (\<lambda>d2.
       case next_gate d2 of None \<Rightarrow> Inr (NoCard, d2)
       | Some j \<Rightarrow> lend_gate env lease token role consumer now j d d2))"

definition claim_next_gate :: "gate_env \<Rightarrow> int \<Rightarrow> string \<Rightarrow> string option \<Rightarrow> string \<Rightarrow> time \<Rightarrow> db
    \<Rightarrow> (exc + claim_answer) \<times> db" where
  "claim_next_gate env lease token consumer role now d =
     (let who = (case consumer of None \<Rightarrow> ge_sha env ''legacy-execution-card-consumer'' | Some s \<Rightarrow> s) in
      if \<not> gate_lease_ok lease then (Inl (TaskLedgerError ''execution card delivery lease is invalid''), d)
      else if \<not> lower_hex 64 who then (Inl (TaskLedgerError ''execution card consumer digest is invalid''), d)
      else if map_of EXECUTION_CARD_CLAIM_CEILINGS role = None
      then (Inl (TaskLedgerError ''execution card consumer role is invalid''), d)
      else if \<not> valid_secret token
      then (Inl (TaskLedgerError ''execution card token factory returned invalid state''), d)
      else run_tx (claim_gate_tx env lease token role who now) d)"

section \<open>Reports of a delivery\<close>

definition delivered_gate :: "string \<Rightarrow> string \<Rightarrow> time \<Rightarrow> exec_card_row \<Rightarrow> exec_card_row" where
  "delivered_gate transport ref now c =
     (unclaim c)\<lparr>xc_status := EsDelivered, xc_transport := Some transport, xc_delivery_ref := Some ref,
        xc_delivered_at := Some now, xc_updated_at := now, xc_superseded_ref := None,
        xc_superseded_transport := None\<rparr>"

definition complete_gate_tx :: "(string \<Rightarrow> string) \<Rightarrow> rowid \<Rightarrow> int \<Rightarrow> string \<Rightarrow> string \<Rightarrow> string \<Rightarrow> time \<Rightarrow> db
    \<Rightarrow> exc + (gate_result \<times> db)" where
  "complete_gate_tx sha k expected token transport ref now d =
     (let row = gate_of k d in
      case gate_guard row expected of
        Some g \<Rightarrow> Inr (gate_refused_row k row g, d)
      | None \<Rightarrow>
          let c = the row in
          if xc_status c = EsDelivered
          then if xc_transport c = Some transport \<and> xc_delivery_ref c = Some ref
               then Inr (gate_operation c GdUnchanged, d)
               else Inr (gate_refused_row k row GrInvalidState, d)
          else if xc_status c \<noteq> EsDelivering then Inr (gate_refused_row k row GrInvalidState, d)
          else if xc_claim_token_digest c \<noteq> Some (sha token) then Inr (gate_refused_row k row GrClaimMismatch, d)
          else rbind (write_gate (at_gate k expected) (delivered_gate transport ref now)
              (gate_event c XevDelivered expected (xc_workflow_version c) None (xc_consumer_digest c) now) d)
            (\<lambda>(n, d1). Inr (gate_operation (delivered_gate transport ref now c) GdApplied, d1)))"

definition complete_gate :: "(string \<Rightarrow> string) \<Rightarrow> rowid \<Rightarrow> int \<Rightarrow> string \<Rightarrow> string \<Rightarrow> string \<Rightarrow> time \<Rightarrow> db
    \<Rightarrow> (exc + gate_result) \<times> db" where
  "complete_gate sha k expected token transport ref now d =
     (if \<not> valid_identity k expected \<or> \<not> valid_secret token \<or> \<not> gate_opaque_ok transport 64
         \<or> \<not> gate_opaque_ok ref 200 then (Inr (gate_refused k GrInvalidArgument), d)
      else commit_applied (complete_gate_tx sha k expected token transport ref now) d)"

text \<open>The two ways a consumer gives a lent card back.\<close>

definition returned_gate :: "int \<Rightarrow> time \<Rightarrow> exec_card_row \<Rightarrow> exec_card_row" where
  "returned_gate version now c = (unclaim c)\<lparr>xc_status := EsPending, xc_version := version, xc_updated_at := now\<rparr>"

definition return_gate_tx :: "(string \<Rightarrow> string) \<Rightarrow> (exec_card_row \<Rightarrow> bool) \<Rightarrow> (exec_card_row \<Rightarrow> exec_card_row)
    \<Rightarrow> exec_card_event_kind \<Rightarrow> string option \<Rightarrow> string option \<Rightarrow> rowid \<Rightarrow> int \<Rightarrow> string \<Rightarrow> time \<Rightarrow> db
    \<Rightarrow> exc + (gate_result \<times> db)" where
  "return_gate_tx sha holder f kind reason consumer k expected token now d =
     (let row = gate_of k d in
      case gate_guard row expected of
        Some g \<Rightarrow> Inr (gate_refused_row k row g, d)
      | None \<Rightarrow>
          let c = the row in
          if xc_status c \<noteq> EsDelivering then Inr (gate_refused_row k row GrInvalidState, d)
          else if xc_claim_token_digest c \<noteq> Some (sha token) then Inr (gate_refused_row k row GrClaimMismatch, d)
          else if \<not> holder c then Inr (gate_refused_row k row GrClaimMismatch, d)
          else rbind (write_gate (at_gate k expected) f
              (gate_event c kind (expected + 1) (xc_workflow_version c) reason consumer now) d)
            (\<lambda>(n, d1). Inr (gate_operation (f c) GdApplied, d1)))"

definition fail_gate :: "(string \<Rightarrow> string) \<Rightarrow> rowid \<Rightarrow> int \<Rightarrow> string \<Rightarrow> time \<Rightarrow> db
    \<Rightarrow> (exc + gate_result) \<times> db" where
  "fail_gate sha k expected token now d =
     (if \<not> valid_identity k expected \<or> \<not> valid_secret token then (Inr (gate_refused k GrInvalidArgument), d)
      else commit_applied (return_gate_tx sha (\<lambda>c. True) (returned_gate (expected + 1) now) XevFailed None None
        k expected token now) d)"

definition EXECUTION_CARD_RELEASE_REASONS :: "string list" where
  "EXECUTION_CARD_RELEASE_REASONS = [''surface_full'', ''client_rejected'']"

definition release_gate :: "(string \<Rightarrow> string) \<Rightarrow> rowid \<Rightarrow> int \<Rightarrow> string \<Rightarrow> string \<Rightarrow> string \<Rightarrow> time \<Rightarrow> db
    \<Rightarrow> (exc + gate_result) \<times> db" where
  "release_gate sha k expected token consumer reason now d =
     (if \<not> valid_identity k expected \<or> \<not> valid_secret token \<or> \<not> lower_hex 64 consumer
         \<or> reason \<notin> set EXECUTION_CARD_RELEASE_REASONS then (Inr (gate_refused k GrInvalidArgument), d)
      else commit_applied (return_gate_tx sha (\<lambda>c. xc_consumer_digest c = Some consumer)
        (\<lambda>c. (returned_gate (expected + 1) now c)\<lparr>xc_consumer_digest := None\<rparr>) XevReleased (Some reason)
        (Some consumer) k expected token now) d)"

section \<open>Repairs\<close>

definition unpresented :: "exec_card_row \<Rightarrow> exec_card_row" where
  "unpresented c = c\<lparr>xc_transport := None, xc_delivery_ref := None, xc_delivered_at := None\<rparr>"

definition retry_gate_tx :: "rowid \<Rightarrow> int \<Rightarrow> time \<Rightarrow> db \<Rightarrow> exc + (gate_result \<times> db)" where
  "retry_gate_tx k expected now d =
     (let row = joined_gate k d in
      case delivered_fence row expected of
        Some g \<Rightarrow> Inr (gate_refused_row k (map_option gj_card row) g, d)
      | None \<Rightarrow>
          let c = gj_card (the row); f = (\<lambda>x. unpresented (returned_gate (expected + 1) now x)) in
          rbind (write_gate (\<lambda>x. at_gate k expected x \<and> xc_status x = EsDelivered) f
              (gate_event c XevFailed (expected + 1) (xc_workflow_version c) None None now) d)
            (\<lambda>(n, d1). if n \<noteq> 1 then Inl (TaskLedgerError ''execution card state changed'')
              else Inr (gate_operation (f c) GdApplied, d1)))"

definition retry_gate :: "rowid \<Rightarrow> int \<Rightarrow> time \<Rightarrow> db \<Rightarrow> (exc + gate_result) \<times> db" where
  "retry_gate k expected now d =
     (if \<not> valid_identity k expected then (Inr (gate_refused k GrInvalidArgument), d)
      else commit_applied (retry_gate_tx k expected now) d)"

definition recover_fence :: "gate_join option \<Rightarrow> int \<Rightarrow> time \<Rightarrow> gate_refusal option" where
  "recover_fence row expected now =
     (case gate_guard (map_option gj_card row) expected of
        Some ref \<Rightarrow> Some ref
      | None \<Rightarrow> if xc_status (gj_card (the row)) \<noteq> EsDelivering then Some GrInvalidState
                else if \<not> reached (xc_claim_expires_at (gj_card (the row))) now then Some GrInvalidState
                else if \<not> current_gate (the row) then Some GrStaleVersion else None)"

definition recover_gate_tx :: "rowid \<Rightarrow> int \<Rightarrow> time \<Rightarrow> db \<Rightarrow> exc + (gate_result \<times> db)" where
  "recover_gate_tx k expected now d =
     (let row = joined_gate k d in
      case recover_fence row expected now of
        Some g \<Rightarrow> Inr (gate_refused_row k (map_option gj_card row) g, d)
      | None \<Rightarrow>
          let c = gj_card (the row) in
          rbind (write_gate (\<lambda>x. at_gate k expected x \<and> xc_status x = EsDelivering)
              (expired_gate (expected + 1) now)
              (gate_event c XevExpired (expected + 1) (xc_workflow_version c) None None now) d)
            (\<lambda>(n, d1). if n \<noteq> 1 then Inr (gate_refused_row k (Some c) GrInvalidState, d1)
              else Inr (gate_operation (expired_gate (expected + 1) now c) GdApplied, d1)))"

definition recover_gate :: "rowid \<Rightarrow> int \<Rightarrow> time \<Rightarrow> db \<Rightarrow> (exc + gate_result) \<times> db" where
  "recover_gate k expected now d =
     (if \<not> valid_identity k expected then (Inr (gate_refused k GrInvalidArgument), d)
      else commit_applied (recover_gate_tx k expected now) d)"

section \<open>Asking again\<close>

definition superseded :: "int \<Rightarrow> time \<Rightarrow> exec_card_row \<Rightarrow> exec_card_row" where
  "superseded version now c =
     (unpresented (returned_gate version now c))\<lparr>xc_superseded_ref := xc_delivery_ref c,
        xc_superseded_transport := xc_transport c\<rparr>"

definition requeue_gate :: "time \<Rightarrow> gate_join \<Rightarrow> db \<Rightarrow> exc + db" where
  "requeue_gate now j d =
     (if \<not> current_gate j then Inr d
      else
        let c = gj_card j; version = xc_version c + 1 in
        rbind (write_gate (\<lambda>x. at_gate (xc_id c) (xc_version c) x \<and> xc_status x = EsDelivered)
            (superseded version now) (gate_event c XevRequeued version (xc_workflow_version c) None None now) d)
          (\<lambda>(n, d1). if n \<noteq> 1 then Inl (TaskLedgerError ''execution card state changed'') else Inr d1))"

definition unanswered_gates :: "int \<Rightarrow> time \<Rightarrow> db \<Rightarrow> gate_join list" where
  "unanswered_gates limit now d = take (nat limit)
     (sort_key (\<lambda>j. the (xc_delivered_at (gj_card j))) (sort_key (\<lambda>j. xc_id (gj_card j))
       (card_select (\<lambda>c. xc_status c = EsDelivered \<and> xc_kind c \<noteq> EkSteer
          \<and> reached (xc_delivered_at c) (now - 3600)) d)))"

definition requeue_gates_tx :: "int \<Rightarrow> time \<Rightarrow> db \<Rightarrow> exc + (nat \<times> db)" where
  "requeue_gates_tx limit now d =
     rbind (cancel_stale_gates now d) (\<lambda>(cancelled, d1).
       let js = unanswered_gates limit now d1 in
       rbind (each (requeue_gate now) js d1) (\<lambda>d2. Inr (length (filter current_gate js), d2)))"

definition requeue_unanswered_gates :: "int \<Rightarrow> time \<Rightarrow> db \<Rightarrow> (exc + nat) \<times> db" where
  "requeue_unanswered_gates limit now d =
     (if \<not> gate_limit_ok limit then (Inr 0, d) else run_tx (requeue_gates_tx limit now) d)"

end
