(* ===== verification/GatePresent.thy ===== *)
theory GatePresent
  imports GateDelivery
begin

text \<open>
  What surrounds a presented card: how many cards occupy a reader's surface, the digest a Steer card
  shows of a live run, and the presentations that must be taken back from a chat.
\<close>

section \<open>Reading\<close>

record gate_stats =
  gt_pending :: nat
  gt_delivering :: nat
  gt_delivered :: nat
  gt_active :: nat
  gt_steer_pending :: nat
  gt_steer_delivering :: nat
  gt_steer_delivered :: nat

definition gates_stats :: "db \<Rightarrow> gate_stats" where
  "gates_stats d =
     (let cs = map gj_card (filter current_gate (active_gates d));
          n = (\<lambda>steer st. rowcount (\<lambda>c. (xc_kind c = EkSteer) = steer \<and> xc_status c = st) cs) in
      \<lparr>gt_pending = n False EsPending, gt_delivering = n False EsDelivering, gt_delivered = n False EsDelivered,
       gt_active = n False EsPending + n False EsDelivering + n False EsDelivered,
       gt_steer_pending = n True EsPending, gt_steer_delivering = n True EsDelivering,
       gt_steer_delivered = n True EsDelivered\<rparr>)"

record gate_scoped_stats =
  gq_pending :: nat
  gq_delivering :: nat
  gq_delivered :: nat
  gq_elsewhere :: nat
  gq_active :: nat
  gq_steer_pending :: nat
  gq_steer_delivering :: nat
  gq_steer_delivered :: nat

definition gates_stats_scoped :: "string \<Rightarrow> db \<Rightarrow> exc + gate_scoped_stats" where
  "gates_stats_scoped consumer d =
     (if \<not> lower_hex 64 consumer then Inl (TaskLedgerError ''execution card consumer digest is invalid'')
      else
        let cs = filter (\<lambda>c. \<not> xc_summary_only c) (gate_cards d);
            n = (\<lambda>steer hit. rowcount (\<lambda>c. (xc_kind c = EkSteer) = steer \<and> hit c) cs);
            mine = (\<lambda>st c. xc_status c = st \<and> xc_consumer_digest c = Some consumer) in
        Inr \<lparr>gq_pending = n False (\<lambda>c. xc_status c = EsPending), gq_delivering = n False (mine EsDelivering),
             gq_delivered = n False (mine EsDelivered),
             gq_elsewhere = n False (\<lambda>c. xc_status c \<in> {EsDelivering, EsDelivered}
               \<and> xc_consumer_digest c \<notin> {None, Some consumer}),
             gq_active = n False (\<lambda>c. gate_active (xc_status c)),
             gq_steer_pending = n True (\<lambda>c. xc_status c = EsPending),
             gq_steer_delivering = n True (mine EsDelivering), gq_steer_delivered = n True (mine EsDelivered)\<rparr>)"

text \<open>\<open>view\<close>: a delivered card shown again; nothing is written.\<close>

definition view_gate :: "gate_env \<Rightarrow> rowid \<Rightarrow> int \<Rightarrow> db \<Rightarrow> exc + (gate_refusal + gate_join)" where
  "view_gate env k expected d =
     (if \<not> valid_identity k expected then Inr (Inl GrInvalidArgument)
      else case delivered_fence (joined_gate k d) expected of
             Some ref \<Rightarrow> Inr (Inl ref)
           | None \<Rightarrow> let j = the (joined_gate k d) in rbind (render_gate env j) (\<lambda>_. Inr (Inr j)))"

section \<open>The digest of a live run\<close>

definition STEER_DIGEST_REFRESH_INTERVAL :: int where "STEER_DIGEST_REFRESH_INTERVAL = 1800"
definition STEER_DIGEST_MAX_ATTEMPTS :: int where "STEER_DIGEST_MAX_ATTEMPTS = 3"

record digest_item =
  di_card_id :: rowid
  di_card_version :: int
  di_task_id :: rowid
  di_workflow_version :: int
  di_phase :: workflow_phase
  di_run_id :: string

text \<open>The card's workflow is running the version and the phase the card announced, on an open task.\<close>

definition steers_run :: "db \<Rightarrow> exec_card_row \<Rightarrow> string option \<Rightarrow> bool" where
  "steers_run d c run \<longleftrightarrow> xc_kind c = EkSteer \<and> gate_active (xc_status c)
     \<and> (case workflow_of (xc_task_id c) d of
          None \<Rightarrow> False
        | Some w \<Rightarrow> wf_status w = WfRunning \<and> wf_version w = xc_workflow_version c \<and> wf_phase w = xc_phase c
            \<and> wf_current_run_id w \<noteq> None \<and> (run = None \<or> wf_current_run_id w = run))
     \<and> (case task_of (xc_task_id c) d of
          None \<Rightarrow> False | Some t \<Rightarrow> tk_status t = TaskOpen \<and> tk_version t = xc_task_version c)"

definition refresh_due :: "time \<Rightarrow> db \<Rightarrow> exec_card_row \<Rightarrow> bool" where
  "refresh_due now d c \<longleftrightarrow> xc_steer_digest c = None
     \<or> list_ex (\<lambda>f. sf_card_id f = xc_id c \<and> sf_attempts f < STEER_DIGEST_MAX_ATTEMPTS
          \<and> sf_last_refreshed_at f \<le> now - STEER_DIGEST_REFRESH_INTERVAL) (steer_refreshes (gates d))"

definition steer_cards_awaiting_digest :: "int \<Rightarrow> time \<Rightarrow> db \<Rightarrow> digest_item list" where
  "steer_cards_awaiting_digest limit now d =
     (if \<not> gate_limit_ok limit then []
      else map (\<lambda>c. let w = the (workflow_of (xc_task_id c) d) in
          \<lparr>di_card_id = xc_id c, di_card_version = xc_version c, di_task_id = xc_task_id c,
           di_workflow_version = xc_workflow_version c, di_phase = xc_phase c,
           di_run_id = the (wf_current_run_id w)\<rparr>)
        (take (nat limit) (sort_key xc_created_at (sort_key xc_id
          (filter (\<lambda>c. steers_run d c None \<and> refresh_due now d c) (gate_cards d))))))"

text \<open>
  The upsert: the first digest inserts the row, a further one counts, and past the limit the
  \<open>WHERE\<close> of the conflict clause updates nothing.
\<close>

definition count_refresh :: "rowid \<Rightarrow> time \<Rightarrow> db \<Rightarrow> bool \<times> db" where
  "count_refresh k now d =
     (let rows = steer_refreshes (gates d);
          put = (\<lambda>rows'. d\<lparr>gates := (gates d)\<lparr>steer_refreshes := rows'\<rparr>\<rparr>) in
      case row_of sf_card_id k rows of
        None \<Rightarrow> (True, put (rows @ [\<lparr>sf_card_id = k, sf_attempts = 1, sf_last_refreshed_at = now\<rparr>]))
      | Some f \<Rightarrow>
          if sf_attempts f < STEER_DIGEST_MAX_ATTEMPTS
          then (True, put (update_where (\<lambda>x. sf_card_id x = k)
            (\<lambda>x. x\<lparr>sf_attempts := sf_attempts x + 1, sf_last_refreshed_at := now\<rparr>) rows))
          else (False, d))"

definition record_digest_tx :: "digest_item \<Rightarrow> string \<Rightarrow> time \<Rightarrow> db \<Rightarrow> exc + (bool \<times> db)" where
  "record_digest_tx item digest now d =
     rbind (update_gates (\<lambda>c. at_gate (di_card_id item) (di_card_version item) c
           \<and> steers_run d c (Some (di_run_id item)))
         (\<lambda>c. c\<lparr>xc_steer_digest := Some digest, xc_updated_at := now\<rparr>) d) (\<lambda>(n, d1).
       if n \<noteq> 1 then Inr (False, d)
       else let (counted, d2) = count_refresh (di_card_id item) now d1 in
         Inr (if counted then (True, d2) else (False, d)))"

definition record_steer_digest :: "digest_item \<Rightarrow> string \<Rightarrow> time \<Rightarrow> db \<Rightarrow> (exc + bool) \<times> db" where
  "record_steer_digest item digest now d =
     (if \<not> (1 \<le> length digest \<and> length digest \<le> 800) then (Inr False, d)
      else run_tx (record_digest_tx item digest now) d)"

section \<open>Taking presentations back\<close>

definition MAX_RETRACTION_ATTEMPTS :: int where "MAX_RETRACTION_ATTEMPTS = 3"

definition set_retractions :: "retraction_row list \<Rightarrow> db \<Rightarrow> db" where
  "set_retractions rs d = d\<lparr>gates := (gates d)\<lparr>retractions := rs\<rparr>\<rparr>"

text \<open>An attempt that ended without success: pending again, or abandoned at the cap.\<close>

definition retraction_failed :: "time \<Rightarrow> retraction_row \<Rightarrow> retraction_row" where
  "retraction_failed now r =
     r\<lparr>rt_state := (if MAX_RETRACTION_ATTEMPTS \<le> rt_attempts r then RtAbandoned else RtPending),
       rt_claim_token_digest := None, rt_claim_expires_at := None, rt_updated_at := now\<rparr>"

definition retraction_claimed :: "string \<Rightarrow> time \<Rightarrow> time \<Rightarrow> retraction_row \<Rightarrow> retraction_row" where
  "retraction_claimed digest expires now r =
     r\<lparr>rt_state := RtDelivering, rt_attempts := rt_attempts r + 1, rt_claim_token_digest := Some digest,
       rt_claim_expires_at := Some expires, rt_updated_at := now\<rparr>"

record retraction_claim =
  tc_card_id :: rowid
  tc_transport :: string
  tc_delivery_ref :: string
  tc_token :: string
  tc_expires_at :: time

definition retractable :: "retraction_row \<Rightarrow> bool" where
  "retractable r \<longleftrightarrow> rt_state r = RtPending \<and> rt_attempts r < MAX_RETRACTION_ATTEMPTS"

definition claim_retraction_tx :: "(string \<Rightarrow> string) \<Rightarrow> int \<Rightarrow> string \<Rightarrow> time \<Rightarrow> db
    \<Rightarrow> exc + (retraction_claim option \<times> db)" where
  "claim_retraction_tx sha lease token now d =
     (let expires = now + lease;
          rows = update_where (\<lambda>r. rt_state r = RtDelivering \<and> reached (rt_claim_expires_at r) now)
            (retraction_failed now) (retractions (gates d)) in
      case sort_key rt_updated_at (sort_key rt_card_id (filter retractable rows)) of
        [] \<Rightarrow> Inr (None, set_retractions rows d)
      | r # _ \<Rightarrow> Inr (Some \<lparr>tc_card_id = rt_card_id r, tc_transport = rt_transport r,
            tc_delivery_ref = rt_delivery_ref r, tc_token = token, tc_expires_at = expires\<rparr>,
          set_retractions (update_where (\<lambda>x. rt_card_id x = rt_card_id r \<and> retractable x)
            (retraction_claimed (sha token) expires now) rows) d))"

definition claim_retraction :: "(string \<Rightarrow> string) \<Rightarrow> int \<Rightarrow> string \<Rightarrow> time \<Rightarrow> db
    \<Rightarrow> (exc + retraction_claim option) \<times> db" where
  "claim_retraction sha lease token now d =
     (if \<not> gate_lease_ok lease then (Inl (TaskLedgerError ''execution card delivery lease is invalid''), d)
      else if \<not> valid_secret token
      then (Inl (TaskLedgerError ''execution card token factory returned invalid state''), d)
      else run_tx (claim_retraction_tx sha lease token now) d)"

definition leased_by :: "(string \<Rightarrow> string) \<Rightarrow> rowid \<Rightarrow> string \<Rightarrow> retraction_row \<Rightarrow> bool" where
  "leased_by sha k token r \<longleftrightarrow> rt_card_id r = k \<and> rt_state r = RtDelivering
     \<and> rt_claim_token_digest r = Some (sha token)"

definition complete_retraction_tx :: "(string \<Rightarrow> string) \<Rightarrow> retraction_claim \<Rightarrow> time \<Rightarrow> db
    \<Rightarrow> exc + (bool \<times> db)" where
  "complete_retraction_tx sha claim now d =
     (let k = tc_card_id claim; hit = leased_by sha k (tc_token claim); rows = retractions (gates d);
          n = rowcount hit rows;
          d1 = set_retractions (update_where hit (\<lambda>r. r\<lparr>rt_state := RtCompleted, rt_claim_token_digest := None,
            rt_claim_expires_at := None, rt_updated_at := now\<rparr>) rows) d in
      if n = 0 then Inr (False, d1)
      else rbind (update_gates (\<lambda>c. xc_id c = k)
          (\<lambda>c. c\<lparr>xc_superseded_ref := None, xc_superseded_transport := None\<rparr>) d1) (\<lambda>(m, d2).
        case gate_of k d of
          None \<Rightarrow> Inl (TaskLedgerError ''execution card is missing'')
        | Some c \<Rightarrow> Inr (n = 1, add_gate_event (gate_event c XevRetracted (xc_version c)
            (xc_workflow_version c) None None now) d2)))"

definition complete_retraction :: "(string \<Rightarrow> string) \<Rightarrow> retraction_claim \<Rightarrow> time \<Rightarrow> db \<Rightarrow> (exc + bool) \<times> db" where
  "complete_retraction sha claim now d = run_tx (complete_retraction_tx sha claim now) d"

definition fail_retraction :: "(string \<Rightarrow> string) \<Rightarrow> retraction_claim \<Rightarrow> time \<Rightarrow> db \<Rightarrow> (exc + bool) \<times> db" where
  "fail_retraction sha claim now d =
     (let hit = leased_by sha (tc_card_id claim) (tc_token claim); rows = retractions (gates d) in
      (Inr (rowcount hit rows = 1), set_retractions (update_where hit (retraction_failed now) rows) d))"

end
