(* ===== verification/GateHolds.thy ===== *)
theory GateHolds
  imports GatePresent
begin

text \<open>
  Waiting for the next meeting with another owner: a Start card snoozes its workflow for 21 days and
  records the owner it waits for; every scheduling pass polls the active holds and ends those whose
  meeting was seen, whose 21 days are over, or whose task has moved on.
\<close>

section \<open>The tables\<close>

definition OWNER_HOLD_INTERVAL :: int where "OWNER_HOLD_INTERVAL = 21 * 86400"
definition MAX_OWNER_HOLD_CHECKS :: int where "MAX_OWNER_HOLD_CHECKS = 100"

text \<open>The CHECK constraints of \<open>task_execution_owner_holds\<close> and its index of one active hold per task.\<close>

definition hold_check :: "owner_hold_row \<Rightarrow> bool" where
  "hold_check h \<longleftrightarrow>
     (let ow = oh_owner h; speakers = [ow_speaker_id ow, ow_canonical_speaker_id ow, ow_speaker_registry_id ow] in
      1 \<le> oh_task_version h \<and> 1 \<le> oh_workflow_version h
      \<and> (case ow_display ow of None \<Rightarrow> False | Some s \<Rightarrow> 1 \<le> length s \<and> length s \<le> 200)
      \<and> ow_ref_version ow = 1 \<and> ow_kind ow \<in> {Some ''person'', Some ''external''} \<and> \<not> ow_provisional ow
      \<and> (case oh_last_evidence_revision h of None \<Rightarrow> True | Some s \<Rightarrow> length s = 64)
      \<and> (case oh_release_reason h of None \<Rightarrow> True | Some s \<Rightarrow> s \<in> {''meeting'', ''backstop'', ''stale''})
      \<and> (oh_status h = HoldActive \<longleftrightarrow> oh_release_reason h = None)
      \<and> (oh_status h = HoldActive \<longleftrightarrow> oh_released_at h = None)
      \<and> (list_all (\<lambda>s. s = None) speakers \<or> list_all (\<lambda>s. s \<noteq> None) speakers))"

definition one_active_hold :: "owner_hold_row list \<Rightarrow> bool" where
  "one_active_hold hs \<longleftrightarrow> distinct (map oh_task_id (filter (\<lambda>h. oh_status h = HoldActive) hs))"

definition put_holds :: "owner_hold_row list \<Rightarrow> db \<Rightarrow> exc + db" where
  "put_holds hs d =
     (if list_all hold_check hs \<and> one_active_hold hs then Inr (d\<lparr>gates := (gates d)\<lparr>owner_holds := hs\<rparr>\<rparr>)
      else Inl (IntegrityError ''task_execution_owner_holds''))"

definition hold_event :: "owner_hold_row \<Rightarrow> string \<Rightarrow> bool option \<Rightarrow> string option \<Rightarrow> time \<Rightarrow> db \<Rightarrow> db" where
  "hold_event h kind matched revision now d =
     d\<lparr>gates := (gates d)\<lparr>owner_hold_events := owner_hold_events (gates d) @ [
       \<lparr>hv_hold_id = oh_id h, hv_task_id = oh_task_id h, hv_kind = kind, hv_matched = matched,
        hv_evidence_revision = revision, hv_occurred_at = now\<rparr>]\<rparr>\<rparr>"

section \<open>Creating a hold\<close>

definition hold_workflow :: "int \<Rightarrow> time \<Rightarrow> time \<Rightarrow> workflow_row \<Rightarrow> workflow_row" where
  "hold_workflow version wake now x =
     (clear_failure (clear_claim x))\<lparr>wf_status := WfSnoozed, wf_phase := PhasePlan, wf_version := version,
        wf_due_at := Some wake, wf_updated_at := now, wf_completed_at := None\<rparr>"

definition new_hold :: "rowid \<Rightarrow> exec_card_row \<Rightarrow> owner_state \<Rightarrow> int \<Rightarrow> time \<Rightarrow> time \<Rightarrow> owner_hold_row" where
  "new_hold hid c ow version wake now =
     \<lparr>oh_id = hid, oh_task_id = xc_task_id c, oh_task_version = xc_task_version c,
      oh_workflow_version = version, oh_status = HoldActive,
      oh_owner = ow\<lparr>ow_display := canonical_owner_display (ow_display ow) (ow_kind ow)\<rparr>,
      oh_backstop_at = wake, oh_last_checked_at = None, oh_last_evidence_revision = None,
      oh_last_match = None, oh_release_reason = None, oh_created_at = now, oh_released_at = None\<rparr>"

definition apply_owner_hold :: "gate_join \<Rightarrow> time \<Rightarrow> db \<Rightarrow> exc + (workflow_result \<times> db)" where
  "apply_owner_hold j now d =
     (let c = gj_card j; i = xc_task_id c; wake = now + OWNER_HOLD_INTERVAL; version = xc_workflow_version c + 1 in
      rbind (update_workflows (\<lambda>x. at_version i (xc_workflow_version c) x \<and> wf_task_version x = xc_task_version c
            \<and> wf_status x \<in> {WfAwaitingStart, WfSnoozed, WfParked}) (hold_workflow version wake now) d) (\<lambda>(n, d1).
        if n \<noteq> 1 then Inr (wf_refused i WrStaleWorkflow, d1)
        else
          let h = new_hold (next_id oh_id (owner_holds (gates d1))) c (tk_owner (gj_task j)) version wake now in
          rbind (put_holds (owner_holds (gates d1) @ [h]) d1) (\<lambda>d2.
          rbind (wf_event i ''snoozed'' version (xc_task_version c) PhasePlan WfSnoozed now
              (hold_event h ''created'' None None now d2)) (\<lambda>d3.
            Inr ((xr_blank WdApplied i)\<lparr>xr_version := Some version, xr_status := Some WfSnoozed,
                xr_phase := Some PhasePlan, xr_wake_at := Some wake,
                xr_profile_id := wf_profile_id (gj_workflow j),
                xr_profile_revision := wf_profile_revision (gj_workflow j)\<rparr>, d3)))))"

section \<open>Polling the holds\<close>

record hold_join =
  hj_hold :: owner_hold_row
  hj_task :: task_row
  hj_workflow :: workflow_row

definition joined_hold :: "db \<Rightarrow> owner_hold_row \<Rightarrow> hold_join option" where
  "joined_hold d h =
     (case (task_of (oh_task_id h) d, workflow_of (oh_task_id h) d) of
        (Some t, Some w) \<Rightarrow> Some \<lparr>hj_hold = h, hj_task = t, hj_workflow = w\<rparr> | _ \<Rightarrow> None)"

definition hold_of :: "rowid \<Rightarrow> db \<Rightarrow> hold_join option" where
  "hold_of k d = (case row_of oh_id k (owner_holds (gates d)) of None \<Rightarrow> None | Some h \<Rightarrow> joined_hold d h)"

text \<open>The owner columns a hold compares; the person behind the owner is not one of them.\<close>

definition same_owner :: "owner_state \<Rightarrow> owner_state \<Rightarrow> bool" where
  "same_owner now held \<longleftrightarrow>
     canonical_owner_display (ow_display now) (ow_kind now) = ow_display held
     \<and> ow_ref_version now = ow_ref_version held \<and> ow_kind now = ow_kind held
     \<and> ow_speaker_id now = ow_speaker_id held \<and> ow_canonical_speaker_id now = ow_canonical_speaker_id held
     \<and> ow_speaker_registry_id now = ow_speaker_registry_id held \<and> ow_pinned now = ow_pinned held
     \<and> ow_provisional now = ow_provisional held"

definition current_hold :: "hold_join \<Rightarrow> bool" where
  "current_hold j \<longleftrightarrow>
     (let h = hj_hold j; t = hj_task j; w = hj_workflow j in
      tk_status t = TaskOpen \<and> tk_version t = oh_task_version h \<and> wf_task_version w = oh_task_version h
      \<and> wf_version w = oh_workflow_version h \<and> wf_status w = WfSnoozed
      \<and> wf_due_at w = Some (oh_backstop_at h) \<and> same_owner (tk_owner t) (oh_owner h))"

definition end_hold :: "hold_status \<Rightarrow> string \<Rightarrow> time \<Rightarrow> owner_hold_row \<Rightarrow> owner_hold_row" where
  "end_hold st reason now h = h\<lparr>oh_status := st, oh_release_reason := Some reason, oh_released_at := Some now\<rparr>"

definition active_hold_at :: "rowid \<Rightarrow> owner_hold_row \<Rightarrow> bool" where
  "active_hold_at k h \<longleftrightarrow> oh_id h = k \<and> oh_status h = HoldActive"

definition cancel_hold :: "owner_hold_row \<Rightarrow> time \<Rightarrow> db \<Rightarrow> exc + (unit \<times> db)" where
  "cancel_hold h now d =
     rbind (put_holds (update_where (active_hold_at (oh_id h)) (end_hold HoldCancelled ''stale'' now)
         (owner_holds (gates d))) d)
       (\<lambda>d1. Inr ((), hold_event h ''cancelled'' None None now d1))"

definition release_workflow :: "int \<Rightarrow> time \<Rightarrow> workflow_row \<Rightarrow> workflow_row" where
  "release_workflow version now x =
     (clear_failure (clear_claim x))\<lparr>wf_status := WfAwaitingStart, wf_phase := PhasePlan,
        wf_version := version, wf_due_at := None, wf_updated_at := now, wf_completed_at := None\<rparr>"

definition finish_hold_tx :: "rowid \<Rightarrow> string \<Rightarrow> time \<Rightarrow> db \<Rightarrow> exc + (unit \<times> db)" where
  "finish_hold_tx k reason now d =
     (case hold_of k d of
        None \<Rightarrow> Inr ((), d)
      | Some j \<Rightarrow>
          let h = hj_hold j; i = oh_task_id h; version = oh_workflow_version h + 1 in
          if oh_status h \<noteq> HoldActive then Inr ((), d)
          else if \<not> current_hold j \<or> reason = ''stale'' then cancel_hold h now d
          else
            rbind (update_workflows (\<lambda>x. at_version i (oh_workflow_version h) x
                  \<and> wf_task_version x = oh_task_version h \<and> wf_status x = WfSnoozed
                  \<and> wf_due_at x = Some (oh_backstop_at h)) (release_workflow version now) d) (\<lambda>(n, d1).
              if n \<noteq> 1 then cancel_hold h now d1
              else
                rbind (put_holds (update_where (active_hold_at k) (end_hold HoldReleased reason now)
                    (owner_holds (gates d1))) d1) (\<lambda>d2.
                rbind (wf_event i ''scheduled'' version (oh_task_version h) PhasePlan WfAwaitingStart now
                    (hold_event h ''released'' None None now d2)) (\<lambda>d3. Inr ((), d3)))))"

definition finish_owner_hold :: "rowid \<Rightarrow> string \<Rightarrow> time \<Rightarrow> db \<Rightarrow> (exc + unit) \<times> db" where
  "finish_owner_hold k reason now d = run_tx (finish_hold_tx k reason now) d"

text \<open>Whether the answer was recorded decides whether the hold is ended after it.\<close>

definition record_condition_tx :: "rowid \<Rightarrow> owner_meeting \<Rightarrow> time \<Rightarrow> db \<Rightarrow> exc + (bool \<times> db)" where
  "record_condition_tx k m now d =
     (case hold_of k d of
        None \<Rightarrow> Inr (False, d)
      | Some j \<Rightarrow>
          if oh_status (hj_hold j) \<noteq> HoldActive \<or> \<not> current_hold j then Inr (False, d)
          else
            rbind (put_holds (update_where (active_hold_at k)
                (\<lambda>h. h\<lparr>oh_last_checked_at := Some (om_checked_at m),
                   oh_last_evidence_revision := Some (om_evidence_revision m),
                   oh_last_match := Some (om_match m)\<rparr>) (owner_holds (gates d))) d) (\<lambda>d1.
              Inr (True, hold_event (hj_hold j) ''condition_checked'' (Some (om_match m))
                (Some (om_evidence_revision m)) now d1)))"

definition record_owner_condition :: "rowid \<Rightarrow> owner_meeting \<Rightarrow> time \<Rightarrow> db \<Rightarrow> (exc + unit) \<times> db" where
  "record_owner_condition k m now d =
     (case run_tx (record_condition_tx k m now) d of
        (Inl e, d1) \<Rightarrow> (Inl e, d1)
      | (Inr recorded, d1) \<Rightarrow>
          if recorded \<and> om_match m then finish_owner_hold k ''meeting'' now d1 else (Inr (), d1))"

definition poll_hold :: "gate_env \<Rightarrow> time \<Rightarrow> hold_join \<Rightarrow> db \<Rightarrow> (exc + unit) \<times> db" where
  "poll_hold env now j d =
     (let h = hj_hold j in
      if \<not> current_hold j then finish_owner_hold (oh_id h) ''stale'' now d
      else if oh_backstop_at h \<le> now then finish_owner_hold (oh_id h) ''backstop'' now d
      else case ge_meeting env of
             None \<Rightarrow> (Inr (), d)
           | Some ask \<Rightarrow>
               (case ask (the (ow_display (oh_owner h))) (oh_owner h) of
                  None \<Rightarrow> (Inr (), d)
                | Some m \<Rightarrow> record_owner_condition (oh_id h) m now d))"

text \<open>Each hold is its own transaction; the first exception ends the pass.\<close>

fun poll_holds :: "gate_env \<Rightarrow> time \<Rightarrow> hold_join list \<Rightarrow> db \<Rightarrow> (exc + unit) \<times> db" where
  "poll_holds env now [] d = (Inr (), d)"
| "poll_holds env now (j # js) d =
     (case poll_hold env now j d of (Inl e, d1) \<Rightarrow> (Inl e, d1) | (Inr u, d1) \<Rightarrow> poll_holds env now js d1)"

definition polled_holds :: "int \<Rightarrow> db \<Rightarrow> hold_join list" where
  "polled_holds limit d = take (nat limit)
     (sort_key (\<lambda>j. oh_id (hj_hold j)) (List.map_filter (joined_hold d)
       (filter (\<lambda>h. oh_status h = HoldActive) (owner_holds (gates d)))))"

section \<open>The scheduling pass\<close>

definition schedule_gates :: "gate_env \<Rightarrow> int \<Rightarrow> time \<Rightarrow> db \<Rightarrow> (exc + gate_schedule_result) \<times> db" where
  "schedule_gates env limit now d =
     (if \<not> gate_limit_ok limit
      then (Inr \<lparr>gs_disposition = GdRefused, gs_created = 0, gs_cancelled = 0,
              gs_refusal = Some GrInvalidArgument\<rparr>, d)
      else case poll_holds env now (polled_holds (min limit MAX_OWNER_HOLD_CHECKS) d) d of
             (Inl e, d1) \<Rightarrow> (Inl e, d1)
           | (Inr u, d1) \<Rightarrow> run_tx (schedule_gates_tx env limit now) d1)"

end
