(* ===== verification/GateActions.thy ===== *)
theory GateActions
  imports GateHolds
begin

text \<open>
  The reader's answers to a delivered card: a decision (\<open>act\<close>), a choice of agent (\<open>select_agent\<close>), a
  note or a new owner (\<open>submit_input\<close>), a note with a decision (\<open>comment_and_go\<close>), and the console's
  answer that claims, delivers and resolves a pending card at once (\<open>resolve_queue_view\<close>).
\<close>

section \<open>Statements the answers share\<close>

definition resolved_gate :: "int \<Rightarrow> string \<Rightarrow> time \<Rightarrow> exec_card_row \<Rightarrow> exec_card_row" where
  "resolved_gate version resolution now c =
     (unclaim c)\<lparr>xc_status := EsResolved, xc_version := version, xc_resolution := Some resolution,
        xc_resolved_at := Some now, xc_updated_at := now\<rparr>"

text \<open>The card is resolved at the version it was answered at; its event names the workflow's new version.\<close>

definition resolve_gate :: "exec_card_row \<Rightarrow> int \<Rightarrow> int \<Rightarrow> string \<Rightarrow> time \<Rightarrow> db \<Rightarrow> exc + db" where
  "resolve_gate c version wv resolution now d =
     rbind (write_gate (\<lambda>x. at_gate (xc_id c) (version - 1) x \<and> xc_status x = EsDelivered)
         (resolved_gate version resolution now) (gate_event c XevResolved version wv (Some resolution) None now) d)
       (\<lambda>(n, d1). if n \<noteq> 1 then Inl (TaskLedgerError ''execution card state changed'') else Inr d1)"

text \<open>The constraints of \<open>execution_reader_inputs\<close>.\<close>

definition insert_reader_input :: "exec_card_row \<Rightarrow> int \<Rightarrow> string \<Rightarrow> string \<Rightarrow> string option \<Rightarrow> time \<Rightarrow> db
    \<Rightarrow> exc + db" where
  "insert_reader_input c version kind value prior now d =
     (if ((kind = ''discussion'' \<and> 1 \<le> length value \<and> length value \<le> 16000)
          \<or> (kind = ''reassignment'' \<and> 1 \<le> length value \<and> length value \<le> 200 \<and> CHR 0x0A \<notin> set value))
        \<and> (case prior of None \<Rightarrow> True | Some s \<Rightarrow> length s \<le> 200)
      then Inr (d\<lparr>gates := (gates d)\<lparr>reader_inputs := reader_inputs (gates d) @ [
        \<lparr>ri_card_id = xc_id c, ri_task_id = xc_task_id c, ri_card_version = version,
         ri_task_version = xc_task_version c, ri_workflow_version = xc_workflow_version c,
         ri_target_workflow_version = xc_workflow_version c + 1, ri_kind = kind, ri_value = value,
         ri_prior_value = prior, ri_occurred_at = now\<rparr>]\<rparr>\<rparr>)
      else Inl (IntegrityError ''execution_reader_inputs''))"

text \<open>The answers that \<open>_apply_review_lifecycle_action\<close> gives, from the joined row.\<close>

definition lifecycle_of :: "exec_card_row \<Rightarrow> lifecycle_row_view" where
  "lifecycle_of c = \<lparr>lv_task_id = xc_task_id c, lv_task_version = xc_task_version c,
     lv_workflow_version = xc_workflow_version c, lv_phase = xc_phase c\<rparr>"

section \<open>Deciding\<close>

text \<open>The workflow's move; an owner hold is refused where the card would not offer it.\<close>

definition act_workflow :: "gate_env \<Rightarrow> gate_join \<Rightarrow> string \<Rightarrow> time \<Rightarrow> db
    \<Rightarrow> exc + ((gate_refusal + workflow_result) \<times> db)" where
  "act_workflow env j action now d =
     (let c = gj_card j; i = xc_task_id c; v = xc_workflow_version c;
          lift = (\<lambda>m. rbind m (\<lambda>(r, d1). Inr (Inr r, d1))) in
      if action \<in> {''done'', ''drop''} then lift (apply_review_lifecycle_action (lifecycle_of c) action now d)
      else if xc_kind c = EkStart \<and> action = OWNER_HOLD_ACTION
      then rbind (render_gate env j) (\<lambda>_.
             if owner_hold_reason env (tk_owner (gj_task j)) \<noteq> '''' then Inr (Inl GrInvalidAction, d)
             else lift (apply_owner_hold j now d))
      else if xc_kind c = EkStart then lift (apply_start_action (ge_local env) (ge_utc env) i v action now d)
      else lift (apply_review_action (ge_local env) (ge_utc env) i v action now d))"

definition act_fence :: "gate_env \<Rightarrow> gate_join option \<Rightarrow> int \<Rightarrow> string \<Rightarrow> db \<Rightarrow> exc + gate_refusal option" where
  "act_fence env row expected action d =
     (case delivered_fence row expected of
        Some ref \<Rightarrow> Inr (Some ref)
      | None \<Rightarrow>
          if action \<notin> set (direct_actions (xc_kind (gj_card (the row)))) then Inr (Some GrInvalidAction)
          else if action \<in> {''start'', ''approve'', ''done''}
          then rbind (render_gate env (the row)) (\<lambda>_.
                 Inr (if ge_fits env (the row) d then None else Some GrInvalidState))
          else Inr None)"

definition gate_applied :: "exec_card_row \<Rightarrow> int \<Rightarrow> workflow_result \<Rightarrow> gate_result" where
  "gate_applied c version r =
     \<lparr>gr_disposition = GdApplied, gr_card_id = xc_id c, gr_version = Some version,
      gr_status = Some EsResolved, gr_workflow_version = xr_version r, gr_workflow_status = xr_status r,
      gr_workflow_phase = xr_phase r, gr_wake_at = xr_wake_at r, gr_refusal = None\<rparr>"

definition act_gate_tx :: "gate_env \<Rightarrow> rowid \<Rightarrow> int \<Rightarrow> string \<Rightarrow> time \<Rightarrow> db \<Rightarrow> exc + (gate_result \<times> db)" where
  "act_gate_tx env k expected action now d =
     (let row = joined_gate k d; refuse = (\<lambda>ref. gate_refused_row k (map_option gj_card row) ref) in
      rbind (act_fence env row expected action d) (\<lambda>fence.
        case fence of
          Some ref \<Rightarrow> Inr (refuse ref, d)
        | None \<Rightarrow>
            let c = gj_card (the row) in
            rbind (act_workflow env (the row) action now d) (\<lambda>(answer, d1).
              case answer of
                Inl ref \<Rightarrow> Inr (refuse ref, d1)
              | Inr r \<Rightarrow>
                  if \<not> xr_accepted r then Inr (refuse (workflow_refusal_of (xr_refusal r)), d1)
                  else rbind (resolve_gate c (expected + 1) (the (xr_version r)) (stored_action action) now d1)
                    (\<lambda>d2. Inr (gate_applied c (expected + 1) r, d2)))))"

definition act_gate :: "gate_env \<Rightarrow> rowid \<Rightarrow> int \<Rightarrow> string \<Rightarrow> time \<Rightarrow> db \<Rightarrow> (exc + gate_result) \<times> db" where
  "act_gate env k expected action now d =
     (if \<not> valid_identity k expected then (Inr (gate_refused k GrInvalidArgument), d)
      else if action \<notin> set ([''start'', ''snooze'', OWNER_HOLD_ACTION] @ REVIEW_DIRECT_ACTIONS)
      then (Inr (gate_refused k GrInvalidAction), d)
      else commit_applied (act_gate_tx env k expected action now) d)"

section \<open>A note or a new owner\<close>

text \<open>The status and the phase a note sends the workflow to.\<close>

definition discussed :: "exec_card_row \<Rightarrow> workflow_status \<times> workflow_phase" where
  "discussed c = (if xc_kind c = EkStart then WfAwaitingStart else WfQueued,
     if xc_kind c = EkSteer then xc_phase c else PhasePlan)"

definition input_workflow :: "workflow_status \<Rightarrow> workflow_phase \<Rightarrow> int \<Rightarrow> time \<Rightarrow> workflow_row \<Rightarrow> workflow_row" where
  "input_workflow st ph version now x =
     (clear_failure (clear_claim x))\<lparr>wf_status := st, wf_phase := ph, wf_version := version,
        wf_due_at := None, wf_updated_at := now, wf_completed_at := None\<rparr>"

definition new_owner :: "string \<Rightarrow> int \<Rightarrow> time \<Rightarrow> task_row \<Rightarrow> task_row" where
  "new_owner value version now t =
     t\<lparr>tk_owner := (tk_owner t)\<lparr>ow_display := Some value, ow_ref_version := 1, ow_kind := Some ''external'',
         ow_speaker_id := None, ow_canonical_speaker_id := None, ow_speaker_registry_id := None,
         ow_pinned := True, ow_provisional := False\<rparr>,
       tk_version := version, tk_updated_at := now\<rparr>"

text \<open>\<open>UPDATE tasks\<close> with its row count as the code's guard, then \<open>_close_ownership_review\<close>.\<close>

definition close_ownership_review :: "rowid \<Rightarrow> int \<Rightarrow> string \<Rightarrow> time \<Rightarrow> db \<Rightarrow> db" where
  "close_ownership_review i tv owner now d =
     (case List.find (\<lambda>r. ow_task_id r = i \<and> ow_task_version r = tv \<and> ow_status r = OwnPending)
         (ownership_reviews d) of
        None \<Rightarrow> d
      | Some r \<Rightarrow> snd (record_ownership_decision i tv
          (if normalized_owner owner = normalized_owner (ow_proposed_owner r) then OwnConfirmed else OwnReassigned)
          now d))"

definition reassign_task :: "exec_card_row \<Rightarrow> string \<Rightarrow> time \<Rightarrow> db \<Rightarrow> exc + db" where
  "reassign_task c value now d =
     (let hit = (\<lambda>t. tk_id t = xc_task_id c \<and> tk_version t = xc_task_version c \<and> tk_status t = TaskOpen) in
      if rowcount hit (tasks d) \<noteq> 1 then Inl (TaskLedgerError ''task ownership state changed'')
      else Inr (close_ownership_review (xc_task_id c) (xc_task_version c) value now
        (d\<lparr>tasks := update_where hit (new_owner value (xc_task_version c + 1) now) (tasks d)\<rparr>)))"

definition log_owner_change :: "exec_card_row \<Rightarrow> string option \<Rightarrow> string \<Rightarrow> time \<Rightarrow> db \<Rightarrow> db" where
  "log_owner_change c from_owner value now d =
     d\<lparr>gates := (gates d)\<lparr>owner_changes := owner_changes (gates d) @ [
       \<lparr>oc_task_id = xc_task_id c, oc_task_version = xc_task_version c + 1, oc_card_id = xc_id c,
        oc_from_owner = from_owner, oc_to_owner = value, oc_occurred_at = now\<rparr>]\<rparr>\<rparr>"

text \<open>The workflow's \<open>UPDATE\<close>, which must meet its row, and its event.\<close>

definition move_workflow :: "exec_card_row \<Rightarrow> (workflow_row \<Rightarrow> workflow_row) \<Rightarrow> string \<Rightarrow> int \<Rightarrow> workflow_phase
    \<Rightarrow> workflow_status \<Rightarrow> time \<Rightarrow> db \<Rightarrow> exc + db" where
  "move_workflow c f kind tv ph st now d =
     rbind (update_workflows (at_version (xc_task_id c) (xc_workflow_version c)) f d) (\<lambda>(n, d1).
       if n \<noteq> 1 then Inl (TaskLedgerError ''execution workflow state changed'')
       else wf_event (xc_task_id c) kind (xc_workflow_version c + 1) tv ph st now d1)"

definition submit_discussion :: "exec_card_row \<Rightarrow> time \<Rightarrow> db \<Rightarrow> exc + (workflow_status \<times> workflow_phase \<times> db)" where
  "submit_discussion c now d =
     (let (st, ph) = discussed c in
      rbind (move_workflow c (input_workflow st ph (xc_workflow_version c + 1) now) ''discussion_requested''
          (xc_task_version c) ph st now d) (\<lambda>d1. Inr (st, ph, d1)))"

definition submit_reassignment :: "gate_join \<Rightarrow> string \<Rightarrow> time \<Rightarrow> db \<Rightarrow> exc + (workflow_status \<times> workflow_phase \<times> db)" where
  "submit_reassignment j value now d =
     (let c = gj_card j; tv = xc_task_version c + 1 in
      rbind (reassign_task c value now d) (\<lambda>d1.
      rbind (move_workflow c (\<lambda>x. (input_workflow WfAwaitingStart PhasePlan (xc_workflow_version c + 1) now x)\<lparr>
            wf_task_version := tv, wf_last_result_id := None\<rparr>) ''reassigned'' tv PhasePlan WfAwaitingStart now
          (log_owner_change c (ow_display (tk_owner (gj_task j))) value now d1))
        (\<lambda>d2. Inr (WfAwaitingStart, PhasePlan, d2))))"

definition input_fence :: "gate_join option \<Rightarrow> int \<Rightarrow> string \<Rightarrow> string \<Rightarrow> gate_refusal option" where
  "input_fence row expected kind value =
     (case delivered_fence row expected of
        Some ref \<Rightarrow> Some ref
      | None \<Rightarrow> if kind = ''reassignment'' \<and> ow_display (tk_owner (gj_task (the row))) = Some value
                then Some GrInvalidState else None)"

definition input_resolution :: "string \<Rightarrow> string" where
  "input_resolution kind = (if kind = ''discussion'' then ''discuss'' else ''reassign'')"

definition gate_moved :: "exec_card_row \<Rightarrow> int \<Rightarrow> workflow_status \<Rightarrow> workflow_phase \<Rightarrow> gate_result" where
  "gate_moved c version st ph =
     \<lparr>gr_disposition = GdApplied, gr_card_id = xc_id c, gr_version = Some version,
      gr_status = Some EsResolved, gr_workflow_version = Some (xc_workflow_version c + 1),
      gr_workflow_status = Some st, gr_workflow_phase = Some ph, gr_wake_at = None, gr_refusal = None\<rparr>"

definition submit_input_tx :: "rowid \<Rightarrow> int \<Rightarrow> string \<Rightarrow> string \<Rightarrow> time \<Rightarrow> db \<Rightarrow> exc + (gate_result \<times> db)" where
  "submit_input_tx k expected kind value now d =
     (let row = joined_gate k d in
      case input_fence row expected kind value of
        Some ref \<Rightarrow> Inr (gate_refused_row k (map_option gj_card row) ref, d)
      | None \<Rightarrow>
          let j = the row; c = gj_card j;
              prior = (if kind = ''reassignment'' then ow_display (tk_owner (gj_task j)) else None) in
          rbind (insert_reader_input c expected kind value prior now d) (\<lambda>d1.
          rbind (if kind = ''discussion'' then submit_discussion c now d1
                 else submit_reassignment j value now d1) (\<lambda>(st, ph, d2).
          rbind (resolve_gate c (expected + 1) (xc_workflow_version c + 1) (input_resolution kind) now d2)
            (\<lambda>d3. Inr (gate_moved c (expected + 1) st ph, d3)))))"

definition READER_INPUT_KINDS :: "string list" where
  "READER_INPUT_KINDS = [''discussion'', ''reassignment'']"

definition submit_gate_input :: "rowid \<Rightarrow> int \<Rightarrow> string \<Rightarrow> string \<Rightarrow> time \<Rightarrow> db \<Rightarrow> (exc + gate_result) \<times> db" where
  "submit_gate_input k expected kind value now d =
     (if \<not> valid_identity k expected \<or> kind \<notin> set READER_INPUT_KINDS \<or> \<not> valid_reader_input kind value
      then (Inr (gate_refused k GrInvalidArgument), d)
      else commit_applied (submit_input_tx k expected kind value now) d)"

end
