(* ===== verification/GateConsole.thy ===== *)
theory GateConsole
  imports GateActions
begin

text \<open>
  A note with a decision, the choice of an agent, and the console's answer to a pending card.
\<close>

section \<open>A note and a decision at once\<close>

text \<open>\<open>_apply_steer_discussion\<close>: a live pass is pre-empted, its workflow queued in the same phase.\<close>

definition steer_workflow :: "int \<Rightarrow> time \<Rightarrow> workflow_row \<Rightarrow> workflow_row" where
  "steer_workflow version now x =
     (clear_claim x)\<lparr>wf_status := WfQueued, wf_version := version, wf_due_at := None, wf_updated_at := now\<rparr>"

definition apply_steer_discussion :: "exec_card_row \<Rightarrow> time \<Rightarrow> db \<Rightarrow> exc + (workflow_result \<times> db)" where
  "apply_steer_discussion c now d =
     (let i = xc_task_id c; version = xc_workflow_version c + 1 in
      rbind (update_workflows (\<lambda>x. at_version i (xc_workflow_version c) x \<and> wf_status x = WfRunning)
          (steer_workflow version now) d) (\<lambda>(n, d1).
        if n \<noteq> 1 then Inr (wf_refused i WrStaleWorkflow, d1)
        else rbind (wf_event i ''discussion_requested'' version (xc_task_version c) (xc_phase c) WfQueued now d1)
          (\<lambda>d2. Inr ((xr_blank WdApplied i)\<lparr>xr_version := Some version, xr_status := Some WfQueued,
              xr_phase := Some (xc_phase c)\<rparr>, d2))))"

text \<open>The decision a note stands for, per kind of card; a result takes no note with a decision.\<close>

definition comment_action :: "exec_card_kind \<Rightarrow> string option" where
  "comment_action k = (case k of EkStart \<Rightarrow> Some ''start'' | EkPlanReview \<Rightarrow> Some ''approve''
     | EkExternalReview \<Rightarrow> Some ''approve'' | EkSteer \<Rightarrow> Some ''discuss'' | EkResultReview \<Rightarrow> None)"

definition comment_fence :: "gate_env \<Rightarrow> gate_join option \<Rightarrow> int \<Rightarrow> db \<Rightarrow> exc + gate_refusal option" where
  "comment_fence env row expected d =
     (case delivered_fence row expected of
        Some ref \<Rightarrow> Inr (Some ref)
      | None \<Rightarrow>
          if comment_action (xc_kind (gj_card (the row))) = None then Inr (Some GrInvalidAction)
          else rbind (render_gate env (the row)) (\<lambda>_.
            Inr (if ge_fits env (the row) d then None else Some GrInvalidState)))"

definition comment_workflow :: "gate_env \<Rightarrow> exec_card_row \<Rightarrow> string \<Rightarrow> time \<Rightarrow> db \<Rightarrow> exc + (workflow_result \<times> db)" where
  "comment_workflow env c action now d =
     (let i = xc_task_id c; v = xc_workflow_version c in
      if xc_kind c = EkStart then apply_start_action (ge_local env) (ge_utc env) i v action now d
      else if xc_kind c = EkSteer then apply_steer_discussion c now d
      else apply_review_action (ge_local env) (ge_utc env) i v action now d)"

definition comment_gate_tx :: "gate_env \<Rightarrow> rowid \<Rightarrow> int \<Rightarrow> string \<Rightarrow> time \<Rightarrow> db \<Rightarrow> exc + (gate_result \<times> db)" where
  "comment_gate_tx env k expected value now d =
     (let row = joined_gate k d; refuse = (\<lambda>ref. gate_refused_row k (map_option gj_card row) ref) in
      rbind (comment_fence env row expected d) (\<lambda>fence.
        case fence of
          Some ref \<Rightarrow> Inr (refuse ref, d)
        | None \<Rightarrow>
            let c = gj_card (the row); action = the (comment_action (xc_kind c)); target = xc_workflow_version c + 1 in
            rbind (insert_reader_input c expected ''discussion'' value None now d) (\<lambda>d1.
            rbind (comment_workflow env c action now d1) (\<lambda>(r, d2).
              if \<not> xr_accepted r then Inr (refuse (workflow_refusal_of (xr_refusal r)), d2)
              else if xr_version r \<noteq> Some target then Inr (refuse GrInvalidState, d2)
              else rbind (resolve_gate c (expected + 1) target (stored_action action) now d2)
                (\<lambda>d3. Inr ((gate_applied c (expected + 1) r)\<lparr>gr_wake_at := None\<rparr>, d3))))))"

definition comment_and_go :: "gate_env \<Rightarrow> rowid \<Rightarrow> int \<Rightarrow> string \<Rightarrow> time \<Rightarrow> db \<Rightarrow> (exc + gate_result) \<times> db" where
  "comment_and_go env k expected value now d =
     (if \<not> valid_identity k expected \<or> \<not> valid_reader_input ''discussion'' value
      then (Inr (gate_refused k GrInvalidArgument), d)
      else commit_applied (comment_gate_tx env k expected value now) d)"

section \<open>Choosing an agent\<close>

definition agent_selection_token :: "(string \<Rightarrow> string) \<Rightarrow> profile \<Rightarrow> string" where
  "agent_selection_token sha p = take 20 (sha (pr_id p @ CHR 0x00 # pr_revision p))"

definition selector_phase :: "exec_card_kind \<Rightarrow> workflow_phase" where
  "selector_phase k = (if k = EkStart then PhasePlan else PhaseExecute)"

definition eligible_profiles :: "registry \<Rightarrow> workflow_phase \<Rightarrow> profile list" where
  "eligible_profiles rg phase = filter (\<lambda>p. phase \<in> set (pr_phases p)) (rg_profiles rg)"

record agent_result =
  ga_disposition :: gate_disposition
  ga_card_id :: rowid
  ga_version :: "int option"
  ga_refusal :: "gate_refusal option"

definition agent_refused :: "rowid \<Rightarrow> exec_card_row option \<Rightarrow> gate_refusal \<Rightarrow> agent_result" where
  "agent_refused k row ref = \<lparr>ga_disposition = GdRefused, ga_card_id = k,
     ga_version = map_option xc_version row, ga_refusal = Some ref\<rparr>"

definition refreshed_gate :: "int \<Rightarrow> int \<Rightarrow> time \<Rightarrow> exec_card_row \<Rightarrow> exec_card_row" where
  "refreshed_gate version wv now c = c\<lparr>xc_version := version, xc_workflow_version := wv, xc_updated_at := now\<rparr>"

text \<open>The card that the answer carries is rendered from the row with the chosen profile.\<close>

definition select_gate_tx :: "gate_env \<Rightarrow> rowid \<Rightarrow> int \<Rightarrow> string \<Rightarrow> time \<Rightarrow> db \<Rightarrow> exc + (agent_result \<times> db)" where
  "select_gate_tx env k expected token now d =
     (let row = joined_gate k d; refuse = agent_refused k (map_option gj_card row) in
      case agent_card_refusal row expected of
        Some ref \<Rightarrow> Inr (refuse ref, d)
      | None \<Rightarrow>
          rbind (render_gate env (the row)) (\<lambda>_.
            let c = gj_card (the row); i = xc_task_id c; v = xc_workflow_version c in
            case filter (\<lambda>p. agent_selection_token (ge_sha env) p = token)
                (eligible_profiles (ge_registry env) (selector_phase (xc_kind c))) of
              [p] \<Rightarrow>
                rbind (if xc_kind c = EkStart then apply_agent_selection i v p now d
                       else apply_plan_review_agent_selection i v p now d) (\<lambda>(r, d1).
                  if \<not> xr_accepted r then Inr (refuse (workflow_refusal_of (xr_refusal r)), d)
                  else if xr_disposition r = WdUnchanged
                  then Inr (\<lparr>ga_disposition = GdUnchanged, ga_card_id = k, ga_version = Some expected,
                         ga_refusal = None\<rparr>, d)
                  else rbind (write_gate (\<lambda>x. at_gate k expected x \<and> xc_status x = EsDelivered)
                      (refreshed_gate (expected + 1) (the (xr_version r)) now)
                      (gate_event c XevRefreshed (expected + 1) (the (xr_version r)) (Some ''agent'') None now) d1)
                    (\<lambda>(n, d2).
                      if n \<noteq> 1 then Inl (TaskLedgerError ''execution card state changed'')
                      else rbind (render_gate env ((the row)\<lparr>gj_workflow := (gj_workflow (the row))\<lparr>
                            wf_profile_id := Some (pr_id p), wf_profile_revision := Some (pr_revision p)\<rparr>\<rparr>)) (\<lambda>_.
                        Inr (\<lparr>ga_disposition = GdApplied, ga_card_id = k, ga_version = Some (expected + 1),
                               ga_refusal = None\<rparr>, d2))))
            | _ \<Rightarrow> Inr (agent_refused k None GrInvalidArgument, d)))"

definition select_gate_agent :: "gate_env \<Rightarrow> rowid \<Rightarrow> int \<Rightarrow> string \<Rightarrow> time \<Rightarrow> db \<Rightarrow> (exc + agent_result) \<times> db" where
  "select_gate_agent env k expected token now d =
     (if \<not> valid_identity k expected \<or> \<not> lower_hex 20 token
      then (Inr (agent_refused k None GrInvalidArgument), d)
      else run_tx (select_gate_tx env k expected token now) d)"

section \<open>The console\<close>

datatype console_answer = ConsoleCeiling nat nat | ConsoleResult gate_result

text \<open>The shape of a request, checked before the database is opened.\<close>

definition console_request_refusal :: "string \<Rightarrow> string option \<Rightarrow> string option \<Rightarrow> gate_refusal option" where
  "console_request_refusal action input_kind value =
     (let input_ok = (\<lambda>kind. case value of None \<Rightarrow> False | Some s \<Rightarrow> valid_reader_input kind s) in
      if action \<notin> set ([''start'', ''snooze'', OWNER_HOLD_ACTION] @ REVIEW_DIRECT_ACTIONS
           @ [''discussion'', ''reassignment'', ''comment_and_go'']) then Some GrInvalidAction
      else if action \<in> {''discussion'', ''reassignment''}
      then (if input_kind \<noteq> Some action \<or> \<not> input_ok action then Some GrInvalidArgument else None)
      else if action = ''comment_and_go''
      then (if input_kind \<noteq> Some ''discussion'' \<or> \<not> input_ok ''discussion'' then Some GrInvalidArgument else None)
      else if input_kind \<noteq> None \<or> value \<noteq> None then Some GrInvalidArgument else None)"

definition CONSOLE_CEILING :: "exec_card_kind \<Rightarrow> nat" where
  "CONSOLE_CEILING k = the (map_of EXECUTION_CARD_CLAIM_CEILINGS (band_of k ''queue_view''))"

definition console_fence :: "gate_join option \<Rightarrow> int \<Rightarrow> time \<Rightarrow> gate_refusal option" where
  "console_fence row expected now =
     (case gate_guard (map_option gj_card row) expected of
        Some ref \<Rightarrow> Some ref
      | None \<Rightarrow>
          let j = the row in
          if xc_status (gj_card j) \<noteq> EsPending then Some GrInvalidState
          else if wf_status (gj_workflow j) = WfSnoozed \<and> \<not> reached (wf_due_at (gj_workflow j)) now
          then Some GrInvalidState
          else if \<not> current_gate j then Some GrStaleVersion else None)"

definition console_action_refusal :: "gate_env \<Rightarrow> gate_join \<Rightarrow> string \<Rightarrow> db \<Rightarrow> exc + gate_refusal option" where
  "console_action_refusal env j action d =
     (let input = (action \<in> {''discussion'', ''reassignment'', ''comment_and_go''}) in
      rbind (if action \<in> {''start'', ''approve'', ''done''}
             then rbind (render_gate env j) (\<lambda>_. Inr (\<not> ge_fits env j d)) else Inr False) (\<lambda>unfit.
        Inr (if unfit then Some GrInvalidState
             else if \<not> input \<and> action \<notin> set (direct_actions (xc_kind (gj_card j))) then Some GrInvalidAction
             else None)))"

definition console_delivered :: "int \<Rightarrow> string \<Rightarrow> time \<Rightarrow> exec_card_row \<Rightarrow> exec_card_row" where
  "console_delivered version consumer now c =
     c\<lparr>xc_status := EsDelivered, xc_version := version, xc_consumer_digest := Some consumer,
       xc_transport := Some ''queue_view'', xc_delivery_ref := None, xc_delivered_at := Some now,
       xc_updated_at := now\<rparr>"

text \<open>The console's \<open>UPDATE\<close> of the workflow clears its claim, and nothing else of what went before.\<close>

definition console_workflow :: "int \<Rightarrow> workflow_status \<Rightarrow> workflow_phase \<Rightarrow> int \<Rightarrow> time \<Rightarrow> workflow_row \<Rightarrow> workflow_row" where
  "console_workflow tv st ph version now x =
     (clear_claim x)\<lparr>wf_task_version := tv, wf_status := st, wf_phase := ph, wf_version := version,
        wf_due_at := None, wf_updated_at := now\<rparr>"

definition console_input :: "gate_join \<Rightarrow> int \<Rightarrow> string \<Rightarrow> string \<Rightarrow> time \<Rightarrow> db
    \<Rightarrow> exc + (workflow_status \<times> workflow_phase \<times> db)" where
  "console_input j version kind value now d =
     (let c = gj_card j; target = xc_workflow_version c + 1;
          prior = (if kind = ''reassignment'' then ow_display (tk_owner (gj_task j)) else None) in
      rbind (insert_reader_input c version kind value prior now d) (\<lambda>d1.
        if kind = ''reassignment''
        then rbind (reassign_task c value now d1) (\<lambda>d2.
             rbind (move_workflow c (console_workflow (xc_task_version c + 1) WfAwaitingStart PhasePlan target now)
                 ''reassigned'' (xc_task_version c + 1) PhasePlan WfAwaitingStart now d2)
               (\<lambda>d3. Inr (WfAwaitingStart, PhasePlan, d3)))
        else let (st, ph) = discussed c in
             rbind (move_workflow c (console_workflow (xc_task_version c) st ph target now)
                 ''discussion_requested'' (xc_task_version c) ph st now d1) (\<lambda>d2. Inr (st, ph, d2))))"

text \<open>
  The decision: every action but \<open>done\<close> and \<open>drop\<close> starts the workflow of a Start card, and a note
  sent with a decision approves a review.
\<close>

definition console_decision :: "gate_env \<Rightarrow> exec_card_row \<Rightarrow> int \<Rightarrow> string \<Rightarrow> string option \<Rightarrow> time \<Rightarrow> db
    \<Rightarrow> exc + (workflow_result \<times> db)" where
  "console_decision env c version action value now d =
     (let i = xc_task_id c; v = xc_workflow_version c in
      rbind (if action = ''comment_and_go'' then insert_reader_input c version ''discussion'' (the value) None now d
             else Inr d) (\<lambda>d1.
        if action \<in> {''done'', ''drop''} then apply_review_lifecycle_action (lifecycle_of c) action now d1
        else if xc_kind c = EkStart then apply_start_action (ge_local env) (ge_utc env) i v ''start'' now d1
        else if xc_kind c = EkSteer then apply_steer_discussion c now d1
        else apply_review_action (ge_local env) (ge_utc env) i v
          (if action = ''comment_and_go'' then ''approve'' else action) now d1))"

text \<open>The final \<open>UPDATE\<close> also forgets the consumer; its row count is not read.\<close>

definition console_resolve :: "exec_card_row \<Rightarrow> int \<Rightarrow> int \<Rightarrow> string \<Rightarrow> time \<Rightarrow> db \<Rightarrow> exc + db" where
  "console_resolve c version wv resolution now d =
     rbind (write_gate (\<lambda>x. at_gate (xc_id c) version x \<and> xc_status x = EsDelivered)
         (\<lambda>x. (resolved_gate (version + 1) resolution now x)\<lparr>xc_consumer_digest := None\<rparr>)
         (gate_event c XevResolved (version + 1) wv (Some resolution) None now) d)
       (\<lambda>(n, d1). Inr d1)"

definition console_take :: "exec_card_row \<Rightarrow> int \<Rightarrow> string \<Rightarrow> time \<Rightarrow> db \<Rightarrow> exc + (nat \<times> db)" where
  "console_take c expected consumer now d =
     rbind (write_gate (\<lambda>x. at_gate (xc_id c) expected x \<and> xc_status x = EsPending)
         (console_delivered (expected + 1) consumer now)
         (gate_event c XevClaimed (expected + 1) (xc_workflow_version c) None (Some consumer) now) d)
       (\<lambda>(n, d1). Inr (n, add_gate_event
         (gate_event c XevDelivered (expected + 1) (xc_workflow_version c) None (Some consumer) now) d1))"

text \<open>The result names the card, the version it is resolved at and where the workflow went.\<close>

definition console_answered :: "exec_card_row \<Rightarrow> int \<Rightarrow> int option \<Rightarrow> workflow_status option
    \<Rightarrow> workflow_phase option \<Rightarrow> console_answer" where
  "console_answered c version wv st ph = ConsoleResult
     \<lparr>gr_disposition = GdApplied, gr_card_id = xc_id c, gr_version = Some (version + 1),
      gr_status = Some EsResolved, gr_workflow_version = wv, gr_workflow_status = st,
      gr_workflow_phase = ph, gr_wake_at = None, gr_refusal = None\<rparr>"

text \<open>A refused decision rolls back the internal delivery too, to \<open>d0\<close>.\<close>

definition console_settle :: "gate_env \<Rightarrow> gate_join \<Rightarrow> int \<Rightarrow> string \<Rightarrow> string option \<Rightarrow> time \<Rightarrow> db \<Rightarrow> db
    \<Rightarrow> exc + (console_answer \<times> db)" where
  "console_settle env j version action value now d0 d =
     (let c = gj_card j in
      if action \<in> {''discussion'', ''reassignment''}
      then rbind (console_input j version action (the value) now d) (\<lambda>(st, ph, d1).
           rbind (console_resolve c version (xc_workflow_version c + 1) (input_resolution action) now d1) (\<lambda>d2.
             Inr (console_answered c version (Some (xc_workflow_version c + 1)) (Some st) (Some ph), d2)))
      else rbind (console_decision env c version action value now d) (\<lambda>(r, d1).
           if \<not> xr_accepted r
           then Inr (ConsoleResult (gate_refused_row (xc_id c) (Some c) (workflow_refusal_of (xr_refusal r))), d0)
           else rbind (console_resolve c version (the (xr_version r)) (stored_action action) now d1) (\<lambda>d2.
             Inr (console_answered c version (xr_version r) (xr_status r) (xr_phase r), d2))))"

definition console_tx :: "gate_env \<Rightarrow> rowid \<Rightarrow> int \<Rightarrow> string \<Rightarrow> string option \<Rightarrow> string \<Rightarrow> time \<Rightarrow> db
    \<Rightarrow> exc + (console_answer \<times> db)" where
  "console_tx env k expected action value consumer now d =
     (let row = joined_gate k d;
          refuse = (\<lambda>ref. ConsoleResult (gate_refused_row k (map_option gj_card row) ref)) in
      case console_fence row expected now of
        Some ref \<Rightarrow> Inr (refuse ref, d)
      | None \<Rightarrow>
          let j = the row; c = gj_card j; held = held_gates consumer (xc_kind c) d in
          if CONSOLE_CEILING (xc_kind c) \<le> held then Inr (ConsoleCeiling held (CONSOLE_CEILING (xc_kind c)), d)
          else rbind (console_action_refusal env j action d) (\<lambda>fence.
            case fence of
              Some ref \<Rightarrow> Inr (refuse ref, d)
            | None \<Rightarrow>
                rbind (console_take c expected consumer now d) (\<lambda>(n, d1).
                  if n \<noteq> 1 then Inr (refuse GrStaleVersion, d)
                  else console_settle env j (expected + 1) action value now d d1)))"

definition resolve_queue_view :: "gate_env \<Rightarrow> rowid \<Rightarrow> int \<Rightarrow> string \<Rightarrow> string option \<Rightarrow> string option \<Rightarrow> string
    \<Rightarrow> time \<Rightarrow> db \<Rightarrow> (exc + console_answer) \<times> db" where
  "resolve_queue_view env k expected action input_kind value consumer now d =
     (if \<not> valid_identity k expected \<or> \<not> lower_hex 64 consumer
      then (Inr (ConsoleResult (gate_refused k GrInvalidArgument)), d)
      else case console_request_refusal action input_kind value of
             Some ref \<Rightarrow> (Inr (ConsoleResult (gate_refused k ref)), d)
           | None \<Rightarrow> run_tx (console_tx env k expected action value consumer now) d)"

end
