(* ===== verification/GateInv.thy ===== *)
theory GateInv
  imports GateConsole
begin

text \<open>
  The invariant of the card tables: every card passes its constraints and is explained by its log, a
  task has one active card, and a presentation is taken back of a cancelled card only, at most three
  times.  What one write of a card does to it.
\<close>

section \<open>What the log says\<close>

definition event_status :: "exec_card_event_kind \<Rightarrow> exec_card_status" where
  "event_status k =
     (case k of XevScheduled \<Rightarrow> EsPending | XevClaimed \<Rightarrow> EsDelivering | XevDelivered \<Rightarrow> EsDelivered
      | XevFailed \<Rightarrow> EsPending | XevExpired \<Rightarrow> EsPending | XevReleased \<Rightarrow> EsPending | XevRequeued \<Rightarrow> EsPending
      | XevRetracted \<Rightarrow> EsCancelled | XevRefreshed \<Rightarrow> EsDelivered | XevResolved \<Rightarrow> EsResolved
      | XevCancelled \<Rightarrow> EsCancelled)"

definition gate_said :: "exec_card_event \<Rightarrow> exec_card_status \<times> int" where
  "gate_said e = (event_status (xv_kind e), xv_card_version e)"

definition gate_state :: "exec_card_row \<Rightarrow> exec_card_status \<times> int" where
  "gate_state c = (xc_status c, xc_version c)"

definition retraction_ok :: "retraction_row \<Rightarrow> bool" where
  "retraction_ok r \<longleftrightarrow> 0 \<le> rt_attempts r \<and> rt_attempts r \<le> MAX_RETRACTION_ATTEMPTS
     \<and> (rt_state r = RtPending \<longrightarrow> rt_attempts r < MAX_RETRACTION_ATTEMPTS)
     \<and> (rt_state r = RtDelivering \<longleftrightarrow> rt_claim_token_digest r \<noteq> None)"

definition taken_back :: "exec_card_row list \<Rightarrow> retraction_row list \<Rightarrow> bool" where
  "taken_back cs rs \<longleftrightarrow> unique_key rt_card_id rs \<and> list_all retraction_ok rs
     \<and> list_all (\<lambda>r. \<exists>c \<in> set cs. xc_id c = rt_card_id r \<and> xc_status c = EsCancelled) rs"

definition gates_ok :: "db \<Rightarrow> bool" where
  "gates_ok d \<longleftrightarrow> table_ok xc_id gate_check gate_state xv_card_id gate_said (gate_cards d) (exec_card_events (gates d))
     \<and> one_active (gate_cards d) \<and> taken_back (gate_cards d) (retractions (gates d))"

lemma gates_okD:
  assumes "gates_ok d"
  shows "table_ok xc_id gate_check gate_state xv_card_id gate_said (gate_cards d) (exec_card_events (gates d))"
    and "unique_key xc_id (gate_cards d)" and "one_active (gate_cards d)"
    and "taken_back (gate_cards d) (retractions (gates d))"
    and "c \<in> set (gate_cards d) \<Longrightarrow> gate_check c"
  using assms table_okD [of xc_id gate_check gate_state xv_card_id gate_said "gate_cards d"]
  by (auto simp: gates_ok_def)

section \<open>What a request may do to a card\<close>

definition settled :: "exec_card_row \<Rightarrow> bool" where
  "settled c \<longleftrightarrow> \<not> gate_active (xc_status c)"

text \<open>A card keeps its task and its question; once settled it keeps its version and its answer too.\<close>

definition gate_evolves :: "exec_card_row \<Rightarrow> exec_card_row \<Rightarrow> bool" where
  "gate_evolves c c' \<longleftrightarrow> xc_id c' = xc_id c \<and> xc_task_id c' = xc_task_id c \<and> xc_task_version c' = xc_task_version c
     \<and> xc_kind c' = xc_kind c \<and> xc_phase c' = xc_phase c \<and> xc_result_id c' = xc_result_id c
     \<and> xc_version c \<le> xc_version c'
     \<and> (settled c \<longrightarrow> xc_status c' = xc_status c \<and> xc_version c' = xc_version c \<and> xc_resolution c' = xc_resolution c)"

lemma gate_evolves_refl [simp]: "gate_evolves c c"
  by (simp add: gate_evolves_def)

lemma gate_evolves_trans: "gate_evolves c e \<Longrightarrow> gate_evolves e g \<Longrightarrow> gate_evolves c g"
  by (auto simp: gate_evolves_def settled_def)

definition gates_evolve :: "db \<Rightarrow> db \<Rightarrow> bool" where
  "gates_evolve d d' \<longleftrightarrow> (\<forall>c \<in> set (gate_cards d). \<exists>c' \<in> set (gate_cards d'). gate_evolves c c')"

text \<open>What every operation does; it composes.\<close>

definition keeps_gates :: "db \<Rightarrow> db \<Rightarrow> bool" where
  "keeps_gates d d' \<longleftrightarrow> (gates_ok d \<longrightarrow> gates_ok d' \<and> gates_evolve d d')"

lemma keeps_gatesD: "keeps_gates d d' \<Longrightarrow> gates_ok d \<Longrightarrow> gates_ok d' \<and> gates_evolve d d'"
  by (simp add: keeps_gates_def)

lemma gates_evolve_refl [simp]: "gates_evolve d d"
  by (auto simp: gates_evolve_def intro: gate_evolves_refl)

lemma gates_evolve_trans: "gates_evolve d d1 \<Longrightarrow> gates_evolve d1 d2 \<Longrightarrow> gates_evolve d d2"
  unfolding gates_evolve_def by (meson gate_evolves_trans)

lemma keeps_gates_refl [simp]: "keeps_gates d d"
  by (simp add: keeps_gates_def)

lemma keeps_gates_trans: "keeps_gates d d1 \<Longrightarrow> keeps_gates d1 d2 \<Longrightarrow> keeps_gates d d2"
  using gates_evolve_trans unfolding keeps_gates_def by blast

text \<open>The three tables as they were.\<close>

definition same_gates :: "db \<Rightarrow> db \<Rightarrow> bool" where
  "same_gates d d' \<longleftrightarrow> gate_cards d' = gate_cards d \<and> exec_card_events (gates d') = exec_card_events (gates d)
     \<and> retractions (gates d') = retractions (gates d)"

lemma same_gates_refl [simp]: "same_gates d d"
  by (simp add: same_gates_def)

lemma same_gates_trans: "same_gates d d1 \<Longrightarrow> same_gates d1 d2 \<Longrightarrow> same_gates d d2"
  by (simp add: same_gates_def)

lemma same_gates_ok: "same_gates d d' \<Longrightarrow> gates_ok d' = gates_ok d"
  by (simp add: same_gates_def gates_ok_def)

lemma same_keeps_gates:
  assumes "same_gates d d'"
  shows "keeps_gates d d'"
proof -
  have "\<exists>c' \<in> set (gate_cards d'). gate_evolves c c'" if "c \<in> set (gate_cards d)" for c
    using that assms by (intro bexI [of _ c]) (simp_all add: same_gates_def)
  then have "gates_evolve d d'" by (simp add: gates_evolve_def)
  then show ?thesis using same_gates_ok [OF assms] by (simp add: keeps_gates_def)
qed

section \<open>One write\<close>

lemma written_evolve:
  assumes "unique_key xc_id cs" and "c \<in> set cs" and "gate_evolves c c'" and "x \<in> set cs"
  shows "\<exists>x' \<in> set (update_where (\<lambda>x. xc_id x = xc_id c) (\<lambda>_. c') cs). gate_evolves x x'"
proof (cases "xc_id x = xc_id c")
  case True
  then have "x = c" using same_row [OF assms(1,2,4)] by simp
  then show ?thesis using assms(2,3) by (auto simp: set_update_where)
next
  case False
  then show ?thesis using assms(4) by (auto simp: set_update_where intro!: bexI [of _ x])
qed

lemma written_taken_back:
  assumes u: "unique_key xc_id cs" and c: "c \<in> set cs" and e: "gate_evolves c c'" and t: "taken_back cs rs"
  shows "taken_back (update_where (\<lambda>x. xc_id x = xc_id c) (\<lambda>_. c') cs) rs"
proof -
  have "\<exists>x' \<in> set (update_where (\<lambda>x. xc_id x = xc_id c) (\<lambda>_. c') cs). xc_id x' = rt_card_id r \<and> xc_status x' = EsCancelled"
    if r: "r \<in> set rs" for r
  proof -
    obtain x where x: "x \<in> set cs" "xc_id x = rt_card_id r" "xc_status x = EsCancelled"
      using t r by (auto simp: taken_back_def list_all_iff)
    from written_evolve [OF u c e x(1)] show ?thesis
      using x by (auto simp: gate_evolves_def settled_def gate_active_def)
  qed
  then show ?thesis using t by (simp add: taken_back_def list_all_iff)
qed

text \<open>
  A guarded write that meets the card it was meant for: it meets nothing else, and the event has to
  say what the card is now.
\<close>

lemma write_gate_keeps:
  assumes ok: "gates_ok d" and w: "write_gate hit f e d = Inr (n, d')" and c: "c \<in> set (gate_cards d)"
    and hit: "hit c" "\<And>x. hit x \<Longrightarrow> xc_id x = xc_id c"
    and f: "gate_evolves c (f c)" and e: "xv_card_id e = xc_id c" "gate_said e = gate_state (f c)"
  shows "n = 1 \<and> gates_ok d' \<and> gates_evolve d d' \<and> f c \<in> set (gate_cards d')
    \<and> (\<forall>x \<in> set (gate_cards d). xc_id x \<noteq> xc_id c \<longrightarrow> x \<in> set (gate_cards d'))"
proof -
  note u = gates_okD(2) [OF ok]
  note wr = update_is_write [where key = xc_id and hit = hit, OF u c hit]
  obtain d1 where d1: "update_gates hit f d = Inr (n, d1)" "d' = add_gate_event e d1"
    using w by (auto simp: write_gate_def rbind_Inr_iff)
  have check: "gate_check (f c)" and one: "one_active (update_where hit f (gate_cards d))" and n: "n = 1"
    and cards: "gate_cards d' = update_where (\<lambda>x. xc_id x = xc_id c) (\<lambda>_. f c) (gate_cards d)"
    and log: "exec_card_events (gates d') = exec_card_events (gates d) @ [e]"
    and retr: "retractions (gates d') = retractions (gates d)"
    using d1 wr(2,3) by (auto simp: update_gates_Inr wr(1))
  have id: "xc_id (f c) = xc_id c" using f by (simp add: gate_evolves_def)
  have table: "table_ok xc_id gate_check gate_state xv_card_id gate_said (gate_cards d') (exec_card_events (gates d'))"
    unfolding cards log by (rule table_ok_write [OF gates_okD(1) [OF ok] c id check e])
  have "one_active (gate_cards d')" using one wr(1) [of f] cards by simp
  then have "gates_ok d'"
    using table written_taken_back [OF u c f gates_okD(4) [OF ok]] by (simp add: gates_ok_def cards retr)
  moreover have "gates_evolve d d'"
    unfolding gates_evolve_def cards using written_evolve [OF u c f] by blast
  moreover have "f c \<in> set (gate_cards d')" unfolding cards using c by (auto simp: set_update_where)
  moreover have "\<forall>x \<in> set (gate_cards d). xc_id x \<noteq> xc_id c \<longrightarrow> x \<in> set (gate_cards d')"
    unfolding cards by (auto simp: set_update_where)
  ultimately show ?thesis using n by simp
qed

lemmas write_gate_kept = write_gate_keeps [THEN conjunct2, THEN conjunct1]

end
