(* ===== verification/GateQueueOps.thy ===== *)
theory GateQueueOps
  imports GateInv
begin

text \<open>
  Every operation of the queue and of the delivery keeps the invariant of the card tables, and only
  lets cards evolve.
\<close>

section \<open>Transactions\<close>

lemma gate_tx_keeps:
  assumes "\<And>x d'. h d = Inr (x, d') \<Longrightarrow> keeps_gates d d'"
  shows "keeps_gates d (snd (run_tx h d))"
  using assms by (auto simp: run_tx_def split: sum.split)

lemma commit_applied_keeps:
  assumes "\<And>r d'. h d = Inr (r, d') \<Longrightarrow> gr_disposition r = GdApplied \<Longrightarrow> keeps_gates d d'"
  shows "keeps_gates d (snd (commit_applied h d))"
  using assms by (auto simp: commit_applied_def split: sum.split)

section \<open>Joined rows\<close>

lemma joined_card: "joined d c = Some j \<Longrightarrow> gj_card j = c"
  by (auto simp: joined_def split: if_splits option.splits)

lemma joined_gateD:
  assumes "joined_gate k d = Some j"
  shows "gj_card j \<in> set (gate_cards d)" and "xc_id (gj_card j) = k" and "joined d (gj_card j) = Some j"
  using assms by (auto simp: joined_gate_def joined_card dest!: find_SomeD split: option.splits)

lemma set_map_filter: "x \<in> set (List.map_filter f xs) \<longleftrightarrow> (\<exists>y \<in> set xs. f y = Some x)"
  by (induction xs) (auto simp: List.map_filter_simps split: option.split)

lemma card_selectD:
  assumes "j \<in> set (card_select hit d)"
  shows "gj_card j \<in> set (gate_cards d)" and "hit (gj_card j)" and "joined d (gj_card j) = Some j"
  using assms by (auto simp: card_select_def set_map_filter joined_card)

lemma distinct_map_some:
  assumes "distinct (map key xs)" and "\<And>x y. f x = Some y \<Longrightarrow> key' y = key x"
  shows "distinct (map key' (List.map_filter f xs))"
  using assms(1)
proof (induction xs)
  case Nil
  then show ?case by (simp add: List.map_filter_simps)
next
  case (Cons x xs)
  then show ?case
    by (cases "f x") (auto simp: List.map_filter_simps set_map_filter assms(2))
qed

lemma card_select_distinct:
  assumes "unique_key xc_id (gate_cards d)"
  shows "distinct (map (\<lambda>j. xc_id (gj_card j)) (card_select hit d))"
  unfolding card_select_def
proof (rule distinct_map_some [where key = xc_id])
  show "distinct (map xc_id (filter hit (gate_cards d)))"
    using assms by (simp add: unique_key_def distinct_map_filter)
  show "xc_id (gj_card j) = xc_id c" if "joined d c = Some j" for c j
    using joined_card [OF that] by simp
qed

section \<open>Cancelling\<close>

lemma taken_back_insert:
  assumes t: "taken_back cs rs" and c: "c \<in> set cs" "xc_id c = k" "xc_status c = EsCancelled"
    and rs: "rs' = (if row_of rt_card_id k rs \<noteq> None then rs else rs @ [r])"
    and r: "rt_card_id r = k" "rt_attempts r = 0" "rt_state r = RtPending" "rt_claim_token_digest r = None"
  shows "taken_back cs rs'"
proof (cases "row_of rt_card_id k rs")
  case None
  then have "k \<notin> rt_card_id ` set rs" by (auto simp: find_None_iff)
  then have "unique_key rt_card_id (rs @ [r])" using t r(1) by (auto simp: taken_back_def unique_key_def)
  moreover have "retraction_ok r" using r by (simp add: retraction_ok_def MAX_RETRACTION_ATTEMPTS_def)
  ultimately show ?thesis using t c r(1) rs None by (auto simp: taken_back_def)
next
  case (Some x)
  then show ?thesis using t rs by simp
qed

lemma retract_taken_back:
  assumes t: "taken_back (gate_cards d) (retractions (gates d))" and c: "c' \<in> set (gate_cards d)"
    "xc_id c' = xc_id c" "xc_status c' = EsCancelled"
  shows "taken_back (gate_cards d) (retractions (gates (retract_presentation c now d)))"
proof (cases "retractions (gates (retract_presentation c now d)) = retractions (gates d)")
  case False
  then obtain transport ref where "xc_transport c = Some transport" "xc_delivery_ref c = Some ref"
    "retractions (gates (retract_presentation c now d))
      = retractions (gates (insert_retraction (xc_id c) transport ref now d))"
    by (auto simp: retract_presentation_def split: option.splits)
  moreover from this have "row_of rt_card_id (xc_id c) (retractions (gates d)) = None"
    using False by (auto simp: insert_retraction_def split: if_splits)
  ultimately have "retractions (gates (retract_presentation c now d))
      = (if row_of rt_card_id (xc_id c) (retractions (gates d)) \<noteq> None then retractions (gates d)
         else retractions (gates d) @ [\<lparr>rt_card_id = xc_id c, rt_transport = transport,
           rt_delivery_ref = ref, rt_state = RtPending, rt_attempts = 0, rt_claim_token_digest = None,
           rt_claim_expires_at = None, rt_created_at = now, rt_updated_at = now\<rparr>])"
    using False by (auto simp: insert_retraction_def split: if_splits)
  from taken_back_insert [OF t c this] show ?thesis by simp
qed (use t in simp)

text \<open>An active card is cancelled where it stands, its presentation listed to be taken back.\<close>

lemma cancel_gate_keeps:
  assumes ok: "gates_ok d" and w: "cancel_gate wv now c d = Inr d'" and c: "c \<in> set (gate_cards d)"
    and active: "gate_active (xc_status c)"
  shows "gates_ok d' \<and> gates_evolve d d' \<and> gate_cancelled now c \<in> set (gate_cards d')
    \<and> (\<forall>x \<in> set (gate_cards d). xc_id x \<noteq> xc_id c \<longrightarrow> x \<in> set (gate_cards d'))"
proof -
  let ?e = "gate_event c XevCancelled (xc_version c + 1) wv None None now"
  let ?hit = "\<lambda>x. xc_id x = xc_id c \<and> xc_version x = xc_version c"
  obtain n d1 where d1: "update_gates ?hit (gate_cancelled now) d = Inr (n, d1)"
      "d' = add_gate_event ?e (retract_presentation c now d1)"
    using w by (auto simp: cancel_gate_def rbind_Inr_iff)
  have w2: "write_gate ?hit (gate_cancelled now) ?e d = Inr (n, add_gate_event ?e d1)"
    using d1(1) by (simp add: write_gate_def)
  have k: "gates_ok (add_gate_event ?e d1) \<and> gates_evolve d (add_gate_event ?e d1)
      \<and> gate_cancelled now c \<in> set (gate_cards (add_gate_event ?e d1))
      \<and> (\<forall>x \<in> set (gate_cards d). xc_id x \<noteq> xc_id c \<longrightarrow> x \<in> set (gate_cards (add_gate_event ?e d1)))"
    by (rule write_gate_keeps [OF ok w2 c, THEN conjunct2])
      (use active in \<open>auto simp: gate_evolves_def settled_def gate_cancelled_def gate_event_def gate_said_def
        gate_state_def event_status_def\<close>)
  then have c': "gate_cancelled now c \<in> set (gate_cards d1)" by simp
  have "taken_back (gate_cards d1) (retractions (gates d1))" using k by (simp add: gates_ok_def)
  from retract_taken_back [OF this c', of c now]
  have "taken_back (gate_cards d1) (retractions (gates (retract_presentation c now d1)))"
    by (simp add: gate_cancelled_def)
  then show ?thesis using k unfolding d1(2) by (simp add: gates_ok_def gates_evolve_def)
qed

text \<open>A card read before a loop, still as it was read and still active.\<close>

definition still_active :: "gate_join \<Rightarrow> db \<Rightarrow> bool" where
  "still_active j d \<longleftrightarrow> gj_card j \<in> set (gate_cards d) \<and> gate_active (xc_status (gj_card j))"

lemma cancel_if_stale_keeps:
  assumes "gates_ok d" and "still_active j d" and "cancel_if_stale now j d = Inr d'"
  shows "gates_ok d' \<and> gates_evolve d d'
    \<and> (\<forall>x. xc_id (gj_card x) \<noteq> xc_id (gj_card j) \<longrightarrow> still_active x d \<longrightarrow> still_active x d')"
proof (cases "current_gate j")
  case False
  then have "cancel_gate (xc_workflow_version (gj_card j)) now (gj_card j) d = Inr d'"
    using assms(3) by (simp add: cancel_if_stale_def)
  from cancel_gate_keeps [OF assms(1) this] show ?thesis using assms(2) by (simp add: still_active_def)
qed (use assms in \<open>simp add: cancel_if_stale_def\<close>)

lemma cancel_stale_keeps:
  assumes "cancel_stale_gates now d = Inr (n, d')"
  shows "keeps_gates d d'"
  unfolding keeps_gates_def
proof
  assume ok: "gates_ok d"
  have run: "each (cancel_if_stale now) (active_gates d) d = Inr d'"
    using assms by (simp add: cancel_stale_gates_def rbind_Inr_iff)
  show "gates_ok d' \<and> gates_evolve d d'"
    by (rule each_snapshot [where key = "\<lambda>j. xc_id (gj_card j)" and mem = still_active,
        OF cancel_if_stale_keeps gates_evolve_refl gates_evolve_trans ok _ _ run])
      (use card_select_distinct gates_okD(2) [OF ok] in \<open>auto simp: active_gates_def still_active_def dest: card_selectD\<close>)
qed

section \<open>Creating\<close>

lemma insert_gate_keeps:
  assumes ok: "gates_ok d" and w: "insert_gate c d = Inr d1" and k: "xc_id c = next_id xc_id (gate_cards d)"
    and e: "xv_card_id e = xc_id c" "gate_said e = gate_state c"
  shows "gates_ok (add_gate_event e d1) \<and> gates_evolve d (add_gate_event e d1)"
proof -
  have c: "gate_check c" "one_active (gate_cards d @ [c])" "d1 = set_gate_cards (gate_cards d @ [c]) d"
    using w by (auto simp: insert_gate_def split: if_splits)
  have "table_ok xc_id gate_check gate_state xv_card_id gate_said (gate_cards d @ [c]) (exec_card_events (gates d) @ [e])"
    by (rule table_ok_insert [OF gates_okD(1) [OF ok] k c(1) e])
  moreover have "taken_back (gate_cards d @ [c]) (retractions (gates d))"
    using gates_okD(4) [OF ok] by (auto simp: taken_back_def list_all_iff)
  moreover have "gates_evolve d (add_gate_event e d1)"
    unfolding gates_evolve_def
  proof
    fix x assume "x \<in> set (gate_cards d)"
    then show "\<exists>x' \<in> set (gate_cards (add_gate_event e d1)). gate_evolves x x'"
      by (intro bexI [of _ x]) (simp_all add: c(3))
  qed
  ultimately show ?thesis using c by (simp add: gates_ok_def)
qed

lemma create_gate_keeps: "create_gate now w d = Inr d' \<Longrightarrow> keeps_gates d d'"
  unfolding keeps_gates_def create_gate_def Let_def
  by (auto simp: rbind_Inr_iff split: option.splits
      intro!: insert_gate_keeps [THEN conjunct1] insert_gate_keeps [THEN conjunct2]
      simp: new_gate_def gate_event_def gate_said_def gate_state_def event_status_def)

lemma schedule_tx_keeps: "schedule_gates_tx env limit now d = Inr (r, d') \<Longrightarrow> keeps_gates d d'"
  unfolding schedule_gates_tx_def Let_def
  by (auto simp: rbind_Inr_iff intro: keeps_gates_trans [OF cancel_stale_keeps]
      each_keeps [of keeps_gates, OF keeps_gates_refl keeps_gates_trans create_gate_keeps])

end
