(* ===== verification/GateDeliveryOps.thy ===== *)
theory GateDeliveryOps
  imports GateQueueOps
begin

text \<open>
  Every claim, report, repair and requeue of a delivery keeps the invariant of the card tables, and so
  do the digests of live runs and the presentations that are taken back.
\<close>

section \<open>Guards and single writes\<close>

lemma gate_guard_None: "gate_guard row v = None \<longleftrightarrow> (\<exists>c. row = Some c \<and> xc_version c = v)"
  by (auto simp: gate_guard_def split: option.split)

lemma delivered_fence_None:
  "delivered_fence row v = None \<longleftrightarrow> (\<exists>j. row = Some j \<and> xc_version (gj_card j) = v
     \<and> xc_status (gj_card j) = EsDelivered \<and> current_gate j)"
  by (auto simp: delivered_fence_def gate_guard_def split: option.splits)

lemma recover_fence_None:
  "recover_fence row v now = None \<longleftrightarrow> (\<exists>j. row = Some j \<and> xc_version (gj_card j) = v
     \<and> xc_status (gj_card j) = EsDelivering \<and> reached (xc_claim_expires_at (gj_card j)) now \<and> current_gate j)"
  by (auto simp: recover_fence_def gate_guard_def split: option.splits)

lemma gate_ofD: "gate_of k d = Some c \<Longrightarrow> c \<in> set (gate_cards d) \<and> xc_id c = k"
  by (rule find_SomeD)

lemma one_write:
  assumes "write_gate hit f e d = Inr (n, d')" and "c \<in> set (gate_cards d)" and "hit c"
    and "\<And>x. hit x \<Longrightarrow> xc_id x = xc_id c" and "gate_evolves c (f c)"
    and "xv_card_id e = xc_id c" and "gate_said e = gate_state (f c)"
  shows "keeps_gates d d'"
  using write_gate_keeps [OF _ assms] unfolding keeps_gates_def by blast

text \<open>What the writes of a card and their events say, for the side conditions.\<close>

lemmas gate_writes = gate_evolves_def settled_def gate_active_def gate_event_def gate_said_def gate_state_def
  event_status_def at_gate_def unclaim_def unpresented_def expired_gate_def claimed_gate_def delivered_gate_def
  returned_gate_def superseded_def resolved_gate_def refreshed_gate_def console_delivered_def

section \<open>Claiming\<close>

definition still_lent :: "exec_card_row \<Rightarrow> db \<Rightarrow> bool" where
  "still_lent c d \<longleftrightarrow> c \<in> set (gate_cards d) \<and> xc_status c = EsDelivering"

lemma expire_gate_keeps:
  assumes ok: "gates_ok d" and c: "still_lent c d" and e: "expire_gate now c d = Inr d'"
  shows "gates_ok d' \<and> gates_evolve d d' \<and> (\<forall>x. xc_id x \<noteq> xc_id c \<longrightarrow> still_lent x d \<longrightarrow> still_lent x d')"
proof -
  obtain n where w: "write_gate (\<lambda>x. at_gate (xc_id c) (xc_version c) x \<and> xc_status x = EsDelivering)
      (expired_gate (xc_version c + 1) now)
      (gate_event c XevExpired (xc_version c + 1) (xc_workflow_version c) None None now) d = Inr (n, d')"
    using e by (auto simp: expire_gate_def rbind_Inr_iff)
  have m: "c \<in> set (gate_cards d)" "xc_status c = EsDelivering" using c by (simp_all add: still_lent_def)
  have "n = 1 \<and> gates_ok d' \<and> gates_evolve d d' \<and> expired_gate (xc_version c + 1) now c \<in> set (gate_cards d')
      \<and> (\<forall>x \<in> set (gate_cards d). xc_id x \<noteq> xc_id c \<longrightarrow> x \<in> set (gate_cards d'))"
    by (rule write_gate_keeps [OF ok w m(1)]) (use m(2) in \<open>auto simp: gate_writes\<close>)
  then show ?thesis by (simp add: still_lent_def)
qed

lemma expire_gates_keeps: "expire_gates now d = Inr d' \<Longrightarrow> keeps_gates d d'"
  unfolding keeps_gates_def
proof
  assume run: "expire_gates now d = Inr d'" and ok: "gates_ok d"
  have "distinct (map xc_id (filter (lease_over now) (gate_cards d)))"
    using gates_okD(2) [OF ok] by (simp add: unique_key_def distinct_map_filter)
  from each_snapshot [where key = xc_id and mem = still_lent and good = gates_ok and R = gates_evolve,
      OF expire_gate_keeps gates_evolve_refl gates_evolve_trans ok this _ run [unfolded expire_gates_def]]
  show "gates_ok d' \<and> gates_evolve d d'" by (simp add: still_lent_def lease_over_def)
qed

lemma next_gateD:
  assumes "next_gate d = Some j"
  shows "gj_card j \<in> set (gate_cards d)" and "xc_status (gj_card j) = EsPending" and "joined d (gj_card j) = Some j"
proof -
  let ?sorted = "sort_key (\<lambda>j. gate_kind_rank (xc_kind (gj_card j))) (sort_key (\<lambda>j. xc_created_at (gj_card j))
      (sort_key (\<lambda>j. xc_id (gj_card j)) (waiting_gates d)))"
  obtain js where "?sorted = j # js" using assms by (auto simp: next_gate_def split: list.splits)
  from arg_cong [OF this, of set] have "j \<in> set (waiting_gates d)" by simp
  then show "gj_card j \<in> set (gate_cards d)" "xc_status (gj_card j) = EsPending" "joined d (gj_card j) = Some j"
    using card_selectD by (auto simp: waiting_gates_def)
qed

text \<open>What a claim did, when it lent a card.\<close>

lemma lendE:
  assumes "lend_gate env lease token role consumer now j d0 d = Inr (a, d')"
  obtains (same) "d' \<in> {d, d0}" "\<And>g. a \<noteq> Lent g"
  | (lent) n g where "a = Lent g" "current_gate j" "write_gate (\<lambda>x. at_gate (xc_id (gj_card j)) (xc_version (gj_card j)) x
        \<and> xc_status x = EsPending)
      (claimed_gate (ge_sha env token) (now + lease) consumer (xc_version (gj_card j) + 1) now)
      (gate_event (gj_card j) XevClaimed (xc_version (gj_card j) + 1) (xc_workflow_version (gj_card j)) None
        (Some consumer) now) d = Inr (n, d')"
  using assms by (auto simp: lend_gate_def Let_def rbind_Inr_iff split: if_splits option.splits)

lemma lend_gate_keeps:
  assumes "lend_gate env lease token role consumer now j d0 d = Inr (a, d')" and "keeps_gates d0 d"
    and j: "gj_card j \<in> set (gate_cards d)" "xc_status (gj_card j) = EsPending"
  shows "keeps_gates d0 d'"
  using assms(1)
proof (cases rule: lendE)
  case same
  then show ?thesis using assms(2) by auto
next
  case (lent n g)
  have "keeps_gates d d'" by (rule one_write [OF lent(3) j(1)]) (use j(2) in \<open>auto simp: gate_writes\<close>)
  with assms(2) show ?thesis by (rule keeps_gates_trans)
qed

lemma claim_gate_keeps: "claim_gate_tx env lease token role consumer now d = Inr (a, d') \<Longrightarrow> keeps_gates d d'"
  unfolding claim_gate_tx_def
  by (auto simp: rbind_Inr_iff split: option.splits
      intro: lend_gate_keeps [OF _ keeps_gates_trans [OF cancel_stale_keeps expire_gates_keeps]]
        keeps_gates_trans [OF cancel_stale_keeps expire_gates_keeps] dest: next_gateD)

section \<open>Reports\<close>

lemma complete_gate_keeps:
  assumes "complete_gate_tx sha k v token transport ref now d = Inr (r, d')"
  shows "keeps_gates d d'"
proof (cases "d' = d")
  case False
  then obtain c n where c: "gate_of k d = Some c" "xc_version c = v" "xc_status c = EsDelivering"
      "write_gate (at_gate k v) (delivered_gate transport ref now)
        (gate_event c XevDelivered v (xc_workflow_version c) None (xc_consumer_digest c) now) d = Inr (n, d')"
    using assms by (auto simp: complete_gate_tx_def Let_def gate_guard_None rbind_Inr_iff split: option.splits if_splits)
  note m = gate_ofD [OF c(1)]
  show ?thesis by (rule one_write [OF c(4) m [THEN conjunct1]]) (use c m in \<open>auto simp: gate_writes\<close>)
qed simp

lemma return_gate_keeps:
  assumes "return_gate_tx sha holder f kind reason consumer k v token now d = Inr (r, d')"
    and f: "\<And>c. xc_version c = v \<Longrightarrow> xc_status c = EsDelivering \<Longrightarrow> gate_evolves c (f c) \<and> gate_state (f c) = (event_status kind, v + 1)"
  shows "keeps_gates d d'"
proof (cases "d' = d")
  case False
  then obtain c n where c: "gate_of k d = Some c" "xc_version c = v" "xc_status c = EsDelivering"
      "write_gate (at_gate k v) f (gate_event c kind (v + 1) (xc_workflow_version c) reason consumer now) d = Inr (n, d')"
    using assms(1) by (auto simp: return_gate_tx_def Let_def gate_guard_None rbind_Inr_iff split: option.splits if_splits)
  note m = gate_ofD [OF c(1)]
  show ?thesis
    by (rule one_write [OF c(4) m [THEN conjunct1]])
      (use c m f [OF c(2,3)] in \<open>auto simp: at_gate_def gate_event_def gate_said_def\<close>)
qed simp

lemma retry_gate_keeps:
  assumes "retry_gate_tx k v now d = Inr (r, d')"
  shows "keeps_gates d d'"
proof (cases "d' = d")
  case False
  then obtain j n where j: "joined_gate k d = Some j" "xc_version (gj_card j) = v" "xc_status (gj_card j) = EsDelivered"
      "write_gate (\<lambda>x. at_gate k v x \<and> xc_status x = EsDelivered) (\<lambda>x. unpresented (returned_gate (v + 1) now x))
        (gate_event (gj_card j) XevFailed (v + 1) (xc_workflow_version (gj_card j)) None None now) d = Inr (n, d')"
    using assms by (auto simp: retry_gate_tx_def Let_def delivered_fence_None rbind_Inr_iff split: option.splits if_splits)
  show ?thesis
    by (rule one_write [OF j(4) joined_gateD(1) [OF j(1)]]) (use j joined_gateD(2) [OF j(1)] in \<open>auto simp: gate_writes\<close>)
qed simp

lemma recover_gate_keeps:
  assumes "recover_gate_tx k v now d = Inr (r, d')"
  shows "keeps_gates d d'"
proof (cases "d' = d")
  case False
  then obtain j n where j: "joined_gate k d = Some j" "xc_version (gj_card j) = v" "xc_status (gj_card j) = EsDelivering"
      "write_gate (\<lambda>x. at_gate k v x \<and> xc_status x = EsDelivering) (expired_gate (v + 1) now)
        (gate_event (gj_card j) XevExpired (v + 1) (xc_workflow_version (gj_card j)) None None now) d = Inr (n, d')"
    using assms by (auto simp: recover_gate_tx_def Let_def recover_fence_None rbind_Inr_iff split: option.splits if_splits)
  show ?thesis
    by (rule one_write [OF j(4) joined_gateD(1) [OF j(1)]]) (use j joined_gateD(2) [OF j(1)] in \<open>auto simp: gate_writes\<close>)
qed simp

section \<open>Asking again\<close>

definition still_shown :: "gate_join \<Rightarrow> db \<Rightarrow> bool" where
  "still_shown j d \<longleftrightarrow> gj_card j \<in> set (gate_cards d) \<and> xc_status (gj_card j) = EsDelivered"

lemma requeue_gate_keeps:
  assumes ok: "gates_ok d" and c: "still_shown j d" and e: "requeue_gate now j d = Inr d'"
  shows "gates_ok d' \<and> gates_evolve d d'
    \<and> (\<forall>x. xc_id (gj_card x) \<noteq> xc_id (gj_card j) \<longrightarrow> still_shown x d \<longrightarrow> still_shown x d')"
proof (cases "current_gate j")
  case True
  let ?c = "gj_card j"
  obtain n where w: "write_gate (\<lambda>x. at_gate (xc_id ?c) (xc_version ?c) x \<and> xc_status x = EsDelivered)
      (superseded (xc_version ?c + 1) now)
      (gate_event ?c XevRequeued (xc_version ?c + 1) (xc_workflow_version ?c) None None now) d = Inr (n, d')"
    using e True by (auto simp: requeue_gate_def Let_def rbind_Inr_iff split: if_splits)
  have m: "?c \<in> set (gate_cards d)" "xc_status ?c = EsDelivered" using c by (simp_all add: still_shown_def)
  have "n = 1 \<and> gates_ok d' \<and> gates_evolve d d' \<and> superseded (xc_version ?c + 1) now ?c \<in> set (gate_cards d')
      \<and> (\<forall>x \<in> set (gate_cards d). xc_id x \<noteq> xc_id ?c \<longrightarrow> x \<in> set (gate_cards d'))"
    by (rule write_gate_keeps [OF ok w m(1)]) (use m(2) in \<open>auto simp: gate_writes\<close>)
  then show ?thesis by (simp add: still_shown_def)
qed (use ok e in \<open>simp add: requeue_gate_def\<close>)

lemma unanswered_distinct:
  assumes "unique_key xc_id (gate_cards d)"
  shows "distinct (map (\<lambda>j. xc_id (gj_card j)) (unanswered_gates limit now d))"
    and "j \<in> set (unanswered_gates limit now d) \<Longrightarrow> still_shown j d"
proof -
  let ?js = "card_select (\<lambda>c. xc_status c = EsDelivered \<and> xc_kind c \<noteq> EkSteer
      \<and> reached (xc_delivered_at c) (now - 3600)) d"
  have "distinct (map (\<lambda>j. xc_id (gj_card j)) ?js)" by (rule card_select_distinct [OF assms])
  then have "inj_on (\<lambda>j. xc_id (gj_card j)) (set ?js)" "distinct ?js" by (simp_all add: distinct_map)
  then show "distinct (map (\<lambda>j. xc_id (gj_card j)) (unanswered_gates limit now d))"
    unfolding unanswered_gates_def take_map [symmetric]
    by (intro distinct_take) (simp add: distinct_map)
  show "j \<in> set (unanswered_gates limit now d) \<Longrightarrow> still_shown j d"
    unfolding unanswered_gates_def by (drule in_set_takeD) (auto simp: still_shown_def dest: card_selectD)
qed

lemma requeue_gates_keeps: "requeue_gates_tx limit now d = Inr (n, d') \<Longrightarrow> keeps_gates d d'"
proof -
  assume "requeue_gates_tx limit now d = Inr (n, d')"
  then obtain m d1 where d1: "cancel_stale_gates now d = Inr (m, d1)"
      "each (requeue_gate now) (unanswered_gates limit now d1) d1 = Inr d'"
    by (auto simp: requeue_gates_tx_def Let_def rbind_Inr_iff)
  have "keeps_gates d1 d'"
    unfolding keeps_gates_def
  proof
    assume ok: "gates_ok d1"
    note u = unanswered_distinct [OF gates_okD(2) [OF ok]]
    show "gates_ok d' \<and> gates_evolve d1 d'"
      by (rule each_snapshot [where key = "\<lambda>j. xc_id (gj_card j)" and mem = still_shown,
          OF requeue_gate_keeps gates_evolve_refl gates_evolve_trans ok u(1) _ d1(2)]) (use u(2) in auto)
  qed
  with cancel_stale_keeps [OF d1(1)] show "keeps_gates d d'" by (rule keeps_gates_trans)
qed

end
