(* ===== verification/GateHoldOps.thy ===== *)
theory GateHoldOps
  imports GateDeliveryOps
begin

text \<open>
  Digests of live runs, presentations taken back and the polling of owner holds keep the invariant of
  the card tables.
\<close>

section \<open>Writes that say nothing new\<close>

lemma quiet_check:
  assumes "update_gates hit f d = Inr (n, d')" and "c \<in> set (gate_cards d)" and "gate_check c"
  shows "gate_check (if hit c then f c else c)"
  using assms by (auto simp: update_gates_Inr list_all_iff)

lemma quiet_write:
  assumes w: "update_gates hit f d = Inr (n, d')"
    and f: "\<And>c. gate_evolves c (f c)" "\<And>c. gate_state (f c) = gate_state c"
  shows "keeps_gates d d'"
  unfolding keeps_gates_def
proof
  assume ok: "gates_ok d"
  let ?cs = "update_where hit f (gate_cards d)"
  have cards: "gate_cards d' = ?cs" "exec_card_events (gates d') = exec_card_events (gates d)"
      "retractions (gates d') = retractions (gates d)" and one: "one_active ?cs"
    using w by (auto simp: update_gates_Inr)
  have id: "xc_id (f c) = xc_id c" for c using f(1) [of c] by (simp add: gate_evolves_def)
  have u: "unique_key xc_id ?cs" using gates_okD(2) [OF ok] id by (simp add: unique_key_update)
  have row: "gate_check x \<and> last_said xv_card_id gate_said (xc_id x) (exec_card_events (gates d)) = Some (gate_state x)"
    if x: "x \<in> set ?cs" for x
  proof -
    obtain c where c: "c \<in> set (gate_cards d)" "x = (if hit c then f c else c)" using x by (rule update_whereE)
    have "gate_check c" and "last_said xv_card_id gate_said (xc_id c) (exec_card_events (gates d)) = Some (gate_state c)"
      using table_okD(2,3) [OF gates_okD(1) [OF ok] c(1)] by simp_all
    then show ?thesis using quiet_check [OF w c(1)] c(2) id f(2) by simp
  qed
  have evolve: "\<exists>x \<in> set ?cs. gate_evolves c x" if "c \<in> set (gate_cards d)" for c
    using that f(1) by (intro bexI [of _ "if hit c then f c else c"]) (auto simp: set_update_where)
  have "taken_back ?cs (retractions (gates d))"
    using gates_okD(4) [OF ok] evolve unfolding taken_back_def list_all_iff
    by (metis gate_evolves_def settled_def gate_active_def insertE singletonD exec_card_status.distinct)
  then have "gates_ok d'" using u row one by (simp add: gates_ok_def cards table_ok_def list_all_iff)
  moreover have "gates_evolve d d'" using evolve by (simp add: gates_evolve_def cards)
  ultimately show "gates_ok d' \<and> gates_evolve d d'" ..
qed

lemma count_refresh_same: "same_gates d (snd (count_refresh k now d))"
  by (simp add: count_refresh_def Let_def same_gates_def split: option.split)

lemma record_digest_keeps:
  assumes "record_digest_tx item digest now d = Inr (b, d')"
  shows "keeps_gates d d'"
proof (cases "d' = d")
  case False
  then obtain n d1 where w: "update_gates (\<lambda>c. at_gate (di_card_id item) (di_card_version item) c
        \<and> steers_run d c (Some (di_run_id item))) (\<lambda>c. c\<lparr>xc_steer_digest := Some digest, xc_updated_at := now\<rparr>) d = Inr (n, d1)"
      "d' = snd (count_refresh (di_card_id item) now d1)"
    using assms by (auto simp: record_digest_tx_def Let_def rbind_Inr_iff split_beta split: if_splits)
  have "keeps_gates d d1" by (rule quiet_write [OF w(1)]) (simp_all add: gate_evolves_def gate_state_def)
  then show ?thesis
    unfolding w(2) by (rule keeps_gates_trans) (rule same_keeps_gates [OF count_refresh_same])
qed simp

section \<open>Presentations taken back\<close>

lemma set_retractions_frame [simp]:
  "gate_cards (set_retractions rs d) = gate_cards d" "retractions (gates (set_retractions rs d)) = rs"
  "exec_card_events (gates (set_retractions rs d)) = exec_card_events (gates d)"
  by (simp_all add: set_retractions_def)

lemma retractions_written:
  assumes t: "taken_back cs rs"
    and f: "\<And>r. hit r \<Longrightarrow> retraction_ok r \<Longrightarrow> retraction_ok (f r)" "\<And>r. rt_card_id (f r) = rt_card_id r"
  shows "taken_back cs (update_where hit f rs)"
  using t f unfolding taken_back_def list_all_iff
  by (auto simp: unique_key_update set_update_where)

lemma retractions_keep:
  assumes "\<And>cs. taken_back cs (retractions (gates d)) \<Longrightarrow> taken_back cs rs"
  shows "keeps_gates d (set_retractions rs d)"
  unfolding keeps_gates_def
proof
  assume ok: "gates_ok d"
  have "gates_evolve d (set_retractions rs d)"
    using gates_evolve_refl [of d] unfolding gates_evolve_def by simp
  then show "gates_ok (set_retractions rs d) \<and> gates_evolve d (set_retractions rs d)"
    using ok assms by (simp add: gates_ok_def)
qed

lemma retraction_failed_ok: "retraction_ok r \<Longrightarrow> retraction_ok (retraction_failed now r)"
  by (auto simp: retraction_ok_def retraction_failed_def)

lemma retraction_claimed_ok: "retractable r \<Longrightarrow> retraction_ok r \<Longrightarrow> retraction_ok (retraction_claimed digest expires now r)"
  by (auto simp: retraction_ok_def retraction_claimed_def retractable_def MAX_RETRACTION_ATTEMPTS_def)

lemma retraction_ids [simp]:
  "rt_card_id (retraction_failed now r) = rt_card_id r"
  "rt_card_id (retraction_claimed digest expires now r) = rt_card_id r"
  by (simp_all add: retraction_failed_def retraction_claimed_def)

lemma claim_retraction_keeps:
  assumes "claim_retraction_tx sha lease token now d = Inr (c, d')"
  shows "keeps_gates d d'"
proof -
  let ?rows = "update_where (\<lambda>r. rt_state r = RtDelivering \<and> reached (rt_claim_expires_at r) now)
    (retraction_failed now) (retractions (gates d))"
  have 1: "taken_back cs ?rows" if "taken_back cs (retractions (gates d))" for cs
    by (rule retractions_written [OF that]) (simp_all add: retraction_failed_ok)
  have 2: "taken_back cs (update_where (\<lambda>x. rt_card_id x = k \<and> retractable x)
      (retraction_claimed (sha token) (now + lease) now) ?rows)" if "taken_back cs (retractions (gates d))" for cs k
    by (rule retractions_written [OF 1 [OF that]]) (simp_all add: retraction_claimed_ok)
  consider "d' = set_retractions ?rows d" | k where "d' = set_retractions (update_where
      (\<lambda>x. rt_card_id x = k \<and> retractable x) (retraction_claimed (sha token) (now + lease) now) ?rows) d"
    using assms by (auto simp: claim_retraction_tx_def Let_def split: list.splits)
  then show ?thesis using 1 2 by cases (simp_all add: retractions_keep)
qed

lemma fail_retraction_keeps: "keeps_gates d (snd (fail_retraction sha claim now d))"
  unfolding fail_retraction_def Let_def snd_conv
  by (rule retractions_keep, erule retractions_written) (simp_all add: retraction_failed_ok)

text \<open>The card of a presentation that was taken back is cancelled, and its log says so again.\<close>

lemma complete_retraction_keeps:
  assumes "complete_retraction_tx sha claim now d = Inr (b, d')"
  shows "keeps_gates d d'"
proof -
  let ?hit = "leased_by sha (tc_card_id claim) (tc_token claim)"
  let ?done = "\<lambda>r. r\<lparr>rt_state := RtCompleted, rt_claim_token_digest := None, rt_claim_expires_at := None, rt_updated_at := now\<rparr>"
  let ?d1 = "set_retractions (update_where ?hit ?done (retractions (gates d))) d"
  have k1: "keeps_gates d ?d1"
    by (rule retractions_keep, erule retractions_written) (auto simp: retraction_ok_def)
  show ?thesis
  proof (cases "rowcount ?hit (retractions (gates d)) = 0")
    case True
    then show ?thesis using assms k1 by (simp add: complete_retraction_tx_def Let_def)
  next
    case False
    then obtain m d2 c where d2: "update_gates (\<lambda>c. xc_id c = tc_card_id claim)
          (\<lambda>c. c\<lparr>xc_superseded_ref := None, xc_superseded_transport := None\<rparr>) ?d1 = Inr (m, d2)"
        "gate_of (tc_card_id claim) d = Some c"
        "d' = add_gate_event (gate_event c XevRetracted (xc_version c) (xc_workflow_version c) None None now) d2"
      using assms by (auto simp: complete_retraction_tx_def Let_def rbind_Inr_iff split: option.splits)
    have k2: "keeps_gates ?d1 d2"
      by (rule quiet_write [OF d2(1)]) (simp_all add: gate_evolves_def gate_state_def)
    show ?thesis
      unfolding keeps_gates_def
    proof
      assume ok: "gates_ok d"
      from False obtain r where r: "r \<in> set (retractions (gates d))" "rt_card_id r = tc_card_id claim"
        by (auto simp: rowcount_def leased_by_def filter_empty_conv)
      have c: "c \<in> set (gate_cards d)" "xc_id c = tc_card_id claim" using gate_ofD [OF d2(2)] by auto
      from gates_okD(4) [OF ok] r obtain x where x: "x \<in> set (gate_cards d)" "xc_id x = tc_card_id claim" "xc_status x = EsCancelled"
        by (auto simp: taken_back_def list_all_iff)
      have cancelled: "xc_status c = EsCancelled" using same_row [OF gates_okD(2) [OF ok] x(1) c(1)] x c by simp
      have ok2: "gates_ok d2" "gates_evolve d d2"
        using keeps_gatesD [OF keeps_gates_trans [OF k1 k2] ok] by simp_all
      then obtain c' where c': "c' \<in> set (gate_cards d2)" "gate_evolves c c'" using c(1) by (auto simp: gates_evolve_def)
      have "table_ok xc_id gate_check gate_state xv_card_id gate_said (gate_cards d2) (exec_card_events (gates d2)
          @ [gate_event c XevRetracted (xc_version c) (xc_workflow_version c) None None now])"
        by (rule table_ok_note [OF gates_okD(1) [OF ok2(1)] c'(1)])
          (use c'(2) cancelled in \<open>auto simp: gate_writes\<close>)
      then have "gates_ok d'" using ok2(1) by (simp add: d2(3) gates_ok_def)
      moreover have "gates_evolve d d'" using ok2(2) by (simp add: d2(3) gates_evolve_def)
      ultimately show "gates_ok d' \<and> gates_evolve d d'" ..
    qed
  qed
qed

end
