(* ===== verification/GateAnswerOps.thy ===== *)
theory GateAnswerOps
  imports GateHoldOps
begin

text \<open>
  Every answer of the reader keeps the invariant of the card tables: what it does to the task, the
  workflow and the holds leaves the cards alone, and the one write of the card settles it.
\<close>

section \<open>What the workflow's writes leave alone\<close>

lemma write_gates:
  "update_workflows hit f d = Inr (n, d') \<Longrightarrow> gates d' = gates d"
  "wf_event i kind wv tv ph st now d = Inr d' \<Longrightarrow> gates d' = gates d"
  "gates (snd (record_ownership_decision i tv os now d)) = gates d"
  "gates (snd (apply_task_transition i v a now d)) = gates d"
  by (auto simp: update_workflows_def wf_event_def insert_workflow_events_def record_ownership_decision_def apply_task_transition_def Let_def
      insert_task_event_def set_work_state_def split: if_splits option.splits prod.splits)

lemma transition_gates: "apply_task_transition i v a now d = (r, d') \<Longrightarrow> gates d' = gates d"
  using write_gates(4) [of i v a now d] by simp

lemma apply_gates:
  "apply_start_action local utc i v a now d = Inr (r, d') \<Longrightarrow> gates d' = gates d"
  "apply_review_action local utc i v a now d = Inr (r, d') \<Longrightarrow> gates d' = gates d"
  "bind_profile i v extra p w ph now d = Inr (r, d') \<Longrightarrow> gates d' = gates d"
  "apply_review_lifecycle_action row a now d = Inr (r, d') \<Longrightarrow> gates d' = gates d"
  "apply_steer_discussion c now d = Inr (r, d') \<Longrightarrow> gates d' = gates d"
  subgoal
    by (auto simp: apply_start_action_def Let_def rbind_Inr_iff write_gates(3) split_beta dest!: write_gates(1,2)
        split: if_splits option.splits)
  subgoal
    by (auto simp: apply_review_action_def Let_def rbind_Inr_iff simp del: append_Cons dest!: write_gates(1,2)
        split: if_splits option.splits)
  subgoal by (auto simp: bind_profile_def rbind_Inr_iff dest!: write_gates(1,2) split: if_splits)
  subgoal
    by (auto simp: apply_review_lifecycle_action_def Let_def rbind_Inr_iff dest!: write_gates(1,2) transition_gates
        split: if_splits prod.splits)
  subgoal by (auto simp: apply_steer_discussion_def Let_def rbind_Inr_iff dest!: write_gates(1,2) split: if_splits)
  done

lemma selection_gates:
  "apply_agent_selection i v p now d = Inr (r, d') \<Longrightarrow> gates d' = gates d"
  "apply_plan_review_agent_selection i v p now d = Inr (r, d') \<Longrightarrow> gates d' = gates d"
  by (auto simp: apply_agent_selection_def apply_plan_review_agent_selection_def Let_def rbind_Inr_iff
      dest!: apply_gates(3) split: if_splits option.splits)

lemma same_gatesI: "gates d' = gates d \<Longrightarrow> same_gates d d'"
  by (simp add: same_gates_def)

section \<open>Holds\<close>

lemma put_holds_same: "put_holds hs d = Inr d' \<Longrightarrow> same_gates d d'"
  by (auto simp: put_holds_def same_gates_def split: if_splits)

lemma hold_event_same: "same_gates d (hold_event h kind m r now d)"
  by (simp add: hold_event_def same_gates_def)

lemma hold_writes:
  "put_holds hs d = Inr d' \<Longrightarrow> same_gates d (hold_event h kind m r now d')"
  "same_gates d d1 \<Longrightarrow> gates d' = gates d1 \<Longrightarrow> same_gates d d'"
  using put_holds_same hold_event_same same_gates_trans by (blast, simp add: same_gates_def)

lemma cancel_hold_same: "cancel_hold h now d = Inr (u, d') \<Longrightarrow> same_gates d d'"
  by (auto simp: cancel_hold_def rbind_Inr_iff intro: hold_writes(1))

lemma apply_owner_hold_same:
  assumes "apply_owner_hold j now d = Inr (r, d')"
  shows "same_gates d d'"
proof -
  let ?c = "gj_card j"
  let ?version = "xc_workflow_version ?c + 1" and ?wake = "now + OWNER_HOLD_INTERVAL"
  obtain n d1 where d1: "update_workflows (\<lambda>x. at_version (xc_task_id ?c) (xc_workflow_version ?c) x
        \<and> wf_task_version x = xc_task_version ?c \<and> wf_status x \<in> {WfAwaitingStart, WfSnoozed, WfParked})
      (hold_workflow ?version ?wake now) d = Inr (n, d1)"
    using assms by (auto simp: apply_owner_hold_def Let_def rbind_Inr_iff)
  have s1: "same_gates d d1" using write_gates(1) [OF d1] by (rule same_gatesI)
  show ?thesis
  proof (cases "n = 1")
    case False
    then have "d' = d1" using assms unfolding apply_owner_hold_def Let_def d1 by simp
    then show ?thesis using s1 by simp
  next
    case True
    let ?h = "new_hold (next_id oh_id (owner_holds (gates d1))) ?c (tk_owner (gj_task j)) ?version ?wake now"
    obtain d2 where p: "put_holds (owner_holds (gates d1) @ [?h]) d1 = Inr d2"
        "wf_event (xc_task_id ?c) ''snoozed'' ?version (xc_task_version ?c) PhasePlan WfSnoozed now
          (hold_event ?h ''created'' None None now d2) = Inr d'"
      using assms True unfolding apply_owner_hold_def Let_def d1 by (auto simp: rbind_Inr_iff)
    have "same_gates d1 d'" by (rule hold_writes(2) [OF hold_writes(1) [OF p(1)] write_gates(2) [OF p(2)]])
    with s1 show ?thesis by (rule same_gates_trans)
  qed
qed

lemma finish_hold_same:
  assumes "finish_hold_tx k reason now d = Inr (u, d')"
  shows "same_gates d d'"
proof (cases "hold_of k d")
  case None
  then show ?thesis using assms by (simp add: finish_hold_tx_def)
next
  case (Some j)
  let ?h = "hj_hold j"
  let ?hit = "\<lambda>x. at_version (oh_task_id ?h) (oh_workflow_version ?h) x \<and> wf_task_version x = oh_task_version ?h
    \<and> wf_status x = WfSnoozed \<and> wf_due_at x = Some (oh_backstop_at ?h)"
  note run = assms [unfolded finish_hold_tx_def Some Let_def option.case]
  show ?thesis
  proof (cases "oh_status ?h \<noteq> HoldActive \<or> \<not> current_hold j \<or> reason = ''stale''")
    case True
    then have "d' = d \<or> cancel_hold ?h now d = Inr ((), d')" using run by (auto split: if_splits)
    then show ?thesis using cancel_hold_same by auto
  next
    case False
    obtain n d1 where w: "update_workflows ?hit (release_workflow (oh_workflow_version ?h + 1) now) d = Inr (n, d1)"
      using run False by (cases "update_workflows ?hit (release_workflow (oh_workflow_version ?h + 1) now) d") auto
    have s1: "same_gates d d1" using write_gates(1) [OF w] by (rule same_gatesI)
    show ?thesis
    proof (cases "n = 1")
      case lost: False
      then have "cancel_hold ?h now d1 = Inr ((), d')" using run False by (simp add: w)
      from same_gates_trans [OF s1 cancel_hold_same [OF this]] show ?thesis .
    next
      case True
      then obtain d2 where p: "put_holds (update_where (active_hold_at k) (end_hold HoldReleased reason now)
            (owner_holds (gates d1))) d1 = Inr d2"
          "wf_event (oh_task_id ?h) ''scheduled'' (oh_workflow_version ?h + 1) (oh_task_version ?h) PhasePlan
            WfAwaitingStart now (hold_event ?h ''released'' None None now d2) = Inr d'"
        using run False by (auto simp: w rbind_Inr_iff)
      have "same_gates d1 d'" by (rule hold_writes(2) [OF hold_writes(1) [OF p(1)] write_gates(2) [OF p(2)]])
      with s1 show ?thesis by (rule same_gates_trans)
    qed
  qed
qed

lemma run_tx_same: "(\<And>x d'. h d = Inr (x, d') \<Longrightarrow> same_gates d d') \<Longrightarrow> same_gates d (snd (run_tx h d))"
  by (auto simp: run_tx_def split: sum.split)

lemma finish_owner_hold_same: "same_gates d (snd (finish_owner_hold k reason now d))"
  unfolding finish_owner_hold_def by (rule run_tx_same [OF finish_hold_same])

lemma record_condition_same: "record_condition_tx k m now d = Inr (b, d') \<Longrightarrow> same_gates d d'"
  by (auto simp: record_condition_tx_def rbind_Inr_iff split: option.splits if_splits intro: hold_writes(1))

lemma record_owner_condition_same: "same_gates d (snd (record_owner_condition k m now d))"
proof -
  obtain r d1 where r: "run_tx (record_condition_tx k m now) d = (r, d1)" by force
  have s: "same_gates d d1" using run_tx_same [of "record_condition_tx k m now" d, OF record_condition_same] r by simp
  show ?thesis
    using s same_gates_trans [OF s finish_owner_hold_same]
    by (auto simp: record_owner_condition_def r split: sum.split)
qed

lemma poll_hold_same: "same_gates d (snd (poll_hold env now j d))"
  by (simp add: poll_hold_def Let_def finish_owner_hold_same record_owner_condition_same split: option.split)

lemma poll_holds_same: "same_gates d (snd (poll_holds env now js d))"
proof (induction js arbitrary: d)
  case (Cons j js)
  obtain r d1 where r: "poll_hold env now j d = (r, d1)" by force
  have "same_gates d d1" using poll_hold_same [of d env now j] r by simp
  then show ?case using r same_gates_trans [OF _ Cons.IH] by (cases r) simp_all
qed simp

lemma schedule_gates_keeps: "keeps_gates d (snd (schedule_gates env limit now d))"
proof -
  let ?js = "polled_holds (min limit MAX_OWNER_HOLD_CHECKS) d"
  obtain r d1 where r: "poll_holds env now ?js d = (r, d1)" by force
  have s: "keeps_gates d d1" using poll_holds_same [of d env now ?js] r by (simp add: same_keeps_gates)
  have "keeps_gates d1 (snd (run_tx (schedule_gates_tx env limit now) d1))"
    by (rule gate_tx_keeps [OF schedule_tx_keeps])
  then show ?thesis
    using s keeps_gates_trans [OF s] by (auto simp: schedule_gates_def r split: sum.split)
qed

end
