(* ===== verification/GateReplyOps.thy ===== *)
theory GateReplyOps
  imports GateAnswerOps
begin

text \<open>
  Every answer keeps the invariant of the card tables: what it does to the task, the workflow and the
  holds leaves the cards alone, and its last statement settles the card it answers.
\<close>

section \<open>Statements\<close>

lemma insert_reader_input_same: "insert_reader_input c v kind value prior now d = Inr d' \<Longrightarrow> same_gates d d'"
  by (auto simp: insert_reader_input_def same_gates_def split: if_splits)

lemma log_owner_change_same: "same_gates d (log_owner_change c from_owner value now d)"
  by (simp add: log_owner_change_def same_gates_def)

lemma reassign_task_same: "reassign_task c value now d = Inr d' \<Longrightarrow> same_gates d d'"
  by (auto simp: reassign_task_def close_ownership_review_def Let_def same_gates_def write_gates(3)
      split: if_splits option.splits)

lemma move_workflow_same:
  assumes "move_workflow c f kind tv ph st now d = Inr d'"
  shows "same_gates d d'"
proof (rule same_gatesI)
  show "gates d' = gates d"
    using assms by (auto simp: move_workflow_def rbind_Inr_iff split: if_splits dest!: write_gates(1,2))
qed

lemma gate_refused_row_disposition [simp]: "gr_disposition (gate_refused_row k row ref) = GdRefused"
  by (simp add: gate_refused_row_def gate_refused_def split: option.split)

text \<open>The card is resolved where it was read, after statements that left the tables alone.\<close>

definition delivered_at :: "exec_card_row \<Rightarrow> int \<Rightarrow> db \<Rightarrow> bool" where
  "delivered_at c v d \<longleftrightarrow> c \<in> set (gate_cards d) \<and> xc_version c = v \<and> xc_status c = EsDelivered"

lemma delivered_fence_at:
  assumes "delivered_fence (joined_gate k d) v = None"
  shows "\<exists>j. joined_gate k d = Some j \<and> delivered_at (gj_card j) v d \<and> xc_id (gj_card j) = k"
  using assms joined_gateD by (auto simp: delivered_fence_None delivered_at_def)

lemma resolve_gate_keeps:
  assumes s: "same_gates d d1" and c: "delivered_at c v d" and w: "resolve_gate c (v + 1) wv resolution now d1 = Inr d'"
  shows "keeps_gates d d'"
proof -
  have c1: "c \<in> set (gate_cards d1)" "xc_version c = v" "xc_status c = EsDelivered"
    using s c by (simp_all add: delivered_at_def same_gates_def)
  obtain n where w1: "write_gate (\<lambda>x. at_gate (xc_id c) v x \<and> xc_status x = EsDelivered)
      (resolved_gate (v + 1) resolution now) (gate_event c XevResolved (v + 1) wv (Some resolution) None now) d1 = Inr (n, d')"
    using w by (auto simp: resolve_gate_def rbind_Inr_iff split: if_splits)
  have "keeps_gates d1 d'" by (rule one_write [OF w1 c1(1)]) (use c1 in \<open>auto simp: gate_writes\<close>)
  with same_keeps_gates [OF s] show ?thesis by (rule keeps_gates_trans)
qed

section \<open>Decisions\<close>

lemma act_workflow_same:
  assumes "act_workflow env j action now d = Inr (answer, d')"
  shows "same_gates d d'"
  using assms
  by (auto simp: act_workflow_def Let_def rbind_Inr_iff split: if_splits
      dest!: apply_gates apply_owner_hold_same intro: same_gatesI)

lemma act_applied:
  assumes "act_gate_tx env k v action now d = Inr (r, d')" and "gr_disposition r = GdApplied"
  obtains j w d1 where "joined_gate k d = Some j" and "delivered_fence (Some j) v = None"
    and "delivered_at (gj_card j) v d" and "act_workflow env j action now d = Inr (Inr w, d1)" and "xr_accepted w"
    and "resolve_gate (gj_card j) (v + 1) (the (xr_version w)) (stored_action action) now d1 = Inr d'"
proof -
  obtain fence where "act_fence env (joined_gate k d) v action d = Inr fence"
    using assms(1) by (auto simp: act_gate_tx_def Let_def rbind_Inr_iff)
  then have f: "act_fence env (joined_gate k d) v action d = Inr None"
    using assms by (cases fence) (auto simp: act_gate_tx_def Let_def)
  then have f2: "delivered_fence (joined_gate k d) v = None" by (simp add: act_fence_def split: option.splits)
  obtain j where j: "joined_gate k d = Some j" "delivered_at (gj_card j) v d"
    using delivered_fence_at [OF f2] by blast
  obtain a d1 where a: "act_workflow env j action now d = Inr (a, d1)"
    using assms(1) f j(1) by (auto simp: act_gate_tx_def Let_def rbind_Inr_iff)
  then obtain w where w: "a = Inr w"
    using assms f j(1) by (cases a) (auto simp: act_gate_tx_def Let_def)
  show thesis
    using assms f a w j(1) f2
    by (intro that [OF j(1) _ j(2)]) (auto simp: act_gate_tx_def Let_def rbind_Inr_iff split: if_splits)
qed

lemma act_gate_tx_keeps:
  assumes "act_gate_tx env k v action now d = Inr (r, d')" and "gr_disposition r = GdApplied"
  shows "keeps_gates d d'"
  using assms
proof (rule act_applied)
  fix j w d1
  assume "delivered_at (gj_card j) v d" and a: "act_workflow env j action now d = Inr (Inr w, d1)"
    and "resolve_gate (gj_card j) (v + 1) (the (xr_version w)) (stored_action action) now d1 = Inr d'"
  then show ?thesis by (intro resolve_gate_keeps [OF act_workflow_same [OF a]])
qed

lemma act_gate_keeps: "keeps_gates d (snd (act_gate env k v action now d))"
  by (simp add: act_gate_def commit_applied_keeps [OF act_gate_tx_keeps])

section \<open>Notes and new owners\<close>

lemma submit_moves_same:
  "submit_discussion c now d = Inr (st, ph, d') \<Longrightarrow> same_gates d d'"
  "submit_reassignment j value now d = Inr (st, ph, d') \<Longrightarrow> same_gates d d'"
  subgoal by (auto simp: submit_discussion_def rbind_Inr_iff split_beta dest!: move_workflow_same)
  subgoal
    by (auto simp: submit_reassignment_def Let_def rbind_Inr_iff
        intro: same_gates_trans [OF reassign_task_same same_gates_trans [OF log_owner_change_same move_workflow_same]])
  done

lemma submit_applied:
  assumes "submit_input_tx k v kind value now d = Inr (r, d')" and "gr_disposition r = GdApplied"
  obtains j d1 st ph d2 where "joined_gate k d = Some j" and "delivered_fence (Some j) v = None"
    and "delivered_at (gj_card j) v d"
    and "insert_reader_input (gj_card j) v kind value
      (if kind = ''reassignment'' then ow_display (tk_owner (gj_task j)) else None) now d = Inr d1"
    and "(if kind = ''discussion'' then submit_discussion (gj_card j) now d1
      else submit_reassignment j value now d1) = Inr (st, ph, d2)"
    and "resolve_gate (gj_card j) (v + 1) (xc_workflow_version (gj_card j) + 1) (input_resolution kind) now d2 = Inr d'"
proof -
  have f: "input_fence (joined_gate k d) v kind value = None"
    using assms by (auto simp: submit_input_tx_def Let_def split: option.splits)
  then have f2: "delivered_fence (joined_gate k d) v = None" by (simp add: input_fence_def split: option.splits)
  obtain j where j: "joined_gate k d = Some j" "delivered_at (gj_card j) v d"
    using delivered_fence_at [OF f2] by blast
  let ?prior = "if kind = ''reassignment'' then ow_display (tk_owner (gj_task j)) else None"
  let ?move = "\<lambda>d1. if kind = ''discussion'' then submit_discussion (gj_card j) now d1
    else submit_reassignment j value now d1"
  have "input_fence (Some j) v kind value = None" using f j(1) by simp
  note run = assms(1) [unfolded submit_input_tx_def Let_def j(1) this option.case option.sel]
  obtain d1 where d1: "insert_reader_input (gj_card j) v kind value ?prior now d = Inr d1"
    using run by (cases "insert_reader_input (gj_card j) v kind value ?prior now d") auto
  obtain st ph d2 where m: "?move d1 = Inr (st, ph, d2)"
    using run d1 by (cases "?move d1") auto
  have "resolve_gate (gj_card j) (v + 1) (xc_workflow_version (gj_card j) + 1) (input_resolution kind) now d2 = Inr d'"
    using run unfolding d1 by (auto simp: m rbind_Inr_iff)
  with j f2 d1 m show thesis by (intro that [OF j(1) _ j(2) d1 m]) simp_all
qed

lemma submit_input_tx_keeps:
  assumes "submit_input_tx k v kind value now d = Inr (r, d')" and "gr_disposition r = GdApplied"
  shows "keeps_gates d d'"
  using assms
proof (rule submit_applied)
  fix j d1 st ph d2
  assume i: "insert_reader_input (gj_card j) v kind value
      (if kind = ''reassignment'' then ow_display (tk_owner (gj_task j)) else None) now d = Inr d1"
    and m: "(if kind = ''discussion'' then submit_discussion (gj_card j) now d1
      else submit_reassignment j value now d1) = Inr (st, ph, d2)"
    and c: "delivered_at (gj_card j) v d"
    and r: "resolve_gate (gj_card j) (v + 1) (xc_workflow_version (gj_card j) + 1) (input_resolution kind) now d2 = Inr d'"
  have "same_gates d d2"
    using m same_gates_trans [OF insert_reader_input_same [OF i]] submit_moves_same by (auto split: if_splits)
  then show ?thesis by (rule resolve_gate_keeps [OF _ c r])
qed

lemma submit_gate_input_keeps: "keeps_gates d (snd (submit_gate_input k v kind value now d))"
  by (simp add: submit_gate_input_def commit_applied_keeps [OF submit_input_tx_keeps])

lemma comment_workflow_same: "comment_workflow env c action now d = Inr (r, d') \<Longrightarrow> same_gates d d'"
  by (auto simp: comment_workflow_def Let_def dest!: apply_gates intro: same_gatesI split: if_splits)

lemma comment_applied:
  assumes "comment_gate_tx env k v value now d = Inr (r, d')" and "gr_disposition r = GdApplied"
  obtains j d1 w d2 where "joined_gate k d = Some j" and "delivered_fence (Some j) v = None"
    and "delivered_at (gj_card j) v d"
    and "insert_reader_input (gj_card j) v ''discussion'' value None now d = Inr d1"
    and "comment_workflow env (gj_card j) (the (comment_action (xc_kind (gj_card j)))) now d1 = Inr (w, d2)"
    and "xr_accepted w"
    and "resolve_gate (gj_card j) (v + 1) (xc_workflow_version (gj_card j) + 1)
      (stored_action (the (comment_action (xc_kind (gj_card j))))) now d2 = Inr d'"
proof -
  obtain fence where "comment_fence env (joined_gate k d) v d = Inr fence"
    using assms(1) by (auto simp: comment_gate_tx_def Let_def rbind_Inr_iff)
  then have f: "comment_fence env (joined_gate k d) v d = Inr None"
    using assms by (cases fence) (auto simp: comment_gate_tx_def Let_def)
  then have f2: "delivered_fence (joined_gate k d) v = None" by (simp add: comment_fence_def split: option.splits)
  obtain j where j: "joined_gate k d = Some j" "delivered_at (gj_card j) v d"
    using delivered_fence_at [OF f2] by blast
  show thesis
    using assms f j(1) f2
    by (auto simp: comment_gate_tx_def Let_def rbind_Inr_iff split: if_splits intro: that [OF j(1) _ j(2)])
qed

lemma comment_gate_tx_keeps:
  assumes "comment_gate_tx env k v value now d = Inr (r, d')" and "gr_disposition r = GdApplied"
  shows "keeps_gates d d'"
  using assms
proof (rule comment_applied)
  fix j d1 w d2
  assume i: "insert_reader_input (gj_card j) v ''discussion'' value None now d = Inr d1"
    and m: "comment_workflow env (gj_card j) (the (comment_action (xc_kind (gj_card j)))) now d1 = Inr (w, d2)"
    and c: "delivered_at (gj_card j) v d"
    and r: "resolve_gate (gj_card j) (v + 1) (xc_workflow_version (gj_card j) + 1)
      (stored_action (the (comment_action (xc_kind (gj_card j))))) now d2 = Inr d'"
  show ?thesis
    by (rule resolve_gate_keeps [OF same_gates_trans [OF insert_reader_input_same [OF i] comment_workflow_same [OF m]] c r])
qed

lemma comment_and_go_keeps: "keeps_gates d (snd (comment_and_go env k v value now d))"
  by (simp add: comment_and_go_def commit_applied_keeps [OF comment_gate_tx_keeps])

end
