(* ===== verification/GateConsoleOps.thy ===== *)
theory GateConsoleOps
  imports GateReplyOps
begin

text \<open>
  The choice of an agent and the console's answer keep the invariant of the card tables: one writes the
  card once and leaves it delivered, the other lends, delivers and settles it in one transaction.
\<close>

section \<open>Choosing an agent\<close>

lemma agent_refused_disposition [simp]: "ga_disposition (agent_refused k row ref) = GdRefused"
  by (simp add: agent_refused_def)

lemma agent_card_refusal_None: "agent_card_refusal row v = None \<Longrightarrow> delivered_fence row v = None"
  by (simp add: agent_card_refusal_def split: option.splits)

lemma select_gate_tx_keeps:
  assumes "select_gate_tx env k v token now d = Inr (r, d')"
  shows "keeps_gates d d'"
proof (cases "d' = d")
  case False
  have f: "agent_card_refusal (joined_gate k d) v = None"
    using assms False by (auto simp: select_gate_tx_def Let_def split: option.splits)
  then obtain j where j: "joined_gate k d = Some j" "delivered_at (gj_card j) v d" "xc_id (gj_card j) = k"
    using delivered_fence_at [OF agent_card_refusal_None] by blast
  let ?c = "gj_card j"
  have "agent_card_refusal (Some j) v = None" using f j(1) by simp
  note run = assms [unfolded select_gate_tx_def Let_def j(1) this option.case option.sel]
  obtain p where p: "filter (\<lambda>p. agent_selection_token (ge_sha env) p = token)
      (eligible_profiles (ge_registry env) (selector_phase (xc_kind ?c))) = [p]"
    using run False by (auto simp: rbind_Inr_iff split: list.splits)
  let ?pick = "if xc_kind ?c = EkStart then apply_agent_selection (xc_task_id ?c) (xc_workflow_version ?c) p now d
    else apply_plan_review_agent_selection (xc_task_id ?c) (xc_workflow_version ?c) p now d"
  obtain w d1 where w: "?pick = Inr (w, d1)"
    using run unfolding p by (cases ?pick) (auto simp: rbind_Inr_iff)
  have s: "same_gates d d1" using w selection_gates by (auto intro: same_gatesI split: if_splits)
  obtain n where n: "write_gate (\<lambda>x. at_gate k v x \<and> xc_status x = EsDelivered)
      (refreshed_gate (v + 1) (the (xr_version w)) now)
      (gate_event ?c XevRefreshed (v + 1) (the (xr_version w)) (Some ''agent'') None now) d1 = Inr (n, d')"
    using run False unfolding p w by (auto simp: w rbind_Inr_iff split: if_splits)
  have c1: "?c \<in> set (gate_cards d1)" "xc_version ?c = v" "xc_status ?c = EsDelivered"
    using s j(2) by (simp_all add: delivered_at_def same_gates_def)
  have "keeps_gates d1 d'" by (rule one_write [OF n c1(1)]) (use c1 j(3) in \<open>auto simp: gate_writes\<close>)
  with same_keeps_gates [OF s] show ?thesis by (rule keeps_gates_trans)
qed simp

lemma select_gate_agent_keeps: "keeps_gates d (snd (select_gate_agent env k v token now d))"
  by (simp add: select_gate_agent_def gate_tx_keeps [OF select_gate_tx_keeps])

section \<open>The console\<close>

text \<open>An entry that a later entry of the same card replaces.\<close>

lemma table_ok_replaced:
  assumes "table_ok key check view who says rows (es @ [e])" and "who e' = who e"
  shows "table_ok key check view who says rows ((es @ [e']) @ [e])"
  using assms by (simp add: table_ok_def list_all_iff del: append_assoc) auto

lemma console_take_keeps:
  assumes w: "console_take c v consumer now d = Inr (n, d')" and c: "c \<in> set (gate_cards d)" "xc_version c = v"
    "xc_status c = EsPending"
  shows "keeps_gates d d'" and "gates_ok d \<Longrightarrow> delivered_at (console_delivered (v + 1) consumer now c) (v + 1) d'"
proof -
  let ?hit = "\<lambda>x. at_gate (xc_id c) v x \<and> xc_status x = EsPending" and ?f = "console_delivered (v + 1) consumer now"
  let ?e1 = "gate_event c XevClaimed (v + 1) (xc_workflow_version c) None (Some consumer) now"
  let ?e2 = "gate_event c XevDelivered (v + 1) (xc_workflow_version c) None (Some consumer) now"
  obtain d1 where d1: "update_gates ?hit ?f d = Inr (n, d1)" "d' = add_gate_event ?e2 (add_gate_event ?e1 d1)"
    using w by (auto simp: console_take_def write_gate_def rbind_Inr_iff)
  have w2: "write_gate ?hit ?f ?e2 d = Inr (n, add_gate_event ?e2 d1)" using d1(1) by (simp add: write_gate_def)
  have k: "n = 1 \<and> gates_ok (add_gate_event ?e2 d1) \<and> gates_evolve d (add_gate_event ?e2 d1)
      \<and> ?f c \<in> set (gate_cards (add_gate_event ?e2 d1))
      \<and> (\<forall>x \<in> set (gate_cards d). xc_id x \<noteq> xc_id c \<longrightarrow> x \<in> set (gate_cards (add_gate_event ?e2 d1)))" if "gates_ok d"
    by (rule write_gate_keeps [OF that w2 c(1)]) (use c in \<open>auto simp: gate_writes\<close>)
  have "gates_ok d'" if "gates_ok (add_gate_event ?e2 d1)"
  proof -
    have "table_ok xc_id gate_check gate_state xv_card_id gate_said (gate_cards d1) ((exec_card_events (gates d1) @ [?e1]) @ [?e2])"
      by (rule table_ok_replaced) (use gates_okD(1) [OF that] in \<open>simp_all add: gate_event_def\<close>)
    then show ?thesis using that by (simp add: gates_ok_def d1(2))
  qed
  moreover have "gates_evolve d d'" if "gates_evolve d (add_gate_event ?e2 d1)"
    using that by (simp add: gates_evolve_def d1(2))
  ultimately show "keeps_gates d d'" using k by (simp add: keeps_gates_def)
  show "delivered_at (?f c) (v + 1) d'" if "gates_ok d"
    using k [OF that] by (simp add: delivered_at_def d1(2) console_delivered_def)
qed

lemma console_resolve_keeps:
  assumes c: "delivered_at c' v d" "xc_id c' = xc_id c" and w: "console_resolve c v wv resolution now d = Inr d'"
  shows "keeps_gates d d'"
proof -
  have c1: "c' \<in> set (gate_cards d)" "xc_version c' = v" "xc_status c' = EsDelivered"
    using c(1) by (simp_all add: delivered_at_def)
  obtain n where w1: "write_gate (\<lambda>x. at_gate (xc_id c) v x \<and> xc_status x = EsDelivered)
      (\<lambda>x. (resolved_gate (v + 1) resolution now x)\<lparr>xc_consumer_digest := None\<rparr>)
      (gate_event c XevResolved (v + 1) wv (Some resolution) None now) d = Inr (n, d')"
    using w by (auto simp: console_resolve_def rbind_Inr_iff)
  show ?thesis by (rule one_write [OF w1 c1(1)]) (use c1 c(2) in \<open>auto simp: gate_writes\<close>)
qed

lemma console_input_same:
  assumes "console_input j v kind value now d = Inr (st, ph, d')"
  shows "same_gates d d'"
proof -
  let ?c = "gj_card j"
  let ?prior = "if kind = ''reassignment'' then ow_display (tk_owner (gj_task j)) else None"
  obtain d1 where d1: "insert_reader_input ?c v kind value ?prior now d = Inr d1"
    using assms by (cases "insert_reader_input ?c v kind value ?prior now d") (auto simp: console_input_def Let_def)
  have s: "same_gates d d1" by (rule insert_reader_input_same [OF d1])
  show ?thesis
  proof (cases "kind = ''reassignment''")
    case True
    then show ?thesis
      using assms d1 by (auto simp: console_input_def Let_def rbind_Inr_iff
          intro!: same_gates_trans [OF s same_gates_trans [OF reassign_task_same move_workflow_same]])
  next
    case False
    then show ?thesis
      using assms d1 by (auto simp: console_input_def Let_def rbind_Inr_iff split_beta
          intro!: same_gates_trans [OF s move_workflow_same])
  qed
qed

lemma console_decision_same:
  assumes "console_decision env c v action value now d = Inr (r, d')"
  shows "same_gates d d'"
proof -
  let ?note = "if action = ''comment_and_go'' then insert_reader_input c v ''discussion'' (the value) None now d else Inr d"
  obtain d1 where d1: "?note = Inr d1" using assms by (cases ?note) (auto simp: console_decision_def Let_def)
  have s: "same_gates d d1" using d1 insert_reader_input_same by (auto split: if_splits)
  have "gates d' = gates d1"
    using assms unfolding console_decision_def Let_def d1 by (auto dest!: apply_gates split: if_splits)
  with s show ?thesis by (simp add: same_gates_def)
qed

lemma console_settle_keeps:
  assumes "console_settle env j v action value now d0 d = Inr (a, d')" and k: "keeps_gates d0 d"
    and c: "gates_ok d0 \<Longrightarrow> delivered_at c' v d" "xc_id c' = xc_id (gj_card j)"
  shows "keeps_gates d0 d'"
proof (cases "d' = d0")
  case False
  let ?c = "gj_card j"
  obtain d1 wv res where r: "same_gates d d1" "console_resolve ?c v wv res now d1 = Inr d'"
  proof (cases "action \<in> {''discussion'', ''reassignment''}")
    case True
    then show ?thesis
      using assms(1) that by (auto simp: console_settle_def Let_def rbind_Inr_iff dest!: console_input_same)
  next
    case input: False
    obtain r d1 where d1: "console_decision env ?c v action value now d = Inr (r, d1)"
      using assms(1) input by (auto simp: console_settle_def Let_def rbind_Inr_iff)
    show ?thesis
      by (rule that [OF console_decision_same [OF d1]])
        (use assms(1) input False in \<open>auto simp: console_settle_def Let_def d1 rbind_Inr_iff split: if_splits\<close>)
  qed
  have "keeps_gates d d'" if "gates_ok d0"
  proof -
    have "delivered_at c' v d1" using c(1) [OF that] r(1) by (simp add: delivered_at_def same_gates_def)
    from console_resolve_keeps [OF this c(2) r(2)] same_keeps_gates [OF r(1)] show ?thesis
      using keeps_gates_trans by blast
  qed
  then show ?thesis using k keeps_gates_trans [OF k] by (auto simp: keeps_gates_def)
qed simp

lemma console_tx_keeps:
  assumes "console_tx env k v action value consumer now d = Inr (a, d')"
  shows "keeps_gates d d'"
proof (cases "d' = d")
  case False
  have f: "console_fence (joined_gate k d) v now = None"
    using assms False by (auto simp: console_tx_def Let_def split: option.splits)
  then obtain j where j: "joined_gate k d = Some j" "xc_version (gj_card j) = v" "xc_status (gj_card j) = EsPending"
    by (auto simp: console_fence_def gate_guard_def Let_def split: option.splits if_splits)
  let ?c = "gj_card j"
  have "console_fence (Some j) v now = None" using f j(1) by simp
  note run = assms [unfolded console_tx_def Let_def j(1) this option.case option.sel]
  have "console_action_refusal env j action d = Inr None"
    using run False by (cases "console_action_refusal env j action d") (auto split: if_splits option.splits)
  then obtain d1 where t: "console_take ?c v consumer now d = Inr (1, d1)"
      "console_settle env j (v + 1) action value now d d1 = Inr (a, d')"
    using run False by (auto simp: rbind_Inr_iff split: if_splits)
  note take = console_take_keeps [OF t(1) joined_gateD(1) [OF j(1)] j(2,3)]
  show ?thesis by (rule console_settle_keeps [OF t(2) take(1) take(2)]) (simp_all add: console_delivered_def)
qed simp

lemma resolve_queue_view_keeps: "keeps_gates d (snd (resolve_queue_view env k v action kind value consumer now d))"
  by (simp add: resolve_queue_view_def gate_tx_keeps [OF console_tx_keeps] split: option.split)

end
