(* ===== verification/GateService.thy ===== *)
theory GateService
  imports GateConsoleOps SchedService
begin

text \<open>
  The card service, the scheduling service and the workers on one database: every request of the three,
  in any order, keeps the invariant of the card tables and lets cards only evolve.
\<close>

section \<open>What the other services do to the cards\<close>

lemma exec_step_same: "same_gates d (snd (exec_step X rq d))"
  using step_queue [of d X rq] by (intro same_gatesI) (simp add: keeps_queue_def)

lemma sched_card_writes:
  "update_sched_cards hit f d = Inr (n, d') \<Longrightarrow> gates d' = gates d"
  "gates (add_sched_card_event c kind version action now d) = gates d"
  "gates (add_change_event k i ev now d) = gates d" "gates (set_state_from_active k st now d) = gates d"
  by (auto simp: update_sched_cards_def add_sched_card_event_def add_change_event_def set_state_from_active_def
      update_change_set_def split: if_splits)

lemma expire_sched_same: "expire_sched_card now c d = Inr d' \<Longrightarrow> gates d' = gates d"
  by (auto simp: expire_sched_card_def rbind_Inr_iff sched_card_writes(2) dest!: sched_card_writes(1) split: if_splits)

lemma sched_claim_same:
  assumes "sched_claim_tx E consumer lease token now d = Inr (r, d')"
  shows "gates d' = gates d"
proof -
  obtain d1 where d1: "each (expire_sched_card now) (expired_sched_cards now d) d = Inr d1"
    using assms by (auto simp: sched_claim_tx_def rbind_Inr_iff)
  have "gates d1 = gates d"
    by (rule each_keeps [of "\<lambda>a b. gates b = gates a", OF _ _ _ d1]) (auto dest: expire_sched_same)
  then show ?thesis
    using assms by (auto simp: sched_claim_tx_def d1 rbind_Inr_iff sched_card_writes(2) dest!: sched_card_writes(1)
        split: option.splits if_splits)
qed

lemma finish_delivery_same: "finish_delivery row k v digest f kind version now d = Inr (r, d') \<Longrightarrow> gates d' = gates d"
  by (auto simp: finish_delivery_def rbind_Inr_iff sched_card_writes(2) dest!: sched_card_writes(1)
      split: option.splits if_splits)

lemma complete_delivery_same:
  "complete_delivery_tx E k v token transport ref now d = Inr (r, d') \<Longrightarrow> gates d' = gates d"
  by (auto simp: complete_delivery_tx_def dest: finish_delivery_same split: option.splits if_splits)

lemma sched_change_same:
  "sched_change r w now d = Inr (Inr (ef, d')) \<Longrightarrow> gates d' = gates d"
  by (erule sched_change_cases) (auto simp: create_prerequisite_effect(8) dest!: update_workflows_frame priority_event_frame)

lemma case_sum_iff: "case_sum f g x = y \<longleftrightarrow> (\<exists>a. x = Inl a \<and> f a = y) \<or> (\<exists>b. x = Inr b \<and> g b = y)"
  by (cases x) simp_all

lemma apply_tx_same: "apply_tx E r doc now d = Inr (res, d') \<Longrightarrow> gates d' = gates d"
  by (auto simp: apply_tx_def Let_def rbind_Inr_iff case_sum_iff store_change_effect(10) dest: sched_change_same
      split: option.split_asm if_split_asm)

text \<open>Undoing a prerequisite cancels the cards of the task that was made for it.\<close>

definition active_at :: "exec_card_row \<Rightarrow> db \<Rightarrow> bool" where
  "active_at c d \<longleftrightarrow> c \<in> set (gate_cards d) \<and> gate_active (xc_status c)"

lemma cancel_active_keeps:
  assumes "gates_ok d" and "active_at c d" and "cancel_gate wv now c d = Inr d'"
  shows "gates_ok d' \<and> gates_evolve d d' \<and> (\<forall>x. xc_id x \<noteq> xc_id c \<longrightarrow> active_at x d \<longrightarrow> active_at x d')"
  using cancel_gate_keeps [OF assms(1,3)] assms(2) by (simp add: active_at_def)

lemma cancel_cards_keeps: "cancel_prerequisite_cards i wv now d = Inr d' \<Longrightarrow> keeps_gates d d'"
  unfolding keeps_gates_def
proof
  assume run: "cancel_prerequisite_cards i wv now d = Inr d'" and ok: "gates_ok d"
  have "distinct (map xc_id (filter (\<lambda>c. xc_task_id c = i \<and> gate_active (xc_status c)) (gate_cards d)))"
    using gates_okD(2) [OF ok] by (simp add: unique_key_def distinct_map_filter)
  from each_snapshot [where key = xc_id and mem = active_at and good = gates_ok and R = gates_evolve,
      OF cancel_active_keeps gates_evolve_refl gates_evolve_trans ok this _ run [unfolded cancel_prerequisite_cards_def]]
  show "gates_ok d' \<and> gates_evolve d d'" by (simp add: active_at_def)
qed

lemma keeps_then: "keeps_gates d d1 \<Longrightarrow> gates d' = gates d1 \<Longrightarrow> keeps_gates d d'"
  using keeps_gates_trans same_keeps_gates same_gatesI by blast

lemma drop_prerequisite_keeps: "drop_prerequisite s now d = Inr d' \<Longrightarrow> keeps_gates d d'"
  by (auto simp: drop_prerequisite_def drop_prerequisite_task_def insert_task_event_def rbind_Inr_iff
      cancel_prerequisite_workflow_def split: option.splits dest!: insert_events_frame update_workflows_frame
      intro: keeps_then [OF cancel_cards_keeps] keeps_then [OF keeps_gates_refl])

lemma undo_set_keeps:
  assumes "undo_set c s now d = Inr d'"
  shows "keeps_gates d d'"
proof -
  obtain d1 d2 where d: "restore_priority c s now (cancel_conditions (rc_change_set_id c) now d) = Inr d1"
    "drop_prerequisite s now d1 = Inr d2" "gates d' = gates d2"
    using assms by (auto simp: undo_set_def rbind_Inr_iff sched_card_writes(3,4))
  have "same_gates d d1" using restore_priority_frame [OF d(1)] by (intro same_gatesI) simp
  then show ?thesis
    using keeps_gates_trans [OF same_keeps_gates keeps_gates_trans [OF drop_prerequisite_keeps [OF d(2)]
      same_keeps_gates [OF same_gatesI [OF d(3)]]]] by blast
qed

lemma resolve_sched_same: "resolve_sched_card c v action now d = Inr d' \<Longrightarrow> gates d' = gates d"
  by (auto simp: resolve_sched_card_def rbind_Inr_iff sched_card_writes(2) dest!: sched_card_writes(1))

lemma act_tx_keeps:
  assumes "act_tx k v action now d = Inr (r, d')"
  shows "keeps_gates d d'"
proof -
  consider "gates d' = gates d" | c s d1 where "undo_set c s now d = Inr d1" "gates d' = gates d1"
    using assms
    by (auto simp: act_tx_def record_conflict_def sched_card_writes rbind_Inr_iff dest: resolve_sched_same
        split: option.split_asm if_split_asm)
  then show ?thesis
  proof cases
    case 1
    then show ?thesis by (intro same_keeps_gates same_gatesI)
  next
    case 2
    from keeps_gates_trans [OF undo_set_keeps [OF 2(1)] same_keeps_gates [OF same_gatesI [OF 2(2)]]] show ?thesis .
  qed
qed

lemma same_tx_keeps: "(\<And>x d'. h d = Inr (x, d') \<Longrightarrow> gates d' = gates d) \<Longrightarrow> keeps_gates d (snd (run_tx h d))"
  by (rule gate_tx_keeps) (simp add: same_keeps_gates same_gatesI)

lemma sched_requests_keep:
  "keeps_gates d (snd (sched_apply E r now d))"
  "keeps_gates d (snd (sched_claim_next E consumer lease token now d))"
  "keeps_gates d (snd (sched_complete_delivery E k v token transport ref now d))"
  "keeps_gates d (snd (sched_fail_delivery E k v token now d))"
  "keeps_gates d (snd (sched_act k v action now d))"
  subgoal by (simp add: sched_apply_def same_tx_keeps [OF apply_tx_same] split: option.split)
  subgoal
    using same_tx_keeps [of "sched_claim_tx E consumer lease token now" d, OF sched_claim_same]
    by (auto simp: sched_claim_next_def split: prod.split sum.split option.split)
  subgoal by (simp add: sched_complete_delivery_def same_tx_keeps [OF complete_delivery_same])
  subgoal by (simp add: sched_fail_delivery_def same_tx_keeps [OF finish_delivery_same])
  subgoal by (simp add: sched_act_def gate_tx_keeps [OF act_tx_keeps])
  done

lemma sched_step_keeps: "keeps_gates d (snd (sched_step E X rq d))"
  by (cases "snd rq") (simp_all add: sched_step_def Let_def split_beta sched_requests_keep
      same_keeps_gates exec_step_same)

end
