(* ===== verification/GateMoves.thy ===== *)
theory GateMoves
  imports GateConsoleOps GateService
begin

text \<open>
  What an accepted answer does to the workflow of its card: the workflow moves from the version the
  card asks about to the next one, and no other workflow changes.
\<close>

section \<open>One move\<close>

definition wf_moved :: "rowid \<Rightarrow> int \<Rightarrow> db \<Rightarrow> db \<Rightarrow> bool" where
  "wf_moved i v d d' \<longleftrightarrow>
     (\<exists>w w'. workflow_of i d = Some w \<and> wf_version w = v \<and> workflow_of i d' = Some w' \<and> wf_version w' = v + 1)
     \<and> (\<forall>k. k \<noteq> i \<longrightarrow> workflow_of k d' = workflow_of k d)"

lemma wf_moved_frame:
  assumes "wf_moved i v a b" and "workflows a' = workflows a" and "workflows b' = workflows b"
  shows "wf_moved i v a' b'"
  using assms by (simp add: wf_moved_def)

lemma update_moves:
  assumes u: "update_workflows hit f d = Inr (n, d')" and w: "workflow_of i d = Some w" "hit w" "wf_version w = v"
    and hit: "\<And>x. hit x \<Longrightarrow> wf_task_id x = i" and f: "\<And>x. wf_task_id (f x) = wf_task_id x" "wf_version (f w) = v + 1"
  shows "wf_moved i v d d'"
proof -
  have d': "d' = d\<lparr>workflows := update_where hit f (workflows d)\<rparr>"
    using u by (auto simp: update_workflows_def split: if_splits)
  have "workflow_of k d' = (if k = i then Some (f w) else workflow_of k d)" for k
    unfolding d' by (rule workflow_of_update [where hit = hit and f = f, OF hit f(1) w(1,2)])
  then show ?thesis using w f(2) by (simp add: wf_moved_def)
qed

text \<open>Statements of an answer that leave every workflow alone.\<close>

lemma moves_nothing:
  "wf_event i kind wv tv ph st now d = Inr d' \<Longrightarrow> workflows d' = workflows d"
  "workflows (snd (record_ownership_decision i tv os now d)) = workflows d"
  "apply_task_transition i v a now d = (tr, d') \<Longrightarrow> workflows d' = workflows d"
  "put_holds hs d = Inr d' \<Longrightarrow> workflows d' = workflows d"
  "workflows (hold_event h hk m r now d) = workflows d"
  "insert_reader_input c rv rk value prior now d = Inr d' \<Longrightarrow> workflows d' = workflows d"
  "workflows (log_owner_change c from_owner value now d) = workflows d"
  "reassign_task c value now d = Inr d' \<Longrightarrow> workflows d' = workflows d"
  subgoal by (erule wf_event_adds) simp
  subgoal by (rule record_ownership_frame)
  subgoal using apply_keeps_execution(1) [of i v a now d] by simp
  subgoal by (auto simp: put_holds_def split: if_splits)
  subgoal by (simp add: hold_event_def)
  subgoal by (auto simp: insert_reader_input_def split: if_splits)
  subgoal by (simp add: log_owner_change_def)
  subgoal by (auto simp: reassign_task_def close_ownership_review_def Let_def split: if_splits option.splits)
  done

section \<open>What a card asks about\<close>

definition asks :: "gate_join \<Rightarrow> db \<Rightarrow> bool" where
  "asks j d \<longleftrightarrow> workflow_of (xc_task_id (gj_card j)) d = Some (gj_workflow j) \<and> current_gate j"

lemma asks_same: "asks j d \<Longrightarrow> workflows d' = workflows d \<Longrightarrow> asks j d'"
  by (simp add: asks_def)

lemma joined_asks:
  assumes "joined d (gj_card j) = Some j"
  shows "current_gate j \<Longrightarrow> asks j d"
proof -
  have "map_option gj_workflow (joined d (gj_card j)) = Some (gj_workflow j)" using assms by simp
  then show "current_gate j \<Longrightarrow> asks j d" by (auto simp: asks_def joined_def split: option.splits if_splits)
qed

lemma asksD:
  assumes "asks j d"
  shows "workflow_of (xc_task_id (gj_card j)) d = Some (gj_workflow j)"
    and "wf_version (gj_workflow j) = xc_workflow_version (gj_card j)"
    and "wf_task_id (gj_workflow j) = xc_task_id (gj_card j)"
    and "wf_task_version (gj_workflow j) = xc_task_version (gj_card j)"
    and "xc_kind (gj_card j) = EkStart \<Longrightarrow> wf_status (gj_workflow j) \<in> {WfAwaitingStart, WfSnoozed, WfParked}"
    and "xc_kind (gj_card j) = EkSteer \<Longrightarrow> wf_status (gj_workflow j) = WfRunning"
  using assms row_of_key [of wf_task_id "xc_task_id (gj_card j)" "workflows d" "gj_workflow j"]
  by (auto simp: asks_def current_gate_def Let_def)

section \<open>The moves of the execution service\<close>

lemma start_moves:
  assumes run: "apply_start_action local utc i v action now d = Inr (r, d')" and ok: "xr_accepted r"
  shows "wf_moved i v d d'"
proof -
  obtain st wake completed kind where p: "start_plan local utc action now = (st, wake, completed, kind)"
    by (cases "start_plan local utc action now") auto
  let ?row = "workflow_with_task i d"
  have g: "both_guards ?row (workflow_guard (map_option fst ?row) v [WfAwaitingStart, WfSnoozed, WfParked]) = None"
    using run ok by (auto simp: apply_start_action_def Let_def xr_accepted_def split: if_splits option.splits)
  obtain w t where row: "?row = Some (w, t)" and l: "live_at i d w t"
    and gw: "workflow_guard (map_option fst ?row) v [WfAwaitingStart, WfSnoozed, WfParked] = None"
    using g by (rule both_guards_None)
  have v: "wf_version w = v" using gw row by (simp add: workflow_guard_None)
  let ?f = "settle_gate st (wf_phase w) (v + 1) wake completed now"
  have "\<exists>n d1. update_workflows (at_version i v) ?f d = Inr (n, d1)"
    by (cases "update_workflows (at_version i v) ?f d")
      (use run ok g row in \<open>auto simp: apply_start_action_def Let_def p xr_accepted_def split: if_splits\<close>)
  then obtain n d1 where u: "update_workflows (at_version i v) ?f d = Inr (n, d1)" by blast
  let ?ev = "wf_event i kind (v + 1) (wf_task_version w) (wf_phase w) st now d1"
  have "\<exists>d2. ?ev = Inr d2"
    by (cases ?ev)
      (use run ok g row u in \<open>auto simp: apply_start_action_def Let_def p xr_accepted_def split: if_splits\<close>)
  then obtain d2 where e1: "?ev = Inr d2" by blast
  have e2: "workflows d' = workflows d2"
    using run ok g row u e1
    by (auto simp: apply_start_action_def Let_def p xr_accepted_def moves_nothing(2) split_beta split: if_splits)
  note e = e1 e2
  have "wf_moved i v d d1"
    by (rule update_moves [OF u liveD(1) [OF l]]) (use v liveD(2) [OF l] in \<open>simp_all add: at_version_def\<close>)
  then show ?thesis by (rule wf_moved_frame) (use e moves_nothing(1) [OF e(1)] in simp_all)
qed

lemma review_moves:
  assumes run: "apply_review_action local utc i v action now d = Inr (r, d')" and ok: "xr_accepted r"
  shows "wf_moved i v d d'"
proof -
  let ?row = "workflow_with_task i d"
  let ?sts = "[WfAwaitingReview, WfSnoozed] @ (if action \<in> set SNOOZE_ACTIONS then [WfCompleted] else [])"
  have g: "both_guards ?row (workflow_guard (map_option fst ?row) v ?sts) = None"
    using run ok by (auto simp: apply_review_action_def Let_def xr_accepted_def simp del: append_Cons split: if_splits option.splits)
  obtain w t where row: "?row = Some (w, t)" and l: "live_at i d w t"
    and gw: "workflow_guard (map_option fst ?row) v ?sts = None" using g by (rule both_guards_None)
  have v: "wf_version w = v" using gw row by (simp add: workflow_guard_None)
  obtain st ph wake completed kind n d1 where u: "update_workflows (at_version i v)
        (settle_gate st ph (v + 1) wake completed now) d = Inr (n, d1)"
    and e: "wf_event i kind (v + 1) (wf_task_version w) ph st now d1 = Inr d'"
    using run ok g row
    by (auto simp: apply_review_action_def Let_def rbind_Inr_iff xr_accepted_def simp del: append_Cons
        split: if_splits option.splits)
  have "wf_moved i v d d1"
    by (rule update_moves [OF u liveD(1) [OF l]]) (use v liveD(2) [OF l] in \<open>simp_all add: at_version_def\<close>)
  then show ?thesis by (rule wf_moved_frame) (use moves_nothing(1) [OF e] in simp_all)
qed

section \<open>The moves of the cards\<close>

lemma lifecycle_moves:
  assumes j: "asks j d" and run: "apply_review_lifecycle_action (lifecycle_of (gj_card j)) action now d = Inr (r, d')"
    and ok: "xr_accepted r"
  shows "wf_moved (xc_task_id (gj_card j)) (xc_workflow_version (gj_card j)) d d'"
proof -
  let ?c = "gj_card j"
  obtain tr d1 where t: "apply_task_transition (xc_task_id ?c) (xc_task_version ?c) action now d = (tr, d1)"
    by (cases "apply_task_transition (xc_task_id ?c) (xc_task_version ?c) action now d")
  let ?f = "\<lambda>w. (clear_failure (clear_claim w))\<lparr>wf_task_version := the (tr_version tr),
      wf_status := if action = ''done'' then WfCompleted else WfCancelled, wf_version := xc_workflow_version ?c + 1,
      wf_due_at := None, wf_updated_at := now, wf_completed_at := Some now\<rparr>"
  obtain n d2 where u: "update_workflows (\<lambda>w. wf_task_id w = xc_task_id ?c \<and> wf_version w = xc_workflow_version ?c)
        ?f d1 = Inr (n, d2)" and e: "workflows d' = workflows d2"
    using run ok
    by (auto simp: apply_review_lifecycle_action_def lifecycle_of_def Let_def t rbind_Inr_iff xr_accepted_def
        dest: moves_nothing(1) split: if_splits)
  have "wf_moved (xc_task_id ?c) (xc_workflow_version ?c) d1 d2"
    by (rule update_moves [OF u asksD(1) [OF asks_same [OF j moves_nothing(3) [OF t]]]])
      (use asksD(2,3) [OF j] in \<open>simp_all add: clear_failure_def clear_claim_def\<close>)
  then show ?thesis by (rule wf_moved_frame) (simp_all add: e moves_nothing(3) [OF t])
qed

lemma hold_moves:
  assumes j: "asks j d" and k: "xc_kind (gj_card j) = EkStart" and run: "apply_owner_hold j now d = Inr (r, d')"
    and ok: "xr_accepted r"
  shows "wf_moved (xc_task_id (gj_card j)) (xc_workflow_version (gj_card j)) d d'"
proof -
  let ?c = "gj_card j"
  let ?hit = "\<lambda>x. at_version (xc_task_id ?c) (xc_workflow_version ?c) x \<and> wf_task_version x = xc_task_version ?c
    \<and> wf_status x \<in> {WfAwaitingStart, WfSnoozed, WfParked}"
  let ?f = "hold_workflow (xc_workflow_version ?c + 1) (now + OWNER_HOLD_INTERVAL) now"
  obtain n d1 where u: "update_workflows ?hit ?f d = Inr (n, d1)"
    using run by (auto simp: apply_owner_hold_def Let_def rbind_Inr_iff)
  have "workflows d' = workflows d1"
    using run ok unfolding apply_owner_hold_def Let_def u
    by (auto simp: rbind_Inr_iff xr_accepted_def moves_nothing(5) dest!: moves_nothing(1,4) split: if_splits)
  moreover have "wf_moved (xc_task_id ?c) (xc_workflow_version ?c) d d1"
    by (rule update_moves [OF u asksD(1) [OF j]])
      (use asksD(2-4) [OF j] asksD(5) [OF j k] in
        \<open>auto simp: at_version_def hold_workflow_def clear_failure_def clear_claim_def\<close>)
  ultimately show ?thesis using wf_moved_frame by simp
qed

lemma steer_moves:
  assumes j: "asks j d" and k: "xc_kind (gj_card j) = EkSteer" and run: "apply_steer_discussion (gj_card j) now d = Inr (r, d')"
    and ok: "xr_accepted r"
  shows "wf_moved (xc_task_id (gj_card j)) (xc_workflow_version (gj_card j)) d d'"
proof -
  let ?c = "gj_card j"
  let ?hit = "\<lambda>x. at_version (xc_task_id ?c) (xc_workflow_version ?c) x \<and> wf_status x = WfRunning"
  obtain n d1 where u: "update_workflows ?hit (steer_workflow (xc_workflow_version ?c + 1) now) d = Inr (n, d1)"
      and e: "workflows d' = workflows d1"
    using run by (auto simp: apply_steer_discussion_def Let_def rbind_Inr_iff dest: moves_nothing(1) split: if_splits)
  have "wf_moved (xc_task_id ?c) (xc_workflow_version ?c) d d1"
    by (rule update_moves [OF u asksD(1) [OF j]])
      (use asksD(2,3) [OF j] asksD(6) [OF j k] in \<open>auto simp: at_version_def steer_workflow_def clear_claim_def\<close>)
  then show ?thesis by (rule wf_moved_frame) (simp_all add: e)
qed

lemma move_workflow_moves:
  assumes j: "asks j d" and run: "move_workflow (gj_card j) f kind tv ph st now d = Inr d'"
    and f: "\<And>x. wf_task_id (f x) = wf_task_id x" "\<And>x. wf_version (f x) = xc_workflow_version (gj_card j) + 1"
  shows "wf_moved (xc_task_id (gj_card j)) (xc_workflow_version (gj_card j)) d d'"
proof -
  let ?c = "gj_card j"
  obtain n d1 where u: "update_workflows (at_version (xc_task_id ?c) (xc_workflow_version ?c)) f d = Inr (n, d1)"
      and e: "workflows d' = workflows d1"
    using run by (auto simp: move_workflow_def rbind_Inr_iff dest: moves_nothing(1) split: if_splits)
  have "wf_moved (xc_task_id ?c) (xc_workflow_version ?c) d d1"
    by (rule update_moves [OF u asksD(1) [OF j]]) (use asksD(2,3) [OF j] f in \<open>simp_all add: at_version_def\<close>)
  then show ?thesis by (rule wf_moved_frame) (simp_all add: e)
qed

end
