(* ===== verification/GateSettle.thy ===== *)
theory GateSettle
  imports GateMoves
begin

text \<open>
  Every accepted answer settles its card at the version it was shown at and moves the card's workflow,
  in one transaction.
\<close>

definition settles :: "rowid \<Rightarrow> int \<Rightarrow> db \<Rightarrow> db \<Rightarrow> bool" where
  "settles k v d d' \<longleftrightarrow> (\<exists>c c'. gate_of k d = Some c \<and> xc_version c = v \<and> gate_active (xc_status c)
     \<and> gate_of k d' = Some c' \<and> xc_status c' = EsResolved
     \<and> wf_moved (xc_task_id c) (xc_workflow_version c) d d')"

section \<open>The last statement\<close>

lemma write_gate_workflows: "write_gate hit f e d = Inr (n, d') \<Longrightarrow> workflows d' = workflows d"
  by (auto simp: write_gate_def rbind_Inr_iff update_gates_Inr)

lemma written_row:
  assumes ok: "gates_ok d" and w: "write_gate hit f e d = Inr (n, d')" and c: "c \<in> set (gate_cards d)" and hit: "hit c"
    "\<And>x. hit x \<Longrightarrow> xc_id x = xc_id c" and f: "gate_evolves c (f c)"
    and e: "xv_card_id e = xc_id c" "gate_said e = gate_state (f c)"
  shows "gate_of (xc_id c) d' = Some (f c)"
proof -
  note k = write_gate_keeps [OF ok w c hit f e, THEN conjunct2]
  have "gate_of (xc_id (f c)) d' = Some (f c)"
    by (rule row_of_mem [OF gates_okD(2) [OF k [THEN conjunct1]] k [THEN conjunct2, THEN conjunct2, THEN conjunct1]])
  then show ?thesis using f by (simp add: gate_evolves_def)
qed

lemma resolve_gate_settled:
  assumes ok: "gates_ok d" and c: "delivered_at c v d" and w: "resolve_gate c (v + 1) wv resolution now d = Inr d'"
  shows "gate_of (xc_id c) d' = Some (resolved_gate (v + 1) resolution now c)" and "workflows d' = workflows d"
proof -
  have c1: "c \<in> set (gate_cards d)" "xc_version c = v" "xc_status c = EsDelivered"
    using c by (simp_all add: delivered_at_def)
  obtain n where w1: "write_gate (\<lambda>x. at_gate (xc_id c) v x \<and> xc_status x = EsDelivered)
      (resolved_gate (v + 1) resolution now) (gate_event c XevResolved (v + 1) wv (Some resolution) None now) d = Inr (n, d')"
    using w by (auto simp: resolve_gate_def rbind_Inr_iff split: if_splits)
  show "gate_of (xc_id c) d' = Some (resolved_gate (v + 1) resolution now c)"
    by (rule written_row [OF ok w1 c1(1)]) (use c1 in \<open>auto simp: gate_writes\<close>)
  show "workflows d' = workflows d" by (rule write_gate_workflows [OF w1])
qed

text \<open>The database an answer resolved, after statements that left the cards alone and moved the workflow.\<close>

lemma delivered_settles:
  assumes ok: "gates_ok d" and j: "joined_gate k d = Some j" "delivered_at (gj_card j) v d"
    and s: "same_gates d d1" and m: "wf_moved (xc_task_id (gj_card j)) (xc_workflow_version (gj_card j)) d d1"
    and w: "resolve_gate (gj_card j) (v + 1) wv resolution now d1 = Inr d'"
  shows "settles k v d d'"
proof -
  let ?c = "gj_card j"
  have c: "?c \<in> set (gate_cards d)" "xc_id ?c = k" "xc_version ?c = v" "xc_status ?c = EsDelivered"
    using j joined_gateD(1,2) [OF j(1)] by (simp_all add: delivered_at_def)
  have d1: "gates_ok d1" "delivered_at ?c v d1"
    using s ok c same_gates_ok [OF s] by (simp_all add: delivered_at_def same_gates_def)
  note r = resolve_gate_settled [OF d1 w]
  have "gate_of k d = Some ?c" using row_of_mem [OF gates_okD(2) [OF ok] c(1)] c(2) by simp
  moreover have "wf_moved (xc_task_id ?c) (xc_workflow_version ?c) d d'"
    by (rule wf_moved_frame [OF m refl r(2)])
  ultimately show ?thesis
    using c r(1) unfolding settles_def
    by (intro exI [of _ ?c] exI [of _ "resolved_gate (v + 1) resolution now ?c"])
      (simp add: gate_active_def resolved_gate_def unclaim_def)
qed

section \<open>Answers to a delivered card\<close>

lemma fenced_asks:
  assumes "joined_gate k d = Some j" and "delivered_fence (Some j) v = None"
  shows "asks j d"
  using joined_asks(1) [OF joined_gateD(3) [OF assms(1)]] assms(2) by (auto simp: delivered_fence_None)

lemma act_workflow_moves:
  assumes j: "asks j d" and run: "act_workflow env j action now d = Inr (Inr w, d')" and ok: "xr_accepted w"
  shows "wf_moved (xc_task_id (gj_card j)) (xc_workflow_version (gj_card j)) d d'"
  using run ok lifecycle_moves [OF j] hold_moves [OF j] start_moves review_moves
  by (auto simp: act_workflow_def Let_def rbind_Inr_iff split: if_splits)

lemma act_settles:
  assumes ok: "gates_ok d" and run: "act_gate_tx env k v action now d = Inr (r, d')" and "gr_disposition r = GdApplied"
  shows "settles k v d d'"
  using run assms(3)
proof (rule act_applied)
  fix j w d1
  assume j: "joined_gate k d = Some j" "delivered_fence (Some j) v = None" "delivered_at (gj_card j) v d"
    and a: "act_workflow env j action now d = Inr (Inr w, d1)" "xr_accepted w"
    and r: "resolve_gate (gj_card j) (v + 1) (the (xr_version w)) (stored_action action) now d1 = Inr d'"
  show ?thesis
    by (rule delivered_settles [OF ok j(1,3) act_workflow_same [OF a(1)]
        act_workflow_moves [OF fenced_asks [OF j(1,2)] a] r])
qed

lemma submit_moves:
  assumes j: "asks j d" and run: "(if kind = ''discussion'' then submit_discussion (gj_card j) now d
      else submit_reassignment j value now d) = Inr (st, ph, d')"
  shows "wf_moved (xc_task_id (gj_card j)) (xc_workflow_version (gj_card j)) d d'"
proof -
  let ?c = "gj_card j"
  obtain f ev tv d0 where m: "move_workflow ?c f ev tv ph st now d0 = Inr d'" "workflows d0 = workflows d"
    and f: "\<And>x. wf_task_id (f x) = wf_task_id x" "\<And>x. wf_version (f x) = xc_workflow_version ?c + 1"
  proof (cases "kind = ''discussion''")
    case True
    show ?thesis
      by (rule that [of "input_workflow st ph (xc_workflow_version ?c + 1) now" "''discussion_requested''"
            "xc_task_version ?c" d])
        (use run True in \<open>auto simp: submit_discussion_def rbind_Inr_iff split_beta input_workflow_def
          clear_failure_def clear_claim_def\<close>)
  next
    case False
    then obtain d1 where d1: "reassign_task ?c value now d = Inr d1"
        "move_workflow ?c (\<lambda>x. (input_workflow WfAwaitingStart PhasePlan (xc_workflow_version ?c + 1) now x)\<lparr>
            wf_task_version := xc_task_version ?c + 1, wf_last_result_id := None\<rparr>) ''reassigned''
          (xc_task_version ?c + 1) ph st now
          (log_owner_change ?c (ow_display (tk_owner (gj_task j))) value now d1) = Inr d'"
      using run by (auto simp: submit_reassignment_def Let_def rbind_Inr_iff)
    show ?thesis
      by (rule that [OF d1(2)]) (use moves_nothing(8) [OF d1(1)] in \<open>simp_all add: moves_nothing(7)
        input_workflow_def clear_failure_def clear_claim_def\<close>)
  qed
  have "wf_moved (xc_task_id ?c) (xc_workflow_version ?c) d0 d'"
    by (rule move_workflow_moves [OF asks_same [OF j m(2)] m(1) f])
  then show ?thesis by (rule wf_moved_frame) (simp_all add: m(2))
qed

lemma submit_settles:
  assumes ok: "gates_ok d" and run: "submit_input_tx k v kind value now d = Inr (r, d')" and "gr_disposition r = GdApplied"
  shows "settles k v d d'"
  using run assms(3)
proof (rule submit_applied)
  fix j d1 st ph d2
  assume j: "joined_gate k d = Some j" "delivered_fence (Some j) v = None" "delivered_at (gj_card j) v d"
    and i: "insert_reader_input (gj_card j) v kind value
      (if kind = ''reassignment'' then ow_display (tk_owner (gj_task j)) else None) now d = Inr d1"
    and m: "(if kind = ''discussion'' then submit_discussion (gj_card j) now d1
      else submit_reassignment j value now d1) = Inr (st, ph, d2)"
    and r: "resolve_gate (gj_card j) (v + 1) (xc_workflow_version (gj_card j) + 1) (input_resolution kind) now d2 = Inr d'"
  note ws = moves_nothing(6) [OF i]
  have s: "same_gates d d2"
    using m same_gates_trans [OF insert_reader_input_same [OF i]] submit_moves_same by (auto split: if_splits)
  have "wf_moved (xc_task_id (gj_card j)) (xc_workflow_version (gj_card j)) d1 d2"
    by (rule submit_moves [OF asks_same [OF fenced_asks [OF j(1,2)] ws] m])
  then have "wf_moved (xc_task_id (gj_card j)) (xc_workflow_version (gj_card j)) d d2"
    by (rule wf_moved_frame) (simp_all add: ws)
  then show ?thesis by (rule delivered_settles [OF ok j(1,3) s _ r])
qed

lemma comment_settles:
  assumes ok: "gates_ok d" and run: "comment_gate_tx env k v value now d = Inr (r, d')" and "gr_disposition r = GdApplied"
  shows "settles k v d d'"
  using run assms(3)
proof (rule comment_applied)
  fix j :: gate_join and d1 w d2
  let ?act = "the (comment_action (xc_kind (gj_card j)))"
  assume j: "joined_gate k d = Some j" "delivered_fence (Some j) v = None" "delivered_at (gj_card j) v d"
    and i: "insert_reader_input (gj_card j) v ''discussion'' value None now d = Inr d1"
    and m: "comment_workflow env (gj_card j) ?act now d1 = Inr (w, d2)" "xr_accepted w"
    and r: "resolve_gate (gj_card j) (v + 1) (xc_workflow_version (gj_card j) + 1) (stored_action ?act) now d2 = Inr d'"
  note ws = moves_nothing(6) [OF i]
  have a: "asks j d1" by (rule asks_same [OF fenced_asks [OF j(1,2)] ws])
  have "wf_moved (xc_task_id (gj_card j)) (xc_workflow_version (gj_card j)) d1 d2"
    using m steer_moves [OF a] start_moves review_moves
    by (auto simp: comment_workflow_def Let_def split: if_splits)
  then have "wf_moved (xc_task_id (gj_card j)) (xc_workflow_version (gj_card j)) d d2"
    by (rule wf_moved_frame) (simp_all add: ws)
  then show ?thesis
    by (rule delivered_settles [OF ok j(1,3) same_gates_trans [OF insert_reader_input_same [OF i]
        comment_workflow_same [OF m(1)]] _ r])
qed

section \<open>The console's answer\<close>

lemma console_take_workflows: "console_take c v consumer now d = Inr (n, d') \<Longrightarrow> workflows d' = workflows d"
  by (auto simp: console_take_def rbind_Inr_iff dest!: write_gate_workflows)

lemma console_workflow_sel [simp]:
  "wf_task_id (console_workflow tv st ph version now x) = wf_task_id x"
  "wf_version (console_workflow tv st ph version now x) = version"
  by (simp_all add: console_workflow_def clear_claim_def)

lemma console_input_moves:
  assumes j: "asks j d" and run: "console_input j v kind value now d = Inr (st, ph, d')"
  shows "wf_moved (xc_task_id (gj_card j)) (xc_workflow_version (gj_card j)) d d'"
proof -
  let ?c = "gj_card j"
  let ?prior = "if kind = ''reassignment'' then ow_display (tk_owner (gj_task j)) else None"
  obtain d1 where d1: "insert_reader_input ?c v kind value ?prior now d = Inr d1"
    using run by (cases "insert_reader_input ?c v kind value ?prior now d") (auto simp: console_input_def Let_def)
  note run1 = run [unfolded console_input_def Let_def d1 rbind.simps]
  obtain ev tv st' ph' d0 where m: "move_workflow ?c (console_workflow tv st' ph' (xc_workflow_version ?c + 1) now) ev tv ph' st' now d0
      = Inr d'" "workflows d0 = workflows d1"
  proof (cases "kind = ''reassignment''")
    case True
    then obtain d2 where d2: "reassign_task ?c value now d1 = Inr d2"
        "move_workflow ?c (console_workflow (xc_task_version ?c + 1) WfAwaitingStart PhasePlan (xc_workflow_version ?c + 1) now)
          ''reassigned'' (xc_task_version ?c + 1) PhasePlan WfAwaitingStart now d2 = Inr d'"
      using run1 by (auto simp: rbind_Inr_iff)
    show ?thesis by (rule that [OF d2(2) moves_nothing(8) [OF d2(1)]])
  next
    case False
    then show ?thesis
      using run1 that [of "xc_task_version ?c" _ _ "''discussion_requested''" d1]
      by (auto simp: rbind_Inr_iff split_beta)
  qed
  have ws: "workflows d0 = workflows d" using m(2) moves_nothing(6) [OF d1] by simp
  have "wf_moved (xc_task_id ?c) (xc_workflow_version ?c) d0 d'"
    by (rule move_workflow_moves [OF asks_same [OF j ws] m(1)]) simp_all
  then show ?thesis by (rule wf_moved_frame) (simp_all add: ws)
qed

lemma console_decision_moves:
  assumes j: "asks j d" and run: "console_decision env (gj_card j) v action value now d = Inr (r, d')" and ok: "xr_accepted r"
  shows "wf_moved (xc_task_id (gj_card j)) (xc_workflow_version (gj_card j)) d d'"
proof -
  let ?c = "gj_card j"
  let ?note = "if action = ''comment_and_go'' then insert_reader_input ?c v ''discussion'' (the value) None now d else Inr d"
  obtain d1 where d1: "?note = Inr d1" using run by (cases ?note) (auto simp: console_decision_def Let_def)
  have ws: "workflows d1 = workflows d" using d1 moves_nothing(6) by (auto split: if_splits)
  have a: "asks j d1" by (rule asks_same [OF j ws])
  have "wf_moved (xc_task_id ?c) (xc_workflow_version ?c) d1 d'"
    using run ok lifecycle_moves [OF a] steer_moves [OF a] start_moves review_moves unfolding console_decision_def Let_def d1
    by (auto split: if_splits)
  then show ?thesis by (rule wf_moved_frame) (simp_all add: ws)
qed

lemma console_resolve_settled:
  assumes ok: "gates_ok d" and c: "delivered_at c' v d" "xc_id c' = xc_id c"
    and w: "console_resolve c v wv resolution now d = Inr d'"
  shows "gate_of (xc_id c) d' = Some ((resolved_gate (v + 1) resolution now c')\<lparr>xc_consumer_digest := None\<rparr>)"
    and "workflows d' = workflows d"
proof -
  have c1: "c' \<in> set (gate_cards d)" "xc_version c' = v" "xc_status c' = EsDelivered"
    using c(1) by (simp_all add: delivered_at_def)
  let ?f = "\<lambda>x. (resolved_gate (v + 1) resolution now x)\<lparr>xc_consumer_digest := None\<rparr>"
  obtain n where w1: "write_gate (\<lambda>x. at_gate (xc_id c) v x \<and> xc_status x = EsDelivered) ?f
      (gate_event c XevResolved (v + 1) wv (Some resolution) None now) d = Inr (n, d')"
    using w by (auto simp: console_resolve_def rbind_Inr_iff)
  have "gate_of (xc_id c') d' = Some (?f c')"
    by (rule written_row [OF ok w1 c1(1)]) (use c1 c(2) in \<open>auto simp: gate_writes\<close>)
  then show "gate_of (xc_id c) d' = Some (?f c')" by (simp only: c(2))
  show "workflows d' = workflows d" by (rule write_gate_workflows [OF w1])
qed

text \<open>An accepted answer: the statements between the internal delivery and the last one.\<close>

lemma console_settle_applied:
  assumes run: "console_settle env j v action value now d0 d = Inr (ConsoleResult r, d')" and ok: "gr_disposition r = GdApplied"
    and a: "asks j d"
  obtains d1 wv resolution where "same_gates d d1" and "wf_moved (xc_task_id (gj_card j)) (xc_workflow_version (gj_card j)) d d1"
    and "console_resolve (gj_card j) v wv resolution now d1 = Inr d'"
proof (cases "action \<in> {''discussion'', ''reassignment''}")
  case True
  then obtain st ph d1 where i: "console_input j v action (the value) now d = Inr (st, ph, d1)"
      "console_resolve (gj_card j) v (xc_workflow_version (gj_card j) + 1) (input_resolution action) now d1 = Inr d'"
    using run by (auto simp: console_settle_def Let_def rbind_Inr_iff)
  show thesis by (rule that [OF console_input_same [OF i(1)] console_input_moves [OF a i(1)] i(2)])
next
  case False
  obtain w d1 where d1: "console_decision env (gj_card j) v action value now d = Inr (w, d1)"
    using run False by (auto simp: console_settle_def Let_def rbind_Inr_iff)
  then have w: "xr_accepted w" "console_resolve (gj_card j) v (the (xr_version w)) (stored_action action) now d1 = Inr d'"
    using run False ok by (auto simp: console_settle_def Let_def rbind_Inr_iff split: if_splits)
  show thesis by (rule that [OF console_decision_same [OF d1] console_decision_moves [OF a d1 w(1)] w(2)])
qed

lemma console_applied:
  assumes run: "console_tx env k v action value consumer now d = Inr (ConsoleResult r, d')" and ok: "gr_disposition r = GdApplied"
  obtains j d1 where "joined_gate k d = Some j" and "xc_version (gj_card j) = v" and "xc_status (gj_card j) = EsPending"
    and "current_gate j" and "console_take (gj_card j) v consumer now d = Inr (1, d1)"
    and "console_settle env j (v + 1) action value now d d1 = Inr (ConsoleResult r, d')"
proof -
  have f: "console_fence (joined_gate k d) v now = None"
    using run ok by (auto simp: console_tx_def Let_def split: option.splits)
  then obtain j where j: "joined_gate k d = Some j" "xc_version (gj_card j) = v" "xc_status (gj_card j) = EsPending"
      "current_gate j"
    by (auto simp: console_fence_def gate_guard_def Let_def split: option.splits if_splits)
  have "console_fence (Some j) v now = None" using f j(1) by simp
  note run1 = run [unfolded console_tx_def Let_def j(1) this option.case option.sel]
  obtain fence where "console_action_refusal env j action d = Inr fence"
    using run1 by (auto simp: rbind_Inr_iff split: if_splits)
  then have "console_action_refusal env j action d = Inr None" using run1 ok by (cases fence) (auto split: if_splits)
  then show thesis using run1 ok by (auto simp: rbind_Inr_iff split: if_splits intro: that [OF j])
qed

lemma console_settles:
  assumes ok: "gates_ok d" and run: "console_tx env k v action value consumer now d = Inr (ConsoleResult r, d')"
    and "gr_disposition r = GdApplied"
  shows "settles k v d d'"
  using run assms(3)
proof (rule console_applied)
  fix j d1
  assume j: "joined_gate k d = Some j" "xc_version (gj_card j) = v" "xc_status (gj_card j) = EsPending" "current_gate j"
    and t: "console_take (gj_card j) v consumer now d = Inr (1, d1)"
    and s: "console_settle env j (v + 1) action value now d d1 = Inr (ConsoleResult r, d')"
  let ?c = "gj_card j"
  have c: "?c \<in> set (gate_cards d)" "xc_id ?c = k" using joined_gateD [OF j(1)] by simp_all
  note take = console_take_keeps [OF t c(1) j(2,3)]
  have ok1: "gates_ok d1" using keeps_gatesD [OF take(1) ok] by simp
  have a: "asks j d1"
    by (rule asks_same [OF joined_asks(1) [OF joined_gateD(3) [OF j(1)] j(4)] console_take_workflows [OF t]])
  obtain d2 wv res where r: "same_gates d1 d2" "wf_moved (xc_task_id ?c) (xc_workflow_version ?c) d1 d2"
      "console_resolve ?c (v + 1) wv res now d2 = Inr d'"
    by (rule console_settle_applied [OF s assms(3) a])
  let ?c' = "console_delivered (v + 1) consumer now ?c"
  have "delivered_at ?c' (v + 1) d2" using take(2) [OF ok] r(1) by (simp add: delivered_at_def same_gates_def)
  moreover have "gates_ok d2" using same_gates_ok [OF r(1)] ok1 by simp
  moreover have "xc_id ?c' = xc_id ?c" by (simp add: console_delivered_def)
  ultimately have e: "gate_of (xc_id ?c) d' = Some ((resolved_gate (v + 1 + 1) res now ?c')\<lparr>xc_consumer_digest := None\<rparr>)"
      "workflows d' = workflows d2"
    using console_resolve_settled [OF _ _ _ r(3)] by blast+
  have "wf_moved (xc_task_id ?c) (xc_workflow_version ?c) d d'"
    by (rule wf_moved_frame [OF r(2)]) (simp_all add: console_take_workflows [OF t] e(2))
  moreover have "gate_of k d = Some ?c" using row_of_mem [OF gates_okD(2) [OF ok] c(1)] c(2) by simp
  ultimately show ?thesis
    using e(1) c(2) j(2,3) unfolding settles_def
    by (intro exI [of _ ?c] exI [of _ "(resolved_gate (v + 1 + 1) res now ?c')\<lparr>xc_consumer_digest := None\<rparr>"])
      (simp add: gate_active_def resolved_gate_def unclaim_def)
qed

end
