(* ===== verification/GateProps.thy ===== *)
theory GateProps
  imports GateSettle ExecSamples
begin

text \<open>
  The service of the execution cards as one step function: all its requests, those of the scheduling
  service and of the workers, in any order on one database.  What every sequence of them does to a card.
\<close>

section \<open>Requests\<close>

datatype gate_request =
    GqSchedule int
  | GqClaim int string "string option" string
  | GqComplete rowid int string string string
  | GqFail rowid int string
  | GqRelease rowid int string string string
  | GqRetry rowid int
  | GqRecover rowid int
  | GqRequeue int
  | GqDigest digest_item string
  | GqClaimRetraction int string
  | GqCompleteRetraction retraction_claim
  | GqFailRetraction retraction_claim
  | GqAgent rowid int string
  | GqAct rowid int string
  | GqInput rowid int string string
  | GqComment rowid int string
  | GqConsole rowid int string "string option" "string option" string
  | GqQueue sched_request

datatype gate_reply =
    GoSchedule "exc + gate_schedule_result"
  | GoClaim "exc + claim_answer"
  | GoReport "exc + gate_result"
  | GoCount "exc + nat"
  | GoFlag "exc + bool"
  | GoRetraction "exc + retraction_claim option"
  | GoAgent "exc + agent_result"
  | GoAnswer "exc + gate_result"
  | GoConsole "exc + console_answer"
  | GoQueue sched_reply

definition gate_step :: "gate_env \<Rightarrow> sched_env \<Rightarrow> exec_env \<Rightarrow> time \<times> gate_request \<Rightarrow> db \<Rightarrow> gate_reply \<times> db" where
  "gate_step G E X rq d =
     (let now = fst rq; sha = ge_sha G in
      case snd rq of
        GqSchedule limit \<Rightarrow> (let (out, d') = schedule_gates G limit now d in (GoSchedule out, d'))
      | GqClaim lease token consumer role \<Rightarrow>
          (let (out, d') = claim_next_gate G lease token consumer role now d in (GoClaim out, d'))
      | GqComplete k v token transport ref \<Rightarrow>
          (let (out, d') = complete_gate sha k v token transport ref now d in (GoReport out, d'))
      | GqFail k v token \<Rightarrow> (let (out, d') = fail_gate sha k v token now d in (GoReport out, d'))
      | GqRelease k v token consumer reason \<Rightarrow>
          (let (out, d') = release_gate sha k v token consumer reason now d in (GoReport out, d'))
      | GqRetry k v \<Rightarrow> (let (out, d') = retry_gate k v now d in (GoReport out, d'))
      | GqRecover k v \<Rightarrow> (let (out, d') = recover_gate k v now d in (GoReport out, d'))
      | GqRequeue limit \<Rightarrow> (let (out, d') = requeue_unanswered_gates limit now d in (GoCount out, d'))
      | GqDigest item digest \<Rightarrow> (let (out, d') = record_steer_digest item digest now d in (GoFlag out, d'))
      | GqClaimRetraction lease token \<Rightarrow>
          (let (out, d') = claim_retraction sha lease token now d in (GoRetraction out, d'))
      | GqCompleteRetraction claim \<Rightarrow>
          (let (out, d') = complete_retraction sha claim now d in (GoFlag out, d'))
      | GqFailRetraction claim \<Rightarrow> (let (out, d') = fail_retraction sha claim now d in (GoFlag out, d'))
      | GqAgent k v token \<Rightarrow> (let (out, d') = select_gate_agent G k v token now d in (GoAgent out, d'))
      | GqAct k v action \<Rightarrow> (let (out, d') = act_gate G k v action now d in (GoAnswer out, d'))
      | GqInput k v kind value \<Rightarrow>
          (let (out, d') = submit_gate_input k v kind value now d in (GoAnswer out, d'))
      | GqComment k v value \<Rightarrow> (let (out, d') = comment_and_go G k v value now d in (GoAnswer out, d'))
      | GqConsole k v action kind value consumer \<Rightarrow>
          (let (out, d') = resolve_queue_view G k v action kind value consumer now d in (GoConsole out, d'))
      | GqQueue q \<Rightarrow> (let (out, d') = sched_step E X (now, q) d in (GoQueue out, d')))"

text \<open>The card an answer is for with the version it was given at, and the answers that were accepted.\<close>

definition gate_asked :: "time \<times> gate_request \<Rightarrow> (rowid \<times> int) option" where
  "gate_asked rq =
     (case snd rq of GqAct k v _ \<Rightarrow> Some (k, v) | GqInput k v _ _ \<Rightarrow> Some (k, v)
      | GqComment k v _ \<Rightarrow> Some (k, v) | GqConsole k v _ _ _ _ \<Rightarrow> Some (k, v) | _ \<Rightarrow> None)"

definition gate_taken :: "gate_reply \<Rightarrow> bool" where
  "gate_taken out \<longleftrightarrow>
     (case out of GoAnswer (Inr r) \<Rightarrow> gr_disposition r = GdApplied
      | GoConsole (Inr (ConsoleResult r)) \<Rightarrow> gr_disposition r = GdApplied | _ \<Rightarrow> False)"

section \<open>Every request keeps the cards\<close>

lemmas returned = returned_gate_def unclaim_def gate_evolves_def gate_state_def settled_def gate_active_def
  event_status_def

lemma gate_requests_keep:
  "keeps_gates d (snd (claim_next_gate G lease token consumer role now d))"
  "keeps_gates d (snd (complete_gate sha k v token transport ref now d))"
  "keeps_gates d (snd (fail_gate sha k v token now d))"
  "keeps_gates d (snd (release_gate sha k v token who reason now d))"
  "keeps_gates d (snd (retry_gate k v now d))"
  "keeps_gates d (snd (recover_gate k v now d))"
  "keeps_gates d (snd (requeue_unanswered_gates limit now d))"
  "keeps_gates d (snd (record_steer_digest item digest now d))"
  "keeps_gates d (snd (claim_retraction sha lease token now d))"
  "keeps_gates d (snd (complete_retraction sha claim now d))"
  subgoal by (simp add: claim_next_gate_def Let_def gate_tx_keeps [OF claim_gate_keeps])
  subgoal by (simp add: complete_gate_def commit_applied_keeps [OF complete_gate_keeps])
  subgoal
    by (auto simp: fail_gate_def returned intro!: commit_applied_keeps return_gate_keeps)
  subgoal
    by (auto simp: release_gate_def returned intro!: commit_applied_keeps return_gate_keeps)
  subgoal by (simp add: retry_gate_def commit_applied_keeps [OF retry_gate_keeps])
  subgoal by (simp add: recover_gate_def commit_applied_keeps [OF recover_gate_keeps])
  subgoal by (simp add: requeue_unanswered_gates_def gate_tx_keeps [OF requeue_gates_keeps])
  subgoal by (simp add: record_steer_digest_def gate_tx_keeps [OF record_digest_keeps])
  subgoal by (simp add: claim_retraction_def gate_tx_keeps [OF claim_retraction_keeps])
  subgoal by (simp add: complete_retraction_def gate_tx_keeps [OF complete_retraction_keeps])
  done

lemma gate_step_keeps: "keeps_gates d (snd (gate_step G E X rq d))"
  by (cases "snd rq") (simp_all add: gate_step_def Let_def split_beta gate_requests_keep schedule_gates_keeps
      fail_retraction_keeps select_gate_agent_keeps act_gate_keeps submit_gate_input_keeps comment_and_go_keeps
      resolve_queue_view_keeps sched_step_keeps)

section \<open>An accepted answer\<close>

lemma commit_applied_run:
  "commit_applied h d = (Inr r, d') \<Longrightarrow> gr_disposition r = GdApplied \<Longrightarrow> h d = Inr (r, d')"
  by (auto simp: commit_applied_def split: sum.splits if_splits)

lemma gate_step_settles:
  assumes ok: "gates_ok d" and ask: "gate_asked rq = Some (k, v)" and out: "gate_taken (fst (gate_step G E X rq d))"
  shows "settles k v d (snd (gate_step G E X rq d))"
proof (cases "snd rq")
  case (GqAct k' v' action)
  then obtain r d' where r: "act_gate G k v action (fst rq) d = (Inr r, d')" "gr_disposition r = GdApplied"
      "gate_step G E X rq d = (GoAnswer (Inr r), d')"
    using ask out
    by (cases "act_gate G k v action (fst rq) d") (auto simp: gate_asked_def gate_taken_def gate_step_def split: sum.splits)
  have "act_gate_tx G k v action (fst rq) d = Inr (r, d')"
    using r(1,2) by (auto simp: act_gate_def gate_refused_def split: if_splits dest: commit_applied_run)
  from act_settles [OF ok this r(2)] show ?thesis by (simp add: r(3))
next
  case (GqInput k' v' kind val)
  then obtain r d' where r: "submit_gate_input k v kind val (fst rq) d = (Inr r, d')" "gr_disposition r = GdApplied"
      "gate_step G E X rq d = (GoAnswer (Inr r), d')"
    using ask out
    by (cases "submit_gate_input k v kind val (fst rq) d")
      (auto simp: gate_asked_def gate_taken_def gate_step_def split: sum.splits)
  have "submit_input_tx k v kind val (fst rq) d = Inr (r, d')"
    using r(1,2) by (auto simp: submit_gate_input_def gate_refused_def split: if_splits dest: commit_applied_run)
  from submit_settles [OF ok this r(2)] show ?thesis by (simp add: r(3))
next
  case (GqComment k' v' val)
  then obtain r d' where r: "comment_and_go G k v val (fst rq) d = (Inr r, d')" "gr_disposition r = GdApplied"
      "gate_step G E X rq d = (GoAnswer (Inr r), d')"
    using ask out
    by (cases "comment_and_go G k v val (fst rq) d") (auto simp: gate_asked_def gate_taken_def gate_step_def split: sum.splits)
  have "comment_gate_tx G k v val (fst rq) d = Inr (r, d')"
    using r(1,2) by (auto simp: comment_and_go_def gate_refused_def split: if_splits dest: commit_applied_run)
  from comment_settles [OF ok this r(2)] show ?thesis by (simp add: r(3))
next
  case (GqConsole k' v' action kind val who)
  then obtain r d' where r: "resolve_queue_view G k v action kind val who (fst rq) d = (Inr (ConsoleResult r), d')"
      "gr_disposition r = GdApplied" "gate_step G E X rq d = (GoConsole (Inr (ConsoleResult r)), d')"
    using ask out
    by (cases "resolve_queue_view G k v action kind val who (fst rq) d")
      (auto simp: gate_asked_def gate_taken_def gate_step_def split: sum.splits console_answer.splits)
  have "console_tx G k v action val who (fst rq) d = Inr (ConsoleResult r, d')"
    using r(1,2) by (auto simp: resolve_queue_view_def gate_refused_def run_tx_def split: if_splits option.splits sum.splits)
  from console_settles [OF ok this r(2)] show ?thesis by (simp add: r(3))
qed (use ask in \<open>simp_all add: gate_asked_def\<close>)

section \<open>One answer\<close>

definition gate_closed :: "rowid \<Rightarrow> db \<Rightarrow> bool" where
  "gate_closed k d \<longleftrightarrow> (\<exists>c. gate_of k d = Some c \<and> settled c)"

lemma gate_closed_stays:
  assumes "gates_ok d" and "gate_closed k d"
  shows "gate_closed k (snd (gate_step G E X rq d))"
proof -
  let ?d' = "snd (gate_step G E X rq d)"
  note keep = keeps_gatesD [OF gate_step_keeps [of d G E X rq] assms(1)]
  obtain c where c: "gate_of k d = Some c" "settled c" using assms(2) by (auto simp: gate_closed_def)
  note m = conjunct1 [OF gate_ofD [OF c(1)]] conjunct2 [OF gate_ofD [OF c(1)]]
  obtain c' where c': "c' \<in> set (gate_cards ?d')" "gate_evolves c c'"
    using keep m(1) unfolding gates_evolve_def by blast
  have "gate_of k ?d' = Some c'"
    using row_of_mem [OF gates_okD(2) [OF conjunct1 [OF keep]] c'(1)] c'(2) m(2) by (simp add: gate_evolves_def)
  then show ?thesis using c'(2) c(2) by (auto simp: gate_closed_def gate_evolves_def settled_def)
qed

interpretation gate_answers: once_op "gate_step G E X" gate_taken "\<lambda>rq. map_option fst (gate_asked rq)" gate_closed gates_ok
proof unfold_locales
  fix d rq k
  assume ok: "gates_ok d"
  show "gates_ok (snd (gate_step G E X rq d))" using keeps_gatesD [OF gate_step_keeps ok] by blast
  show "gate_closed k (snd (gate_step G E X rq d))" if "gate_closed k d" by (rule gate_closed_stays [OF ok that])
  assume "map_option fst (gate_asked rq) = Some k"
  then obtain v where v: "gate_asked rq = Some (k, v)" by auto
  show "gate_closed k (snd (gate_step G E X rq d))" if "gate_taken (fst (gate_step G E X rq d))"
    using gate_step_settles [OF ok v that] by (auto simp: settles_def gate_closed_def settled_def gate_active_def)
  show "\<not> gate_taken (fst (gate_step G E X rq d))" if "gate_closed k d"
    using gate_step_settles [OF ok v, of G E X] that by (auto simp: settles_def gate_closed_def settled_def)
qed

lemma run_ops_nth:
  "n < length rs \<Longrightarrow> fst (run_ops op rs d) ! n = fst (op (rs ! n) (snd (run_ops op (take n rs) d)))
     \<and> snd (run_ops op (take (Suc n) rs) d) = snd (op (rs ! n) (snd (run_ops op (take n rs) d)))"
proof (induction rs arbitrary: d n)
  case (Cons r rs)
  then show ?case by (cases n) simp_all
qed simp

section \<open>A sample deployment\<close>

text \<open>The card of a task that waits to be started, shown to the reader at version 2.\<close>

definition sample_gate_env :: gate_env where
  "sample_gate_env = \<lparr>ge_sha = sample_digest, ge_registry = ec_registry sample_config, ge_fits = (\<lambda>j d. True),
     ge_plan_threshold = 600, ge_execute_threshold = 600, ge_meeting = None, ge_aliases = [],
     ge_local = (\<lambda>t. t), ge_utc = (\<lambda>t. t)\<rparr>"

definition sample_gate_sched :: sched_env where
  "sample_gate_sched = \<lparr>sn_sha = sample_digest, sn_provenance = None\<rparr>"

definition sample_gate :: exec_card_row where
  "sample_gate = \<lparr>xc_id = 1, xc_task_id = 1, xc_task_version = 1, xc_workflow_version = 3, xc_kind = EkStart,
     xc_phase = PhasePlan, xc_result_id = None, xc_status = EsDelivered, xc_version = 2,
     xc_claim_token_digest = None, xc_claim_expires_at = None, xc_transport = Some ''mail'',
     xc_delivery_ref = Some ''m1'', xc_delivered_at = Some 40, xc_resolution = None, xc_created_at = 30,
     xc_updated_at = 40, xc_resolved_at = None, xc_consumer_digest = None, xc_superseded_ref = None,
     xc_superseded_transport = None, xc_work_revision_id = None, xc_steer_digest = None, xc_summary_only = False\<rparr>"

definition sample_gates :: db where
  "sample_gates = add_gate_event (gate_event sample_gate XevDelivered 2 3 None None 40)
     (set_gate_cards [sample_gate] (sample_execution (sample_workflow WfAwaitingStart)))"

definition sample_answers :: "(time \<times> gate_request) list" where
  "sample_answers = [(60, GqAct 1 2 ''start''), (61, GqAct 1 2 ''start''), (62, GqAct 1 3 ''cancel''),
     (63, GqComment 1 3 ''Wait for me.'')]"

lemma sample_gates_ok: "gates_ok sample_gates"
  by code_simp

text \<open>C40: An execution card is answered once, and an answer is one step.  Start from any database whose
  cards are in order and take any sequence of requests to the card service, the scheduling service and
  the workers.  The cards are in order at the end: their constraints hold, the log explains their status
  and version, a task has at most one active card.  An accepted answer, be it an action, a note, a new
  owner or given on the console, met its card active and at the version it named, left it resolved, and
  moved the workflow of the card's task from the version the card asks about to the next one and no
  other workflow.  No other answer to that card, before or after, at whatever version, was accepted.\<close>
theorem execution_cards_are_answered_once:
  assumes ok: "gates_ok d" and n: "n < length rqs" and ask: "gate_asked (rqs ! n) = Some (k, v)"
    and out: "gate_taken (fst (run_ops (gate_step G E X) rqs d) ! n)"
  shows "gates_ok (snd (run_ops (gate_step G E X) rqs d))
    \<and> settles k v (snd (run_ops (gate_step G E X) (take n rqs) d))
         (snd (run_ops (gate_step G E X) (take (Suc n) rqs) d))
    \<and> (\<forall>m u. m < length rqs \<and> m \<noteq> n \<and> gate_asked (rqs ! m) = Some (k, u)
         \<longrightarrow> \<not> gate_taken (fst (run_ops (gate_step G E X) rqs d) ! m))"
proof (intro conjI allI impI)
  have inv: "gates_ok (snd (run_ops (gate_step G E X) rs d))" for rs
    by (rule run_ops_invariant [of gates_ok, OF gate_answers.keeps ok])
  then show "gates_ok (snd (run_ops (gate_step G E X) rqs d))" .
  show "settles k v (snd (run_ops (gate_step G E X) (take n rqs) d)) (snd (run_ops (gate_step G E X) (take (Suc n) rqs) d))"
    using gate_step_settles [OF inv ask] out run_ops_nth [OF n, of "gate_step G E X" d] by simp
  fix m u
  assume "m < length rqs \<and> m \<noteq> n \<and> gate_asked (rqs ! m) = Some (k, u)"
  then show "\<not> gate_taken (fst (run_ops (gate_step G E X) rqs d) ! m)"
    using gate_answers.accepted_at_most_once [OF ok, of m n rqs k G E X]
      gate_answers.accepted_at_most_once [OF ok, of n m rqs k G E X] n ask out
    by (auto simp: nat_neq_iff)
qed

theorem execution_cards_are_answered_once_witness:
  "settles 1 2 sample_gates (snd (run_ops (gate_step sample_gate_env sample_gate_sched sample_env) (take 1 sample_answers) sample_gates))
   \<and> map gate_taken (fst (run_ops (gate_step sample_gate_env sample_gate_sched sample_env) sample_answers sample_gates))
      = [True, False, False, False]"
proof -
  let ?S = "gate_step sample_gate_env sample_gate_sched sample_env"
  have taken: "map gate_taken (fst (run_ops ?S sample_answers sample_gates)) = [True, False, False, False]" by code_simp
  have len: "length (fst (run_ops ?S sample_answers sample_gates)) = 4" by (simp add: length_run_ops sample_answers_def)
  have "gate_taken (fst (run_ops ?S sample_answers sample_gates) ! 0)"
    using arg_cong [OF taken, of "\<lambda>xs. xs ! 0"] len by simp
  then show ?thesis
    using execution_cards_are_answered_once [OF sample_gates_ok, of 0 sample_answers 1 2 sample_gate_env sample_gate_sched sample_env]
      taken by (simp add: sample_answers_def gate_asked_def)
qed

end
