(* ===== verification/Spec2Isabelle.thy ===== *)
theory Spec2Isabelle
  imports CardPasses CardDelivery Callback IntakeProps ExecProps SchedCards SchedProps GateProps
begin

text \<open>
  Foxhound: the task ledger, the review cards and the execution of tasks.

  Foxhound (\<open>src/src/foxhound\<close>) keeps the commitments of a group in one SQLite database, asks a
  reader about them on cards, and lets workers carry them out under the reader's gates.  This
  development models the services that own the database:

    \<^item> \<open>task_ledger.py\<close>: tasks with a version, their event log and their work items
      (\<open>Ledger\<close>: \<open>transition\<close>, \<open>apply_task_transition\<close>), and the intake of candidate feeds
      (\<open>Intake\<close>: \<open>accept_native_candidates\<close>, with \<open>source_policy.py\<close> in \<open>SourcePolicy\<close>);
    \<^item> \<open>task_completion.py\<close>: evidence that a task is finished, recorded once, bound to a card,
      settled once (\<open>Completion\<close>);
    \<^item> \<open>task_relations.py\<close>: live and withdrawn relations between tasks, kept acyclic
      (\<open>Relations\<close>);
    \<^item> \<open>task_duplicate_proposals.py\<close>: proposed duplicates and their answers (\<open>Duplicates\<close>);
    \<^item> \<open>task_cards.py\<close>: the card service that schedules, leases, delivers and answers the cards
      and writes all of the tables above (\<open>Cards\<close>, \<open>CardQueue\<close>, \<open>CardActions\<close>, the wire form of an
      answer in \<open>Callback\<close>), with the bookkeeping of \<open>fused_task_titles.py\<close> its answers trigger;
    \<^item> \<open>change_reviews.py\<close>: the Keep/Undo cards of automatic changes (\<open>ChangeReviews\<close>);
    \<^item> \<open>task_execution.py\<close>: the workflow of a task.  \<open>Workflows\<close> has the row with its constraints and
      guards, \<open>Execution\<close> the claim of a worker (renewal, failure, retry) and the stale and expired
      passes, \<open>ExecGates\<close> the schedule and the reader's gates, \<open>Results\<close> the validation and the
      recording of a result, \<open>ExecClaim\<close> how a worker gets its work, with \<open>evaluate_task_conditions\<close>
      of \<open>task_scheduling.py\<close>; \<open>Owners\<close> is \<open>task_owner.py\<close> with \<open>speaker_ids.py\<close>;
    \<^item> \<open>task_scheduling.py\<close>: how a recommendation of the researcher changes the queue, the search
      for cycles in it (\<open>Dependencies\<close>), and the card that offers to undo the change (\<open>Scheduling\<close>,
      its text and buttons in \<open>SchedCards\<close>);
    \<^item> \<open>execution_cards.py\<close>: the cards that ask the reader about a workflow.  \<open>GateTables\<close> has the tables
      and the statements that cancel a card, which the undo of a scheduling change shares; \<open>Gates\<close> the
      joined row, the kind of card a workflow needs and the guards; \<open>GateQueue\<close> the stale cards and the
      creation of cards, \<open>GateDelivery\<close> the claims, delivery reports, repairs and the requeue,
      \<open>GatePresent\<close> the statistics, the digests of live runs and the presentations to take back,
      \<open>GateHolds\<close> the waiting for another owner's meeting, \<open>GateActions\<close> and \<open>GateConsole\<close> the answers
      (\<open>act\<close>, \<open>submit_input\<close>, \<open>comment_and_go\<close>, \<open>select_agent\<close>, \<open>resolve_queue_view\<close>).

  How the model corresponds to the code.  \<open>Store\<close> has one record per row type of
  \<open>candidate_inbox.py\<close>'s schema and one field of \<open>db\<close> per table, a list in insertion order.  An
  operation is a function of its arguments, the clock and the database.  It returns the new
  database with its result, or an exception of type \<open>exc\<close>; \<open>run_tx\<close> (\<open>Prelude\<close>) is the
  \<open>BEGIN IMMEDIATE ... commit / rollback\<close> frame that discards the writes of a call that raises, and
  \<open>commit_accepted\<close> the frame that also discards the writes of a refusal.
  \<open>UPDATE ... WHERE\<close> is \<open>update_where\<close>, \<open>cursor.rowcount\<close> is \<open>rowcount\<close>, an autoincremented id is
  \<open>next_id\<close> (rows are never deleted).  Unique indexes and CHECK constraints are tests that raise
  \<open>IntegrityError\<close> (\<open>wf_check\<close>, \<open>event_check\<close>, \<open>result_check\<close>, \<open>artifact_check\<close>,
  \<open>gate_check\<close>).

  What the lemmas show.  Each table has an invariant (\<open>ledger_inv\<close>, \<open>evidence_inv\<close>,
  \<open>relations_inv\<close>, \<open>dup_inv\<close>, \<open>cards_inv\<close>, \<open>exec_inv\<close>) kept by every operation of its module, and an
  order on rows (\<open>evolves\<close>, \<open>rel_evolves\<close>, \<open>dp_evolves\<close>, \<open>card_evolves\<close>, \<open>runs_on\<close>) that says what may
  change.  The interfaces the modules share are locales of \<open>Prelude\<close>: \<open>fenced_op\<close> and
  \<open>versioned_op\<close> (a request carries the version it read; accepted requests bump it), \<open>once_op\<close>
  (an accepted answer closes its question for good), \<open>append_only\<close> (rows only evolve) and \<open>question_store\<close> (the first answer wins); they are interpreted on the
  model's definitions in the theory of each module.

    \<^item> \<open>CardMachine\<close> is the abstract life of a card; \<open>System\<close>, \<open>CardProps\<close>, \<open>CardTheorems\<close>,
      \<open>CardPasses\<close> and \<open>CardDelivery\<close> show that every request of the card service keeps all
      invariants together, refines that machine, and what its claims, passes and answers do.
    \<^item> \<open>IntakeProps\<close>: a page of intake respects the reader and is all or nothing.
    \<^item> \<open>ExecInv\<close> is the invariant of the workflows: their event log explains every row.  \<open>ExecOps\<close>
      has the abstract life of a workflow (\<open>workflow_step\<close>) and shows that every operation of one
      workflow answers one version of it by one step.  \<open>ExecRuns\<close> does the same for the passes and
      for \<open>claim_next\<close>, \<open>ExecSteps\<close> for scheduling, renewals, priorities and results, and
      \<open>ExecService\<close> puts all of them behind one \<open>exec_step\<close>, interpreted as a \<open>fenced_op\<close>.
      \<open>ExecProps\<close> draws the properties: over every sequence of requests the log explains the rows,
      workers write only under their claim, claims are earned, a failed run is queued or parked as its
      failure says, rows and events pass their constraints,
      results open only what was granted, and recording twice is recording once.
    \<^item> \<open>LoggedTable\<close> is the invariant of a table of versioned rows with an event log, \<open>SchedInv\<close> the
      one of the queue: an acyclic graph of bounded depth.  \<open>SchedOps\<close> shows what every operation of
      the scheduling service keeps, \<open>SchedService\<close> puts it beside the execution service on one
      database (\<open>sched_step\<close>, twice a \<open>once_op\<close>), and \<open>SchedProps\<close> has the properties: the queue
      stays bounded, a recommendation is applied and a card answered at most once, undo gives the
      queue back, and the reader's priorities stand.
    \<^item> \<open>GateInv\<close> is the invariant of the cards of \<open>execution_cards.py\<close>: the log explains every card, a
      task has one active card, only a cancelled card is taken back.  \<open>GateQueueOps\<close>,
      \<open>GateDeliveryOps\<close> and \<open>GateHoldOps\<close> show that the passes, the deliveries and the holds keep it,
      \<open>GateAnswerOps\<close>, \<open>GateReplyOps\<close> and \<open>GateConsoleOps\<close> that the answers do, \<open>GateService\<close> that
      the scheduling service and the workers do.  \<open>GateMoves\<close> and \<open>GateSettle\<close> show that an accepted
      answer settles its card and moves its workflow by one version, and \<open>GateProps\<close> puts all requests
      behind one \<open>gate_step\<close>, a \<open>once_op\<close>: an execution card takes at most one answer.

  Conventions and bounds.  Time is \<open>int\<close> seconds: the code compares ISO texts of one fixed width in
  UTC, which order like their instants.  Texts are lists of ASCII characters.  SHA-256 is a parameter
  \<open>sha\<close> of the definitions that hash (its digests have 64 characters), the host's time zone a pair of
  parameters of the snooze.  \<open>_reaches\<close> is a terminating function (\<open>reaches_loop\<close>, its measure counts
  the vertices not yet seen), so no fuel is used anywhere.  The \<open>isinstance\<close> guards of the code are
  the types of the model.  The claim is that of a deployment without research before planning and
  without deadline ordering.

  Not modelled: rendering (HTML cards; whether a rendered execution card fits its transport is the
  parameter \<open>ge_fits\<close>), the artifact reads and the task brief of \<open>execution_cards.py\<close>, the scheduling pass over all tasks (\<open>schedule_new\<close>) with its caps, research and its ownership hold, the
  runner and the worker processes, the HTTP servers, the calls of language models and forges,
  command line parsing, the migrations, and foreign keys (the invariants speak of the rows the
  operations read).
\<close>

end
